(* ===== verification/Prelude.thy ===== *)
theory Prelude
  imports Complex_Main
begin

text \<open>
  Shared vocabulary of the development: the exceptions a JavaScript function of
  \<^verbatim>\<open>src/core\<close> may throw, the result type that carries them, the combinators the
  models are written with, and the generic facts about lists and strings that the
  component theories share.

  A JavaScript statement sequence \<^verbatim>\<open>assertA(x); assertB(y); return r\<close> becomes
  \<open>checks [assertA x, assertB y] (Inr r)\<close>, a binding
  \<^verbatim>\<open>const n = f(x); ...\<close> of a function that may throw becomes
  \<open>andThen (f x) (\<lambda>n. \<dots>)\<close>, and \<^verbatim>\<open>if (c) throw e\<close> becomes \<open>throwIf c e\<close>.
\<close>

section \<open>Exceptions and results\<close>

datatype js_error =
    TypeError string            \<comment> \<open>\<^verbatim>\<open>new TypeError(message)\<close>\<close>
  | RangeError string           \<comment> \<open>\<^verbatim>\<open>new RangeError(message)\<close>, thrown by the Date library\<close>
  | PlainError string           \<comment> \<open>\<^verbatim>\<open>new Error(message)\<close>\<close>
  | CodedError string string    \<comment> \<open>an \<^verbatim>\<open>Error\<close> with a \<^verbatim>\<open>code\<close> property, and its message\<close>

type_synonym 'a res = "js_error + 'a"

named_theorems res_simps \<open>inversion of the result combinators\<close>

definition andThen :: "'a res \<Rightarrow> ('a \<Rightarrow> 'b res) \<Rightarrow> 'b res" where
  "andThen m f = (case m of Inl e \<Rightarrow> Inl e | Inr x \<Rightarrow> f x)"

fun checks :: "unit res list \<Rightarrow> 'b res \<Rightarrow> 'b res" where
  "checks [] r = r"
| "checks (c # cs) r = (case c of Inl e \<Rightarrow> Inl e | Inr _ \<Rightarrow> checks cs r)"

definition throwIf :: "bool \<Rightarrow> js_error \<Rightarrow> unit res" where
  "throwIf b e = (if b then Inl e else Inr ())"

text \<open>\<^verbatim>\<open>xs.map(f)\<close> for a callback that may throw: the first exception wins.\<close>

fun mapRes :: "('a \<Rightarrow> 'b res) \<Rightarrow> 'a list \<Rightarrow> 'b list res" where
  "mapRes f [] = Inr []"
| "mapRes f (x # xs) = andThen (f x) (\<lambda>y. andThen (mapRes f xs) (\<lambda>ys. Inr (y # ys)))"

text \<open>\<^verbatim>\<open>for (const x of xs) s = f(s, x)\<close> for a body that may throw.\<close>

fun foldRes :: "('s \<Rightarrow> 'a \<Rightarrow> 's res) \<Rightarrow> 's \<Rightarrow> 'a list \<Rightarrow> 's res" where
  "foldRes f s [] = Inr s"
| "foldRes f s (x # xs) = andThen (f s x) (\<lambda>s'. foldRes f s' xs)"

lemma andThen_simps [simp]:
  "andThen (Inl e) f = Inl e"
  "andThen (Inr x) f = f x"
  by (simp_all add: andThen_def)

lemma andThen_Inr_iff [res_simps]:
  "andThen m f = Inr y \<longleftrightarrow> (\<exists>x. m = Inr x \<and> f x = Inr y)"
  by (cases m) auto

lemma andThen_Inl_iff:
  "andThen m f = Inl e \<longleftrightarrow> m = Inl e \<or> (\<exists>x. m = Inr x \<and> f x = Inl e)"
  by (cases m) auto

lemma checks_Inr_iff [res_simps]:
  "checks cs r = Inr y \<longleftrightarrow> (\<forall>c \<in> set cs. c = Inr ()) \<and> r = Inr y"
  by (induction cs) (auto split: sum.splits)

lemma checks_throwIf [simp]: "checks (throwIf b e # cs) r = Inl x \<longleftrightarrow> (if b then e = x else checks cs r = Inl x)"
  by (simp add: throwIf_def)

lemma checks_step [simp]: "checks (Inr u # cs) r = checks cs r" "checks (Inl e # cs) r = Inl e"
  by simp_all

declare checks.simps(2) [simp del]

lemma checks_passed:
  "\<forall>c \<in> set cs. c = Inr () \<Longrightarrow> checks cs r = r"
  by (induction cs) (auto simp: checks.simps)

lemma checks_append: "checks (cs @ ds) r = checks cs (checks ds r)"
  by (induction cs) (auto simp: checks.simps split: sum.splits)

lemma throwIf_Inr_iff [res_simps]: "throwIf b e = Inr u \<longleftrightarrow> \<not> b"
  by (simp add: throwIf_def)

lemma throwIf_simps [simp]:
  "throwIf True e = Inl e"
  "throwIf False e = Inr ()"
  by (simp_all add: throwIf_def)

lemma mapRes_Inr_iff [res_simps]:
  "mapRes f xs = Inr ys \<longleftrightarrow> list_all2 (\<lambda>x y. f x = Inr y) xs ys"
  by (induction xs arbitrary: ys) (auto simp: andThen_Inr_iff list_all2_Cons1)

lemma mapRes_length: "mapRes f xs = Inr ys \<Longrightarrow> length ys = length xs"
  by (auto simp: mapRes_Inr_iff dest: list_all2_lengthD)

lemma mapRes_pure: "(\<And>x. x \<in> set xs \<Longrightarrow> f x = Inr (g x)) \<Longrightarrow> mapRes f xs = Inr (map g xs)"
  by (induction xs) auto

lemma mapRes_nth: "mapRes f xs = Inr ys \<Longrightarrow> i < length xs \<Longrightarrow> f (xs ! i) = Inr (ys ! i)"
  by (auto simp: mapRes_Inr_iff dest: list_all2_nthD)

lemma mapRes_cong:
  "(\<And>x. x \<in> set xs \<Longrightarrow> f x = g x) \<Longrightarrow> mapRes f xs = mapRes g xs"
  by (induction xs) auto

lemma foldRes_append:
  "foldRes f s (xs @ ys) = andThen (foldRes f s xs) (\<lambda>s'. foldRes f s' ys)"
  by (induction xs arbitrary: s) (auto simp: andThen_def split: sum.splits)

text \<open>An invariant of the loop body is an invariant of the loop.\<close>

lemma foldRes_invariant:
  assumes "foldRes f s xs = Inr s'"
    and "P s"
    and "\<And>s x s'. x \<in> set xs \<Longrightarrow> P s \<Longrightarrow> f s x = Inr s' \<Longrightarrow> P s'"
  shows "P s'"
  using assms
proof (induction xs arbitrary: s)
  case Nil
  then show ?case by simp
next
  case (Cons x xs)
  from Cons.prems(1) obtain t where t: "f s x = Inr t" and rest: "foldRes f t xs = Inr s'"
    by (auto simp: andThen_Inr_iff)
  have "P t" using Cons.prems(3)[of x s t] Cons.prems(2) t by simp
  with rest show ?case
  proof (rule Cons.IH)
    fix s y s'
    assume "y \<in> set xs" and "P s" and "f s y = Inr s'"
    then show "P s'" using Cons.prems(3)[of y s s'] by simp
  qed
qed

section \<open>Lists\<close>

lemma sum_list_map_add:
  "sum_list (map (\<lambda>x. f x + g x) xs) = sum_list (map f xs) + sum_list (map (g :: 'a \<Rightarrow> int) xs)"
  by (induction xs) auto

lemma append_eq_prefix_free:
  assumes "xs @ a # rs = ys @ b # ss" and "a \<notin> set ys" and "b \<notin> set xs"
  shows "xs = ys \<and> a = b \<and> rs = ss"
  using assms
proof (induction xs arbitrary: ys)
  case Nil
  then show ?case by (cases ys) auto
next
  case (Cons x xs)
  then show ?case by (cases ys) auto
qed

end
