(* ===== verification/JsNumber.thy ===== *)
theory JsNumber
  imports Prelude
begin

text \<open>
  JavaScript numbers. A \<^verbatim>\<open>Number\<close> is an IEEE 754 double: a \<^verbatim>\<open>NaN\<close>, an infinity, a
  negative zero, or a finite value, kept here as the rational number it denotes.
  \<open>fl\<close> rounds a rational to the nearest double, ties to even, with the subnormal
  range; \<open>fl_num\<close> adds the overflow to an infinity. Every arithmetic operation of the
  source is the exact operation followed by \<open>fl\<close>.
  The facts proved here are the ones money computations rest on: integers up to
  \<open>2 ^ 53\<close> are exact, rounding is monotone, and its relative error is at most
  \<open>2 ^ -53\<close>.
\<close>

section \<open>Values\<close>

datatype jsnum = NaN | PosInf | NegInf | NegZero | Fin rat

definition MAX_SAFE_INTEGER :: int where
  "MAX_SAFE_INTEGER = 9007199254740991"

definition isFinite :: "jsnum \<Rightarrow> bool" where
  "isFinite n = (case n of Fin _ \<Rightarrow> True | NegZero \<Rightarrow> True | _ \<Rightarrow> False)"

definition rat_is_int :: "rat \<Rightarrow> bool" where
  "rat_is_int r \<longleftrightarrow> snd (quotient_of r) = 1"

text \<open>\<^verbatim>\<open>Number.isSafeInteger\<close>, with the integer it holds; \<^verbatim>\<open>-0\<close> is a safe integer.\<close>

definition safe_int :: "jsnum \<Rightarrow> int option" where
  "safe_int n = (case n of
       Fin r \<Rightarrow> (if rat_is_int r \<and> \<bar>\<lfloor>r\<rfloor>\<bar> \<le> MAX_SAFE_INTEGER then Some \<lfloor>r\<rfloor> else None)
     | NegZero \<Rightarrow> Some 0
     | _ \<Rightarrow> None)"

definition is_safe :: "int \<Rightarrow> bool" where
  "is_safe n \<longleftrightarrow> \<bar>n\<bar> \<le> MAX_SAFE_INTEGER"

definition num_of_int :: "int \<Rightarrow> jsnum" where
  "num_of_int n = Fin (of_int n)"

section \<open>Rounding to double precision\<close>

text \<open>Round half to even.\<close>

definition rne :: "rat \<Rightarrow> int" where
  "rne x = (let f = \<lfloor>x\<rfloor>; d = x - of_int f in
     if d < 1 / 2 then f else if d > 1 / 2 then f + 1 else if even f then f else f + 1)"

definition pow2 :: "int \<Rightarrow> rat" where
  "pow2 k = 2 powi k"

text \<open>The exponent of the leading bit of a positive rational, by counting.\<close>

function lead_up :: "int \<Rightarrow> int" where
  "lead_up n = (if n \<le> 1 then 0 else 1 + lead_up (n div 2))"
  by pat_completeness auto
termination by (relation "measure nat") auto

declare lead_up.simps [simp del]

definition ilog2 :: "rat \<Rightarrow> int" where
  "ilog2 x = (let (p, q) = quotient_of x; k = lead_up p - lead_up q
     in if pow2 k \<le> x then k else k - 1)"

definition ulp_exp :: "rat \<Rightarrow> int" where
  "ulp_exp x = max (-1074) (ilog2 \<bar>x\<bar> - 52)"

definition fl :: "rat \<Rightarrow> rat" where
  "fl x = (if x = 0 then 0 else of_int (rne (x / pow2 (ulp_exp x))) * pow2 (ulp_exp x))"

definition fl_num :: "rat \<Rightarrow> jsnum" where
  "fl_num x = (let y = fl x in
     if y \<ge> 2 ^ 1024 then PosInf else if y \<le> - (2 ^ 1024) then NegInf
     else if y = 0 \<and> x < 0 then NegZero else Fin y)"

text \<open>Addition and subtraction of integer-valued doubles, as a safe-integer sum is computed.\<close>

definition add_int :: "int \<Rightarrow> int \<Rightarrow> int" where
  "add_int a b = \<lfloor>fl (of_int (a + b))\<rfloor>"

text \<open>\<^verbatim>\<open>Math.floor((a * b) / c)\<close> on integer-valued doubles.\<close>

definition floor_mul_div :: "int \<Rightarrow> int \<Rightarrow> int \<Rightarrow> int" where
  "floor_mul_div a b c = \<lfloor>fl (fl (of_int (a * b)) / of_int c)\<rfloor>"

text \<open>\<^verbatim>\<open>Math.floor(a * d)\<close> for an integer-valued double and a decimal literal \<^verbatim>\<open>d\<close>.\<close>

definition floor_mul_lit :: "int \<Rightarrow> rat \<Rightarrow> int" where
  "floor_mul_lit a d = \<lfloor>fl (of_int a * fl d)\<rfloor>"

section \<open>Safe integers\<close>

lemma rat_is_int_iff: "rat_is_int r \<longleftrightarrow> r \<in> \<int>"
proof
  assume "rat_is_int r"
  then obtain p where "quotient_of r = (p, 1)"
    by (metis rat_is_int_def prod.collapse)
  then have "r = of_int p" using quotient_of_div by fastforce
  then show "r \<in> \<int>" by simp
next
  assume "r \<in> \<int>"
  then show "rat_is_int r" by (auto simp: rat_is_int_def elim!: Ints_cases)
qed

lemma safe_int_num_of_int [simp]: "safe_int (num_of_int n) = (if is_safe n then Some n else None)"
  by (auto simp: safe_int_def num_of_int_def is_safe_def rat_is_int_iff)

lemma safe_int_Some: "safe_int n = Some i \<Longrightarrow> is_safe i"
  by (auto simp: safe_int_def is_safe_def MAX_SAFE_INTEGER_def split: jsnum.splits if_splits)

lemma safe_int_Some_iff:
  "safe_int n = Some i \<longleftrightarrow> is_safe i \<and> (n = num_of_int i \<or> n = NegZero \<and> i = 0)"
  by (cases n)
    (auto simp: safe_int_def is_safe_def num_of_int_def rat_is_int_iff MAX_SAFE_INTEGER_def
      elim!: Ints_cases)

lemma is_safe_0 [simp]: "is_safe 0"
  by (simp add: is_safe_def MAX_SAFE_INTEGER_def)

lemma is_safe_bounds: "is_safe n \<longleftrightarrow> - 9007199254740991 \<le> n \<and> n \<le> 9007199254740991"
  by (auto simp: is_safe_def MAX_SAFE_INTEGER_def)

section \<open>Facts about rounding\<close>

lemma pow2_pos [simp]: "0 < pow2 k"
  by (simp add: pow2_def)

lemma pow2_nonneg [simp]: "0 \<le> pow2 k"
  using pow2_pos[of k] by linarith

lemma pow2_nonzero [simp]: "pow2 k \<noteq> 0"
  using pow2_pos[of k] by linarith

lemma pow2_add: "pow2 (a + b) = pow2 a * pow2 b"
  by (simp add: pow2_def power_int_add)

lemma pow2_Suc: "pow2 (a + 1) = 2 * pow2 a"
  by (simp add: pow2_def power_int_add)

lemma pow2_mono: "a \<le> b \<Longrightarrow> pow2 a \<le> pow2 b"
  by (simp add: pow2_def power_int_increasing)

lemma pow2_strict_mono: "a < b \<Longrightarrow> pow2 a < pow2 b"
  by (simp add: pow2_def power_int_strict_increasing)

lemma pow2_less_iff [simp]: "pow2 a < pow2 b \<longleftrightarrow> a < b"
  by (metis pow2_mono pow2_strict_mono leD not_le)

lemma pow2_nat: "0 \<le> k \<Longrightarrow> pow2 k = of_int (2 ^ nat k)"
  by (simp add: pow2_def power_int_def)

lemma lead_up_bounds:
  "1 \<le> n \<Longrightarrow> 0 \<le> lead_up n \<and> 2 ^ nat (lead_up n) \<le> n \<and> n < 2 ^ nat (lead_up n + 1)"
proof (induction n rule: lead_up.induct)
  case (1 n)
  show ?case
  proof (cases "n \<le> 1")
    case True
    with "1.prems" have "n = 1" by simp
    then show ?thesis by (simp add: lead_up.simps)
  next
    case False
    let ?l = "lead_up (n div 2)"
    have IH: "0 \<le> ?l \<and> 2 ^ nat ?l \<le> n div 2 \<and> n div 2 < 2 ^ nat (?l + 1)"
      using "1.IH" False by simp
    have "nat (1 + ?l) = Suc (nat ?l)" and "nat (1 + ?l + 1) = Suc (nat (?l + 1))"
      using IH by linarith+
    then have "2 ^ nat (1 + ?l) = (2 :: int) * 2 ^ nat ?l"
      and "2 ^ nat (1 + ?l + 1) = (2 :: int) * 2 ^ nat (?l + 1)"
      by simp_all
    then have "2 ^ nat (1 + ?l) \<le> n" and "n < 2 ^ nat (1 + ?l + 1)"
      using IH by linarith+
    then show ?thesis using IH False by (simp add: lead_up.simps[of n])
  qed
qed

lemma lead_up_pow2:
  assumes "1 \<le> n"
  shows "pow2 (lead_up n) \<le> of_int n" and "of_int n < pow2 (lead_up n + 1)"
proof -
  note b = lead_up_bounds[OF assms]
  have "(of_int (2 ^ nat (lead_up n)) :: rat) \<le> of_int n"
    using b by (subst of_int_le_iff) simp
  then show "pow2 (lead_up n) \<le> of_int n" using b by (simp add: pow2_nat)
  have "(of_int n :: rat) < of_int (2 ^ nat (lead_up n + 1))"
    using b by (subst of_int_less_iff) simp
  then show "of_int n < pow2 (lead_up n + 1)" using b by (simp add: pow2_nat)
qed

lemma ilog2_bounds:
  assumes "0 < x"
  shows "pow2 (ilog2 x) \<le> x" and "x < pow2 (ilog2 x + 1)"
proof -
  obtain p q where pq: "quotient_of x = (p, q)" by (cases "quotient_of x")
  have q: "0 < q" and x: "x = of_int p / of_int q"
    using quotient_of_denom_pos[OF pq] quotient_of_div[OF pq] by auto
  with assms have p: "0 < p" by (simp add: zero_less_divide_iff)
  let ?a = "lead_up p" and ?b = "lead_up q"
  have A: "pow2 ?a \<le> of_int p" "of_int p < 2 * pow2 ?a"
    and B: "pow2 ?b \<le> of_int q" "of_int q < 2 * pow2 ?b"
    using lead_up_pow2[of p] lead_up_pow2[of q] p q by (auto simp: pow2_Suc)
  have sub: "pow2 (?a - ?b) = pow2 ?a / pow2 ?b"
    by (simp add: pow2_def power_int_diff)
  have up: "x < 2 * (pow2 ?a / pow2 ?b)"
  proof -
    have "of_int p * pow2 ?b \<le> of_int p * of_int q"
      using B(1) p by (intro mult_left_mono) auto
    also have "\<dots> < (2 * pow2 ?a) * of_int q"
      using A(2) q by (intro mult_strict_right_mono) auto
    finally have "of_int p * pow2 ?b < (2 * pow2 ?a) * of_int q" .
    then show ?thesis using q by (simp add: x field_simps)
  qed
  have lo: "pow2 ?a / pow2 ?b / 2 < x"
  proof -
    have "pow2 ?a * of_int q < pow2 ?a * (2 * pow2 ?b)"
      using B(2) by (intro mult_strict_left_mono) auto
    also have "\<dots> \<le> of_int p * (2 * pow2 ?b)"
      using A(1) by (intro mult_right_mono) (auto intro: order.strict_implies_order)
    finally have "pow2 ?a * of_int q < of_int p * (2 * pow2 ?b)" .
    then show ?thesis using q by (simp add: x field_simps)
  qed
  have k: "pow2 (?a - ?b - 1) = pow2 ?a / pow2 ?b / 2"
    using pow2_Suc[of "?a - ?b - 1"] by (simp add: sub)
  show "pow2 (ilog2 x) \<le> x"
    using lo by (auto simp: ilog2_def pq k Let_def)
  show "x < pow2 (ilog2 x + 1)"
    using up pow2_Suc[of "?a - ?b"] by (auto simp: ilog2_def pq sub Let_def)
qed

lemma ilog2_mono: "0 < x \<Longrightarrow> x \<le> y \<Longrightarrow> ilog2 x \<le> ilog2 y"
proof -
  assume "0 < x" and "x \<le> y"
  then have "pow2 (ilog2 x) < pow2 (ilog2 y + 1)"
    using ilog2_bounds(1)[of x] ilog2_bounds(2)[of y] by linarith
  then show ?thesis by simp
qed

lemma rne_of_int [simp]: "rne (of_int n) = n"
  by (simp add: rne_def)

lemma rne_error: "\<bar>of_int (rne x) - x\<bar> \<le> 1 / 2"
proof -
  define f where "f = \<lfloor>x\<rfloor>"
  have "of_int f \<le> x" and "x < of_int f + 1" unfolding f_def by linarith+
  then show ?thesis by (auto simp: rne_def Let_def f_def[symmetric] abs_le_iff)
qed

lemma rne_mono: "x \<le> y \<Longrightarrow> rne x \<le> rne y"
proof -
  assume le: "x \<le> y"
  define f g where fg: "f = \<lfloor>x\<rfloor>" "g = \<lfloor>y\<rfloor>"
  have "f \<le> g" using le by (simp add: fg floor_mono)
  moreover have "rne x = f \<or> rne x = f + 1" and "rne y = g \<or> rne y = g + 1"
    by (auto simp: rne_def Let_def fg)
  moreover have "f = g \<Longrightarrow> rne x \<le> rne y"
    using le by (auto simp: rne_def Let_def fg)
  ultimately show ?thesis by linarith
qed

lemma rne_minus: "rne (- x) = - rne x"
proof (cases "x \<in> \<int>")
  case True
  then obtain n where "x = of_int n" by (auto elim: Ints_cases)
  then show ?thesis by (metis of_int_minus rne_of_int)
next
  case False
  define f where "f = \<lfloor>x\<rfloor>"
  have c: "\<lfloor>- x\<rfloor> = - f - 1"
    using False by (metis ceiling_altdef ceiling_def f_def floor_of_int Ints_of_int minus_diff_eq
        diff_minus_eq_add add.commute uminus_add_conv_diff add.inverse_inverse)
  have "x - of_int f = 1 - (- x - of_int (- f - 1))" by simp
  then show ?thesis by (auto simp: rne_def Let_def c f_def[symmetric])
qed


text \<open>A quotient by the unit in the last place has at most 53 bits.\<close>

lemma scaled_lt:
  assumes "0 < x"
  shows "x / pow2 (ulp_exp x) < 2 ^ 53"
proof -
  have "x < pow2 (ilog2 x + 1)" by (rule ilog2_bounds[OF assms])
  also have "\<dots> \<le> pow2 (53 + ulp_exp x)"
    using assms by (intro pow2_mono) (simp add: ulp_exp_def)
  also have "\<dots> = 2 ^ 53 * pow2 (ulp_exp x)"
    by (simp add: pow2_add) (simp add: pow2_def power_int_def)
  finally show ?thesis by (simp add: field_simps)
qed

lemma fl_0 [simp]: "fl 0 = 0"
  by (simp add: fl_def)

lemma fl_minus: "fl (- x) = - fl x"
  by (simp add: fl_def ulp_exp_def rne_minus)

lemma fl_nonneg:
  assumes "0 \<le> x"
  shows "0 \<le> fl x"
proof -
  have "0 \<le> x / pow2 (ulp_exp x)" using assms by simp
  then have "0 \<le> rne (x / pow2 (ulp_exp x))"
    using rne_mono[of 0 "x / pow2 (ulp_exp x)"] rne_of_int[of 0] by simp
  then show ?thesis by (simp add: fl_def)
qed

lemma fl_le_pow2:
  assumes "0 < x"
  shows "fl x \<le> 2 ^ 53 * pow2 (ulp_exp x)"
proof -
  have "rne (x / pow2 (ulp_exp x)) \<le> rne (of_int (2 ^ 53))"
    using scaled_lt[OF assms] by (intro rne_mono) simp
  then have "rne (x / pow2 (ulp_exp x)) \<le> 2 ^ 53"
    by (simp only: rne_of_int)
  then have "(of_int (rne (x / pow2 (ulp_exp x))) :: rat) \<le> of_int (2 ^ 53)"
    by (simp only: of_int_le_iff)
  then show ?thesis using assms
    by (simp add: fl_def)
qed

lemma pow2_le_fl:
  assumes "0 < x" and "-1074 < ulp_exp x"
  shows "2 ^ 52 * pow2 (ulp_exp x) \<le> fl x"
proof -
  have e: "ilog2 x = 52 + ulp_exp x" using assms by (auto simp: ulp_exp_def)
  have "2 ^ 52 * pow2 (ulp_exp x) = pow2 (52 + ulp_exp x)"
    by (simp add: pow2_add) (simp add: pow2_def power_int_def)
  also have "\<dots> \<le> x" using ilog2_bounds(1)[OF assms(1)] by (simp add: e)
  finally have "of_int (2 ^ 52) \<le> x / pow2 (ulp_exp x)" by (simp add: field_simps)
  then have "2 ^ 52 \<le> rne (x / pow2 (ulp_exp x))"
    by (metis rne_mono rne_of_int)
  then have "(of_int (2 ^ 52) :: rat) \<le> of_int (rne (x / pow2 (ulp_exp x)))"
    by (simp only: of_int_le_iff)
  then show ?thesis using assms(1) by (simp add: fl_def)
qed

lemma fl_mono_pos:
  assumes "0 < x" and "x \<le> y"
  shows "fl x \<le> fl y"
proof (cases "ulp_exp x = ulp_exp y")
  case True
  have "rne (x / pow2 (ulp_exp x)) \<le> rne (y / pow2 (ulp_exp x))"
    using assms(2) by (intro rne_mono) (simp add: divide_right_mono order.strict_implies_order)
  then show ?thesis using assms True
    by (auto simp: fl_def intro!: mult_right_mono order.strict_implies_order)
next
  case False
  then have lt: "ulp_exp x < ulp_exp y"
    using ilog2_mono[OF assms] assms by (auto simp: ulp_exp_def)
  then have "-1074 < ulp_exp y" using assms by (simp add: ulp_exp_def)
  have "fl x \<le> 2 ^ 53 * pow2 (ulp_exp x)" by (rule fl_le_pow2[OF assms(1)])
  also have "\<dots> = 2 ^ 52 * pow2 (ulp_exp x + 1)" by (simp add: pow2_Suc)
  also have "\<dots> \<le> 2 ^ 52 * pow2 (ulp_exp y)"
    using lt by (intro mult_left_mono pow2_mono) auto
  also have "\<dots> \<le> fl y" using assms \<open>-1074 < ulp_exp y\<close> by (intro pow2_le_fl) auto
  finally show ?thesis .
qed

lemma fl_mono:
  assumes "x \<le> y"
  shows "fl x \<le> fl y"
proof -
  consider "0 < x" | "x \<le> 0" "0 \<le> y" | "y < 0" by linarith
  then show ?thesis
  proof cases
    case 1
    then show ?thesis using assms by (rule fl_mono_pos)
  next
    case 2
    then have "0 \<le> fl (- x)" and "0 \<le> fl y" by (auto intro: fl_nonneg)
    then show ?thesis by (simp add: fl_minus)
  next
    case 3
    then have "fl (- y) \<le> fl (- x)" using assms by (intro fl_mono_pos) auto
    then show ?thesis by (simp add: fl_minus)
  qed
qed

lemma fl_of_nat_exact:
  assumes "0 < n" and "n < 2 ^ 53"
  shows "fl (of_int n) = of_int n"
proof -
  let ?x = "of_int n :: rat"
  have "pow2 (ilog2 ?x) \<le> ?x" using assms by (intro ilog2_bounds) simp
  also have "\<dots> < of_int (2 ^ 53)" using assms(2) by (simp only: of_int_less_iff)
  also have "\<dots> = pow2 53" by (simp add: pow2_def power_int_def)
  finally have "ulp_exp ?x \<le> 0" using assms(1) by (simp add: ulp_exp_def)
  define m where "m = nat (- ulp_exp ?x)"
  have m: "pow2 (ulp_exp ?x) = 1 / of_int (2 ^ m)"
    using \<open>ulp_exp ?x \<le> 0\<close>
    by (cases "ulp_exp ?x = 0") (simp_all add: pow2_def power_int_def m_def field_simps)
  then have q: "?x / pow2 (ulp_exp ?x) = of_int (n * 2 ^ m)" by simp
  have "fl ?x = of_int (n * 2 ^ m) * pow2 (ulp_exp ?x)"
    using assms(1) unfolding fl_def q rne_of_int by simp
  then show ?thesis unfolding m by simp
qed

lemma fl_2_53: "fl (2 ^ 53) = 2 ^ 53"
  by code_simp

lemma fl_of_int:
  assumes "\<bar>n\<bar> \<le> 2 ^ 53"
  shows "fl (of_int n) = of_int n"
proof -
  have pos: "fl (of_int k) = of_int k" if "0 \<le> k" "k \<le> 2 ^ 53" for k
  proof (cases "k = 2 ^ 53")
    case True
    then show ?thesis using fl_2_53 by simp
  next
    case False
    then show ?thesis using that fl_of_nat_exact[of k] by (cases "k = 0") auto
  qed
  show ?thesis
  proof (cases "0 \<le> n")
    case True
    then show ?thesis using assms by (intro pos) auto
  next
    case False
    then have "fl (of_int (- n)) = of_int (- n)" using assms by (intro pos) auto
    then show ?thesis using fl_minus[of "of_int n"] by simp
  qed
qed

lemma fl_rel_error:
  assumes "pow2 (-1000) \<le> \<bar>x\<bar>"
  shows "\<bar>fl x - x\<bar> \<le> \<bar>x\<bar> / 2 ^ 53"
proof -
  have x0: "x \<noteq> 0" and pos: "0 < \<bar>x\<bar>" using assms pow2_pos[of "-1000"] by (simp_all add: not_le[symmetric])
  let ?e = "ulp_exp x"
  have "pow2 (-1000) < pow2 (ilog2 \<bar>x\<bar> + 1)"
    using ilog2_bounds(2)[OF pos] assms by linarith
  then have e: "?e = ilog2 \<bar>x\<bar> - 52" by (simp add: ulp_exp_def)
  have "pow2 ?e * 2 ^ 52 = pow2 (ilog2 \<bar>x\<bar>)"
    using pow2_add[of ?e 52] by (simp add: e) (simp add: pow2_def power_int_def)
  then have u: "pow2 ?e * 2 ^ 52 \<le> \<bar>x\<bar>" using ilog2_bounds(1)[OF pos] by simp
  have "fl x - x = (of_int (rne (x / pow2 ?e)) - x / pow2 ?e) * pow2 ?e"
    using x0 by (simp add: fl_def algebra_simps)
  then have "\<bar>fl x - x\<bar> = \<bar>of_int (rne (x / pow2 ?e)) - x / pow2 ?e\<bar> * pow2 ?e"
    by (simp add: abs_mult)
  also have "\<dots> \<le> 1 / 2 * pow2 ?e"
    by (intro mult_right_mono rne_error) (simp add: order.strict_implies_order)
  also have "\<dots> \<le> \<bar>x\<bar> / 2 ^ 53" using u by simp
  finally show ?thesis .
qed


section \<open>Integer arithmetic in doubles\<close>

lemma add_int_exact: "\<bar>a + b\<bar> \<le> 2 ^ 53 \<Longrightarrow> add_int a b = a + b"
  unfolding add_int_def by (subst fl_of_int) simp_all

lemma fl_unsafe:
  assumes "2 ^ 53 \<le> n"
  shows "2 ^ 53 \<le> fl (of_int n)"
proof -
  have "fl (of_int (2 ^ 53)) \<le> fl (of_int n)"
    using assms by (intro fl_mono) (simp only: of_int_le_iff)
  moreover have "fl (of_int (2 ^ 53)) = 2 ^ 53" by (rule trans[OF _ fl_2_53]) simp
  ultimately show ?thesis by simp
qed

text \<open>A sum is a safe integer after rounding exactly when the exact sum is one, and then
  rounding did nothing. This is why a \<^verbatim>\<open>Number.isSafeInteger\<close> check on the result of one
  addition is a sound overflow check.\<close>

lemma safe_add_int: "is_safe (add_int a b) \<longleftrightarrow> is_safe (a + b)"
proof (cases "\<bar>a + b\<bar> \<le> 2 ^ 53")
  case True
  then show ?thesis by (simp add: add_int_exact)
next
  case False
  then consider "2 ^ 53 \<le> a + b" | "2 ^ 53 \<le> - (a + b)" by linarith
  then show ?thesis
  proof cases
    case 1
    then have "2 ^ 53 \<le> fl (of_int (a + b))" by (rule fl_unsafe)
    then have "2 ^ 53 \<le> add_int a b" by (simp add: add_int_def le_floor_iff)
    then show ?thesis using 1 by (auto simp: is_safe_bounds)
  next
    case 2
    then have "2 ^ 53 \<le> fl (of_int (- (a + b)))" by (rule fl_unsafe)
    then have "fl (of_int (a + b)) \<le> of_int (- (2 ^ 53))"
      using fl_minus[of "of_int (a + b)"] by simp
    then have "add_int a b \<le> - (2 ^ 53)"
      unfolding add_int_def by (metis floor_mono floor_of_int)
    then show ?thesis using 2 by (auto simp: is_safe_bounds)
  qed
qed

lemma add_int_safe: "is_safe (a + b) \<Longrightarrow> add_int a b = a + b"
  by (rule add_int_exact) (auto simp: is_safe_bounds)

lemma floor_mul_div_nonneg:
  "0 \<le> a \<Longrightarrow> 0 \<le> b \<Longrightarrow> 0 < c \<Longrightarrow> 0 \<le> floor_mul_div a b c"
  by (auto simp: floor_mul_div_def intro!: fl_nonneg divide_nonneg_pos)

lemma floor_fl_div_exact:
  assumes "0 \<le> n" and "n < 2 ^ 53" and "0 < c" and "c \<le> 2 ^ 53"
  shows "\<lfloor>fl (of_int n / of_int c)\<rfloor> = n div c"
proof (cases "n = 0")
  case True
  then show ?thesis by simp
next
  case False
  let ?x = "of_int n / of_int c :: rat" and ?k = "n div c"
  have c0: "(0 :: rat) < of_int c" using assms(3) by simp
  have k: "0 \<le> ?k" "?k < 2 ^ 53"
    using assms by (auto simp: pos_imp_zdiv_nonneg_iff intro: le_less_trans[OF zdiv_mono2[of n 1 c]])
  have split: "n = c * ?k + n mod c" and "0 \<le> n mod c" and "n mod c < c"
    using assms(3) by simp_all
  then have "c * ?k \<le> n" and n_lt: "n + 1 \<le> c * (?k + 1)"
    unfolding distrib_left by linarith+
  have "(of_int c * of_int ?k :: rat) \<le> of_int n"
    using \<open>c * ?k \<le> n\<close> by (metis of_int_le_iff of_int_mult)
  then have "of_int ?k \<le> ?x" using c0 by (simp add: field_simps)
  then have "fl (of_int ?k) \<le> fl ?x" by (rule fl_mono)
  then have lo: "of_int ?k \<le> fl ?x" using k by (simp add: fl_of_int)
  have "1 \<le> n" using False assms(1) by linarith
  then have x1: "1 / of_int c \<le> ?x" using c0 by (simp add: divide_right_mono)
  have "pow2 (-53) = 1 / 2 ^ 53" by (simp add: pow2_def power_int_def field_simps)
  then have "pow2 (-1000) \<le> 1 / 2 ^ 53" using pow2_mono[of "-1000" "-53"] by simp
  also have "\<dots> \<le> 1 / of_int c"
  proof -
    have "(of_int c :: rat) \<le> of_int (2 ^ 53)" using assms(4) by (simp only: of_int_le_iff)
    then show ?thesis using c0 by (simp add: field_simps)
  qed
  finally have "pow2 (-1000) \<le> \<bar>?x\<bar>" using x1 c0 assms(1) by simp
  then have "\<bar>fl ?x - ?x\<bar> \<le> \<bar>?x\<bar> / 2 ^ 53" by (rule fl_rel_error)
  then have "fl ?x \<le> ?x + ?x / 2 ^ 53" using assms(1) c0 by (simp add: abs_le_iff)
  also have "\<dots> < ?x + 1 / of_int c"
  proof -
    have "(of_int n :: rat) < of_int (2 ^ 53)" using assms(2) by (simp only: of_int_less_iff)
    then show ?thesis using c0 by (simp add: field_simps)
  qed
  also have "\<dots> \<le> of_int ?k + 1"
  proof -
    have "(of_int (n + 1) :: rat) \<le> of_int (c * (?k + 1))"
      using n_lt by (simp only: of_int_le_iff)
    then have "of_int n + 1 \<le> (of_int ?k + 1) * (of_int c :: rat)"
      by (simp add: mult.commute)
    then show ?thesis using c0 by (simp add: add_divide_distrib[symmetric] pos_divide_le_eq)
  qed
  finally show ?thesis using lo by (intro floor_unique) auto
qed

text \<open>The proportional split is the exact floor whenever the product stays below \<open>2 ^ 53\<close>.\<close>

lemma floor_mul_div_exact:
  assumes "0 \<le> a" and "0 \<le> b" and "a * b < 2 ^ 53" and "0 < c" and "c \<le> 2 ^ 53"
  shows "floor_mul_div a b c = a * b div c"
proof -
  have "0 \<le> a * b" using assms by simp
  then have "fl (of_int (a * b)) = of_int (a * b)" using assms by (intro fl_of_int) simp
  then have "floor_mul_div a b c = \<lfloor>fl (of_int (a * b) / of_int c)\<rfloor>"
    unfolding floor_mul_div_def by (simp only:)
  then show ?thesis using floor_fl_div_exact[of "a * b" c] \<open>0 \<le> a * b\<close> assms by (simp only:)
qed

end
