(* ===== verification/JsValue.thy ===== *)
theory JsValue
  imports JsNumber
begin

text \<open>
  JavaScript values as the functions of \<^verbatim>\<open>src/core\<close> see them, with the operations of
  the language and its standard library that those functions use: property reads,
  \<^verbatim>\<open>??\<close>, truthiness, \<^verbatim>\<open>String(\<dots>)\<close>, \<^verbatim>\<open>Number(\<dots>)\<close>, \<^verbatim>\<open>trim\<close>, the case conversions,
  \<^verbatim>\<open>Date.parse\<close> and \<^verbatim>\<open>toISOString\<close>, and object spread.

  \<^item> Strings are lists of code units below 256; \<^verbatim>\<open>trim\<close> strips the white space and line
    terminators of that range, and the case conversions are those of that range.
  \<^item> A plain object is the list of its own properties in enumeration order: array-index
    keys first in ascending order, then the other keys in order of creation. Assigning to
    the key \<^verbatim>\<open>__proto__\<close> creates no own property. The prototype slot itself is not
    modelled.
  \<^item> \<open>JDate\<close> is a \<^verbatim>\<open>Date\<close> instance, the exotic object the code distinguishes from a
    plain object; \<open>JFun\<close> is a function, known by its source text. Symbols are not modelled.
  \<^item> \<^verbatim>\<open>Date.parse\<close> is the parser of the ECMAScript date-time string format, in a process
    whose local time zone is UTC, with V8's tolerance for a day of month up to 31 and for
    any number of fraction digits. Strings outside the format give NaN, as the standard
    asks of strings no implementation recognises.
\<close>

section \<open>Values\<close>

datatype jsval =
    JUndef
  | JNull
  | JBool bool
  | JNum jsnum
  | JStr string
  | JArr "jsval list"
  | JObj "(string \<times> jsval) list"
  | JDate int
  | JBigInt int
  | JFun string

type_synonym props = "(string \<times> jsval) list"

abbreviation JInt :: "int \<Rightarrow> jsval" where
  "JInt n \<equiv> JNum (num_of_int n)"

fun js_typeof :: "jsval \<Rightarrow> string" where
  "js_typeof JUndef = ''undefined''"
| "js_typeof JNull = ''object''"
| "js_typeof (JBool _) = ''boolean''"
| "js_typeof (JNum _) = ''number''"
| "js_typeof (JStr _) = ''string''"
| "js_typeof (JArr _) = ''object''"
| "js_typeof (JObj _) = ''object''"
| "js_typeof (JDate _) = ''object''"
| "js_typeof (JBigInt _) = ''bigint''"
| "js_typeof (JFun _) = ''function''"

text \<open>\<^verbatim>\<open>v === null || v === undefined\<close>, the test behind \<^verbatim>\<open>??\<close> and \<^verbatim>\<open>?.\<close>.\<close>

definition nullish :: "jsval \<Rightarrow> bool" where
  "nullish v \<longleftrightarrow> v = JUndef \<or> v = JNull"

definition orElse :: "jsval \<Rightarrow> jsval \<Rightarrow> jsval" where
  "orElse v d = (if nullish v then d else v)"

text \<open>A default parameter value replaces \<^verbatim>\<open>undefined\<close> only.\<close>

definition dflt :: "jsval \<Rightarrow> jsval \<Rightarrow> jsval" where
  "dflt v d = (if v = JUndef then d else v)"

fun truthy :: "jsval \<Rightarrow> bool" where
  "truthy JUndef = False"
| "truthy JNull = False"
| "truthy (JBool b) = b"
| "truthy (JNum n) = (n \<noteq> NaN \<and> n \<noteq> NegZero \<and> n \<noteq> Fin 0)"
| "truthy (JStr s) = (s \<noteq> [])"
| "truthy (JBigInt n) = (n \<noteq> 0)"
| "truthy _ = True"

definition isArray :: "jsval \<Rightarrow> bool" where
  "isArray v = (case v of JArr _ \<Rightarrow> True | _ \<Rightarrow> False)"

text \<open>\<^verbatim>\<open>!v || typeof v !== "object" || Array.isArray(v)\<close>, negated.\<close>

definition isObjectLike :: "jsval \<Rightarrow> bool" where
  "isObjectLike v = (case v of JObj _ \<Rightarrow> True | JDate _ \<Rightarrow> True | _ \<Rightarrow> False)"

section \<open>Objects\<close>

text \<open>Reading \<^verbatim>\<open>v?.k\<close>: an absent property, like every property of a primitive, is undefined.\<close>

fun getp :: "jsval \<Rightarrow> string \<Rightarrow> jsval" where
  "getp (JObj ps) k = (case map_of ps k of None \<Rightarrow> JUndef | Some v \<Rightarrow> v)"
| "getp _ k = JUndef"

fun hasOwn :: "jsval \<Rightarrow> string \<Rightarrow> bool" where
  "hasOwn (JObj ps) k = (k \<in> fst ` set ps)"
| "hasOwn _ k = False"

fun digits_val :: "string \<Rightarrow> int" where
  "digits_val [] = 0"
| "digits_val (c # cs) = (of_char c - 48) * 10 ^ length cs + digits_val cs"

definition is_digit :: "char \<Rightarrow> bool" where
  "is_digit c \<longleftrightarrow> 48 \<le> (of_char c :: int) \<and> (of_char c :: int) \<le> 57"

text \<open>An array index: a canonical decimal numeral below \<open>2 ^ 32 - 1\<close>.\<close>

definition array_index :: "string \<Rightarrow> int option" where
  "array_index k =
     (if k \<noteq> [] \<and> list_all is_digit k \<and> (k = ''0'' \<or> hd k \<noteq> CHR ''0'') \<and> length k \<le> 10
        \<and> digits_val k < 4294967295
      then Some (digits_val k) else None)"

fun insert_prop :: "string \<Rightarrow> jsval \<Rightarrow> props \<Rightarrow> props" where
  "insert_prop k v [] = [(k, v)]"
| "insert_prop k v ((k', v') # ps) =
     (case array_index k of
        None \<Rightarrow> (k', v') # insert_prop k v ps
      | Some i \<Rightarrow>
          (case array_index k' of
             None \<Rightarrow> (k, v) # (k', v') # ps
           | Some j \<Rightarrow> (if i < j then (k, v) # (k', v') # ps
                       else (k', v') # insert_prop k v ps)))"

fun replace_prop :: "string \<Rightarrow> jsval \<Rightarrow> props \<Rightarrow> props" where
  "replace_prop k v [] = []"
| "replace_prop k v ((k', v') # ps) =
     (if k = k' then (k, v) # ps else (k', v') # replace_prop k v ps)"

text \<open>Defining the own property \<open>k\<close>, as an object spread does.\<close>

definition put_prop :: "string \<Rightarrow> jsval \<Rightarrow> props \<Rightarrow> props" where
  "put_prop k v ps = (if k \<in> fst ` set ps then replace_prop k v ps else insert_prop k v ps)"

text \<open>\<^verbatim>\<open>o[k] = v\<close> on a fresh object with the ordinary prototype: the key \<^verbatim>\<open>__proto__\<close> reaches
  the setter of the prototype and creates no own property.\<close>

definition set_prop :: "string \<Rightarrow> jsval \<Rightarrow> props \<Rightarrow> props" where
  "set_prop k v ps = (if k = ''__proto__'' then ps else put_prop k v ps)"

definition assign_props :: "props \<Rightarrow> props \<Rightarrow> props" where
  "assign_props ps qs = fold (\<lambda>(k, v) acc. set_prop k v acc) qs ps"

text \<open>\<^verbatim>\<open>{ ...a, k1: v1, ... }\<close>\<close>

definition spread :: "props \<Rightarrow> props \<Rightarrow> props" where
  "spread ps qs = fold (\<lambda>(k, v) acc. put_prop k v acc) qs ps"

definition own_props :: "jsval \<Rightarrow> props" where
  "own_props v = (case v of JObj ps \<Rightarrow> ps | _ \<Rightarrow> [])"

section \<open>Strings\<close>

definition is_ws :: "char \<Rightarrow> bool" where
  "is_ws c \<longleftrightarrow> (of_char c :: int) \<in> {9, 10, 11, 12, 13, 32, 160}"

definition trim :: "string \<Rightarrow> string" where
  "trim s = rev (dropWhile is_ws (rev (dropWhile is_ws s)))"

definition lower_char :: "char \<Rightarrow> char" where
  "lower_char c = (let n = (of_char c :: int) in
     if 65 \<le> n \<and> n \<le> 90 \<or> 192 \<le> n \<and> n \<le> 222 \<and> n \<noteq> 215 then char_of (n + 32) else c)"

definition toLowerCase :: "string \<Rightarrow> string" where
  "toLowerCase s = map lower_char s"

text \<open>The upper case of sharp s is two letters; micro and y with diaeresis have their upper
  case outside the modelled range and stay as they are.\<close>

definition upper_char :: "char \<Rightarrow> string" where
  "upper_char c = (let n = (of_char c :: int) in
     if 97 \<le> n \<and> n \<le> 122 \<or> 224 \<le> n \<and> n \<le> 254 \<and> n \<noteq> 247 then [char_of (n - 32)]
     else if n = 223 then ''SS'' else [c])"

definition toUpperCase :: "string \<Rightarrow> string" where
  "toUpperCase s = concat (map upper_char s)"

definition is_upper :: "char \<Rightarrow> bool" where
  "is_upper c \<longleftrightarrow> 65 \<le> (of_char c :: int) \<and> (of_char c :: int) \<le> 90"

definition is_lower :: "char \<Rightarrow> bool" where
  "is_lower c \<longleftrightarrow> 97 \<le> (of_char c :: int) \<and> (of_char c :: int) \<le> 122"

text \<open>\<^verbatim>\<open>/^[0-9a-f]{64}$/\<close>, \<^verbatim>\<open>/^[A-Z][A-Z0-9_]{2,11}$/\<close> and \<^verbatim>\<open>/^[A-Za-z0-9:_-]+$/\<close>.\<close>

definition is_hex_char :: "char \<Rightarrow> bool" where
  "is_hex_char c \<longleftrightarrow> is_digit c \<or> 97 \<le> (of_char c :: int) \<and> (of_char c :: int) \<le> 102"

definition is_sha256_hex :: "string \<Rightarrow> bool" where
  "is_sha256_hex s \<longleftrightarrow> length s = 64 \<and> list_all is_hex_char s"

definition is_currency_code :: "string \<Rightarrow> bool" where
  "is_currency_code s \<longleftrightarrow>
     (case s of [] \<Rightarrow> False
      | c # cs \<Rightarrow> is_upper c \<and> 2 \<le> length cs \<and> length cs \<le> 11
          \<and> list_all (\<lambda>d. is_upper d \<or> is_digit d \<or> d = CHR ''_'') cs)"

definition is_id_token :: "string \<Rightarrow> bool" where
  "is_id_token s \<longleftrightarrow> s \<noteq> [] \<and> list_all (\<lambda>d. is_upper d \<or> is_lower d \<or> is_digit d
     \<or> d = CHR '':'' \<or> d = CHR ''_'' \<or> d = CHR ''-'') s"


section \<open>Numbers and strings\<close>

definition digit_char :: "int \<Rightarrow> char" where
  "digit_char d = char_of (48 + d)"

function show_nonneg :: "int \<Rightarrow> string" where
  "show_nonneg n = (if n < 10 then [digit_char n] else show_nonneg (n div 10) @ [digit_char (n mod 10)])"
  by pat_completeness auto
termination by (relation "measure nat") auto

declare show_nonneg.simps [simp del]

definition show_int :: "int \<Rightarrow> string" where
  "show_int n = (if n < 0 then ''-'' @ show_nonneg (- n) else show_nonneg n)"

definition zeros :: "int \<Rightarrow> string" where
  "zeros n = replicate (nat n) (CHR ''0'')"

text \<open>The shortest digit string that rounds back to a positive double, with the position of
  the decimal point: the value is near \<open>0.s * 10 ^ n\<close>.\<close>

definition pow10 :: "int \<Rightarrow> rat" where
  "pow10 k = 10 powi k"

function find_point :: "nat \<Rightarrow> rat \<Rightarrow> int \<Rightarrow> int" where
  "find_point 0 x n = n"
| "find_point (Suc fuel) x n =
     (if pow10 n \<le> x then find_point fuel x (n + 1)
      else if x < pow10 (n - 1) then find_point fuel x (n - 1) else n)"
  by pat_completeness auto
termination by (relation "measure fst") auto

function shortest_from :: "rat \<Rightarrow> int \<Rightarrow> nat \<Rightarrow> int \<times> int \<times> int" where
  "shortest_from x n k =
     (let s = rne (x / pow10 (n - int k)) in
      if fl (of_int s * pow10 (n - int k)) = x \<or> 17 \<le> k
      then (if s = 10 ^ k then (1, 1, n + 1) else (s, int k, n))
      else shortest_from x n (Suc k))"
  by pat_completeness auto
termination by (relation "measure (\<lambda>(x, n, k). 17 - k)") auto

declare shortest_from.simps [simp del]

definition show_pos :: "rat \<Rightarrow> string" where
  "show_pos x =
     (let (s, k, n) = shortest_from x (find_point 700 x 0) 1; ds = show_nonneg s in
      if k \<le> n \<and> n \<le> 21 then ds @ zeros (n - k)
      else if 0 < n \<and> n \<le> 21 then take (nat n) ds @ ''.'' @ drop (nat n) ds
      else if -6 < n \<and> n \<le> 0 then ''0.'' @ zeros (- n) @ ds
      else (let e = n - 1; es = (if e < 0 then ''-'' else ''+'') @ show_nonneg \<bar>e\<bar> in
        (if k = 1 then ds else take 1 ds @ ''.'' @ drop 1 ds) @ ''e'' @ es))"

definition num_str :: "jsnum \<Rightarrow> string" where
  "num_str n = (case n of NaN \<Rightarrow> ''NaN'' | PosInf \<Rightarrow> ''Infinity'' | NegInf \<Rightarrow> ''-Infinity''
     | NegZero \<Rightarrow> ''0''
     | Fin r \<Rightarrow> (if rat_is_int r \<and> \<bar>\<lfloor>r\<rfloor>\<bar> \<le> MAX_SAFE_INTEGER then show_int \<lfloor>r\<rfloor>
                else if r < 0 then ''-'' @ show_pos (- r) else show_pos r))"

text \<open>\<^verbatim>\<open>Number(string)\<close>.\<close>

fun radix_digit :: "int \<Rightarrow> char \<Rightarrow> int option" where
  "radix_digit b c = (let n = of_char c :: int;
      d = (if 48 \<le> n \<and> n \<le> 57 then n - 48 else if 97 \<le> n \<and> n \<le> 122 then n - 87
           else if 65 \<le> n \<and> n \<le> 90 then n - 55 else 99)
     in if d < b then Some d else None)"

fun parse_radix :: "int \<Rightarrow> int \<Rightarrow> string \<Rightarrow> int option" where
  "parse_radix b acc [] = Some acc"
| "parse_radix b acc (c # cs) =
     (case radix_digit b c of None \<Rightarrow> None | Some d \<Rightarrow> parse_radix b (acc * b + d) cs)"

definition parse_exponent :: "string \<Rightarrow> int option" where
  "parse_exponent s =
     (case s of [] \<Rightarrow> Some 0
      | c # cs \<Rightarrow>
          (if c = CHR ''e'' \<or> c = CHR ''E'' then
             (let (sg, ds) = (case cs of d # ds \<Rightarrow>
                   (if d = CHR ''-'' then (-1, ds) else if d = CHR ''+'' then (1, ds) else (1, cs))
                 | [] \<Rightarrow> (1, cs))
              in if ds \<noteq> [] \<and> list_all is_digit ds then Some (sg * digits_val ds) else None)
           else None))"

definition parse_unsigned :: "string \<Rightarrow> rat option" where
  "parse_unsigned s =
     (let ip = takeWhile is_digit s; r1 = dropWhile is_digit s;
          (fp, r2) = (case r1 of c # cs \<Rightarrow>
              (if c = CHR ''.'' then (takeWhile is_digit cs, dropWhile is_digit cs) else ([], r1))
            | [] \<Rightarrow> ([], []))
      in if ip = [] \<and> fp = [] then None
         else (case parse_exponent r2 of None \<Rightarrow> None
               | Some e \<Rightarrow> Some (of_int (digits_val (ip @ fp)) * pow10 (e - int (length fp)))))"

definition parse_number :: "string \<Rightarrow> jsnum" where
  "parse_number s0 =
     (let s = trim s0 in
      if s = [] then Fin 0
      else if take 2 s = ''0x'' \<or> take 2 s = ''0X'' \<or> take 2 s = ''0o'' \<or> take 2 s = ''0O''
           \<or> take 2 s = ''0b'' \<or> take 2 s = ''0B''
      then (let b = (if s ! 1 = CHR ''x'' \<or> s ! 1 = CHR ''X'' then 16
                     else if s ! 1 = CHR ''o'' \<or> s ! 1 = CHR ''O'' then 8 else 2)
            in if drop 2 s = [] then NaN
               else case parse_radix b 0 (drop 2 s) of None \<Rightarrow> NaN | Some n \<Rightarrow> fl_num (of_int n))
      else (let neg = (hd s = CHR ''-'');
                u = (if neg \<or> hd s = CHR ''+'' then tl s else s)
            in if u = ''Infinity'' then (if neg then NegInf else PosInf)
               else case parse_unsigned u of None \<Rightarrow> NaN
                    | Some r \<Rightarrow> (if neg then (if r = 0 then NegZero else fl_num (- r)) else fl_num r)))"

end
