(* ===== verification/JsDate.thy ===== *)
theory JsDate
  imports JsValue
begin

text \<open>
  Dates: the proleptic Gregorian calendar arithmetic behind \<^verbatim>\<open>Date.parse\<close> and
  \<^verbatim>\<open>Date.prototype.toISOString\<close>, and the coercions \<^verbatim>\<open>String(v)\<close> and \<^verbatim>\<open>Number(v)\<close>, which need
  a date's rendering. Times are milliseconds since the epoch, in UTC.
\<close>

section \<open>Calendar\<close>

definition days_from_civil :: "int \<Rightarrow> int \<Rightarrow> int \<Rightarrow> int" where
  "days_from_civil y0 m d =
     (let y = (if m \<le> 2 then y0 - 1 else y0);
          yoe = y mod 400;
          doy = (153 * (if m > 2 then m - 3 else m + 9) + 2) div 5 + d - 1;
          doe = yoe * 365 + yoe div 4 - yoe div 100 + doy
      in (y div 400) * 146097 + doe - 719468)"

definition civil_from_days :: "int \<Rightarrow> int \<times> int \<times> int" where
  "civil_from_days z0 =
     (let z = z0 + 719468;
          doe = z mod 146097;
          yoe = (doe - doe div 1460 + doe div 36524 - doe div 146096) div 365;
          doy = doe - (365 * yoe + yoe div 4 - yoe div 100);
          mp = (5 * doy + 2) div 153;
          d = doy - (153 * mp + 2) div 5 + 1;
          m = (if mp < 10 then mp + 3 else mp - 9)
      in (yoe + (z div 146097) * 400 + (if m \<le> 2 then 1 else 0), m, d))"

definition MS_PER_DAY :: int where
  "MS_PER_DAY = 86400000"

definition time_clip :: "int \<Rightarrow> int option" where
  "time_clip t = (if \<bar>t\<bar> \<le> 8640000000000000 then Some t else None)"

definition pad_num :: "nat \<Rightarrow> int \<Rightarrow> string" where
  "pad_num w n = (let s = show_nonneg n in replicate (w - length s) (CHR ''0'') @ s)"

definition iso_year :: "int \<Rightarrow> string" where
  "iso_year y = (if 0 \<le> y \<and> y \<le> 9999 then pad_num 4 y
     else (if y < 0 then ''-'' else ''+'') @ pad_num 6 \<bar>y\<bar>)"

definition iso_time :: "int \<Rightarrow> string" where
  "iso_time ms = pad_num 2 (ms div 3600000) @ '':'' @ pad_num 2 (ms div 60000 mod 60) @ '':'' @
     pad_num 2 (ms div 1000 mod 60)"

text \<open>\<^verbatim>\<open>new Date(t).toISOString()\<close>: a RangeError outside the time range.\<close>

definition toISOString :: "int \<Rightarrow> string res" where
  "toISOString t =
     (case time_clip t of
        None \<Rightarrow> Inl (RangeError ''Invalid time value'')
      | Some t \<Rightarrow>
          (let (y, m, d) = civil_from_days (t div MS_PER_DAY); ms = t mod MS_PER_DAY in
           Inr (iso_year y @ ''-'' @ pad_num 2 m @ ''-'' @ pad_num 2 d @ ''T'' @
                iso_time ms @ ''.'' @ pad_num 3 (ms mod 1000) @ ''Z'')))"

section \<open>Parsing\<close>

text \<open>Read exactly \<open>w\<close> digits.\<close>

definition take_digits :: "nat \<Rightarrow> string \<Rightarrow> (int \<times> string) option" where
  "take_digits w s =
     (if w \<le> length s \<and> list_all is_digit (take w s)
      then Some (digits_val (take w s), drop w s) else None)"

definition take_char :: "char \<Rightarrow> string \<Rightarrow> string option" where
  "take_char c s = (case s of d # ds \<Rightarrow> (if c = d then Some ds else None) | [] \<Rightarrow> None)"

definition parse_year :: "string \<Rightarrow> (int \<times> string) option" where
  "parse_year s =
     (case s of
        c # cs \<Rightarrow>
          (if c = CHR ''+'' then take_digits 6 cs
           else if c = CHR ''-'' then
             (case take_digits 6 cs of
                Some (y, r) \<Rightarrow> (if y = 0 then None else Some (- y, r)) | None \<Rightarrow> None)
           else take_digits 4 s)
      | [] \<Rightarrow> None)"

text \<open>An optional \<^verbatim>\<open>-\<close> and two-digit element; absent means 1.\<close>

definition parse_date_part :: "string \<Rightarrow> (int \<times> string) option" where
  "parse_date_part s =
     (case take_char (CHR ''-'') s of None \<Rightarrow> Some (1, s) | Some r \<Rightarrow> take_digits 2 r)"

definition parse_offset :: "string \<Rightarrow> (int \<times> string) option" where
  "parse_offset s =
     (case s of
        [] \<Rightarrow> Some (0, [])
      | c # cs \<Rightarrow>
          (if c = CHR ''Z'' then Some (0, cs)
           else if c = CHR ''+'' \<or> c = CHR ''-'' then
             Option.bind (take_digits 2 cs) (\<lambda>(h, r).
             Option.bind (take_char (CHR '':'') r) (\<lambda>r.
             Option.bind (take_digits 2 r) (\<lambda>(mi, r).
               if h \<le> 23 \<and> mi \<le> 59
               then Some ((if c = CHR ''-'' then -1 else 1) * (h * 3600000 + mi * 60000), r)
               else None)))
           else None))"

definition parse_fraction :: "string \<Rightarrow> (int \<times> string) option" where
  "parse_fraction s =
     (case take_char (CHR ''.'') s of
        None \<Rightarrow> Some (0, s)
      | Some r \<Rightarrow>
          (let ds = takeWhile is_digit r in
           if ds = [] then None
           else Some (digits_val (take 3 (ds @ ''00'')), dropWhile is_digit r)))"

definition parse_time :: "string \<Rightarrow> (int \<times> string) option" where
  "parse_time s =
     Option.bind (take_digits 2 s) (\<lambda>(h, r).
     Option.bind (take_char (CHR '':'') r) (\<lambda>r.
     Option.bind (take_digits 2 r) (\<lambda>(mi, r).
     Option.bind (case take_char (CHR '':'') r of None \<Rightarrow> Some (0, 0, r)
        | Some r \<Rightarrow> Option.bind (take_digits 2 r) (\<lambda>(sec, r).
            map_option (\<lambda>(f, r). (sec, f, r)) (parse_fraction r))) (\<lambda>(sec, f, r).
       if mi \<le> 59 \<and> sec \<le> 59 \<and> (h \<le> 23 \<or> h = 24 \<and> mi = 0 \<and> sec = 0 \<and> f = 0)
       then Option.bind (parse_offset r) (\<lambda>(off, r).
              Some (h * 3600000 + mi * 60000 + sec * 1000 + f - off, r))
       else None))))"

text \<open>\<^verbatim>\<open>Date.parse(s)\<close>, \<open>None\<close> for NaN.\<close>

definition date_parse :: "string \<Rightarrow> int option" where
  "date_parse s =
     Option.bind (parse_year s) (\<lambda>(y, r).
     Option.bind (parse_date_part r) (\<lambda>(m, r').
     Option.bind (if r' = r then Some (1, r') else parse_date_part r') (\<lambda>(d, r).
     Option.bind (case take_char (CHR ''T'') r of None \<Rightarrow> Some (0, r) | Some r \<Rightarrow> parse_time r)
       (\<lambda>(t, r).
       if r = [] \<and> 1 \<le> m \<and> m \<le> 12 \<and> 1 \<le> d \<and> d \<le> 31
       then time_clip (days_from_civil y m d * MS_PER_DAY + t) else None))))"

section \<open>String and Number coercions\<close>

definition weekday_name :: "int \<Rightarrow> string" where
  "weekday_name days =
     [''Thu'', ''Fri'', ''Sat'', ''Sun'', ''Mon'', ''Tue'', ''Wed''] ! nat (days mod 7)"

definition month_name :: "int \<Rightarrow> string" where
  "month_name m = [''Jan'', ''Feb'', ''Mar'', ''Apr'', ''May'', ''Jun'', ''Jul'', ''Aug'',
     ''Sep'', ''Oct'', ''Nov'', ''Dec''] ! nat (m - 1)"

definition date_str :: "int \<Rightarrow> string" where
  "date_str t =
     (let (y, m, d) = civil_from_days (t div MS_PER_DAY); ms = t mod MS_PER_DAY in
      weekday_name (t div MS_PER_DAY) @ '' '' @ month_name m @ '' '' @ pad_num 2 d @ '' '' @
      (if y < 0 then ''-'' @ pad_num 6 (- y) else pad_num 4 y) @ '' '' @ iso_time ms @
      '' GMT+0000 (Coordinated Universal Time)'')"

fun join_with :: "string \<Rightarrow> string list \<Rightarrow> string" where
  "join_with sep [] = []"
| "join_with sep [x] = x"
| "join_with sep (x # y # xs) = x @ sep @ join_with sep (y # xs)"

fun js_String :: "jsval \<Rightarrow> string" where
  "js_String JUndef = ''undefined''"
| "js_String JNull = ''null''"
| "js_String (JBool b) = (if b then ''true'' else ''false'')"
| "js_String (JNum n) = num_str n"
| "js_String (JStr s) = s"
| "js_String (JArr xs) = join_with '','' (map (\<lambda>x. if nullish x then [] else js_String x) xs)"
| "js_String (JObj _) = ''[object Object]''"
| "js_String (JDate t) = date_str t"
| "js_String (JBigInt n) = show_int n"
| "js_String (JFun src) = src"

fun js_Number :: "jsval \<Rightarrow> jsnum" where
  "js_Number JUndef = NaN"
| "js_Number JNull = Fin 0"
| "js_Number (JBool b) = Fin (if b then 1 else 0)"
| "js_Number (JNum n) = n"
| "js_Number (JStr s) = parse_number s"
| "js_Number (JArr xs) = parse_number (js_String (JArr xs))"
| "js_Number (JObj _) = NaN"
| "js_Number (JDate t) = num_of_int t"
| "js_Number (JBigInt n) = fl_num (of_int n)"
| "js_Number (JFun _) = NaN"

text \<open>\<^verbatim>\<open>Number.isSafeInteger(v)\<close> of a value that need not be a number, with the integer.\<close>

definition safe_int_of :: "jsval \<Rightarrow> int option" where
  "safe_int_of v = (case v of JNum n \<Rightarrow> safe_int n | _ \<Rightarrow> None)"

lemma safe_int_of_simps [simp]:
  "safe_int_of (JInt n) = (if is_safe n then Some n else None)"
  "safe_int_of (JStr s) = None" "safe_int_of JNull = None" "safe_int_of JUndef = None"
  by (simp_all add: safe_int_of_def)

lemma safe_int_of_Some: "safe_int_of v = Some n \<Longrightarrow> is_safe n"
  by (auto simp: safe_int_of_def safe_int_Some split: jsval.splits)

end
