(* ===== verification/CanonicalJson.thy ===== *)
theory CanonicalJson
  imports JsDate "HOL-Library.List_Lexorder" "HOL-Library.Char_ord"
begin

text \<open>
  \<^verbatim>\<open>src/core/canonical-json.js\<close>: the canonical JSON text every hash of the system is
  computed over. \<open>canonicalize\<close> sorts the keys of every object, \<open>json_stringify\<close> is
  \<^verbatim>\<open>JSON.stringify\<close> on what it returns, and \<open>normalizeForCanonicalJson\<close> drops undefined
  properties and renders dates before that. \<open>json_equiv\<close> says when two values are the same
  JSON document up to the order of object keys; the main results are that the canonical
  text depends on nothing else and, for values whose numbers are safe integers, determines
  the document.
\<close>

section \<open>canonicalize\<close>

lemma mapRes_fundef_cong [fundef_cong]:
  "xs = ys \<Longrightarrow> (\<And>x. x \<in> set ys \<Longrightarrow> f x = g x) \<Longrightarrow> mapRes f xs = mapRes g ys"
  using mapRes_cong by blast

lemma andThen_fundef_cong [fundef_cong]:
  "m = n \<Longrightarrow> (\<And>x. n = Inr x \<Longrightarrow> f x = g x) \<Longrightarrow> andThen m f = andThen n g"
  by (cases n) auto

lemma size_elem:
  "x \<in> set xs \<Longrightarrow> size x < size (JArr xs)"
  "p \<in> set ps \<Longrightarrow> size (snd p) < size (JObj ps)"
  "(k, v) \<in> set ps \<Longrightarrow> size v < size (JObj ps)"
  by (induction xs; force) (induction ps; force)+

lemma enumerate_snd_mem: "p \<in> set (enumerate n xs) \<Longrightarrow> snd p \<in> set xs"
  by (induction xs arbitrary: n) auto

lemma enumerate_size: "(i, x) \<in> set (enumerate n xs) \<Longrightarrow> size x < size (JArr xs)"
  using enumerate_snd_mem[of "(i, x)" n xs] by (intro size_elem) simp

text \<open>\<^verbatim>\<open>Object.keys(value).sort()\<close>, with the property values.\<close>

definition sorted_props :: "props \<Rightarrow> props" where
  "sorted_props ps = sort_key fst ps"

lemma set_sorted_props [simp]: "set (sorted_props ps) = set ps"
  by (simp add: sorted_props_def)

text \<open>Assigning a list of properties in turn to a fresh object \<^verbatim>\<open>{}\<close>.\<close>

definition build_obj :: "props \<Rightarrow> jsval" where
  "build_obj ps = JObj (assign_props [] ps)"

function canonicalize :: "jsval \<Rightarrow> jsval res" where
  "canonicalize JNull = Inr JNull"
| "canonicalize (JStr s) = Inr (JStr s)"
| "canonicalize (JBool b) = Inr (JBool b)"
| "canonicalize (JNum n) =
     (if \<not> isFinite n then Inl (TypeError ''Unsupported number for canonical JSON: non-finite'')
      else if n = NegZero then Inl (TypeError ''Unsupported number for canonical JSON: -0'')
      else Inr (JNum n))"
| "canonicalize JUndef = Inl (TypeError ''Unsupported value for canonical JSON: undefined'')"
| "canonicalize (JBigInt n) = Inl (TypeError ''Unsupported type for canonical JSON: bigint'')"
| "canonicalize (JFun s) = Inl (TypeError ''Unsupported type for canonical JSON: function'')"
| "canonicalize (JArr xs) = andThen (mapRes canonicalize xs) (\<lambda>ys. Inr (JArr ys))"
| "canonicalize (JDate t) = Inl (TypeError ''Unsupported object for canonical JSON: non-plain object'')"
| "canonicalize (JObj ps) =
     andThen (mapRes (\<lambda>p. andThen (canonicalize (snd p)) (\<lambda>w. Inr (fst p, w))) (sorted_props ps))
       (\<lambda>out. Inr (build_obj out))"
  by pat_completeness auto
termination by (relation "measure size") (auto simp del: jsval.size intro: size_elem)

section \<open>JSON.stringify\<close>

definition hex_digit :: "int \<Rightarrow> char" where
  "hex_digit d = (if d < 10 then char_of (48 + d) else char_of (87 + d))"

definition json_escape :: "char \<Rightarrow> string" where
  "json_escape c = (let n = (of_char c :: int) in
     if n = 34 then [CHR 0x5C, CHR 0x22]
     else if n = 92 then [CHR 0x5C, CHR 0x5C]
     else if n = 8 then [CHR 0x5C, CHR ''b'']
     else if n = 9 then [CHR 0x5C, CHR ''t'']
     else if n = 10 then [CHR 0x5C, CHR ''n'']
     else if n = 12 then [CHR 0x5C, CHR ''f'']
     else if n = 13 then [CHR 0x5C, CHR ''r'']
     else if n < 32 then [CHR 0x5C, CHR ''u'', CHR ''0'', CHR ''0'', hex_digit (n div 16), hex_digit (n mod 16)]
     else [c])"

definition json_quote :: "string \<Rightarrow> string" where
  "json_quote s = CHR 0x22 # concat (map json_escape s) @ [CHR 0x22]"

text \<open>\<^verbatim>\<open>JSON.stringify\<close> on the values \<open>canonicalize\<close> returns; the remaining values, which it
  never returns, are rendered as JSON renders them inside an array.\<close>

fun json_stringify :: "jsval \<Rightarrow> string" where
  "json_stringify (JStr s) = json_quote s"
| "json_stringify (JBool b) = (if b then ''true'' else ''false'')"
| "json_stringify (JNum n) = (if isFinite n then num_str n else ''null'')"
| "json_stringify (JArr xs) = ''['' @ join_with '','' (map json_stringify xs) @ '']''"
| "json_stringify (JObj ps) =
     ''{'' @ join_with '','' (map (\<lambda>p. json_quote (fst p) @ '':'' @ json_stringify (snd p)) ps) @ ''}''"
| "json_stringify _ = ''null''"

definition canonicalJsonStringify :: "jsval \<Rightarrow> string res" where
  "canonicalJsonStringify v = andThen (canonicalize v) (\<lambda>c. Inr (json_stringify c))"

section \<open>normalizeForCanonicalJson\<close>

definition drop_undef :: "props \<Rightarrow> props" where
  "drop_undef ps = filter (\<lambda>p. snd p \<noteq> JUndef) ps"

function normalizeForCanonicalJson :: "jsval \<Rightarrow> string \<Rightarrow> bool \<Rightarrow> jsval res" where
  "normalizeForCanonicalJson JUndef path inArray =
     (if inArray then Inl (TypeError (''Unsupported value for canonical JSON: undefined at '' @ path))
      else Inr JUndef)"
| "normalizeForCanonicalJson JNull path inArray = Inr JNull"
| "normalizeForCanonicalJson (JStr s) path inArray = Inr (JStr s)"
| "normalizeForCanonicalJson (JBool b) path inArray = Inr (JBool b)"
| "normalizeForCanonicalJson (JNum n) path inArray =
     (if \<not> isFinite n then Inl (TypeError (''Unsupported number for canonical JSON: non-finite at '' @ path))
      else if n = NegZero then Inl (TypeError (''Unsupported number for canonical JSON: -0 at '' @ path))
      else Inr (JNum n))"
| "normalizeForCanonicalJson (JBigInt n) path inArray =
     Inl (TypeError (''Unsupported type for canonical JSON: bigint at '' @ path))"
| "normalizeForCanonicalJson (JFun s) path inArray =
     Inl (TypeError (''Unsupported type for canonical JSON: function at '' @ path))"
| "normalizeForCanonicalJson (JDate t) path inArray =
     andThen (toISOString t) (\<lambda>s. Inr (JStr s))"
| "normalizeForCanonicalJson (JArr xs) path inArray =
     andThen (mapRes (\<lambda>p. normalizeForCanonicalJson (snd p) (path @ ''['' @ show_int (int (fst p)) @ '']'') True)
                (enumerate 0 xs))
       (\<lambda>ys. Inr (JArr ys))"
| "normalizeForCanonicalJson (JObj ps) path inArray =
     andThen (mapRes (\<lambda>p. andThen (normalizeForCanonicalJson (snd p) (path @ ''.'' @ fst p) False)
                             (\<lambda>w. Inr (fst p, w))) ps)
       (\<lambda>out. Inr (build_obj (drop_undef out)))"
  by pat_completeness auto
termination
  by (relation "measure (\<lambda>(v, _, _). size v)") (auto simp del: jsval.size intro: size_elem enumerate_size)

section \<open>Documents up to key order\<close>

definition is_container :: "jsval \<Rightarrow> bool" where
  "is_container v = (case v of JArr _ \<Rightarrow> True | JObj _ \<Rightarrow> True | _ \<Rightarrow> False)"

inductive json_equiv :: "jsval \<Rightarrow> jsval \<Rightarrow> bool" where
  scalar: "\<not> is_container v \<Longrightarrow> json_equiv v v"
| arr: "list_all2 json_equiv xs ys \<Longrightarrow> json_equiv (JArr xs) (JArr ys)"
| obj: "(\<And>k. rel_option json_equiv (map_of ps k) (map_of qs k)) \<Longrightarrow> json_equiv (JObj ps) (JObj qs)"

fun wf_val :: "jsval \<Rightarrow> bool" where
  "wf_val (JArr xs) = (\<forall>x \<in> set xs. wf_val x)"
| "wf_val (JObj ps) = (distinct (map fst ps) \<and> (\<forall>p \<in> set ps. wf_val (snd p)))"
| "wf_val _ = True"

text \<open>The values whose canonical text determines them: numbers are safe integers other than
  negative zero, object keys are distinct and none is \<^verbatim>\<open>__proto__\<close>.\<close>

fun hashable :: "jsval \<Rightarrow> bool" where
  "hashable (JNum n) = (n \<noteq> NegZero \<and> safe_int n \<noteq> None)"
| "hashable (JArr xs) = (\<forall>x \<in> set xs. hashable x)"
| "hashable (JObj ps) = (distinct (map fst ps) \<and> ''__proto__'' \<notin> fst ` set ps
     \<and> (\<forall>p \<in> set ps. hashable (snd p)))"
| "hashable _ = True"

lemma sorted_props_eq:
  assumes "distinct (map fst ps)"
  shows "sorted_props ps = map (\<lambda>k. (k, the (map_of ps k))) (sorted_list_of_set (fst ` set ps))"
proof -
  have keys: "map fst (sorted_props ps) = sorted_list_of_set (fst ` set ps)"
  proof (rule sorted_distinct_set_unique)
    show "sorted (map fst (sorted_props ps))" by (simp add: sorted_props_def)
    show "distinct (map fst (sorted_props ps))"
      using assms by (simp only: sorted_props_def distinct_map distinct_sort set_sort)
  qed simp_all
  have "sorted_props ps = map (\<lambda>k. (k, the (map_of ps k))) (map fst (sorted_props ps))"
    using assms by (simp add: list.map_comp comp_def) (rule map_idI[symmetric], auto)
  then show ?thesis by (simp add: keys)
qed

lemma canonicalize_JObj:
  assumes "distinct (map fst ps)"
  shows "canonicalize (JObj ps) =
    andThen (mapRes (\<lambda>k. andThen (canonicalize (the (map_of ps k))) (\<lambda>w. Inr (k, w)))
      (sorted_list_of_set (fst ` set ps))) (\<lambda>out. Inr (build_obj out))"
proof -
  have "mapRes f (map g xs) = mapRes (\<lambda>x. f (g x)) xs" for f :: "string \<times> jsval \<Rightarrow> (string \<times> jsval) res" and g and xs :: "string list"
    by (induction xs) auto
  then show ?thesis by (simp add: sorted_props_eq[OF assms])
qed

lemma map_of_mem: "map_of ps k = Some v \<Longrightarrow> \<exists>p \<in> set ps. snd p = v"
  by (metis map_of_SomeD snd_conv)

lemma canonicalize_equiv:
  "json_equiv v w \<Longrightarrow> wf_val v \<Longrightarrow> wf_val w \<Longrightarrow> canonicalize v = canonicalize w"
proof (induction rule: json_equiv.induct)
  case (scalar v)
  show ?case ..
next
  case (arr xs ys)
  then have "list_all2 (\<lambda>x y. canonicalize x = canonicalize y) xs ys"
    by (auto simp: list_all2_conv_all_nth)
  then have "mapRes canonicalize xs = mapRes canonicalize ys"
    by (induction rule: list_all2_induct) auto
  then show ?case by simp
next
  case (obj ps qs)
  have d: "distinct (map fst ps)" "distinct (map fst qs)" using obj.prems by auto
  have keys: "fst ` set ps = fst ` set qs"
  proof -
    have "map_of ps k = None \<longleftrightarrow> map_of qs k = None" for k
      using obj.IH[of k] by (cases "map_of ps k"; cases "map_of qs k") auto
    then have "dom (map_of ps) = dom (map_of qs)" by (simp add: dom_def)
    then show ?thesis by (simp only: dom_map_of_conv_image_fst)
  qed
  have "canonicalize (the (map_of ps k)) = canonicalize (the (map_of qs k))" if "k \<in> fst ` set qs" for k
  proof -
    from that obtain w where w: "map_of qs k = Some w"
      by (metis dom_map_of_conv_image_fst domD)
    with obj.IH[of k] obtain v where v: "map_of ps k = Some v"
      and eq: "wf_val v \<Longrightarrow> wf_val w \<Longrightarrow> canonicalize v = canonicalize w"
      by (cases "map_of ps k") auto
    have "wf_val v" "wf_val w"
      using v w obj.prems by (auto dest!: map_of_mem)
    then show ?thesis using eq v w by simp
  qed
  then show ?case unfolding canonicalize_JObj[OF d(1)] canonicalize_JObj[OF d(2)] keys
    by (intro arg_cong2[where f = andThen] mapRes_cong) auto
qed

section \<open>The canonical text determines the document\<close>

subsection \<open>Numerals\<close>

lemma of_char_inject: "(of_char c :: int) = of_char d \<Longrightarrow> c = d"
  by simp

lemma digit_char_val:
  "0 \<le> d \<Longrightarrow> d < 10 \<Longrightarrow> (of_char (digit_char d) :: int) = 48 + d"
  by (simp add: digit_char_def of_char_of)

lemma is_digit_digit_char: "0 \<le> d \<Longrightarrow> d < 10 \<Longrightarrow> is_digit (digit_char d)"
  by (simp add: is_digit_def digit_char_val)

lemma digits_val_snoc: "digits_val (s @ [c]) = 10 * digits_val s + (of_char c - 48)"
  by (induction s) (auto simp: algebra_simps)

lemma show_nonneg_props:
  "0 \<le> n \<Longrightarrow> digits_val (show_nonneg n) = n \<and> list_all is_digit (show_nonneg n) \<and> show_nonneg n \<noteq> []"
proof (induction n rule: show_nonneg.induct)
  case (1 n)
  show ?case
  proof (cases "n < 10")
    case True
    then show ?thesis using "1.prems"
      by (simp add: show_nonneg.simps[of n] digit_char_val is_digit_digit_char)
  next
    case False
    then have IH: "digits_val (show_nonneg (n div 10)) = n div 10" "list_all is_digit (show_nonneg (n div 10))"
      using "1.IH" by auto
    then show ?thesis using False
      by (simp add: show_nonneg.simps[of n] digits_val_snoc digit_char_val is_digit_digit_char)
  qed
qed

lemma is_digit_minus [simp]: "\<not> is_digit (CHR ''-'')"
  by (simp add: is_digit_def)

lemma show_int_inject: "show_int n = show_int m \<Longrightarrow> n = m"
proof -
  have val: "digits_val (show_nonneg k) = k" "\<exists>c cs. show_nonneg k = c # cs \<and> is_digit c" if "0 \<le> k" for k
    using show_nonneg_props[OF that] by (auto simp: neq_Nil_conv)
  assume eq: "show_int n = show_int m"
  consider "0 \<le> n" "0 \<le> m" | "n < 0" "m < 0" | "0 \<le> n" "m < 0" | "n < 0" "0 \<le> m" by linarith
  then show ?thesis
  proof cases
    case 1
    then have "show_nonneg n = show_nonneg m" using eq by (simp add: show_int_def)
    then show ?thesis using 1 val(1) by metis
  next
    case 2
    then have "show_nonneg (- n) = show_nonneg (- m)" using eq by (simp add: show_int_def)
    then have "- n = - m" using 2 val(1) by (metis neg_0_le_iff_le order.strict_implies_order)
    then show ?thesis by simp
  next
    case 3
    then show ?thesis using eq val(2)[of n] by (auto simp: show_int_def)
  next
    case 4
    then show ?thesis using eq val(2)[of m] by (auto simp: show_int_def)
  qed
qed

definition num_char :: "char \<Rightarrow> bool" where
  "num_char c \<longleftrightarrow> is_digit c \<or> c = CHR ''-''"

lemma show_int_chars: "list_all num_char (show_int n) \<and> show_int n \<noteq> []"
proof -
  have "list_all num_char (show_nonneg k) \<and> show_nonneg k \<noteq> []" if "0 \<le> k" for k
    using show_nonneg_props[OF that] by (auto simp: list_all_iff num_char_def)
  then show ?thesis by (simp add: show_int_def num_char_def)
qed

subsection \<open>Strings\<close>

definition hex_val :: "char \<Rightarrow> int" where
  "hex_val c = (let n = of_char c :: int in if n < 58 then n - 48 else n - 87)"

lemma hex_val_digit: "0 \<le> d \<Longrightarrow> d < 16 \<Longrightarrow> hex_val (hex_digit d) = d"
  by (auto simp: hex_val_def hex_digit_def of_char_of)

text \<open>Reading back one escaped character.\<close>

definition json_unescape :: "string \<Rightarrow> (char \<times> string)" where
  "json_unescape s =
     (if hd s \<noteq> CHR 0x5C then (hd s, tl s)
      else let k = s ! 1; r = drop 2 s in
        if k = CHR ''b'' then (char_of (8::int), r)
        else if k = CHR ''t'' then (char_of (9::int), r)
        else if k = CHR ''n'' then (char_of (10::int), r)
        else if k = CHR ''f'' then (char_of (12::int), r)
        else if k = CHR ''r'' then (char_of (13::int), r)
        else if k = CHR ''u'' then (char_of (16 * hex_val (s ! 4) + hex_val (s ! 5)), drop 6 s)
        else (k, r))"

lemma of_char_nonneg: "0 \<le> (of_char c :: int)"
  by (metis of_nat_of_char of_nat_0_le_iff)

lemma json_unescape_escape: "json_unescape (json_escape c @ x) = (c, x)"
proof -
  define n where "n = (of_char c :: int)"
  have c: "c = char_of n" by (simp add: n_def)
  have n0: "0 \<le> n" using of_char_nonneg by (simp add: n_def)
  consider "n \<in> {34, 92, 8, 9, 10, 12, 13}"
    | "n \<notin> {34, 92, 8, 9, 10, 12, 13}" "n < 32"
    | "n \<notin> {34, 92}" "\<not> n < 32" by auto
  then show ?thesis
  proof cases
    case 1
    have "char_of (34::int) = CHR 0x22" "char_of (92::int) = CHR 0x5C"
      by (simp_all add: char_of_def)
    with 1 show ?thesis
      by (elim insertE emptyE) (simp_all add: json_escape_def json_unescape_def n_def[symmetric] c)
  next
    case 2
    then have "hex_val (hex_digit (n div 16)) = n div 16" "hex_val (hex_digit (n mod 16)) = n mod 16"
      using n0 by (auto intro!: hex_val_digit simp: pos_imp_zdiv_nonneg_iff)
    then show ?thesis using 2
      by (simp add: json_escape_def json_unescape_def n_def[symmetric] Let_def) (simp add: c)
  next
    case 3
    then have "c \<noteq> CHR 0x5C" by (auto simp: n_def)
    then show ?thesis using 3 by (simp add: json_escape_def json_unescape_def n_def[symmetric])
  qed
qed

lemma json_escape_inject:
  "json_escape c @ x = json_escape d @ y \<Longrightarrow> c = d \<and> x = y"
  by (metis json_unescape_escape prod.inject)

lemma json_escape_hd: "\<exists>e es. json_escape c = e # es \<and> e \<noteq> CHR 0x22"
proof -
  have "of_char c \<noteq> (34::int) \<Longrightarrow> c \<noteq> CHR 0x22" by auto
  then show ?thesis by (auto simp: json_escape_def Let_def)
qed

lemma json_quote_inject:
  "json_quote s @ x = json_quote t @ y \<Longrightarrow> s = t \<and> x = y"
proof -
  have "concat (map json_escape s) @ CHR 0x22 # x = concat (map json_escape t) @ CHR 0x22 # y
    \<Longrightarrow> s = t \<and> x = y"
  proof (induction s arbitrary: t)
    case Nil
    then show ?case using json_escape_hd[of "hd t"] by (cases t) auto
  next
    case (Cons c s)
    then obtain d t' where t: "t = d # t'"
      using json_escape_hd[of c] by (cases t) auto
    with Cons.prems json_escape_inject[of c "concat (map json_escape s) @ CHR 0x22 # x" d]
    show ?case using Cons.IH[of t'] by simp
  qed
  then show "json_quote s @ x = json_quote t @ y \<Longrightarrow> s = t \<and> x = y"
    by (simp add: json_quote_def)
qed

subsection \<open>Values\<close>

text \<open>What may follow a value inside a JSON text.\<close>

definition delimited :: "string \<Rightarrow> bool" where
  "delimited r \<longleftrightarrow> (case r of [] \<Rightarrow> True | c # _ \<Rightarrow> c \<in> {CHR '','', CHR '']'', CHR ''}''})"

definition decodable :: "('a \<Rightarrow> string) \<Rightarrow> 'a \<Rightarrow> 'a set \<Rightarrow> bool" where
  "decodable f x Y \<longleftrightarrow> (\<forall>y \<in> Y. \<forall>r s. f x @ r = f y @ s \<longrightarrow> delimited r \<longrightarrow> delimited s \<longrightarrow> x = y \<and> r = s)"

lemma join_inject:
  assumes "\<And>x. x \<in> set xs \<Longrightarrow> decodable f x Y" and "set ys \<subseteq> Y"
    and ne: "\<And>x. x \<in> set xs \<union> Y \<Longrightarrow> f x \<noteq> [] \<and> hd (f x) \<noteq> e"
    and e: "e \<in> {CHR '']'', CHR ''}''}"
    and "join_with '','' (map f xs) @ e # r = join_with '','' (map f ys) @ e # s"
  shows "xs = ys \<and> r = s"
  using assms(1,2,5) ne
proof (induction xs arbitrary: ys)
  case Nil
  show ?case
  proof (cases ys)
    case Nil
    then show ?thesis using Nil.prems(3) by simp
  next
    case (Cons y ys')
    then have "f y \<noteq> []" "hd (f y) \<noteq> e" using Nil.prems(2,4) by auto
    then show ?thesis using Nil.prems(3) Cons by (cases ys') (auto simp: neq_Nil_conv)
  qed
next
  case (Cons x xs)
  have fx: "f x \<noteq> []" "hd (f x) \<noteq> e" using Cons.prems(4) by auto
  have tailx: "join_with '','' (map f (x # xs)) @ e # r =
    f x @ (if xs = [] then e # r else '','' @ join_with '','' (map f xs) @ e # r)"
    by (cases xs) auto
  obtain y ys' where ys: "ys = y # ys'"
    using Cons.prems(3) fx tailx by (cases ys) (auto simp: neq_Nil_conv)
  have taily: "join_with '','' (map f ys) @ e # s =
    f y @ (if ys' = [] then e # s else '','' @ join_with '','' (map f ys') @ e # s)"
    by (cases ys') (auto simp: ys)
  let ?r = "if xs = [] then e # r else '','' @ join_with '','' (map f xs) @ e # r"
  let ?s = "if ys' = [] then e # s else '','' @ join_with '','' (map f ys') @ e # s"
  have "delimited ?r" "delimited ?s" using e by (auto simp: delimited_def)
  moreover have "decodable f x Y" "y \<in> Y" using Cons.prems(1,2) ys by auto
  moreover have "f x @ ?r = f y @ ?s" using Cons.prems(3) tailx taily by metis
  ultimately have xy: "x = y" and rs: "?r = ?s" unfolding decodable_def by blast+
  have ec: "e \<noteq> CHR '',''" using e by auto
  show ?case
  proof (cases "xs = [] \<or> ys' = []")
    case True
    then show ?thesis using rs xy ys ec by (auto split: if_splits)
  next
    case False
    then have "join_with '','' (map f xs) @ e # r = join_with '','' (map f ys') @ e # s"
      using rs by simp
    then show ?thesis using Cons.IH[of ys'] Cons.prems xy ys by auto
  qed
qed

fun plain :: "jsval \<Rightarrow> bool" where
  "plain (JNum n) = (n \<noteq> NegZero \<and> safe_int n \<noteq> None)"
| "plain (JArr xs) = (\<forall>x \<in> set xs. plain x)"
| "plain (JObj ps) = (\<forall>p \<in> set ps. plain (snd p))"
| "plain (JStr _) = True"
| "plain (JBool _) = True"
| "plain JNull = True"
| "plain _ = False"

lemma plain_num: "plain (JNum n) \<Longrightarrow> \<exists>i. is_safe i \<and> n = num_of_int i"
  by (auto simp: safe_int_Some_iff)

lemma num_str_int: "is_safe i \<Longrightarrow> num_str (num_of_int i) = show_int i"
  by (simp add: num_str_def num_of_int_def rat_is_int_iff is_safe_def)

lemma json_stringify_int: "is_safe i \<Longrightarrow> json_stringify (JNum (num_of_int i)) = show_int i"
  by (simp add: num_str_int isFinite_def num_of_int_def[of i]) (simp add: num_str_int num_of_int_def[symmetric])

text \<open>The kind of a value shows in the first character of its text.\<close>

definition kind_char :: "jsval \<Rightarrow> char \<Rightarrow> bool" where
  "kind_char v c = (case v of JStr _ \<Rightarrow> c = CHR 0x22 | JArr _ \<Rightarrow> c = CHR ''['' | JObj _ \<Rightarrow> c = CHR ''{''
     | JNull \<Rightarrow> c = CHR ''n'' | JBool b \<Rightarrow> c = (if b then CHR ''t'' else CHR ''f'')
     | JNum _ \<Rightarrow> num_char c | _ \<Rightarrow> False)"

lemma json_first_char:
  assumes "plain v"
  shows "\<exists>c cs. json_stringify v = c # cs \<and> kind_char v c"
proof (cases v)
  case (JNum n)
  then obtain i where "is_safe i" "n = num_of_int i" using assms plain_num by blast
  moreover obtain c cs where "show_int i = c # cs" "num_char c"
    using show_int_chars[of i] by (auto simp: neq_Nil_conv)
  ultimately show ?thesis using JNum json_stringify_int by (simp add: kind_char_def)
qed (use assms in \<open>auto simp: kind_char_def json_quote_def\<close>)

lemma num_char_kinds [simp]:
  "\<not> num_char (CHR 0x22)" "\<not> num_char (CHR ''['')" "\<not> num_char (CHR ''{'')" "\<not> num_char (CHR ''n'')"
  "\<not> num_char (CHR ''t'')" "\<not> num_char (CHR ''f'')" "\<not> num_char (CHR '','')" "\<not> num_char (CHR '']'')"
  "\<not> num_char (CHR ''}'')"
  by (simp_all add: num_char_def is_digit_def)

lemma json_nonempty:
  assumes "plain v"
  shows "json_stringify v \<noteq> [] \<and> hd (json_stringify v) \<noteq> CHR '']''"
proof -
  obtain c cs where "json_stringify v = c # cs" "kind_char v c"
    using json_first_char[OF assms] by blast
  then show ?thesis by (cases v) (auto simp: kind_char_def)
qed

lemma span_inject:
  assumes "xs @ r = ys @ s" and "list_all P xs" "list_all P ys"
    and "r = [] \<or> \<not> P (hd r)" and "s = [] \<or> \<not> P (hd s)"
  shows "xs = ys \<and> r = s"
proof -
  have "takeWhile P (xs @ r) = xs" "takeWhile P (ys @ s) = ys"
    using assms(2-) by (cases r; cases s; simp add: takeWhile_append list_all_iff)+
  then show ?thesis using assms(1) by (metis same_append_eq)
qed

lemma delimited_num: "delimited r \<Longrightarrow> r = [] \<or> \<not> num_char (hd r)"
  by (cases r) (auto simp: delimited_def)

definition same_kind :: "jsval \<Rightarrow> jsval \<Rightarrow> bool" where
  "same_kind v w \<longleftrightarrow> (\<exists>c. kind_char v c \<and> kind_char w c)"

lemma json_kind_eq:
  assumes "plain v" "plain w" "json_stringify v @ r = json_stringify w @ s"
  shows "same_kind v w"
  using json_first_char[OF assms(1)] json_first_char[OF assms(2)] assms(3)
  unfolding same_kind_def by auto

lemma same_kind_cases:
  "same_kind (JStr s) w \<Longrightarrow> \<exists>s'. w = JStr s'"
  "same_kind (JBool b) w \<Longrightarrow> w = JBool b"
  "same_kind (JNum n) w \<Longrightarrow> \<exists>m. w = JNum m"
  "same_kind (JArr xs) w \<Longrightarrow> \<exists>ys. w = JArr ys"
  "same_kind (JObj ps) w \<Longrightarrow> \<exists>qs. w = JObj qs"
  "same_kind JNull w \<Longrightarrow> w = JNull"
  by (cases w; auto simp: same_kind_def kind_char_def split: if_splits)+

lemma json_stringify_decodable: "plain v \<Longrightarrow> decodable json_stringify v (Collect plain)"
proof (induction v rule: json_stringify.induct)
  case (1 s)
  show ?case unfolding decodable_def
  proof (intro ballI allI impI)
    fix w r t
    assume w: "w \<in> Collect plain" and eq: "json_stringify (JStr s) @ r = json_stringify w @ t"
    then have "same_kind (JStr s) w" using json_kind_eq[of "JStr s" w r t] by simp
    then obtain s' where s': "w = JStr s'" using same_kind_cases(1) by blast
    then show "JStr s = w \<and> r = t" using eq json_quote_inject[of s r s' t] by simp
  qed
next
  case (2 b)
  show ?case unfolding decodable_def
  proof (intro ballI allI impI)
    fix w r t
    assume w: "w \<in> Collect plain" and eq: "json_stringify (JBool b) @ r = json_stringify w @ t"
    then have "same_kind (JBool b) w" using json_kind_eq[of "JBool b" w r t] by simp
    then have "w = JBool b" by (rule same_kind_cases)
    then show "JBool b = w \<and> r = t" using eq by auto
  qed
next
  case (3 n)
  then obtain i where i: "is_safe i" "n = num_of_int i" using plain_num by blast
  show ?case unfolding decodable_def
  proof (intro ballI allI impI)
    fix w r t
    assume w: "w \<in> Collect plain" and eq: "json_stringify (JNum n) @ r = json_stringify w @ t"
      and d: "delimited r" "delimited t"
    then have "same_kind (JNum n) w" using json_kind_eq[of "JNum n" w r t] 3 by simp
    then obtain m where m: "w = JNum m" using same_kind_cases(3) by blast
    then obtain j where j: "is_safe j" "m = num_of_int j" using w plain_num by blast
    have "show_int i @ r = show_int j @ t"
      using eq i j m json_stringify_int by metis
    then have "show_int i = show_int j \<and> r = t"
      using show_int_chars delimited_num d by (intro span_inject[where P = num_char]) blast+
    then show "JNum n = w \<and> r = t" using show_int_inject i j m by blast
  qed
next
  case (4 xs)
  show ?case unfolding decodable_def
  proof (intro ballI allI impI)
    fix w r t
    assume w: "w \<in> Collect plain" and eq: "json_stringify (JArr xs) @ r = json_stringify w @ t"
    then have "same_kind (JArr xs) w" using json_kind_eq[of "JArr xs" w r t] 4 by simp
    then obtain ys where ys: "w = JArr ys" using same_kind_cases(4) by blast
    have "xs = ys \<and> r = t"
    proof (rule join_inject[where f = json_stringify and Y = "Collect plain" and e = "CHR '']''"])
      show "decodable json_stringify x (Collect plain)" if "x \<in> set xs" for x
        using 4 that by simp
      show "json_stringify x \<noteq> [] \<and> hd (json_stringify x) \<noteq> CHR '']''"
        if "x \<in> set xs \<union> Collect plain" for x
        using that 4 json_nonempty[of x] by auto
    qed (use eq ys w in auto)
    then show "JArr xs = w \<and> r = t" using ys by simp
  qed
next
  case (5 ps)
  let ?f = "\<lambda>p. json_quote (fst p) @ '':'' @ json_stringify (snd p)"
  show ?case unfolding decodable_def
  proof (intro ballI allI impI)
    fix w r t
    assume w: "w \<in> Collect plain" and eq: "json_stringify (JObj ps) @ r = json_stringify w @ t"
    then have "same_kind (JObj ps) w" using json_kind_eq[of "JObj ps" w r t] 5 by simp
    then obtain qs where qs: "w = JObj qs" using same_kind_cases(5) by blast
    have "ps = qs \<and> r = t"
    proof (rule join_inject[where f = ?f and Y = "{p. plain (snd p)}" and e = "CHR ''}''"])
      show "decodable ?f p {p. plain (snd p)}" if "p \<in> set ps" for p
        unfolding decodable_def
      proof (intro ballI allI impI)
        fix q a b
        assume q: "q \<in> {p. plain (snd p)}" and pq: "?f p @ a = ?f q @ b"
          and d: "delimited a" "delimited b"
        from pq have "fst p = fst q" and "json_stringify (snd p) @ a = json_stringify (snd q) @ b"
          using json_quote_inject[of "fst p" "'':'' @ json_stringify (snd p) @ a" "fst q"] by auto
        moreover have "decodable json_stringify (snd p) (Collect plain)" using 5 that by simp
        ultimately have "snd p = snd q \<and> a = b" using q d unfolding decodable_def by blast
        then show "p = q \<and> a = b" using \<open>fst p = fst q\<close> by (simp add: prod_eq_iff)
      qed
      show "?f p \<noteq> [] \<and> hd (?f p) \<noteq> CHR ''}''" for p by (simp add: json_quote_def)
    qed (use eq qs w in auto)
    then show "JObj ps = w \<and> r = t" using qs by simp
  qed
next
  case "6_2"
  show ?case unfolding decodable_def
  proof (intro ballI allI impI)
    fix w r t
    assume w: "w \<in> Collect plain" and eq: "json_stringify JNull @ r = json_stringify w @ t"
    then have "same_kind JNull w" using json_kind_eq[of "JNull" w r t] by simp
    then have "w = JNull" by (rule same_kind_cases)
    then show "JNull = w \<and> r = t" using eq by auto
  qed
qed simp_all

lemma json_stringify_inject:
  assumes "plain v" "plain w" "json_stringify v = json_stringify w"
  shows "v = w"
proof -
  have "delimited []" by (simp add: delimited_def)
  then show ?thesis using json_stringify_decodable[OF assms(1)] assms(2,3)
    unfolding decodable_def by (metis append_Nil2 mem_Collect_eq)
qed

subsection \<open>Building objects\<close>

lemma set_insert_prop [simp]: "set (insert_prop k v ps) = insert (k, v) (set ps)"
  by (induction ps) (auto split: option.splits if_splits)

lemma distinct_insert_prop:
  "k \<notin> fst ` set ps \<Longrightarrow> distinct (map fst (insert_prop k v ps)) = distinct (map fst ps)"
  by (induction ps) (auto split: option.splits if_splits simp: rev_image_eqI)

lemma assign_fresh:
  assumes "distinct (map fst (ps @ qs))" and "''__proto__'' \<notin> fst ` set qs"
  shows "set (assign_props ps qs) = set ps \<union> set qs \<and> distinct (map fst (assign_props ps qs))"
  using assms
proof (induction qs arbitrary: ps)
  case Nil
  then show ?case by (simp add: assign_props_def)
next
  case (Cons q qs)
  obtain k v where q: "q = (k, v)" by (cases q)
  have k: "k \<notin> fst ` set ps" "k \<noteq> ''__proto__''" using Cons.prems q by auto
  then have sp: "set_prop k v ps = insert_prop k v ps" by (simp add: set_prop_def put_prop_def)
  have "distinct (map fst (insert_prop k v ps @ qs))"
    using Cons.prems k q by (auto simp: distinct_insert_prop)
  moreover have "assign_props ps (q # qs) = assign_props (insert_prop k v ps) qs"
    by (simp add: assign_props_def q sp)
  ultimately show ?case using Cons.IH[of "insert_prop k v ps"] Cons.prems(2) q by auto
qed

lemma map_of_eq_set:
  "distinct (map fst ps) \<Longrightarrow> distinct (map fst qs) \<Longrightarrow> set ps = set qs \<Longrightarrow> map_of ps = map_of qs"
  by (rule map_of_inject_set[THEN iffD2])

lemma canonicalize_JObj_props:
  assumes "hashable (JObj ps)" and "canonicalize (JObj ps) = Inr c"
  shows "\<exists>cs. c = JObj cs \<and> distinct (map fst cs) \<and>
    (\<forall>k. rel_option (\<lambda>v w. canonicalize v = Inr w) (map_of ps k) (map_of cs k))"
proof -
  have d: "distinct (map fst ps)" and np: "''__proto__'' \<notin> fst ` set ps"
    using assms(1) by auto
  let ?ks = "sorted_list_of_set (fst ` set ps)"
  obtain out where c: "c = build_obj out"
    and out: "list_all2 (\<lambda>k p. andThen (canonicalize (the (map_of ps k))) (\<lambda>w. Inr (k, w)) = Inr p) ?ks out"
    using assms(2) unfolding canonicalize_JObj[OF d] by (auto simp: andThen_Inr_iff mapRes_Inr_iff)
  then have rel: "list_all2 (\<lambda>k p. fst p = k \<and> canonicalize (the (map_of ps k)) = Inr (snd p)) ?ks out"
    by (auto simp: andThen_Inr_iff elim!: list_all2_mono)
  then have keys: "map fst out = ?ks"
    by (auto simp: list_all2_conv_all_nth intro!: nth_equalityI)
  have dout: "distinct (map fst out)" by (simp add: keys)
  have kout: "fst ` set out = fst ` set ps" using arg_cong[OF keys, of set] by simp
  have sp: "set (assign_props [] out) = set out" "distinct (map fst (assign_props [] out))"
    using assign_fresh[of "[]" out] dout np kout by auto
  then have m: "map_of (assign_props [] out) = map_of out" using dout by (intro map_of_eq_set) auto
  have "rel_option (\<lambda>v w. canonicalize v = Inr w) (map_of ps k) (map_of out k)" for k
  proof (cases "map_of out k")
    case None
    then have "map_of ps k = None" by (simp add: map_of_eq_None_iff kout)
    then show ?thesis using None by simp
  next
    case (Some w)
    then have mem: "(k, w) \<in> set out" by (rule map_of_SomeD)
    then obtain i where "i < length out" "out ! i = (k, w)" by (auto simp: in_set_conv_nth)
    then have "canonicalize (the (map_of ps k)) = Inr w"
      using rel by (auto simp: list_all2_conv_all_nth)
    moreover have "k \<in> fst ` set ps" using mem kout by force
    then obtain v where "map_of ps k = Some v" by (metis dom_map_of_conv_image_fst domD)
    ultimately show ?thesis using Some by simp
  qed
  then show ?thesis using sp m c by (auto simp: build_obj_def)
qed

lemma canonicalize_plain: "hashable v \<Longrightarrow> canonicalize v = Inr c \<Longrightarrow> plain c"
proof (induction v arbitrary: c rule: canonicalize.induct)
  case (8 xs)
  then obtain ys where "c = JArr ys" "list_all2 (\<lambda>x y. canonicalize x = Inr y) xs ys"
    by (auto simp: andThen_Inr_iff mapRes_Inr_iff)
  then show ?case using "8.IH" "8.prems" by (fastforce simp: list_all2_conv_all_nth set_conv_nth)
next
  case (10 ps)
  obtain cs where cs: "c = JObj cs" "distinct (map fst cs)"
    and rel: "\<And>k. rel_option (\<lambda>v w. canonicalize v = Inr w) (map_of ps k) (map_of cs k)"
    using canonicalize_JObj_props[OF "10.prems"] by blast
  have "plain w" if "(k, w) \<in> set cs" for k w
  proof -
    have "map_of cs k = Some w" using that cs(2) by simp
    then obtain v where v: "map_of ps k = Some v" "canonicalize v = Inr w"
      using rel[of k] by (cases "map_of ps k") auto
    then have "(k, v) \<in> set ps" by (simp add: map_of_SomeD)
    then show ?thesis using "10.IH"[of "(k, v)" w] "10.prems"(1) v by fastforce
  qed
  then show ?case using cs by auto
qed (auto split: if_splits)

lemma canonicalize_arr_iff:
  "canonicalize v = Inr (JArr ys) \<longleftrightarrow> (\<exists>xs. v = JArr xs \<and> list_all2 (\<lambda>x y. canonicalize x = Inr y) xs ys)"
  by (cases v) (simp_all add: andThen_Inr_iff mapRes_Inr_iff build_obj_def)

lemma canonicalize_obj_dest: "canonicalize v = Inr (JObj cs) \<Longrightarrow> \<exists>ps. v = JObj ps"
  by (cases v) (simp_all add: andThen_Inr_iff split: if_splits)

lemma canonicalize_scalar: "canonicalize v = Inr c \<Longrightarrow> \<not> is_container c \<Longrightarrow> v = c"
  by (cases v) (auto simp: andThen_Inr_iff build_obj_def is_container_def split: if_splits)

lemma canonicalize_scalar_equiv:
  assumes "\<not> is_container c" and "canonicalize v = Inr c" and "canonicalize w = Inr c"
  shows "json_equiv v w"
  using canonicalize_scalar[OF assms(2,1)] canonicalize_scalar[OF assms(3,1)] assms(1)
  by (simp add: json_equiv.scalar)

lemma canonicalize_inject:
  "hashable v \<Longrightarrow> hashable w \<Longrightarrow> canonicalize v = Inr c \<Longrightarrow> canonicalize w = Inr c \<Longrightarrow> json_equiv v w"
proof (induction c arbitrary: v w)
  case (JArr ys)
  then obtain xs zs where v: "v = JArr xs" "w = JArr zs"
    and xs: "list_all2 (\<lambda>x y. canonicalize x = Inr y) xs ys"
    and zs: "list_all2 (\<lambda>x y. canonicalize x = Inr y) zs ys"
    by (auto simp: canonicalize_arr_iff)
  have "json_equiv (xs ! i) (zs ! i)" if "i < length xs" for i
    using JArr.IH[of "ys ! i" "xs ! i" "zs ! i"] that xs zs JArr.prems(1,2) v
    by (simp add: list_all2_conv_all_nth)
  then have "list_all2 json_equiv xs zs" using xs zs by (simp add: list_all2_conv_all_nth)
  then show ?case by (simp add: json_equiv.arr v)
next
  case (JObj cs)
  then obtain ps qs where v: "v = JObj ps" "w = JObj qs" by (meson canonicalize_obj_dest)
  have dc: "distinct (map fst cs)"
    and ps: "\<And>k. rel_option (\<lambda>v w. canonicalize v = Inr w) (map_of ps k) (map_of cs k)"
    using canonicalize_JObj_props[of ps] JObj.prems(1,3) v by blast+
  have qs: "\<And>k. rel_option (\<lambda>v w. canonicalize v = Inr w) (map_of qs k) (map_of cs k)"
    using canonicalize_JObj_props[of qs] JObj.prems(2,4) v by blast
  have "rel_option json_equiv (map_of ps k) (map_of qs k)" for k
  proof (cases "map_of cs k")
    case None
    then show ?thesis using ps[of k] qs[of k] by simp
  next
    case (Some d)
    then obtain x y where x: "map_of ps k = Some x" "canonicalize x = Inr d"
      and y: "map_of qs k = Some y" "canonicalize y = Inr d"
      using ps[of k] qs[of k] by (auto simp: option_rel_Some2)
    have mem: "(k, x) \<in> set ps" "(k, y) \<in> set qs" "(k, d) \<in> set cs"
      using x y Some by (simp_all add: map_of_SomeD)
    have "hashable x" "hashable y" using JObj.prems(1,2) v mem by fastforce+
    then have "json_equiv x y" using JObj.IH[of "(k, d)" d x y] mem x y by (simp add: snds.intros)
    then show ?thesis using x y by simp
  qed
  then show ?case by (simp add: json_equiv.obj v)
qed (rule canonicalize_scalar_equiv[rotated], assumption, assumption, simp add: is_container_def)+

lemma hashable_wf: "hashable v \<Longrightarrow> wf_val v"
  by (induction v rule: hashable.induct) auto

lemma canonical_text_iff:
  assumes "hashable v" and "hashable w" and "canonicalJsonStringify v = Inr s"
  shows "canonicalJsonStringify w = Inr s \<longleftrightarrow> json_equiv v w"
proof
  assume "canonicalJsonStringify w = Inr s"
  then obtain c d where cd: "canonicalize v = Inr c" "canonicalize w = Inr d" "json_stringify c = json_stringify d"
    using assms(3) by (auto simp: canonicalJsonStringify_def andThen_Inr_iff)
  then have "c = d" using canonicalize_plain assms(1,2) by (intro json_stringify_inject) auto
  then show "json_equiv v w" using canonicalize_inject assms(1,2) cd by blast
next
  assume "json_equiv v w"
  then have "canonicalize v = canonicalize w"
    using assms(1,2) by (intro canonicalize_equiv hashable_wf)
  then show "canonicalJsonStringify w = Inr s" using assms(3) by (simp add: canonicalJsonStringify_def)
qed

text \<open>C28: Canonical JSON is a faithful fingerprint text. For values whose numbers are safe
  integers and whose objects have distinct keys, none of them \<^verbatim>\<open>__proto__\<close>, if
  \<^verbatim>\<open>canonicalJsonStringify\<close> accepts one value, it gives another value the same text exactly when
  the two are the same JSON document up to the order of object keys.\<close>

theorem canonical_json_complete:
  assumes "hashable v" and "hashable w" and "canonicalJsonStringify v = Inr s"
  shows "canonicalJsonStringify w = Inr s \<longleftrightarrow> json_equiv v w"
  using assms by (rule canonical_text_iff)

theorem canonical_json_complete_witness:
  "json_equiv (JObj [(''b'', JInt 1), (''a'', JStr ''x'')]) (JObj [(''a'', JStr ''x''), (''b'', JInt 1)])"
proof -
  let ?v = "JObj [(''b'', JInt 1), (''a'', JStr ''x'')]"
  let ?w = "JObj [(''a'', JStr ''x''), (''b'', JInt 1)]"
  have "hashable ?v" "hashable ?w" by code_simp+
  moreover obtain s where "canonicalJsonStringify ?v = Inr s" "canonicalJsonStringify ?w = Inr s"
  proof -
    have "\<not> isl (canonicalJsonStringify ?v) \<and> canonicalJsonStringify ?w = canonicalJsonStringify ?v"
      by code_simp
    then show ?thesis using that by (cases "canonicalJsonStringify ?v") auto
  qed
  ultimately show ?thesis using canonical_json_complete[of ?v ?w] by blast
qed

lemma assign_no_proto: "assign_props ps (filter (\<lambda>p. fst p \<noteq> ''__proto__'') qs) = assign_props ps qs"
  by (induction qs arbitrary: ps) (auto simp: assign_props_def set_prop_def)

lemma mapRes_filter_keys:
  assumes "mapRes (\<lambda>p. andThen (f (snd p)) (\<lambda>w. Inr (fst p, w))) ps = Inr qs"
  shows "mapRes (\<lambda>p. andThen (f (snd p)) (\<lambda>w. Inr (fst p, w))) (filter (\<lambda>p. P (fst p)) ps)
    = Inr (filter (\<lambda>p. P (fst p)) qs)"
  using assms by (induction ps arbitrary: qs) (auto simp: andThen_Inr_iff)

text \<open>The key \<^verbatim>\<open>__proto__\<close> is the exception: assigning to it on a fresh object creates no own
  property, so an object that owns the key has the canonical text of the object without it.\<close>

theorem canonical_json_drops_proto:
  assumes "canonicalJsonStringify (JObj ps) = Inr s"
  shows "canonicalJsonStringify (JObj (filter (\<lambda>p. fst p \<noteq> ''__proto__'') ps)) = Inr s"
proof -
  let ?f = "\<lambda>p. andThen (canonicalize (snd p)) (\<lambda>w. Inr (fst p, w))"
  let ?P = "\<lambda>k. k \<noteq> ''__proto__''"
  obtain out where out: "mapRes ?f (sorted_props ps) = Inr out" and s: "s = json_stringify (build_obj out)"
    using assms by (auto simp: canonicalJsonStringify_def andThen_Inr_iff)
  have "mapRes ?f (sorted_props (filter (\<lambda>p. ?P (fst p)) ps)) = Inr (filter (\<lambda>p. ?P (fst p)) out)"
    using mapRes_filter_keys[OF out, of ?P] by (simp only: sorted_props_def filter_sort)
  then show ?thesis
    by (simp only: canonicalJsonStringify_def canonicalize.simps andThen_simps s build_obj_def assign_no_proto)
qed

theorem canonical_json_drops_proto_witness:
  "canonicalJsonStringify (JObj [(''__proto__'', JInt 1), (''a'', JInt 2)]) =
   canonicalJsonStringify (JObj [(''a'', JInt 2)])"
proof -
  let ?ps = "[(''__proto__'', JInt 1), (''a'', JInt 2)]"
  have "\<not> isl (canonicalJsonStringify (JObj ?ps))" by code_simp
  then obtain s where "canonicalJsonStringify (JObj ?ps) = Inr s"
    by (cases "canonicalJsonStringify (JObj ?ps)") auto
  then show ?thesis using canonical_json_drops_proto[of ?ps s] by simp
qed

end
