(* ===== verification/JsAssert.thy ===== *)
theory JsAssert
  imports CanonicalJson
begin

text \<open>
  The argument checks that the modules of \<^verbatim>\<open>src/core\<close> repeat with the same text, and the
  lookup facts about object literals and spreads that the component proofs rest on. A check
  returns the value it lets through, so that what follows it in a model works on a string or
  an integer instead of a dynamic value.
\<close>

section \<open>Argument checks\<close>

text \<open>Null, primitives and arrays are not objects; a \<^verbatim>\<open>Date\<close> is not a plain one.\<close>

definition assertPlainObject :: "jsval \<Rightarrow> string \<Rightarrow> unit res" where
  "assertPlainObject v name =
     (if \<not> isObjectLike v then Inl (TypeError (name @ '' must be an object''))
      else case v of JDate _ \<Rightarrow> Inl (TypeError (name @ '' must be a plain object'')) | _ \<Rightarrow> Inr ())"

definition assertNonEmptyString :: "jsval \<Rightarrow> string \<Rightarrow> string res" where
  "assertNonEmptyString v name =
     (case v of JStr s \<Rightarrow> (if trim s = [] then Inl (TypeError (name @ '' must be a non-empty string'')) else Inr s)
      | _ \<Rightarrow> Inl (TypeError (name @ '' must be a non-empty string'')))"

definition assertIsoDate :: "jsval \<Rightarrow> string \<Rightarrow> string res" where
  "assertIsoDate v name =
     andThen (assertNonEmptyString v name) (\<lambda>s.
       if date_parse s = None then Inl (TypeError (name @ '' must be an ISO date string'')) else Inr s)"

text \<open>\<^verbatim>\<open>/^[0-9a-f]{64}$/\<close> on the trimmed, lower-cased text.\<close>

definition assertSha256Hex :: "jsval \<Rightarrow> string \<Rightarrow> string res" where
  "assertSha256Hex v name =
     andThen (assertNonEmptyString v name) (\<lambda>s.
       let t = toLowerCase (trim s) in
       if is_sha256_hex t then Inr t else Inl (TypeError (name @ '' must be a sha256 hex string'')))"

definition assertNonNegativeSafeInteger :: "jsval \<Rightarrow> string \<Rightarrow> int res" where
  "assertNonNegativeSafeInteger v name =
     (case safe_int_of v of
        None \<Rightarrow> Inl (TypeError (name @ '' must be a non-negative safe integer''))
      | Some n \<Rightarrow> (if n < 0 then Inl (TypeError (name @ '' must be a non-negative safe integer'')) else Inr n))"

lemma assertPlainObject_Inr_iff [res_simps]:
  "assertPlainObject v name = Inr u \<longleftrightarrow> (\<exists>ps. v = JObj ps)"
  by (cases v) (auto simp: assertPlainObject_def isObjectLike_def)

lemma assertNonEmptyString_Inr_iff [res_simps]:
  "assertNonEmptyString v name = Inr s \<longleftrightarrow> v = JStr s \<and> trim s \<noteq> []"
  by (cases v) (auto simp: assertNonEmptyString_def)

definition is_iso :: "string \<Rightarrow> bool" where
  "is_iso s \<longleftrightarrow> trim s \<noteq> [] \<and> date_parse s \<noteq> None"

lemma assertIsoDate_Inr_iff [res_simps]: "assertIsoDate v name = Inr s \<longleftrightarrow> v = JStr s \<and> is_iso s"
  by (auto simp: assertIsoDate_def is_iso_def res_simps split: if_splits)

lemma assertNonNegativeSafeInteger_Inr_iff [res_simps]:
  "assertNonNegativeSafeInteger v name = Inr n \<longleftrightarrow> safe_int_of v = Some n \<and> 0 \<le> n"
  by (auto simp: assertNonNegativeSafeInteger_def split: option.splits if_splits)

section \<open>Digests\<close>

lemma is_hex_char_code: "is_hex_char c \<Longrightarrow> 48 \<le> (of_char c :: int) \<and> (of_char c :: int) \<le> 102
    \<and> \<not> (65 \<le> (of_char c :: int) \<and> (of_char c :: int) \<le> 90)"
  by (auto simp: is_hex_char_def is_digit_def)

lemma hex_char_not_ws: "is_hex_char c \<Longrightarrow> \<not> is_ws c"
  by (drule is_hex_char_code) (auto simp: is_ws_def)

lemma hex_char_lower: "is_hex_char c \<Longrightarrow> lower_char c = c"
  by (drule is_hex_char_code) (auto simp: lower_char_def Let_def)

lemma trim_id:
  assumes "s = [] \<or> \<not> is_ws (hd s) \<and> \<not> is_ws (last s)"
  shows "trim s = s"
proof (cases s)
  case (Cons c cs)
  then have "dropWhile is_ws s = s" using assms by simp
  moreover have "dropWhile is_ws (rev s) = rev s"
    using assms Cons by (cases "rev s") (auto simp: last_rev hd_rev[symmetric])
  ultimately show ?thesis by (simp add: trim_def)
qed (simp add: trim_def)

lemma trim_trim [simp]: "trim (trim s) = trim s"
proof (cases "trim s = []")
  case False
  define u where "u = dropWhile is_ws s"
  have t: "trim s = rev (dropWhile is_ws (rev u))" by (simp add: trim_def u_def)
  have "\<not> is_ws (last (trim s))"
    using False hd_dropWhile[of is_ws "rev u"] by (simp add: t last_rev)
  moreover have "hd (trim s) = hd u"
  proof -
    obtain ys where "u = trim s @ ys"
      by (metis t rev_append rev_rev_ident takeWhile_dropWhile_id)
    then show ?thesis using False by simp
  qed
  moreover have "u \<noteq> []" using False t by auto
  then have "\<not> is_ws (hd u)" using hd_dropWhile[of is_ws s] by (simp add: u_def)
  ultimately show ?thesis by (intro trim_id) simp
next
  case True
  then show ?thesis by (simp only: True) (simp add: trim_def)
qed

lemma sha256_hex_norm: "is_sha256_hex s \<Longrightarrow> trim s = s \<and> toLowerCase s = s \<and> s \<noteq> []"
proof -
  assume h: "is_sha256_hex s"
  then have s: "s \<noteq> []" and all: "\<And>c. c \<in> set s \<Longrightarrow> is_hex_char c"
    by (auto simp: is_sha256_hex_def list_all_iff)
  have "trim s = s" using s all hex_char_not_ws by (intro trim_id) simp
  moreover have "toLowerCase s = s" unfolding toLowerCase_def
    using all by (intro map_idI hex_char_lower) blast
  ultimately show ?thesis using s by simp
qed

lemma assertSha256Hex_hex [simp]: "is_sha256_hex s \<Longrightarrow> assertSha256Hex (JStr s) name = Inr s"
  using sha256_hex_norm[of s] by (simp add: assertSha256Hex_def assertNonEmptyString_def)

lemma assertSha256Hex_Inr: "assertSha256Hex v name = Inr t \<Longrightarrow> is_sha256_hex t"
  by (auto simp: assertSha256Hex_def res_simps Let_def split: if_splits)

lemma sha256_hex_no_colon: "is_sha256_hex s \<Longrightarrow> CHR '':'' \<notin> set s"
  by (auto simp: is_sha256_hex_def list_all_iff is_hex_char_def is_digit_def)

lemma code_char_facts:
  assumes "is_upper c \<or> is_digit c \<or> c = CHR ''_''"
  shows "\<not> is_ws c" "upper_char c = [c]"
proof -
  have n: "48 \<le> (of_char c :: int) \<and> (of_char c :: int) \<le> 95"
    using assms by (auto simp: is_upper_def is_digit_def)
  then show "\<not> is_ws c" by (auto simp: is_ws_def)
  show "upper_char c = [c]" using n by (simp add: upper_char_def Let_def)
qed

lemma currency_code_norm:
  assumes "is_currency_code c"
  shows "trim c = c" "toUpperCase c = c" "c \<noteq> []"
proof -
  have all: "\<And>d. d \<in> set c \<Longrightarrow> is_upper d \<or> is_digit d \<or> d = CHR ''_''" and ne: "c \<noteq> []"
    using assms by (auto simp: is_currency_code_def list_all_iff split: list.splits)
  show "c \<noteq> []" by fact
  show "trim c = c" using ne all code_char_facts(1) by (intro trim_id) simp
  have "toUpperCase cs = cs" if "\<And>d. d \<in> set cs \<Longrightarrow> is_upper d \<or> is_digit d \<or> d = CHR ''_''" for cs
    using that code_char_facts(2) by (induction cs) (simp_all add: toUpperCase_def)
  then show "toUpperCase c = c" using all .
qed

section \<open>Looking up object literals\<close>

lemma orElse_simps [simp]:
  "orElse (JStr s) d = JStr s" "orElse (JNum n) d = JNum n" "orElse JNull d = d" "orElse JUndef d = d" "orElse (JObj ps) d = JObj ps"
  by (simp_all add: orElse_def nullish_def)

lemma num_of_int_simps [simp]: "isFinite (num_of_int n)" "num_of_int n \<noteq> NegZero"
  by (simp_all add: num_of_int_def isFinite_def)

lemma map_of_replace_prop:
  "k \<in> fst ` set ps \<Longrightarrow> map_of (replace_prop k v ps) = (map_of ps)(k \<mapsto> v)"
  by (induction ps) (auto simp: fun_eq_iff rev_image_eqI)

lemma map_of_insert_prop:
  "k \<notin> fst ` set ps \<Longrightarrow> map_of (insert_prop k v ps) = (map_of ps)(k \<mapsto> v)"
  by (induction ps) (auto simp: fun_eq_iff split: option.splits)

lemma map_of_put_prop: "map_of (put_prop k v ps) = (map_of ps)(k \<mapsto> v)"
  by (simp add: put_prop_def map_of_replace_prop map_of_insert_prop)

text \<open>A literal is read key by key; an overridden or spread object through its updates.\<close>

lemma getp_literal [simp]:
  "getp (JObj []) k = JUndef"
  "getp (JObj ((k', v) # ps)) k = (if k' = k then v else getp (JObj ps) k)"
  by auto

lemma getp_put_prop [simp]: "getp (JObj (put_prop k v ps)) k' = (if k = k' then v else getp (JObj ps) k')"
  by (auto simp: map_of_put_prop)

declare getp.simps(1) [simp del]

lemma getp_spread [simp]:
  "getp (JObj (spread ps [])) k = getp (JObj ps) k"
  "getp (JObj (spread ps (q # qs))) k = getp (JObj (spread (put_prop (fst q) (snd q) ps) qs)) k"
  by (simp_all add: spread_def case_prod_unfold)

lemma getp_spread_other: "k \<notin> fst ` set qs \<Longrightarrow> getp (JObj (spread ps qs)) k = getp (JObj ps) k"
  by (induction qs arbitrary: ps) auto

text \<open>Equivalent documents have equivalent properties, and equal atoms.\<close>

inductive_cases json_equiv_objE: "json_equiv (JObj ps) (JObj qs)"
inductive_cases json_equiv_strE: "json_equiv (JStr s) v"
inductive_cases json_equiv_nullE: "json_equiv JNull v"
inductive_cases json_equiv_numE: "json_equiv (JNum n) v"

lemma json_equiv_getp:
  assumes "json_equiv (JObj ps) (JObj qs)"
  shows "json_equiv (getp (JObj ps) k) (getp (JObj qs) k)"
proof -
  have "rel_option json_equiv (map_of ps k) (map_of qs k)"
    using assms by (auto elim!: json_equiv_objE simp: is_container_def)
  moreover have "json_equiv JUndef JUndef" by (rule json_equiv.scalar) (simp add: is_container_def)
  ultimately show ?thesis by (cases "map_of ps k"; cases "map_of qs k") (simp_all add: getp.simps(1))
qed

lemma json_equiv_atom:
  "json_equiv (JStr s) v \<longleftrightarrow> v = JStr s"
  "json_equiv JNull v \<longleftrightarrow> v = JNull"
  by (auto elim: json_equiv_strE json_equiv_nullE simp: is_container_def intro: json_equiv.scalar)

lemma json_equiv_num: "json_equiv (JNum n) v \<longleftrightarrow> v = JNum n"
  by (auto elim: json_equiv_numE simp: is_container_def intro: json_equiv.scalar)

end
