(* ===== verification/EventChain.thy ===== *)
theory EventChain
  imports JsAssert
begin

text \<open>
  \<^verbatim>\<open>src/core/event-chain.js\<close>: the append-only, hash-chained and optionally signed event log.
  An event is a dynamic value, because \<^verbatim>\<open>verifyChainedEvents\<close> is run on data read back from a
  store. SHA-256 and Ed25519 (\<^verbatim>\<open>src/core/crypto.js\<close> calls Node's library for both) are the
  parameters \<open>H\<close>, \<open>sign\<close> and \<open>verify\<close>; signing and verification may throw on a key or
  signature Node cannot decode. The results are that appending to a valid log gives a valid
  log, and that the last chain hash of a valid log determines its length and the content of
  every event.
\<close>

section \<open>Building events\<close>

definition EVENT_ENVELOPE_VERSION :: jsval where
  "EVENT_ENVELOPE_VERSION = JInt 1"

definition pick_fields :: "string list \<Rightarrow> jsval \<Rightarrow> jsval" where
  "pick_fields ks e = JObj (map (\<lambda>k. (k, getp e k)) ks)"

definition event_fields :: "string list" where
  "event_fields = [''v'', ''id'', ''at'', ''streamId'', ''type'', ''actor'', ''payload'']"

definition payloadMaterialForEvent :: "jsval \<Rightarrow> string res" where
  "payloadMaterialForEvent e = canonicalJsonStringify (pick_fields event_fields e)"

definition chainMaterialForEvent :: "jsval \<Rightarrow> jsval \<Rightarrow> jsval \<Rightarrow> string res" where
  "chainMaterialForEvent v prevChainHash payloadHash =
     canonicalJsonStringify (JObj [(''v'', v), (''prevChainHash'', prevChainHash), (''payloadHash'', payloadHash)])"

text \<open>\<open>now\<close> is the time of the call and \<open>newId\<close> what \<^verbatim>\<open>createId("evt")\<close> returns.\<close>

definition createChainedEvent ::
  "string \<Rightarrow> string \<Rightarrow> jsval \<Rightarrow> jsval \<Rightarrow> jsval \<Rightarrow> jsval \<Rightarrow> jsval \<Rightarrow> jsval \<Rightarrow> jsval" where
  "createChainedEvent now newId streamId type actor payload atArg idArg =
     JObj [(''v'', EVENT_ENVELOPE_VERSION),
           (''id'', orElse (dflt idArg JNull) (JStr newId)),
           (''at'', dflt atArg (JStr now)),
           (''streamId'', streamId), (''type'', type), (''actor'', actor),
           (''payload'', dflt payload JNull),
           (''payloadHash'', JNull), (''prevChainHash'', JNull), (''chainHash'', JNull),
           (''signature'', JNull), (''signerKeyId'', JNull)]"

text \<open>The signature and key id of a payload hash: both null without a usable signer.\<close>

definition signPayload :: "(string \<Rightarrow> jsval \<Rightarrow> string res) \<Rightarrow> jsval \<Rightarrow> string \<Rightarrow> (jsval \<times> jsval) res" where
  "signPayload sign signer payloadHash =
     (if truthy (getp signer ''privateKeyPem'') \<and> truthy (getp signer ''keyId'')
      then andThen (sign payloadHash (getp signer ''privateKeyPem'')) (\<lambda>s. Inr (JStr s, getp signer ''keyId''))
      else Inr (JNull, JNull))"

definition finalizeChainedEvent ::
  "(string \<Rightarrow> string) \<Rightarrow> (string \<Rightarrow> jsval \<Rightarrow> string res) \<Rightarrow> jsval \<Rightarrow> jsval \<Rightarrow> jsval \<Rightarrow> jsval res" where
  "finalizeChainedEvent H sign event prevChainHash signer =
     (if \<not> truthy event \<or> js_typeof event \<noteq> ''object'' then Inl (TypeError ''event must be an object'')
      else if getp event ''v'' \<noteq> EVENT_ENVELOPE_VERSION then Inl (TypeError ''event.v must be 1'')
      else
        andThen (normalizeForCanonicalJson (orElse (getp event ''actor'') JNull) ''$.actor'' False) (\<lambda>actor.
        andThen (normalizeForCanonicalJson (orElse (getp event ''payload'') JNull) ''$.payload'' False) (\<lambda>payload.
        let base = spread (own_props event)
              [(''actor'', actor), (''payload'', payload), (''prevChainHash'', prevChainHash)] in
        andThen (payloadMaterialForEvent (JObj base)) (\<lambda>pm.
        let payloadHash = H pm in
        andThen (chainMaterialForEvent EVENT_ENVELOPE_VERSION prevChainHash (JStr payloadHash)) (\<lambda>cm.
        let chainHash = H cm in
        andThen (signPayload sign signer payloadHash) (\<lambda>(signature, signerKeyId).
        Inr (JObj (spread base
          [(''payloadHash'', JStr payloadHash), (''chainHash'', JStr chainHash),
           (''signature'', signature), (''signerKeyId'', signerKeyId)]))))))))"

definition appendChainedEvent ::
  "(string \<Rightarrow> string) \<Rightarrow> (string \<Rightarrow> jsval \<Rightarrow> string res) \<Rightarrow> jsval \<Rightarrow> jsval \<Rightarrow> jsval \<Rightarrow> jsval res" where
  "appendChainedEvent H sign events event signer =
     (case events of
        JArr es \<Rightarrow>
          (let prev = (if es = [] then JNull else last es);
               prevChainHash = orElse (getp prev ''chainHash'') JNull
           in andThen (finalizeChainedEvent H sign event prevChainHash signer) (\<lambda>f. Inr (JArr (es @ [f]))))
      | _ \<Rightarrow> Inl (TypeError ''events must be an array''))"

section \<open>Verifying a log\<close>

text \<open>\<^verbatim>\<open>{ ok: true }\<close> or \<^verbatim>\<open>{ ok: false, error }\<close>.\<close>

datatype verify_result = VOk | VErr string

definition verifyEventAt ::
  "(string \<Rightarrow> string) \<Rightarrow> (string \<Rightarrow> jsval \<Rightarrow> jsval \<Rightarrow> bool res) \<Rightarrow> (jsval \<Rightarrow> jsval) \<Rightarrow> nat \<Rightarrow> jsval \<Rightarrow> jsval \<Rightarrow> verify_result res" where
  "verifyEventAt H verify publicKeyByKeyId i prev event =
     (let fail = (\<lambda>msg. Inr (VErr (msg @ '' at index '' @ show_int (int i)))) in
      if \<not> truthy event \<or> js_typeof event \<noteq> ''object'' then fail ''invalid event''
      else if getp event ''v'' \<noteq> EVENT_ENVELOPE_VERSION then fail ''unsupported event.v''
      else if getp event ''prevChainHash'' \<noteq> orElse (getp prev ''chainHash'') JNull then fail ''prevChainHash mismatch''
      else andThen (payloadMaterialForEvent event) (\<lambda>pm.
        if getp event ''payloadHash'' \<noteq> JStr (H pm) then fail ''payloadHash mismatch''
        else andThen (chainMaterialForEvent EVENT_ENVELOPE_VERSION (getp event ''prevChainHash'') (getp event ''payloadHash'')) (\<lambda>cm.
          if getp event ''chainHash'' \<noteq> JStr (H cm) then fail ''chainHash mismatch''
          else if \<not> truthy (getp event ''signature'') then Inr VOk
          else if \<not> truthy (getp event ''signerKeyId'') then fail ''missing signerKeyId''
          else let publicKeyPem = publicKeyByKeyId (getp event ''signerKeyId'') in
            if \<not> truthy publicKeyPem then fail ''unknown signerKeyId''
            else andThen (verify (H pm) (getp event ''signature'') publicKeyPem) (\<lambda>ok.
              if \<not> ok then fail ''signature invalid'' else Inr VOk))))"

fun verifyFrom ::
  "(string \<Rightarrow> string) \<Rightarrow> (string \<Rightarrow> jsval \<Rightarrow> jsval \<Rightarrow> bool res) \<Rightarrow> (jsval \<Rightarrow> jsval) \<Rightarrow> nat \<Rightarrow> jsval \<Rightarrow> jsval list \<Rightarrow> verify_result res" where
  "verifyFrom H verify pk i prev [] = Inr VOk"
| "verifyFrom H verify pk i prev (e # es) =
     andThen (verifyEventAt H verify pk i prev e) (\<lambda>r.
       case r of VErr m \<Rightarrow> Inr (VErr m) | VOk \<Rightarrow> verifyFrom H verify pk (Suc i) e es)"

definition verifyChainedEvents ::
  "(string \<Rightarrow> string) \<Rightarrow> (string \<Rightarrow> jsval \<Rightarrow> jsval \<Rightarrow> bool res) \<Rightarrow> (jsval \<Rightarrow> jsval) \<Rightarrow> jsval \<Rightarrow> verify_result res" where
  "verifyChainedEvents H verify publicKeyByKeyId events =
     (case events of JArr es \<Rightarrow> verifyFrom H verify publicKeyByKeyId 0 JNull es
      | _ \<Rightarrow> Inl (TypeError ''events must be an array''))"

section \<open>What verification establishes\<close>

lemma verifyFrom_Cons_VOk [simp]:
  "(case r of VOk \<Rightarrow> m | VErr msg \<Rightarrow> Inr (VErr msg)) = Inr VOk \<longleftrightarrow> r = VOk \<and> m = Inr VOk"
  by (cases r) auto

lemma verifyFrom_append:
  "verifyFrom H verify pk i prev (es @ [e]) = Inr VOk \<longleftrightarrow>
   verifyFrom H verify pk i prev es = Inr VOk \<and>
   verifyEventAt H verify pk (i + length es) (if es = [] then prev else last es) e = Inr VOk"
  by (induction es arbitrary: i prev)
     (auto simp: andThen_Inr_iff)

text \<open>The hashes of an accepted event are recomputed from its content and its predecessor.\<close>

lemma verifyEventAt_hashes:
  assumes "verifyEventAt H verify pk i prev e = Inr VOk"
  shows "\<exists>pm cm. payloadMaterialForEvent e = Inr pm \<and> getp e ''payloadHash'' = JStr (H pm)
    \<and> getp e ''prevChainHash'' = orElse (getp prev ''chainHash'') JNull
    \<and> chainMaterialForEvent EVENT_ENVELOPE_VERSION (getp e ''prevChainHash'') (JStr (H pm)) = Inr cm
    \<and> getp e ''chainHash'' = JStr (H cm)"
  using assms
  by (auto simp: verifyEventAt_def Let_def andThen_Inr_iff split: if_splits)

text \<open>The laws of the signature scheme that the chain relies on, at one signer.\<close>

definition signer_ok ::
  "(string \<Rightarrow> jsval \<Rightarrow> string res) \<Rightarrow> (string \<Rightarrow> jsval \<Rightarrow> jsval \<Rightarrow> bool res) \<Rightarrow> (jsval \<Rightarrow> jsval) \<Rightarrow> jsval \<Rightarrow> bool" where
  "signer_ok sign verify pk signer \<longleftrightarrow>
     (truthy (getp signer ''privateKeyPem'') \<and> truthy (getp signer ''keyId'') \<longrightarrow>
        truthy (pk (getp signer ''keyId''))
        \<and> (\<forall>h s. sign h (getp signer ''privateKeyPem'') = Inr s \<longrightarrow>
              s \<noteq> [] \<and> verify h (JStr s) (pk (getp signer ''keyId'')) = Inr True))"

lemma pick_fields_cong:
  "(\<And>k. k \<in> set ks \<Longrightarrow> getp e k = getp f k) \<Longrightarrow> pick_fields ks e = pick_fields ks f"
  by (simp add: pick_fields_def)

lemma object_event: "truthy e \<Longrightarrow> js_typeof e = ''object'' \<Longrightarrow> getp e k \<noteq> JUndef \<Longrightarrow> \<exists>ps. e = JObj ps"
  by (cases e) auto

lemma payloadMaterial_override:
  assumes "set (map fst qs) \<inter> set event_fields = {}"
  shows "payloadMaterialForEvent (JObj (spread base qs)) = payloadMaterialForEvent (JObj base)"
proof -
  have "getp (JObj (spread base qs)) k = getp (JObj base) k" if "k \<in> set event_fields" for k
    using assms that by (intro getp_spread_other) auto
  then show ?thesis unfolding payloadMaterialForEvent_def using pick_fields_cong by metis
qed

lemma finalize_verifies:
  assumes fin: "finalizeChainedEvent H sign event prevChainHash signer = Inr f"
    and prev: "prevChainHash = orElse (getp prev ''chainHash'') JNull"
    and ok: "signer_ok sign verify pk signer"
  shows "verifyEventAt H verify pk i prev f = Inr VOk"
proof -
  from fin obtain actor payload pm cm signature signerKeyId base where
    base: "base = spread (own_props event) [(''actor'', actor), (''payload'', payload), (''prevChainHash'', prevChainHash)]"
    and v: "getp event ''v'' = EVENT_ENVELOPE_VERSION" "truthy event" "js_typeof event = ''object''"
    and pm: "payloadMaterialForEvent (JObj base) = Inr pm"
    and cm: "chainMaterialForEvent EVENT_ENVELOPE_VERSION prevChainHash (JStr (H pm)) = Inr cm"
    and sg: "signPayload sign signer (H pm) = Inr (signature, signerKeyId)"
    and f: "f = JObj (spread base [(''payloadHash'', JStr (H pm)), (''chainHash'', JStr (H cm)),
           (''signature'', signature), (''signerKeyId'', signerKeyId)])"
    unfolding finalizeChainedEvent_def Let_def by (auto simp: andThen_Inr_iff split: if_splits)
  obtain ps where "event = JObj ps" using v object_event[of event "''v''"] by (auto simp: EVENT_ENVELOPE_VERSION_def)
  then have "getp f ''v'' = EVENT_ENVELOPE_VERSION" "getp f ''prevChainHash'' = prevChainHash"
    "getp f ''payloadHash'' = JStr (H pm)" "getp f ''chainHash'' = JStr (H cm)"
    "getp f ''signature'' = signature" "getp f ''signerKeyId'' = signerKeyId"
    using v by (simp_all add: f base own_props_def)
  moreover have "payloadMaterialForEvent f = Inr pm"
    unfolding f by (subst payloadMaterial_override) (auto simp: pm event_fields_def)
  moreover have "signature = JNull \<or> truthy signature \<and> truthy signerKeyId \<and> truthy (pk signerKeyId)
    \<and> verify (H pm) signature (pk signerKeyId) = Inr True"
    using sg ok unfolding signer_ok_def signPayload_def by (auto simp: andThen_Inr_iff split: if_splits)
  moreover have "truthy f" "js_typeof f = ''object''" by (simp_all add: f)
  ultimately show ?thesis using cm prev by (auto simp: verifyEventAt_def Let_def)
qed

text \<open>Appending to a log that verifies gives a log that verifies, whatever the event, provided
  Ed25519 verification accepts what signing with the signer's key produced.\<close>

theorem append_verifies:
  assumes "verifyChainedEvents H verify pk events = Inr VOk"
    and "signer_ok sign verify pk signer"
    and "appendChainedEvent H sign events event signer = Inr events'"
  shows "verifyChainedEvents H verify pk events' = Inr VOk"
proof -
  obtain es where es: "events = JArr es"
    using assms(1) by (cases events) (auto simp: verifyChainedEvents_def)
  then obtain f where f: "events' = JArr (es @ [f])"
    "finalizeChainedEvent H sign event (orElse (getp (if es = [] then JNull else last es) ''chainHash'') JNull) signer = Inr f"
    using assms(3) by (auto simp: appendChainedEvent_def Let_def andThen_Inr_iff)
  then show ?thesis using assms(1) es finalize_verifies[OF f(2) refl assms(2)]
    by (simp add: verifyChainedEvents_def verifyFrom_append)
qed

definition sample_event :: "jsval \<Rightarrow> jsval" where
  "sample_event payload = createChainedEvent ''2024-01-01T00:00:00.000Z'' ''evt_1'' (JStr ''job_1'') (JStr ''BOOKED'')
     (JObj [(''type'', JStr ''system'')]) payload JUndef JUndef"

definition sample_signer :: jsval where
  "sample_signer = JObj [(''privateKeyPem'', JStr ''private''), (''keyId'', JStr ''key_1'')]"

definition sample_log :: "jsval \<Rightarrow> jsval list" where
  "sample_log payload =
     (case appendChainedEvent (\<lambda>s. s) (\<lambda>h k. Inr ''sig'') (JArr []) (sample_event payload) sample_signer of
        Inr (JArr es) \<Rightarrow> es | _ \<Rightarrow> [])"

theorem append_verifies_witness:
  "verifyChainedEvents (\<lambda>s. s) (\<lambda>h s k. Inr True) (\<lambda>k. JStr ''public'') (JArr (sample_log (JInt 7))) = Inr VOk"
proof (rule append_verifies)
  show "signer_ok (\<lambda>h k. Inr ''sig'') (\<lambda>h s k. Inr True) (\<lambda>k. JStr ''public'') sample_signer"
    by (simp add: signer_ok_def)
  show "verifyChainedEvents (\<lambda>s. s) (\<lambda>h s k. Inr True) (\<lambda>k. JStr ''public'') (JArr []) = Inr VOk"
    by code_simp
  show "appendChainedEvent (\<lambda>s. s) (\<lambda>h k. Inr ''sig'') (JArr []) (sample_event (JInt 7)) sample_signer =
    Inr (JArr (sample_log (JInt 7)))"
    by code_simp
qed

section \<open>The head of a log determines the log\<close>

lemma getp_pick_fields: "k \<in> set ks \<Longrightarrow> getp (pick_fields ks e) k = getp e k"
  unfolding pick_fields_def by (induction ks) auto

lemma hashable_getp: "hashable e \<Longrightarrow> hashable (getp e k)"
  by (cases e) (auto simp: getp.simps(1) split: option.splits dest: map_of_SomeD)

lemma hashable_pick_fields:
  "hashable e \<Longrightarrow> distinct ks \<Longrightarrow> ''__proto__'' \<notin> set ks \<Longrightarrow> hashable (pick_fields ks e)"
  by (auto simp: pick_fields_def comp_def hashable_getp)

definition same_content :: "jsval \<Rightarrow> jsval \<Rightarrow> bool" where
  "same_content e f \<longleftrightarrow> (\<forall>k \<in> set event_fields. json_equiv (getp e k) (getp f k))"

lemma payload_material_inject:
  assumes "hashable e" "hashable f" "payloadMaterialForEvent e = Inr m" "payloadMaterialForEvent f = Inr m"
  shows "same_content e f"
proof -
  have "hashable (pick_fields event_fields g)" if "hashable g" for g
    using that by (rule hashable_pick_fields) (simp_all add: event_fields_def)
  then have "json_equiv (pick_fields event_fields e) (pick_fields event_fields f)"
    using canonical_text_iff[of "pick_fields event_fields e" "pick_fields event_fields f" m] assms
    by (simp add: payloadMaterialForEvent_def)
  then have "json_equiv (getp (pick_fields event_fields e) k) (getp (pick_fields event_fields f) k)" for k
    unfolding pick_fields_def by (rule json_equiv_getp)
  then show ?thesis by (metis same_content_def getp_pick_fields)
qed

text \<open>A chain head is null or a hash.\<close>

fun is_head :: "jsval \<Rightarrow> bool" where
  "is_head (JStr _) = True"
| "is_head v = (v = JNull)"

lemma chain_material_inject:
  assumes "is_head p" "is_head q"
    and "chainMaterialForEvent EVENT_ENVELOPE_VERSION p (JStr g) = Inr m"
    and "chainMaterialForEvent EVENT_ENVELOPE_VERSION q (JStr h) = Inr m"
  shows "p = q \<and> g = h"
proof -
  let ?o = "\<lambda>p g. JObj [(''v'', EVENT_ENVELOPE_VERSION), (''prevChainHash'', p), (''payloadHash'', JStr g)]"
  have h: "hashable (?o p g)" if "is_head p" for p g
    using that by (cases p) (auto simp: EVENT_ENVELOPE_VERSION_def num_of_int_def safe_int_Some_iff is_safe_def MAX_SAFE_INTEGER_def)
  have "json_equiv (?o p g) (?o q h)"
    using canonical_text_iff[of "?o p g" "?o q h" m] h assms by (simp add: chainMaterialForEvent_def)
  then have eq: "json_equiv (getp (?o p g) k) (getp (?o q h) k)" for k by (rule json_equiv_getp)
  have "json_equiv p q" "json_equiv (JStr g) (JStr h)"
    using eq[of "''prevChainHash''"] eq[of "''payloadHash''"] by simp_all
  then show ?thesis using assms(1,2) by (cases p) (auto simp: json_equiv_atom)
qed

definition event_materials :: "jsval \<Rightarrow> string set" where
  "event_materials e = {m. payloadMaterialForEvent e = Inr m
     \<or> chainMaterialForEvent EVENT_ENVELOPE_VERSION (getp e ''prevChainHash'') (getp e ''payloadHash'') = Inr m}"

definition log_head :: "jsval list \<Rightarrow> jsval" where
  "log_head es = (if es = [] then JNull else getp (last es) ''chainHash'')"

lemma log_head_prev:
  assumes "verifyFrom H verify pk 0 JNull es = Inr VOk"
  shows "orElse (getp (if es = [] then JNull else last es) ''chainHash'') JNull = log_head es \<and> is_head (log_head es)"
proof (cases es rule: rev_cases)
  case (snoc ds d)
  then show ?thesis using assms verifyEventAt_hashes[of H verify pk _ _ d]
    by (fastforce simp: verifyFrom_append log_head_def orElse_def nullish_def)
qed (simp add: log_head_def orElse_def nullish_def)

lemma log_determined:
  assumes "verifyFrom H verify pk 0 JNull es = Inr VOk" and "verifyFrom H verify pk 0 JNull fs = Inr VOk"
    and "log_head es = log_head fs" and "\<forall>e \<in> set es \<union> set fs. hashable e"
    and "inj_on H (\<Union> (event_materials ` (set es \<union> set fs)))"
  shows "list_all2 same_content es fs"
  using assms
proof (induction es arbitrary: fs rule: rev_induct)
  case Nil
  show ?case
  proof (cases fs rule: rev_cases)
    case (snoc gs f)
    then show ?thesis using Nil.prems(2,3) verifyEventAt_hashes[of H verify pk "length gs" _ f]
      by (auto simp: verifyFrom_append log_head_def)
  qed simp
next
  case (snoc e es)
  from snoc.prems(1) have es: "verifyFrom H verify pk 0 JNull es = Inr VOk"
    and ve: "verifyEventAt H verify pk (length es) (if es = [] then JNull else last es) e = Inr VOk"
    by (simp_all add: verifyFrom_append)
  then obtain pm cm where e: "payloadMaterialForEvent e = Inr pm" "getp e ''payloadHash'' = JStr (H pm)"
    "getp e ''prevChainHash'' = log_head es" "getp e ''chainHash'' = JStr (H cm)"
    "chainMaterialForEvent EVENT_ENVELOPE_VERSION (log_head es) (JStr (H pm)) = Inr cm"
    using verifyEventAt_hashes[OF ve] log_head_prev[OF es] by auto
  then obtain f gs where fs: "fs = gs @ [f]"
    using snoc.prems(3) by (cases fs rule: rev_cases) (auto simp: log_head_def)
  from snoc.prems(2) have gs: "verifyFrom H verify pk 0 JNull gs = Inr VOk"
    and vf: "verifyEventAt H verify pk (length gs) (if gs = [] then JNull else last gs) f = Inr VOk"
    by (simp_all add: verifyFrom_append fs)
  then obtain pm' cm' where f: "payloadMaterialForEvent f = Inr pm'" "getp f ''payloadHash'' = JStr (H pm')"
    "getp f ''prevChainHash'' = log_head gs" "getp f ''chainHash'' = JStr (H cm')"
    "chainMaterialForEvent EVENT_ENVELOPE_VERSION (log_head gs) (JStr (H pm')) = Inr cm'"
    using verifyEventAt_hashes[OF vf] log_head_prev[OF gs] by auto
  let ?M = "\<Union> (event_materials ` (set (es @ [e]) \<union> set fs))"
  have mem: "pm \<in> ?M" "cm \<in> ?M" "pm' \<in> ?M" "cm' \<in> ?M" using e f by (auto simp: event_materials_def fs)
  have "H cm = H cm'" using snoc.prems(3) e f by (simp add: log_head_def fs)
  then have "cm = cm'" using snoc.prems(5) mem by (simp add: inj_on_eq_iff)
  then have heads: "log_head es = log_head gs" "H pm = H pm'"
    using chain_material_inject e f log_head_prev[OF es] log_head_prev[OF gs] by blast+
  then have "pm = pm'" using snoc.prems(5) mem by (simp add: inj_on_eq_iff)
  then have "same_content e f" using payload_material_inject[of e f] e f snoc.prems(4) fs by simp
  moreover have "inj_on H (\<Union> (event_materials ` (set es \<union> set gs)))"
    by (rule inj_on_subset[OF snoc.prems(5)]) (auto simp: fs)
  then have "list_all2 same_content es gs" using snoc.IH[OF es gs heads(1)] snoc.prems(4) fs by simp
  ultimately show ?case by (simp add: fs list_all2_appendI)
qed

text \<open>C8: Tamper evidence. If two logs verify, end in the same chain hash (null for an empty log),
  hold only values whose canonical text determines them, and SHA-256 has no collision among the
  texts hashed for these two logs, then they have the same length and, position by position, the
  same version, id, time, stream, type, actor and payload up to the order of object keys.\<close>

theorem chain_head_determines_log:
  assumes "verifyChainedEvents H verify pk (JArr es) = Inr VOk"
    and "verifyChainedEvents H verify pk (JArr fs) = Inr VOk"
    and "log_head es = log_head fs"
    and "\<forall>e \<in> set es \<union> set fs. hashable e"
    and "inj_on H (\<Union> (event_materials ` (set es \<union> set fs)))"
  shows "list_all2 same_content es fs"
  using assms by (intro log_determined) (simp_all add: verifyChainedEvents_def)

theorem chain_head_determines_log_witness:
  "list_all2 same_content (sample_log (JObj [(''a'', JInt 1), (''b'', JInt 2)]))
     (sample_log (JObj [(''b'', JInt 2), (''a'', JInt 1)]))"
proof (rule chain_head_determines_log)
  let ?e = "sample_log (JObj [(''a'', JInt 1), (''b'', JInt 2)])"
  let ?f = "sample_log (JObj [(''b'', JInt 2), (''a'', JInt 1)])"
  show "verifyChainedEvents (\<lambda>s. s) (\<lambda>h s k. Inr True) (\<lambda>k. JStr ''public'') (JArr ?e) = Inr VOk" by code_simp
  show "verifyChainedEvents (\<lambda>s. s) (\<lambda>h s k. Inr True) (\<lambda>k. JStr ''public'') (JArr ?f) = Inr VOk" by code_simp
  show "log_head ?e = log_head ?f" by code_simp
  have "list_all hashable (?e @ ?f)" by code_simp
  then show "\<forall>e \<in> set ?e \<union> set ?f. hashable e" by (simp add: list_all_iff ball_Un)
qed (simp add: inj_on_def)

end
