(* ===== verification/MerkleTree.thy ===== *)
theory MerkleTree
  imports JsAssert
begin

text \<open>
  \<^verbatim>\<open>src/core/merkle-tree.js\<close>: Merkle roots, inclusion proofs and their verification over
  SHA-256 digests, with the hash function as the parameter \<open>H\<close>. The models follow the
  source's loops over levels; \<open>next_level\<close>, \<open>root_of\<close>, \<open>path_of\<close> and \<open>climb\<close> are the
  same computations on digests that already passed the checks, and every fact is proved on
  them and carried over. The results are completeness (the proof built for a position
  verifies against the root), soundness (an accepted proof names a leaf of the tree, when the
  hash has no collision among the texts involved) and the root collision that padding an odd
  level with a copy of its last node causes.
\<close>

section \<open>The source's functions\<close>

definition leaf_text :: "string \<Rightarrow> string" where
  "leaf_text s = ''nooterra.merkle.leaf.v1:'' @ s"

definition node_text :: "string \<Rightarrow> string \<Rightarrow> string" where
  "node_text l r = ''nooterra.merkle.node.v1:'' @ l @ '':'' @ r"

definition computeMerkleLeafHash :: "(string \<Rightarrow> string) \<Rightarrow> jsval \<Rightarrow> string res" where
  "computeMerkleLeafHash H leafHash =
     andThen (assertSha256Hex leafHash ''leafHash'') (\<lambda>s. Inr (H (leaf_text s)))"

definition computeMerkleParentHash :: "(string \<Rightarrow> string) \<Rightarrow> jsval \<Rightarrow> jsval \<Rightarrow> string res" where
  "computeMerkleParentHash H leftHash rightHash =
     andThen (assertSha256Hex leftHash ''leftHash'') (\<lambda>l.
     andThen (assertSha256Hex rightHash ''rightHash'') (\<lambda>r.
       Inr (H (node_text l r))))"

definition normalizeLeafHashArray :: "(string \<Rightarrow> string) \<Rightarrow> jsval \<Rightarrow> string list res" where
  "normalizeLeafHashArray H leafHashes =
     (case leafHashes of
        JArr xs \<Rightarrow>
          mapRes (\<lambda>(i, x). andThen (assertSha256Hex x (''leafHashes['' @ show_int (int i) @ '']''))
                     (\<lambda>s. computeMerkleLeafHash H (JStr s))) (enumerate 0 xs)
      | _ \<Rightarrow> Inl (TypeError ''leafHashes must be an array''))"

text \<open>The last node of an odd level is paired with itself.\<close>

fun buildNextLevel :: "(string \<Rightarrow> string) \<Rightarrow> string list \<Rightarrow> string list res" where
  "buildNextLevel H [] = Inr []"
| "buildNextLevel H [x] = andThen (computeMerkleParentHash H (JStr x) (JStr x)) (\<lambda>p. Inr [p])"
| "buildNextLevel H (x # y # xs) =
     andThen (computeMerkleParentHash H (JStr x) (JStr y)) (\<lambda>p.
     andThen (buildNextLevel H xs) (\<lambda>ps. Inr (p # ps)))"

lemma buildNextLevel_length: "buildNextLevel H xs = Inr ys \<Longrightarrow> length ys = (length xs + 1) div 2"
  by (induction xs arbitrary: ys rule: induct_list012) (auto simp: andThen_Inr_iff)

text \<open>\<^verbatim>\<open>while (level.length > 1) level = buildNextLevel(level)\<close>; then \<^verbatim>\<open>level[0]\<close>.\<close>

function rootLoop :: "(string \<Rightarrow> string) \<Rightarrow> string list \<Rightarrow> string res" where
  "rootLoop H level =
     (if length level \<le> 1 then Inr (level ! 0)
      else case buildNextLevel H level of Inl e \<Rightarrow> Inl e | Inr next \<Rightarrow> rootLoop H next)"
  by pat_completeness auto
termination by (relation "measure (\<lambda>(H, level). length level)") (auto dest!: buildNextLevel_length)

declare rootLoop.simps [simp del]

text \<open>\<open>None\<close> is the \<^verbatim>\<open>null\<close> root of an empty list.\<close>

definition computeMerkleRoot :: "(string \<Rightarrow> string) \<Rightarrow> jsval \<Rightarrow> string option res" where
  "computeMerkleRoot H leafHashes =
     andThen (normalizeLeafHashArray H leafHashes) (\<lambda>leafLevel.
       if leafLevel = [] then Inr None
       else andThen (rootLoop H leafLevel) (\<lambda>r. Inr (Some r)))"

datatype proof_position = LEFT | RIGHT

record proof_sibling =
  mp_position :: proof_position
  mp_hash :: string

record merkle_proof =
  mp_treeSize :: int
  mp_leafIndex :: int
  mp_leafHash :: string
  mp_rootHash :: string
  mp_siblings :: "proof_sibling list"

function proofLoop :: "(string \<Rightarrow> string) \<Rightarrow> string list \<Rightarrow> nat \<Rightarrow> proof_sibling list \<Rightarrow> (proof_sibling list \<times> string) res" where
  "proofLoop H level currentIndex acc =
     (if length level \<le> 1 then Inr (acc, level ! 0)
      else
        let siblingIndex = (if currentIndex mod 2 = 0 then currentIndex + 1 else currentIndex - 1);
            siblingHash = (if siblingIndex < length level then level ! siblingIndex else level ! currentIndex);
            row = \<lparr>mp_position = (if currentIndex mod 2 = 0 then RIGHT else LEFT), mp_hash = siblingHash\<rparr>
        in case buildNextLevel H level of Inl e \<Rightarrow> Inl e
           | Inr next \<Rightarrow> proofLoop H next (currentIndex div 2) (acc @ [row]))"
  by pat_completeness auto
termination by (relation "measure (\<lambda>(H, level, i, acc). length level)") (auto dest!: buildNextLevel_length)

declare proofLoop.simps [simp del]

definition buildMerkleProof :: "(string \<Rightarrow> string) \<Rightarrow> jsval \<Rightarrow> jsval \<Rightarrow> merkle_proof res" where
  "buildMerkleProof H leafHashes index =
     andThen (normalizeLeafHashArray H leafHashes) (\<lambda>leafLevel.
       if leafLevel = [] then Inl (TypeError ''leafHashes must be a non-empty array'')
       else andThen (assertNonNegativeSafeInteger index ''index'') (\<lambda>i.
         if int (length leafLevel) \<le> i then Inl (TypeError ''index is out of bounds'')
         else andThen (proofLoop H leafLevel (nat i) []) (\<lambda>(sibs, root).
           Inr \<lparr>mp_treeSize = int (length leafLevel), mp_leafIndex = i, mp_leafHash = leafLevel ! nat i,
                mp_rootHash = root, mp_siblings = sibs\<rparr>)))"

definition parsePosition :: "jsval \<Rightarrow> string \<Rightarrow> proof_position res" where
  "parsePosition v name =
     (let p = (case v of JStr s \<Rightarrow> toLowerCase (trim s) | _ \<Rightarrow> []) in
      if p = ''left'' then Inr LEFT else if p = ''right'' then Inr RIGHT
      else Inl (TypeError (name @ '' must be left|right'')))"

definition normalizeProofSibling :: "nat \<times> jsval \<Rightarrow> proof_sibling res" where
  "normalizeProofSibling = (\<lambda>(i, row).
     let name = ''siblings['' @ show_int (int i) @ '']'' in
     if \<not> isObjectLike row then Inl (TypeError (name @ '' must be an object''))
     else andThen (parsePosition (getp row ''position'') (name @ ''.position'')) (\<lambda>p.
          andThen (assertSha256Hex (getp row ''hash'') (name @ ''.hash'')) (\<lambda>h.
            Inr \<lparr>mp_position = p, mp_hash = h\<rparr>)))"

definition normalizeProofSiblings :: "jsval \<Rightarrow> proof_sibling list res" where
  "normalizeProofSiblings v =
     (case v of
        JArr rows \<Rightarrow> mapRes normalizeProofSibling (enumerate 0 rows)
      | _ \<Rightarrow> Inl (TypeError ''siblings must be an array''))"

definition climbStep :: "(string \<Rightarrow> string) \<Rightarrow> string \<Rightarrow> proof_sibling \<Rightarrow> string res" where
  "climbStep H cursor s =
     (case mp_position s of
        LEFT \<Rightarrow> computeMerkleParentHash H (JStr (mp_hash s)) (JStr cursor)
      | RIGHT \<Rightarrow> computeMerkleParentHash H (JStr cursor) (JStr (mp_hash s)))"

definition verifyMerkleProof ::
  "(string \<Rightarrow> string) \<Rightarrow> jsval \<Rightarrow> jsval \<Rightarrow> jsval \<Rightarrow> jsval \<Rightarrow> jsval \<Rightarrow> bool res" where
  "verifyMerkleProof H leaf index treeSz sibs rootArg =
     andThen (assertSha256Hex leaf ''leafHash'') (\<lambda>normalizedLeafHash.
     andThen (assertNonNegativeSafeInteger index ''leafIndex'') (\<lambda>i.
     andThen (assertNonNegativeSafeInteger treeSz ''treeSize'') (\<lambda>n.
       if n \<le> 0 then Inl (TypeError ''treeSize must be >= 1'')
       else if n \<le> i then Inl (TypeError ''leafIndex must be < treeSize'')
       else andThen (assertSha256Hex rootArg ''rootHash'') (\<lambda>normalizedRootHash.
         andThen (normalizeProofSiblings sibs) (\<lambda>normalizedSiblings.
         andThen (computeMerkleLeafHash H (JStr normalizedLeafHash)) (\<lambda>start.
         andThen (foldRes (climbStep H) start normalizedSiblings) (\<lambda>cursor.
           Inr (cursor = normalizedRootHash))))))))"

section \<open>The same computations on digests\<close>

fun next_level :: "(string \<Rightarrow> string) \<Rightarrow> string list \<Rightarrow> string list" where
  "next_level H [] = []"
| "next_level H [x] = [H (node_text x x)]"
| "next_level H (x # y # xs) = H (node_text x y) # next_level H xs"

lemma length_next_level [simp]: "length (next_level H xs) = (length xs + 1) div 2"
  by (induction xs rule: induct_list012) auto

function root_of :: "(string \<Rightarrow> string) \<Rightarrow> string list \<Rightarrow> string" where
  "root_of H level = (if length level \<le> 1 then level ! 0 else root_of H (next_level H level))"
  by pat_completeness auto
termination by (relation "measure (\<lambda>(H, level). length level)") auto

declare root_of.simps [simp del]

definition sibling_at :: "string list \<Rightarrow> nat \<Rightarrow> proof_sibling" where
  "sibling_at level i =
     (let j = (if i mod 2 = 0 then i + 1 else i - 1) in
      \<lparr>mp_position = (if i mod 2 = 0 then RIGHT else LEFT), mp_hash = (if j < length level then level ! j else level ! i)\<rparr>)"

function path_of :: "(string \<Rightarrow> string) \<Rightarrow> string list \<Rightarrow> nat \<Rightarrow> proof_sibling list" where
  "path_of H level i =
     (if length level \<le> 1 then [] else sibling_at level i # path_of H (next_level H level) (i div 2))"
  by pat_completeness auto
termination by (relation "measure (\<lambda>(H, level, i). length level)") auto

declare path_of.simps [simp del]

definition step_text :: "string \<Rightarrow> proof_sibling \<Rightarrow> string" where
  "step_text cursor s = (case mp_position s of LEFT \<Rightarrow> node_text (mp_hash s) cursor | RIGHT \<Rightarrow> node_text cursor (mp_hash s))"

definition climb :: "(string \<Rightarrow> string) \<Rightarrow> string \<Rightarrow> proof_sibling list \<Rightarrow> string" where
  "climb H = foldl (\<lambda>c s. H (step_text c s))"

definition js_of_sibling :: "proof_sibling \<Rightarrow> jsval" where
  "js_of_sibling s = JObj [(''position'', JStr (case mp_position s of LEFT \<Rightarrow> ''left'' | RIGHT \<Rightarrow> ''right'')),
     (''hash'', JStr (mp_hash s))]"

section \<open>Agreement\<close>

abbreviation hexes :: "string list \<Rightarrow> bool" where
  "hexes xs \<equiv> \<forall>x \<in> set xs. is_sha256_hex x"

lemma parent_hex:
  "is_sha256_hex l \<Longrightarrow> is_sha256_hex r \<Longrightarrow> computeMerkleParentHash H (JStr l) (JStr r) = Inr (H (node_text l r))"
  by (simp add: computeMerkleParentHash_def)

lemma buildNextLevel_eq: "hexes xs \<Longrightarrow> buildNextLevel H xs = Inr (next_level H xs)"
  by (induction xs rule: induct_list012) (simp_all add: parent_hex)

lemma next_level_hexes: "(\<And>x. is_sha256_hex (H x)) \<Longrightarrow> hexes (next_level H xs)"
  by (induction xs rule: induct_list012) auto

lemma rootLoop_eq: "(\<And>x. is_sha256_hex (H x)) \<Longrightarrow> hexes xs \<Longrightarrow> rootLoop H xs = Inr (root_of H xs)"
proof (induction H xs rule: root_of.induct)
  case (1 H xs)
  then show ?case
    using next_level_hexes[of H xs] by (subst rootLoop.simps, subst root_of.simps) (simp add: buildNextLevel_eq)
qed

lemma proofLoop_eq:
  "(\<And>x. is_sha256_hex (H x)) \<Longrightarrow> hexes xs \<Longrightarrow>
   proofLoop H xs i acc = Inr (acc @ path_of H xs i, root_of H xs)"
proof (induction H xs i arbitrary: acc rule: path_of.induct)
  case (1 H xs i)
  then show ?case
    using next_level_hexes[of H xs]
    by (subst proofLoop.simps, subst root_of.simps, subst path_of.simps)
       (simp add: buildNextLevel_eq sibling_at_def Let_def)
qed

lemma climb_eq:
  assumes H: "\<And>x. is_sha256_hex (H x)"
  shows "is_sha256_hex c \<Longrightarrow> \<forall>s \<in> set ss. is_sha256_hex (mp_hash s) \<Longrightarrow> foldRes (climbStep H) c ss = Inr (climb H c ss)"
proof (induction ss arbitrary: c)
  case (Cons s ss)
  then have "climbStep H c s = Inr (H (step_text c s))"
    by (simp add: climbStep_def step_text_def parent_hex split: proof_position.split)
  then show ?case using Cons H by (simp add: climb_def)
qed (simp add: climb_def)

section \<open>Completeness\<close>

lemma next_level_nth:
  "j < (length xs + 1) div 2 \<Longrightarrow>
   next_level H xs ! j = H (node_text (xs ! (2 * j)) (if 2 * j + 1 < length xs then xs ! (2 * j + 1) else xs ! (2 * j)))"
proof (induction xs arbitrary: j rule: induct_list012)
  case (3 x y xs)
  then show ?case by (cases j) auto
qed auto

lemma step_next_level:
  assumes "i < length xs"
  shows "H (step_text (xs ! i) (sibling_at xs i)) = next_level H xs ! (i div 2)"
proof (cases "even i")
  case True
  then obtain j where "i = 2 * j" by blast
  then show ?thesis using assms by (simp add: next_level_nth sibling_at_def step_text_def Let_def)
next
  case False
  then obtain j where "i = 2 * j + 1" by (rule oddE)
  then show ?thesis using assms by (simp add: next_level_nth sibling_at_def step_text_def Let_def)
qed

lemma climb_path: "i < length xs \<Longrightarrow> climb H (xs ! i) (path_of H xs i) = root_of H xs"
proof (induction H xs i rule: path_of.induct)
  case (1 H xs i)
  show ?case
  proof (cases "length xs \<le> 1")
    case True
    then have "i = 0" using "1.prems" by simp
    then show ?thesis using True by (simp add: path_of.simps[of H xs] root_of.simps[of H xs] climb_def)
  next
    case False
    have "climb H (next_level H xs ! (i div 2)) (path_of H (next_level H xs) (i div 2)) = root_of H (next_level H xs)"
      using 1 False by simp
    then show ?thesis
      using False step_next_level[OF "1.prems"]
      by (simp add: path_of.simps[of H xs] root_of.simps[of H xs] climb_def)
  qed
qed

lemma path_of_hexes: "i < length xs \<Longrightarrow> hexes xs \<Longrightarrow> (\<And>x. is_sha256_hex (H x)) \<Longrightarrow> \<forall>s \<in> set (path_of H xs i). is_sha256_hex (mp_hash s)"
proof (induction H xs i rule: path_of.induct)
  case (1 H xs i)
  show ?case
  proof (cases "length xs \<le> 1")
    case False
    have "\<forall>s \<in> set (path_of H (next_level H xs) (i div 2)). is_sha256_hex (mp_hash s)"
      using 1 False next_level_hexes[of H xs] by simp
    moreover have "is_sha256_hex (mp_hash (sibling_at xs i))" using 1 by (simp add: sibling_at_def Let_def)
    ultimately show ?thesis using False by (simp add: path_of.simps[of H xs])
  qed (simp add: path_of.simps[of H xs])
qed

text \<open>A leaf digest as the code normalises it.\<close>

definition digest_of :: "jsval \<Rightarrow> string" where
  "digest_of v = (case v of JStr s \<Rightarrow> toLowerCase (trim s) | _ \<Rightarrow> [])"

definition is_digest :: "jsval \<Rightarrow> bool" where
  "is_digest v \<longleftrightarrow> is_sha256_hex (digest_of v)"

lemma assertSha256Hex_digest: "assertSha256Hex v name = Inr t \<longleftrightarrow> is_digest v \<and> t = digest_of v"
  by (cases v)
     (auto simp: assertSha256Hex_def assertNonEmptyString_def is_digest_def digest_of_def is_sha256_hex_def
        Let_def toLowerCase_def)

lemma mapRes_enumerate:
  "(\<And>i x. x \<in> set xs \<Longrightarrow> f (i, x) = Inr (g x)) \<Longrightarrow> mapRes f (enumerate n xs) = Inr (map g xs)"
  by (induction xs arbitrary: n) auto

definition leaf_level :: "(string \<Rightarrow> string) \<Rightarrow> jsval list \<Rightarrow> string list" where
  "leaf_level H xs = map (\<lambda>x. H (leaf_text (digest_of x))) xs"

lemma normalizeLeafHashArray_eq:
  assumes "\<forall>x \<in> set xs. is_digest x"
  shows "normalizeLeafHashArray H (JArr xs) = Inr (leaf_level H xs)"
proof -
  have "assertSha256Hex x name = Inr (digest_of x)" "is_sha256_hex (digest_of x)" if "x \<in> set xs" for x name
    using assms that by (auto simp: assertSha256Hex_digest is_digest_def)
  then show ?thesis unfolding normalizeLeafHashArray_def leaf_level_def
    by (auto simp: computeMerkleLeafHash_def intro: mapRes_enumerate)
qed

lemma normalizeLeafHashArray_Inr:
  assumes "normalizeLeafHashArray H (JArr xs) = Inr ys"
  shows "\<forall>x \<in> set xs. is_digest x"
proof
  fix x assume "x \<in> set xs"
  then obtain i where "i < length xs" "xs ! i = x" by (auto simp: in_set_conv_nth)
  then have "enumerate 0 xs ! i = (i, x)" "i < length (enumerate 0 xs)" by (simp_all add: nth_enumerate_eq)
  then show "is_digest x" using mapRes_nth[of _ "enumerate 0 xs" ys i] assms
    by (fastforce simp: normalizeLeafHashArray_def andThen_Inr_iff assertSha256Hex_digest)
qed

lemma normalizeProofSiblings_eq:
  assumes "\<forall>s \<in> set ss. is_sha256_hex (mp_hash s)"
  shows "normalizeProofSiblings (JArr (map js_of_sibling ss)) = Inr ss"
proof -
  have pos: "parsePosition (JStr (case p of LEFT \<Rightarrow> ''left'' | RIGHT \<Rightarrow> ''right'')) name = Inr p" for p name
  proof -
    have "trim ''left'' = ''left''" "trim ''right'' = ''right''" "toLowerCase ''left'' = ''left''" "toLowerCase ''right'' = ''right''"
      by code_simp+
    then show ?thesis by (cases p) (simp_all add: parsePosition_def)
  qed
  have row: "normalizeProofSibling (i, js_of_sibling s) = Inr s" if "s \<in> set ss" for i s
    using that assms by (simp add: normalizeProofSibling_def js_of_sibling_def pos isObjectLike_def)
  have "mapRes normalizeProofSibling (enumerate n (map js_of_sibling ss)) = Inr ss" for n
    using row by (induction ss arbitrary: n) simp_all
  then show ?thesis by (simp add: normalizeProofSiblings_def)
qed

lemma normalizeProofSiblings_hex:
  assumes "normalizeProofSiblings v = Inr ss"
  shows "\<forall>s \<in> set ss. is_sha256_hex (mp_hash s)"
proof
  fix s assume s: "s \<in> set ss"
  obtain rows where v: "v = JArr rows" using assms by (cases v) (auto simp: normalizeProofSiblings_def)
  obtain i where i: "i < length ss" "ss ! i = s" using s by (auto simp: in_set_conv_nth)
  have m: "mapRes normalizeProofSibling (enumerate 0 rows) = Inr ss" using assms v by (simp add: normalizeProofSiblings_def)
  have "i < length rows" using mapRes_length[OF m] i by simp
  then have "normalizeProofSibling (i, rows ! i) = Inr s"
    using mapRes_nth[OF m, of i] i by (simp add: nth_enumerate_eq)
  then show "is_sha256_hex (mp_hash s)"
    by (auto simp: normalizeProofSibling_def Let_def andThen_Inr_iff dest!: assertSha256Hex_Inr split: if_splits)
qed

lemma root_of_hex: "(\<And>x. is_sha256_hex (H x)) \<Longrightarrow> hexes xs \<Longrightarrow> xs \<noteq> [] \<Longrightarrow> is_sha256_hex (root_of H xs)"
proof (induction H xs rule: root_of.induct)
  case (1 H xs)
  show ?case
  proof (cases "length xs \<le> 1")
    case True
    then show ?thesis using "1.prems" by (simp add: root_of.simps[of H xs])
  next
    case False
    then have "next_level H xs \<noteq> []" using length_next_level[of H xs] by (cases "next_level H xs") auto
    then show ?thesis
      using False "1.IH"[OF False "1.prems"(1) next_level_hexes] "1.prems"(1) by (simp add: root_of.simps[of H xs])
  qed
qed

text \<open>C20: Completeness of inclusion proofs. For every list of SHA-256 leaf digests and every position
  in it, \<^verbatim>\<open>buildMerkleProof\<close> succeeds, its root is the one \<^verbatim>\<open>computeMerkleRoot\<close> computes, and
  \<^verbatim>\<open>verifyMerkleProof\<close> accepts its siblings for the leaf at that position.\<close>

theorem merkle_proof_complete:
  assumes H: "\<And>x. is_sha256_hex (H x)" and xs: "\<forall>x \<in> set xs. is_digest x"
    and i: "i < length xs" and n: "is_safe (int (length xs))"
  shows "\<exists>p. buildMerkleProof H (JArr xs) (JInt (int i)) = Inr p
    \<and> computeMerkleRoot H (JArr xs) = Inr (Some (mp_rootHash p))
    \<and> verifyMerkleProof H (xs ! i) (JInt (mp_leafIndex p)) (JInt (mp_treeSize p))
        (JArr (map js_of_sibling (mp_siblings p))) (JStr (mp_rootHash p)) = Inr True"
proof -
  let ?L = "leaf_level H xs"
  have L: "hexes ?L" "length ?L = length xs" "?L ! i = H (leaf_text (digest_of (xs ! i)))" "?L \<noteq> []"
    using H i by (auto simp: leaf_level_def)
  have xs_ne: "xs \<noteq> []" using i by auto
  have safe: "is_safe (int i)" using n i by (simp add: is_safe_def)
  have dig: "is_digest (xs ! i)" using xs i by simp
  have root_hex: "is_sha256_hex (root_of H ?L)"
    using root_of_hex[OF H L(1,4)] .
  have "foldRes (climbStep H) (?L ! i) (path_of H ?L i) = Inr (root_of H ?L)"
    using climb_eq[OF H] path_of_hexes[of i ?L H] climb_path[of i ?L H] L i H by simp
  then have "verifyMerkleProof H (xs ! i) (JInt (int i)) (JInt (int (length xs)))
      (JArr (map js_of_sibling (path_of H ?L i))) (JStr (root_of H ?L)) = Inr True"
    using dig safe n i root_hex L path_of_hexes[of i ?L H] H xs_ne
    by (simp add: verifyMerkleProof_def assertNonNegativeSafeInteger_def normalizeProofSiblings_eq
        computeMerkleLeafHash_def iffD2[OF assertSha256Hex_digest, OF conjI] is_digest_def)
  then show ?thesis
    using safe L i H xs
    by (simp add: buildMerkleProof_def computeMerkleRoot_def normalizeLeafHashArray_eq proofLoop_eq rootLoop_eq
        assertNonNegativeSafeInteger_def)
qed

section \<open>Soundness\<close>

fun level_texts :: "string list \<Rightarrow> string set" where
  "level_texts [] = {}"
| "level_texts [x] = {node_text x x}"
| "level_texts (x # y # xs) = insert (node_text x y) (level_texts xs)"

text \<open>The texts hashed while a root is computed from a level, and while a proof is climbed.\<close>

function tree_texts :: "(string \<Rightarrow> string) \<Rightarrow> string list \<Rightarrow> string set" where
  "tree_texts H level = (if length level \<le> 1 then {} else level_texts level \<union> tree_texts H (next_level H level))"
  by pat_completeness auto
termination by (relation "measure (\<lambda>(H, level). length level)") auto

declare tree_texts.simps [simp del]

fun climb_texts :: "(string \<Rightarrow> string) \<Rightarrow> string \<Rightarrow> proof_sibling list \<Rightarrow> string set" where
  "climb_texts H c [] = {}"
| "climb_texts H c (s # ss) = insert (step_text c s) (climb_texts H (H (step_text c s)) ss)"

lemma set_next_level: "set (next_level H xs) = H ` level_texts xs"
  by (induction xs rule: induct_list012) auto

lemma level_texts_dest: "t \<in> level_texts xs \<Longrightarrow> \<exists>a \<in> set xs. \<exists>b \<in> set xs. t = node_text a b"
  by (induction xs rule: induct_list012) auto

lemma tree_texts_node: "t \<in> tree_texts H xs \<Longrightarrow> \<exists>a b. t = node_text a b"
proof (induction H xs rule: tree_texts.induct)
  case (1 H xs)
  then show ?case
    using level_texts_dest[of t xs] by (auto simp: tree_texts.simps[of H xs] split: if_splits)
qed

lemma leaf_node_text: "leaf_text s \<noteq> node_text a b" "node_text a b \<noteq> leaf_text s"
  by (simp_all add: leaf_text_def node_text_def)

lemma node_text_inject:
  "is_sha256_hex a \<Longrightarrow> is_sha256_hex c \<Longrightarrow> node_text a b = node_text c d \<Longrightarrow> a = c \<and> b = d"
  by (simp add: node_text_def is_sha256_hex_def)

lemma climb_snoc:
  "climb H c (ss @ [s]) = H (step_text (climb H c ss) s)"
  "climb_texts H c (ss @ [s]) = insert (step_text (climb H c ss) s) (climb_texts H c ss)"
proof -
  show "climb_texts H c (ss @ [s]) = insert (step_text (climb H c ss) s) (climb_texts H c ss)"
    by (induction ss arbitrary: c) (auto simp: climb_def)
qed (simp add: climb_def)

lemma climb_texts_prefix: "climb_texts H c pre \<subseteq> climb_texts H c (pre @ suf)"
  by (induction pre arbitrary: c) auto

lemma climb_hex: "(\<And>x. is_sha256_hex (H x)) \<Longrightarrow> is_sha256_hex c \<Longrightarrow> is_sha256_hex (climb H c ss)"
  by (cases ss rule: rev_cases) (auto simp: climb_snoc, simp add: climb_def)

lemma step_text_node: "\<exists>a b. step_text c s = node_text a b"
  by (auto simp: step_text_def split: proof_position.splits)

text \<open>Walking a successful climb back down from the root: at every level either the climb passed
  through one of its nodes, or it started at an inner node above it.\<close>

lemma climb_descends:
  assumes H: "\<And>x. is_sha256_hex (H x)" and c: "is_sha256_hex c"
    and ss: "\<forall>s \<in> set ss. is_sha256_hex (mp_hash s)"
  shows "hexes L \<Longrightarrow> L \<noteq> [] \<Longrightarrow> climb H c ss = root_of H L \<Longrightarrow> inj_on H (tree_texts H L \<union> climb_texts H c ss) \<Longrightarrow>
    (\<exists>pre suf. ss = pre @ suf \<and> climb H c pre \<in> set L) \<or> c \<in> H ` tree_texts H L"
  using H
proof (induction H L rule: root_of.induct)
  case (1 H L)
  show ?case
  proof (cases "length L \<le> 1")
    case True
    then have "climb H c ss \<in> set L" using "1.prems"(2,3) by (simp add: root_of.simps[of H L])
    then show ?thesis by (metis append_Nil2)
  next
    case False
    have tt: "tree_texts H L = level_texts L \<union> tree_texts H (next_level H L)"
      using False by (simp add: tree_texts.simps[of H L])
    have ne: "next_level H L \<noteq> []" using False length_next_level[of H L] by (cases "next_level H L") auto
    have inj: "inj_on H (tree_texts H (next_level H L) \<union> climb_texts H c ss)"
      by (rule inj_on_subset[OF "1.prems"(4)]) (auto simp: tt)
    from False "1.prems"(3) have root: "climb H c ss = root_of H (next_level H L)" by (simp add: root_of.simps[of H L])
    consider (node) pre suf where "ss = pre @ suf" "climb H c pre \<in> set (next_level H L)"
      | (above) "c \<in> H ` tree_texts H (next_level H L)"
      using "1.IH"[OF False next_level_hexes[OF "1.prems"(5)] ne root inj "1.prems"(5)] by blast
    then show ?thesis
    proof cases
      case node
      then obtain t where t: "t \<in> level_texts L" "climb H c pre = H t" by (auto simp: set_next_level)
      then obtain a b where ab: "a \<in> set L" "b \<in> set L" "t = node_text a b" using level_texts_dest by blast
      show ?thesis
      proof (cases pre rule: rev_cases)
        case Nil
        then show ?thesis using t tt by (simp add: climb_def)
      next
        case (snoc pre' s)
        have "step_text (climb H c pre') s \<in> climb_texts H c pre" by (simp add: snoc climb_snoc)
        then have "step_text (climb H c pre') s \<in> climb_texts H c ss"
          using climb_texts_prefix[of H c pre suf] node by auto
        moreover have "H (step_text (climb H c pre') s) = H t" using t by (simp add: snoc climb_snoc)
        ultimately have "step_text (climb H c pre') s = node_text a b"
          using inj_onD[OF "1.prems"(4)] t ab tt by blast
        moreover have "is_sha256_hex (mp_hash s)" "is_sha256_hex (climb H c pre')" "is_sha256_hex a"
          using ss node snoc climb_hex[OF "1.prems"(5) c] ab "1.prems"(1) by auto
        ultimately have "climb H c pre' \<in> {a, b}"
          by (auto simp: step_text_def dest: node_text_inject split: proof_position.splits)
        then show ?thesis using ab node snoc by auto
      qed
    next
      case above
      then show ?thesis using tt by auto
    qed
  qed
qed

text \<open>C21: Soundness of inclusion proofs. If \<^verbatim>\<open>verifyMerkleProof\<close> accepts a leaf digest against the root of
  a list of leaves, and SHA-256 has no collision among the texts hashed for the tree and for the
  proof, then the leaf is one of the list, up to the trimming and lower-casing of digests.\<close>

theorem merkle_proof_sound:
  assumes H: "\<And>x. is_sha256_hex (H x)"
    and root: "computeMerkleRoot H (JArr xs) = Inr (Some r)"
    and acc: "verifyMerkleProof H leaf index treeSz sibs (JStr r) = Inr True"
    and ss: "normalizeProofSiblings sibs = Inr ss"
    and inj: "inj_on H (insert (leaf_text (digest_of leaf)) ((\<lambda>x. leaf_text (digest_of x)) ` set xs)
      \<union> tree_texts H (leaf_level H xs) \<union> climb_texts H (H (leaf_text (digest_of leaf))) ss)"
  shows "\<exists>x \<in> set xs. digest_of x = digest_of leaf"
proof -
  let ?L = "leaf_level H xs" let ?c = "H (leaf_text (digest_of leaf))"
  have "\<forall>x \<in> set xs. is_digest x"
    using root normalizeLeafHashArray_Inr by (auto simp: computeMerkleRoot_def andThen_Inr_iff)
  then have L: "hexes ?L" "?L \<noteq> []" "r = root_of H ?L"
    using root H by (auto simp: computeMerkleRoot_def normalizeLeafHashArray_eq rootLoop_eq leaf_level_def split: if_splits)
  have hs: "\<forall>s \<in> set ss. is_sha256_hex (mp_hash s)" using normalizeProofSiblings_hex[OF ss] .
  have top: "climb H ?c ss = root_of H ?L"
  proof -
    have r: "assertSha256Hex (JStr r) name = Inr r" for name using L(3) root_of_hex[OF H L(1,2)] by simp
    from acc obtain d start where d: "assertSha256Hex leaf ''leafHash'' = Inr d"
      and start: "computeMerkleLeafHash H (JStr d) = Inr start" and climb: "foldRes (climbStep H) start ss = Inr r"
      by (auto simp: verifyMerkleProof_def andThen_Inr_iff ss r split: if_splits)
    have "start = ?c" using d start assertSha256Hex_Inr[OF d]
      by (simp add: assertSha256Hex_digest computeMerkleLeafHash_def)
    then show ?thesis using climb climb_eq[OF H H hs] L(3) by simp
  qed
  have sub: "inj_on H (tree_texts H ?L \<union> climb_texts H ?c ss)"
    by (rule inj_on_subset[OF inj]) auto
  consider (node) pre suf where "ss = pre @ suf" "climb H ?c pre \<in> set ?L" | (above) "?c \<in> H ` tree_texts H ?L"
    using climb_descends[OF H H hs L(1,2) top sub] by blast
  then show ?thesis
  proof cases
    case node
    then obtain x where x: "x \<in> set xs" "climb H ?c pre = H (leaf_text (digest_of x))" by (auto simp: leaf_level_def)
    show ?thesis
    proof (cases pre rule: rev_cases)
      case Nil
      then have "H (leaf_text (digest_of leaf)) = H (leaf_text (digest_of x))" using x by (simp add: climb_def)
      then have "leaf_text (digest_of leaf) = leaf_text (digest_of x)"
        by (rule inj_onD[OF inj]) (use x in auto)
      then show ?thesis using x by (auto simp: leaf_text_def)
    next
      case (snoc pre' s)
      have "step_text (climb H ?c pre') s \<in> climb_texts H ?c ss"
        using climb_texts_prefix[of H ?c pre suf] node by (auto simp: snoc climb_snoc)
      moreover have "H (step_text (climb H ?c pre') s) = H (leaf_text (digest_of x))"
        using x by (simp add: snoc climb_snoc)
      ultimately have "step_text (climb H ?c pre') s = leaf_text (digest_of x)"
        using x by (elim inj_onD[OF inj]) auto
      then show ?thesis using step_text_node[of "climb H ?c pre'" s] leaf_node_text(1) by auto
    qed
  next
    case above
    then obtain t where t: "t \<in> tree_texts H ?L" "?c = H t" by blast
    have "leaf_text (digest_of leaf) = t" by (rule inj_onD[OF inj t(2)]) (use t in auto)
    then show ?thesis using tree_texts_node[OF t(1)] leaf_node_text(1) by auto
  qed
qed

section \<open>Padding an odd level\<close>

lemma next_level_pad: "odd (length xs) \<Longrightarrow> next_level H (xs @ [last xs]) = next_level H xs"
  by (induction xs rule: induct_list012) auto

lemma root_of_pad:
  assumes "odd (length xs)" and "1 < length xs"
  shows "root_of H (xs @ [last xs]) = root_of H xs"
  using assms next_level_pad[of xs H] root_of.simps[of H "xs @ [last xs]"] root_of.simps[of H xs]
  by (cases xs) simp_all

text \<open>Roots do not determine the list of leaves: a list of odd length above one and the same list
  with its last leaf repeated have the same root, so a root is only meaningful together with the
  tree size.\<close>

theorem merkle_root_odd_collision:
  assumes H: "\<And>x. is_sha256_hex (H x)" and xs: "\<forall>x \<in> set xs. is_digest x"
    and "odd (length xs)" and "1 < length xs"
  shows "computeMerkleRoot H (JArr (xs @ [last xs])) = computeMerkleRoot H (JArr xs)"
proof -
  have ne: "xs \<noteq> []" using assms(4) by auto
  have pad: "leaf_level H (xs @ [last xs]) = leaf_level H xs @ [last (leaf_level H xs)]"
    using ne by (simp add: leaf_level_def last_map)
  have "root_of H (leaf_level H (xs @ [last xs])) = root_of H (leaf_level H xs)"
    using assms(3,4) root_of_pad[of "leaf_level H xs" H] by (simp only: pad) (simp add: leaf_level_def)
  moreover have "\<forall>x \<in> set (xs @ [last xs]). is_digest x" using xs ne by simp
  moreover have "hexes (leaf_level H ys)" for ys using H by (simp add: leaf_level_def)
  ultimately show ?thesis using H xs ne
    by (simp add: computeMerkleRoot_def normalizeLeafHashArray_eq rootLoop_eq leaf_level_def)
qed

text \<open>A hash function with digests of the right shape, for evaluating the theorems.\<close>

definition toy_hash :: "string \<Rightarrow> string" where
  "toy_hash t = replicate 63 (CHR ''0'') @
     [if take 20 t = ''nooterra.merkle.node'' then CHR ''f'' else if t \<noteq> [] \<and> is_hex_char (last t) then last t else CHR ''0'']"

definition toy_leaf :: "char \<Rightarrow> jsval" where
  "toy_leaf c = JStr (replicate 63 (CHR ''a'') @ [c])"

lemma toy_hash_hex: "is_sha256_hex (toy_hash x)"
  by (auto simp: toy_hash_def is_sha256_hex_def list_all_iff is_hex_char_def is_digit_def)

theorem merkle_proof_complete_witness:
  "\<exists>p. buildMerkleProof toy_hash (JArr [toy_leaf (CHR ''1''), toy_leaf (CHR ''2''), toy_leaf (CHR ''3'')]) (JInt (int 2)) = Inr p
    \<and> computeMerkleRoot toy_hash (JArr [toy_leaf (CHR ''1''), toy_leaf (CHR ''2''), toy_leaf (CHR ''3'')]) = Inr (Some (mp_rootHash p))
    \<and> verifyMerkleProof toy_hash ([toy_leaf (CHR ''1''), toy_leaf (CHR ''2''), toy_leaf (CHR ''3'')] ! 2) (JInt (mp_leafIndex p)) (JInt (mp_treeSize p))
        (JArr (map js_of_sibling (mp_siblings p))) (JStr (mp_rootHash p)) = Inr True"
proof (rule merkle_proof_complete[OF toy_hash_hex])
  have "list_all is_digest [toy_leaf (CHR ''1''), toy_leaf (CHR ''2''), toy_leaf (CHR ''3'')]" by code_simp
  then show "\<forall>x \<in> set [toy_leaf (CHR ''1''), toy_leaf (CHR ''2''), toy_leaf (CHR ''3'')]. is_digest x"
    by (simp add: list_all_iff)
qed (simp_all add: is_safe_def MAX_SAFE_INTEGER_def)

theorem merkle_root_odd_collision_witness:
  "computeMerkleRoot toy_hash (JArr ([toy_leaf (CHR ''1''), toy_leaf (CHR ''2''), toy_leaf (CHR ''3'')] @ [toy_leaf (CHR ''3'')]))
   = computeMerkleRoot toy_hash (JArr [toy_leaf (CHR ''1''), toy_leaf (CHR ''2''), toy_leaf (CHR ''3'')])"
proof -
  have "list_all is_digest [toy_leaf (CHR ''1''), toy_leaf (CHR ''2''), toy_leaf (CHR ''3'')]" by code_simp
  then show ?thesis
    using merkle_root_odd_collision[OF toy_hash_hex, of "[toy_leaf (CHR ''1''), toy_leaf (CHR ''2''), toy_leaf (CHR ''3'')]"]
    by (simp add: list_all_iff)
qed

theorem merkle_proof_sound_witness:
  "\<exists>x \<in> set [toy_leaf (CHR ''1''), toy_leaf (CHR ''2'')]. digest_of x = digest_of (toy_leaf (CHR ''2''))"
proof (rule merkle_proof_sound[OF toy_hash_hex])
  let ?r = "replicate 63 (CHR ''0'') @ ''f''" let ?s = "replicate 63 (CHR ''0'') @ ''1''"
  show "computeMerkleRoot toy_hash (JArr [toy_leaf (CHR ''1''), toy_leaf (CHR ''2'')]) = Inr (Some ?r)" by code_simp
  show "verifyMerkleProof toy_hash (toy_leaf (CHR ''2'')) (JInt 1) (JInt 2)
    (JArr [JObj [(''position'', JStr ''left''), (''hash'', JStr ?s)]]) (JStr ?r) = Inr True" by code_simp
  show "normalizeProofSiblings (JArr [JObj [(''position'', JStr ''left''), (''hash'', JStr ?s)]])
    = Inr [\<lparr>mp_position = LEFT, mp_hash = ?s\<rparr>]" by code_simp
  let ?texts = "[leaf_text (digest_of (toy_leaf (CHR ''1''))), leaf_text (digest_of (toy_leaf (CHR ''2''))),
     node_text ?s (toy_hash (leaf_text (digest_of (toy_leaf (CHR ''2'')))))]"
  have "distinct (map toy_hash ?texts)" by code_simp
  then have "inj_on toy_hash (set ?texts)" by (simp only: distinct_map)
  moreover have "leaf_level toy_hash [toy_leaf (CHR ''1''), toy_leaf (CHR ''2'')] = [?s, toy_hash (leaf_text (digest_of (toy_leaf (CHR ''2''))))]"
    by code_simp
  ultimately show "inj_on toy_hash (insert (leaf_text (digest_of (toy_leaf (CHR ''2''))))
      ((\<lambda>x. leaf_text (digest_of x)) ` set [toy_leaf (CHR ''1''), toy_leaf (CHR ''2'')])
      \<union> tree_texts toy_hash (leaf_level toy_hash [toy_leaf (CHR ''1''), toy_leaf (CHR ''2'')])
      \<union> climb_texts toy_hash (toy_hash (leaf_text (digest_of (toy_leaf (CHR ''2''))))) [\<lparr>mp_position = LEFT, mp_hash = ?s\<rparr>])"
    by (elim inj_on_subset) (auto simp: tree_texts.simps step_text_def)
qed

end
