(* ===== verification/Ledger.thy ===== *)
theory Ledger
  imports JsAssert
begin

text \<open>
  \<^verbatim>\<open>src/core/ledger.js\<close>: the in-memory double-entry ledger. Account ids, names and types are
  strings; amounts are JavaScript numbers that the code requires to be safe integers, and sums
  and balances are computed with the rounding of double addition (\<open>add_int\<close>), which is exact
  as long as the running values stay within \<open>2 ^ 53\<close>. The locale \<open>double_entry\<close> states what a
  ledger promises its clients, conservation of money over any sequence of entries follows from
  it, and it is interpreted on the model of the code.
\<close>

section \<open>Data\<close>

record account =
  acc_id :: string
  acc_name :: string
  acc_currency :: string
  acc_type :: string
  acc_createdAt :: string

record posting =
  accountId :: string
  amountCents :: int

record journal_entry =
  entry_id :: string
  entry_at :: string
  entry_memo :: string
  entry_postings :: "posting list"

record ledger =
  accounts :: "string \<rightharpoonup> account"
  entries :: "journal_entry list"
  entryIds :: "string set"
  balances :: "string \<rightharpoonup> int"

section \<open>Operations\<close>

definition assertSafeCents :: "jsnum \<Rightarrow> int res" where
  "assertSafeCents amount =
     (case safe_int amount of
        None \<Rightarrow> Inl (TypeError ''amountCents must be a safe integer (cents)'')
      | Some n \<Rightarrow> (if n = 0 then Inl (TypeError ''amountCents must be non-zero'') else Inr n))"

text \<open>\<open>now\<close> is the time of the call; an absent currency is \<^verbatim>\<open>USD\<close>.\<close>

definition createAccount :: "string \<Rightarrow> string \<Rightarrow> string \<Rightarrow> string option \<Rightarrow> string \<Rightarrow> account res" where
  "createAccount now idArg name currency type =
     checks [throwIf (idArg = []) (TypeError ''account id is required''),
             throwIf (name = []) (TypeError ''account name is required''),
             throwIf (type = []) (TypeError ''account type is required'')]
       (Inr \<lparr>acc_id = idArg, acc_name = name,
             acc_currency = (case currency of None \<Rightarrow> ''USD'' | Some c \<Rightarrow> c),
             acc_type = type, acc_createdAt = now\<rparr>)"

text \<open>The loop over the postings, with the running sum.\<close>

definition checkPosting :: "int \<times> posting list \<Rightarrow> string \<times> jsnum \<Rightarrow> (int \<times> posting list) res" where
  "checkPosting = (\<lambda>(sum, acc) (acct, amount).
     if acct = [] then Inl (TypeError ''posting.accountId is required'')
     else andThen (assertSafeCents amount) (\<lambda>n.
       Inr (add_int sum n, acc @ [\<lparr>accountId = acct, amountCents = n\<rparr>])))"

definition createJournalEntry :: "string \<Rightarrow> string \<Rightarrow> string \<Rightarrow> (string \<times> jsnum) list \<Rightarrow> journal_entry res" where
  "createJournalEntry idArg atArg memo postings =
     (if length postings < 2 then Inl (TypeError ''postings must be an array of at least 2 items'')
      else andThen (foldRes checkPosting (0, []) postings) (\<lambda>(sum, ps).
        if sum \<noteq> 0 then Inl (PlainError (''journal entry must balance to zero; got sum='' @ num_str (num_of_int sum)))
        else Inr \<lparr>entry_id = idArg, entry_at = atArg, entry_memo = memo, entry_postings = ps\<rparr>))"

definition createLedger :: ledger where
  "createLedger = \<lparr>accounts = Map.empty, entries = [], entryIds = {}, balances = Map.empty\<rparr>"

definition addAccount :: "ledger \<Rightarrow> account \<Rightarrow> ledger" where
  "addAccount l a =
     l\<lparr>accounts := (accounts l)(acc_id a \<mapsto> a),
       balances := (if balances l (acc_id a) = None then (balances l)(acc_id a \<mapsto> 0) else balances l)\<rparr>"

definition balance_of :: "(string \<rightharpoonup> int) \<Rightarrow> string \<Rightarrow> int" where
  "balance_of m a = (case m a of None \<Rightarrow> 0 | Some n \<Rightarrow> n)"

definition applyPosting :: "posting \<Rightarrow> (string \<rightharpoonup> int) \<Rightarrow> (string \<rightharpoonup> int)" where
  "applyPosting p m = m(accountId p \<mapsto> add_int (balance_of m (accountId p)) (amountCents p))"

text \<open>The Boolean is the return value: false when the entry was applied before.\<close>

definition applyJournalEntry :: "ledger \<Rightarrow> journal_entry \<Rightarrow> (ledger \<times> bool) res" where
  "applyJournalEntry l e =
     (if entry_id e = [] then Inl (TypeError ''entry.id is required'')
      else if entry_id e \<in> entryIds l then Inr (l, False)
      else Inr (l\<lparr>entryIds := insert (entry_id e) (entryIds l),
                  entries := entries l @ [e],
                  balances := fold applyPosting (entry_postings e) (balances l)\<rparr>, True))"

section \<open>The contract of a ledger\<close>

definition posted_to :: "posting list \<Rightarrow> string \<Rightarrow> int" where
  "posted_to ps a = sum_list (map amountCents (filter (\<lambda>p. accountId p = a) ps))"

text \<open>A ledger promises that an accepted entry moves every account by what the entry posts to
  it. \<open>ok\<close> is the condition under which it promises so.\<close>

locale double_entry =
  fixes bal :: "'l \<Rightarrow> string \<Rightarrow> int"
    and post :: "'l \<Rightarrow> posting list \<Rightarrow> 'l"
    and ok :: "'l \<Rightarrow> posting list \<Rightarrow> bool"
  assumes post_bal: "ok l ps \<Longrightarrow> bal (post l ps) a = bal l a + posted_to ps a"
begin

definition total :: "string set \<Rightarrow> 'l \<Rightarrow> int" where
  "total A l = (\<Sum>a \<in> A. bal l a)"

lemma posted_total:
  assumes "finite A" and "accountId ` set ps \<subseteq> A"
  shows "(\<Sum>a \<in> A. posted_to ps a) = sum_list (map amountCents ps)"
  using assms
proof (induction ps)
  case Nil
  then show ?case by (simp add: posted_to_def)
next
  case (Cons p ps)
  have "posted_to (p # ps) a = (if a = accountId p then amountCents p else 0) + posted_to ps a" for a
    by (simp add: posted_to_def)
  then have "(\<Sum>a \<in> A. posted_to (p # ps) a) = (\<Sum>a \<in> A. if a = accountId p then amountCents p else 0) + (\<Sum>a \<in> A. posted_to ps a)"
    by (simp add: sum.distrib)
  then show ?case using Cons by simp
qed

lemma post_total:
  assumes "finite A" and "accountId ` set ps \<subseteq> A" and "ok l ps" and "sum_list (map amountCents ps) = 0"
  shows "total A (post l ps) = total A l"
  using assms posted_total[OF assms(1,2)] by (simp add: total_def post_bal sum.distrib)

text \<open>Conservation over a sequence of balanced entries, each within the ledger's promise.\<close>

fun ok_seq :: "'l \<Rightarrow> posting list list \<Rightarrow> bool" where
  "ok_seq l [] = True"
| "ok_seq l (ps # pss) = (ok l ps \<and> ok_seq (post l ps) pss)"

lemma post_seq_total:
  assumes "finite A" and "ok_seq l pss"
    and "\<forall>ps \<in> set pss. accountId ` set ps \<subseteq> A \<and> sum_list (map amountCents ps) = 0"
  shows "total A (foldl post l pss) = total A l"
  using assms(2,3) by (induction pss arbitrary: l) (simp_all add: post_total[OF assms(1)])

end

text \<open>The code keeps the promise as long as no balance leaves the safe range on the way.\<close>

fun in_range :: "(string \<rightharpoonup> int) \<Rightarrow> posting list \<Rightarrow> bool" where
  "in_range m [] = True"
| "in_range m (p # ps) = (is_safe (balance_of m (accountId p) + amountCents p) \<and> in_range (applyPosting p m) ps)"

lemma balance_of_update [simp]: "balance_of (m(a \<mapsto> n)) b = (if a = b then n else balance_of m b)"
  by (simp add: balance_of_def)

lemma apply_postings_balance:
  "in_range m ps \<Longrightarrow> balance_of (fold applyPosting ps m) a = balance_of m a + posted_to ps a"
  by (induction ps arbitrary: m) (auto simp: applyPosting_def posted_to_def add_int_safe)

interpretation js_ledger: double_entry balance_of "\<lambda>m ps. fold applyPosting ps m" in_range
  by unfold_locales (rule apply_postings_balance)

section \<open>Journal entries\<close>

lemma foldRes_checkPosting:
  "foldRes checkPosting (s, acc) qs = Inr (s', ps) \<Longrightarrow>
   \<exists>ps'. ps = acc @ ps' \<and> s' = foldl add_int s (map amountCents ps') \<and> length ps' = length qs
     \<and> list_all2 (\<lambda>q p. fst q = accountId p \<and> safe_int (snd q) = Some (amountCents p)) qs ps'
     \<and> (\<forall>p \<in> set ps'. accountId p \<noteq> [] \<and> is_safe (amountCents p) \<and> amountCents p \<noteq> 0)"
proof (induction qs arbitrary: s acc)
  case (Cons q qs)
  obtain acct amount where q: "q = (acct, amount)" by (cases q)
  from Cons.prems obtain n where n: "safe_int amount = Some n" "n \<noteq> 0" "acct \<noteq> []"
    and rest: "foldRes checkPosting (add_int s n, acc @ [\<lparr>accountId = acct, amountCents = n\<rparr>]) qs = Inr (s', ps)"
    by (auto simp: q checkPosting_def assertSafeCents_def andThen_Inr_iff split: if_splits option.splits)
  from Cons.IH[OF rest] obtain ps' where
    "ps = acc @ \<lparr>accountId = acct, amountCents = n\<rparr> # ps'" "s' = foldl add_int (add_int s n) (map amountCents ps')"
    "length ps' = length qs" "list_all2 (\<lambda>q p. fst q = accountId p \<and> safe_int (snd q) = Some (amountCents p)) qs ps'"
    "\<forall>p \<in> set ps'. accountId p \<noteq> [] \<and> is_safe (amountCents p) \<and> amountCents p \<noteq> 0" by auto
  then show ?case using n safe_int_Some[of amount n]
    by (intro exI[of _ "\<lparr>accountId = acct, amountCents = n\<rparr> # ps'"]) (auto simp: q)
qed simp

text \<open>Running sums stay exact while they are safe.\<close>

fun sums_safe :: "int \<Rightarrow> int list \<Rightarrow> bool" where
  "sums_safe s [] = True"
| "sums_safe s (n # ns) = (is_safe (s + n) \<and> sums_safe (s + n) ns)"

lemma foldl_add_int: "sums_safe s ns \<Longrightarrow> foldl add_int s ns = s + sum_list ns"
  by (induction ns arbitrary: s) (simp_all add: add_int_safe)

lemma createJournalEntry_postings:
  assumes "createJournalEntry i at' memo qs = Inr e"
  shows "length (entry_postings e) = length qs" "2 \<le> length qs" "entry_id e = i" "entry_at e = at'" "entry_memo e = memo"
    "foldl add_int 0 (map amountCents (entry_postings e)) = 0"
    "\<forall>p \<in> set (entry_postings e). accountId p \<noteq> [] \<and> is_safe (amountCents p) \<and> amountCents p \<noteq> 0"
    "list_all2 (\<lambda>q p. fst q = accountId p \<and> safe_int (snd q) = Some (amountCents p)) qs (entry_postings e)"
  using assms by (auto simp: createJournalEntry_def andThen_Inr_iff split: if_splits dest!: foldRes_checkPosting)

lemma foldRes_checkPosting_ok:
  "\<forall>q \<in> set qs. fst q \<noteq> [] \<and> is_safe (snd q) \<and> snd q \<noteq> 0 \<Longrightarrow>
   foldRes checkPosting (s, acc) (map (\<lambda>q. (fst q, num_of_int (snd q))) qs) =
     Inr (foldl add_int s (map snd qs), acc @ map (\<lambda>q. \<lparr>accountId = fst q, amountCents = snd q\<rparr>) qs)"
  by (induction qs arbitrary: s acc) (auto simp: checkPosting_def assertSafeCents_def)

text \<open>As long as the running sum stays a safe integer, \<^verbatim>\<open>createJournalEntry\<close> accepts exactly the
  lists of at least two postings with non-empty account ids and non-zero safe amounts that sum
  to zero, and returns them unchanged.\<close>

theorem createJournalEntry_iff_balanced:
  assumes "sums_safe 0 (map snd qs)"
  shows "createJournalEntry i t memo (map (\<lambda>q. (fst q, num_of_int (snd q))) qs) = Inr e \<longleftrightarrow>
    2 \<le> length qs \<and> (\<forall>q \<in> set qs. fst q \<noteq> [] \<and> is_safe (snd q) \<and> snd q \<noteq> 0) \<and> sum_list (map snd qs) = 0
    \<and> e = \<lparr>entry_id = i, entry_at = t, entry_memo = memo,
           entry_postings = map (\<lambda>q. \<lparr>accountId = fst q, amountCents = snd q\<rparr>) qs\<rparr>"
    (is "?L \<longleftrightarrow> ?R")
proof
  let ?js = "map (\<lambda>q. (fst q, num_of_int (snd q))) qs"
  assume L: ?L
  have rel: "list_all2 (\<lambda>q p. fst q = accountId p \<and> safe_int (snd q) = Some (amountCents p)) ?js (entry_postings e)"
    using createJournalEntry_postings(8)[OF L] .
  then have nth: "is_safe (snd (qs ! k))" "accountId (entry_postings e ! k) = fst (qs ! k)"
    "amountCents (entry_postings e ! k) = snd (qs ! k)" if "k < length qs" for k
    using that by (auto simp: list_all2_conv_all_nth split: if_splits)
  have len: "length (entry_postings e) = length qs" using rel by (auto dest: list_all2_lengthD)
  have ps: "entry_postings e = map (\<lambda>q. \<lparr>accountId = fst q, amountCents = snd q\<rparr>) qs"
    using len nth by (auto intro!: nth_equalityI)
  have "sum_list (map snd qs) = 0"
    using createJournalEntry_postings(6)[OF L] foldl_add_int[OF assms] by (simp add: ps comp_def)
  moreover have "\<forall>q \<in> set qs. fst q \<noteq> [] \<and> is_safe (snd q) \<and> snd q \<noteq> 0"
    using createJournalEntry_postings(7)[OF L] by (simp add: ps)
  ultimately show ?R
    using ps createJournalEntry_postings(2-5)[OF L] by (auto intro!: journal_entry.equality)
next
  assume R: ?R
  then show ?L using foldl_add_int[OF assms] foldRes_checkPosting_ok[of qs 0 "[]"]
    by (auto simp: createJournalEntry_def)
qed

theorem createJournalEntry_iff_balanced_witness:
  "createJournalEntry ''j1'' ''t'' ''m'' [(''a'', num_of_int 5), (''b'', num_of_int (-5))] =
     Inr \<lparr>entry_id = ''j1'', entry_at = ''t'', entry_memo = ''m'',
          entry_postings = [\<lparr>accountId = ''a'', amountCents = 5\<rparr>, \<lparr>accountId = ''b'', amountCents = -5\<rparr>]\<rparr>"
  using createJournalEntry_iff_balanced[of "[(''a'', 5), (''b'', -5)]" "''j1''" "''t''" "''m''"]
  by (simp add: is_safe_def MAX_SAFE_INTEGER_def)

text \<open>The running sum is a double, so the balance check is not exact: these four postings of safe
  non-zero amounts sum to one cent and are accepted as balanced.\<close>

theorem createJournalEntry_accepts_unbalanced:
  "sum_list (map snd [(''a'', MAX_SAFE_INTEGER), (''b'', 2), (''c'', - MAX_SAFE_INTEGER), (''d'', - 1 :: int)]) = 1
   \<and> \<not> isl (createJournalEntry ''j'' ''t'' ''m''
        [(''a'', num_of_int MAX_SAFE_INTEGER), (''b'', num_of_int 2),
         (''c'', num_of_int (- MAX_SAFE_INTEGER)), (''d'', num_of_int (- 1))])"
  by code_simp

text \<open>A run of \<^verbatim>\<open>applyJournalEntry\<close> over a list of entries.\<close>

definition applyEntries :: "ledger \<Rightarrow> journal_entry list \<Rightarrow> ledger res" where
  "applyEntries = foldRes (\<lambda>l e. andThen (applyJournalEntry l e) (\<lambda>(l', _). Inr l'))"

fun entries_in_range :: "ledger \<Rightarrow> journal_entry list \<Rightarrow> bool" where
  "entries_in_range l [] = True"
| "entries_in_range l (e # es) =
     (in_range (balances l) (entry_postings e) \<and>
      (case applyJournalEntry l e of Inl _ \<Rightarrow> True | Inr (l', _) \<Rightarrow> entries_in_range l' es))"

lemma applyJournalEntry_total:
  assumes "finite A" and "accountId ` set (entry_postings e) \<subseteq> A"
    and "in_range (balances l) (entry_postings e)" and "sum_list (map amountCents (entry_postings e)) = 0"
    and "applyJournalEntry l e = Inr (l', b)"
  shows "(\<Sum>a \<in> A. balance_of (balances l') a) = (\<Sum>a \<in> A. balance_of (balances l) a)"
  using assms js_ledger.post_total[OF assms(1-4)]
  by (auto simp: applyJournalEntry_def js_ledger.total_def split: if_splits)

text \<open>C12: Conservation. Applying any sequence of balanced entries, replays included, leaves the sum of
  the balances over every finite set of accounts that contains the accounts posted to unchanged,
  as long as no balance leaves the safe integers on the way.\<close>

theorem applyEntries_conserves:
  assumes "finite A" and "applyEntries l es = Inr l'" and "entries_in_range l es"
    and "\<forall>e \<in> set es. accountId ` set (entry_postings e) \<subseteq> A \<and> sum_list (map amountCents (entry_postings e)) = 0"
  shows "(\<Sum>a \<in> A. balance_of (balances l') a) = (\<Sum>a \<in> A. balance_of (balances l) a)"
  using assms(2-4)
proof (induction es arbitrary: l)
  case (Cons e es)
  then obtain l1 b where l1: "applyJournalEntry l e = Inr (l1, b)" "applyEntries l1 es = Inr l'"
    by (auto simp: applyEntries_def andThen_Inr_iff)
  then show ?case using Cons applyJournalEntry_total[OF assms(1), of e l l1 b] by simp
qed (simp add: applyEntries_def)

theorem applyEntries_conserves_witness:
  "\<exists>l'. applyEntries createLedger [\<lparr>entry_id = ''j1'', entry_at = ''t'', entry_memo = ''m'',
          entry_postings = [\<lparr>accountId = ''a'', amountCents = 5\<rparr>, \<lparr>accountId = ''b'', amountCents = -5\<rparr>]\<rparr>] = Inr l'
     \<and> (\<Sum>a \<in> {''a'', ''b''}. balance_of (balances l') a) = 0 \<and> balance_of (balances l') ''a'' = 5"
proof -
  let ?e = "\<lparr>entry_id = ''j1'', entry_at = ''t'', entry_memo = ''m'',
          entry_postings = [\<lparr>accountId = ''a'', amountCents = 5\<rparr>, \<lparr>accountId = ''b'', amountCents = -5\<rparr>]\<rparr>"
  obtain l' where l': "applyEntries createLedger [?e] = Inr l'" and a: "balance_of (balances l') ''a'' = 5"
    by (simp add: applyEntries_def applyJournalEntry_def createLedger_def applyPosting_def balance_of_def
        add_int_exact)
  have "(\<Sum>a \<in> {''a'', ''b''}. balance_of (balances l') a) = (\<Sum>a \<in> {''a'', ''b''}. balance_of (balances createLedger) a)"
    using l' by (rule applyEntries_conserves[rotated])
      (simp_all add: createLedger_def applyJournalEntry_def balance_of_def is_safe_def MAX_SAFE_INTEGER_def
        applyPosting_def add_int_exact)
  then show ?thesis using l' a by (auto simp: createLedger_def balance_of_def)
qed

text \<open>Journal entries are idempotent by id: once an entry has been applied, applying any entry with
  the same id reports false and changes nothing, however many other entries came between.\<close>

theorem applyJournalEntry_idempotent:
  assumes "applyJournalEntry l e = Inr (l1, b)" and "applyEntries l1 es = Inr l2" and "entry_id e' = entry_id e"
  shows "applyJournalEntry l2 e' = Inr (l2, False)"
proof -
  have "entry_id e \<in> entryIds l1" "entry_id e \<noteq> []"
    using assms(1) by (auto simp: applyJournalEntry_def split: if_splits)
  moreover have "entry_id e \<in> entryIds l2"
  proof (rule foldRes_invariant[OF assms(2)[unfolded applyEntries_def]])
    show "entry_id e \<in> entryIds l1" by fact
    show "entry_id e \<in> entryIds l''" if "entry_id e \<in> entryIds l'" "andThen (applyJournalEntry l' f) (\<lambda>(l', _). Inr l') = Inr l''" for l' f l''
      using that by (auto simp: andThen_Inr_iff applyJournalEntry_def split: if_splits)
  qed
  ultimately show ?thesis using assms(3) by (simp add: applyJournalEntry_def)
qed

theorem applyJournalEntry_idempotent_witness:
  "applyJournalEntry (createLedger\<lparr>entryIds := {''j1''}\<rparr>) \<lparr>entry_id = ''j1'', entry_at = ''t'', entry_memo = ''m'', entry_postings = []\<rparr>
   = Inr (createLedger\<lparr>entryIds := {''j1''}\<rparr>, False)"
  by (rule applyJournalEntry_idempotent[where es = "[]" and b = False and l = "createLedger\<lparr>entryIds := {''j1''}\<rparr>"
        and e = "\<lparr>entry_id = ''j1'', entry_at = ''t'', entry_memo = ''m'', entry_postings = []\<rparr>"])
     (simp_all add: applyJournalEntry_def applyEntries_def)

end
