(* ===== verification/EscrowLedger.thy ===== *)
theory EscrowLedger
  imports Ledger
begin

text \<open>
  \<^verbatim>\<open>src/core/escrow-ledger.js\<close>: hold, release and forfeit operations on the wallets of a
  double-entry ledger. The state is a record with the ledger and the map of operations already
  performed; \<open>applyEscrowOperation\<close> returns the new state together with the result or the
  exception, because the code adds missing accounts to the ledger before the checks that may
  still throw. \<open>now\<close> is what the state's clock returns at the call.
\<close>

section \<open>Data\<close>

datatype escrow_type = HOLD | RELEASE | FORFEIT

fun escrow_type_str :: "escrow_type \<Rightarrow> string" where
  "escrow_type_str HOLD = ''hold''"
| "escrow_type_str RELEASE = ''release''"
| "escrow_type_str FORFEIT = ''forfeit''"

record escrow_input =
  ei_operationId :: string
  ei_tenantId :: string
  ei_payerWalletId :: string
  ei_payeeWalletId :: "string option"
  ei_type :: escrow_type
  ei_amountCents :: int
  ei_at :: string
  ei_memo :: "string option"
  ei_currency :: string

record escrow_operation =
  eo_operationId :: string
  eo_tenantId :: string
  eo_type :: escrow_type
  eo_amountCents :: int
  eo_currency :: string
  eo_payerWalletId :: string
  eo_payeeWalletId :: "string option"
  eo_entryId :: string
  eo_fromAccountId :: string
  eo_toAccountId :: string
  eo_at :: string
  eo_balancesAfter :: "(string \<times> int) list"

record escrow_state =
  es_currency :: string
  es_ledger :: ledger
  es_operations :: "string \<rightharpoonup> string \<times> escrow_operation"

record posting_plan =
  fromAccountId :: string
  toAccountId :: string
  plan_postings :: "(string \<times> jsnum) list"

section \<open>Argument checks\<close>

definition normalizeIsoDate :: "jsval \<Rightarrow> string \<Rightarrow> string res" where
  "normalizeIsoDate v name =
     andThen (assertNonEmptyString v name) (\<lambda>s.
       if date_parse s = None then Inl (TypeError (name @ '' must be an ISO date-time'')) else Inr s)"

definition normalizeAmountCents :: "jsval \<Rightarrow> string \<Rightarrow> bool \<Rightarrow> int res" where
  "normalizeAmountCents v name allowZero =
     (case safe_int (js_Number v) of
        None \<Rightarrow> Inl (TypeError (name @ '' must be a safe integer''))
      | Some n \<Rightarrow>
          (if (if allowZero then n < 0 else n \<le> 0)
           then Inl (TypeError (name @ '' must be '' @ (if allowZero then ''>= 0'' else ''> 0'')))
           else Inr n))"

definition normalizeOperationType :: "jsval \<Rightarrow> escrow_type res" where
  "normalizeOperationType v =
     (let s = toLowerCase (trim (js_String (orElse v (JStr [])))) in
      if s = ''hold'' then Inr HOLD else if s = ''release'' then Inr RELEASE
      else if s = ''forfeit'' then Inr FORFEIT
      else Inl (TypeError ''type must be one of: hold|release|forfeit''))"

definition normalizeCurrency :: "jsval \<Rightarrow> string res" where
  "normalizeCurrency v =
     andThen (assertNonEmptyString v ''currency'') (\<lambda>s.
       let c = toUpperCase (trim s) in
       if is_currency_code c then Inr c else Inl (TypeError ''currency must match ^[A-Z][A-Z0-9_]{2,11}$''))"

definition conflictError :: "string \<Rightarrow> string \<Rightarrow> js_error" where
  "conflictError c message = CodedError c message"

section \<open>Accounts\<close>

definition walletAvailableAccountId :: "string \<Rightarrow> string \<Rightarrow> string res" where
  "walletAvailableAccountId tenantId walletId =
     andThen (assertNonEmptyString (JStr tenantId) ''tenantId'') (\<lambda>_.
     andThen (assertNonEmptyString (JStr walletId) ''walletId'') (\<lambda>_.
       Inr (''wallet:'' @ tenantId @ '':'' @ walletId @ '':available'')))"

definition walletEscrowAccountId :: "string \<Rightarrow> string \<Rightarrow> string res" where
  "walletEscrowAccountId tenantId walletId =
     andThen (assertNonEmptyString (JStr tenantId) ''tenantId'') (\<lambda>_.
     andThen (assertNonEmptyString (JStr walletId) ''walletId'') (\<lambda>_.
       Inr (''wallet:'' @ tenantId @ '':'' @ walletId @ '':escrow_locked'')))"

definition ensureAccount :: "string \<Rightarrow> string \<Rightarrow> string \<Rightarrow> string \<Rightarrow> string \<Rightarrow> ledger \<Rightarrow> ledger res" where
  "ensureAccount now acct name currency type l =
     (if accounts l acct \<noteq> None then Inr l
      else andThen (createAccount now acct name (Some currency) type) (\<lambda>a. Inr (addAccount l a)))"

definition ensureWalletAccounts :: "string \<Rightarrow> escrow_state \<Rightarrow> string \<Rightarrow> string \<Rightarrow> escrow_state res" where
  "ensureWalletAccounts now st tenantId walletId =
     andThen (walletAvailableAccountId tenantId walletId) (\<lambda>avail.
     andThen (walletEscrowAccountId tenantId walletId) (\<lambda>escrow.
     andThen (ensureAccount now avail (''Wallet '' @ walletId @ '' Available'') (es_currency st) ''asset'' (es_ledger st)) (\<lambda>l.
     andThen (ensureAccount now escrow (''Wallet '' @ walletId @ '' Escrow Locked'') (es_currency st) ''liability'' l) (\<lambda>l.
       Inr (st\<lparr>es_ledger := l\<rparr>)))))"

definition getBalance :: "ledger \<Rightarrow> string \<Rightarrow> int" where
  "getBalance l acct = balance_of (balances l) acct"

section \<open>Operations\<close>

text \<open>\<^verbatim>\<open>String(v ?? "").trim()\<close>, and the variant that keeps null apart.\<close>

definition trimmed_str :: "jsval \<Rightarrow> string" where
  "trimmed_str v = trim (js_String (orElse v (JStr [])))"

definition trimmed_opt :: "jsval \<Rightarrow> string option" where
  "trimmed_opt v = (if nullish v then None else let s = trim (js_String v) in if s = [] then None else Some s)"

definition normalizeOperationInput :: "string \<Rightarrow> string \<Rightarrow> jsval \<Rightarrow> escrow_input res" where
  "normalizeOperationInput now currency input =
     andThen (assertPlainObject input ''input'') (\<lambda>_.
     let operationId = trimmed_str (getp input ''operationId'');
         tenantId = trimmed_str (getp input ''tenantId'');
         payerWalletId = trimmed_str (getp input ''payerWalletId'');
         payeeWalletId = trimmed_opt (getp input ''payeeWalletId'') in
     andThen (normalizeOperationType (getp input ''type'')) (\<lambda>type.
     andThen (normalizeAmountCents (getp input ''amountCents'') ''amountCents'' False) (\<lambda>amount.
     andThen (normalizeIsoDate (orElse (getp input ''at'') (JStr now)) ''at'') (\<lambda>atArg.
     checks [throwIf (operationId = []) (TypeError ''operationId is required''),
             throwIf (tenantId = []) (TypeError ''tenantId is required''),
             throwIf (payerWalletId = []) (TypeError ''payerWalletId is required''),
             throwIf (type = RELEASE \<and> payeeWalletId = None) (TypeError ''payeeWalletId is required for release operations''),
             throwIf (type \<noteq> RELEASE \<and> payeeWalletId \<noteq> None) (TypeError ''payeeWalletId is only valid for release operations'')]
       (Inr \<lparr>ei_operationId = operationId, ei_tenantId = tenantId, ei_payerWalletId = payerWalletId,
             ei_payeeWalletId = payeeWalletId, ei_type = type, ei_amountCents = amount, ei_at = atArg,
             ei_memo = trimmed_opt (getp input ''memo''), ei_currency = currency\<rparr>)))))"

definition js_opt :: "string option \<Rightarrow> jsval" where
  "js_opt s = (case s of None \<Rightarrow> JNull | Some t \<Rightarrow> JStr t)"

definition operationRequestHash :: "escrow_input \<Rightarrow> string res" where
  "operationRequestHash i =
     andThen (normalizeForCanonicalJson (JObj
       [(''operationId'', JStr (ei_operationId i)), (''tenantId'', JStr (ei_tenantId i)),
        (''payerWalletId'', JStr (ei_payerWalletId i)), (''payeeWalletId'', js_opt (ei_payeeWalletId i)),
        (''type'', JStr (escrow_type_str (ei_type i))), (''amountCents'', JInt (ei_amountCents i)),
        (''currency'', JStr (ei_currency i))]) ''$'' False) canonicalJsonStringify"

definition operationStoreKey :: "string \<Rightarrow> string \<Rightarrow> string res" where
  "operationStoreKey tenantId operationId =
     andThen (normalizeForCanonicalJson (JObj [(''tenantId'', JStr tenantId), (''operationId'', JStr operationId)]) ''$'' False)
       canonicalJsonStringify"

definition move_plan :: "string \<Rightarrow> string \<Rightarrow> int \<Rightarrow> posting_plan" where
  "move_plan src dst n = \<lparr>fromAccountId = src, toAccountId = dst,
     plan_postings = [(src, num_of_int (- n)), (dst, num_of_int n)]\<rparr>"

definition buildPostingsForOperation :: "escrow_input \<Rightarrow> posting_plan res" where
  "buildPostingsForOperation i =
     andThen (walletAvailableAccountId (ei_tenantId i) (ei_payerWalletId i)) (\<lambda>payerAvailable.
     andThen (walletEscrowAccountId (ei_tenantId i) (ei_payerWalletId i)) (\<lambda>payerEscrow.
       case ei_type i of
         HOLD \<Rightarrow> Inr (move_plan payerAvailable payerEscrow (ei_amountCents i))
       | RELEASE \<Rightarrow>
           andThen (case ei_payeeWalletId i of
                      None \<Rightarrow> andThen (assertNonEmptyString (JStr (ei_tenantId i)) ''tenantId'')
                                (\<lambda>_. assertNonEmptyString JNull ''walletId'')
                    | Some w \<Rightarrow> walletAvailableAccountId (ei_tenantId i) w) (\<lambda>payeeAvailable.
             Inr (move_plan payerEscrow payeeAvailable (ei_amountCents i)))
       | FORFEIT \<Rightarrow> Inr (move_plan payerEscrow payerAvailable (ei_amountCents i))))"

definition ensureSufficientBalance :: "escrow_state \<Rightarrow> escrow_input \<Rightarrow> string \<Rightarrow> unit res" where
  "ensureSufficientBalance st i acct =
     (if getBalance (es_ledger st) acct < ei_amountCents i
      then (if ei_type i = HOLD
            then Inl (conflictError ''INSUFFICIENT_WALLET_AVAILABLE'' ''insufficient available wallet balance for hold'')
            else Inl (conflictError ''INSUFFICIENT_ESCROW_LOCKED'' ''insufficient escrow balance for release/forfeit''))
      else Inr ())"

definition set_balance :: "string \<Rightarrow> int \<Rightarrow> escrow_state \<Rightarrow> escrow_state" where
  "set_balance acct n st = st\<lparr>es_ledger := (es_ledger st)\<lparr>balances := (balances (es_ledger st))(acct \<mapsto> n)\<rparr>\<rparr>"

definition setWalletBalances :: "string \<Rightarrow> string \<Rightarrow> string \<Rightarrow> int \<Rightarrow> int \<Rightarrow> escrow_state \<Rightarrow> escrow_state res" where
  "setWalletBalances now tenantId walletId available locked st =
     andThen (ensureWalletAccounts now st tenantId walletId) (\<lambda>st.
     andThen (walletAvailableAccountId tenantId walletId) (\<lambda>a.
     andThen (walletEscrowAccountId tenantId walletId) (\<lambda>e.
       Inr (set_balance e locked (set_balance a available st)))))"

text \<open>One row of \<^verbatim>\<open>initialWalletBalances\<close>.\<close>

definition addInitialWallet :: "string \<Rightarrow> escrow_state \<Rightarrow> jsval \<Rightarrow> escrow_state res" where
  "addInitialWallet now st row =
     andThen (assertPlainObject row ''initialWalletBalances[]'') (\<lambda>_.
     let tenantId = trimmed_str (getp row ''tenantId''); walletId = trimmed_str (getp row ''walletId'') in
     checks [throwIf (tenantId = []) (TypeError ''initialWalletBalances[].tenantId is required''),
             throwIf (walletId = []) (TypeError ''initialWalletBalances[].walletId is required'')]
     (andThen (normalizeAmountCents (orElse (getp row ''availableCents'') (JInt 0)) ''initialWalletBalances[].availableCents'' True) (\<lambda>a.
      andThen (normalizeAmountCents (orElse (getp row ''escrowLockedCents'') (JInt 0)) ''initialWalletBalances[].escrowLockedCents'' True) (\<lambda>e.
        setWalletBalances now tenantId walletId a e st))))"

definition createEscrowLedger :: "string \<Rightarrow> jsval \<Rightarrow> jsval \<Rightarrow> escrow_state res" where
  "createEscrowLedger now currency initialWalletBalances =
     (case dflt initialWalletBalances (JArr []) of
        JArr rows \<Rightarrow>
          andThen (normalizeCurrency (dflt currency (JStr ''USD''))) (\<lambda>c.
            foldRes (addInitialWallet now) \<lparr>es_currency = c, es_ledger = createLedger, es_operations = Map.empty\<rparr> rows)
      | _ \<Rightarrow> Inl (TypeError ''initialWalletBalances must be an array''))"

definition getEscrowLedgerBalance :: "escrow_state \<Rightarrow> jsval \<Rightarrow> int res" where
  "getEscrowLedgerBalance st acct =
     andThen (assertNonEmptyString acct ''accountId'') (\<lambda>a. Inr (getBalance (es_ledger st) a))"

text \<open>The result is the pair of balances set; a failing call has changed nothing.\<close>

definition upsertEscrowLedgerWalletBalances ::
  "string \<Rightarrow> escrow_state \<Rightarrow> jsval \<Rightarrow> jsval \<Rightarrow> jsval \<Rightarrow> jsval \<Rightarrow> (escrow_state \<times> int \<times> int) res" where
  "upsertEscrowLedgerWalletBalances now st tenantId walletId availableCents escrowLockedCents =
     andThen (assertNonEmptyString tenantId ''tenantId'') (\<lambda>t.
     andThen (assertNonEmptyString walletId ''walletId'') (\<lambda>w.
     andThen (normalizeAmountCents availableCents ''availableCents'' True) (\<lambda>a.
     andThen (normalizeAmountCents escrowLockedCents ''escrowLockedCents'' True) (\<lambda>e.
     andThen (setWalletBalances now (trim t) (trim w) a e st) (\<lambda>st'.
       Inr (st', a, e))))))"

text \<open>Everything after the accounts are in place.\<close>

definition performOperation ::
  "escrow_state \<Rightarrow> escrow_input \<Rightarrow> string \<Rightarrow> string \<Rightarrow> (escrow_state \<times> escrow_operation) res" where
  "performOperation st i requestHash storeKey =
     andThen (buildPostingsForOperation i) (\<lambda>plan.
     andThen (ensureSufficientBalance st i (fromAccountId plan)) (\<lambda>_.
     let entryId = ''escrow:'' @ ei_tenantId i @ '':'' @ ei_operationId i;
         memo = (case ei_memo i of Some m \<Rightarrow> m | None \<Rightarrow> ''escrow:'' @ escrow_type_str (ei_type i) @ '':'' @ ei_operationId i) in
     andThen (createJournalEntry entryId (ei_at i) memo (plan_postings plan)) (\<lambda>entry.
     andThen (applyJournalEntry (es_ledger st) entry) (\<lambda>(l, inserted).
     if \<not> inserted then Inl (conflictError ''ESCROW_ENTRY_DUPLICATE'' ''ledger entry id already exists'')
     else
       let operation =
         \<lparr>eo_operationId = ei_operationId i, eo_tenantId = ei_tenantId i, eo_type = ei_type i,
          eo_amountCents = ei_amountCents i, eo_currency = es_currency st,
          eo_payerWalletId = ei_payerWalletId i, eo_payeeWalletId = ei_payeeWalletId i,
          eo_entryId = entryId, eo_fromAccountId = fromAccountId plan, eo_toAccountId = toAccountId plan,
          eo_at = ei_at i,
          eo_balancesAfter = [(fromAccountId plan, getBalance l (fromAccountId plan)),
                              (toAccountId plan, getBalance l (toAccountId plan))]\<rparr>
       in Inr (st\<lparr>es_ledger := l, es_operations := (es_operations st)(storeKey \<mapsto> (requestHash, operation))\<rparr>, operation)))))"

text \<open>The result carries the operation and the \<^verbatim>\<open>applied\<close> flag.\<close>

definition applyEscrowOperation ::
  "string \<Rightarrow> escrow_state \<Rightarrow> jsval \<Rightarrow> escrow_state \<times> (escrow_operation \<times> bool) res" where
  "applyEscrowOperation now st input =
     (case andThen (normalizeOperationInput now (es_currency st) input) (\<lambda>i.
           andThen (operationRequestHash i) (\<lambda>h.
           andThen (operationStoreKey (ei_tenantId i) (ei_operationId i)) (\<lambda>k. Inr (i, h, k)))) of
        Inl e \<Rightarrow> (st, Inl e)
      | Inr (i, requestHash, storeKey) \<Rightarrow>
          (case es_operations st storeKey of
             Some (h, operation) \<Rightarrow>
               (if h \<noteq> requestHash
                then (st, Inl (conflictError ''ESCROW_OPERATION_CONFLICT'' ''operationId was already used with a different request''))
                else (st, Inr (operation, False)))
           | None \<Rightarrow>
               (case ensureWalletAccounts now st (ei_tenantId i) (ei_payerWalletId i) of
                  Inl e \<Rightarrow> (st, Inl e)
                | Inr st1 \<Rightarrow>
                    (case (case ei_payeeWalletId i of None \<Rightarrow> Inr st1
                           | Some w \<Rightarrow> ensureWalletAccounts now st1 (ei_tenantId i) w) of
                       Inl e \<Rightarrow> (st1, Inl e)
                     | Inr st2 \<Rightarrow>
                         (case performOperation st2 i requestHash storeKey of
                            Inl e \<Rightarrow> (st2, Inl e)
                          | Inr (st3, operation) \<Rightarrow> (st3, Inr (operation, True)))))))"

section \<open>Account ids\<close>

definition available_id :: "string \<Rightarrow> string \<Rightarrow> string" where
  "available_id t w = ''wallet:'' @ t @ '':'' @ w @ '':available''"

definition escrow_id :: "string \<Rightarrow> string \<Rightarrow> string" where
  "escrow_id t w = ''wallet:'' @ t @ '':'' @ w @ '':escrow_locked''"

lemma account_id_Inr_iff [res_simps]:
  "walletAvailableAccountId t w = Inr a \<longleftrightarrow> trim t \<noteq> [] \<and> trim w \<noteq> [] \<and> a = available_id t w"
  "walletEscrowAccountId t w = Inr a \<longleftrightarrow> trim t \<noteq> [] \<and> trim w \<noteq> [] \<and> a = escrow_id t w"
  by (auto simp: walletAvailableAccountId_def walletEscrowAccountId_def available_id_def escrow_id_def
      andThen_Inr_iff assertNonEmptyString_Inr_iff)

lemma account_ids_differ [simp]:
  "available_id t w \<noteq> escrow_id t' w'" "escrow_id t' w' \<noteq> available_id t w"
  "available_id t w \<noteq> []" "escrow_id t w \<noteq> []"
proof -
  have "last (available_id t w) = CHR ''e''" "last (escrow_id t' w') = CHR ''d''"
    by (simp_all add: available_id_def escrow_id_def)
  then show "available_id t w \<noteq> escrow_id t' w'" "escrow_id t' w' \<noteq> available_id t w" by fastforce+
qed (simp_all add: available_id_def escrow_id_def)

definition tenant_accounts :: "string \<Rightarrow> string set" where
  "tenant_accounts t = {a. \<exists>w. a = available_id t w \<or> a = escrow_id t w}"

lemma tenant_accounts_intro [simp]: "available_id t w \<in> tenant_accounts t" "escrow_id t w \<in> tenant_accounts t"
  by (auto simp: tenant_accounts_def)

lemma tenant_accounts_disjoint:
  assumes "CHR '':'' \<notin> set t" and "CHR '':'' \<notin> set t'" and "t \<noteq> t'" and "a \<in> tenant_accounts t"
  shows "a \<notin> tenant_accounts t'"
proof
  assume "a \<in> tenant_accounts t'"
  then obtain r r' where "a = ''wallet:'' @ t @ CHR '':'' # r" "a = ''wallet:'' @ t' @ CHR '':'' # r'"
    using assms(4) by (auto simp: tenant_accounts_def available_id_def escrow_id_def)
  then have "t @ CHR '':'' # r = t' @ CHR '':'' # r'" by simp
  then show False using append_eq_prefix_free[of t "CHR '':''" r t' "CHR '':''" r'] assms(1-3) by blast
qed

lemma trimmed_facts [simp]:
  "trim (trimmed_str v) = trimmed_str v"
  "trimmed_opt v = Some s \<Longrightarrow> trim s = s \<and> s \<noteq> []"
  by (auto simp: trimmed_str_def trimmed_opt_def Let_def split: if_splits)

section \<open>Balances\<close>

definition total_balance :: "(string \<rightharpoonup> int) \<Rightarrow> int" where
  "total_balance m = (\<Sum>a \<in> dom m. balance_of m a)"

text \<open>No account is overdrawn and all the money of the ledger is a safe integer.\<close>

definition solvent :: "(string \<rightharpoonup> int) \<Rightarrow> bool" where
  "solvent m \<longleftrightarrow> finite (dom m) \<and> (\<forall>a. 0 \<le> balance_of m a) \<and> total_balance m \<le> MAX_SAFE_INTEGER"

lemma balance_outside: "a \<notin> dom m \<Longrightarrow> balance_of m a = 0"
  by (auto simp: balance_of_def split: option.splits)

lemma total_superset: "finite A \<Longrightarrow> dom m \<subseteq> A \<Longrightarrow> total_balance m = (\<Sum>a \<in> A. balance_of m a)"
  unfolding total_balance_def by (rule sum.mono_neutral_left) (auto simp: balance_outside)

lemma two_balances_le_total:
  assumes "solvent m" and "a \<noteq> b"
  shows "balance_of m a + balance_of m b \<le> total_balance m"
proof -
  let ?A = "dom m \<union> {a, b}"
  have "(\<Sum>x \<in> {a, b}. balance_of m x) \<le> (\<Sum>x \<in> ?A. balance_of m x)"
    using assms(1) by (intro sum_mono2) (auto simp: solvent_def)
  moreover have "total_balance m = (\<Sum>x \<in> ?A. balance_of m x)"
    using assms(1) by (intro total_superset) (auto simp: solvent_def)
  ultimately show ?thesis using assms(2) by simp
qed

lemma balance_of_fresh: "m a = None \<Longrightarrow> balance_of (m(a \<mapsto> 0)) = balance_of m"
  by (auto simp: balance_of_def fun_eq_iff)

lemma total_fresh: "finite (dom m) \<Longrightarrow> m a = None \<Longrightarrow> total_balance (m(a \<mapsto> 0)) = total_balance m"
  using total_superset[of "insert a (dom m)" m] by (simp add: total_balance_def balance_of_fresh subset_insertI)

abbreviation es_balances :: "escrow_state \<Rightarrow> string \<rightharpoonup> int" where
  "es_balances st \<equiv> balances (es_ledger st)"

text \<open>Opening accounts changes no balance and nothing else but the account table.\<close>

definition same_money :: "ledger \<Rightarrow> ledger \<Rightarrow> bool" where
  "same_money l l' \<longleftrightarrow> balance_of (balances l') = balance_of (balances l) \<and> entries l' = entries l \<and> entryIds l' = entryIds l
     \<and> (finite (dom (balances l)) \<longrightarrow> finite (dom (balances l')) \<and> total_balance (balances l') = total_balance (balances l))"

lemma same_money_refl [simp]: "same_money l l" by (simp add: same_money_def)

lemma same_money_trans: "same_money l l' \<Longrightarrow> same_money l' l'' \<Longrightarrow> same_money l l''"
  by (auto simp: same_money_def)

lemma same_money_solvent: "same_money l l' \<Longrightarrow> solvent (balances l) \<Longrightarrow> solvent (balances l')"
  by (auto simp: same_money_def solvent_def)

lemma ensureAccount_money: "ensureAccount now a n c t l = Inr l' \<Longrightarrow> same_money l l'"
  by (auto simp: ensureAccount_def createAccount_def andThen_Inr_iff checks_Inr_iff addAccount_def same_money_def
      balance_of_fresh total_fresh split: if_splits)

lemma ensureAccount_ok: "a \<noteq> [] \<Longrightarrow> n \<noteq> [] \<Longrightarrow> t \<noteq> [] \<Longrightarrow> \<exists>l'. ensureAccount now a n c t l = Inr l'"
  by (simp add: ensureAccount_def createAccount_def)

lemma ensureWalletAccounts_money:
  assumes "ensureWalletAccounts now st t w = Inr st'"
  shows "same_money (es_ledger st) (es_ledger st')" "es_operations st' = es_operations st" "es_currency st' = es_currency st"
  using assms by (auto simp: ensureWalletAccounts_def andThen_Inr_iff intro: same_money_trans dest!: ensureAccount_money)

lemma ensureWalletAccounts_ok:
  "trim t \<noteq> [] \<Longrightarrow> trim w \<noteq> [] \<Longrightarrow> \<exists>st'. ensureWalletAccounts now st t w = Inr st'"
  using ensureAccount_ok[of "available_id t w" "''Wallet '' @ w @ '' Available''" "''asset''" now "es_currency st" "es_ledger st"]
    ensureAccount_ok[of "escrow_id t w" "''Wallet '' @ w @ '' Escrow Locked''" "''liability''" now "es_currency st"]
  by (fastforce simp: ensureWalletAccounts_def andThen_Inr_iff account_id_Inr_iff)

section \<open>Inputs\<close>

definition wf_input :: "escrow_input \<Rightarrow> bool" where
  "wf_input i \<longleftrightarrow> 0 < ei_amountCents i \<and> is_safe (ei_amountCents i)
     \<and> trim (ei_operationId i) \<noteq> [] \<and> trim (ei_tenantId i) \<noteq> [] \<and> trim (ei_payerWalletId i) \<noteq> []
     \<and> (ei_type i = RELEASE \<longleftrightarrow> ei_payeeWalletId i \<noteq> None)
     \<and> (\<forall>w. ei_payeeWalletId i = Some w \<longrightarrow> trim w \<noteq> [])"

lemma normalizeAmountCents_Inr_iff [res_simps]:
  "normalizeAmountCents v name z = Inr n \<longleftrightarrow> safe_int (js_Number v) = Some n \<and> (if z then 0 \<le> n else 0 < n)"
  by (auto simp: normalizeAmountCents_def split: option.splits)

lemma normalizeOperationInput_wf: "normalizeOperationInput now c input = Inr i \<Longrightarrow> wf_input i"
  by (auto simp: normalizeOperationInput_def Let_def res_simps wf_input_def dest: safe_int_Some)

lemma buildPostings_ok:
  assumes "wf_input i"
  shows "\<exists>src dst. buildPostingsForOperation i = Inr (move_plan src dst (ei_amountCents i)) \<and> src \<noteq> dst \<and> src \<noteq> [] \<and> dst \<noteq> []
    \<and> src \<in> tenant_accounts (ei_tenantId i) \<and> dst \<in> tenant_accounts (ei_tenantId i)"
proof -
  have ids: "walletAvailableAccountId (ei_tenantId i) (ei_payerWalletId i) = Inr (available_id (ei_tenantId i) (ei_payerWalletId i))"
    "walletEscrowAccountId (ei_tenantId i) (ei_payerWalletId i) = Inr (escrow_id (ei_tenantId i) (ei_payerWalletId i))"
    "\<And>w. ei_payeeWalletId i = Some w \<Longrightarrow> walletAvailableAccountId (ei_tenantId i) w = Inr (available_id (ei_tenantId i) w)"
    using assms by (auto simp: account_id_Inr_iff wf_input_def)
  show ?thesis
  proof (cases "ei_type i")
    case RELEASE
    then obtain w where "ei_payeeWalletId i = Some w" using assms by (auto simp: wf_input_def)
    then show ?thesis using RELEASE ids by (simp add: buildPostingsForOperation_def) (metis account_ids_differ tenant_accounts_intro)
  qed (use ids in \<open>simp_all add: buildPostingsForOperation_def\<close>, (metis account_ids_differ tenant_accounts_intro)+)
qed

lemma createJournalEntry_move:
  assumes "is_safe n" "n \<noteq> 0" "src \<noteq> []" "dst \<noteq> []"
  shows "createJournalEntry i t memo (plan_postings (move_plan src dst n)) =
    Inr \<lparr>entry_id = i, entry_at = t, entry_memo = memo,
      entry_postings = [\<lparr>accountId = src, amountCents = - n\<rparr>, \<lparr>accountId = dst, amountCents = n\<rparr>]\<rparr>"
proof -
  have "is_safe (- n)" using assms(1) by (simp add: is_safe_def)
  then show ?thesis using assms foldRes_checkPosting_ok[of "[(src, - n), (dst, n)]" 0 "[]"]
    by (simp add: createJournalEntry_def move_plan_def add_int_safe)
qed

section \<open>Request fingerprints\<close>

lemma store_key_obj:
  "operationStoreKey t o' = canonicalJsonStringify (JObj [(''tenantId'', JStr t), (''operationId'', JStr o')])"
  by (simp add: operationStoreKey_def build_obj_def drop_undef_def assign_props_def set_prop_def put_prop_def array_index_def is_digit_def)

definition request_obj :: "escrow_input \<Rightarrow> jsval" where
  "request_obj i = JObj
       [(''operationId'', JStr (ei_operationId i)), (''tenantId'', JStr (ei_tenantId i)),
        (''payerWalletId'', JStr (ei_payerWalletId i)), (''payeeWalletId'', js_opt (ei_payeeWalletId i)),
        (''type'', JStr (escrow_type_str (ei_type i))), (''amountCents'', JInt (ei_amountCents i)),
        (''currency'', JStr (ei_currency i))]"

lemma request_hash_obj: "operationRequestHash i = canonicalJsonStringify (request_obj i)"
  by (cases "ei_payeeWalletId i")
     (simp_all add: operationRequestHash_def request_obj_def js_opt_def build_obj_def drop_undef_def assign_props_def
       set_prop_def put_prop_def array_index_def is_digit_def)

lemma canonical_flat_ok:
  "\<forall>p \<in> set ps. \<exists>s. snd p = JStr s \<or> snd p = JNull \<or> (\<exists>n. snd p = JInt n) \<Longrightarrow> \<exists>s. canonicalJsonStringify (JObj ps) = Inr s"
proof -
  assume a: "\<forall>p \<in> set ps. \<exists>s. snd p = JStr s \<or> snd p = JNull \<or> (\<exists>n. snd p = JInt n)"
  then have "mapRes (\<lambda>p. andThen (canonicalize (snd p)) (\<lambda>w. Inr (fst p, w))) (sorted_props ps) = Inr (sorted_props ps)"
    using mapRes_pure[of "sorted_props ps" "\<lambda>p. andThen (canonicalize (snd p)) (\<lambda>w. Inr (fst p, w))" "\<lambda>p. p"]
    by fastforce
  then show ?thesis by (simp add: canonicalJsonStringify_def)
qed

lemma store_key_ok: "\<exists>k. operationStoreKey t o' = Inr k"
  unfolding store_key_obj by (rule canonical_flat_ok) simp

lemma request_hash_ok: "\<exists>h. operationRequestHash i = Inr h"
  unfolding request_hash_obj request_obj_def by (rule canonical_flat_ok) (auto simp: js_opt_def split: option.splits)

lemma store_key_inject:
  assumes "operationStoreKey t o' = Inr k" and "operationStoreKey t' o'' = Inr k"
  shows "t = t' \<and> o' = o''"
proof -
  let ?o = "\<lambda>t o'. JObj [(''tenantId'', JStr t), (''operationId'', JStr o')]"
  have "json_equiv (?o t o') (?o t' o'')"
    using canonical_text_iff[of "?o t o'" "?o t' o''" k] assms by (simp add: store_key_obj)
  then have "json_equiv (getp (?o t o') p) (getp (?o t' o'') p)" for p by (rule json_equiv_getp)
  from this[of "''tenantId''"] this[of "''operationId''"] show ?thesis by (simp add: json_equiv_atom)
qed

lemma request_hash_inject:
  assumes "operationRequestHash i = Inr h" and "operationRequestHash j = Inr h"
    and "is_safe (ei_amountCents i)" and "is_safe (ei_amountCents j)"
  shows "ei_payerWalletId i = ei_payerWalletId j \<and> ei_payeeWalletId i = ei_payeeWalletId j
    \<and> ei_type i = ei_type j \<and> ei_amountCents i = ei_amountCents j"
proof -
  have "hashable (request_obj x)" if "is_safe (ei_amountCents x)" for x
    using that by (auto simp: request_obj_def js_opt_def split: option.splits)
  then have "json_equiv (request_obj i) (request_obj j)"
    using canonical_text_iff[of "request_obj i" "request_obj j" h] assms by (simp add: request_hash_obj)
  then have eq: "json_equiv (getp (request_obj i) p) (getp (request_obj j) p)" for p
    unfolding request_obj_def by (rule json_equiv_getp)
  have "ei_payerWalletId i = ei_payerWalletId j" using eq[of "''payerWalletId''"] by (simp add: request_obj_def json_equiv_atom)
  moreover have "ei_payeeWalletId i = ei_payeeWalletId j" using eq[of "''payeeWalletId''"]
    by (auto simp: request_obj_def js_opt_def json_equiv_atom split: option.splits)
  moreover have "escrow_type_str (ei_type i) = escrow_type_str (ei_type j)" using eq[of "''type''"]
    by (simp add: request_obj_def json_equiv_atom)
  then have "ei_type i = ei_type j" by (cases "ei_type i"; cases "ei_type j") simp_all
  moreover have "ei_amountCents i = ei_amountCents j" using eq[of "''amountCents''"]
    by (auto simp: request_obj_def json_equiv_num num_of_int_def)
  ultimately show ?thesis by simp
qed

section \<open>One operation\<close>

abbreviation moved :: "string \<Rightarrow> string \<Rightarrow> int \<Rightarrow> (string \<rightharpoonup> int) \<Rightarrow> string \<rightharpoonup> int" where
  "moved src dst n \<equiv> fold applyPosting [\<lparr>accountId = src, amountCents = - n\<rparr>, \<lparr>accountId = dst, amountCents = n\<rparr>]"

lemma move_facts:
  assumes "solvent m" and "0 < n" and "n \<le> balance_of m src" and "src \<noteq> dst"
  shows "balance_of (moved src dst n m) a = balance_of m a + (if a = dst then n else 0) - (if a = src then n else 0)"
    and "solvent (moved src dst n m)" and "total_balance (moved src dst n m) = total_balance m"
proof -
  let ?ps = "[\<lparr>accountId = src, amountCents = - n\<rparr>, \<lparr>accountId = dst, amountCents = n\<rparr>]"
  have le: "balance_of m src + balance_of m dst \<le> MAX_SAFE_INTEGER" and nn: "\<And>a. 0 \<le> balance_of m a"
    using two_balances_le_total[OF assms(1,4)] assms(1) by (auto simp: solvent_def)
  have "is_safe (balance_of m src - n)" "is_safe (balance_of m dst + n)"
    using le nn[of src] nn[of dst] assms(2,3) by (simp_all add: is_safe_def)
  then have rng: "in_range m ?ps" using assms(4) by (simp add: applyPosting_def)
  have bal: "balance_of (moved src dst n m) a = balance_of m a + (if a = dst then n else 0) - (if a = src then n else 0)" for a
    using js_ledger.post_bal[OF rng, of a] assms(4) by (simp add: posted_to_def)
  then show "balance_of (moved src dst n m) a = balance_of m a + (if a = dst then n else 0) - (if a = src then n else 0)" .
  have dom: "dom (moved src dst n m) = insert dst (insert src (dom m))" by (simp add: applyPosting_def)
  have fin: "finite (dom m)" using assms(1) by (simp add: solvent_def)
  let ?A = "insert dst (insert src (dom m))"
  have "total_balance (moved src dst n m) = (\<Sum>a \<in> ?A. balance_of (moved src dst n m) a)"
    by (simp only: total_balance_def dom)
  also have "\<dots> = (\<Sum>a \<in> ?A. balance_of m a)"
    using js_ledger.post_total[of ?A ?ps m] rng fin by (simp add: js_ledger.total_def)
  also have "\<dots> = total_balance m" using fin by (intro total_superset[symmetric]) auto
  finally show tot: "total_balance (moved src dst n m) = total_balance m" .
  have "0 \<le> balance_of (moved src dst n m) a" for a
    unfolding bal using nn[of a] assms(2-4) by auto
  then show "solvent (moved src dst n m)" using tot fin assms(1) dom by (simp add: solvent_def)
qed

lemma performOperation_Inr:
  assumes "wf_input i" and "performOperation st i h k = Inr (st', op)"
  shows "\<exists>src dst. buildPostingsForOperation i = Inr (move_plan src dst (ei_amountCents i)) \<and> src \<noteq> dst
    \<and> src \<in> tenant_accounts (ei_tenantId i) \<and> dst \<in> tenant_accounts (ei_tenantId i)
    \<and> ei_amountCents i \<le> balance_of (es_balances st) src
    \<and> es_balances st' = moved src dst (ei_amountCents i) (es_balances st)
    \<and> es_operations st' = (es_operations st)(k \<mapsto> (h, op)) \<and> es_currency st' = es_currency st
    \<and> eo_fromAccountId op = src \<and> eo_toAccountId op = dst \<and> eo_amountCents op = ei_amountCents i
    \<and> eo_balancesAfter op = [(src, balance_of (es_balances st') src), (dst, balance_of (es_balances st') dst)]"
proof -
  obtain src dst where b: "buildPostingsForOperation i = Inr (move_plan src dst (ei_amountCents i))" "src \<noteq> dst" "src \<noteq> []" "dst \<noteq> []"
      "src \<in> tenant_accounts (ei_tenantId i)" "dst \<in> tenant_accounts (ei_tenantId i)"
    using buildPostings_ok[OF assms(1)] by blast
  have n: "is_safe (ei_amountCents i)" "ei_amountCents i \<noteq> 0" using assms(1) by (auto simp: wf_input_def)
  have ft: "fromAccountId (move_plan src dst n) = src" "toAccountId (move_plan src dst n) = dst" for n
    by (simp_all add: move_plan_def)
  show ?thesis
    using assms(2) b
    by (auto simp: performOperation_def Let_def andThen_Inr_iff createJournalEntry_move[OF n b(3,4)] ft getBalance_def
        ensureSufficientBalance_def applyJournalEntry_def split: if_splits)
qed

text \<open>Every outcome of \<^verbatim>\<open>applyEscrowOperation\<close>: a rejection that moved no money, a replay, or a
  performed operation.\<close>

lemma applyEscrowOperation_cases [consumes 1, case_names rejected replayed performed]:
  assumes "applyEscrowOperation now st input = (st', r)"
  obtains e where "r = Inl e" "same_money (es_ledger st) (es_ledger st')" "es_operations st' = es_operations st"
      "es_currency st' = es_currency st"
  | i h k op where "normalizeOperationInput now (es_currency st) input = Inr i" "operationRequestHash i = Inr h"
      "operationStoreKey (ei_tenantId i) (ei_operationId i) = Inr k" "es_operations st k = Some (h, op)"
      "r = Inr (op, False)" "st' = st"
  | i h k st2 op where "normalizeOperationInput now (es_currency st) input = Inr i" "operationRequestHash i = Inr h"
      "operationStoreKey (ei_tenantId i) (ei_operationId i) = Inr k" "es_operations st k = None"
      "same_money (es_ledger st) (es_ledger st2)" "es_operations st2 = es_operations st" "es_currency st2 = es_currency st"
      "performOperation st2 i h k = Inr (st', op)" "r = Inr (op, True)"
proof -
  show thesis
  proof (cases "normalizeOperationInput now (es_currency st) input")
    case (Inl e)
    then show thesis using assms that(1)[of e] by (auto simp: applyEscrowOperation_def)
  next
    case (Inr i)
    obtain h k where hk: "operationRequestHash i = Inr h" "operationStoreKey (ei_tenantId i) (ei_operationId i) = Inr k"
      using request_hash_ok store_key_ok by metis
    show thesis
    proof (cases "es_operations st k")
      case (Some x)
      then show thesis using assms Inr hk that(1)[of "conflictError ''ESCROW_OPERATION_CONFLICT'' ''operationId was already used with a different request''"]
          that(2)[OF Inr hk, of "snd x"]
        by (cases x) (auto simp: applyEscrowOperation_def split: if_splits)
    next
      case None
      have wf: "wf_input i" using normalizeOperationInput_wf[OF Inr] .
      then obtain st1 where st1: "ensureWalletAccounts now st (ei_tenantId i) (ei_payerWalletId i) = Inr st1"
        using ensureWalletAccounts_ok[of "ei_tenantId i" "ei_payerWalletId i" now st] by (auto simp: wf_input_def)
      obtain st2 where st2: "(case ei_payeeWalletId i of None \<Rightarrow> Inr st1
          | Some w \<Rightarrow> ensureWalletAccounts now st1 (ei_tenantId i) w) = Inr st2"
        using ensureWalletAccounts_ok[of "ei_tenantId i" "the (ei_payeeWalletId i)" now st1] wf
        by (cases "ei_payeeWalletId i") (auto simp: wf_input_def)
      have m: "same_money (es_ledger st) (es_ledger st2)" "es_operations st2 = es_operations st" "es_currency st2 = es_currency st"
        using ensureWalletAccounts_money[OF st1] st2 ensureWalletAccounts_money[of now st1 "ei_tenantId i" _ st2]
        by (auto split: option.splits intro: same_money_trans)
      show thesis
      proof (cases "performOperation st2 i h k")
        case (Inl e)
        then show thesis using assms Inr hk None st1 st2 m that(1)[of e] by (simp add: applyEscrowOperation_def)
      next
        case P: (Inr x)
        then show thesis using assms Inr hk None st1 st2 that(3)[OF Inr hk None m, of "snd x"]
          by (cases x) (simp add: applyEscrowOperation_def)
      qed
    qed
  qed
qed

text \<open>C4: Solvency and conservation. In an escrow ledger with no overdrawn account and a total that is a
  safe integer, every call of \<^verbatim>\<open>applyEscrowOperation\<close>, whatever its input and whether it
  succeeds or throws, leaves no account overdrawn and the total unchanged.\<close>

theorem escrow_conserves:
  assumes "solvent (es_balances st)" and "applyEscrowOperation now st input = (st', r)"
  shows "solvent (es_balances st') \<and> total_balance (es_balances st') = total_balance (es_balances st)"
  using assms(2)
proof (cases rule: applyEscrowOperation_cases)
  case (rejected e)
  then show ?thesis using assms(1) same_money_solvent by (auto simp: same_money_def solvent_def)
next
  case (replayed i h k op)
  then show ?thesis using assms(1) by simp
next
  case (performed i h k st2 op)
  have wf: "wf_input i" using normalizeOperationInput_wf performed(1) .
  obtain src dst where mv: "src \<noteq> dst" "ei_amountCents i \<le> balance_of (es_balances st2) src"
      "es_balances st' = moved src dst (ei_amountCents i) (es_balances st2)"
    using performOperation_Inr[OF wf performed(8)] by blast
  have "solvent (es_balances st2)" using same_money_solvent[OF performed(5) assms(1)] .
  then show ?thesis using mv wf move_facts[of "es_balances st2"] performed(5) assms(1)
    by (simp add: wf_input_def same_money_def solvent_def)
qed

text \<open>Effect of a performed operation. The result reports accounts \<^verbatim>\<open>fromAccountId\<close> and
  \<^verbatim>\<open>toAccountId\<close>, distinct, and the positive amount; exactly that amount is taken from the one
  and added to the other, every other account keeps its balance, and \<^verbatim>\<open>balancesAfter\<close> reports
  the two new balances.\<close>

theorem escrow_performed_effect:
  assumes "solvent (es_balances st)" and "applyEscrowOperation now st input = (st', Inr (op, True))"
  shows "eo_fromAccountId op \<noteq> eo_toAccountId op \<and> 0 < eo_amountCents op
    \<and> (\<forall>a. getBalance (es_ledger st') a = getBalance (es_ledger st) a
          + (if a = eo_toAccountId op then eo_amountCents op else 0)
          - (if a = eo_fromAccountId op then eo_amountCents op else 0))
    \<and> eo_balancesAfter op = [(eo_fromAccountId op, getBalance (es_ledger st') (eo_fromAccountId op)),
        (eo_toAccountId op, getBalance (es_ledger st') (eo_toAccountId op))]"
  using assms(2)
proof (cases rule: applyEscrowOperation_cases)
  case (performed i h k st2 op')
  have wf: "wf_input i" using normalizeOperationInput_wf performed(1) .
  have op: "op' = op" using performed(9) by simp
  obtain src dst where mv: "src \<noteq> dst" "ei_amountCents i \<le> balance_of (es_balances st2) src"
      "es_balances st' = moved src dst (ei_amountCents i) (es_balances st2)"
      "eo_fromAccountId op = src" "eo_toAccountId op = dst" "eo_amountCents op = ei_amountCents i"
      "eo_balancesAfter op = [(src, balance_of (es_balances st') src), (dst, balance_of (es_balances st') dst)]"
    using performOperation_Inr[OF wf performed(8)] op by blast
  have "solvent (es_balances st2)" using same_money_solvent[OF performed(5) assms(1)] .
  moreover have "balance_of (es_balances st2) = balance_of (es_balances st)" using performed(5) by (simp add: same_money_def)
  ultimately show ?thesis using mv wf move_facts(1)[of "es_balances st2" "ei_amountCents i" src dst]
    by (simp add: wf_input_def getBalance_def)
qed auto

text \<open>C38: A call that throws, and a replay, change no balance, no entry of the journal and no recorded
  operation.\<close>

theorem escrow_rejection_no_effect:
  assumes "applyEscrowOperation now st input = (st', r)" and "\<not> (\<exists>op. r = Inr (op, True))"
  shows "getBalance (es_ledger st') = getBalance (es_ledger st)
    \<and> entries (es_ledger st') = entries (es_ledger st) \<and> entryIds (es_ledger st') = entryIds (es_ledger st)
    \<and> es_operations st' = es_operations st"
  using assms(1)
proof (cases rule: applyEscrowOperation_cases)
  case (rejected e)
  then show ?thesis by (auto simp: same_money_def getBalance_def fun_eq_iff)
qed (use assms(2) in auto)

text \<open>A run of operations, each with the time of its call.\<close>

definition applyOperations :: "escrow_state \<Rightarrow> (string \<times> jsval) list \<Rightarrow> escrow_state" where
  "applyOperations = foldl (\<lambda>st (now, input). fst (applyEscrowOperation now st input))"

lemma operations_persist:
  assumes "es_operations st k = Some x"
  shows "es_operations (applyOperations st ops) k = Some x \<and> es_currency (applyOperations st ops) = es_currency st"
  using assms unfolding applyOperations_def
proof (induction ops arbitrary: st)
  case (Cons p ops)
  obtain now input where p: "p = (now, input)" by (cases p)
  obtain st' r where ap: "applyEscrowOperation now st input = (st', r)" by fastforce
  then have "es_operations st' k = Some x \<and> es_currency st' = es_currency st"
  proof (cases rule: applyEscrowOperation_cases)
    case (performed i h k' st2 op)
    then show ?thesis using Cons.prems performOperation_Inr[OF normalizeOperationInput_wf[OF performed(1)] performed(8)] by auto
  qed (use Cons.prems in auto)
  then show ?case using Cons.IH[of st'] p ap by simp
qed simp

lemma performed_recorded:
  assumes "applyEscrowOperation now st input = (st', Inr (op, True))"
  shows "\<exists>i h k. normalizeOperationInput now (es_currency st) input = Inr i \<and> operationRequestHash i = Inr h
    \<and> operationStoreKey (ei_tenantId i) (ei_operationId i) = Inr k \<and> es_operations st' k = Some (h, op)
    \<and> es_currency st' = es_currency st"
  using assms
proof (cases rule: applyEscrowOperation_cases)
  case (performed i h k st2 op')
  then show ?thesis using performOperation_Inr[OF normalizeOperationInput_wf[OF performed(1)] performed(8)] by auto
qed auto

lemma normalizeOperationInput_now:
  assumes "normalizeOperationInput now c input = Inr i" and "trim now' \<noteq> []" and "date_parse now' \<noteq> None"
  shows "\<exists>t. normalizeOperationInput now' c input = Inr (i\<lparr>ei_at := t\<rparr>)"
proof (cases "nullish (getp input ''at'')")
  case True
  then show ?thesis using assms
    by (auto simp: normalizeOperationInput_def Let_def andThen_Inr_iff checks_Inr_iff orElse_def normalizeIsoDate_def
        assertNonEmptyString_def split: if_splits)
next
  case False
  then show ?thesis using assms
    by (auto simp: normalizeOperationInput_def Let_def andThen_Inr_iff checks_Inr_iff orElse_def split: if_splits)
qed

text \<open>C22: Operations are idempotent. After an operation was performed, and whatever operations came in
  between, submitting the same input again at any later time returns the recorded operation with
  \<^verbatim>\<open>applied: false\<close> and leaves the state as it is.\<close>

theorem escrow_replay_idempotent:
  assumes "applyEscrowOperation now st input = (st1, Inr (op, True))"
    and "trim now' \<noteq> []" and "date_parse now' \<noteq> None"
  shows "applyEscrowOperation now' (applyOperations st1 ops) input = (applyOperations st1 ops, Inr (op, False))"
proof -
  obtain i h k where rec: "normalizeOperationInput now (es_currency st) input = Inr i" "operationRequestHash i = Inr h"
    "operationStoreKey (ei_tenantId i) (ei_operationId i) = Inr k" "es_operations st1 k = Some (h, op)"
    "es_currency st1 = es_currency st"
    using performed_recorded[OF assms(1)] by blast
  obtain t where "normalizeOperationInput now' (es_currency st) input = Inr (i\<lparr>ei_at := t\<rparr>)"
    using normalizeOperationInput_now[OF rec(1) assms(2,3)] by blast
  moreover have "operationRequestHash (i\<lparr>ei_at := t\<rparr>) = Inr h" using rec(2) by (simp add: operationRequestHash_def)
  ultimately show ?thesis using rec operations_persist[OF rec(4)] by (simp add: applyEscrowOperation_def)
qed

text \<open>An operation id cannot be reused for another request of the same tenant: after an operation was
  performed, a later input with the same tenant and operation id but another wallet, type or
  amount is refused with \<^verbatim>\<open>ESCROW_OPERATION_CONFLICT\<close> and leaves the state as it is.\<close>

theorem escrow_conflict_refused:
  assumes "applyEscrowOperation now st input = (st1, Inr (op, True))"
    and "normalizeOperationInput now (es_currency st) input = Inr i"
    and "normalizeOperationInput now' (es_currency st) input' = Inr j"
    and "ei_tenantId j = ei_tenantId i" and "ei_operationId j = ei_operationId i"
    and "(ei_payerWalletId j, ei_payeeWalletId j, ei_type j, ei_amountCents j)
       \<noteq> (ei_payerWalletId i, ei_payeeWalletId i, ei_type i, ei_amountCents i)"
  shows "applyEscrowOperation now' (applyOperations st1 ops) input' = (applyOperations st1 ops,
    Inl (CodedError ''ESCROW_OPERATION_CONFLICT'' ''operationId was already used with a different request''))"
proof -
  obtain h k where rec: "operationRequestHash i = Inr h"
    "operationStoreKey (ei_tenantId i) (ei_operationId i) = Inr k" "es_operations st1 k = Some (h, op)"
    "es_currency st1 = es_currency st"
    using performed_recorded[OF assms(1)] assms(2) by auto
  obtain h' where h': "operationRequestHash j = Inr h'" using request_hash_ok by blast
  have "is_safe (ei_amountCents i)" "is_safe (ei_amountCents j)"
    using normalizeOperationInput_wf[OF assms(2)] normalizeOperationInput_wf[OF assms(3)] by (simp_all add: wf_input_def)
  then have "h \<noteq> h'" using request_hash_inject[OF rec(1)] h' assms(6) by auto
  then show ?thesis using rec operations_persist[OF rec(3)] h' assms(3-5)
    by (simp add: applyEscrowOperation_def conflictError_def)
qed

text \<open>Tenant isolation. While tenant ids contain no colon, an operation of one tenant leaves every
  wallet account of every other tenant at its balance.\<close>

theorem escrow_tenant_isolation:
  assumes "solvent (es_balances st)" and "applyEscrowOperation now st input = (st', r)"
    and "normalizeOperationInput now (es_currency st) input = Inr i"
    and "CHR '':'' \<notin> set (ei_tenantId i)" and "CHR '':'' \<notin> set t" and "t \<noteq> ei_tenantId i"
    and "a \<in> tenant_accounts t"
  shows "getBalance (es_ledger st') a = getBalance (es_ledger st) a"
  using assms(2)
proof (cases rule: applyEscrowOperation_cases)
  case (performed j h k st2 op)
  have j: "j = i" using performed(1) assms(3) by simp
  have wf: "wf_input i" using normalizeOperationInput_wf assms(3) .
  obtain src dst where mv: "src \<noteq> dst" "ei_amountCents i \<le> balance_of (es_balances st2) src"
      "es_balances st' = moved src dst (ei_amountCents i) (es_balances st2)"
      "src \<in> tenant_accounts (ei_tenantId i)" "dst \<in> tenant_accounts (ei_tenantId i)"
    using performOperation_Inr[OF wf performed(8)[unfolded j]] by blast
  have "a \<noteq> src" "a \<noteq> dst"
    using tenant_accounts_disjoint[OF assms(5,4,6,7)] mv by auto
  moreover have "solvent (es_balances st2)" using same_money_solvent[OF performed(5) assms(1)] .
  moreover have "balance_of (es_balances st2) a = balance_of (es_balances st) a" using performed(5) by (simp add: same_money_def)
  ultimately show ?thesis using mv wf move_facts(1)[of "es_balances st2" "ei_amountCents i" src dst a]
    by (simp add: getBalance_def wf_input_def)
qed (auto simp: same_money_def getBalance_def)

text \<open>Concrete states and inputs for the witnesses.\<close>

definition sample_escrow :: escrow_state where
  "sample_escrow = \<lparr>es_currency = ''USD'',
     es_ledger = createLedger\<lparr>balances := [''wallet:t1:w1:available'' \<mapsto> 100]\<rparr>, es_operations = Map.empty\<rparr>"

definition hold_input :: "string \<Rightarrow> string \<Rightarrow> int \<Rightarrow> jsval" where
  "hold_input t w n = JObj [(''operationId'', JStr ''op1''), (''tenantId'', JStr t), (''payerWalletId'', JStr w),
     (''type'', JStr ''hold''), (''amountCents'', JInt n)]"

definition sample_now :: string where
  "sample_now = ''2024-01-01T00:00:00.000Z''"

lemma sample_solvent: "solvent (es_balances sample_escrow)"
  by (auto simp: sample_escrow_def createLedger_def solvent_def total_balance_def balance_of_def MAX_SAFE_INTEGER_def)

lemma sample_applied:
  obtains st1 op where "applyEscrowOperation sample_now sample_escrow (hold_input ''t1'' ''w1'' 60) = (st1, Inr (op, True))"
    "eo_amountCents op = 60"
proof -
  have "case applyEscrowOperation sample_now sample_escrow (hold_input ''t1'' ''w1'' 60) of
      (_, Inr (op, b)) \<Rightarrow> b \<and> eo_amountCents op = 60 | _ \<Rightarrow> False" by code_simp
  then show thesis using that
    by (cases "applyEscrowOperation sample_now sample_escrow (hold_input ''t1'' ''w1'' 60)") (auto split: sum.splits prod.splits)
qed

theorem escrow_conserves_witness:
  "solvent (es_balances (fst (applyEscrowOperation sample_now sample_escrow (hold_input ''t1'' ''w1'' 60))))
   \<and> total_balance (es_balances (fst (applyEscrowOperation sample_now sample_escrow (hold_input ''t1'' ''w1'' 60))))
     = total_balance (es_balances sample_escrow)"
  by (rule escrow_conserves[OF sample_solvent, of sample_now "hold_input ''t1'' ''w1'' 60"]) (rule surjective_pairing)

theorem escrow_performed_effect_witness:
  "\<exists>st1 op. applyEscrowOperation sample_now sample_escrow (hold_input ''t1'' ''w1'' 60) = (st1, Inr (op, True))
     \<and> getBalance (es_ledger st1) (eo_fromAccountId op) = getBalance (es_ledger sample_escrow) (eo_fromAccountId op) - 60"
proof -
  obtain st1 op where ap: "applyEscrowOperation sample_now sample_escrow (hold_input ''t1'' ''w1'' 60) = (st1, Inr (op, True))"
    and n: "eo_amountCents op = 60" by (rule sample_applied)
  show ?thesis using escrow_performed_effect[OF sample_solvent ap] ap n by auto
qed

theorem escrow_rejection_no_effect_witness:
  "getBalance (es_ledger (fst (applyEscrowOperation sample_now sample_escrow (hold_input ''t1'' ''w1'' 101))))
   = getBalance (es_ledger sample_escrow)"
proof -
  have "isl (snd (applyEscrowOperation sample_now sample_escrow (hold_input ''t1'' ''w1'' 101)))" by code_simp
  then show ?thesis
    using escrow_rejection_no_effect[of sample_now sample_escrow "hold_input ''t1'' ''w1'' 101", OF surjective_pairing]
    by (metis sum.disc(2))
qed

theorem escrow_replay_idempotent_witness:
  "\<exists>st1 op. applyEscrowOperation sample_now (applyOperations st1 [(sample_now, hold_input ''t1'' ''w1'' 5)]) (hold_input ''t1'' ''w1'' 60)
     = (applyOperations st1 [(sample_now, hold_input ''t1'' ''w1'' 5)], Inr (op, False))"
proof -
  obtain st1 op where ap: "applyEscrowOperation sample_now sample_escrow (hold_input ''t1'' ''w1'' 60) = (st1, Inr (op, True))"
    by (rule sample_applied)
  have "trim sample_now \<noteq> []" "date_parse sample_now \<noteq> None" by code_simp+
  then show ?thesis using escrow_replay_idempotent[OF ap] by blast
qed

theorem escrow_conflict_refused_witness:
  "\<exists>st1. applyEscrowOperation sample_now (applyOperations st1 []) (hold_input ''t1'' ''w1'' 61) = (applyOperations st1 [],
    Inl (CodedError ''ESCROW_OPERATION_CONFLICT'' ''operationId was already used with a different request''))"
proof -
  obtain st1 op where ap: "applyEscrowOperation sample_now sample_escrow (hold_input ''t1'' ''w1'' 60) = (st1, Inr (op, True))"
    by (rule sample_applied)
  let ?i = "\<lambda>n. \<lparr>ei_operationId = ''op1'', ei_tenantId = ''t1'', ei_payerWalletId = ''w1'', ei_payeeWalletId = None,
    ei_type = HOLD, ei_amountCents = n, ei_at = sample_now, ei_memo = None, ei_currency = ''USD''\<rparr>"
  have "normalizeOperationInput sample_now (es_currency sample_escrow) (hold_input ''t1'' ''w1'' 60) = Inr (?i 60)"
    "normalizeOperationInput sample_now (es_currency sample_escrow) (hold_input ''t1'' ''w1'' 61) = Inr (?i 61)" by code_simp+
  then show ?thesis using escrow_conflict_refused[OF ap, of "?i 60" sample_now _ "?i 61" "[]"] by auto
qed

theorem escrow_tenant_isolation_witness:
  "getBalance (es_ledger (fst (applyEscrowOperation sample_now sample_escrow (hold_input ''t2'' ''w1'' 60)))) ''wallet:t1:w1:available''
   = getBalance (es_ledger sample_escrow) ''wallet:t1:w1:available''"
proof -
  let ?i = "\<lparr>ei_operationId = ''op1'', ei_tenantId = ''t2'', ei_payerWalletId = ''w1'', ei_payeeWalletId = None,
    ei_type = HOLD, ei_amountCents = 60, ei_at = sample_now, ei_memo = None, ei_currency = ''USD''\<rparr>"
  have "normalizeOperationInput sample_now (es_currency sample_escrow) (hold_input ''t2'' ''w1'' 60) = Inr ?i" by code_simp
  moreover have "''wallet:t1:w1:available'' \<in> tenant_accounts ''t1''"
    using tenant_accounts_intro(1)[of "''t1''" "''w1''"] by (simp add: available_id_def)
  ultimately show ?thesis
    using escrow_tenant_isolation[OF sample_solvent surjective_pairing, of sample_now "hold_input ''t2'' ''w1'' 60" ?i "''t1''"]
    by simp
qed

text \<open>Account ids are built by joining tenant and wallet ids with colons, and neither is checked for
  colons, so two tenants can share an account: tenant \<^verbatim>\<open>a\<close> holding the funds of its wallet
  \<^verbatim>\<open>b:c\<close> empties the wallet \<^verbatim>\<open>c\<close> of tenant \<^verbatim>\<open>a:b\<close>.\<close>

theorem escrow_account_ids_collide:
  "case createEscrowLedger sample_now JUndef
       (JArr [JObj [(''tenantId'', JStr ''a:b''), (''walletId'', JStr ''c''), (''availableCents'', JInt 100)]]) of
     Inl _ \<Rightarrow> False
   | Inr st \<Rightarrow>
       getBalance (es_ledger st) (available_id ''a:b'' ''c'') = 100 \<and>
       (case applyEscrowOperation sample_now st (hold_input ''a'' ''b:c'' 100) of
          (st', Inr (op, applied)) \<Rightarrow> applied \<and> eo_tenantId op = ''a'' \<and> getBalance (es_ledger st') (available_id ''a:b'' ''c'') = 0
        | _ \<Rightarrow> False)"
  by code_simp

end
