(* ===== verification/AgentWallets.thy ===== *)
theory AgentWallets
  imports JsAssert
begin

text \<open>
  The wallet half of \<^verbatim>\<open>src/core/agent-wallets.js\<close>: agent wallets with available and
  escrow-locked balances and lifetime totals. A wallet arrives as a dynamic value, is validated
  into a record by \<open>normalizeWalletRecord\<close>, updated, and validated again as the object
  \<open>js_of_wallet\<close> of the updated record, as \<^verbatim>\<open>withWalletUpdate\<close> does. Sums are double sums
  (\<open>add_int\<close>), so that a balance pushed past the safe integers is rejected by the second
  validation and not stored wrapped or rounded. \<open>now\<close> is the default of the \<^verbatim>\<open>at\<close> argument.
\<close>

section \<open>Shared checks of the module\<close>

definition amountError :: "string \<Rightarrow> bool \<Rightarrow> js_error" where
  "amountError name allowZero = TypeError (name @ '' must be >= '' @ (if allowZero then ''0'' else ''1''))"

definition assertAmountCents :: "jsval \<Rightarrow> string \<Rightarrow> bool \<Rightarrow> int res" where
  "assertAmountCents v name allowZero =
     (case safe_int_of v of
        None \<Rightarrow> Inl (TypeError (name @ '' must be a safe integer''))
      | Some n \<Rightarrow> (if n < (if allowZero then 0 else 1) then Inl (amountError name allowZero) else Inr n))"

text \<open>\<^verbatim>\<open>Number(v ?? 0)\<close> checked by \<^verbatim>\<open>assertAmountCents\<close>.\<close>

definition numberAmount :: "jsval \<Rightarrow> string \<Rightarrow> bool \<Rightarrow> int res" where
  "numberAmount v name allowZero = assertAmountCents (JNum (js_Number v)) name allowZero"

definition normalizeWalletCurrency :: "jsval \<Rightarrow> string res" where
  "normalizeWalletCurrency v =
     (let raw = (case v of JStr s \<Rightarrow> (if trim s = [] then ''USD'' else s) | _ \<Rightarrow> ''USD'');
          c = toUpperCase (trim raw)
      in if is_currency_code c then Inr c else Inl (TypeError ''currency must match ^[A-Z][A-Z0-9_]{2,11}$''))"

text \<open>\<^verbatim>\<open>revision ?? 0\<close> must be a number, not merely convertible to one.\<close>

definition normalizeRevision :: "jsval \<Rightarrow> string \<Rightarrow> int res" where
  "normalizeRevision v name =
     (case safe_int_of (orElse v (JInt 0)) of
        None \<Rightarrow> Inl (TypeError (name @ '' must be a non-negative safe integer''))
      | Some n \<Rightarrow> (if n < 0 then Inl (TypeError (name @ '' must be a non-negative safe integer'')) else Inr n))"

section \<open>Wallets\<close>

record agent_wallet =
  aw_walletId :: string
  aw_agentId :: string
  aw_tenantId :: string
  aw_currency :: string
  availableCents :: int
  escrowLockedCents :: int
  totalDebitedCents :: int
  totalCreditedCents :: int
  aw_revision :: int
  aw_createdAt :: string
  aw_updatedAt :: string

definition js_of_wallet :: "agent_wallet \<Rightarrow> jsval" where
  "js_of_wallet w = JObj
     [(''schemaVersion'', JStr ''AgentWallet.v1''),
      (''walletId'', JStr (aw_walletId w)), (''agentId'', JStr (aw_agentId w)),
      (''tenantId'', JStr (aw_tenantId w)), (''currency'', JStr (aw_currency w)),
      (''availableCents'', JInt (availableCents w)), (''escrowLockedCents'', JInt (escrowLockedCents w)),
      (''totalDebitedCents'', JInt (totalDebitedCents w)), (''totalCreditedCents'', JInt (totalCreditedCents w)),
      (''revision'', JInt (aw_revision w)), (''createdAt'', JStr (aw_createdAt w)),
      (''updatedAt'', JStr (aw_updatedAt w))]"

definition normalizeWalletRecord :: "jsval \<Rightarrow> agent_wallet res" where
  "normalizeWalletRecord w =
     andThen (assertPlainObject w ''wallet'') (\<lambda>_.
     andThen (assertNonEmptyString (getp w ''schemaVersion'') ''wallet.schemaVersion'') (\<lambda>v.
     andThen (throwIf (v \<noteq> ''AgentWallet.v1'') (TypeError ''wallet.schemaVersion must be AgentWallet.v1'')) (\<lambda>_.
     andThen (assertNonEmptyString (getp w ''walletId'') ''wallet.walletId'') (\<lambda>walletId.
     andThen (assertNonEmptyString (getp w ''agentId'') ''wallet.agentId'') (\<lambda>agentId.
     andThen (assertNonEmptyString (getp w ''tenantId'') ''wallet.tenantId'') (\<lambda>tenantId.
     andThen (normalizeWalletCurrency (getp w ''currency'')) (\<lambda>currency.
     andThen (numberAmount (orElse (getp w ''availableCents'') (JInt 0)) ''wallet.availableCents'' True) (\<lambda>available.
     andThen (numberAmount (orElse (getp w ''escrowLockedCents'') (JInt 0)) ''wallet.escrowLockedCents'' True) (\<lambda>locked.
     andThen (numberAmount (orElse (getp w ''totalDebitedCents'') (JInt 0)) ''wallet.totalDebitedCents'' True) (\<lambda>debited.
     andThen (numberAmount (orElse (getp w ''totalCreditedCents'') (JInt 0)) ''wallet.totalCreditedCents'' True) (\<lambda>credited.
     andThen (normalizeRevision (getp w ''revision'') ''wallet.revision'') (\<lambda>revision.
     andThen (assertIsoDate (getp w ''createdAt'') ''wallet.createdAt'') (\<lambda>createdAt.
     andThen (assertIsoDate (getp w ''updatedAt'') ''wallet.updatedAt'') (\<lambda>updatedAt.
       Inr \<lparr>aw_walletId = walletId, aw_agentId = agentId, aw_tenantId = tenantId, aw_currency = currency,
            availableCents = available, escrowLockedCents = locked, totalDebitedCents = debited,
            totalCreditedCents = credited, aw_revision = revision, aw_createdAt = createdAt,
            aw_updatedAt = updatedAt\<rparr>))))))))))))))"

definition createAgentWallet :: "string \<Rightarrow> jsval \<Rightarrow> jsval \<Rightarrow> jsval \<Rightarrow> jsval \<Rightarrow> agent_wallet res" where
  "createAgentWallet now tenantId agentId currency atArg =
     andThen (assertNonEmptyString tenantId ''tenantId'') (\<lambda>t.
     andThen (assertNonEmptyString agentId ''agentId'') (\<lambda>a.
     andThen (assertIsoDate (orElse atArg (JStr now)) ''at'') (\<lambda>timestamp.
     andThen (normalizeWalletCurrency (dflt currency (JStr ''USD''))) (\<lambda>c.
       Inr \<lparr>aw_walletId = ''wallet_'' @ a, aw_agentId = a, aw_tenantId = t, aw_currency = c,
            availableCents = 0, escrowLockedCents = 0, totalDebitedCents = 0, totalCreditedCents = 0,
            aw_revision = 0, aw_createdAt = timestamp, aw_updatedAt = timestamp\<rparr>))))"

definition ensureAgentWallet :: "string \<Rightarrow> jsval \<Rightarrow> jsval \<Rightarrow> jsval \<Rightarrow> jsval \<Rightarrow> jsval \<Rightarrow> agent_wallet res" where
  "ensureAgentWallet now wallet tenantId agentId currency atArg =
     (if \<not> truthy wallet then createAgentWallet now tenantId agentId (dflt currency (JStr ''USD'')) atArg
      else andThen (normalizeWalletRecord wallet) (\<lambda>w.
        andThen (throwIf (aw_tenantId w \<noteq> js_String tenantId) (TypeError ''wallet.tenantId must match tenantId'')) (\<lambda>_.
        andThen (throwIf (aw_agentId w \<noteq> js_String agentId) (TypeError ''wallet.agentId must match agentId'')) (\<lambda>_.
        andThen (normalizeWalletCurrency (dflt currency (JStr ''USD''))) (\<lambda>c.
        andThen (throwIf (aw_currency w \<noteq> c) (TypeError ''wallet.currency must match requested currency'')) (\<lambda>_.
          Inr w))))))"

definition withWalletUpdate :: "jsval \<Rightarrow> (agent_wallet \<Rightarrow> agent_wallet res) \<Rightarrow> string \<Rightarrow> agent_wallet res" where
  "withWalletUpdate wallet updater atArg =
     andThen (normalizeWalletRecord wallet) (\<lambda>base.
     andThen (updater base) (\<lambda>next.
       normalizeWalletRecord (js_of_wallet (next\<lparr>aw_revision := add_int (aw_revision base) 1, aw_updatedAt := atArg\<rparr>))))"

text \<open>The updaters of the operations below.\<close>

definition credit_available :: "int \<Rightarrow> agent_wallet \<Rightarrow> agent_wallet res" where
  "credit_available n base =
     Inr (base\<lparr>availableCents := add_int (availableCents base) n,
               totalCreditedCents := add_int (totalCreditedCents base) n\<rparr>)"

definition lock_available :: "int \<Rightarrow> agent_wallet \<Rightarrow> agent_wallet res" where
  "lock_available n base =
     (if availableCents base < n then Inl (CodedError ''INSUFFICIENT_WALLET_BALANCE'' ''insufficient wallet balance'')
      else Inr (base\<lparr>availableCents := add_int (availableCents base) (- n),
                     escrowLockedCents := add_int (escrowLockedCents base) n\<rparr>))"

definition debit_escrow :: "int \<Rightarrow> agent_wallet \<Rightarrow> agent_wallet res" where
  "debit_escrow n base =
     (if escrowLockedCents base < n then Inl (CodedError ''INSUFFICIENT_ESCROW_BALANCE'' ''insufficient escrow balance'')
      else Inr (base\<lparr>escrowLockedCents := add_int (escrowLockedCents base) (- n),
                     totalDebitedCents := add_int (totalDebitedCents base) n\<rparr>))"

definition refund_escrow :: "int \<Rightarrow> agent_wallet \<Rightarrow> agent_wallet res" where
  "refund_escrow n base =
     (if escrowLockedCents base < n then Inl (CodedError ''INSUFFICIENT_ESCROW_BALANCE'' ''insufficient escrow balance'')
      else Inr (base\<lparr>escrowLockedCents := add_int (escrowLockedCents base) (- n),
                     availableCents := add_int (availableCents base) n,
                     totalCreditedCents := add_int (totalCreditedCents base) n\<rparr>))"

definition debit_available :: "int \<Rightarrow> agent_wallet \<Rightarrow> agent_wallet res" where
  "debit_available n base =
     (if availableCents base < n then Inl (CodedError ''INSUFFICIENT_WALLET_BALANCE'' ''insufficient wallet balance'')
      else Inr (base\<lparr>availableCents := add_int (availableCents base) (- n),
                     totalDebitedCents := add_int (totalDebitedCents base) n\<rparr>))"

text \<open>\<^verbatim>\<open>assertIsoDate(at); assertAmountCents(amountCents)\<close>, which open every operation.\<close>

definition operationArgs :: "string \<Rightarrow> jsval \<Rightarrow> jsval \<Rightarrow> (string \<times> int) res" where
  "operationArgs now amountCents atArg =
     andThen (assertIsoDate (dflt atArg (JStr now)) ''at'') (\<lambda>t.
     andThen (assertAmountCents amountCents ''amountCents'' False) (\<lambda>n. Inr (t, n)))"

definition creditAgentWallet :: "string \<Rightarrow> jsval \<Rightarrow> jsval \<Rightarrow> jsval \<Rightarrow> agent_wallet res" where
  "creditAgentWallet now wallet amount atArg =
     andThen (operationArgs now amount atArg) (\<lambda>(t, n). withWalletUpdate wallet (credit_available n) t)"

definition lockAgentWalletEscrow :: "string \<Rightarrow> jsval \<Rightarrow> jsval \<Rightarrow> jsval \<Rightarrow> agent_wallet res" where
  "lockAgentWalletEscrow now wallet amount atArg =
     andThen (operationArgs now amount atArg) (\<lambda>(t, n). withWalletUpdate wallet (lock_available n) t)"

definition releaseAgentWalletEscrowToPayee ::
  "string \<Rightarrow> jsval \<Rightarrow> jsval \<Rightarrow> jsval \<Rightarrow> jsval \<Rightarrow> (agent_wallet \<times> agent_wallet) res" where
  "releaseAgentWalletEscrowToPayee now payerWallet payeeWallet amount atArg =
     andThen (operationArgs now amount atArg) (\<lambda>(t, n).
     andThen (withWalletUpdate payerWallet (debit_escrow n) t) (\<lambda>payer.
     andThen (withWalletUpdate payeeWallet (credit_available n) t) (\<lambda>payee.
       Inr (payer, payee))))"

definition refundAgentWalletEscrow :: "string \<Rightarrow> jsval \<Rightarrow> jsval \<Rightarrow> jsval \<Rightarrow> agent_wallet res" where
  "refundAgentWalletEscrow now wallet amount atArg =
     andThen (operationArgs now amount atArg) (\<lambda>(t, n). withWalletUpdate wallet (refund_escrow n) t)"

definition transferAgentWalletAvailable ::
  "string \<Rightarrow> jsval \<Rightarrow> jsval \<Rightarrow> jsval \<Rightarrow> jsval \<Rightarrow> (agent_wallet \<times> agent_wallet) res" where
  "transferAgentWalletAvailable now fromWallet toWallet amount atArg =
     andThen (operationArgs now amount atArg) (\<lambda>(t, n).
     andThen (normalizeWalletRecord fromWallet) (\<lambda>from.
     andThen (normalizeWalletRecord toWallet) (\<lambda>to.
     andThen (throwIf (aw_currency from \<noteq> aw_currency to) (TypeError ''wallet currencies must match'')) (\<lambda>_.
     andThen (throwIf (aw_tenantId from \<noteq> aw_tenantId to) (TypeError ''wallet tenants must match'')) (\<lambda>_.
     andThen (withWalletUpdate (js_of_wallet from) (debit_available n) t) (\<lambda>debited.
     andThen (withWalletUpdate (js_of_wallet to) (credit_available n) t) (\<lambda>credited.
       Inr (debited, credited))))))))"

section \<open>Settlement requests\<close>

record settlement_request =
  sr_payerAgentId :: string
  sr_amountCents :: int
  sr_currency :: string
  sr_disputeWindowDays :: int

definition nonNegDays :: "jsval \<Rightarrow> string \<Rightarrow> int res" where
  "nonNegDays v name =
     (case safe_int (js_Number v) of
        None \<Rightarrow> Inl (TypeError (name @ '' must be a non-negative safe integer''))
      | Some n \<Rightarrow> (if n < 0 then Inl (TypeError (name @ '' must be a non-negative safe integer'')) else Inr n))"

definition validateAgentRunSettlementRequest :: "jsval \<Rightarrow> settlement_request res" where
  "validateAgentRunSettlementRequest payload =
     andThen (assertPlainObject payload ''settlement'') (\<lambda>_.
     andThen (assertNonEmptyString (getp payload ''payerAgentId'') ''settlement.payerAgentId'') (\<lambda>payer.
     andThen (numberAmount (getp payload ''amountCents'') ''settlement.amountCents'' False) (\<lambda>n.
     andThen (normalizeWalletCurrency (orElse (getp payload ''currency'') (JStr ''USD''))) (\<lambda>c.
     andThen (if nullish (getp payload ''disputeWindowDays'') then Inr 0
              else nonNegDays (getp payload ''disputeWindowDays'') ''settlement.disputeWindowDays'') (\<lambda>d.
       Inr \<lparr>sr_payerAgentId = payer, sr_amountCents = n, sr_currency = c, sr_disputeWindowDays = d\<rparr>)))))"

section \<open>Well-formed wallets\<close>

definition is_cents :: "int \<Rightarrow> bool" where
  "is_cents n \<longleftrightarrow> 0 \<le> n \<and> is_safe n"

definition wf_wallet :: "agent_wallet \<Rightarrow> bool" where
  "wf_wallet w \<longleftrightarrow> trim (aw_walletId w) \<noteq> [] \<and> trim (aw_agentId w) \<noteq> [] \<and> trim (aw_tenantId w) \<noteq> []
     \<and> is_currency_code (aw_currency w)
     \<and> is_cents (availableCents w) \<and> is_cents (escrowLockedCents w)
     \<and> is_cents (totalDebitedCents w) \<and> is_cents (totalCreditedCents w) \<and> is_cents (aw_revision w)
     \<and> is_iso (aw_createdAt w) \<and> is_iso (aw_updatedAt w)"

lemma assertAmountCents_Inr_iff [res_simps]:
  "assertAmountCents v name z = Inr n \<longleftrightarrow> safe_int_of v = Some n \<and> (if z then 0 \<le> n else 0 < n)"
  by (auto simp: assertAmountCents_def split: option.splits)

lemma numberAmount_Inr_iff [res_simps]:
  "numberAmount v name z = Inr n \<longleftrightarrow> safe_int (js_Number v) = Some n \<and> (if z then 0 \<le> n else 0 < n)"
  by (simp add: numberAmount_def assertAmountCents_Inr_iff safe_int_of_def)

lemma normalizeRevision_Inr_iff [res_simps]:
  "normalizeRevision v name = Inr n \<longleftrightarrow> safe_int_of (orElse v (JInt 0)) = Some n \<and> 0 \<le> n"
  by (auto simp: normalizeRevision_def split: option.splits)

text \<open>A currency code is its own normal form.\<close>

lemma normalizeWalletCurrency_code: "is_currency_code c \<Longrightarrow> normalizeWalletCurrency (JStr c) = Inr c"
  using currency_code_norm[of c] by (simp add: normalizeWalletCurrency_def)

lemma normalizeWalletCurrency_Inr: "normalizeWalletCurrency v = Inr c \<Longrightarrow> is_currency_code c"
  by (auto simp: normalizeWalletCurrency_def Let_def split: if_splits)

lemma normalizeWalletRecord_wf: "normalizeWalletRecord v = Inr w \<Longrightarrow> wf_wallet w"
  by (auto simp: normalizeWalletRecord_def res_simps wf_wallet_def is_cents_def
      dest: normalizeWalletCurrency_Inr safe_int_Some safe_int_of_Some)

lemma normalizeWalletRecord_js:
  assumes "is_currency_code (aw_currency w)"
  shows "normalizeWalletRecord (js_of_wallet w) = Inr w' \<longleftrightarrow> wf_wallet w \<and> w' = w" (is "?L \<longleftrightarrow> ?R")
proof
  assume L: ?L
  then have "wf_wallet w'" by (rule normalizeWalletRecord_wf)
  moreover have "w' = w" using L normalizeWalletCurrency_code[OF assms]
    by (auto simp: normalizeWalletRecord_def js_of_wallet_def res_simps split: if_splits)
  ultimately show ?R by simp
next
  assume R: ?R
  have "trim ''AgentWallet.v1'' \<noteq> []" by code_simp
  then show ?L using R
    by (simp add: normalizeWalletRecord_def js_of_wallet_def res_simps wf_wallet_def is_cents_def normalizeWalletCurrency_code)
qed


text \<open>Validation is idempotent: what \<^verbatim>\<open>normalizeWalletRecord\<close> returns is a well-formed wallet (ids
  non-empty, currency code valid, balances, totals and revision non-negative safe integers, dates
  valid), and validating it again returns it unchanged.\<close>

theorem wallet_normalize_roundtrip:
  assumes "normalizeWalletRecord v = Inr w"
  shows "wf_wallet w \<and> normalizeWalletRecord (js_of_wallet w) = Inr w"
  using normalizeWalletRecord_wf[OF assms] by (simp add: normalizeWalletRecord_js wf_wallet_def)

section \<open>The wallet contracts\<close>

lemma withWalletUpdate_wf:
  assumes "wf_wallet w" and "updater w = Inr u" and "aw_currency u = aw_currency w"
  shows "withWalletUpdate (js_of_wallet w) updater t = Inr w' \<longleftrightarrow>
    wf_wallet (u\<lparr>aw_revision := add_int (aw_revision w) 1, aw_updatedAt := t\<rparr>)
    \<and> w' = u\<lparr>aw_revision := add_int (aw_revision w) 1, aw_updatedAt := t\<rparr>"
proof -
  have c: "is_currency_code (aw_currency w)" using assms(1) by (simp add: wf_wallet_def)
  have n: "normalizeWalletRecord (js_of_wallet w) = Inr w" using assms(1) c by (simp add: normalizeWalletRecord_js)
  show ?thesis unfolding withWalletUpdate_def n andThen_simps assms(2)
    using assms(3) c by (simp add: normalizeWalletRecord_js)
qed

lemma withWalletUpdate_fail:
  assumes "wf_wallet w" and "updater w = Inl e"
  shows "withWalletUpdate (js_of_wallet w) updater t = Inl e"
  using assms by (simp add: withWalletUpdate_def normalizeWalletRecord_js[THEN iffD2] wf_wallet_def)

lemma operationArgs_ok:
  assumes "0 < n" and "is_safe n" and "is_iso t"
  shows "operationArgs now (JInt n) (JStr t) = Inr (t, n)"
  using assms by (simp add: operationArgs_def assertAmountCents_def assertIsoDate_Inr_iff[THEN iffD2] dflt_def)

lemma is_cents_add: "is_cents a \<Longrightarrow> 0 \<le> n \<Longrightarrow> is_cents (add_int a n) \<longleftrightarrow> is_safe (a + n)"
  by (auto simp: is_cents_def safe_add_int add_int_safe)

lemma is_cents_sub: "is_cents a \<Longrightarrow> 0 \<le> n \<Longrightarrow> n \<le> a \<Longrightarrow> add_int a (- n) = a - n \<and> is_cents (a - n)"
  by (auto simp: is_cents_def is_safe_def add_int_safe)

lemmas cents_simps = is_cents_add is_cents_sub add_int_safe

text \<open>The lock contract. On a well-formed wallet, locking a positive safe amount fails with
  \<^verbatim>\<open>INSUFFICIENT_WALLET_BALANCE\<close> when the available balance is smaller; otherwise it succeeds
  exactly when the locked balance and the revision stay safe integers, and then moves the amount
  from available to locked, leaves both totals alone and bumps the revision.\<close>

theorem lock_contract:
  assumes "wf_wallet w" and "0 < n" and "is_safe n" and "is_iso t"
  shows "if availableCents w < n
    then lockAgentWalletEscrow now (js_of_wallet w) (JInt n) (JStr t)
      = Inl (CodedError ''INSUFFICIENT_WALLET_BALANCE'' ''insufficient wallet balance'')
    else lockAgentWalletEscrow now (js_of_wallet w) (JInt n) (JStr t) = Inr w' \<longleftrightarrow>
      is_safe (escrowLockedCents w + n) \<and> is_safe (aw_revision w + 1)
      \<and> w' = w\<lparr>availableCents := availableCents w - n, escrowLockedCents := escrowLockedCents w + n,
               aw_revision := aw_revision w + 1, aw_updatedAt := t\<rparr>"
proof (cases "availableCents w < n")
  case True
  then show ?thesis
    using operationArgs_ok[OF assms(2-4)] withWalletUpdate_fail[OF assms(1), of "lock_available n"]
    by (simp add: lockAgentWalletEscrow_def lock_available_def)
next
  case False
  let ?u = "w\<lparr>availableCents := add_int (availableCents w) (- n), escrowLockedCents := add_int (escrowLockedCents w) n\<rparr>"
  show ?thesis
    using False operationArgs_ok[OF assms(2-4)] withWalletUpdate_wf[OF assms(1), of "lock_available n" ?u t w'] assms
    by (auto simp: lockAgentWalletEscrow_def lock_available_def wf_wallet_def cents_simps)
qed

text \<open>The refund contract. Refunding a positive safe amount fails with
  \<^verbatim>\<open>INSUFFICIENT_ESCROW_BALANCE\<close> when less is locked; otherwise it succeeds exactly when the
  available balance, the credited total and the revision stay safe integers, and then moves the
  amount from locked to available and adds it to the credited total.\<close>

theorem refund_contract:
  assumes "wf_wallet w" and "0 < n" and "is_safe n" and "is_iso t"
  shows "if escrowLockedCents w < n
    then refundAgentWalletEscrow now (js_of_wallet w) (JInt n) (JStr t)
      = Inl (CodedError ''INSUFFICIENT_ESCROW_BALANCE'' ''insufficient escrow balance'')
    else refundAgentWalletEscrow now (js_of_wallet w) (JInt n) (JStr t) = Inr w' \<longleftrightarrow>
      is_safe (availableCents w + n) \<and> is_safe (totalCreditedCents w + n) \<and> is_safe (aw_revision w + 1)
      \<and> w' = w\<lparr>escrowLockedCents := escrowLockedCents w - n, availableCents := availableCents w + n,
               totalCreditedCents := totalCreditedCents w + n, aw_revision := aw_revision w + 1, aw_updatedAt := t\<rparr>"
proof (cases "escrowLockedCents w < n")
  case True
  then show ?thesis
    using operationArgs_ok[OF assms(2-4)] withWalletUpdate_fail[OF assms(1), of "refund_escrow n"]
    by (simp add: refundAgentWalletEscrow_def refund_escrow_def)
next
  case False
  let ?u = "w\<lparr>escrowLockedCents := add_int (escrowLockedCents w) (- n), availableCents := add_int (availableCents w) n,
    totalCreditedCents := add_int (totalCreditedCents w) n\<rparr>"
  show ?thesis
    using False operationArgs_ok[OF assms(2-4)] withWalletUpdate_wf[OF assms(1), of "refund_escrow n" ?u t w'] assms
    by (auto simp: refundAgentWalletEscrow_def refund_escrow_def wf_wallet_def cents_simps)
qed

lemma debit_escrow_Inr:
  assumes "wf_wallet w" and "0 < n" and "is_iso t"
  shows "withWalletUpdate (js_of_wallet w) (debit_escrow n) t = Inr w' \<longleftrightarrow>
    n \<le> escrowLockedCents w \<and> is_safe (totalDebitedCents w + n) \<and> is_safe (aw_revision w + 1)
    \<and> w' = w\<lparr>escrowLockedCents := escrowLockedCents w - n, totalDebitedCents := totalDebitedCents w + n,
             aw_revision := aw_revision w + 1, aw_updatedAt := t\<rparr>"
proof (cases "escrowLockedCents w < n")
  case True
  then show ?thesis using withWalletUpdate_fail[OF assms(1), of "debit_escrow n"] by (simp add: debit_escrow_def)
next
  case False
  let ?u = "w\<lparr>escrowLockedCents := add_int (escrowLockedCents w) (- n), totalDebitedCents := add_int (totalDebitedCents w) n\<rparr>"
  show ?thesis using False withWalletUpdate_wf[OF assms(1), of "debit_escrow n" ?u t w'] assms
    by (auto simp: debit_escrow_def wf_wallet_def cents_simps)
qed

lemma debit_available_Inr:
  assumes "wf_wallet w" and "0 < n" and "is_iso t"
  shows "withWalletUpdate (js_of_wallet w) (debit_available n) t = Inr w' \<longleftrightarrow>
    n \<le> availableCents w \<and> is_safe (totalDebitedCents w + n) \<and> is_safe (aw_revision w + 1)
    \<and> w' = w\<lparr>availableCents := availableCents w - n, totalDebitedCents := totalDebitedCents w + n,
             aw_revision := aw_revision w + 1, aw_updatedAt := t\<rparr>"
proof (cases "availableCents w < n")
  case True
  then show ?thesis using withWalletUpdate_fail[OF assms(1), of "debit_available n"] by (simp add: debit_available_def)
next
  case False
  let ?u = "w\<lparr>availableCents := add_int (availableCents w) (- n), totalDebitedCents := add_int (totalDebitedCents w) n\<rparr>"
  show ?thesis using False withWalletUpdate_wf[OF assms(1), of "debit_available n" ?u t w'] assms
    by (auto simp: debit_available_def wf_wallet_def cents_simps)
qed

lemma credit_available_Inr:
  assumes "wf_wallet w" and "0 < n" and "is_iso t"
  shows "withWalletUpdate (js_of_wallet w) (credit_available n) t = Inr w' \<longleftrightarrow>
    is_safe (availableCents w + n) \<and> is_safe (totalCreditedCents w + n) \<and> is_safe (aw_revision w + 1)
    \<and> w' = w\<lparr>availableCents := availableCents w + n, totalCreditedCents := totalCreditedCents w + n,
             aw_revision := aw_revision w + 1, aw_updatedAt := t\<rparr>"
  using withWalletUpdate_wf[OF assms(1), of "credit_available n" "w\<lparr>availableCents := add_int (availableCents w) n,
      totalCreditedCents := add_int (totalCreditedCents w) n\<rparr>" t w'] assms
  by (auto simp: credit_available_def wf_wallet_def cents_simps)

text \<open>The release contract. Releasing a positive safe amount from a payer's escrow to a payee's
  wallet succeeds exactly when the payer has it locked and no balance, total or revision leaves
  the safe integers, and then changes exactly the four balances and totals that the escrow
  invariants name, so the money of the two wallets together is conserved.\<close>

theorem release_contract:
  assumes "wf_wallet p" and "wf_wallet q" and "0 < n" and "is_safe n" and "is_iso t"
  shows "releaseAgentWalletEscrowToPayee now (js_of_wallet p) (js_of_wallet q) (JInt n) (JStr t) = Inr (p', q') \<longleftrightarrow>
    n \<le> escrowLockedCents p \<and> is_safe (totalDebitedCents p + n) \<and> is_safe (aw_revision p + 1)
    \<and> is_safe (availableCents q + n) \<and> is_safe (totalCreditedCents q + n) \<and> is_safe (aw_revision q + 1)
    \<and> p' = p\<lparr>escrowLockedCents := escrowLockedCents p - n, totalDebitedCents := totalDebitedCents p + n,
             aw_revision := aw_revision p + 1, aw_updatedAt := t\<rparr>
    \<and> q' = q\<lparr>availableCents := availableCents q + n, totalCreditedCents := totalCreditedCents q + n,
             aw_revision := aw_revision q + 1, aw_updatedAt := t\<rparr>"
  using operationArgs_ok[OF assms(3-5)] debit_escrow_Inr[OF assms(1,3,5)] credit_available_Inr[OF assms(2,3,5)]
  by (auto simp: releaseAgentWalletEscrowToPayee_def andThen_Inr_iff)

text \<open>The transfer contract. Between two well-formed wallets a transfer of a positive safe amount
  succeeds exactly when currency and tenant agree, the sender has the amount available and no
  balance, total or revision leaves the safe integers; it then moves exactly that amount.\<close>

theorem transfer_contract:
  assumes "wf_wallet p" and "wf_wallet q" and "0 < n" and "is_safe n" and "is_iso t"
  shows "transferAgentWalletAvailable now (js_of_wallet p) (js_of_wallet q) (JInt n) (JStr t) = Inr (p', q') \<longleftrightarrow>
    aw_currency p = aw_currency q \<and> aw_tenantId p = aw_tenantId q
    \<and> n \<le> availableCents p \<and> is_safe (totalDebitedCents p + n) \<and> is_safe (aw_revision p + 1)
    \<and> is_safe (availableCents q + n) \<and> is_safe (totalCreditedCents q + n) \<and> is_safe (aw_revision q + 1)
    \<and> p' = p\<lparr>availableCents := availableCents p - n, totalDebitedCents := totalDebitedCents p + n,
             aw_revision := aw_revision p + 1, aw_updatedAt := t\<rparr>
    \<and> q' = q\<lparr>availableCents := availableCents q + n, totalCreditedCents := totalCreditedCents q + n,
             aw_revision := aw_revision q + 1, aw_updatedAt := t\<rparr>"
proof -
  have "normalizeWalletRecord (js_of_wallet p) = Inr p" "normalizeWalletRecord (js_of_wallet q) = Inr q"
    using assms(1,2) by (simp_all add: normalizeWalletRecord_js wf_wallet_def)
  then show ?thesis
    using operationArgs_ok[OF assms(3-5)] debit_available_Inr[OF assms(1,3,5)] credit_available_Inr[OF assms(2,3,5)]
    unfolding transferAgentWalletAvailable_def by (auto simp: andThen_Inr_iff throwIf_Inr_iff)
qed

text \<open>Concrete wallets for the witnesses.\<close>

definition sample_wallet :: "string \<Rightarrow> string \<Rightarrow> int \<Rightarrow> int \<Rightarrow> agent_wallet" where
  "sample_wallet tenant currency available locked =
     \<lparr>aw_walletId = ''wallet_a'', aw_agentId = ''a'', aw_tenantId = tenant, aw_currency = currency,
      availableCents = available, escrowLockedCents = locked, totalDebitedCents = 0, totalCreditedCents = available + locked,
      aw_revision = 1, aw_createdAt = ''2024-01-01T00:00:00.000Z'', aw_updatedAt = ''2024-01-01T00:00:00.000Z''\<rparr>"

lemma sample_wallet_wf: "wf_wallet (sample_wallet ''t1'' ''USD'' 100 60)" "wf_wallet (sample_wallet ''t1'' ''USD'' 5 0)"
  by code_simp+

lemma sample_date: "is_iso ''2024-01-02T00:00:00.000Z''"
  by code_simp

lemma sample_args: "0 < (60 :: int)" "is_safe 60"
  by (simp_all add: is_safe_def MAX_SAFE_INTEGER_def)

theorem wallet_normalize_roundtrip_witness:
  "wf_wallet (sample_wallet ''t1'' ''USD'' 100 60)
   \<and> normalizeWalletRecord (js_of_wallet (sample_wallet ''t1'' ''USD'' 100 60)) = Inr (sample_wallet ''t1'' ''USD'' 100 60)"
proof (rule wallet_normalize_roundtrip)
  show "normalizeWalletRecord (js_of_wallet (sample_wallet ''t1'' ''USD'' 100 60)) = Inr (sample_wallet ''t1'' ''USD'' 100 60)"
    by code_simp
qed

theorem lock_contract_witness:
  "lockAgentWalletEscrow [] (js_of_wallet (sample_wallet ''t1'' ''USD'' 100 60)) (JInt 60) (JStr ''2024-01-02T00:00:00.000Z'')
   = Inr ((sample_wallet ''t1'' ''USD'' 100 60)\<lparr>availableCents := 40, escrowLockedCents := 120, aw_revision := 2,
       aw_updatedAt := ''2024-01-02T00:00:00.000Z''\<rparr>)"
  using lock_contract[OF sample_wallet_wf(1) sample_args sample_date]
  by (simp add: sample_wallet_def is_safe_def MAX_SAFE_INTEGER_def)

theorem refund_contract_witness:
  "refundAgentWalletEscrow [] (js_of_wallet (sample_wallet ''t1'' ''USD'' 100 60)) (JInt 60) (JStr ''2024-01-02T00:00:00.000Z'')
   = Inr ((sample_wallet ''t1'' ''USD'' 100 60)\<lparr>escrowLockedCents := 0, availableCents := 160, totalCreditedCents := 220,
       aw_revision := 2, aw_updatedAt := ''2024-01-02T00:00:00.000Z''\<rparr>)"
  using refund_contract[OF sample_wallet_wf(1) sample_args sample_date]
  by (simp add: sample_wallet_def is_safe_def MAX_SAFE_INTEGER_def)

theorem release_contract_witness:
  "\<exists>p' q'. releaseAgentWalletEscrowToPayee [] (js_of_wallet (sample_wallet ''t1'' ''USD'' 100 60))
     (js_of_wallet (sample_wallet ''t1'' ''USD'' 5 0)) (JInt 60) (JStr ''2024-01-02T00:00:00.000Z'') = Inr (p', q')
   \<and> escrowLockedCents p' = 0 \<and> availableCents q' = 65"
  using release_contract[OF sample_wallet_wf sample_args sample_date]
  by (simp add: sample_wallet_def is_safe_def MAX_SAFE_INTEGER_def)

theorem transfer_contract_witness:
  "\<exists>p' q'. transferAgentWalletAvailable [] (js_of_wallet (sample_wallet ''t1'' ''USD'' 100 60))
     (js_of_wallet (sample_wallet ''t1'' ''USD'' 5 0)) (JInt 60) (JStr ''2024-01-02T00:00:00.000Z'') = Inr (p', q')
   \<and> availableCents p' = 40 \<and> availableCents q' = 65"
  using transfer_contract[OF sample_wallet_wf sample_args sample_date]
  by (simp add: sample_wallet_def is_safe_def MAX_SAFE_INTEGER_def)

end
