(* ===== verification/RunSettlement.thy ===== *)
theory RunSettlement
  imports AgentWallets
begin

text \<open>
  The settlement half of \<^verbatim>\<open>src/core/agent-wallets.js\<close>: the life of an agent-run settlement from
  locked to released or refunded, with its disputes and its decision record. A settlement object
  of the source is flat; the record here groups its fields by role (identifiers, money, dispute,
  decision), and \<open>js_of_settlement\<close> lays them out flat again for the validation that every
  operation ends with. The single object parameter of an operation of the source is the dynamic
  value \<open>args\<close>, read property by property with the defaults of the source. The collation order of
  \<^verbatim>\<open>localeCompare\<close> belongs to the host's Unicode library: sorting by it is the parameter \<open>lsort\<close>.
\<close>

section \<open>Enumerations\<close>

datatype settlement_status = LOCKED | RELEASED | REFUNDED

datatype dispute_status = DISPUTE_NONE | DISPUTE_OPEN | DISPUTE_CLOSED

datatype decision_status = PENDING | AUTO_RESOLVED | MANUAL_REVIEW_REQUIRED | MANUAL_RESOLVED

datatype decision_mode = AUTOMATIC | MANUAL_REVIEW

fun settlement_status_str :: "settlement_status \<Rightarrow> string" where
  "settlement_status_str LOCKED = ''locked''"
| "settlement_status_str RELEASED = ''released''"
| "settlement_status_str REFUNDED = ''refunded''"

fun dispute_status_str :: "dispute_status \<Rightarrow> string" where
  "dispute_status_str DISPUTE_NONE = ''none''"
| "dispute_status_str DISPUTE_OPEN = ''open''"
| "dispute_status_str DISPUTE_CLOSED = ''closed''"

fun decision_status_str :: "decision_status \<Rightarrow> string" where
  "decision_status_str PENDING = ''pending''"
| "decision_status_str AUTO_RESOLVED = ''auto_resolved''"
| "decision_status_str MANUAL_REVIEW_REQUIRED = ''manual_review_required''"
| "decision_status_str MANUAL_RESOLVED = ''manual_resolved''"

fun decision_mode_str :: "decision_mode \<Rightarrow> string" where
  "decision_mode_str AUTOMATIC = ''automatic''"
| "decision_mode_str MANUAL_REVIEW = ''manual-review''"

text \<open>\<^verbatim>\<open>Object.values(E).includes(s)\<close>, with the value found.\<close>

definition parse_enum :: "('a \<Rightarrow> string) \<Rightarrow> 'a list \<Rightarrow> string \<Rightarrow> 'a option" where
  "parse_enum str vals s = List.find (\<lambda>x. str x = s) vals"

definition lowered :: "jsval \<Rightarrow> string" where
  "lowered v = toLowerCase (js_String v)"

definition enum_arg :: "('a \<Rightarrow> string) \<Rightarrow> 'a list \<Rightarrow> js_error \<Rightarrow> jsval \<Rightarrow> 'a res" where
  "enum_arg str vals err v = (case parse_enum str vals (lowered v) of None \<Rightarrow> Inl err | Some x \<Rightarrow> Inr x)"

definition settlementStatusArg :: "jsval \<Rightarrow> settlement_status res" where
  "settlementStatusArg v = enum_arg settlement_status_str [LOCKED, RELEASED, REFUNDED]
     (TypeError ''settlement.status must be locked|released|refunded'') (orElse v (JStr []))"

definition disputeStatusArg :: "jsval \<Rightarrow> dispute_status res" where
  "disputeStatusArg v = enum_arg dispute_status_str [DISPUTE_NONE, DISPUTE_OPEN, DISPUTE_CLOSED]
     (TypeError ''settlement.disputeStatus must be none|open|closed'') (orElse v (JStr ''none''))"

definition decisionStatusArg :: "string \<Rightarrow> jsval \<Rightarrow> decision_status res" where
  "decisionStatusArg name v = enum_arg decision_status_str [PENDING, AUTO_RESOLVED, MANUAL_REVIEW_REQUIRED, MANUAL_RESOLVED]
     (TypeError (name @ '' must be pending|auto_resolved|manual_review_required|manual_resolved'')) v"

definition decisionModeArg :: "string \<Rightarrow> jsval \<Rightarrow> decision_mode res" where
  "decisionModeArg name v = enum_arg decision_mode_str [AUTOMATIC, MANUAL_REVIEW]
     (TypeError (name @ '' must be automatic|manual-review'')) v"

definition normalizeEnumValue :: "jsval \<Rightarrow> string \<Rightarrow> string list \<Rightarrow> string res" where
  "normalizeEnumValue v name allowed =
     (let s = toLowerCase (trim (js_String (orElse v (JStr [])))) in
      if s \<in> set allowed then Inr s
      else Inl (TypeError (name @ '' must be one of: '' @ join_with ''|'' allowed)))"

definition DISPUTE_KINDS :: "string list" where
  "DISPUTE_KINDS = [''quality'', ''delivery'', ''fraud'', ''policy'', ''payment'', ''other'']"

definition DISPUTE_PRIORITIES :: "string list" where
  "DISPUTE_PRIORITIES = [''low'', ''normal'', ''high'', ''critical'']"

definition DISPUTE_CHANNELS :: "string list" where
  "DISPUTE_CHANNELS = [''counterparty'', ''policy_engine'', ''arbiter'', ''external'']"

definition ESCALATION_LEVELS :: "string list" where
  "ESCALATION_LEVELS = [''l1_counterparty'', ''l2_arbiter'', ''l3_external'']"

definition POLICY_PATHS :: "string list" where
  "POLICY_PATHS = [''local_primary'', ''counterparty_primary'', ''tie_break'']"

definition PRIMARY_PLANES :: "string list" where
  "PRIMARY_PLANES = [''local'', ''counterparty'', ''shared'']"

definition COUNTERPART_STATUSES :: "string list" where
  "COUNTERPART_STATUSES = [''reachable'', ''disagreed'', ''unavailable'']"

definition TIE_BREAKS :: "string list" where
  "TIE_BREAKS = [''none'', ''local_operator'', ''shared_arbiter'', ''external_forum'']"

definition RESOLUTION_OUTCOMES :: "string list" where
  "RESOLUTION_OUTCOMES = [''accepted'', ''rejected'', ''partial'', ''withdrawn'', ''unresolved'']"

section \<open>Optional fields\<close>

text \<open>Absent, or checked by \<^verbatim>\<open>assertNonEmptyString\<close> or \<^verbatim>\<open>assertIsoDate\<close> and kept as it is.\<close>

definition optString :: "jsval \<Rightarrow> string \<Rightarrow> string option res" where
  "optString v name = (if nullish v then Inr None else andThen (assertNonEmptyString v name) (\<lambda>s. Inr (Some s)))"

definition optIso :: "jsval \<Rightarrow> string \<Rightarrow> string option res" where
  "optIso v name = (if nullish v then Inr None else andThen (assertIsoDate v name) (\<lambda>s. Inr (Some s)))"

text \<open>Absent, or converted to a string and trimmed, which must leave something.\<close>

definition optTrimmed :: "jsval \<Rightarrow> string \<Rightarrow> string option res" where
  "optTrimmed v name =
     (if nullish v then Inr None
      else let s = trim (js_String v) in
        if s = [] then Inl (TypeError (name @ '' must be a non-empty string when provided'')) else Inr (Some s))"

definition maxChars :: "string option \<Rightarrow> nat \<Rightarrow> string \<Rightarrow> unit res" where
  "maxChars s n msg = throwIf (case s of None \<Rightarrow> False | Some t \<Rightarrow> n < length t) (TypeError msg)"

definition str_of_opt :: "string option \<Rightarrow> jsval" where
  "str_of_opt s = (case s of None \<Rightarrow> JNull | Some t \<Rightarrow> JStr t)"

text \<open>One turn of the loop of \<^verbatim>\<open>normalizeDisputeEvidenceRefs\<close>: the set \<^verbatim>\<open>seen\<close> holds what was pushed.\<close>

definition pushRef :: "string \<Rightarrow> string list \<Rightarrow> nat \<times> jsval \<Rightarrow> string list res" where
  "pushRef name out = (\<lambda>(i, item).
     andThen (assertNonEmptyString item (name @ ''['' @ show_int (int i) @ '']'')) (\<lambda>s.
       Inr (if trim s \<in> set out then out else out @ [trim s])))"

definition normalizeDisputeEvidenceRefs :: "jsval \<Rightarrow> string \<Rightarrow> string list res" where
  "normalizeDisputeEvidenceRefs v name =
     (if nullish v then Inr []
      else case v of JArr xs \<Rightarrow> foldRes (pushRef name) [] (enumerate 0 xs)
           | _ \<Rightarrow> Inl (TypeError (name @ '' must be an array'')))"

section \<open>Disputes\<close>

record federation_jurisdiction =
  fj_policyPath :: string
  fj_primaryPlane :: string
  fj_counterpartStatus :: string
  fj_tieBreaker :: string
  fj_disputeCoordinationId :: "string option"
  fj_authorizationRef :: "string option"
  fj_reasonCode :: "string option"
  fj_continuityHash :: "string option"
  fj_asOf :: "string option"
  fj_evidenceRefs :: "string list"
  fj_invocationRefs :: "string list"

definition jurisdictionHash :: "jsval \<Rightarrow> string \<Rightarrow> string option res" where
  "jurisdictionHash v name =
     (if nullish v then Inr None
      else let h = toLowerCase (trim (js_String v)) in
        if is_sha256_hex h then Inr (Some h)
        else Inl (TypeError (name @ ''.continuityHash must be a 64-character lowercase hex sha256'')))"

definition normalizeDisputeFederationJurisdiction ::
  "(string list \<Rightarrow> string list) \<Rightarrow> jsval \<Rightarrow> string \<Rightarrow> federation_jurisdiction option res" where
  "normalizeDisputeFederationJurisdiction lsort v name =
     (if nullish v then Inr None else
      andThen (assertPlainObject v name) (\<lambda>_.
      andThen (throwIf (trim (js_String (orElse (getp v ''schemaVersion'') (JStr ''FederationDisputeJurisdiction.v1''))) \<noteq> ''FederationDisputeJurisdiction.v1'')
                 (TypeError (name @ ''.schemaVersion must be FederationDisputeJurisdiction.v1''))) (\<lambda>_.
      andThen (normalizeEnumValue (orElse (getp v ''policyPath'') (JStr ''local_primary'')) (name @ ''.policyPath'') POLICY_PATHS) (\<lambda>policyPath.
      andThen (normalizeEnumValue (orElse (getp v ''primaryPlane'') (JStr ''local'')) (name @ ''.primaryPlane'') PRIMARY_PLANES) (\<lambda>primaryPlane.
      andThen (normalizeEnumValue (orElse (getp v ''counterpartStatus'') (JStr ''reachable'')) (name @ ''.counterpartStatus'') COUNTERPART_STATUSES) (\<lambda>counterpartStatus.
      andThen (normalizeEnumValue (orElse (getp v ''tieBreaker'') (JStr ''none'')) (name @ ''.tieBreaker'') TIE_BREAKS) (\<lambda>tieBreaker.
      andThen (optTrimmed (getp v ''disputeCoordinationId'') (name @ ''.disputeCoordinationId'')) (\<lambda>coordinationId.
      andThen (maxChars coordinationId 256 (name @ ''.disputeCoordinationId must be <= 256 chars'')) (\<lambda>_.
      andThen (optTrimmed (getp v ''authorizationRef'') (name @ ''.authorizationRef'')) (\<lambda>authorizationRef.
      andThen (optTrimmed (getp v ''reasonCode'') (name @ ''.reasonCode'')) (\<lambda>reasonCode.
      andThen (maxChars reasonCode 120 (name @ ''.reasonCode must be <= 120 chars'')) (\<lambda>_.
      andThen (jurisdictionHash (getp v ''continuityHash'') name) (\<lambda>continuityHash.
      andThen (optTrimmed (getp v ''asOf'') (name @ ''.asOf'')) (\<lambda>asOf.
      andThen (optIso (str_of_opt asOf) (name @ ''.asOf'')) (\<lambda>_.
      andThen (normalizeDisputeEvidenceRefs (getp v ''evidenceRefs'') (name @ ''.evidenceRefs'')) (\<lambda>evidenceRefs.
      andThen (normalizeDisputeEvidenceRefs (getp v ''invocationRefs'') (name @ ''.invocationRefs'')) (\<lambda>invocationRefs.
        Inr (Some \<lparr>fj_policyPath = policyPath, fj_primaryPlane = primaryPlane, fj_counterpartStatus = counterpartStatus,
          fj_tieBreaker = tieBreaker, fj_disputeCoordinationId = coordinationId, fj_authorizationRef = authorizationRef,
          fj_reasonCode = reasonCode, fj_continuityHash = continuityHash, fj_asOf = asOf,
          fj_evidenceRefs = lsort evidenceRefs, fj_invocationRefs = lsort invocationRefs\<rparr>))))))))))))))))))"

definition refs_js :: "string list \<Rightarrow> jsval" where
  "refs_js xs = JArr (map JStr xs)"

definition js_of_jurisdiction :: "federation_jurisdiction \<Rightarrow> jsval" where
  "js_of_jurisdiction j = JObj
     [(''schemaVersion'', JStr ''FederationDisputeJurisdiction.v1''), (''policyPath'', JStr (fj_policyPath j)),
      (''primaryPlane'', JStr (fj_primaryPlane j)), (''counterpartStatus'', JStr (fj_counterpartStatus j)),
      (''tieBreaker'', JStr (fj_tieBreaker j)), (''disputeCoordinationId'', str_of_opt (fj_disputeCoordinationId j)),
      (''authorizationRef'', str_of_opt (fj_authorizationRef j)), (''reasonCode'', str_of_opt (fj_reasonCode j)),
      (''continuityHash'', str_of_opt (fj_continuityHash j)), (''asOf'', str_of_opt (fj_asOf j)),
      (''evidenceRefs'', refs_js (fj_evidenceRefs j)), (''invocationRefs'', refs_js (fj_invocationRefs j))]"

text \<open>\<^verbatim>\<open>...(x ? { federationJurisdiction: x } : {})\<close>\<close>

definition jurisdiction_field :: "federation_jurisdiction option \<Rightarrow> props" where
  "jurisdiction_field j = (case j of None \<Rightarrow> [] | Some f \<Rightarrow> [(''federationJurisdiction'', js_of_jurisdiction f)])"

record dispute_context =
  dc_type :: string
  dc_priority :: string
  dc_channel :: string
  dc_escalationLevel :: string
  dc_openedByAgentId :: "string option"
  dc_reason :: "string option"
  dc_evidenceRefs :: "string list"
  dc_federationJurisdiction :: "federation_jurisdiction option"

definition js_of_context :: "dispute_context \<Rightarrow> jsval" where
  "js_of_context c = JObj
     ([(''type'', JStr (dc_type c)), (''priority'', JStr (dc_priority c)), (''channel'', JStr (dc_channel c)),
       (''escalationLevel'', JStr (dc_escalationLevel c)), (''openedByAgentId'', str_of_opt (dc_openedByAgentId c)),
       (''reason'', str_of_opt (dc_reason c)), (''evidenceRefs'', refs_js (dc_evidenceRefs c))]
      @ jurisdiction_field (dc_federationJurisdiction c))"

definition normalizeDisputeContext ::
  "(string list \<Rightarrow> string list) \<Rightarrow> jsval \<Rightarrow> string \<Rightarrow> jsval \<Rightarrow> dispute_context option res" where
  "normalizeDisputeContext lsort v name defaultEscalationLevel =
     (if nullish v then Inr None else
      andThen (assertPlainObject v name) (\<lambda>_.
      andThen (normalizeEnumValue (orElse (getp v ''type'') (JStr ''other'')) (name @ ''.type'') DISPUTE_KINDS) (\<lambda>kind.
      andThen (normalizeEnumValue (orElse (getp v ''priority'') (JStr ''normal'')) (name @ ''.priority'') DISPUTE_PRIORITIES) (\<lambda>priority.
      andThen (normalizeEnumValue (orElse (getp v ''channel'') (JStr ''counterparty'')) (name @ ''.channel'') DISPUTE_CHANNELS) (\<lambda>channel.
      andThen (normalizeEnumValue (orElse (getp v ''escalationLevel'') (orElse defaultEscalationLevel (JStr ''l1_counterparty'')))
                 (name @ ''.escalationLevel'') ESCALATION_LEVELS) (\<lambda>escalationLevel.
      andThen (optTrimmed (getp v ''openedByAgentId'') (name @ ''.openedByAgentId'')) (\<lambda>openedBy.
      andThen (optTrimmed (getp v ''reason'') (name @ ''.reason'')) (\<lambda>reason.
      andThen (normalizeDisputeEvidenceRefs (getp v ''evidenceRefs'') (name @ ''.evidenceRefs'')) (\<lambda>refs.
      andThen (normalizeDisputeFederationJurisdiction lsort (getp v ''federationJurisdiction'') (name @ ''.federationJurisdiction'')) (\<lambda>fj.
        Inr (Some \<lparr>dc_type = kind, dc_priority = priority, dc_channel = channel, dc_escalationLevel = escalationLevel,
          dc_openedByAgentId = openedBy, dc_reason = reason, dc_evidenceRefs = refs, dc_federationJurisdiction = fj\<rparr>)))))))))))"

record dispute_resolution =
  dr_outcome :: string
  dr_escalationLevel :: string
  dr_closedByAgentId :: "string option"
  dr_summary :: "string option"
  dr_closedAt :: "string option"
  dr_releaseRatePct :: "int option"
  dr_evidenceRefs :: "string list"
  dr_federationJurisdiction :: "federation_jurisdiction option"

definition js_of_resolution :: "dispute_resolution \<Rightarrow> jsval" where
  "js_of_resolution r = JObj
     ([(''outcome'', JStr (dr_outcome r)), (''escalationLevel'', JStr (dr_escalationLevel r)),
       (''closedByAgentId'', str_of_opt (dr_closedByAgentId r)), (''summary'', str_of_opt (dr_summary r)),
       (''closedAt'', str_of_opt (dr_closedAt r))]
      @ (case dr_releaseRatePct r of None \<Rightarrow> [] | Some n \<Rightarrow> [(''releaseRatePct'', JInt n)])
      @ [(''evidenceRefs'', refs_js (dr_evidenceRefs r))]
      @ jurisdiction_field (dr_federationJurisdiction r))"

text \<open>An optional percentage: a value that \<^verbatim>\<open>Number\<close> turns into a safe integer of 0..100.\<close>

definition ratePct :: "jsval \<Rightarrow> string \<Rightarrow> int option res" where
  "ratePct v name =
     (if nullish v then Inr None
      else case safe_int (js_Number v) of
        None \<Rightarrow> Inl (TypeError (name @ ''.releaseRatePct must be an integer within 0..100''))
      | Some n \<Rightarrow> (if n < 0 \<or> 100 < n then Inl (TypeError (name @ ''.releaseRatePct must be an integer within 0..100''))
                  else Inr (Some n)))"

definition rateForOutcome :: "string \<Rightarrow> int option \<Rightarrow> string \<Rightarrow> unit res" where
  "rateForOutcome outcome rate name =
     checks
       [throwIf (outcome = ''accepted'' \<and> rate \<noteq> None \<and> rate \<noteq> Some 100)
          (TypeError (name @ ''.releaseRatePct must be 100 when outcome=accepted'')),
        throwIf (outcome = ''rejected'' \<and> rate \<noteq> None \<and> rate \<noteq> Some 0)
          (TypeError (name @ ''.releaseRatePct must be 0 when outcome=rejected'')),
        throwIf (outcome = ''partial'' \<and> rate = None)
          (TypeError (name @ ''.releaseRatePct is required when outcome=partial'')),
        throwIf (outcome = ''partial'' \<and> (case rate of None \<Rightarrow> False | Some n \<Rightarrow> n \<le> 0 \<or> 100 \<le> n))
          (TypeError (name @ ''.releaseRatePct must be within 1..99 when outcome=partial'')),
        throwIf ((outcome = ''withdrawn'' \<or> outcome = ''unresolved'') \<and> rate \<noteq> None)
          (TypeError (name @ ''.releaseRatePct is only allowed for accepted|rejected|partial outcomes''))]
       (Inr ())"

definition trimmedClosedAt :: "jsval \<Rightarrow> string \<Rightarrow> string option res" where
  "trimmedClosedAt v name =
     (if nullish v then Inr None
      else andThen (assertIsoDate (JStr (trim (js_String v))) name) (\<lambda>s. Inr (Some s)))"

definition normalizeDisputeResolution ::
  "(string list \<Rightarrow> string list) \<Rightarrow> jsval \<Rightarrow> string \<Rightarrow> jsval \<Rightarrow> dispute_resolution option res" where
  "normalizeDisputeResolution lsort v name defaultClosedAt =
     (if nullish v then Inr None else
      andThen (assertPlainObject v name) (\<lambda>_.
      andThen (normalizeEnumValue (orElse (getp v ''outcome'') (JStr ''unresolved'')) (name @ ''.outcome'') RESOLUTION_OUTCOMES) (\<lambda>outcome.
      andThen (normalizeEnumValue (orElse (getp v ''escalationLevel'') (JStr ''l1_counterparty'')) (name @ ''.escalationLevel'') ESCALATION_LEVELS) (\<lambda>escalationLevel.
      andThen (optTrimmed (getp v ''closedByAgentId'') (name @ ''.closedByAgentId'')) (\<lambda>closedBy.
      andThen (optTrimmed (getp v ''summary'') (name @ ''.summary'')) (\<lambda>summary.
      andThen (trimmedClosedAt (orElse (getp v ''closedAt'') defaultClosedAt) (name @ ''.closedAt'')) (\<lambda>closedAt.
      andThen (ratePct (if getp v ''releaseRatePct'' = JStr [] then JNull else getp v ''releaseRatePct'') name) (\<lambda>rate.
      andThen (rateForOutcome outcome rate name) (\<lambda>_.
      andThen (normalizeDisputeEvidenceRefs (getp v ''evidenceRefs'') (name @ ''.evidenceRefs'')) (\<lambda>refs.
      andThen (normalizeDisputeFederationJurisdiction lsort (getp v ''federationJurisdiction'') (name @ ''.federationJurisdiction'')) (\<lambda>fj.
        Inr (Some \<lparr>dr_outcome = outcome, dr_escalationLevel = escalationLevel, dr_closedByAgentId = closedBy,
          dr_summary = summary, dr_closedAt = closedAt, dr_releaseRatePct = rate, dr_evidenceRefs = refs,
          dr_federationJurisdiction = fj\<rparr>))))))))))))"

section \<open>Settlement records\<close>

record settlement_ids =
  si_settlementId :: string
  si_runId :: string
  si_tenantId :: string
  si_agentId :: string
  si_payerAgentId :: string

record settlement_money =
  sm_amountCents :: int
  sm_currency :: string
  sm_status :: settlement_status
  sm_lockedAt :: string
  sm_resolvedAt :: "string option"
  sm_resolutionEventId :: "string option"
  sm_runStatus :: "string option"
  sm_releasedAmountCents :: int
  sm_refundedAmountCents :: int
  sm_releaseRatePct :: "int option"

record settlement_dispute =
  sd_windowDays :: int
  sd_windowEndsAt :: "string option"
  sd_status :: dispute_status
  sd_disputeId :: "string option"
  sd_openedAt :: "string option"
  sd_closedAt :: "string option"
  sd_verdictId :: "string option"
  sd_verdictHash :: "string option"
  sd_verdictArtifactId :: "string option"
  sd_verdictSignerKeyId :: "string option"
  sd_verdictIssuedAt :: "string option"
  sd_context :: "dispute_context option"
  sd_resolution :: "dispute_resolution option"

record settlement_decision =
  sc_status :: decision_status
  sc_mode :: decision_mode
  sc_policyHash :: "string option"
  sc_reason :: "string option"
  sc_trace :: "props option"
  sc_updatedAt :: "string option"

record settlement =
  rs_ids :: settlement_ids
  rs_money :: settlement_money
  rs_dispute :: settlement_dispute
  rs_decision :: settlement_decision
  rs_revision :: int
  rs_createdAt :: string
  rs_updatedAt :: string

definition ids_props :: "settlement_ids \<Rightarrow> props" where
  "ids_props i =
     [(''settlementId'', JStr (si_settlementId i)), (''runId'', JStr (si_runId i)), (''tenantId'', JStr (si_tenantId i)),
      (''agentId'', JStr (si_agentId i)), (''payerAgentId'', JStr (si_payerAgentId i))]"

definition money_props :: "settlement_money \<Rightarrow> props" where
  "money_props m =
     [(''amountCents'', JInt (sm_amountCents m)), (''currency'', JStr (sm_currency m)),
      (''status'', JStr (settlement_status_str (sm_status m))), (''lockedAt'', JStr (sm_lockedAt m)),
      (''resolvedAt'', str_of_opt (sm_resolvedAt m)), (''resolutionEventId'', str_of_opt (sm_resolutionEventId m)),
      (''runStatus'', str_of_opt (sm_runStatus m)), (''releasedAmountCents'', JInt (sm_releasedAmountCents m)),
      (''refundedAmountCents'', JInt (sm_refundedAmountCents m)),
      (''releaseRatePct'', (case sm_releaseRatePct m of None \<Rightarrow> JNull | Some n \<Rightarrow> JInt n))]"

definition dispute_props :: "settlement_dispute \<Rightarrow> props" where
  "dispute_props d =
     [(''disputeWindowDays'', JInt (sd_windowDays d)), (''disputeWindowEndsAt'', str_of_opt (sd_windowEndsAt d)),
      (''disputeStatus'', JStr (dispute_status_str (sd_status d))), (''disputeId'', str_of_opt (sd_disputeId d)),
      (''disputeOpenedAt'', str_of_opt (sd_openedAt d)), (''disputeClosedAt'', str_of_opt (sd_closedAt d)),
      (''disputeVerdictId'', str_of_opt (sd_verdictId d)), (''disputeVerdictHash'', str_of_opt (sd_verdictHash d)),
      (''disputeVerdictArtifactId'', str_of_opt (sd_verdictArtifactId d)),
      (''disputeVerdictSignerKeyId'', str_of_opt (sd_verdictSignerKeyId d)),
      (''disputeVerdictIssuedAt'', str_of_opt (sd_verdictIssuedAt d)),
      (''disputeContext'', (case sd_context d of None \<Rightarrow> JNull | Some c \<Rightarrow> js_of_context c)),
      (''disputeResolution'', (case sd_resolution d of None \<Rightarrow> JNull | Some r \<Rightarrow> js_of_resolution r))]"

definition decision_props :: "settlement_decision \<Rightarrow> props" where
  "decision_props c =
     [(''decisionStatus'', JStr (decision_status_str (sc_status c))), (''decisionMode'', JStr (decision_mode_str (sc_mode c))),
      (''decisionPolicyHash'', str_of_opt (sc_policyHash c)), (''decisionReason'', str_of_opt (sc_reason c)),
      (''decisionTrace'', (case sc_trace c of None \<Rightarrow> JNull | Some ps \<Rightarrow> JObj ps)),
      (''decisionUpdatedAt'', str_of_opt (sc_updatedAt c))]"

definition js_of_settlement :: "settlement \<Rightarrow> jsval" where
  "js_of_settlement s = JObj
     ([(''schemaVersion'', JStr ''AgentRunSettlement.v1'')] @ ids_props (rs_ids s) @ money_props (rs_money s)
      @ dispute_props (rs_dispute s) @ decision_props (rs_decision s)
      @ [(''revision'', JInt (rs_revision s)), (''createdAt'', JStr (rs_createdAt s)), (''updatedAt'', JStr (rs_updatedAt s))])"

text \<open>\<^verbatim>\<open>normalizeSettlementRecord\<close> in the order of its checks: identifiers, money, dispute, decision.\<close>

definition normalizeIds :: "jsval \<Rightarrow> settlement_ids res" where
  "normalizeIds s =
     andThen (assertNonEmptyString (getp s ''settlementId'') ''settlement.settlementId'') (\<lambda>settlementId.
     andThen (assertNonEmptyString (getp s ''runId'') ''settlement.runId'') (\<lambda>runId.
     andThen (assertNonEmptyString (getp s ''tenantId'') ''settlement.tenantId'') (\<lambda>tenantId.
     andThen (assertNonEmptyString (getp s ''agentId'') ''settlement.agentId'') (\<lambda>agentId.
     andThen (assertNonEmptyString (getp s ''payerAgentId'') ''settlement.payerAgentId'') (\<lambda>payerAgentId.
       Inr \<lparr>si_settlementId = settlementId, si_runId = runId, si_tenantId = tenantId, si_agentId = agentId,
            si_payerAgentId = payerAgentId\<rparr>)))))"

definition normalizeMoney :: "jsval \<Rightarrow> settlement_money res" where
  "normalizeMoney s =
     andThen (numberAmount (getp s ''amountCents'') ''settlement.amountCents'' False) (\<lambda>amount.
     andThen (normalizeWalletCurrency (getp s ''currency'')) (\<lambda>currency.
     andThen (settlementStatusArg (getp s ''status'')) (\<lambda>status.
     andThen (assertIsoDate (getp s ''lockedAt'') ''settlement.lockedAt'') (\<lambda>lockedAt.
     andThen (optIso (getp s ''resolvedAt'') ''settlement.resolvedAt'') (\<lambda>resolvedAt.
     andThen (optString (getp s ''resolutionEventId'') ''settlement.resolutionEventId'') (\<lambda>resolutionEventId.
     andThen (optString (getp s ''runStatus'') ''settlement.runStatus'') (\<lambda>runStatus.
     andThen (numberAmount (orElse (getp s ''releasedAmountCents'') (JInt 0)) ''settlement.releasedAmountCents'' True) (\<lambda>released.
     andThen (numberAmount (orElse (getp s ''refundedAmountCents'') (JInt 0)) ''settlement.refundedAmountCents'' True) (\<lambda>refunded.
     andThen (throwIf (amount < add_int released refunded)
                (TypeError ''settlement released+refunded amounts exceed amountCents'')) (\<lambda>_.
     andThen (ratePct (getp s ''releaseRatePct'') ''settlement'') (\<lambda>rate.
       Inr \<lparr>sm_amountCents = amount, sm_currency = currency, sm_status = status, sm_lockedAt = lockedAt,
            sm_resolvedAt = resolvedAt, sm_resolutionEventId = resolutionEventId, sm_runStatus = runStatus,
            sm_releasedAmountCents = released, sm_refundedAmountCents = refunded, sm_releaseRatePct = rate\<rparr>)))))))))))"

definition normalizeDispute :: "(string list \<Rightarrow> string list) \<Rightarrow> jsval \<Rightarrow> settlement_dispute res" where
  "normalizeDispute lsort s =
     andThen (nonNegDays (orElse (getp s ''disputeWindowDays'') (JInt 0)) ''settlement.disputeWindowDays'') (\<lambda>days.
     andThen (optIso (getp s ''disputeWindowEndsAt'') ''settlement.disputeWindowEndsAt'') (\<lambda>endsAt.
     andThen (disputeStatusArg (getp s ''disputeStatus'')) (\<lambda>status.
     andThen (optString (getp s ''disputeId'') ''settlement.disputeId'') (\<lambda>disputeId.
     andThen (optIso (getp s ''disputeOpenedAt'') ''settlement.disputeOpenedAt'') (\<lambda>openedAt.
     andThen (optIso (getp s ''disputeClosedAt'') ''settlement.disputeClosedAt'') (\<lambda>closedAt.
     andThen (optString (getp s ''disputeVerdictId'') ''settlement.disputeVerdictId'') (\<lambda>verdictId.
     andThen (optString (getp s ''disputeVerdictHash'') ''settlement.disputeVerdictHash'') (\<lambda>verdictHash.
     andThen (optString (getp s ''disputeVerdictArtifactId'') ''settlement.disputeVerdictArtifactId'') (\<lambda>verdictArtifactId.
     andThen (optString (getp s ''disputeVerdictSignerKeyId'') ''settlement.disputeVerdictSignerKeyId'') (\<lambda>verdictSignerKeyId.
     andThen (optIso (getp s ''disputeVerdictIssuedAt'') ''settlement.disputeVerdictIssuedAt'') (\<lambda>verdictIssuedAt.
     andThen (normalizeDisputeContext lsort (getp s ''disputeContext'') ''settlement.disputeContext'' JNull) (\<lambda>ctxt.
     andThen (normalizeDisputeResolution lsort (getp s ''disputeResolution'') ''settlement.disputeResolution''
                (orElse (getp s ''disputeClosedAt'') JNull)) (\<lambda>resolution.
       Inr \<lparr>sd_windowDays = days, sd_windowEndsAt = endsAt, sd_status = status, sd_disputeId = disputeId,
            sd_openedAt = openedAt, sd_closedAt = closedAt, sd_verdictId = verdictId, sd_verdictHash = verdictHash,
            sd_verdictArtifactId = verdictArtifactId, sd_verdictSignerKeyId = verdictSignerKeyId,
            sd_verdictIssuedAt = verdictIssuedAt, sd_context = ctxt, sd_resolution = resolution\<rparr>)))))))))))))"

definition optTrace :: "jsval \<Rightarrow> string \<Rightarrow> props option res" where
  "optTrace v name =
     (if nullish v then Inr None else andThen (assertPlainObject v name) (\<lambda>_. Inr (Some (own_props v))))"

definition normalizeDecisionFields :: "jsval \<Rightarrow> settlement_decision res" where
  "normalizeDecisionFields s =
     andThen (decisionStatusArg ''settlement.decisionStatus'' (orElse (getp s ''decisionStatus'') (JStr ''pending''))) (\<lambda>status.
     andThen (decisionModeArg ''settlement.decisionMode'' (orElse (getp s ''decisionMode'') (JStr ''automatic''))) (\<lambda>mode.
     andThen (optString (getp s ''decisionPolicyHash'') ''settlement.decisionPolicyHash'') (\<lambda>policyHash.
     andThen (optString (getp s ''decisionReason'') ''settlement.decisionReason'') (\<lambda>reason.
     andThen (optTrace (getp s ''decisionTrace'') ''settlement.decisionTrace'') (\<lambda>trace.
     andThen (optIso (getp s ''decisionUpdatedAt'') ''settlement.decisionUpdatedAt'') (\<lambda>updatedAt.
       Inr \<lparr>sc_status = status, sc_mode = mode, sc_policyHash = policyHash, sc_reason = reason, sc_trace = trace,
            sc_updatedAt = updatedAt\<rparr>))))))"

definition normalizeSettlementRecord :: "(string list \<Rightarrow> string list) \<Rightarrow> jsval \<Rightarrow> settlement res" where
  "normalizeSettlementRecord lsort s =
     andThen (assertPlainObject s ''settlement'') (\<lambda>_.
     andThen (throwIf (getp s ''schemaVersion'' \<noteq> JStr ''AgentRunSettlement.v1'')
                (TypeError ''settlement.schemaVersion must be AgentRunSettlement.v1'')) (\<lambda>_.
     andThen (normalizeIds s) (\<lambda>ids.
     andThen (normalizeMoney s) (\<lambda>money.
     andThen (normalizeDispute lsort s) (\<lambda>dispute.
     andThen (normalizeDecisionFields s) (\<lambda>decision.
     andThen (normalizeRevision (getp s ''revision'') ''settlement.revision'') (\<lambda>revision.
     andThen (assertIsoDate (getp s ''createdAt'') ''settlement.createdAt'') (\<lambda>createdAt.
     andThen (assertIsoDate (getp s ''updatedAt'') ''settlement.updatedAt'') (\<lambda>updatedAt.
       Inr \<lparr>rs_ids = ids, rs_money = money, rs_dispute = dispute, rs_decision = decision, rs_revision = revision,
            rs_createdAt = createdAt, rs_updatedAt = updatedAt\<rparr>)))))))))"

section \<open>Operations\<close>

definition no_dispute :: "int \<Rightarrow> settlement_dispute" where
  "no_dispute days = \<lparr>sd_windowDays = days, sd_windowEndsAt = None, sd_status = DISPUTE_NONE, sd_disputeId = None,
     sd_openedAt = None, sd_closedAt = None, sd_verdictId = None, sd_verdictHash = None, sd_verdictArtifactId = None,
     sd_verdictSignerKeyId = None, sd_verdictIssuedAt = None, sd_context = None, sd_resolution = None\<rparr>"

definition createAgentRunSettlement :: "(string list \<Rightarrow> string list) \<Rightarrow> string \<Rightarrow> jsval \<Rightarrow> settlement res" where
  "createAgentRunSettlement lsort now args =
     andThen (assertNonEmptyString (getp args ''tenantId'') ''tenantId'') (\<lambda>tenantId.
     andThen (assertNonEmptyString (getp args ''runId'') ''runId'') (\<lambda>runId.
     andThen (assertNonEmptyString (getp args ''agentId'') ''agentId'') (\<lambda>agentId.
     andThen (assertNonEmptyString (getp args ''payerAgentId'') ''payerAgentId'') (\<lambda>payerAgentId.
     andThen (assertAmountCents (getp args ''amountCents'') ''amountCents'' False) (\<lambda>amount.
     andThen (nonNegDays (dflt (getp args ''disputeWindowDays'') (JInt 0)) ''disputeWindowDays'') (\<lambda>days.
     andThen (assertIsoDate (dflt (getp args ''at'') (JStr now)) ''at'') (\<lambda>t.
     andThen (normalizeWalletCurrency (getp args ''currency'')) (\<lambda>currency.
       normalizeSettlementRecord lsort (js_of_settlement
         \<lparr>rs_ids = \<lparr>si_settlementId = ''setl_'' @ runId, si_runId = runId, si_tenantId = tenantId, si_agentId = agentId,
            si_payerAgentId = payerAgentId\<rparr>,
          rs_money = \<lparr>sm_amountCents = amount, sm_currency = currency, sm_status = LOCKED, sm_lockedAt = t,
            sm_resolvedAt = None, sm_resolutionEventId = None, sm_runStatus = None, sm_releasedAmountCents = 0,
            sm_refundedAmountCents = 0, sm_releaseRatePct = None\<rparr>,
          rs_dispute = no_dispute days,
          rs_decision = \<lparr>sc_status = PENDING, sc_mode = AUTOMATIC, sc_policyHash = None, sc_reason = None,
            sc_trace = None, sc_updatedAt = Some t\<rparr>,
          rs_revision = 0, rs_createdAt = t, rs_updatedAt = t\<rparr>)))))))))"

text \<open>The \<^verbatim>\<open>status\<close> argument of a resolution.\<close>

definition resolutionStatusArg :: "jsval \<Rightarrow> settlement_status res" where
  "resolutionStatusArg v =
     (let s = lowered (orElse v (JStr [])) in
      if s = ''released'' then Inr RELEASED else if s = ''refunded'' then Inr REFUNDED
      else Inl (TypeError ''status must be released|refunded''))"

text \<open>How the principal is divided. The released part is checked before the refunded part, and the
  default of the refunded part is only looked at once the released part has passed its check.\<close>

definition partitionAmounts :: "settlement_status \<Rightarrow> int \<Rightarrow> jsval \<Rightarrow> jsval \<Rightarrow> (int \<times> int) res" where
  "partitionAmounts status amount released refunded =
     andThen (if nullish released then Inr (if status = RELEASED then amount else 0)
              else numberAmount released ''releasedAmountCents'' True) (\<lambda>rel.
     andThen (if nullish refunded
              then assertAmountCents (JInt (if status = RELEASED then amount - rel else amount)) ''refundedAmountCents'' True
              else numberAmount refunded ''refundedAmountCents'' True) (\<lambda>ref.
     andThen (throwIf (add_int rel ref \<noteq> amount)
                (TypeError ''releasedAmountCents + refundedAmountCents must equal settlement.amountCents'')) (\<lambda>_.
       Inr (rel, ref))))"

text \<open>\<^verbatim>\<open>Math.round((a * 100) / amount)\<close> on doubles.\<close>

definition round_pct :: "int \<Rightarrow> int \<Rightarrow> int" where
  "round_pct a amount = \<lfloor>fl (fl (of_int (a * 100)) / of_int amount) + 1 / 2\<rfloor>"

definition releaseRate :: "jsval \<Rightarrow> int \<Rightarrow> int \<Rightarrow> int res" where
  "releaseRate v released amount =
     (if nullish v
      then (let n = (if 0 < amount then round_pct released amount else 0) in
            if n < 0 \<or> 100 < n then Inl (TypeError ''releaseRatePct must be an integer within 0..100'') else Inr n)
      else case safe_int (js_Number v) of
        None \<Rightarrow> Inl (TypeError ''releaseRatePct must be an integer within 0..100'')
      | Some n \<Rightarrow> (if n < 0 \<or> 100 < n then Inl (TypeError ''releaseRatePct must be an integer within 0..100'') else Inr n))"

text \<open>The decision arguments of a resolution; \<open>status\<close> and \<open>mode\<close> are the defaults.\<close>

definition decisionArgs :: "jsval \<Rightarrow> string \<Rightarrow> string \<Rightarrow> jsval \<Rightarrow> settlement_decision res" where
  "decisionArgs args status mode reason =
     andThen (decisionStatusArg ''decisionStatus'' (orElse (getp args ''decisionStatus'') (JStr status))) (\<lambda>s.
     andThen (decisionModeArg ''decisionMode'' (orElse (getp args ''decisionMode'') (JStr mode))) (\<lambda>m.
     andThen (optTrimmed (getp args ''decisionPolicyHash'') ''decisionPolicyHash'') (\<lambda>h.
     andThen (optTrimmed (dflt (getp args ''decisionReason'') reason) ''decisionReason'') (\<lambda>r.
     andThen (optTrace (getp args ''decisionTrace'') ''decisionTrace'') (\<lambda>trace.
       Inr \<lparr>sc_status = s, sc_mode = m, sc_policyHash = h, sc_reason = r, sc_trace = trace, sc_updatedAt = None\<rparr>)))))"

definition disputeWindowEnd :: "string \<Rightarrow> int \<Rightarrow> string option res" where
  "disputeWindowEnd t days =
     (if 0 < days
      then (case date_parse t of None \<Rightarrow> Inl (RangeError ''Invalid time value'')
            | Some base \<Rightarrow> andThen (toISOString (base + days * MS_PER_DAY)) (\<lambda>s. Inr (Some s)))
      else Inr None)"

text \<open>The dispute fields every resolution resets; the verdict fields stay.\<close>

definition clear_dispute :: "settlement_dispute \<Rightarrow> settlement_dispute" where
  "clear_dispute d = d\<lparr>sd_status := DISPUTE_NONE, sd_disputeId := None, sd_openedAt := None, sd_closedAt := None,
     sd_context := None, sd_resolution := None\<rparr>"

definition resolveAgentRunSettlement :: "(string list \<Rightarrow> string list) \<Rightarrow> string \<Rightarrow> jsval \<Rightarrow> settlement res" where
  "resolveAgentRunSettlement lsort now args =
     andThen (normalizeSettlementRecord lsort (getp args ''settlement'')) (\<lambda>current.
     andThen (resolutionStatusArg (getp args ''status'')) (\<lambda>status.
     andThen (throwIf (sm_status (rs_money current) \<noteq> LOCKED) (TypeError ''settlement already resolved'')) (\<lambda>_.
     andThen (assertNonEmptyString (getp args ''runStatus'') ''runStatus'') (\<lambda>runStatus.
     andThen (assertIsoDate (dflt (getp args ''at'') (JStr now)) ''at'') (\<lambda>t.
     andThen (optString (getp args ''resolutionEventId'') ''resolutionEventId'') (\<lambda>eventId.
     andThen (partitionAmounts status (sm_amountCents (rs_money current)) (getp args ''releasedAmountCents'') (getp args ''refundedAmountCents'')) (\<lambda>(rel, ref).
     andThen (releaseRate (getp args ''releaseRatePct'') rel (sm_amountCents (rs_money current))) (\<lambda>rate.
     andThen (if nullish (getp args ''disputeWindowDays'') then Inr (sd_windowDays (rs_dispute current))
              else nonNegDays (getp args ''disputeWindowDays'') ''disputeWindowDays'') (\<lambda>days.
     andThen (disputeWindowEnd t days) (\<lambda>endsAt.
     andThen (decisionArgs args ''auto_resolved'' ''automatic'' JNull) (\<lambda>decision.
       normalizeSettlementRecord lsort (js_of_settlement (current
         \<lparr>rs_money := (rs_money current)\<lparr>sm_status := status, sm_runStatus := Some runStatus,
            sm_releasedAmountCents := rel, sm_refundedAmountCents := ref, sm_releaseRatePct := Some rate,
            sm_resolvedAt := Some t, sm_resolutionEventId := eventId\<rparr>,
          rs_dispute := (clear_dispute (rs_dispute current))\<lparr>sd_windowDays := days, sd_windowEndsAt := endsAt\<rparr>,
          rs_decision := decision\<lparr>sc_updatedAt := Some t\<rparr>,
          rs_revision := add_int (rs_revision current) 1, rs_updatedAt := t\<rparr>)))))))))))))"

definition orTrace :: "props option \<Rightarrow> props option \<Rightarrow> props option" where
  "orTrace a b = (case a of None \<Rightarrow> b | Some _ \<Rightarrow> a)"

definition orString :: "string option \<Rightarrow> string option \<Rightarrow> string option" where
  "orString a b = (case a of None \<Rightarrow> b | Some _ \<Rightarrow> a)"

definition refundReleasedAgentRunSettlement :: "(string list \<Rightarrow> string list) \<Rightarrow> string \<Rightarrow> jsval \<Rightarrow> settlement res" where
  "refundReleasedAgentRunSettlement lsort now args =
     andThen (normalizeSettlementRecord lsort (getp args ''settlement'')) (\<lambda>current.
     andThen (throwIf (sm_status (rs_money current) \<noteq> RELEASED)
                (TypeError ''refundReleasedAgentRunSettlement requires status=released'')) (\<lambda>_.
     andThen (assertNonEmptyString (dflt (getp args ''runStatus'') (JStr ''refunded'')) ''runStatus'') (\<lambda>runStatus.
     andThen (assertIsoDate (dflt (getp args ''at'') (JStr now)) ''at'') (\<lambda>t.
     andThen (optString (getp args ''resolutionEventId'') ''resolutionEventId'') (\<lambda>eventId.
     andThen (decisionArgs args ''manual_resolved'' ''manual-review'' (JStr ''x402_refund_resolved'')) (\<lambda>decision.
       normalizeSettlementRecord lsort (js_of_settlement (current
         \<lparr>rs_money := (rs_money current)\<lparr>sm_status := REFUNDED, sm_runStatus := Some runStatus,
            sm_releasedAmountCents := 0, sm_refundedAmountCents := sm_amountCents (rs_money current),
            sm_releaseRatePct := Some 0, sm_resolvedAt := Some t,
            sm_resolutionEventId := orString eventId (sm_resolutionEventId (rs_money current))\<rparr>,
          rs_dispute := clear_dispute (rs_dispute current),
          rs_decision := decision\<lparr>sc_trace := orTrace (sc_trace decision) (sc_trace (rs_decision current)), sc_updatedAt := Some t\<rparr>,
          rs_revision := add_int (rs_revision current) 1, rs_updatedAt := t\<rparr>))))))))"

definition reconcileResolvedAgentRunSettlement :: "(string list \<Rightarrow> string list) \<Rightarrow> string \<Rightarrow> jsval \<Rightarrow> settlement res" where
  "reconcileResolvedAgentRunSettlement lsort now args =
     andThen (normalizeSettlementRecord lsort (getp args ''settlement'')) (\<lambda>current.
     andThen (throwIf (sm_status (rs_money current) = LOCKED)
                (TypeError ''reconcileResolvedAgentRunSettlement requires a resolved settlement'')) (\<lambda>_.
     andThen (resolutionStatusArg (getp args ''status'')) (\<lambda>status.
     andThen (assertNonEmptyString (orElse (getp args ''runStatus'') (str_of_opt (sm_runStatus (rs_money current)))) ''runStatus'') (\<lambda>runStatus.
     andThen (assertIsoDate (dflt (getp args ''at'') (JStr now)) ''at'') (\<lambda>t.
     andThen (optString (getp args ''resolutionEventId'') ''resolutionEventId'') (\<lambda>eventId.
     andThen (partitionAmounts status (sm_amountCents (rs_money current)) (getp args ''releasedAmountCents'') (getp args ''refundedAmountCents'')) (\<lambda>(rel, ref).
     andThen (releaseRate (getp args ''releaseRatePct'') rel (sm_amountCents (rs_money current))) (\<lambda>rate.
     andThen (decisionArgs args ''manual_resolved'' ''manual-review'' JNull) (\<lambda>decision.
       normalizeSettlementRecord lsort (js_of_settlement (current
         \<lparr>rs_money := (rs_money current)\<lparr>sm_status := status, sm_runStatus := Some runStatus,
            sm_releasedAmountCents := rel, sm_refundedAmountCents := ref, sm_releaseRatePct := Some rate,
            sm_resolvedAt := Some t, sm_resolutionEventId := orString eventId (sm_resolutionEventId (rs_money current))\<rparr>,
          rs_dispute := clear_dispute (rs_dispute current),
          rs_decision := decision\<lparr>sc_trace := orTrace (sc_trace decision) (sc_trace (rs_decision current)), sc_updatedAt := Some t\<rparr>,
          rs_revision := add_int (rs_revision current) 1, rs_updatedAt := t\<rparr>)))))))))))"

definition updateAgentRunSettlementDecision :: "(string list \<Rightarrow> string list) \<Rightarrow> string \<Rightarrow> jsval \<Rightarrow> settlement res" where
  "updateAgentRunSettlementDecision lsort now args =
     andThen (normalizeSettlementRecord lsort (getp args ''settlement'')) (\<lambda>current.
     let c = rs_decision current in
     andThen (throwIf (sm_status (rs_money current) \<noteq> LOCKED)
                (TypeError ''decision updates are only valid for locked settlements'')) (\<lambda>_.
     andThen (assertIsoDate (dflt (getp args ''at'') (JStr now)) ''at'') (\<lambda>t.
     andThen (decisionStatusArg ''decisionStatus'' (orElse (getp args ''decisionStatus'') (JStr (decision_status_str (sc_status c))))) (\<lambda>status.
     andThen (decisionModeArg ''decisionMode'' (orElse (getp args ''decisionMode'') (JStr (decision_mode_str (sc_mode c))))) (\<lambda>mode.
     andThen (if nullish (getp args ''decisionPolicyHash'') then Inr (sc_policyHash c)
              else optTrimmed (getp args ''decisionPolicyHash'') ''decisionPolicyHash'') (\<lambda>policyHash.
     andThen (if nullish (getp args ''decisionReason'') then Inr (sc_reason c)
              else optTrimmed (getp args ''decisionReason'') ''decisionReason'') (\<lambda>reason.
     andThen (optTrace (getp args ''decisionTrace'') ''decisionTrace'') (\<lambda>trace.
       normalizeSettlementRecord lsort (js_of_settlement (current
         \<lparr>rs_decision := \<lparr>sc_status = status, sc_mode = mode, sc_policyHash = policyHash, sc_reason = reason,
            sc_trace = orTrace trace (sc_trace c), sc_updatedAt = Some t\<rparr>,
          rs_revision := add_int (rs_revision current) 1, rs_updatedAt := t\<rparr>))))))))))"

text \<open>\<^verbatim>\<open>contextInput ?? {}\<close>\<close>

definition objOrEmpty :: "jsval \<Rightarrow> jsval" where
  "objOrEmpty v = orElse v (JObj [])"

definition openDispute :: "(string list \<Rightarrow> string list) \<Rightarrow> jsval \<Rightarrow> string \<Rightarrow> settlement \<Rightarrow> settlement res" where
  "openDispute lsort args t current =
     andThen (throwIf (sd_status (rs_dispute current) = DISPUTE_OPEN) (TypeError ''dispute is already open'')) (\<lambda>_.
     andThen (optString (getp args ''disputeId'') ''disputeId'') (\<lambda>disputeId.
     andThen (normalizeDisputeContext lsort (objOrEmpty (getp args ''contextInput'')) ''contextInput'' (JStr ''l1_counterparty'')) (\<lambda>ctxt.
       normalizeSettlementRecord lsort (js_of_settlement (current
         \<lparr>rs_dispute := (rs_dispute current)\<lparr>sd_status := DISPUTE_OPEN,
            sd_disputeId := orString disputeId (orString (sd_disputeId (rs_dispute current)) (Some (''dsp_'' @ si_runId (rs_ids current)))),
            sd_openedAt := Some t, sd_closedAt := None, sd_context := ctxt, sd_resolution := None\<rparr>,
          rs_revision := add_int (rs_revision current) 1, rs_updatedAt := t\<rparr>)))))"

definition closeDispute :: "(string list \<Rightarrow> string list) \<Rightarrow> jsval \<Rightarrow> string \<Rightarrow> settlement \<Rightarrow> settlement res" where
  "closeDispute lsort args t current =
     andThen (throwIf (sd_status (rs_dispute current) \<noteq> DISPUTE_OPEN) (TypeError ''dispute is not open'')) (\<lambda>_.
     andThen (throwIf (\<not> nullish (getp args ''disputeId'')
                  \<and> js_String (getp args ''disputeId'') \<noteq> (case sd_disputeId (rs_dispute current) of None \<Rightarrow> [] | Some i \<Rightarrow> i))
                (TypeError ''disputeId does not match open dispute'')) (\<lambda>_.
     andThen (normalizeDisputeResolution lsort (objOrEmpty (getp args ''resolutionInput'')) ''resolutionInput'' (JStr t)) (\<lambda>resolution.
       normalizeSettlementRecord lsort (js_of_settlement (current
         \<lparr>rs_dispute := (rs_dispute current)\<lparr>sd_status := DISPUTE_CLOSED, sd_closedAt := Some t, sd_resolution := resolution\<rparr>,
          rs_revision := add_int (rs_revision current) 1, rs_updatedAt := t\<rparr>)))))"

definition updateAgentRunSettlementDispute :: "(string list \<Rightarrow> string list) \<Rightarrow> string \<Rightarrow> jsval \<Rightarrow> settlement res" where
  "updateAgentRunSettlementDispute lsort now args =
     andThen (normalizeSettlementRecord lsort (getp args ''settlement'')) (\<lambda>current.
     let action = lowered (orElse (getp args ''action'') (JStr [])) in
     andThen (assertIsoDate (dflt (getp args ''at'') (JStr now)) ''at'') (\<lambda>t.
       if action = ''open'' then openDispute lsort args t current
       else if action = ''close'' then closeDispute lsort args t current
       else Inl (TypeError ''action must be open|close'')))"

definition patchRefs :: "jsval \<Rightarrow> jsval list" where
  "patchRefs patch = (case getp patch ''evidenceRefs'' of JArr xs \<Rightarrow> xs | _ \<Rightarrow> [])"

definition patchAgentRunSettlementDisputeContext :: "(string list \<Rightarrow> string list) \<Rightarrow> string \<Rightarrow> jsval \<Rightarrow> settlement res" where
  "patchAgentRunSettlementDisputeContext lsort now args =
     andThen (normalizeSettlementRecord lsort (getp args ''settlement'')) (\<lambda>current.
     andThen (assertIsoDate (dflt (getp args ''at'') (JStr now)) ''at'') (\<lambda>t.
     andThen (throwIf (sd_status (rs_dispute current) \<noteq> DISPUTE_OPEN) (TypeError ''dispute is not open'')) (\<lambda>_.
     andThen (normalizeDisputeContext lsort (case sd_context (rs_dispute current) of None \<Rightarrow> JObj [] | Some c \<Rightarrow> js_of_context c)
                ''settlement.disputeContext'' (JStr ''l1_counterparty'')) (\<lambda>existing.
     let contextPatch = getp args ''contextPatch''; appendRefs = getp args ''appendEvidenceRefs'' in
     andThen (if nullish contextPatch then Inr () else assertPlainObject contextPatch ''contextPatch'') (\<lambda>_.
     andThen (foldRes (pushRef ''settlement.disputeContext.evidenceRefs'') []
                (enumerate 0 (map JStr (case existing of None \<Rightarrow> [] | Some c \<Rightarrow> dc_evidenceRefs c)))) (\<lambda>refs.
     andThen (foldRes (pushRef ''contextPatch.evidenceRefs'') refs (enumerate 0 (patchRefs contextPatch))) (\<lambda>refs.
     andThen (if nullish appendRefs then Inr refs
              else case appendRefs of JArr xs \<Rightarrow> foldRes (pushRef ''appendEvidenceRefs'') refs (enumerate 0 xs)
                   | _ \<Rightarrow> Inl (TypeError ''appendEvidenceRefs must be an array when provided'')) (\<lambda>refs.
     let merged = spread (own_props (case existing of None \<Rightarrow> JObj [] | Some c \<Rightarrow> js_of_context c))
                    (spread (own_props contextPatch) [(''evidenceRefs'', refs_js refs)]) in
     andThen (normalizeDisputeContext lsort (JObj merged) ''contextPatch''
                (case existing of None \<Rightarrow> JStr ''l1_counterparty'' | Some c \<Rightarrow> JStr (dc_escalationLevel c))) (\<lambda>ctxt.
       normalizeSettlementRecord lsort (js_of_settlement (current
         \<lparr>rs_dispute := (rs_dispute current)\<lparr>sd_context := ctxt\<rparr>,
          rs_revision := add_int (rs_revision current) 1, rs_updatedAt := t\<rparr>)))))))))))"

section \<open>Well-formed settlements\<close>

lemma nullish_simps [simp]: "\<not> nullish (JObj ps)" "\<not> nullish (JStr s)" "\<not> nullish (JNum n)" "nullish JNull" "nullish JUndef" "\<not> nullish (JArr xs)"
  by (simp_all add: nullish_def)

lemma assertPlainObject_obj [simp]: "assertPlainObject (JObj ps) name = Inr ()"
  by (simp add: assertPlainObject_Inr_iff)

definition opt_ok :: "('a \<Rightarrow> bool) \<Rightarrow> 'a option \<Rightarrow> bool" where
  "opt_ok P x = (case x of None \<Rightarrow> True | Some y \<Rightarrow> P y)"

lemma opt_ok_simps [simp]: "opt_ok P None" "opt_ok P (Some y) = P y"
  by (simp_all add: opt_ok_def)

definition is_trimmed :: "string \<Rightarrow> bool" where
  "is_trimmed s \<longleftrightarrow> s \<noteq> [] \<and> trim s = s"

definition wf_refs :: "string list \<Rightarrow> bool" where
  "wf_refs xs \<longleftrightarrow> distinct xs \<and> (\<forall>x \<in> set xs. is_trimmed x)"

text \<open>What the code relies on of \<^verbatim>\<open>sort\<close> with \<^verbatim>\<open>localeCompare\<close>: it permutes, and sorting a sorted
  list changes nothing.\<close>

definition collates :: "(string list \<Rightarrow> string list) \<Rightarrow> bool" where
  "collates lsort \<longleftrightarrow> (\<forall>xs. set (lsort xs) = set xs \<and> distinct (lsort xs) = distinct xs \<and> lsort (lsort xs) = lsort xs)"

definition wf_jurisdiction :: "(string list \<Rightarrow> string list) \<Rightarrow> federation_jurisdiction \<Rightarrow> bool" where
  "wf_jurisdiction lsort j \<longleftrightarrow> fj_policyPath j \<in> set POLICY_PATHS \<and> fj_primaryPlane j \<in> set PRIMARY_PLANES
     \<and> fj_counterpartStatus j \<in> set COUNTERPART_STATUSES \<and> fj_tieBreaker j \<in> set TIE_BREAKS
     \<and> opt_ok (\<lambda>s. is_trimmed s \<and> length s \<le> 256) (fj_disputeCoordinationId j) \<and> opt_ok is_trimmed (fj_authorizationRef j)
     \<and> opt_ok (\<lambda>s. is_trimmed s \<and> length s \<le> 120) (fj_reasonCode j) \<and> opt_ok is_sha256_hex (fj_continuityHash j)
     \<and> opt_ok (\<lambda>s. is_trimmed s \<and> is_iso s) (fj_asOf j) \<and> wf_refs (fj_evidenceRefs j) \<and> wf_refs (fj_invocationRefs j)
     \<and> lsort (fj_evidenceRefs j) = fj_evidenceRefs j \<and> lsort (fj_invocationRefs j) = fj_invocationRefs j"

definition wf_context :: "(string list \<Rightarrow> string list) \<Rightarrow> dispute_context \<Rightarrow> bool" where
  "wf_context lsort c \<longleftrightarrow> dc_type c \<in> set DISPUTE_KINDS \<and> dc_priority c \<in> set DISPUTE_PRIORITIES
     \<and> dc_channel c \<in> set DISPUTE_CHANNELS \<and> dc_escalationLevel c \<in> set ESCALATION_LEVELS
     \<and> opt_ok is_trimmed (dc_openedByAgentId c) \<and> opt_ok is_trimmed (dc_reason c) \<and> wf_refs (dc_evidenceRefs c)
     \<and> opt_ok (wf_jurisdiction lsort) (dc_federationJurisdiction c)"

definition wf_resolution :: "(string list \<Rightarrow> string list) \<Rightarrow> dispute_resolution \<Rightarrow> bool" where
  "wf_resolution lsort r \<longleftrightarrow> dr_outcome r \<in> set RESOLUTION_OUTCOMES \<and> dr_escalationLevel r \<in> set ESCALATION_LEVELS
     \<and> opt_ok is_trimmed (dr_closedByAgentId r) \<and> opt_ok is_trimmed (dr_summary r)
     \<and> opt_ok (\<lambda>s. trim s = s \<and> is_iso s) (dr_closedAt r) \<and> opt_ok (\<lambda>n. 0 \<le> n \<and> n \<le> 100) (dr_releaseRatePct r)
     \<and> rateForOutcome (dr_outcome r) (dr_releaseRatePct r) [] = Inr ()
     \<and> wf_refs (dr_evidenceRefs r) \<and> opt_ok (wf_jurisdiction lsort) (dr_federationJurisdiction r)"

lemma opt_Inr_iff [res_simps]:
  "optString v name = Inr x \<longleftrightarrow> nullish v \<and> x = None \<or> (\<exists>s. v = JStr s \<and> trim s \<noteq> [] \<and> x = Some s)"
  "optIso v name = Inr x \<longleftrightarrow> nullish v \<and> x = None \<or> (\<exists>s. v = JStr s \<and> is_iso s \<and> x = Some s)"
  by (auto simp: optString_def optIso_def res_simps nullish_def)

lemma opt_wf:
  "optString v name = Inr x \<Longrightarrow> opt_ok (\<lambda>s. trim s \<noteq> []) x"
  "optIso v name = Inr x \<Longrightarrow> opt_ok is_iso x"
  "optTrimmed v name = Inr x \<Longrightarrow> opt_ok is_trimmed x"
  "jurisdictionHash v name = Inr x \<Longrightarrow> opt_ok is_sha256_hex x"
  "trimmedClosedAt v name = Inr x \<Longrightarrow> opt_ok (\<lambda>s. trim s = s \<and> is_iso s) x"
  by (auto simp: res_simps optTrimmed_def jurisdictionHash_def trimmedClosedAt_def Let_def is_trimmed_def
      split: if_splits)

lemma ratePct_wf: "ratePct v name = Inr y \<Longrightarrow> opt_ok (\<lambda>n. 0 \<le> n \<and> n \<le> 100) y"
proof (cases "safe_int (js_Number v)")
  case (Some n)
  assume "ratePct v name = Inr y"
  then show ?thesis by (simp add: ratePct_def Some split: if_splits) auto
qed (auto simp: ratePct_def split: if_splits)

lemma optIso_of_js [simp]: "optIso (str_of_opt x) name = Inr y \<longleftrightarrow> y = x \<and> opt_ok is_iso x"
  by (cases x) (auto simp: str_of_opt_def opt_Inr_iff nullish_def)

lemma opt_of_js:
  "opt_ok (\<lambda>s. trim s \<noteq> []) x \<Longrightarrow> optString (str_of_opt x) name = Inr x"
  "opt_ok is_iso x \<Longrightarrow> optIso (str_of_opt x) name = Inr x"
  "opt_ok is_trimmed x \<Longrightarrow> optTrimmed (str_of_opt x) name = Inr x"
  "opt_ok is_sha256_hex x \<Longrightarrow> jurisdictionHash (str_of_opt x) name = Inr x"
  "opt_ok (\<lambda>s. trim s = s \<and> is_iso s) x \<Longrightarrow> trimmedClosedAt (str_of_opt x) name = Inr x"
  "opt_ok (\<lambda>n. 0 \<le> n \<and> n \<le> 100) y \<Longrightarrow> ratePct (case y of None \<Rightarrow> JNull | Some n \<Rightarrow> JInt n) name = Inr y"
proof -
  have s: "is_safe n" if "0 \<le> n" "n \<le> 100" for n using that by (simp add: is_safe_def MAX_SAFE_INTEGER_def)
  show "opt_ok (\<lambda>s. trim s \<noteq> []) x \<Longrightarrow> optString (str_of_opt x) name = Inr x"
    "opt_ok is_iso x \<Longrightarrow> optIso (str_of_opt x) name = Inr x"
    "opt_ok is_trimmed x \<Longrightarrow> optTrimmed (str_of_opt x) name = Inr x"
    "opt_ok is_sha256_hex x \<Longrightarrow> jurisdictionHash (str_of_opt x) name = Inr x"
    "opt_ok (\<lambda>s. trim s = s \<and> is_iso s) x \<Longrightarrow> trimmedClosedAt (str_of_opt x) name = Inr x"
    by (cases x; auto simp: str_of_opt_def res_simps nullish_def optTrimmed_def jurisdictionHash_def trimmedClosedAt_def
        Let_def is_trimmed_def sha256_hex_norm)+
  show "opt_ok (\<lambda>n. 0 \<le> n \<and> n \<le> 100) y \<Longrightarrow> ratePct (case y of None \<Rightarrow> JNull | Some n \<Rightarrow> JInt n) name = Inr y"
    by (cases y) (auto simp: ratePct_def nullish_def s)
qed

lemma enum_norm:
  assumes "list_all (\<lambda>s. toLowerCase (trim s) = s) allowed" and "s \<in> set allowed"
  shows "normalizeEnumValue (JStr s) name allowed = Inr s"
  using assms by (simp add: normalizeEnumValue_def list_all_iff)

lemma enum_Inr: "normalizeEnumValue v name allowed = Inr s \<Longrightarrow> s \<in> set allowed"
  by (auto simp: normalizeEnumValue_def Let_def split: if_splits)

lemma enum_tables:
  "list_all (\<lambda>s. toLowerCase (trim s) = s) DISPUTE_KINDS"
  "list_all (\<lambda>s. toLowerCase (trim s) = s) DISPUTE_PRIORITIES"
  "list_all (\<lambda>s. toLowerCase (trim s) = s) DISPUTE_CHANNELS"
  "list_all (\<lambda>s. toLowerCase (trim s) = s) ESCALATION_LEVELS"
  "list_all (\<lambda>s. toLowerCase (trim s) = s) POLICY_PATHS"
  "list_all (\<lambda>s. toLowerCase (trim s) = s) PRIMARY_PLANES"
  "list_all (\<lambda>s. toLowerCase (trim s) = s) COUNTERPART_STATUSES"
  "list_all (\<lambda>s. toLowerCase (trim s) = s) TIE_BREAKS"
  "list_all (\<lambda>s. toLowerCase (trim s) = s) RESOLUTION_OUTCOMES"
  by code_simp+

lemmas enum_norms = enum_tables[THEN enum_norm]

lemma pushRef_Inr:
  assumes "foldRes (pushRef name) out items = Inr out'" and "wf_refs out"
  shows "wf_refs out' \<and> (\<exists>ext. out' = out @ ext)"
proof (rule foldRes_invariant[OF assms(1)])
  show "wf_refs out \<and> (\<exists>ext. out = out @ ext)" using assms(2) by simp
  show "wf_refs s' \<and> (\<exists>ext. s' = out @ ext)" if "wf_refs s \<and> (\<exists>ext. s = out @ ext)" "pushRef name s x = Inr s'" for s x s'
    using that by (cases x) (auto simp: pushRef_def res_simps wf_refs_def is_trimmed_def split: if_splits)
qed

lemma pushRef_refs:
  "wf_refs (out @ xs) \<Longrightarrow> foldRes (pushRef name) out (enumerate n (map JStr xs)) = Inr (out @ xs)"
proof (induction xs arbitrary: out n)
  case (Cons x xs)
  have "pushRef name out (n, JStr x) = Inr (out @ [x])"
    using Cons.prems by (simp add: pushRef_def assertNonEmptyString_def wf_refs_def is_trimmed_def)
  then show ?case using Cons.IH[of "out @ [x]"] Cons.prems by simp
qed simp

lemma refs_norm: "wf_refs xs \<Longrightarrow> normalizeDisputeEvidenceRefs (refs_js xs) name = Inr xs"
  using pushRef_refs[of "[]" xs] by (simp add: normalizeDisputeEvidenceRefs_def refs_js_def nullish_def)

lemma refs_Inr: "normalizeDisputeEvidenceRefs v name = Inr xs \<Longrightarrow> wf_refs xs"
  by (auto simp: normalizeDisputeEvidenceRefs_def wf_refs_def[of "[]"] split: if_splits jsval.splits dest!: pushRef_Inr)

lemma collates_refs: "collates lsort \<Longrightarrow> wf_refs xs \<Longrightarrow> wf_refs (lsort xs) \<and> lsort (lsort xs) = lsort xs"
  by (simp add: collates_def wf_refs_def)

lemma maxChars_Inr [res_simps]: "maxChars s n msg = Inr u \<longleftrightarrow> opt_ok (\<lambda>t. length t \<le> n) s"
  by (cases s) (auto simp: maxChars_def res_simps)

lemma maxChars_ok: "opt_ok (\<lambda>t. length t \<le> n) s \<Longrightarrow> maxChars s n msg = Inr ()"
  by (simp add: maxChars_Inr)

lemma opt_ok_conj: "opt_ok (\<lambda>y. P y \<and> Q y) x \<longleftrightarrow> opt_ok P x \<and> opt_ok Q x"
  by (cases x) auto

lemma jurisdiction_wf:
  assumes "collates lsort" and "normalizeDisputeFederationJurisdiction lsort v name = Inr j"
  shows "opt_ok (wf_jurisdiction lsort) j"
  using assms
  by (auto simp: normalizeDisputeFederationJurisdiction_def andThen_Inr_iff maxChars_Inr wf_jurisdiction_def opt_ok_conj
      dest!: enum_Inr opt_wf(3,4) refs_Inr dest: collates_refs split: if_splits)

lemma jurisdiction_js:
  assumes "wf_jurisdiction lsort j"
  shows "normalizeDisputeFederationJurisdiction lsort (js_of_jurisdiction j) name = Inr (Some j)"
proof -
  have "trim ''FederationDisputeJurisdiction.v1'' = ''FederationDisputeJurisdiction.v1''" by code_simp
  then show ?thesis using assms
    by (simp add: normalizeDisputeFederationJurisdiction_def js_of_jurisdiction_def wf_jurisdiction_def opt_ok_conj
        enum_norms opt_of_js refs_norm maxChars_ok)
qed

lemma context_wf:
  assumes "collates lsort" and "normalizeDisputeContext lsort v name d = Inr c"
  shows "opt_ok (wf_context lsort) c"
  using assms
  by (auto simp: normalizeDisputeContext_def andThen_Inr_iff wf_context_def
      dest!: enum_Inr opt_wf(3) refs_Inr jurisdiction_wf split: if_splits)

lemma jurisdiction_field_norm:
  assumes "opt_ok (wf_jurisdiction lsort) j"
  shows "normalizeDisputeFederationJurisdiction lsort (getp (JObj (jurisdiction_field j)) ''federationJurisdiction'') name = Inr j"
  using assms by (cases j) (simp_all add: jurisdiction_field_def jurisdiction_js normalizeDisputeFederationJurisdiction_def[of _ JUndef])

lemma context_js:
  assumes "wf_context lsort c"
  shows "normalizeDisputeContext lsort (js_of_context c) name d = Inr (Some c)"
  using assms
  by (simp add: normalizeDisputeContext_def js_of_context_def wf_context_def enum_norms opt_of_js refs_norm
      jurisdiction_field_norm)

lemma rateForOutcome_name: "rateForOutcome r n name = Inr u \<longleftrightarrow> rateForOutcome r n [] = Inr ()"
  by (auto simp: rateForOutcome_def checks_Inr_iff throwIf_Inr_iff)

lemma resolution_wf:
  assumes "collates lsort" and "normalizeDisputeResolution lsort v name d = Inr r"
  shows "opt_ok (wf_resolution lsort) r"
  using assms
  by (auto simp: normalizeDisputeResolution_def andThen_Inr_iff wf_resolution_def rateForOutcome_name[of _ _ name]
      dest!: enum_Inr opt_wf(3,5) ratePct_wf refs_Inr jurisdiction_wf split: if_splits)

lemma resolution_js:
  assumes "wf_resolution lsort r" and "dr_closedAt r = None \<Longrightarrow> nullish d"
  shows "normalizeDisputeResolution lsort (js_of_resolution r) name d = Inr (Some r)"
proof -
  let ?o = "js_of_resolution r"
  have rate: "(if getp ?o ''releaseRatePct'' = JStr [] then JNull else getp ?o ''releaseRatePct'')
    = (case dr_releaseRatePct r of None \<Rightarrow> JUndef | Some n \<Rightarrow> JInt n)"
    by (simp add: js_of_resolution_def jurisdiction_field_def split: option.splits)
  have closed: "trimmedClosedAt (orElse (getp ?o ''closedAt'') d) nm = Inr (dr_closedAt r)" for nm
    using assms opt_of_js(5)[of "dr_closedAt r" nm]
    by (cases "dr_closedAt r") (simp_all add: js_of_resolution_def wf_resolution_def str_of_opt_def trimmedClosedAt_def)
  have refs: "getp ?o ''evidenceRefs'' = refs_js (dr_evidenceRefs r)"
    "getp ?o ''federationJurisdiction'' = getp (JObj (jurisdiction_field (dr_federationJurisdiction r))) ''federationJurisdiction''"
    by (simp_all add: js_of_resolution_def split: option.splits)
  have pct: "ratePct (case dr_releaseRatePct r of None \<Rightarrow> JUndef | Some n \<Rightarrow> JInt n) nm = Inr (dr_releaseRatePct r)" for nm
    using assms(1) opt_of_js(6)[of "dr_releaseRatePct r" nm] by (cases "dr_releaseRatePct r") (simp_all add: wf_resolution_def ratePct_def)
  have head: "getp ?o ''outcome'' = JStr (dr_outcome r)" "getp ?o ''escalationLevel'' = JStr (dr_escalationLevel r)"
    "getp ?o ''closedByAgentId'' = str_of_opt (dr_closedByAgentId r)" "getp ?o ''summary'' = str_of_opt (dr_summary r)"
    "nullish ?o = False" "assertPlainObject ?o name = Inr ()"
    by (simp_all add: js_of_resolution_def)
  show ?thesis unfolding normalizeDisputeResolution_def head rate closed refs pct
    using assms(1) rateForOutcome_name[of "dr_outcome r" "dr_releaseRatePct r" name "()"]
    by (simp add: wf_resolution_def enum_norms opt_of_js refs_norm jurisdiction_field_norm)
qed

definition wf_ids :: "settlement_ids \<Rightarrow> bool" where
  "wf_ids i \<longleftrightarrow> trim (si_settlementId i) \<noteq> [] \<and> trim (si_runId i) \<noteq> [] \<and> trim (si_tenantId i) \<noteq> []
     \<and> trim (si_agentId i) \<noteq> [] \<and> trim (si_payerAgentId i) \<noteq> []"

abbreviation nonblank :: "string \<Rightarrow> bool" where
  "nonblank s \<equiv> trim s \<noteq> []"

definition wf_money :: "settlement_money \<Rightarrow> bool" where
  "wf_money m \<longleftrightarrow> 0 < sm_amountCents m \<and> is_safe (sm_amountCents m) \<and> is_currency_code (sm_currency m)
     \<and> is_iso (sm_lockedAt m) \<and> opt_ok is_iso (sm_resolvedAt m) \<and> opt_ok nonblank (sm_resolutionEventId m)
     \<and> opt_ok nonblank (sm_runStatus m) \<and> is_cents (sm_releasedAmountCents m) \<and> is_cents (sm_refundedAmountCents m)
     \<and> sm_releasedAmountCents m + sm_refundedAmountCents m \<le> sm_amountCents m
     \<and> opt_ok (\<lambda>n. 0 \<le> n \<and> n \<le> 100) (sm_releaseRatePct m)"

definition wf_dispute :: "(string list \<Rightarrow> string list) \<Rightarrow> settlement_dispute \<Rightarrow> bool" where
  "wf_dispute lsort d \<longleftrightarrow> is_cents (sd_windowDays d) \<and> opt_ok is_iso (sd_windowEndsAt d) \<and> opt_ok nonblank (sd_disputeId d)
     \<and> opt_ok is_iso (sd_openedAt d) \<and> opt_ok is_iso (sd_closedAt d) \<and> opt_ok nonblank (sd_verdictId d)
     \<and> opt_ok nonblank (sd_verdictHash d) \<and> opt_ok nonblank (sd_verdictArtifactId d)
     \<and> opt_ok nonblank (sd_verdictSignerKeyId d) \<and> opt_ok is_iso (sd_verdictIssuedAt d)
     \<and> opt_ok (wf_context lsort) (sd_context d)
     \<and> opt_ok (\<lambda>r. wf_resolution lsort r \<and> (dr_closedAt r = None \<longrightarrow> sd_closedAt d = None)) (sd_resolution d)"

definition wf_decision :: "settlement_decision \<Rightarrow> bool" where
  "wf_decision c \<longleftrightarrow> opt_ok nonblank (sc_policyHash c) \<and> opt_ok nonblank (sc_reason c) \<and> opt_ok is_iso (sc_updatedAt c)"

definition wf_settlement :: "(string list \<Rightarrow> string list) \<Rightarrow> settlement \<Rightarrow> bool" where
  "wf_settlement lsort s \<longleftrightarrow> wf_ids (rs_ids s) \<and> wf_money (rs_money s) \<and> wf_dispute lsort (rs_dispute s)
     \<and> wf_decision (rs_decision s) \<and> is_cents (rs_revision s) \<and> is_iso (rs_createdAt s) \<and> is_iso (rs_updatedAt s)"

lemma sum_le_amount: "is_cents a \<Longrightarrow> is_cents b \<Longrightarrow> is_safe n \<Longrightarrow> n < add_int a b \<longleftrightarrow> n < a + b"
proof (cases "is_safe (a + b)")
  case False
  assume h: "is_cents a" "is_cents b" "is_safe n"
  have "\<not> is_safe (add_int a b)" using False by (simp add: safe_add_int)
  moreover have "0 \<le> add_int a b" using h fl_nonneg[of "of_int (a + b)"] by (simp add: add_int_def is_cents_def)
  ultimately show ?thesis using False h by (auto simp: is_safe_def is_cents_def)
qed (simp add: add_int_safe)

lemma nonNegDays_Inr_iff [res_simps]: "nonNegDays v name = Inr n \<longleftrightarrow> safe_int (js_Number v) = Some n \<and> 0 \<le> n"
  by (auto simp: nonNegDays_def split: option.splits)

lemma numberAmount_cents:
  "numberAmount v name True = Inr n \<Longrightarrow> is_cents n"
  "numberAmount v name False = Inr n \<Longrightarrow> 0 < n \<and> is_safe n"
  by (auto simp: numberAmount_Inr_iff is_cents_def dest: safe_int_Some)

text \<open>What validation returns is well-formed.\<close>

lemma ids_wf: "normalizeIds v = Inr i \<Longrightarrow> wf_ids i"
  by (auto simp: normalizeIds_def res_simps wf_ids_def)

lemma money_wf: "normalizeMoney v = Inr m \<Longrightarrow> wf_money m"
  by (auto simp: normalizeMoney_def andThen_Inr_iff throwIf_Inr_iff assertIsoDate_Inr_iff wf_money_def sum_le_amount
      dest!: numberAmount_cents normalizeWalletCurrency_Inr opt_wf(1,2) ratePct_wf)

lemma closedAt_default:
  assumes "normalizeDisputeResolution lsort v name d = Inr (Some r)" and "dr_closedAt r = None"
  shows "nullish d"
  using assms
  by (auto simp: normalizeDisputeResolution_def andThen_Inr_iff trimmedClosedAt_def orElse_def split: if_splits)

lemma dispute_wf:
  assumes "collates lsort" and "normalizeDispute lsort v = Inr d"
  shows "wf_dispute lsort d"
proof -
  obtain r where r: "normalizeDisputeResolution lsort (getp v ''disputeResolution'') ''settlement.disputeResolution''
      (orElse (getp v ''disputeClosedAt'') JNull) = Inr r" "sd_resolution d = r"
    "optIso (getp v ''disputeClosedAt'') ''settlement.disputeClosedAt'' = Inr (sd_closedAt d)"
    using assms(2) by (auto simp: normalizeDispute_def andThen_Inr_iff)
  have "dr_closedAt x = None \<longrightarrow> sd_closedAt d = None" if "r = Some x" for x
    using r that closedAt_default[of lsort] by (fastforce simp: opt_Inr_iff orElse_def split: if_splits)
  then have "opt_ok (\<lambda>x. wf_resolution lsort x \<and> (dr_closedAt x = None \<longrightarrow> sd_closedAt d = None)) (sd_resolution d)"
    using resolution_wf[OF assms(1) r(1)] r(2) by (cases r) auto
  moreover have "is_cents (sd_windowDays d) \<and> opt_ok is_iso (sd_windowEndsAt d) \<and> opt_ok nonblank (sd_disputeId d)
     \<and> opt_ok is_iso (sd_openedAt d) \<and> opt_ok is_iso (sd_closedAt d) \<and> opt_ok nonblank (sd_verdictId d)
     \<and> opt_ok nonblank (sd_verdictHash d) \<and> opt_ok nonblank (sd_verdictArtifactId d)
     \<and> opt_ok nonblank (sd_verdictSignerKeyId d) \<and> opt_ok is_iso (sd_verdictIssuedAt d) \<and> opt_ok (wf_context lsort) (sd_context d)"
    using assms(2) unfolding normalizeDispute_def andThen_Inr_iff
    by (auto simp: nonNegDays_Inr_iff is_cents_def dest!: opt_wf(1,2) context_wf[OF assms(1)] dest: safe_int_Some)
  ultimately show ?thesis by (simp add: wf_dispute_def)
qed

lemma decision_wf: "normalizeDecisionFields v = Inr c \<Longrightarrow> wf_decision c"
  by (auto simp: normalizeDecisionFields_def andThen_Inr_iff wf_decision_def dest!: opt_wf(1,2))

lemma settlement_wf:
  assumes "collates lsort" and "normalizeSettlementRecord lsort v = Inr s"
  shows "wf_settlement lsort s"
  using assms(2)
  by (auto simp: normalizeSettlementRecord_def andThen_Inr_iff assertIsoDate_Inr_iff normalizeRevision_Inr_iff wf_settlement_def
      is_cents_def dest!: ids_wf money_wf dispute_wf[OF assms(1)] decision_wf dest: safe_int_of_Some)

text \<open>Validation of an object laid out from a record. Apart from the currency code and the dispute
  details, which validation would rewrite, what it returns is the record it was given.\<close>

lemma getp_append: "getp (JObj (ps @ qs)) k = (if k \<in> fst ` set ps then getp (JObj ps) k else getp (JObj qs) k)"
  by (induction ps) (auto simp: rev_image_eqI)

lemma enum_arg_str:
  "settlementStatusArg (JStr (settlement_status_str a)) = Inr a"
  "disputeStatusArg (JStr (dispute_status_str b)) = Inr b"
  "decisionStatusArg name (JStr (decision_status_str c)) = Inr c"
  "decisionModeArg name (JStr (decision_mode_str d)) = Inr d"
proof -
  have t: "list_all (\<lambda>a. settlementStatusArg (JStr (settlement_status_str a)) = Inr a) [LOCKED, RELEASED, REFUNDED]"
    "list_all (\<lambda>b. disputeStatusArg (JStr (dispute_status_str b)) = Inr b) [DISPUTE_NONE, DISPUTE_OPEN, DISPUTE_CLOSED]"
    "list_all (\<lambda>c. parse_enum decision_status_str [PENDING, AUTO_RESOLVED, MANUAL_REVIEW_REQUIRED, MANUAL_RESOLVED]
      (lowered (JStr (decision_status_str c))) = Some c) [PENDING, AUTO_RESOLVED, MANUAL_REVIEW_REQUIRED, MANUAL_RESOLVED]"
    "list_all (\<lambda>d. parse_enum decision_mode_str [AUTOMATIC, MANUAL_REVIEW] (lowered (JStr (decision_mode_str d))) = Some d)
      [AUTOMATIC, MANUAL_REVIEW]"
    by code_simp+
  show "settlementStatusArg (JStr (settlement_status_str a)) = Inr a" using t(1) by (cases a) simp_all
  show "disputeStatusArg (JStr (dispute_status_str b)) = Inr b" using t(2) by (cases b) simp_all
  show "decisionStatusArg name (JStr (decision_status_str c)) = Inr c"
    using t(3) unfolding decisionStatusArg_def enum_arg_def by (cases c) simp_all
  show "decisionModeArg name (JStr (decision_mode_str d)) = Inr d"
    using t(4) unfolding decisionModeArg_def enum_arg_def by (cases d) simp_all
qed

lemma optString_of_js [simp]: "optString (str_of_opt x) name = Inr y \<longleftrightarrow> y = x \<and> opt_ok nonblank x"
  by (cases x) (auto simp: str_of_opt_def opt_Inr_iff)

lemma ids_js: "normalizeIds (js_of_settlement s) = Inr i \<longleftrightarrow> i = rs_ids s \<and> wf_ids (rs_ids s)"
  by (auto simp: normalizeIds_def js_of_settlement_def ids_props_def res_simps wf_ids_def)

lemma ratePct_of_js [simp]:
  "ratePct (case y of None \<Rightarrow> JNull | Some n \<Rightarrow> JInt n) name = Inr x \<longleftrightarrow> x = y \<and> opt_ok (\<lambda>n. 0 \<le> n \<and> n \<le> 100) y"
proof
  assume h: "ratePct (case y of None \<Rightarrow> JNull | Some n \<Rightarrow> JInt n) name = Inr x"
  then have "x = y" by (cases y) (auto simp: ratePct_def split: if_splits)
  then show "x = y \<and> opt_ok (\<lambda>n. 0 \<le> n \<and> n \<le> 100) y" using ratePct_wf[OF h] by simp
qed (auto simp: opt_of_js)

lemma money_js:
  assumes "is_currency_code (sm_currency (rs_money s))"
  shows "normalizeMoney (js_of_settlement s) = Inr m \<longleftrightarrow> m = rs_money s \<and> wf_money (rs_money s)" (is "?L \<longleftrightarrow> ?R")
proof
  assume L: ?L
  have "m = rs_money s" using L normalizeWalletCurrency_code[OF assms]
    by (auto simp: normalizeMoney_def js_of_settlement_def ids_props_def money_props_def andThen_Inr_iff throwIf_Inr_iff
        numberAmount_Inr_iff assertIsoDate_Inr_iff enum_arg_str split: if_splits)
  then show ?R using money_wf[OF L] by simp
next
  assume ?R
  then show ?L using normalizeWalletCurrency_code[OF assms]
    by (auto simp: normalizeMoney_def js_of_settlement_def ids_props_def money_props_def andThen_Inr_iff throwIf_Inr_iff
        numberAmount_Inr_iff assertIsoDate_Inr_iff enum_arg_str wf_money_def is_cents_def sum_le_amount[unfolded is_cents_def])
qed


lemma dispute_js:
  assumes "opt_ok (wf_context lsort) (sd_context (rs_dispute s))"
    and "opt_ok (\<lambda>r. wf_resolution lsort r \<and> (dr_closedAt r = None \<longrightarrow> sd_closedAt (rs_dispute s) = None)) (sd_resolution (rs_dispute s))"
    and "collates lsort"
  shows "normalizeDispute lsort (js_of_settlement s) = Inr d \<longleftrightarrow> d = rs_dispute s \<and> wf_dispute lsort (rs_dispute s)" (is "?L \<longleftrightarrow> ?R")
proof -
  let ?d = "rs_dispute s"
  have c: "normalizeDisputeContext lsort (case sd_context ?d of None \<Rightarrow> JNull | Some c \<Rightarrow> js_of_context c) name e = Inr (sd_context ?d)" for name e
    using assms(1) by (cases "sd_context ?d") (simp_all add: context_js normalizeDisputeContext_def[of _ JNull])
  have r: "normalizeDisputeResolution lsort (case sd_resolution ?d of None \<Rightarrow> JNull | Some r \<Rightarrow> js_of_resolution r) name
      (orElse (str_of_opt (sd_closedAt ?d)) JNull) = Inr (sd_resolution ?d)" for name
    using assms(2)
    by (cases "sd_resolution ?d")
       (auto simp: normalizeDisputeResolution_def[of _ JNull] str_of_opt_def split: option.splits intro!: resolution_js)
  have eq: "normalizeDispute lsort (js_of_settlement s) = Inr d \<Longrightarrow> d = ?d"
    by (auto simp: normalizeDispute_def js_of_settlement_def ids_props_def money_props_def dispute_props_def andThen_Inr_iff
        nonNegDays_Inr_iff enum_arg_str c r split: if_splits)
  show ?thesis
  proof
    assume L: ?L
    then show ?R using eq dispute_wf[OF assms(3) L] by simp
  next
    assume ?R
    then show ?L
      by (auto simp: normalizeDispute_def js_of_settlement_def ids_props_def money_props_def dispute_props_def andThen_Inr_iff
          nonNegDays_Inr_iff enum_arg_str c r wf_dispute_def is_cents_def)
  qed
qed

lemma optTrace_of_js [simp]: "optTrace (case t of None \<Rightarrow> JNull | Some ps \<Rightarrow> JObj ps) name = Inr u \<longleftrightarrow> u = t"
  by (cases t) (auto simp: optTrace_def own_props_def)

lemma decision_js: "normalizeDecisionFields (js_of_settlement s) = Inr c \<longleftrightarrow> c = rs_decision s \<and> wf_decision (rs_decision s)"
  by (auto simp: normalizeDecisionFields_def js_of_settlement_def ids_props_def money_props_def dispute_props_def
      decision_props_def andThen_Inr_iff enum_arg_str wf_decision_def)

text \<open>The parts of a record that validation might rewrite.\<close>

definition canonical_parts :: "(string list \<Rightarrow> string list) \<Rightarrow> settlement \<Rightarrow> bool" where
  "canonical_parts lsort s \<longleftrightarrow> is_currency_code (sm_currency (rs_money s)) \<and> opt_ok (wf_context lsort) (sd_context (rs_dispute s))
     \<and> opt_ok (\<lambda>r. wf_resolution lsort r \<and> (dr_closedAt r = None \<longrightarrow> sd_closedAt (rs_dispute s) = None)) (sd_resolution (rs_dispute s))"

lemma settlement_js:
  assumes "collates lsort" and "canonical_parts lsort u"
  shows "normalizeSettlementRecord lsort (js_of_settlement u) = Inr s \<longleftrightarrow> s = u \<and> wf_settlement lsort u"
proof -
  note parts = assms(2)[unfolded canonical_parts_def]
  have tail: "getp (js_of_settlement u) ''schemaVersion'' = JStr ''AgentRunSettlement.v1''"
    "getp (js_of_settlement u) ''revision'' = JInt (rs_revision u)" "getp (js_of_settlement u) ''createdAt'' = JStr (rs_createdAt u)"
    "getp (js_of_settlement u) ''updatedAt'' = JStr (rs_updatedAt u)" "assertPlainObject (js_of_settlement u) name = Inr ()" for name
    by (simp_all add: js_of_settlement_def ids_props_def money_props_def dispute_props_def decision_props_def)
  show ?thesis
    using parts assms(1)
    by (auto simp: normalizeSettlementRecord_def tail andThen_Inr_iff ids_js money_js dispute_js decision_js
        normalizeRevision_Inr_iff assertIsoDate_Inr_iff wf_settlement_def is_cents_def split: if_splits)
qed

lemma wf_canonical_parts: "wf_settlement lsort s \<Longrightarrow> canonical_parts lsort s"
  by (simp add: wf_settlement_def canonical_parts_def wf_money_def wf_dispute_def)

section \<open>Steps\<close>

lemma partition_Inr:
  assumes "partitionAmounts st amount a b = Inr (rel, ref)" and "0 < amount" and "is_safe amount"
  shows "is_cents rel \<and> is_cents ref \<and> rel + ref = amount"
proof -
  have r: "is_cents rel" "is_cents ref" "add_int rel ref = amount"
    using assms by (auto simp: partitionAmounts_def andThen_Inr_iff throwIf_Inr_iff is_cents_def assertAmountCents_Inr_iff
        split: if_splits dest: numberAmount_cents(1)[unfolded is_cents_def])
  then have "is_safe (rel + ref)" using assms(3) by (simp flip: safe_add_int)
  then show ?thesis using r by (simp add: add_int_safe)
qed

text \<open>What every operation on an existing settlement keeps: identifiers, principal, currency and
  creation data; and what it changes: the revision, by one.\<close>

definition same_contract :: "settlement \<Rightarrow> settlement \<Rightarrow> bool" where
  "same_contract s s' \<longleftrightarrow> rs_ids s' = rs_ids s \<and> sm_amountCents (rs_money s') = sm_amountCents (rs_money s)
     \<and> sm_currency (rs_money s') = sm_currency (rs_money s) \<and> sm_lockedAt (rs_money s') = sm_lockedAt (rs_money s)
     \<and> rs_createdAt s' = rs_createdAt s"

definition partitioned :: "settlement \<Rightarrow> bool" where
  "partitioned s \<longleftrightarrow>
     (case sm_status (rs_money s) of
        LOCKED \<Rightarrow> sm_releasedAmountCents (rs_money s) = 0 \<and> sm_refundedAmountCents (rs_money s) = 0
      | _ \<Rightarrow> sm_releasedAmountCents (rs_money s) + sm_refundedAmountCents (rs_money s) = sm_amountCents (rs_money s))"

lemma revision_step: "is_cents r \<Longrightarrow> is_cents (add_int r 1) \<Longrightarrow> add_int r 1 = r + 1"
  by (simp add: is_cents_def safe_add_int add_int_safe)

lemma clear_dispute_parts:
  "opt_ok P (sd_context (clear_dispute d))" "opt_ok Q (sd_resolution (clear_dispute d))"
  by (simp_all add: clear_dispute_def)

definition stepped :: "(string list \<Rightarrow> string list) \<Rightarrow> settlement \<Rightarrow> settlement \<Rightarrow> bool" where
  "stepped lsort s s' \<longleftrightarrow> wf_settlement lsort s' \<and> same_contract s s' \<and> rs_revision s' = rs_revision s + 1"

lemma update_steps:
  assumes "collates lsort" and "wf_settlement lsort s"
    and norm: "normalizeSettlementRecord lsort (js_of_settlement (u\<lparr>rs_revision := add_int (rs_revision s) 1, rs_updatedAt := t\<rparr>)) = Inr s'"
    and keep: "same_contract s u"
    and ctxt: "opt_ok (wf_context lsort) (sd_context (rs_dispute u))"
    and res: "opt_ok (\<lambda>r. wf_resolution lsort r \<and> (dr_closedAt r = None \<longrightarrow> sd_closedAt (rs_dispute u) = None)) (sd_resolution (rs_dispute u))"
  shows "stepped lsort s s' \<and> s' = u\<lparr>rs_revision := rs_revision s + 1, rs_updatedAt := t\<rparr>"
proof -
  let ?u = "u\<lparr>rs_revision := add_int (rs_revision s) 1, rs_updatedAt := t\<rparr>"
  have "is_currency_code (sm_currency (rs_money u))"
    using assms(2) keep by (simp add: wf_settlement_def wf_money_def same_contract_def)
  then have "canonical_parts lsort ?u" using ctxt res by (simp add: canonical_parts_def)
  then have s': "s' = ?u" "wf_settlement lsort ?u" using norm by (simp_all add: settlement_js[OF assms(1)])
  moreover have "add_int (rs_revision s) 1 = rs_revision s + 1"
    using revision_step[of "rs_revision s"] assms(2) s'(2) by (simp add: wf_settlement_def)
  ultimately show ?thesis using keep by (simp add: stepped_def same_contract_def)
qed

lemmas wf_parts = wf_settlement_def wf_money_def wf_dispute_def

lemma resolve_step:
  assumes "collates lsort" and "resolveAgentRunSettlement lsort now args = Inr s'"
  shows "\<exists>s. normalizeSettlementRecord lsort (getp args ''settlement'') = Inr s \<and> stepped lsort s s'
    \<and> sm_status (rs_money s) = LOCKED \<and> sm_status (rs_money s') \<noteq> LOCKED \<and> partitioned s'
    \<and> sd_status (rs_dispute s') = DISPUTE_NONE"
proof -
  from assms(2) obtain s status runStatus t eventId rel ref rate days endsAt decision where
    n: "normalizeSettlementRecord lsort (getp args ''settlement'') = Inr s" and st: "resolutionStatusArg (getp args ''status'') = Inr status"
    and lk: "sm_status (rs_money s) = LOCKED"
    and pa: "partitionAmounts status (sm_amountCents (rs_money s)) (getp args ''releasedAmountCents'') (getp args ''refundedAmountCents'') = Inr (rel, ref)"
    and u: "normalizeSettlementRecord lsort (js_of_settlement (s
         \<lparr>rs_money := (rs_money s)\<lparr>sm_status := status, sm_runStatus := Some runStatus,
            sm_releasedAmountCents := rel, sm_refundedAmountCents := ref, sm_releaseRatePct := Some rate,
            sm_resolvedAt := Some t, sm_resolutionEventId := eventId\<rparr>,
          rs_dispute := (clear_dispute (rs_dispute s))\<lparr>sd_windowDays := days, sd_windowEndsAt := endsAt\<rparr>,
          rs_decision := decision\<lparr>sc_updatedAt := Some t\<rparr>,
          rs_revision := add_int (rs_revision s) 1, rs_updatedAt := t\<rparr>)) = Inr s'"
    unfolding resolveAgentRunSettlement_def by (auto simp: andThen_Inr_iff throwIf_Inr_iff)
  have wf: "wf_settlement lsort s" using settlement_wf[OF assms(1) n] .
  note s' = update_steps[OF assms(1) wf u]
  have "rel + ref = sm_amountCents (rs_money s)" using partition_Inr[OF pa] wf by (simp add: wf_parts)
  moreover have "status = RELEASED \<or> status = REFUNDED" using st by (auto simp: resolutionStatusArg_def Let_def split: if_splits)
  ultimately show ?thesis using n lk s'
    by (auto simp: same_contract_def partitioned_def clear_dispute_def)
qed

lemma refundReleased_step:
  assumes "collates lsort" and "refundReleasedAgentRunSettlement lsort now args = Inr s'"
  shows "\<exists>s. normalizeSettlementRecord lsort (getp args ''settlement'') = Inr s \<and> stepped lsort s s'
    \<and> sm_status (rs_money s) = RELEASED \<and> sm_status (rs_money s') = REFUNDED \<and> partitioned s'
    \<and> sd_status (rs_dispute s') = DISPUTE_NONE"
proof -
  from assms(2) obtain s runStatus t eventId decision where
    n: "normalizeSettlementRecord lsort (getp args ''settlement'') = Inr s" and lk: "sm_status (rs_money s) = RELEASED"
    and u: "normalizeSettlementRecord lsort (js_of_settlement (s
         \<lparr>rs_money := (rs_money s)\<lparr>sm_status := REFUNDED, sm_runStatus := Some runStatus,
            sm_releasedAmountCents := 0, sm_refundedAmountCents := sm_amountCents (rs_money s),
            sm_releaseRatePct := Some 0, sm_resolvedAt := Some t,
            sm_resolutionEventId := orString eventId (sm_resolutionEventId (rs_money s))\<rparr>,
          rs_dispute := clear_dispute (rs_dispute s),
          rs_decision := decision\<lparr>sc_trace := orTrace (sc_trace decision) (sc_trace (rs_decision s)), sc_updatedAt := Some t\<rparr>,
          rs_revision := add_int (rs_revision s) 1, rs_updatedAt := t\<rparr>)) = Inr s'"
    unfolding refundReleasedAgentRunSettlement_def by (auto simp: andThen_Inr_iff throwIf_Inr_iff)
  have wf: "wf_settlement lsort s" using settlement_wf[OF assms(1) n] .
  show ?thesis using n lk update_steps[OF assms(1) wf u]
    by (auto simp: same_contract_def partitioned_def clear_dispute_def)
qed

lemma reconcile_step:
  assumes "collates lsort" and "reconcileResolvedAgentRunSettlement lsort now args = Inr s'"
  shows "\<exists>s. normalizeSettlementRecord lsort (getp args ''settlement'') = Inr s \<and> stepped lsort s s'
    \<and> sm_status (rs_money s) \<noteq> LOCKED \<and> sm_status (rs_money s') \<noteq> LOCKED \<and> partitioned s'
    \<and> sd_status (rs_dispute s') = DISPUTE_NONE"
proof -
  from assms(2) obtain s status runStatus t eventId rel ref rate decision where
    n: "normalizeSettlementRecord lsort (getp args ''settlement'') = Inr s" and st: "resolutionStatusArg (getp args ''status'') = Inr status"
    and lk: "sm_status (rs_money s) \<noteq> LOCKED"
    and pa: "partitionAmounts status (sm_amountCents (rs_money s)) (getp args ''releasedAmountCents'') (getp args ''refundedAmountCents'') = Inr (rel, ref)"
    and u: "normalizeSettlementRecord lsort (js_of_settlement (s
         \<lparr>rs_money := (rs_money s)\<lparr>sm_status := status, sm_runStatus := Some runStatus,
            sm_releasedAmountCents := rel, sm_refundedAmountCents := ref, sm_releaseRatePct := Some rate,
            sm_resolvedAt := Some t, sm_resolutionEventId := orString eventId (sm_resolutionEventId (rs_money s))\<rparr>,
          rs_dispute := clear_dispute (rs_dispute s),
          rs_decision := decision\<lparr>sc_trace := orTrace (sc_trace decision) (sc_trace (rs_decision s)), sc_updatedAt := Some t\<rparr>,
          rs_revision := add_int (rs_revision s) 1, rs_updatedAt := t\<rparr>)) = Inr s'"
    unfolding reconcileResolvedAgentRunSettlement_def by (auto simp: andThen_Inr_iff throwIf_Inr_iff)
  have wf: "wf_settlement lsort s" using settlement_wf[OF assms(1) n] .
  have "rel + ref = sm_amountCents (rs_money s)" using partition_Inr[OF pa] wf by (simp add: wf_parts)
  moreover have "status = RELEASED \<or> status = REFUNDED" using st by (auto simp: resolutionStatusArg_def Let_def split: if_splits)
  ultimately show ?thesis using n lk update_steps[OF assms(1) wf u]
    by (auto simp: same_contract_def partitioned_def clear_dispute_def)
qed

lemma wf_dispute_parts:
  assumes "wf_settlement lsort s"
  shows "opt_ok (wf_context lsort) (sd_context (rs_dispute s))"
    "opt_ok (\<lambda>r. wf_resolution lsort r \<and> (dr_closedAt r = None \<longrightarrow> sd_closedAt (rs_dispute s) = None)) (sd_resolution (rs_dispute s))"
  using assms by (simp_all add: wf_parts)

lemma decision_step:
  assumes "collates lsort" and "updateAgentRunSettlementDecision lsort now args = Inr s'"
  shows "\<exists>s. normalizeSettlementRecord lsort (getp args ''settlement'') = Inr s \<and> stepped lsort s s'
    \<and> sm_status (rs_money s) = LOCKED \<and> rs_money s' = rs_money s \<and> rs_dispute s' = rs_dispute s"
proof -
  from assms(2) obtain s t d where
    n: "normalizeSettlementRecord lsort (getp args ''settlement'') = Inr s" and lk: "sm_status (rs_money s) = LOCKED"
    and u: "normalizeSettlementRecord lsort (js_of_settlement (s
         \<lparr>rs_decision := d, rs_revision := add_int (rs_revision s) 1, rs_updatedAt := t\<rparr>)) = Inr s'"
    unfolding updateAgentRunSettlementDecision_def Let_def by (auto simp: andThen_Inr_iff throwIf_Inr_iff)
  have wf: "wf_settlement lsort s" using settlement_wf[OF assms(1) n] .
  show ?thesis using n lk update_steps[OF assms(1) wf u] wf_dispute_parts[OF wf]
    by (auto simp: same_contract_def)
qed

text \<open>What a request to open, respectively to close, a dispute makes of the dispute of a settlement at time \<open>t\<close>.\<close>

definition opened_dispute :: "jsval \<Rightarrow> string \<Rightarrow> settlement \<Rightarrow> settlement_dispute \<Rightarrow> bool" where
  "opened_dispute args t s d \<longleftrightarrow> sd_status (rs_dispute s) \<noteq> DISPUTE_OPEN \<and> sd_status d = DISPUTE_OPEN
     \<and> sd_openedAt d = Some t \<and> sd_closedAt d = None \<and> sd_resolution d = None
     \<and> (\<exists>i. sd_disputeId d = Some i \<and>
          (getp args ''disputeId'' = JStr i
           \<or> nullish (getp args ''disputeId'')
             \<and> (sd_disputeId (rs_dispute s) = Some i \<or> sd_disputeId (rs_dispute s) = None \<and> i = ''dsp_'' @ si_runId (rs_ids s))))"

definition closed_dispute :: "jsval \<Rightarrow> string \<Rightarrow> settlement \<Rightarrow> settlement_dispute \<Rightarrow> bool" where
  "closed_dispute args t s d \<longleftrightarrow> sd_status (rs_dispute s) = DISPUTE_OPEN
     \<and> (nullish (getp args ''disputeId'') \<or> js_String (getp args ''disputeId'') = (case sd_disputeId (rs_dispute s) of None \<Rightarrow> [] | Some i \<Rightarrow> i))
     \<and> (\<exists>r. d = (rs_dispute s)\<lparr>sd_status := DISPUTE_CLOSED, sd_closedAt := Some t, sd_resolution := Some r\<rparr>)"

lemma optString_given: "optString v name = Inr i \<Longrightarrow> (case i of None \<Rightarrow> nullish v | Some x \<Rightarrow> v = JStr x)"
  by (auto simp: optString_def andThen_Inr_iff assertNonEmptyString_def split: if_splits jsval.splits)

lemma dispute_step:
  assumes "collates lsort" and "updateAgentRunSettlementDispute lsort now args = Inr s'"
  shows "\<exists>s t. normalizeSettlementRecord lsort (getp args ''settlement'') = Inr s \<and> stepped lsort s s'
    \<and> assertIsoDate (dflt (getp args ''at'') (JStr now)) ''at'' = Inr t
    \<and> rs_money s' = rs_money s \<and> rs_decision s' = rs_decision s
    \<and> (if lowered (orElse (getp args ''action'') (JStr [])) = ''open'' then opened_dispute args t s (rs_dispute s')
       else lowered (orElse (getp args ''action'') (JStr [])) = ''close'' \<and> closed_dispute args t s (rs_dispute s'))"
proof -
  let ?a = "lowered (orElse (getp args ''action'') (JStr []))"
  from assms(2) obtain s t where n: "normalizeSettlementRecord lsort (getp args ''settlement'') = Inr s"
    and t: "assertIsoDate (dflt (getp args ''at'') (JStr now)) ''at'' = Inr t"
    and oc: "?a = ''open'' \<and> openDispute lsort args t s = Inr s' \<or> ?a \<noteq> ''open'' \<and> ?a = ''close'' \<and> closeDispute lsort args t s = Inr s'"
    unfolding updateAgentRunSettlementDispute_def Let_def by (auto simp: andThen_Inr_iff split: if_splits)
  have wf: "wf_settlement lsort s" using settlement_wf[OF assms(1) n] .
  from oc show ?thesis
  proof
    assume o: "?a = ''open'' \<and> openDispute lsort args t s = Inr s'"
    then obtain i c where op: "sd_status (rs_dispute s) \<noteq> DISPUTE_OPEN"
      and i: "optString (getp args ''disputeId'') ''disputeId'' = Inr i"
      and c: "normalizeDisputeContext lsort (objOrEmpty (getp args ''contextInput'')) ''contextInput'' (JStr ''l1_counterparty'') = Inr c"
      and u: "normalizeSettlementRecord lsort (js_of_settlement (s
         \<lparr>rs_dispute := (rs_dispute s)\<lparr>sd_status := DISPUTE_OPEN,
            sd_disputeId := orString i (orString (sd_disputeId (rs_dispute s)) (Some (''dsp_'' @ si_runId (rs_ids s)))),
            sd_openedAt := Some t, sd_closedAt := None, sd_context := c, sd_resolution := None\<rparr>,
          rs_revision := add_int (rs_revision s) 1, rs_updatedAt := t\<rparr>)) = Inr s'"
      by (auto simp: openDispute_def andThen_Inr_iff throwIf_Inr_iff)
    let ?i = "orString i (orString (sd_disputeId (rs_dispute s)) (Some (''dsp_'' @ si_runId (rs_ids s))))"
    let ?d = "(rs_dispute s)\<lparr>sd_status := DISPUTE_OPEN, sd_disputeId := ?i, sd_openedAt := Some t, sd_closedAt := None, sd_context := c, sd_resolution := None\<rparr>"
    have s': "stepped lsort s s'" "s' = (s\<lparr>rs_dispute := ?d\<rparr>)\<lparr>rs_revision := rs_revision s + 1, rs_updatedAt := t\<rparr>"
      using update_steps[OF assms(1) wf u] context_wf[OF assms(1) c] by (auto simp: same_contract_def)
    have d: "rs_dispute s' = ?d" "rs_money s' = rs_money s" "rs_decision s' = rs_decision s" using s'(2) by simp_all
    have "opened_dispute args t s (rs_dispute s')"
      unfolding opened_dispute_def d(1) using op optString_given[OF i] by (auto simp: orString_def split: option.splits)
    then show ?thesis using n t o s'(1) d(2,3) by auto
  next
    assume o: "?a \<noteq> ''open'' \<and> ?a = ''close'' \<and> closeDispute lsort args t s = Inr s'"
    then obtain r where op: "sd_status (rs_dispute s) = DISPUTE_OPEN"
      and i: "nullish (getp args ''disputeId'') \<or> js_String (getp args ''disputeId'') = (case sd_disputeId (rs_dispute s) of None \<Rightarrow> [] | Some i \<Rightarrow> i)"
      and r: "normalizeDisputeResolution lsort (objOrEmpty (getp args ''resolutionInput'')) ''resolutionInput'' (JStr t) = Inr r"
      and u: "normalizeSettlementRecord lsort (js_of_settlement (s
         \<lparr>rs_dispute := (rs_dispute s)\<lparr>sd_status := DISPUTE_CLOSED, sd_closedAt := Some t, sd_resolution := r\<rparr>,
          rs_revision := add_int (rs_revision s) 1, rs_updatedAt := t\<rparr>)) = Inr s'"
      by (auto simp: closeDispute_def andThen_Inr_iff throwIf_Inr_iff)
    have "r \<noteq> None" using r by (auto simp: normalizeDisputeResolution_def objOrEmpty_def orElse_def andThen_Inr_iff split: if_splits)
    moreover have "dr_closedAt x \<noteq> None" if "r = Some x" for x
      using closedAt_default[of lsort] r that by fastforce
    ultimately obtain x where x: "r = Some x" "dr_closedAt x \<noteq> None" by blast
    let ?d = "(rs_dispute s)\<lparr>sd_status := DISPUTE_CLOSED, sd_closedAt := Some t, sd_resolution := Some x\<rparr>"
    have res: "wf_resolution lsort x" using resolution_wf[OF assms(1) r] x(1) by simp
    have s': "stepped lsort s s'" "s' = (s\<lparr>rs_dispute := ?d\<rparr>)\<lparr>rs_revision := rs_revision s + 1, rs_updatedAt := t\<rparr>"
      using update_steps[OF assms(1) wf u] res x wf_dispute_parts(1)[OF wf] by (auto simp: same_contract_def)
    have d: "rs_dispute s' = ?d" "rs_money s' = rs_money s" "rs_decision s' = rs_decision s" using s'(2) by simp_all
    have "closed_dispute args t s (rs_dispute s')" unfolding closed_dispute_def d(1) using op i by blast
    then show ?thesis using n t o s'(1) d(2,3) by auto
  qed
qed

lemma patch_step:
  assumes "collates lsort" and "patchAgentRunSettlementDisputeContext lsort now args = Inr s'"
  shows "\<exists>s. normalizeSettlementRecord lsort (getp args ''settlement'') = Inr s \<and> stepped lsort s s'
    \<and> rs_money s' = rs_money s \<and> rs_decision s' = rs_decision s
    \<and> sd_status (rs_dispute s) = DISPUTE_OPEN \<and> sd_status (rs_dispute s') = DISPUTE_OPEN"
proof -
  from assms(2) obtain s t c v d where
    n: "normalizeSettlementRecord lsort (getp args ''settlement'') = Inr s" and op: "sd_status (rs_dispute s) = DISPUTE_OPEN"
    and c: "normalizeDisputeContext lsort v ''contextPatch'' d = Inr c"
    and u: "normalizeSettlementRecord lsort (js_of_settlement (s
         \<lparr>rs_dispute := (rs_dispute s)\<lparr>sd_context := c\<rparr>, rs_revision := add_int (rs_revision s) 1, rs_updatedAt := t\<rparr>)) = Inr s'"
    unfolding patchAgentRunSettlementDisputeContext_def Let_def by (auto simp: andThen_Inr_iff throwIf_Inr_iff split del: option.split)
  have wf: "wf_settlement lsort s" using settlement_wf[OF assms(1) n] .
  show ?thesis using n op update_steps[OF assms(1) wf u] context_wf[OF assms(1) c] wf_dispute_parts(2)[OF wf]
    by (auto simp: same_contract_def)
qed

section \<open>The life of a settlement\<close>

inductive settlement_step :: "(string list \<Rightarrow> string list) \<Rightarrow> settlement \<Rightarrow> settlement \<Rightarrow> bool" for lsort where
  resolve: "getp args ''settlement'' = js_of_settlement s \<Longrightarrow> resolveAgentRunSettlement lsort now args = Inr s' \<Longrightarrow> settlement_step lsort s s'"
| refund: "getp args ''settlement'' = js_of_settlement s \<Longrightarrow> refundReleasedAgentRunSettlement lsort now args = Inr s' \<Longrightarrow> settlement_step lsort s s'"
| reconcile: "getp args ''settlement'' = js_of_settlement s \<Longrightarrow> reconcileResolvedAgentRunSettlement lsort now args = Inr s' \<Longrightarrow> settlement_step lsort s s'"
| decide: "getp args ''settlement'' = js_of_settlement s \<Longrightarrow> updateAgentRunSettlementDecision lsort now args = Inr s' \<Longrightarrow> settlement_step lsort s s'"
| dispute: "getp args ''settlement'' = js_of_settlement s \<Longrightarrow> updateAgentRunSettlementDispute lsort now args = Inr s' \<Longrightarrow> settlement_step lsort s s'"
| patch: "getp args ''settlement'' = js_of_settlement s \<Longrightarrow> patchAgentRunSettlementDisputeContext lsort now args = Inr s' \<Longrightarrow> settlement_step lsort s s'"

lemma partitioned_cong: "rs_money s' = rs_money s \<Longrightarrow> partitioned s' = partitioned s"
  by (simp only: partitioned_def)

lemma settlement_step_facts:
  assumes "collates lsort" and "wf_settlement lsort s" and "settlement_step lsort s s'"
  shows "stepped lsort s s' \<and> (partitioned s \<longrightarrow> partitioned s') \<and> (sm_status (rs_money s) \<noteq> LOCKED \<longrightarrow> sm_status (rs_money s') \<noteq> LOCKED)"
proof -
  have self: "normalizeSettlementRecord lsort (js_of_settlement s) = Inr s"
    using settlement_js[OF assms(1) wf_canonical_parts] assms(2) by blast
  from assms(3) show ?thesis
  proof cases
    case (resolve args now)
    then show ?thesis using resolve_step[OF assms(1) resolve(2)] self by auto
  next
    case (refund args now)
    then show ?thesis using refundReleased_step[OF assms(1) refund(2)] self by auto
  next
    case (reconcile args now)
    then show ?thesis using reconcile_step[OF assms(1) reconcile(2)] self by auto
  next
    case (decide args now)
    then show ?thesis using decision_step[OF assms(1) decide(2)] self partitioned_cong[of s' s] by auto
  next
    case (dispute args now)
    then show ?thesis using dispute_step[OF assms(1) dispute(2)] self partitioned_cong[of s' s] by auto
  next
    case (patch args now)
    then show ?thesis using patch_step[OF assms(1) patch(2)] self partitioned_cong[of s' s] by auto
  qed
qed

lemma create_facts:
  assumes "collates lsort" and "createAgentRunSettlement lsort now args = Inr c"
  shows "wf_settlement lsort c \<and> partitioned c \<and> sm_status (rs_money c) = LOCKED \<and> rs_revision c = 0"
proof -
  from assms(2) obtain u where u: "normalizeSettlementRecord lsort (js_of_settlement u) = Inr c"
    and cp: "canonical_parts lsort u" and p: "partitioned u" "sm_status (rs_money u) = LOCKED" "rs_revision u = 0"
    unfolding createAgentRunSettlement_def
    by (auto simp: andThen_Inr_iff canonical_parts_def no_dispute_def partitioned_def dest!: normalizeWalletCurrency_Inr)
  then show ?thesis using settlement_js[OF assms(1) cp] by auto
qed

lemma run_facts:
  assumes "collates lsort" and "(settlement_step lsort)\<^sup>*\<^sup>* s s'" and "wf_settlement lsort s"
  shows "wf_settlement lsort s' \<and> same_contract s s' \<and> rs_revision s \<le> rs_revision s' \<and> (s' \<noteq> s \<longrightarrow> rs_revision s < rs_revision s')
    \<and> (partitioned s \<longrightarrow> partitioned s') \<and> (sm_status (rs_money s) \<noteq> LOCKED \<longrightarrow> sm_status (rs_money s') \<noteq> LOCKED)"
  using assms(2)
proof (induction rule: rtranclp_induct)
  case base
  then show ?case using assms(3) by (simp add: same_contract_def)
next
  case (step t u)
  then show ?case using settlement_step_facts[OF assms(1) _ step(2)] by (auto simp: stepped_def same_contract_def)
qed

text \<open>Validation of settlements is idempotent: whatever \<^verbatim>\<open>normalizeSettlementRecord\<close> accepts becomes a
  well-formed settlement, dispute context, resolution and jurisdiction included, and validating
  the result again returns it unchanged.\<close>

theorem settlement_normalize_roundtrip:
  assumes "collates lsort" and "normalizeSettlementRecord lsort v = Inr s"
  shows "wf_settlement lsort s \<and> normalizeSettlementRecord lsort (js_of_settlement s) = Inr s"
  using settlement_wf[OF assms] settlement_js[OF assms(1) wf_canonical_parts] by blast

text \<open>C6: The settlement partition invariant. In every state that any sequence of resolve, refund,
  reconcile, decision, dispute and patch operations reaches from a created settlement, the
  identifiers, principal and currency are those of the creation, a locked settlement has nothing
  released or refunded, and a resolved one has released and refunded parts that are non-negative
  and add up to the principal; every change raises the revision, and a resolved settlement never
  becomes locked again.\<close>

theorem settlement_lifecycle:
  assumes "collates lsort" and "createAgentRunSettlement lsort now args = Inr c"
    and "(settlement_step lsort)\<^sup>*\<^sup>* c s"
  shows "same_contract c s \<and> partitioned s \<and> 0 \<le> sm_releasedAmountCents (rs_money s) \<and> 0 \<le> sm_refundedAmountCents (rs_money s)
    \<and> (\<forall>s'. (settlement_step lsort)\<^sup>*\<^sup>* s s' \<and> s' \<noteq> s \<longrightarrow> rs_revision s < rs_revision s')
    \<and> (\<forall>s'. (settlement_step lsort)\<^sup>*\<^sup>* s s' \<and> sm_status (rs_money s) \<noteq> LOCKED \<longrightarrow> sm_status (rs_money s') \<noteq> LOCKED)"
proof -
  have c: "wf_settlement lsort c" "partitioned c" using create_facts[OF assms(1,2)] by blast+
  have s: "wf_settlement lsort s" "same_contract c s" "partitioned s"
    using run_facts[OF assms(1,3) c(1)] c(2) by blast+
  have "rs_revision s < rs_revision s'" if "(settlement_step lsort)\<^sup>*\<^sup>* s s'" "s' \<noteq> s" for s'
    using run_facts[OF assms(1) that(1) s(1)] that(2) by blast
  moreover have "sm_status (rs_money s') \<noteq> LOCKED" if "(settlement_step lsort)\<^sup>*\<^sup>* s s'" "sm_status (rs_money s) \<noteq> LOCKED" for s'
    using run_facts[OF assms(1) that(1) s(1)] that(2) by blast
  moreover have "0 \<le> sm_releasedAmountCents (rs_money s)" "0 \<le> sm_refundedAmountCents (rs_money s)"
    using s(1) by (simp_all add: wf_parts is_cents_def)
  ultimately show ?thesis using s(2,3) by blast
qed

text \<open>C39: Dispute discipline. The request's action decides: \<^verbatim>\<open>open\<close> succeeds only when no dispute is open, and opens it under
  the requested id, or the id the settlement already has, or one made of the run's id, dated, without a resolution;
  \<^verbatim>\<open>close\<close> succeeds only when a dispute is open and the request names its id or none, and only sets the status, the closing date and a
  resolution. Any other action is refused, and neither action touches the money, the decision or the parties.\<close>

theorem dispute_discipline:
  assumes "collates lsort" and "updateAgentRunSettlementDispute lsort now args = Inr s'"
  shows "\<exists>s t. normalizeSettlementRecord lsort (getp args ''settlement'') = Inr s
    \<and> assertIsoDate (dflt (getp args ''at'') (JStr now)) ''at'' = Inr t
    \<and> rs_money s' = rs_money s \<and> rs_decision s' = rs_decision s \<and> rs_ids s' = rs_ids s
    \<and> (if lowered (orElse (getp args ''action'') (JStr [])) = ''open'' then opened_dispute args t s (rs_dispute s')
       else lowered (orElse (getp args ''action'') (JStr [])) = ''close'' \<and> closed_dispute args t s (rs_dispute s'))"
proof -
  obtain s t where "normalizeSettlementRecord lsort (getp args ''settlement'') = Inr s" "stepped lsort s s'"
    "assertIsoDate (dflt (getp args ''at'') (JStr now)) ''at'' = Inr t" "rs_money s' = rs_money s" "rs_decision s' = rs_decision s"
    "if lowered (orElse (getp args ''action'') (JStr [])) = ''open'' then opened_dispute args t s (rs_dispute s')
       else lowered (orElse (getp args ''action'') (JStr [])) = ''close'' \<and> closed_dispute args t s (rs_dispute s')"
    using dispute_step[OF assms] by blast
  moreover have "rs_ids s' = rs_ids s" using \<open>stepped lsort s s'\<close> by (simp add: stepped_def same_contract_def)
  ultimately show ?thesis by blast
qed

section \<open>Resolving in full\<close>

lemma round_pct_full:
  assumes "0 < a" and "is_safe a"
  shows "round_pct a a = 100"
proof -
  let ?x = "of_int (a * 100) :: rat"
  have p: "pow2 (-1000) \<le> 1" using pow2_mono[of "-1000" 0] by (simp add: pow2_def)
  have x1: "1 \<le> ?x" using assms(1) by simp
  have e1: "\<bar>fl ?x - ?x\<bar> \<le> ?x / 2 ^ 53" using fl_rel_error[of ?x] p x1 by simp
  define y where "y = fl ?x / of_int a"
  have a: "0 < (of_int a :: rat)" using assms(1) by simp
  have "\<bar>y - 100\<bar> = \<bar>fl ?x - ?x\<bar> / of_int a" using a by (simp add: y_def field_simps abs_mult abs_divide)
  also have "\<dots> \<le> (?x / 2 ^ 53) / of_int a" by (rule divide_right_mono[OF e1]) (use a in simp)
  also have "\<dots> \<le> 1 / 100" using a by simp
  finally have y3: "y - 100 \<le> 1 / 100" "- (y - 100) \<le> 1 / 100" unfolding abs_le_iff by blast+
  then have y: "99 \<le> y" "y \<le> 101" by linarith+
  then have "\<bar>fl y - y\<bar> \<le> y / 2 ^ 53" using fl_rel_error[of y] p by simp
  also have "\<dots> \<le> 1 / 100" using y by simp
  finally have "fl y - y \<le> 1 / 100" "- (fl y - y) \<le> 1 / 100" unfolding abs_le_iff by blast+
  then have "99 + 1 / 2 < fl y" "fl y < 100 + 1 / 2" using y3 by linarith+
  then show ?thesis unfolding round_pct_def y_def[symmetric] by (intro floor_unique) simp_all
qed

definition release_args :: "settlement \<Rightarrow> string \<Rightarrow> string \<Rightarrow> jsval" where
  "release_args s r t = JObj [(''settlement'', js_of_settlement s), (''status'', JStr ''released''), (''runStatus'', JStr r), (''at'', JStr t)]"

lemma resolve_full:
  assumes "collates lsort" and "wf_settlement lsort s" and "sm_status (rs_money s) = LOCKED" and "sd_windowDays (rs_dispute s) = 0"
    and "is_safe (rs_revision s + 1)" and "trim r \<noteq> []" and "is_iso t"
  shows "resolveAgentRunSettlement lsort now (release_args s r t) = Inr (s
         \<lparr>rs_money := (rs_money s)\<lparr>sm_status := RELEASED, sm_runStatus := Some r,
            sm_releasedAmountCents := sm_amountCents (rs_money s), sm_refundedAmountCents := 0, sm_releaseRatePct := Some 100,
            sm_resolvedAt := Some t, sm_resolutionEventId := None\<rparr>,
          rs_dispute := (clear_dispute (rs_dispute s))\<lparr>sd_windowDays := 0, sd_windowEndsAt := None\<rparr>,
          rs_decision := \<lparr>sc_status = AUTO_RESOLVED, sc_mode = AUTOMATIC, sc_policyHash = None, sc_reason = None, sc_trace = None, sc_updatedAt = Some t\<rparr>,
          rs_revision := rs_revision s + 1, rs_updatedAt := t\<rparr>)" (is "_ = Inr ?s'")
proof -
  have m: "0 < sm_amountCents (rs_money s)" "is_safe (sm_amountCents (rs_money s))" "is_cents (rs_revision s)"
    using assms(2) by (simp_all add: wf_parts)
  have self: "normalizeSettlementRecord lsort (js_of_settlement s) = Inr s"
    using settlement_js[OF assms(1) wf_canonical_parts] assms(2) by blast
  have st: "resolutionStatusArg (JStr ''released'') = Inr RELEASED" by code_simp
  have dec: "decisionArgs (release_args s r t) ''auto_resolved'' ''automatic'' JNull =
      Inr \<lparr>sc_status = AUTO_RESOLVED, sc_mode = AUTOMATIC, sc_policyHash = None, sc_reason = None, sc_trace = None, sc_updatedAt = None\<rparr>"
    using enum_arg_str(3)[of "''decisionStatus''" AUTO_RESOLVED] enum_arg_str(4)[of "''decisionMode''" AUTOMATIC]
    by (simp add: decisionArgs_def release_args_def optTrimmed_def optTrace_def dflt_def)
  have pa: "partitionAmounts RELEASED (sm_amountCents (rs_money s)) JUndef JUndef = Inr (sm_amountCents (rs_money s), 0)"
    using m by (simp add: partitionAmounts_def assertAmountCents_def add_int_exact is_safe_bounds)
  have rate: "releaseRate JUndef (sm_amountCents (rs_money s)) (sm_amountCents (rs_money s)) = Inr 100"
    using m by (simp add: releaseRate_def round_pct_full)
  have "wf_settlement lsort ?s'"
    using assms m by (simp add: wf_parts wf_decision_def clear_dispute_def is_cents_def)
  then have "normalizeSettlementRecord lsort (js_of_settlement ?s') = Inr ?s'"
    using settlement_js[OF assms(1) wf_canonical_parts] by blast
  moreover have "add_int (rs_revision s) 1 = rs_revision s + 1" using assms(5) by (rule add_int_safe)
  moreover have "assertNonEmptyString (JStr r) n = Inr r" "assertIsoDate (JStr t) n = Inr t" for n
    using assms(6,7) by (simp_all add: res_simps)
  moreover have "getp (release_args s r t) ''settlement'' = js_of_settlement s" "getp (release_args s r t) ''status'' = JStr ''released''"
    "getp (release_args s r t) ''runStatus'' = JStr r" "getp (release_args s r t) ''at'' = JStr t"
    "getp (release_args s r t) ''resolutionEventId'' = JUndef" "getp (release_args s r t) ''releasedAmountCents'' = JUndef"
    "getp (release_args s r t) ''refundedAmountCents'' = JUndef" "getp (release_args s r t) ''releaseRatePct'' = JUndef"
    "getp (release_args s r t) ''disputeWindowDays'' = JUndef"
    by (simp_all add: release_args_def)
  ultimately show ?thesis unfolding resolveAgentRunSettlement_def
    using assms(3,4) self st dec pa rate by (simp add: dflt_def optString_def disputeWindowEnd_def)
qed

text \<open>A locked settlement can be released in full: with a run status, a valid time and no amounts given,
  \<^verbatim>\<open>resolveAgentRunSettlement\<close> succeeds, releases the whole principal, refunds nothing and reports
  a release rate of exactly 100 per cent, for every principal up to the largest safe integer.\<close>

theorem resolve_releases_in_full:
  assumes "collates lsort" and "wf_settlement lsort s" and "sm_status (rs_money s) = LOCKED" and "sd_windowDays (rs_dispute s) = 0"
    and "is_safe (rs_revision s + 1)" and "trim r \<noteq> []" and "is_iso t"
  shows "\<exists>s'. resolveAgentRunSettlement lsort now (release_args s r t) = Inr s' \<and> sm_status (rs_money s') = RELEASED
    \<and> sm_releasedAmountCents (rs_money s') = sm_amountCents (rs_money s) \<and> sm_refundedAmountCents (rs_money s') = 0
    \<and> sm_releaseRatePct (rs_money s') = Some 100 \<and> sc_status (rs_decision s') = AUTO_RESOLVED"
  by (simp add: resolve_full[OF assms])

section \<open>Evidence only grows\<close>

definition context_refs :: "settlement \<Rightarrow> string list" where
  "context_refs s = (case sd_context (rs_dispute s) of None \<Rightarrow> [] | Some c \<Rightarrow> dc_evidenceRefs c)"

lemma context_refs_of:
  assumes "normalizeDisputeContext lsort (JObj ps) name d = Inr c" and "getp (JObj ps) ''evidenceRefs'' = refs_js refs" and "wf_refs refs"
  shows "\<exists>x. c = Some x \<and> dc_evidenceRefs x = refs"
  using assms by (auto simp: normalizeDisputeContext_def andThen_Inr_iff refs_norm)

lemma existing_refs:
  assumes "wf_settlement lsort s"
    and "normalizeDisputeContext lsort (case sd_context (rs_dispute s) of None \<Rightarrow> JObj [] | Some c \<Rightarrow> js_of_context c) name d = Inr e"
  shows "(case e of None \<Rightarrow> [] | Some c \<Rightarrow> dc_evidenceRefs c) = context_refs s \<and> wf_refs (context_refs s)"
proof (cases "sd_context (rs_dispute s)")
  case None
  have "e = None \<or> (\<exists>x. e = Some x \<and> dc_evidenceRefs x = [])"
    using assms(2) None by (auto simp: normalizeDisputeContext_def andThen_Inr_iff normalizeDisputeEvidenceRefs_def)
  then show ?thesis using None by (auto simp: context_refs_def wf_refs_def)
next
  case (Some c)
  then have "wf_context lsort c" using assms(1) by (simp add: wf_parts)
  then show ?thesis using assms(2) Some by (auto simp: context_js context_refs_def wf_context_def)
qed

lemma map_of_spread: "map_of (spread ps qs) = map_of ps ++ map_of (rev qs)"
proof (induction qs arbitrary: ps)
  case (Cons q qs)
  then show ?case by (cases q) (auto simp: spread_def map_of_put_prop map_add_def split: option.splits)
qed (simp add: spread_def)

lemma keys_put_prop: "distinct (map fst qs) \<Longrightarrow> distinct (map fst (put_prop k v qs))"
proof -
  have s: "set (map fst (replace_prop k v qs)) = set (map fst qs)" "set (map fst (insert_prop k v qs)) = insert k (set (map fst qs))" for qs
    by (induction qs) (force split: option.splits)+
  assume "distinct (map fst qs)"
  then have "distinct (map fst (replace_prop k v qs))" "k \<notin> fst ` set qs \<Longrightarrow> distinct (map fst (insert_prop k v qs))"
    by (induction qs) (auto simp: s[unfolded set_map] split: option.splits)
  then show ?thesis by (simp add: put_prop_def)
qed

lemma map_of_rev_keys: "distinct (map fst qs) \<Longrightarrow> map_of (rev qs) = map_of qs"
proof (induction qs)
  case (Cons q qs)
  then have "map_of qs (fst q) = None" by (simp add: map_of_eq_None_iff)
  then show ?case using Cons by (auto simp: map_add_def split: option.splits)
qed simp

lemma spread_set:
  assumes "distinct (map fst qs)"
  shows "getp (JObj (spread ps (spread qs [(k, v)]))) k = v"
proof -
  have "map_of (rev (put_prop k v qs)) = map_of (put_prop k v qs)"
    by (rule map_of_rev_keys[OF keys_put_prop[OF assms]])
  then have "map_of (spread ps (spread qs [(k, v)])) k = Some v"
    unfolding map_of_spread[of ps] by (simp add: spread_def map_of_put_prop)
  then show ?thesis by (simp only: getp.simps option.case)
qed

text \<open>Patching the context of an open dispute never loses evidence: the list of evidence references after
  the patch extends the list before it, without duplicates, whatever the patch object says.\<close>

theorem patch_keeps_evidence:
  assumes "collates lsort" and "normalizeSettlementRecord lsort (getp args ''settlement'') = Inr s"
    and "patchAgentRunSettlementDisputeContext lsort now args = Inr s'"
    and keys: "distinct (map fst (own_props (getp args ''contextPatch'')))"
  shows "\<exists>ext. context_refs s' = context_refs s @ ext \<and> distinct (context_refs s')"
proof -
  have wf: "wf_settlement lsort s" using settlement_wf[OF assms(1,2)] .
  from assms(2,3) obtain t e refs1 refs2 refs3 c d where
    e: "normalizeDisputeContext lsort (case sd_context (rs_dispute s) of None \<Rightarrow> JObj [] | Some c \<Rightarrow> js_of_context c)
      ''settlement.disputeContext'' (JStr ''l1_counterparty'') = Inr e"
    and r1: "foldRes (pushRef ''settlement.disputeContext.evidenceRefs'') []
      (enumerate 0 (map JStr (case e of None \<Rightarrow> [] | Some c \<Rightarrow> dc_evidenceRefs c))) = Inr refs1"
    and r2: "foldRes (pushRef ''contextPatch.evidenceRefs'') refs1 (enumerate 0 (patchRefs (getp args ''contextPatch''))) = Inr refs2"
    and r3: "(if nullish (getp args ''appendEvidenceRefs'') then Inr refs2
              else case getp args ''appendEvidenceRefs'' of JArr xs \<Rightarrow> foldRes (pushRef ''appendEvidenceRefs'') refs2 (enumerate 0 xs)
                   | _ \<Rightarrow> Inl (TypeError ''appendEvidenceRefs must be an array when provided'')) = Inr refs3"
    and c: "normalizeDisputeContext lsort (JObj (spread (own_props (case e of None \<Rightarrow> JObj [] | Some c \<Rightarrow> js_of_context c))
                    (spread (own_props (getp args ''contextPatch'')) [(''evidenceRefs'', refs_js refs3)]))) ''contextPatch'' d = Inr c"
    and u: "normalizeSettlementRecord lsort (js_of_settlement (s
         \<lparr>rs_dispute := (rs_dispute s)\<lparr>sd_context := c\<rparr>, rs_revision := add_int (rs_revision s) 1, rs_updatedAt := t\<rparr>)) = Inr s'"
    unfolding patchAgentRunSettlementDisputeContext_def Let_def by (auto simp: andThen_Inr_iff throwIf_Inr_iff split del: option.split)
  have old: "(case e of None \<Rightarrow> [] | Some c \<Rightarrow> dc_evidenceRefs c) = context_refs s" "wf_refs (context_refs s)"
    using existing_refs[OF wf e] by blast+
  have 1: "refs1 = context_refs s" using r1 pushRef_refs[of "[]"] old by simp
  obtain x where 2: "refs2 = context_refs s @ x" "wf_refs refs2" using pushRef_Inr[OF r2] 1 old(2) by blast
  have 3: "wf_refs refs3 \<and> (\<exists>y. refs3 = context_refs s @ y)"
    using r3 2 pushRef_Inr[of "''appendEvidenceRefs''" refs2]
    by (cases "getp args ''appendEvidenceRefs''") (fastforce split: if_splits)+
  obtain z where "c = Some z" "dc_evidenceRefs z = refs3" using context_refs_of[OF c] spread_set[OF keys] 3 by blast
  moreover have "rs_dispute s' = (rs_dispute s)\<lparr>sd_context := c\<rparr>"
    using update_steps[OF assms(1) wf u] context_wf[OF assms(1) c] wf_dispute_parts(2)[OF wf] by (auto simp: same_contract_def)
  ultimately show ?thesis using 3 by (auto simp: context_refs_def wf_refs_def)
qed


lemma collates_id: "collates (\<lambda>xs. xs)"
  by (simp add: collates_def)

definition demo_create_args :: jsval where
  "demo_create_args = JObj [(''tenantId'', JStr ''t''), (''runId'', JStr ''r''), (''agentId'', JStr ''a''), (''payerAgentId'', JStr ''b''),
     (''amountCents'', JInt 700), (''at'', JStr ''2026-01-01T00:00:00.000Z'')]"

definition demo_settlement :: settlement where
  "demo_settlement = projr (createAgentRunSettlement (\<lambda>xs. xs) ''2026-01-01T00:00:00.000Z'' demo_create_args)"

lemma demo_created: "createAgentRunSettlement (\<lambda>xs. xs) ''2026-01-01T00:00:00.000Z'' demo_create_args = Inr demo_settlement"
proof -
  have "\<not> isl (createAgentRunSettlement (\<lambda>xs. xs) ''2026-01-01T00:00:00.000Z'' demo_create_args)" by code_simp
  then show ?thesis unfolding demo_settlement_def by simp
qed

lemma demo_wf: "wf_settlement (\<lambda>xs. xs) demo_settlement" "sm_status (rs_money demo_settlement) = LOCKED" "rs_revision demo_settlement = 0"
  using create_facts[OF collates_id demo_created] by blast+

lemma demo_self: "normalizeSettlementRecord (\<lambda>xs. xs) (js_of_settlement demo_settlement) = Inr demo_settlement"
  using settlement_js[OF collates_id wf_canonical_parts[OF demo_wf(1)]] demo_wf(1) by blast

theorem settlement_normalize_roundtrip_witness:
  "wf_settlement (\<lambda>xs. xs) demo_settlement \<and> normalizeSettlementRecord (\<lambda>xs. xs) (js_of_settlement demo_settlement) = Inr demo_settlement"
  by (rule settlement_normalize_roundtrip[OF collates_id demo_self])

theorem resolve_releases_in_full_witness:
  "\<exists>s'. resolveAgentRunSettlement (\<lambda>xs. xs) [] (release_args demo_settlement ''completed'' ''2026-01-02T00:00:00.000Z'') = Inr s'
    \<and> sm_status (rs_money s') = RELEASED \<and> sm_releasedAmountCents (rs_money s') = sm_amountCents (rs_money demo_settlement)
    \<and> sm_refundedAmountCents (rs_money s') = 0 \<and> sm_releaseRatePct (rs_money s') = Some 100 \<and> sc_status (rs_decision s') = AUTO_RESOLVED"
proof (rule resolve_releases_in_full[OF collates_id demo_wf(1,2)])
  show "sd_windowDays (rs_dispute demo_settlement) = 0" by code_simp
  show "is_safe (rs_revision demo_settlement + 1)" unfolding demo_wf(3) by (simp add: is_safe_bounds)
  show "trim ''completed'' \<noteq> []" "is_iso ''2026-01-02T00:00:00.000Z''" by code_simp+
qed

theorem settlement_lifecycle_witness:
  "\<exists>s. settlement_step (\<lambda>xs. xs) demo_settlement s \<and> sm_status (rs_money s) = RELEASED \<and> same_contract demo_settlement s \<and> partitioned s"
proof -
  let ?a = "release_args demo_settlement ''completed'' ''2026-01-02T00:00:00.000Z''"
  have w: "sd_windowDays (rs_dispute demo_settlement) = 0" "trim ''completed'' \<noteq> []" "is_iso ''2026-01-02T00:00:00.000Z''" by code_simp+
  have r: "is_safe (rs_revision demo_settlement + 1)" unfolding demo_wf(3) by (simp add: is_safe_bounds)
  obtain s where s: "resolveAgentRunSettlement (\<lambda>xs. xs) [] ?a = Inr s" "sm_status (rs_money s) = RELEASED"
    using resolve_full[OF collates_id demo_wf(1,2) w(1) r w(2,3)] by auto
  have st: "settlement_step (\<lambda>xs. xs) demo_settlement s"
    by (rule settlement_step.resolve[OF _ s(1)]) (simp add: release_args_def)
  then have "(settlement_step (\<lambda>xs. xs))\<^sup>*\<^sup>* demo_settlement s" by blast
  then show ?thesis using settlement_lifecycle[OF collates_id demo_created] st s(2) by blast
qed

definition demo_context :: "string list \<Rightarrow> dispute_context" where
  "demo_context refs = \<lparr>dc_type = ''other'', dc_priority = ''normal'', dc_channel = ''counterparty'', dc_escalationLevel = ''l1_counterparty'',
     dc_openedByAgentId = None, dc_reason = None, dc_evidenceRefs = refs, dc_federationJurisdiction = None\<rparr>"

definition demo_disputed :: "string list \<Rightarrow> int \<Rightarrow> settlement" where
  "demo_disputed refs n = demo_settlement\<lparr>rs_dispute := (rs_dispute demo_settlement)\<lparr>sd_status := DISPUTE_OPEN, sd_disputeId := Some ''dsp_r'',
     sd_openedAt := Some ''2026-01-02T00:00:00.000Z'', sd_closedAt := None, sd_context := Some (demo_context refs), sd_resolution := None\<rparr>,
     rs_revision := n, rs_updatedAt := ''2026-01-02T00:00:00.000Z''\<rparr>"

lemma demo_iso: "is_iso ''2026-01-02T00:00:00.000Z''" by code_simp

lemma demo_disputed_self:
  assumes "wf_context (\<lambda>xs. xs) (demo_context refs)" and "is_cents n"
  shows "normalizeSettlementRecord (\<lambda>xs. xs) (js_of_settlement (demo_disputed refs n)) = Inr (demo_disputed refs n)"
proof -
  have "nonblank ''dsp_r''" by code_simp
  then have "wf_settlement (\<lambda>xs. xs) (demo_disputed refs n)"
    using demo_wf(1) demo_iso assms by (simp add: demo_disputed_def wf_parts)
  then show ?thesis using settlement_js[OF collates_id wf_canonical_parts] by blast
qed

lemma demo_contexts: "wf_context (\<lambda>xs. xs) (demo_context [''e1''])" "wf_context (\<lambda>xs. xs) (demo_context [''e1'', ''e2''])"
  by code_simp+

definition demo_open_args :: jsval where
  "demo_open_args = JObj [(''settlement'', js_of_settlement demo_settlement), (''action'', JStr ''open''), (''contextInput'', JObj
     [(''evidenceRefs'', JArr [JStr ''e1''])]), (''at'', JStr ''2026-01-02T00:00:00.000Z'')]"

lemma demo_opened: "updateAgentRunSettlementDispute (\<lambda>xs. xs) [] demo_open_args = Inr (demo_disputed [''e1''] 1)"
proof -
  have g: "getp demo_open_args ''settlement'' = js_of_settlement demo_settlement" "getp demo_open_args ''action'' = JStr ''open''"
    "getp demo_open_args ''at'' = JStr ''2026-01-02T00:00:00.000Z''" "getp demo_open_args ''disputeId'' = JUndef"
    "getp demo_open_args ''contextInput'' = JObj [(''evidenceRefs'', JArr [JStr ''e1''])]"
    by (simp_all add: demo_open_args_def)
  have c: "normalizeDisputeContext (\<lambda>xs. xs) (JObj [(''evidenceRefs'', JArr [JStr ''e1''])]) ''contextInput'' (JStr ''l1_counterparty'')
      = Inr (Some (demo_context [''e1'']))" by code_simp
  have d: "sd_status (rs_dispute demo_settlement) = DISPUTE_NONE" "sd_disputeId (rs_dispute demo_settlement) = None"
    "si_runId (rs_ids demo_settlement) = ''r''" by code_simp+
  have a: "add_int 0 1 = 1" "lowered (JStr ''open'') = ''open''" by code_simp+
  have t: "assertIsoDate (JStr ''2026-01-02T00:00:00.000Z'') ''at'' = Inr ''2026-01-02T00:00:00.000Z''"
    using demo_iso by (simp add: assertIsoDate_Inr_iff)
  have "is_cents 1" by (simp add: is_cents_def is_safe_bounds)
  from demo_disputed_self[OF demo_contexts(1) this] show ?thesis
    by (simp add: updateAgentRunSettlementDispute_def openDispute_def g demo_self a t c d dflt_def optString_def orString_def
        objOrEmpty_def demo_wf(3) demo_disputed_def[symmetric])
qed

theorem dispute_discipline_witness:
  "\<exists>s' t. updateAgentRunSettlementDispute (\<lambda>xs. xs) [] demo_open_args = Inr s' \<and> rs_money s' = rs_money demo_settlement
    \<and> opened_dispute demo_open_args t demo_settlement (rs_dispute s')"
proof -
  have "getp demo_open_args ''settlement'' = js_of_settlement demo_settlement"
    "lowered (orElse (getp demo_open_args ''action'') (JStr [])) = ''open''" by (simp add: demo_open_args_def) code_simp
  then show ?thesis using dispute_discipline[OF collates_id demo_opened] demo_opened demo_self by auto
qed

definition demo_patch_args :: jsval where
  "demo_patch_args = JObj [(''settlement'', js_of_settlement (demo_disputed [''e1''] 1)), (''contextPatch'', JObj [(''evidenceRefs'', JArr [JStr ''e2''])]),
     (''at'', JStr ''2026-01-02T00:00:00.000Z'')]"

lemma demo_patched: "patchAgentRunSettlementDisputeContext (\<lambda>xs. xs) [] demo_patch_args = Inr (demo_disputed [''e1'', ''e2''] 2)"
proof -
  have n: "is_cents 1" "is_cents 2" by (simp_all add: is_cents_def is_safe_bounds)
  have g: "getp demo_patch_args ''settlement'' = js_of_settlement (demo_disputed [''e1''] 1)"
    "getp demo_patch_args ''contextPatch'' = JObj [(''evidenceRefs'', JArr [JStr ''e2''])]" "getp demo_patch_args ''appendEvidenceRefs'' = JUndef"
    "getp demo_patch_args ''at'' = JStr ''2026-01-02T00:00:00.000Z''"
    by (simp_all add: demo_patch_args_def)
  have t: "assertIsoDate (JStr ''2026-01-02T00:00:00.000Z'') ''at'' = Inr ''2026-01-02T00:00:00.000Z''"
    using demo_iso by (simp add: assertIsoDate_Inr_iff)
  have refs: "foldRes (pushRef ''settlement.disputeContext.evidenceRefs'') [] (enumerate 0 [JStr ''e1'']) = Inr [''e1'']"
    "foldRes (pushRef ''contextPatch.evidenceRefs'') [''e1''] (enumerate 0 [JStr ''e2'']) = Inr [''e1'', ''e2'']" by code_simp+
  have c: "normalizeDisputeContext (\<lambda>xs. xs) (JObj (spread (own_props (js_of_context (demo_context [''e1''])))
      (spread (own_props (JObj [(''evidenceRefs'', JArr [JStr ''e2''])])) [(''evidenceRefs'', refs_js [''e1'', ''e2''])]))) ''contextPatch''
      (JStr ''l1_counterparty'') = Inr (Some (demo_context [''e1'', ''e2'']))" by code_simp
  have d: "sd_status (rs_dispute (demo_disputed [''e1''] 1)) = DISPUTE_OPEN" "rs_revision (demo_disputed [''e1''] 1) = 1"
    "sd_context (rs_dispute (demo_disputed [''e1''] 1)) = Some (demo_context [''e1''])"
    "patchRefs (JObj [(''evidenceRefs'', JArr [JStr ''e2''])]) = [JStr ''e2'']"
    "dc_evidenceRefs (demo_context [''e1'']) = [''e1'']" "dc_escalationLevel (demo_context [''e1'']) = ''l1_counterparty''"
    by (simp_all add: demo_disputed_def patchRefs_def demo_context_def)
  have u: "(demo_disputed [''e1''] 1)\<lparr>rs_dispute := (rs_dispute (demo_disputed [''e1''] 1))\<lparr>sd_context := Some (demo_context [''e1'', ''e2''])\<rparr>,
      rs_revision := 2, rs_updatedAt := ''2026-01-02T00:00:00.000Z''\<rparr> = demo_disputed [''e1'', ''e2''] 2"
    by (simp add: demo_disputed_def)
  have a: "add_int 1 1 = 2" by code_simp
  show ?thesis unfolding patchAgentRunSettlementDisputeContext_def Let_def g demo_disputed_self[OF demo_contexts(1) n(1)]
    by (simp add: t d context_js[OF demo_contexts(1)] refs dflt_def a c u demo_disputed_self[OF demo_contexts(2) n(2)] del: enumerate_simps)
qed

theorem patch_keeps_evidence_witness:
  "\<exists>s' ext. patchAgentRunSettlementDisputeContext (\<lambda>xs. xs) [] demo_patch_args = Inr s'
    \<and> context_refs s' = context_refs (demo_disputed [''e1''] 1) @ ext"
proof -
  have n: "is_cents 1" by (simp add: is_cents_def is_safe_bounds)
  have "normalizeSettlementRecord (\<lambda>xs. xs) (getp demo_patch_args ''settlement'') = Inr (demo_disputed [''e1''] 1)"
    using demo_disputed_self[OF demo_contexts(1) n] by (simp add: demo_patch_args_def)
  moreover have "distinct (map fst (own_props (getp demo_patch_args ''contextPatch'')))" by (simp add: demo_patch_args_def own_props_def)
  ultimately show ?thesis using patch_keeps_evidence[OF collates_id _ demo_patched] demo_patched by blast
qed

end
