(* ===== verification/JsOps.thy ===== *)
theory JsOps
  imports JsAssert
begin

text \<open>
  Operators of the language that the job and delegation modules apply to dynamic values:
  strict equality, the object test, enumeration of own properties, \<^verbatim>\<open>v + 1\<close>, \<^verbatim>\<open>startsWith\<close> and
  \<^verbatim>\<open>includes\<close>; and the checks that the modules of versioned documents share word for word
  (\<^verbatim>\<open>normalizeId\<close>, \<^verbatim>\<open>normalizeHexHash\<close>, \<^verbatim>\<open>normalizeCurrency\<close>, the safe-integer checks on \<^verbatim>\<open>Number(v)\<close>).
\<close>

section \<open>Operators\<close>

text \<open>\<^verbatim>\<open>===\<close>. Objects are compared by identity, which a value without addresses does not have: two
  objects met at different places of the input are different.\<close>

fun strict_eq :: "jsval \<Rightarrow> jsval \<Rightarrow> bool" where
  "strict_eq (JNum a) (JNum b) = (a \<noteq> NaN \<and> (a = b \<or> a = NegZero \<and> b = Fin 0 \<or> a = Fin 0 \<and> b = NegZero))"
| "strict_eq (JStr a) (JStr b) = (a = b)"
| "strict_eq (JBool a) (JBool b) = (a = b)"
| "strict_eq (JBigInt a) (JBigInt b) = (a = b)"
| "strict_eq JUndef JUndef = True"
| "strict_eq JNull JNull = True"
| "strict_eq _ _ = False"

lemma strict_eq_JStr [simp]: "strict_eq v (JStr s) = (v = JStr s)"
  by (cases v) auto

text \<open>\<^verbatim>\<open>v && typeof v === "object"\<close>\<close>

fun is_object :: "jsval \<Rightarrow> bool" where
  "is_object (JObj _) = True"
| "is_object (JArr _) = True"
| "is_object (JDate _) = True"
| "is_object _ = False"

text \<open>The own enumerable properties of an object, the elements of an array under their indices.\<close>

definition enumerable :: "jsval \<Rightarrow> props" where
  "enumerable v = (case v of JObj ps \<Rightarrow> ps | JArr xs \<Rightarrow> map (\<lambda>(i, x). (show_int (int i), x)) (enumerate 0 xs) | _ \<Rightarrow> [])"

definition num_plus_one :: "jsnum \<Rightarrow> jsnum" where
  "num_plus_one n = (case n of Fin r \<Rightarrow> fl_num (r + 1) | NegZero \<Rightarrow> Fin 1 | _ \<Rightarrow> n)"

text \<open>\<^verbatim>\<open>v + 1\<close>: numeric for the primitives that are not strings, concatenation otherwise.\<close>

definition js_plus_one :: "jsval \<Rightarrow> jsval res" where
  "js_plus_one v = (case v of
       JNum n \<Rightarrow> Inr (JNum (num_plus_one n))
     | JUndef \<Rightarrow> Inr (JNum NaN)
     | JNull \<Rightarrow> Inr (JInt 1)
     | JBool b \<Rightarrow> Inr (JInt (if b then 2 else 1))
     | JBigInt _ \<Rightarrow> Inl (TypeError ''Cannot mix BigInt and other types, use explicit conversions'')
     | _ \<Rightarrow> Inr (JStr (js_String v @ ''1'')))"

definition startsWith :: "string \<Rightarrow> string \<Rightarrow> bool" where
  "startsWith s p \<longleftrightarrow> take (length p) s = p"

fun str_includes :: "string \<Rightarrow> string \<Rightarrow> bool" where
  "str_includes [] p = (p = [])"
| "str_includes (c # cs) p = (startsWith (c # cs) p \<or> str_includes cs p)"

lemma num_plus_one_safe: "is_safe (n + 1) \<Longrightarrow> num_plus_one (num_of_int n) = num_of_int (n + 1)"
proof -
  assume s: "is_safe (n + 1)"
  then have f: "fl (of_int (n + 1)) = of_int (n + 1)" by (intro fl_of_int) (simp add: is_safe_def MAX_SAFE_INTEGER_def)
  have b: "(- (2 ^ 1024) :: rat) < of_int (n + 1)" "of_int (n + 1) < (2 ^ 1024 :: rat)"
  proof -
    have i: "- 9007199254740991 \<le> n + 1" "n + 1 \<le> 9007199254740991" using s by (simp_all add: is_safe_bounds)
    have "(of_int (- 9007199254740991) :: rat) \<le> of_int (n + 1)" using i(1) by (simp only: of_int_le_iff)
    then show "(- (2 ^ 1024) :: rat) < of_int (n + 1)" by (rule less_le_trans[rotated]) simp
    have "(of_int (n + 1) :: rat) \<le> of_int 9007199254740991" using i(2) by (simp only: of_int_le_iff)
    then show "of_int (n + 1) < (2 ^ 1024 :: rat)" by (rule le_less_trans) simp
  qed
  have r: "of_int n + 1 = (of_int (n + 1) :: rat)" by simp
  have c: "\<not> (2 ^ 1024 :: rat) \<le> of_int (n + 1)" "\<not> of_int (n + 1) \<le> (- (2 ^ 1024) :: rat)"
    "\<not> ((of_int (n + 1) :: rat) = 0 \<and> of_int (n + 1) < (0 :: rat))" using b by auto
  show ?thesis unfolding num_plus_one_def num_of_int_def fl_num_def Let_def jsnum.case r f
    by (simp only: c if_False)
qed

section \<open>Checks of versioned documents\<close>

definition isSafeNumber :: "jsval \<Rightarrow> int option" where
  "isSafeNumber v = safe_int (js_Number v)"

definition assertPositiveSafeInt :: "jsval \<Rightarrow> string \<Rightarrow> int res" where
  "assertPositiveSafeInt v name =
     (case isSafeNumber v of Some n \<Rightarrow> (if n \<le> 0 then Inl (TypeError (name @ '' must be a positive safe integer'')) else Inr n)
      | None \<Rightarrow> Inl (TypeError (name @ '' must be a positive safe integer'')))"

definition assertNonNegativeSafeInt :: "jsval \<Rightarrow> string \<Rightarrow> int res" where
  "assertNonNegativeSafeInt v name =
     (case isSafeNumber v of Some n \<Rightarrow> (if n < 0 then Inl (TypeError (name @ '' must be a non-negative safe integer'')) else Inr n)
      | None \<Rightarrow> Inl (TypeError (name @ '' must be a non-negative safe integer'')))"

definition normalizeId :: "jsval \<Rightarrow> string \<Rightarrow> int \<Rightarrow> int \<Rightarrow> string res" where
  "normalizeId v name lo hi =
     andThen (assertNonEmptyString v name) (\<lambda>s.
     let out = trim s in
     andThen (throwIf (int (length out) < lo \<or> hi < int (length out))
                (TypeError (name @ '' must be length '' @ show_int lo @ ''..'' @ show_int hi))) (\<lambda>_.
     andThen (throwIf (\<not> is_id_token out) (TypeError (name @ '' must match ^[A-Za-z0-9:_-]+$''))) (\<lambda>_. Inr out)))"

definition normalizeHexHash :: "jsval \<Rightarrow> string \<Rightarrow> string res" where
  "normalizeHexHash v name =
     andThen (assertNonEmptyString v name) (\<lambda>s.
     let out = toLowerCase (trim s) in
     andThen (throwIf (\<not> is_sha256_hex out) (TypeError (name @ '' must be a 64-hex sha256''))) (\<lambda>_. Inr out))"

definition normalizeCurrency :: "jsval \<Rightarrow> string \<Rightarrow> string res" where
  "normalizeCurrency v name =
     (let raw = (case v of JStr s \<Rightarrow> (if trim s \<noteq> [] then s else ''USD'') | _ \<Rightarrow> ''USD'');
          out = toUpperCase (trim raw)
      in andThen (throwIf (\<not> is_currency_code out) (TypeError (name @ '' must match ^[A-Z][A-Z0-9_]{2,11}$''))) (\<lambda>_. Inr out))"

text \<open>\<^verbatim>\<open>const copy = { ...doc }; delete copy.k; ...\<close>\<close>

definition without :: "string list \<Rightarrow> props \<Rightarrow> props" where
  "without ks ps = filter (\<lambda>(k, v). k \<notin> set ks) ps"

lemma getp_without: "getp (JObj (without ks ps)) k = (if k \<in> set ks then JUndef else getp (JObj ps) k)"
  by (induction ps) (auto simp: without_def split: if_splits)

end
