(* ===== verification/JobLifecycle.thy ===== *)
theory JobLifecycle
  imports JsOps "HOL-Library.Sublist"
begin

text \<open>
  \<^verbatim>\<open>src/core/job-state-machine.js\<close> and \<^verbatim>\<open>src/core/event-policy.js\<close>: the life of a job as a fold of
  events, and the table that says who must sign an event. A job is a dynamic value, as in the
  source: reducers of other modules add properties to it. \<open>job_step\<close> is the state machine behind the
  string-keyed table \<open>TRANSITIONS\<close>, and \<open>applyJobEvent_refines\<close> shows that the code runs it.
\<close>

section \<open>Statuses, event types and transitions\<close>

datatype job_status =
    S_CREATED | S_QUOTED | S_BOOKED | S_MATCHED | S_RESERVED | S_EN_ROUTE | S_ACCESS_GRANTED | S_EXECUTING | S_ASSISTED |
    S_STALLED | S_ABORTING_SAFE_EXIT | S_COMPLETED | S_ABORTED | S_SETTLED

datatype job_event_type =
    E_QUOTE_PROPOSED | E_BOOKED | E_MATCHED | E_RESERVED | E_EN_ROUTE | E_ACCESS_GRANTED | E_ACCESS_REVOKED | E_ACCESS_EXPIRED |
    E_EXECUTION_STARTED | E_JOB_EXECUTION_STARTED | E_JOB_EXECUTION_STALLED | E_JOB_EXECUTION_RESUMED | E_ASSIST_STARTED |
    E_ASSIST_ENDED | E_EXECUTION_COMPLETED | E_JOB_EXECUTION_COMPLETED | E_EXECUTION_ABORTED | E_JOB_EXECUTION_ABORTED |
    E_JOB_RESCHEDULED | E_JOB_CANCELLED | E_SETTLED | E_INCIDENT_REPORTED

fun status_name :: "job_status \<Rightarrow> string" where
  "status_name S_CREATED = ''CREATED''"
| "status_name S_QUOTED = ''QUOTED''"
| "status_name S_BOOKED = ''BOOKED''"
| "status_name S_MATCHED = ''MATCHED''"
| "status_name S_RESERVED = ''RESERVED''"
| "status_name S_EN_ROUTE = ''EN_ROUTE''"
| "status_name S_ACCESS_GRANTED = ''ACCESS_GRANTED''"
| "status_name S_EXECUTING = ''EXECUTING''"
| "status_name S_ASSISTED = ''ASSISTED''"
| "status_name S_STALLED = ''STALLED''"
| "status_name S_ABORTING_SAFE_EXIT = ''ABORTING_SAFE_EXIT''"
| "status_name S_COMPLETED = ''COMPLETED''"
| "status_name S_ABORTED = ''ABORTED''"
| "status_name S_SETTLED = ''SETTLED''"

fun event_name :: "job_event_type \<Rightarrow> string" where
  "event_name E_QUOTE_PROPOSED = ''QUOTE_PROPOSED''"
| "event_name E_BOOKED = ''BOOKED''"
| "event_name E_MATCHED = ''MATCHED''"
| "event_name E_RESERVED = ''RESERVED''"
| "event_name E_EN_ROUTE = ''EN_ROUTE''"
| "event_name E_ACCESS_GRANTED = ''ACCESS_GRANTED''"
| "event_name E_ACCESS_REVOKED = ''ACCESS_REVOKED''"
| "event_name E_ACCESS_EXPIRED = ''ACCESS_EXPIRED''"
| "event_name E_EXECUTION_STARTED = ''EXECUTION_STARTED''"
| "event_name E_JOB_EXECUTION_STARTED = ''JOB_EXECUTION_STARTED''"
| "event_name E_JOB_EXECUTION_STALLED = ''JOB_EXECUTION_STALLED''"
| "event_name E_JOB_EXECUTION_RESUMED = ''JOB_EXECUTION_RESUMED''"
| "event_name E_ASSIST_STARTED = ''ASSIST_STARTED''"
| "event_name E_ASSIST_ENDED = ''ASSIST_ENDED''"
| "event_name E_EXECUTION_COMPLETED = ''EXECUTION_COMPLETED''"
| "event_name E_JOB_EXECUTION_COMPLETED = ''JOB_EXECUTION_COMPLETED''"
| "event_name E_EXECUTION_ABORTED = ''EXECUTION_ABORTED''"
| "event_name E_JOB_EXECUTION_ABORTED = ''JOB_EXECUTION_ABORTED''"
| "event_name E_JOB_RESCHEDULED = ''JOB_RESCHEDULED''"
| "event_name E_JOB_CANCELLED = ''JOB_CANCELLED''"
| "event_name E_SETTLED = ''SETTLED''"
| "event_name E_INCIDENT_REPORTED = ''INCIDENT_REPORTED''"

definition job_transitions :: "(job_status \<times> job_event_type \<times> job_status) list" where
  "job_transitions = [
     (S_CREATED, E_QUOTE_PROPOSED, S_QUOTED), (S_QUOTED, E_BOOKED, S_BOOKED), (S_BOOKED, E_MATCHED, S_MATCHED), (S_MATCHED, E_RESERVED, S_RESERVED),
     (S_RESERVED, E_EN_ROUTE, S_EN_ROUTE), (S_EN_ROUTE, E_ACCESS_GRANTED, S_ACCESS_GRANTED), (S_ACCESS_GRANTED, E_EXECUTION_STARTED, S_EXECUTING),
     (S_ACCESS_GRANTED, E_JOB_EXECUTION_STARTED, S_EXECUTING), (S_EXECUTING, E_ASSIST_STARTED, S_ASSISTED),
     (S_ASSISTED, E_ASSIST_ENDED, S_EXECUTING), (S_EXECUTING, E_EXECUTION_COMPLETED, S_COMPLETED), (S_ASSISTED, E_EXECUTION_COMPLETED, S_COMPLETED),
     (S_EXECUTING, E_JOB_EXECUTION_COMPLETED, S_COMPLETED), (S_ASSISTED, E_JOB_EXECUTION_COMPLETED, S_COMPLETED),
     (S_EXECUTING, E_EXECUTION_ABORTED, S_ABORTED), (S_ASSISTED, E_EXECUTION_ABORTED, S_ABORTED),
     (S_ABORTING_SAFE_EXIT, E_EXECUTION_ABORTED, S_ABORTED), (S_EXECUTING, E_JOB_EXECUTION_ABORTED, S_ABORTED),
     (S_ASSISTED, E_JOB_EXECUTION_ABORTED, S_ABORTED), (S_ABORTING_SAFE_EXIT, E_JOB_EXECUTION_ABORTED, S_ABORTED),
     (S_EXECUTING, E_JOB_EXECUTION_STALLED, S_STALLED), (S_ASSISTED, E_JOB_EXECUTION_STALLED, S_STALLED),
     (S_STALLED, E_JOB_EXECUTION_RESUMED, S_EXECUTING), (S_STALLED, E_EXECUTION_ABORTED, S_ABORTED), (S_STALLED, E_JOB_EXECUTION_ABORTED, S_ABORTED),
     (S_STALLED, E_EXECUTION_COMPLETED, S_COMPLETED), (S_STALLED, E_JOB_EXECUTION_COMPLETED, S_COMPLETED), (S_BOOKED, E_JOB_RESCHEDULED, S_BOOKED),
     (S_MATCHED, E_JOB_RESCHEDULED, S_BOOKED), (S_RESERVED, E_JOB_RESCHEDULED, S_BOOKED), (S_CREATED, E_JOB_CANCELLED, S_ABORTED),
     (S_QUOTED, E_JOB_CANCELLED, S_ABORTED), (S_BOOKED, E_JOB_CANCELLED, S_ABORTED), (S_MATCHED, E_JOB_CANCELLED, S_ABORTED),
     (S_RESERVED, E_JOB_CANCELLED, S_ABORTED), (S_EN_ROUTE, E_JOB_CANCELLED, S_ABORTING_SAFE_EXIT),
     (S_ACCESS_GRANTED, E_JOB_CANCELLED, S_ABORTING_SAFE_EXIT), (S_EXECUTING, E_JOB_CANCELLED, S_ABORTING_SAFE_EXIT),
     (S_ASSISTED, E_JOB_CANCELLED, S_ABORTING_SAFE_EXIT), (S_STALLED, E_JOB_CANCELLED, S_ABORTING_SAFE_EXIT),
     (S_ABORTING_SAFE_EXIT, E_JOB_CANCELLED, S_ABORTING_SAFE_EXIT), (S_CREATED, E_ACCESS_REVOKED, S_ABORTED),
     (S_QUOTED, E_ACCESS_REVOKED, S_ABORTED), (S_BOOKED, E_ACCESS_REVOKED, S_ABORTED), (S_MATCHED, E_ACCESS_REVOKED, S_ABORTED),
     (S_RESERVED, E_ACCESS_REVOKED, S_ABORTED), (S_EN_ROUTE, E_ACCESS_REVOKED, S_ABORTING_SAFE_EXIT),
     (S_ACCESS_GRANTED, E_ACCESS_REVOKED, S_ABORTING_SAFE_EXIT), (S_EXECUTING, E_ACCESS_REVOKED, S_ABORTING_SAFE_EXIT),
     (S_ASSISTED, E_ACCESS_REVOKED, S_ABORTING_SAFE_EXIT), (S_STALLED, E_ACCESS_REVOKED, S_ABORTING_SAFE_EXIT),
     (S_CREATED, E_ACCESS_EXPIRED, S_ABORTED), (S_QUOTED, E_ACCESS_EXPIRED, S_ABORTED), (S_BOOKED, E_ACCESS_EXPIRED, S_ABORTED),
     (S_MATCHED, E_ACCESS_EXPIRED, S_ABORTED), (S_RESERVED, E_ACCESS_EXPIRED, S_ABORTED), (S_EN_ROUTE, E_ACCESS_EXPIRED, S_ABORTING_SAFE_EXIT),
     (S_ACCESS_GRANTED, E_ACCESS_EXPIRED, S_ABORTING_SAFE_EXIT), (S_EXECUTING, E_ACCESS_EXPIRED, S_ABORTING_SAFE_EXIT),
     (S_ASSISTED, E_ACCESS_EXPIRED, S_ABORTING_SAFE_EXIT), (S_STALLED, E_ACCESS_EXPIRED, S_ABORTING_SAFE_EXIT), (S_COMPLETED, E_SETTLED, S_SETTLED),
     (S_ABORTED, E_SETTLED, S_SETTLED)]"

text \<open>The keys are \<^verbatim>\<open>`${status}:${type}`\<close>.\<close>

definition TRANSITIONS :: "(string \<times> string) list" where
  "TRANSITIONS = map (\<lambda>(s, e, n). (status_name s @ '':'' @ event_name e, status_name n)) job_transitions"

definition TRANSITION_EVENT_TYPES :: "string list" where
  "TRANSITION_EVENT_TYPES = map event_name [
     E_QUOTE_PROPOSED, E_BOOKED, E_MATCHED, E_RESERVED, E_EN_ROUTE, E_ACCESS_GRANTED, E_ACCESS_REVOKED, E_ACCESS_EXPIRED, E_EXECUTION_STARTED,
     E_JOB_EXECUTION_STARTED, E_JOB_EXECUTION_STALLED, E_JOB_EXECUTION_RESUMED, E_ASSIST_STARTED, E_ASSIST_ENDED, E_EXECUTION_COMPLETED,
     E_EXECUTION_ABORTED, E_JOB_EXECUTION_COMPLETED, E_JOB_EXECUTION_ABORTED, E_JOB_RESCHEDULED, E_JOB_CANCELLED, E_SETTLED]"

section \<open>Jobs\<close>

text \<open>\<open>now\<close> is the clock at the call.\<close>

definition createJob :: "string \<Rightarrow> jsval \<Rightarrow> jsval" where
  "createJob now args =
     (let createdAt = dflt (getp args ''createdAt'') (JStr now) in JObj
     [(''id'', getp args ''id''), (''tenantId'', dflt (getp args ''tenantId'') JNull),
      (''customerId'', dflt (getp args ''customerId'') JNull), (''siteId'', dflt (getp args ''siteId'') JNull),
      (''contractId'', dflt (getp args ''contractId'') JNull),
      (''customerContractHash'', JNull), (''customerPolicyHash'', JNull), (''customerCompilerId'', JNull),
      (''operatorContractHash'', JNull), (''operatorPolicyHash'', JNull), (''operatorCompilerId'', JNull),
      (''templateId'', getp args ''templateId''), (''constraints'', dflt (getp args ''constraints'') (JObj [])),
      (''status'', JStr (status_name S_CREATED)), (''revision'', JInt 0), (''createdAt'', createdAt), (''updatedAt'', createdAt),
      (''lastChainHash'', JNull), (''lastEventId'', JNull), (''quote'', JNull), (''booking'', JNull), (''cancellation'', JNull),
      (''match'', JNull), (''reservation'', JNull), (''accessPlan'', JNull),
      (''access'', JObj [(''status'', JStr ''none''), (''accessPlanId'', JNull), (''grantedAt'', JNull), (''deniedAt'', JNull),
         (''revokedAt'', JNull), (''expiredAt'', JNull)]),
      (''execution'', JObj [(''startedAt'', JNull), (''robotId'', JNull), (''stage'', JNull), (''lastHeartbeatAt'', JNull),
         (''lastHeartbeatStage'', JNull), (''lastHeartbeatProgress'', JNull), (''lastHeartbeatAssistRequested'', JNull),
         (''stalledAt'', JNull), (''stallReason'', JNull), (''resumedAt'', JNull), (''completedAt'', JNull), (''abortedAt'', JNull)]),
      (''operatorCoverage'', JObj [(''status'', JStr ''none''), (''reservationId'', JNull), (''operatorId'', JNull), (''startAt'', JNull),
         (''endAt'', JNull), (''reservedAt'', JNull), (''releasedAt'', JNull)]),
      (''assist'', JObj [(''status'', JStr ''none''), (''queueId'', JNull), (''operatorId'', JNull), (''queuedAt'', JNull),
         (''assignedAt'', JNull), (''acceptedAt'', JNull), (''declinedAt'', JNull)]),
      (''skillLicenses'', JArr []), (''skillUses'', JArr [])])"

definition invalidTransition :: "jsval \<Rightarrow> jsval \<Rightarrow> js_error" where
  "invalidTransition job event = CodedError ''InvalidJobTransitionError''
     (''Invalid transition from '' @ js_String (getp job ''status'') @ '' via '' @ js_String (getp event ''type''))"

definition isTransitionEvent :: "jsval \<Rightarrow> bool" where
  "isTransitionEvent event \<longleftrightarrow> getp event ''type'' \<noteq> JStr (event_name E_INCIDENT_REPORTED)
     \<and> getp event ''type'' \<in> set (map JStr TRANSITION_EVENT_TYPES)"

definition applyJobEvent :: "string \<Rightarrow> jsval \<Rightarrow> jsval \<Rightarrow> jsval res" where
  "applyJobEvent now job event =
     (if \<not> is_object job then Inl (TypeError ''job must be an object'')
      else if \<not> is_object event then Inl (TypeError ''event must be an object'')
      else if truthy (getp event ''streamId'') \<and> \<not> strict_eq (getp event ''streamId'') (getp job ''id'')
        then Inl (PlainError (''event.streamId ('' @ js_String (getp event ''streamId'') @ '') does not match job.id (''
               @ js_String (getp job ''id'') @ '')''))
      else
        let t = orElse (getp event ''at'') (JStr now) in
        if \<not> isTransitionEvent event
        then andThen (js_plus_one (getp job ''revision'')) (\<lambda>r.
               Inr (JObj (spread (enumerable job) [(''revision'', r), (''updatedAt'', t)])))
        else case map_of TRANSITIONS (js_String (getp job ''status'') @ '':'' @ js_String (getp event ''type'')) of
          None \<Rightarrow> Inl (invalidTransition job event)
        | Some next \<Rightarrow>
            andThen (js_plus_one (getp job ''revision'')) (\<lambda>r.
            let nextJob = spread (enumerable job) [(''status'', JStr next), (''revision'', r), (''updatedAt'', t)];
                payload = orElse (getp event ''payload'') JNull;
                quoted = (if getp event ''type'' = JStr (event_name E_QUOTE_PROPOSED) then put_prop ''quote'' payload nextJob else nextJob);
                matched = (if getp event ''type'' = JStr (event_name E_MATCHED) then put_prop ''match'' payload quoted else quoted)
            in Inr (JObj matched)))"

text \<open>Replaying a stream of events.\<close>

definition runJob :: "string \<Rightarrow> jsval \<Rightarrow> jsval list \<Rightarrow> jsval res" where
  "runJob now job events = foldRes (applyJobEvent now) job events"

section \<open>Who signs an event\<close>

datatype signer_kind = SK_SERVER | SK_ROBOT | SK_OPERATOR | SK_ROBOT_OR_OPERATOR | SK_SERVER_OR_OPERATOR | SK_SERVER_OR_ROBOT | SK_NONE

definition ROBOT_SIGNED_TYPES :: "string list" where
  "ROBOT_SIGNED_TYPES = [
     ''TELEMETRY_HEARTBEAT'', ''CHECKPOINT_REACHED'', ''EN_ROUTE'', ''ASSIST_REQUESTED'', ''EXECUTION_STARTED'', ''JOB_EXECUTION_STARTED'',
     ''JOB_HEARTBEAT'', ''EXECUTION_COMPLETED'', ''JOB_EXECUTION_COMPLETED'', ''EXECUTION_ABORTED'', ''INCIDENT_DETECTED'', ''SKILL_METER_REPORTED'',
     ''ROBOT_HEARTBEAT'']"

definition OPERATOR_SIGNED_TYPES :: "string list" where
  "OPERATOR_SIGNED_TYPES = [
     ''ASSIST_STARTED'', ''ASSIST_ENDED'', ''ASSIST_ACCEPTED'', ''ASSIST_DECLINED'', ''OPERATOR_SHIFT_OPENED'', ''OPERATOR_SHIFT_CLOSED'']"

definition OPERATOR_EMERGENCY_SIGNED_TYPES :: "string list" where
  "OPERATOR_EMERGENCY_SIGNED_TYPES = [
     ''OPERATOR_EMERGENCY_PAUSE'', ''OPERATOR_EMERGENCY_QUARANTINE'', ''OPERATOR_EMERGENCY_REVOKE'', ''OPERATOR_EMERGENCY_REVOKE_DELEGATION'',
     ''OPERATOR_EMERGENCY_KILL_SWITCH'', ''OPERATOR_EMERGENCY_RESUME'']"

definition ROBOT_OR_OPERATOR_SIGNED_TYPES :: "string list" where
  "ROBOT_OR_OPERATOR_SIGNED_TYPES = [
     ''ACCESS_GRANTED'', ''ACCESS_DENIED'', ''SKILL_USED'', ''ZONE_COVERAGE_REPORTED'']"

definition SERVER_OR_OPERATOR_SIGNED_TYPES :: "string list" where
  "SERVER_OR_OPERATOR_SIGNED_TYPES = [
     ''INCIDENT_REPORTED'', ''CLAIM_TRIAGED'']"

definition SERVER_OR_ROBOT_SIGNED_TYPES :: "string list" where
  "SERVER_OR_ROBOT_SIGNED_TYPES = [
     ''EVIDENCE_CAPTURED'', ''JOB_EXECUTION_ABORTED'', ''JOB_EXECUTION_RESUMED'', ''ROBOT_UNHEALTHY'']"

definition SERVER_SIGNED_TYPES :: "string list" where
  "SERVER_SIGNED_TYPES = [
     ''JOB_CREATED'', ''QUOTE_PROPOSED'', ''RISK_SCORED'', ''BOOKED'', ''DISPATCH_REQUESTED'', ''DISPATCH_EVALUATED'', ''DISPATCH_CONFIRMED'',
     ''DISPATCH_FAILED'', ''OPERATOR_COVERAGE_RESERVED'', ''OPERATOR_COVERAGE_RELEASED'', ''ASSIST_QUEUED'', ''ASSIST_ASSIGNED'', ''ASSIST_TIMEOUT'',
     ''MATCHED'', ''RESERVED'', ''SETTLED'', ''JOB_EXECUTION_STALLED'', ''JOB_RESCHEDULED'', ''JOB_CANCELLED'', ''ACCESS_PLAN_ISSUED'',
     ''ACCESS_REVOKED'', ''ACCESS_EXPIRED'', ''SKILL_LICENSED'', ''CLAIM_OPENED'', ''CLAIM_APPROVED'', ''CLAIM_DENIED'', ''CLAIM_PAID'',
     ''JOB_ADJUSTED'', ''ROBOT_REGISTERED'', ''ROBOT_AVAILABILITY_SET'', ''ROBOT_QUARANTINED'', ''ROBOT_QUARANTINE_CLEARED'',
     ''MAINTENANCE_REQUESTED'', ''MAINTENANCE_COMPLETED'', ''ROBOT_STATUS_CHANGED'', ''OPERATOR_REGISTERED'', ''OPERATOR_COST_RECORDED'',
     ''SLA_BREACH_DETECTED'', ''SLA_CREDIT_ISSUED'', ''PROOF_EVALUATED'', ''PROOF_OVERRIDDEN'', ''SETTLEMENT_HELD'', ''SETTLEMENT_RELEASED'',
     ''SETTLEMENT_FORFEITED'', ''DISPUTE_OPENED'', ''DISPUTE_CLOSED'', ''EVIDENCE_VIEWED'', ''EVIDENCE_EXPIRED'', ''CORRELATION_LINKED'',
     ''CORRELATION_RELINKED'', ''MONTH_CLOSE_REQUESTED'', ''MONTH_CLOSED'', ''MONTH_CLOSE_REOPENED'', ''INSURER_REIMBURSEMENT_RECORDED'',
     ''DECISION_RECORDED'', ''TENANT_POLICY_UPDATED'', ''SERVER_SIGNER_KEY_REGISTERED'', ''SERVER_SIGNER_KEY_ROTATED'', ''SERVER_SIGNER_KEY_REVOKED'']"

definition requiredSignerKindForEventType :: "jsval \<Rightarrow> signer_kind" where
  "requiredSignerKindForEventType v =
     (let has = (\<lambda>xs. v \<in> set (map JStr xs)) in
      if has ROBOT_SIGNED_TYPES then SK_ROBOT
      else if has OPERATOR_SIGNED_TYPES then SK_OPERATOR
      else if has OPERATOR_EMERGENCY_SIGNED_TYPES then SK_OPERATOR
      else if (case v of JStr s \<Rightarrow> startsWith s ''OPERATOR_EMERGENCY_'' | _ \<Rightarrow> False) then SK_OPERATOR
      else if has ROBOT_OR_OPERATOR_SIGNED_TYPES then SK_ROBOT_OR_OPERATOR
      else if has SERVER_OR_OPERATOR_SIGNED_TYPES then SK_SERVER_OR_OPERATOR
      else if has SERVER_OR_ROBOT_SIGNED_TYPES then SK_SERVER_OR_ROBOT
      else if has SERVER_SIGNED_TYPES then SK_SERVER
      else SK_NONE)"

definition signed_type_sets :: "string list list" where
  "signed_type_sets = [ROBOT_SIGNED_TYPES, OPERATOR_SIGNED_TYPES, OPERATOR_EMERGENCY_SIGNED_TYPES, ROBOT_OR_OPERATOR_SIGNED_TYPES,
     SERVER_OR_OPERATOR_SIGNED_TYPES, SERVER_OR_ROBOT_SIGNED_TYPES, SERVER_SIGNED_TYPES]"

text \<open>A set is enumerated in order of first insertion; \<^verbatim>\<open>sort()\<close> orders by code units.\<close>

definition listKnownEventTypes :: "string list" where
  "listKnownEventTypes = sort (remdups (concat signed_type_sets))"

section \<open>The state machine behind the table\<close>

definition job_step :: "job_status \<Rightarrow> job_event_type \<Rightarrow> job_status option" where
  "job_step s e = map_of (map (\<lambda>(s, e, n). ((s, e), n)) job_transitions) (s, e)"

definition all_statuses :: "job_status list" where
  "all_statuses = [S_CREATED, S_QUOTED, S_BOOKED, S_MATCHED, S_RESERVED, S_EN_ROUTE, S_ACCESS_GRANTED, S_EXECUTING, S_ASSISTED,
     S_STALLED, S_ABORTING_SAFE_EXIT, S_COMPLETED, S_ABORTED, S_SETTLED]"

definition all_event_types :: "job_event_type list" where
  "all_event_types = [E_QUOTE_PROPOSED, E_BOOKED, E_MATCHED, E_RESERVED, E_EN_ROUTE, E_ACCESS_GRANTED, E_ACCESS_REVOKED, E_ACCESS_EXPIRED,
     E_EXECUTION_STARTED, E_JOB_EXECUTION_STARTED, E_JOB_EXECUTION_STALLED, E_JOB_EXECUTION_RESUMED, E_ASSIST_STARTED, E_ASSIST_ENDED,
     E_EXECUTION_COMPLETED, E_JOB_EXECUTION_COMPLETED, E_EXECUTION_ABORTED, E_JOB_EXECUTION_ABORTED, E_JOB_RESCHEDULED, E_JOB_CANCELLED,
     E_SETTLED, E_INCIDENT_REPORTED]"

lemma all_statuses: "s \<in> set all_statuses"
  by (cases s) (simp_all add: all_statuses_def)

lemma all_event_types: "e \<in> set all_event_types"
  by (cases e) (simp_all add: all_event_types_def)

lemma distinct_names_inj: "distinct (map f xs) \<Longrightarrow> (\<And>x. x \<in> set xs) \<Longrightarrow> f a = f b \<longleftrightarrow> a = b"
  by (auto simp: distinct_map inj_on_def)

lemma status_name_eq [simp]: "status_name s = status_name t \<longleftrightarrow> s = t"
proof (rule distinct_names_inj[OF _ all_statuses])
  show "distinct (map status_name all_statuses)" by code_simp
qed

lemma event_name_eq [simp]: "event_name d = event_name e \<longleftrightarrow> d = e"
proof (rule distinct_names_inj[OF _ all_event_types])
  show "distinct (map event_name all_event_types)" by code_simp
qed

lemma status_name_no_colon: "CHR '':'' \<notin> set (status_name s)"
proof -
  have "list_all (\<lambda>s. CHR '':'' \<notin> set (status_name s)) all_statuses" by code_simp
  then show ?thesis using all_statuses[of s] by (simp add: list_all_iff)
qed

lemma transition_key_eq:
  "status_name s @ '':'' @ event_name d = status_name t @ '':'' @ event_name e \<longleftrightarrow> s = t \<and> d = e"
  using append_eq_prefix_free[of "status_name s" "CHR '':''" "event_name d" "status_name t" "CHR '':''" "event_name e"]
    status_name_no_colon[of s] status_name_no_colon[of t] by auto

lemma TRANSITIONS_lookup:
  "map_of TRANSITIONS (status_name s @ '':'' @ event_name e) = map_option status_name (job_step s e)"
proof -
  have "map_of (map (\<lambda>(s, e, n). (status_name s @ '':'' @ event_name e, status_name n)) ts) (status_name s @ '':'' @ event_name e)
      = map_option status_name (map_of (map (\<lambda>(s, e, n). ((s, e), n)) ts) (s, e))" for ts
  proof (induction ts)
    case (Cons t ts)
    then show ?case
      by (cases t) (auto simp del: append_Cons append.simps simp: transition_key_eq)
  qed simp
  then show ?thesis by (simp only: TRANSITIONS_def job_step_def)
qed

section \<open>Refinement\<close>

text \<open>A job document in a given status.\<close>

definition job_at :: "jsval \<Rightarrow> job_status \<Rightarrow> int \<Rightarrow> bool" where
  "job_at job s n \<longleftrightarrow> (\<exists>ps. job = JObj ps) \<and> getp job ''status'' = JStr (status_name s) \<and> getp job ''revision'' = JInt n"

lemma job_at_created: "job_at (createJob now args) S_CREATED 0"
  by (simp add: job_at_def createJob_def Let_def)

definition stream_ok :: "jsval \<Rightarrow> jsval \<Rightarrow> bool" where
  "stream_ok job event \<longleftrightarrow> is_object event \<and> (truthy (getp event ''streamId'') \<longrightarrow> strict_eq (getp event ''streamId'') (getp job ''id''))"

lemma transition_event_type:
  assumes "isTransitionEvent event"
  shows "\<exists>e. getp event ''type'' = JStr (event_name e) \<and> e \<noteq> E_INCIDENT_REPORTED"
proof -
  from assms obtain e where "getp event ''type'' = JStr (event_name e)"
    unfolding isTransitionEvent_def TRANSITION_EVENT_TYPES_def set_map by blast
  moreover have "getp event ''type'' \<noteq> JStr (event_name E_INCIDENT_REPORTED)" using assms by (simp add: isTransitionEvent_def)
  ultimately show ?thesis by (metis event_name_eq)
qed

lemma isTransitionEvent_name: "getp event ''type'' = JStr (event_name e) \<Longrightarrow> isTransitionEvent event \<longleftrightarrow> e \<noteq> E_INCIDENT_REPORTED"
  by (cases e) (simp_all add: isTransitionEvent_def TRANSITION_EVENT_TYPES_def)

lemma getp_if: "getp (JObj (if b then ps else qs)) k = (if b then getp (JObj ps) k else getp (JObj qs) k)"
  by simp

lemma other_event:
  assumes "job_at job s n" and "is_safe (n + 1)" and "stream_ok job event" and "\<not> isTransitionEvent event"
  shows "\<exists>job'. applyJobEvent now job event = Inr job' \<and> job_at job' s (n + 1)"
  using assms by (auto simp: job_at_def applyJobEvent_def stream_ok_def enumerable_def js_plus_one_def num_plus_one_safe Let_def)

lemma transition_event:
  assumes "job_at job s n" and "is_safe (n + 1)" and "stream_ok job event"
    and "getp event ''type'' = JStr (event_name e)" and "e \<noteq> E_INCIDENT_REPORTED"
  shows "case job_step s e of
      None \<Rightarrow> applyJobEvent now job event = Inl (invalidTransition job event)
    | Some s' \<Rightarrow> \<exists>job'. applyJobEvent now job event = Inr job' \<and> job_at job' s' (n + 1)"
proof -
  have k: "js_String (getp job ''status'') @ '':'' @ js_String (getp event ''type'') = status_name s @ '':'' @ event_name e"
    using assms(1,4) by (simp add: job_at_def)
  have t: "isTransitionEvent event" using assms(4,5) by (simp add: isTransitionEvent_name)
  obtain ps where j: "job = JObj ps" using assms(1) by (auto simp: job_at_def)
  show ?thesis
  proof (cases "job_step s e")
    case None
    then show ?thesis using assms(1,3) j t unfolding applyJobEvent_def k TRANSITIONS_lookup by (auto simp: stream_ok_def Let_def)
  next
    case (Some s')
    then show ?thesis using assms(1,2,3) j t unfolding applyJobEvent_def k TRANSITIONS_lookup
      by (auto simp: stream_ok_def job_at_def enumerable_def js_plus_one_def num_plus_one_safe Let_def getp_if)
  qed
qed


text \<open>What an accepted event did.\<close>

definition event_effect :: "jsval \<Rightarrow> job_status \<Rightarrow> job_status \<Rightarrow> bool" where
  "event_effect event s s' \<longleftrightarrow>
     (if isTransitionEvent event then \<exists>e. getp event ''type'' = JStr (event_name e) \<and> job_step s e = Some s' else s' = s)"

lemma accepted_event:
  assumes "job_at job s n" and "is_safe (n + 1)" and "applyJobEvent now job event = Inr job'"
  shows "\<exists>s'. job_at job' s' (n + 1) \<and> event_effect event s s'"
proof -
  have ok: "stream_ok job event" using assms(3) by (auto simp: applyJobEvent_def stream_ok_def split: if_splits)
  show ?thesis
  proof (cases "isTransitionEvent event")
    case True
    then obtain e where e: "getp event ''type'' = JStr (event_name e)" "e \<noteq> E_INCIDENT_REPORTED"
      using transition_event_type by blast
    show ?thesis using transition_event[OF assms(1,2) ok e, of now] assms(3) True e(1)
      by (cases "job_step s e") (auto simp: event_effect_def)
  next
    case False
    then show ?thesis using other_event[OF assms(1,2) ok False, of now] assms(3) by (auto simp: event_effect_def)
  qed
qed

inductive job_run :: "job_status \<Rightarrow> jsval list \<Rightarrow> job_status \<Rightarrow> bool" where
  stop: "job_run s [] s"
| more: "event_effect event s t \<Longrightarrow> job_run t events u \<Longrightarrow> job_run s (event # events) u"

lemma runJob_run:
  assumes "job_at job s n" and "0 \<le> n" and "is_safe (n + int (length events))" and "runJob now job events = Inr job'"
  shows "\<exists>s'. job_at job' s' (n + int (length events)) \<and> job_run s events s'"
  using assms
proof (induction events arbitrary: job s n)
  case Nil
  then show ?case by (auto simp: runJob_def intro: job_run.stop)
next
  case (Cons e es)
  from Cons.prems(4) obtain j where j: "applyJobEvent now job e = Inr j" and r: "runJob now j es = Inr job'"
    by (auto simp: runJob_def andThen_Inr_iff)
  have "is_safe (n + 1)" using Cons.prems(2,3) by (auto simp: is_safe_bounds)
  then obtain t where t: "job_at j t (n + 1)" "event_effect e s t" using accepted_event[OF Cons.prems(1) _ j] by blast
  have "is_safe (n + 1 + int (length es))" using Cons.prems(3) by (simp add: algebra_simps)
  from Cons.IH[OF t(1) _ this r] Cons.prems(2) obtain s' where s': "job_at job' s' (n + 1 + int (length es))" "job_run t es s'"
    by auto
  then show ?case using t(2) by (auto simp: algebra_simps intro: job_run.more)
qed

lemma job_step_mem: "job_step s e = Some s' \<Longrightarrow> (s, e, s') \<in> set job_transitions"
  by (auto simp: job_step_def dest!: map_of_SomeD)

section \<open>Order of execution\<close>

text \<open>The events that must have happened, in this order, before a job is in a status.\<close>

fun milestones :: "job_event_type \<Rightarrow> job_status \<Rightarrow> job_event_type list" where
  "milestones st S_QUOTED = [E_QUOTE_PROPOSED]"
| "milestones st S_BOOKED = [E_QUOTE_PROPOSED, E_BOOKED]"
| "milestones st S_MATCHED = [E_QUOTE_PROPOSED, E_BOOKED, E_MATCHED]"
| "milestones st S_RESERVED = [E_QUOTE_PROPOSED, E_BOOKED, E_MATCHED, E_RESERVED]"
| "milestones st S_EN_ROUTE = [E_QUOTE_PROPOSED, E_BOOKED, E_MATCHED, E_RESERVED, E_EN_ROUTE]"
| "milestones st S_ACCESS_GRANTED = [E_QUOTE_PROPOSED, E_BOOKED, E_MATCHED, E_RESERVED, E_EN_ROUTE, E_ACCESS_GRANTED]"
| "milestones st S_EXECUTING = [E_QUOTE_PROPOSED, E_BOOKED, E_MATCHED, E_RESERVED, E_EN_ROUTE, E_ACCESS_GRANTED, st]"
| "milestones st S_ASSISTED = [E_QUOTE_PROPOSED, E_BOOKED, E_MATCHED, E_RESERVED, E_EN_ROUTE, E_ACCESS_GRANTED, st]"
| "milestones st S_STALLED = [E_QUOTE_PROPOSED, E_BOOKED, E_MATCHED, E_RESERVED, E_EN_ROUTE, E_ACCESS_GRANTED, st]"
| "milestones st S_COMPLETED = [E_QUOTE_PROPOSED, E_BOOKED, E_MATCHED, E_RESERVED, E_EN_ROUTE, E_ACCESS_GRANTED, st]"
| "milestones st _ = []"

definition start_events :: "job_event_type list" where
  "start_events = [E_EXECUTION_STARTED, E_JOB_EXECUTION_STARTED]"

lemma milestones_step:
  assumes "job_step s e = Some s'" and "st \<in> set start_events"
  shows "\<exists>st' \<in> set start_events. subseq (milestones st' s') (milestones st s @ [e])"
proof -
  have "list_all (\<lambda>(s, e, s'). list_all (\<lambda>st. list_ex (\<lambda>st'. subseq (milestones st' s') (milestones st s @ [e])) start_events) start_events)
    job_transitions" by code_simp
  then show ?thesis using job_step_mem[OF assms(1)] assms(2) by (force simp: list_all_iff list_ex_iff)
qed

lemma milestones_run:
  assumes "job_run s events s'" and "st \<in> set start_events" and "subseq (map (\<lambda>e. JStr (event_name e)) (milestones st s)) ts"
  shows "\<exists>st' \<in> set start_events. subseq (map (\<lambda>e. JStr (event_name e)) (milestones st' s')) (ts @ map (\<lambda>e. getp e ''type'') events)"
  using assms
proof (induction arbitrary: st ts rule: job_run.induct)
  case (more event s t events u)
  show ?case
  proof (cases "isTransitionEvent event")
    case True
    then obtain e where e: "getp event ''type'' = JStr (event_name e)" "job_step s e = Some t"
      using more.hyps(1) by (auto simp: event_effect_def)
    obtain st' where st': "st' \<in> set start_events" "subseq (milestones st' t) (milestones st s @ [e])"
      using milestones_step[OF e(2) more.prems(1)] by blast
    have "subseq (map (\<lambda>e. JStr (event_name e)) (milestones st' t)) (map (\<lambda>e. JStr (event_name e)) (milestones st s @ [e]))"
      using st'(2) by (rule subseq_map)
    also have "subseq \<dots> (ts @ [getp event ''type''])" using more.prems(2) e(1) by (simp add: list_emb_append_mono)
    finally show ?thesis using more.IH[OF st'(1)] by fastforce
  next
    case False
    then have "t = s" using more.hyps(1) by (simp add: event_effect_def)
    then have "subseq (map (\<lambda>e. JStr (event_name e)) (milestones st t)) (ts @ [getp event ''type''])"
      using more.prems(2) by (simp add: subseq_rev_drop_many)
    then show ?thesis using more.IH[OF more.prems(1)] by fastforce
  qed
qed auto


text \<open>C16: The code runs the state machine of the table. A transition event of a job in status \<open>s\<close> is rejected with
  an invalid-transition error when the table has no row for it, and otherwise gives a job in the status
  of the row; any other event keeps the status; every accepted event raises the revision by one.\<close>

theorem job_refines_table:
  assumes "job_at job s n" and "is_safe (n + 1)" and "stream_ok job event"
  shows "if isTransitionEvent event
    then \<exists>e. getp event ''type'' = JStr (event_name e)
      \<and> (case job_step s e of
            None \<Rightarrow> applyJobEvent now job event = Inl (invalidTransition job event)
          | Some s' \<Rightarrow> \<exists>job'. applyJobEvent now job event = Inr job' \<and> job_at job' s' (n + 1))
    else \<exists>job'. applyJobEvent now job event = Inr job' \<and> job_at job' s (n + 1)"
  using other_event[OF assms] transition_event[OF assms] transition_event_type[of event] by fastforce

text \<open>C35: Execution happens in order. A job replayed from its creation that is executing, assisted, stalled or
  completed has been quoted, booked, matched, reserved, en route, granted access and started, in this
  order.\<close>

theorem job_execution_order:
  assumes "runJob now (createJob now args) events = Inr job" and "is_safe (int (length events))"
    and "getp job ''status'' \<in> JStr ` status_name ` {S_EXECUTING, S_ASSISTED, S_STALLED, S_COMPLETED}"
  shows "\<exists>start \<in> {E_EXECUTION_STARTED, E_JOB_EXECUTION_STARTED}.
    subseq (map (\<lambda>e. JStr (event_name e)) [E_QUOTE_PROPOSED, E_BOOKED, E_MATCHED, E_RESERVED, E_EN_ROUTE, E_ACCESS_GRANTED, start])
      (map (\<lambda>e. getp e ''type'') events)"
proof -
  obtain s where s: "job_at job s (int (length events))" "job_run S_CREATED events s"
    using runJob_run[OF job_at_created, of events now now args job] assms by auto
  have e: "s \<in> {S_EXECUTING, S_ASSISTED, S_STALLED, S_COMPLETED}" using s(1) assms(3) by (auto simp: job_at_def simp del: status_name.simps)
  obtain st where st: "st \<in> set start_events" "subseq (map (\<lambda>e. JStr (event_name e)) (milestones st s)) (map (\<lambda>e. getp e ''type'') events)"
    using milestones_run[OF s(2), of E_EXECUTION_STARTED "[]"] by (auto simp: start_events_def)
  have "milestones st s = [E_QUOTE_PROPOSED, E_BOOKED, E_MATCHED, E_RESERVED, E_EN_ROUTE, E_ACCESS_GRANTED, st]" using e by auto
  then show ?thesis using st by (auto simp: start_events_def)
qed

section \<open>Settling\<close>

fun way_out :: "job_status \<Rightarrow> job_event_type list" where
  "way_out S_SETTLED = []"
| "way_out S_COMPLETED = [E_SETTLED]"
| "way_out S_ABORTED = [E_SETTLED]"
| "way_out S_ABORTING_SAFE_EXIT = [E_EXECUTION_ABORTED, E_SETTLED]"
| "way_out S_CREATED = [E_JOB_CANCELLED, E_SETTLED]"
| "way_out S_QUOTED = [E_JOB_CANCELLED, E_SETTLED]"
| "way_out S_BOOKED = [E_JOB_CANCELLED, E_SETTLED]"
| "way_out S_MATCHED = [E_JOB_CANCELLED, E_SETTLED]"
| "way_out S_RESERVED = [E_JOB_CANCELLED, E_SETTLED]"
| "way_out _ = [E_JOB_CANCELLED, E_EXECUTION_ABORTED, E_SETTLED]"

definition bare_event :: "job_event_type \<Rightarrow> jsval" where
  "bare_event e = JObj [(''type'', JStr (event_name e))]"

fun job_steps :: "job_status \<Rightarrow> job_event_type list \<Rightarrow> job_status option" where
  "job_steps s [] = Some s"
| "job_steps s (e # es) = (case job_step s e of None \<Rightarrow> None | Some t \<Rightarrow> if e = E_INCIDENT_REPORTED then None else job_steps t es)"

lemma way_out_settles: "job_steps s (way_out s) = Some S_SETTLED \<and> length (way_out s) \<le> 3"
proof -
  have "list_all (\<lambda>s. job_steps s (way_out s) = Some S_SETTLED \<and> length (way_out s) \<le> 3) all_statuses" by code_simp
  then show ?thesis using all_statuses[of s] by (simp add: list_all_iff)
qed

lemma runJob_steps:
  assumes "job_at job s n" and "0 \<le> n" and "is_safe (n + int (length es))" and "job_steps s es = Some t"
  shows "\<exists>job'. runJob now job (map bare_event es) = Inr job' \<and> job_at job' t (n + int (length es))"
  using assms
proof (induction es arbitrary: job s n)
  case Nil
  then show ?case by (simp add: runJob_def)
next
  case (Cons e es)
  from Cons.prems(4) obtain u where u: "job_step s e = Some u" "job_steps u es = Some t" "e \<noteq> E_INCIDENT_REPORTED"
    by (auto split: option.splits if_splits)
  have "is_safe (n + 1)" using Cons.prems(2,3) by (auto simp: is_safe_bounds)
  moreover have "stream_ok job (bare_event e)" by (simp add: stream_ok_def bare_event_def)
  moreover have "getp (bare_event e) ''type'' = JStr (event_name e)" by (simp add: bare_event_def)
  ultimately obtain j where j: "applyJobEvent now job (bare_event e) = Inr j" "job_at j u (n + 1)"
    using transition_event[OF Cons.prems(1) _ _ _ u(3), of "bare_event e" now] u(1) by auto
  have "is_safe (n + 1 + int (length es))" using Cons.prems(3) by (simp add: algebra_simps)
  then show ?case using Cons.IH[OF j(2) _ _ u(2)] Cons.prems(2) j(1) by (auto simp: runJob_def algebra_simps)
qed

text \<open>C36: No job is stuck. From every job that a stream of events leads to, at most three more events lead to
  a settled job.\<close>

theorem job_can_settle:
  assumes "runJob now (createJob now args) events = Inr job" and "is_safe (int (length events) + 3)"
  shows "\<exists>more job'. length more \<le> 3 \<and> runJob now job more = Inr job' \<and> getp job' ''status'' = JStr ''SETTLED''"
proof -
  have "is_safe (int (length events))" using assms(2) by (auto simp: is_safe_bounds)
  then obtain s where s: "job_at job s (int (length events))"
    using runJob_run[OF job_at_created, of events now now args job] assms(1) by auto
  have w: "job_steps s (way_out s) = Some S_SETTLED" "length (way_out s) \<le> 3" using way_out_settles by blast+
  then have "is_safe (int (length events) + int (length (way_out s)))" using assms(2) by (auto simp: is_safe_bounds)
  then obtain job' where "runJob now job (map bare_event (way_out s)) = Inr job'" "getp job' ''status'' = JStr ''SETTLED''"
    using runJob_steps[OF s _ _ w(1), of now] by (auto simp: job_at_def)
  moreover have "length (map bare_event (way_out s)) \<le> 3" using w(2) by simp
  ultimately show ?thesis by blast
qed

lemma settled_no_step: "job_step S_SETTLED e = None"
proof -
  have "list_all (\<lambda>(s, e, s'). s \<noteq> S_SETTLED) job_transitions" by code_simp
  then have "(S_SETTLED, e, s') \<notin> set job_transitions" for s' by (auto simp: list_all_iff)
  then show ?thesis by (cases "job_step S_SETTLED e") (auto dest: job_step_mem)
qed

lemma job_run_settled: "job_run s events s' \<Longrightarrow> s = S_SETTLED \<Longrightarrow> s' = S_SETTLED \<and> (\<forall>e \<in> set events. \<not> isTransitionEvent e)"
  by (induction rule: job_run.induct) (auto simp: event_effect_def settled_no_step split: if_splits)

text \<open>Settlement is final. A settled job accepts no transition event any more, and whatever events it accepts
  leave it settled.\<close>

theorem job_settled_final:
  assumes "runJob now (createJob now args) events = Inr job" and "getp job ''status'' = JStr ''SETTLED''"
    and "runJob now job more = Inr job'" and "is_safe (int (length events) + int (length more))"
  shows "getp job' ''status'' = JStr ''SETTLED'' \<and> list_all (\<lambda>e. \<not> isTransitionEvent e) more"
proof -
  have "is_safe (int (length events))" using assms(4) by (auto simp: is_safe_bounds)
  then obtain s where s: "job_at job s (int (length events))"
    using runJob_run[OF job_at_created, of events now now args job] assms(1) by auto
  moreover have "s = S_SETTLED" using s assms(2) status_name_eq[of s S_SETTLED] by (simp add: job_at_def)
  moreover obtain s' where "job_at job' s' (int (length events) + int (length more))" "job_run s more s'"
    using runJob_run[OF s _ assms(4,3)] by auto
  ultimately show ?thesis using job_run_settled[of s more s'] by (auto simp: job_at_def list_all_iff)
qed

section \<open>Signatures\<close>

text \<open>The signature policy is complete and unambiguous. An event type needs no signature exactly when it is
  neither a known type nor an emergency type; no type is in two of the tables; and every event type that
  changes the status of a job is known, so it needs a signature.\<close>

theorem signer_policy_total:
  "(\<forall>t. requiredSignerKindForEventType (JStr t) = SK_NONE \<longleftrightarrow> t \<notin> set listKnownEventTypes \<and> \<not> startsWith t ''OPERATOR_EMERGENCY_'')
    \<and> distinct (concat signed_type_sets)
    \<and> list_all (\<lambda>t. t \<in> set listKnownEventTypes \<and> requiredSignerKindForEventType (JStr t) \<noteq> SK_NONE) TRANSITION_EVENT_TYPES"
proof (intro conjI)
  have k: "requiredSignerKindForEventType (JStr t) = SK_NONE \<longleftrightarrow> t \<notin> set listKnownEventTypes \<and> \<not> startsWith t ''OPERATOR_EMERGENCY_''" for t
    unfolding requiredSignerKindForEventType_def Let_def listKnownEventTypes_def signed_type_sets_def by auto
  then show "\<forall>t. requiredSignerKindForEventType (JStr t) = SK_NONE \<longleftrightarrow> t \<notin> set listKnownEventTypes \<and> \<not> startsWith t ''OPERATOR_EMERGENCY_''"
    by blast
  show "distinct (concat signed_type_sets)" by code_simp
  have "list_all (\<lambda>t. t \<in> set (concat signed_type_sets)) TRANSITION_EVENT_TYPES" by code_simp
  then show "list_all (\<lambda>t. t \<in> set listKnownEventTypes \<and> requiredSignerKindForEventType (JStr t) \<noteq> SK_NONE) TRANSITION_EVENT_TYPES"
    unfolding list_all_iff k by (simp add: listKnownEventTypes_def)
qed


section \<open>Examples\<close>

theorem job_refines_table_witness:
  "\<exists>job'. applyJobEvent ''t'' (createJob ''t'' (JObj [])) (bare_event E_QUOTE_PROPOSED) = Inr job' \<and> job_at job' S_QUOTED 1"
proof -
  have a: "is_safe (0 + 1)" "stream_ok (createJob ''t'' (JObj [])) (bare_event E_QUOTE_PROPOSED)" "isTransitionEvent (bare_event E_QUOTE_PROPOSED)"
    "job_step S_CREATED E_QUOTE_PROPOSED = Some S_QUOTED" by code_simp+
  have t: "getp (bare_event E_QUOTE_PROPOSED) ''type'' = JStr (event_name E_QUOTE_PROPOSED)" by (simp add: bare_event_def)
  show ?thesis using job_refines_table[OF job_at_created a(1,2), of "''t''"] a(3,4) unfolding t
    by (auto simp del: event_name.simps)
qed

lemma created_steps:
  assumes "is_safe (int (length es))" and "job_steps S_CREATED es = Some t"
  shows "\<exists>job. runJob now (createJob now args) (map bare_event es) = Inr job \<and> job_at job t (int (length es))"
  using runJob_steps[OF job_at_created[of now args] _ _ assms(2), of now] assms(1) by simp

definition sample_events :: "job_event_type list" where
  "sample_events = [E_QUOTE_PROPOSED, E_BOOKED, E_MATCHED, E_RESERVED, E_EN_ROUTE, E_ACCESS_GRANTED, E_JOB_EXECUTION_STARTED]"

theorem job_execution_order_witness:
  "\<exists>start \<in> {E_EXECUTION_STARTED, E_JOB_EXECUTION_STARTED}.
    subseq (map (\<lambda>e. JStr (event_name e)) [E_QUOTE_PROPOSED, E_BOOKED, E_MATCHED, E_RESERVED, E_EN_ROUTE, E_ACCESS_GRANTED, start])
      (map (\<lambda>e. getp e ''type'') (map bare_event sample_events))"
proof -
  have a: "is_safe (int (length sample_events))" "job_steps S_CREATED sample_events = Some S_EXECUTING"
    by (simp add: sample_events_def is_safe_bounds) code_simp
  obtain job where job: "runJob ''t'' (createJob ''t'' (JObj [])) (map bare_event sample_events) = Inr job"
      "job_at job S_EXECUTING (int (length sample_events))"
    using created_steps[OF a] by blast
  have "is_safe (int (length (map bare_event sample_events)))" using a(1) by simp
  then show ?thesis by (rule job_execution_order[OF job(1)]) (use job(2) in \<open>simp add: job_at_def\<close>)
qed

theorem job_can_settle_witness:
  "\<exists>more job'. length more \<le> 3 \<and> runJob ''t'' (createJob ''t'' (JObj [])) more = Inr job' \<and> getp job' ''status'' = JStr ''SETTLED''"
proof (rule job_can_settle)
  show "runJob ''t'' (createJob ''t'' (JObj [])) [] = Inr (createJob ''t'' (JObj []))" by (simp add: runJob_def)
  show "is_safe (int (length ([] :: jsval list)) + 3)" by (simp add: is_safe_bounds)
qed

theorem job_settled_final_witness:
  "\<exists>job job'. runJob ''t'' (createJob ''t'' (JObj [])) (map bare_event [E_JOB_CANCELLED, E_SETTLED]) = Inr job
    \<and> runJob ''t'' job [JObj []] = Inr job' \<and> getp job' ''status'' = JStr ''SETTLED''"
proof -
  have a: "is_safe (int (length [E_JOB_CANCELLED, E_SETTLED]))" "job_steps S_CREATED [E_JOB_CANCELLED, E_SETTLED] = Some S_SETTLED"
    by (simp add: is_safe_bounds) code_simp
  obtain job where job: "runJob ''t'' (createJob ''t'' (JObj [])) (map bare_event [E_JOB_CANCELLED, E_SETTLED]) = Inr job" "job_at job S_SETTLED 2"
    using created_steps[OF a, of "''t''" "JObj []"] by auto
  have "stream_ok job (JObj [])" "\<not> isTransitionEvent (JObj [])" "is_safe (2 + 1)"
    by (simp_all add: stream_ok_def isTransitionEvent_def TRANSITION_EVENT_TYPES_def is_safe_bounds)
  then obtain job' where job': "runJob ''t'' job [JObj []] = Inr job'"
    using other_event[OF job(2), of "JObj []" "''t''"] by (auto simp: runJob_def)
  have st: "getp job ''status'' = JStr ''SETTLED''" using job(2) by (simp add: job_at_def)
  have "is_safe (int (length (map bare_event [E_JOB_CANCELLED, E_SETTLED])) + int (length [JObj []]))" by (simp add: is_safe_bounds)
  from job_settled_final[OF job(1) st job' this] job(1) job' show ?thesis by blast
qed

end
