(* ===== verification/SettlementSplits.thy ===== *)
theory SettlementSplits
  imports JsOps
begin

text \<open>
  \<^verbatim>\<open>src/core/settlement-splits.js\<close>, \<^verbatim>\<open>src/core/hold-exposure.js\<close> and \<^verbatim>\<open>sumSkillLicenseFeesCents\<close> of
  \<^verbatim>\<open>src/core/skills.js\<close>: how the price of a job is divided between the platform, the owner, the
  operator, the developers and the insurance reserve, and how much of each part a hold policy
  keeps back. Percentages are products with decimal literals in doubles (\<open>floor_mul_lit\<close>), or
  \<^verbatim>\<open>Math.floor((x * p) / 100)\<close> (\<open>floor_mul_div\<close>). The results are that a split always adds up to the
  price, that it is the exact percentage below \<open>2 ^ 50\<close> cents, and that a hold never keeps back more
  than there is.
\<close>

section \<open>Royalties\<close>

definition licenseFee :: "jsval \<Rightarrow> int" where
  "licenseFee lic = (case safe_int_of (getp (getp lic ''pricing'') ''amountCents'') of
     Some n \<Rightarrow> (if n \<le> 0 then 0 else n) | None \<Rightarrow> 0)"

text \<open>The loop skips what is not a positive safe integer.\<close>

definition addLicenseFee :: "int \<Rightarrow> jsval \<Rightarrow> int" where
  "addLicenseFee acc lic = (if licenseFee lic = 0 then acc else add_int acc (licenseFee lic))"

definition sumSkillLicenseFeesCents :: "jsval \<Rightarrow> int" where
  "sumSkillLicenseFeesCents v = (case v of JArr xs \<Rightarrow> foldl addLicenseFee 0 xs | _ \<Rightarrow> 0)"

section \<open>Splits\<close>

definition assertSafeInteger :: "jsval \<Rightarrow> string \<Rightarrow> int res" where
  "assertSafeInteger v name = (case safe_int_of v of
     Some n \<Rightarrow> Inr n | None \<Rightarrow> Inl (TypeError (name @ '' must be a safe integer'')))"

record settlement_splits =
  sp_amountCents :: int
  sp_serviceAmountCents :: int
  sp_coverageFeeCents :: int
  sp_platformFeeCents :: int
  sp_ownerPayoutCents :: int
  sp_operatorFeeCents :: int
  sp_developerRoyaltiesCents :: int
  sp_insuranceReserveCents :: int

text \<open>The shares, before the check on the owner's.\<close>

definition splitShares :: "int \<Rightarrow> int \<Rightarrow> bool \<Rightarrow> int \<Rightarrow> settlement_splits" where
  "splitShares amount coverage assisted royalties =
     (let service = add_int amount (- coverage);
          platform = floor_mul_lit service (2 / 10);
          insurance = floor_mul_lit service (2 / 100);
          operator = (if assisted then floor_mul_lit service (5 / 100) else 0);
          owner = add_int (add_int (add_int (add_int service (- platform)) (- operator)) (- royalties)) (- insurance)
      in \<lparr>sp_amountCents = amount, sp_serviceAmountCents = service, sp_coverageFeeCents = coverage,
          sp_platformFeeCents = platform, sp_ownerPayoutCents = owner, sp_operatorFeeCents = operator,
          sp_developerRoyaltiesCents = royalties, sp_insuranceReserveCents = insurance\<rparr>)"

definition computeSettlementSplitsV1 :: "jsval \<Rightarrow> jsval \<Rightarrow> bool \<Rightarrow> jsval \<Rightarrow> settlement_splits res" where
  "computeSettlementSplitsV1 amountArg coverageArg assisted royaltiesArg =
     andThen (assertSafeInteger amountArg ''amountCents'') (\<lambda>amount.
     andThen (assertSafeInteger coverageArg ''coverageFeeCents'') (\<lambda>coverage.
     andThen (throwIf (coverage < 0) (TypeError ''coverageFeeCents must be >= 0'')) (\<lambda>_.
     andThen (throwIf (amount < coverage) (TypeError ''coverageFeeCents exceeds amountCents'')) (\<lambda>_.
     andThen (assertSafeInteger royaltiesArg ''developerRoyaltiesCents'') (\<lambda>royalties.
     let sp = splitShares amount coverage assisted royalties in
     andThen (throwIf (sp_ownerPayoutCents sp < 0) (TypeError ''settlement splits invalid: owner payout would be negative''))
       (\<lambda>_. Inr sp))))))"

definition hadAssist :: "jsval list \<Rightarrow> bool" where
  "hadAssist eventsBefore \<longleftrightarrow> (\<exists>e \<in> set eventsBefore. getp e ''type'' = JStr ''ASSIST_STARTED'')"

definition coverageOrZero :: "jsval \<Rightarrow> int" where
  "coverageOrZero v = (case safe_int_of v of Some n \<Rightarrow> (if 0 \<le> n then n else 0) | None \<Rightarrow> 0)"

definition quoteCurrency :: "jsval \<Rightarrow> string" where
  "quoteCurrency v = (case v of JStr s \<Rightarrow> (if trim s \<noteq> [] then s else ''USD'') | _ \<Rightarrow> ''USD'')"

text \<open>The currency and the splits; nothing when the quote has no amount.\<close>

definition computeExpectedSettlementSplitsV1 :: "jsval \<Rightarrow> jsval \<Rightarrow> (string \<times> settlement_splits) option res" where
  "computeExpectedSettlementSplitsV1 job eventsBefore =
     (if \<not> is_object job then Inl (TypeError ''job is required'')
      else let quote = getp job ''quote'' in
        case safe_int_of (getp quote ''amountCents'') of
          None \<Rightarrow> Inr None
        | Some amount \<Rightarrow>
            andThen (computeSettlementSplitsV1 (JInt amount)
                (JInt (coverageOrZero (orElse (getp (getp quote ''breakdown'') ''coverageFeeCents'') (JInt 0))))
                (case dflt eventsBefore (JArr []) of JArr es \<Rightarrow> hadAssist es | _ \<Rightarrow> False)
                (JInt (sumSkillLicenseFeesCents (orElse (getp job ''skillLicenses'') (JArr []))))) (\<lambda>splits.
              Inr (Some (quoteCurrency (getp quote ''currency''), splits))))"

section \<open>Holds\<close>

definition clampInt :: "jsnum \<Rightarrow> int \<Rightarrow> int \<Rightarrow> int" where
  "clampInt value lo hi = (case value of
     Fin r \<Rightarrow> (if is_safe \<lfloor>r\<rfloor> then max lo (min hi \<lfloor>r\<rfloor>) else lo)
   | NegZero \<Rightarrow> max lo (min hi 0)
   | _ \<Rightarrow> lo)"

definition safeString :: "jsval \<Rightarrow> string option" where
  "safeString v = (case v of JStr s \<Rightarrow> (if trim s \<noteq> [] then Some s else None) | _ \<Rightarrow> None)"

definition stringOr :: "string option \<Rightarrow> string \<Rightarrow> string" where
  "stringOr s d = (case s of Some t \<Rightarrow> t | None \<Rightarrow> d)"

record exposure_amounts =
  ex_currency :: string
  ex_amountGrossCents :: int
  ex_amountNetCents :: int
  ex_coverageFeeCents :: int
  ex_platformFeeCents :: int
  ex_ownerPayoutCents :: int
  ex_operatorFeeCents :: int
  ex_developerRoyaltiesCents :: int
  ex_insuranceReserveCents :: int

record hold_exposure =
  he_expected :: exposure_amounts
  he_gateMode :: string
  he_insufficientEvidenceMode :: string
  he_holdPercent :: int
  he_held :: exposure_amounts

definition holdGateMode :: "jsval \<Rightarrow> string" where
  "holdGateMode proofPolicy =
     (let raw = stringOr (safeString (getp proofPolicy ''gateMode'')) ''warn''
      in if raw = ''strict'' \<or> raw = ''holdback'' then raw else ''warn'')"

definition holdPercentFor :: "string \<Rightarrow> string \<Rightarrow> int \<Rightarrow> int" where
  "holdPercentFor gateMode evidenceMode configured =
     (if gateMode = ''holdback'' \<and> evidenceMode = ''HOLD_PERCENT'' then configured
      else if gateMode = ''warn'' then 0 else 100)"

definition heldAmounts :: "string \<Rightarrow> settlement_splits \<Rightarrow> int \<Rightarrow> exposure_amounts" where
  "heldAmounts currency sp pct =
     (let service = floor_mul_div (sp_serviceAmountCents sp) pct 100;
          coverage = floor_mul_div (sp_coverageFeeCents sp) pct 100;
          platform = floor_mul_div (sp_platformFeeCents sp) pct 100;
          operator = floor_mul_div (sp_operatorFeeCents sp) pct 100;
          royalties = floor_mul_div (sp_developerRoyaltiesCents sp) pct 100;
          insurance = floor_mul_div (sp_insuranceReserveCents sp) pct 100;
          owner = add_int (add_int (add_int (add_int service (- platform)) (- operator)) (- royalties)) (- insurance)
      in \<lparr>ex_currency = currency, ex_amountGrossCents = add_int service coverage, ex_amountNetCents = service,
          ex_coverageFeeCents = coverage, ex_platformFeeCents = platform, ex_ownerPayoutCents = owner,
          ex_operatorFeeCents = operator, ex_developerRoyaltiesCents = royalties, ex_insuranceReserveCents = insurance\<rparr>)"

definition expectedAmounts :: "string \<Rightarrow> settlement_splits \<Rightarrow> exposure_amounts" where
  "expectedAmounts currency sp =
     \<lparr>ex_currency = currency, ex_amountGrossCents = sp_amountCents sp, ex_amountNetCents = sp_serviceAmountCents sp,
      ex_coverageFeeCents = sp_coverageFeeCents sp, ex_platformFeeCents = sp_platformFeeCents sp,
      ex_ownerPayoutCents = sp_ownerPayoutCents sp, ex_operatorFeeCents = sp_operatorFeeCents sp,
      ex_developerRoyaltiesCents = sp_developerRoyaltiesCents sp, ex_insuranceReserveCents = sp_insuranceReserveCents sp\<rparr>"

definition computeHoldExposureV1 :: "jsval \<Rightarrow> jsval \<Rightarrow> hold_exposure option res" where
  "computeHoldExposureV1 job eventsBefore =
     (if \<not> is_object job then Inl (TypeError ''job is required'')
      else andThen (computeExpectedSettlementSplitsV1 job eventsBefore) (\<lambda>expected.
        case expected of None \<Rightarrow> Inr None
        | Some (currency, sp) \<Rightarrow>
            (let proofPolicy = getp (getp (getp job ''booking'') ''policySnapshot'') ''proofPolicy'';
                 gateMode = holdGateMode proofPolicy;
                 ieb = getp proofPolicy ''insufficientEvidenceBehavior'';
                 evidenceMode = stringOr (safeString (getp ieb ''mode'')) ''ALLOW'';
                 configured = clampInt (js_Number (orElse (getp ieb ''holdPercent'') (JInt 0))) 0 100;
                 pct = holdPercentFor gateMode evidenceMode configured;
                 cur = stringOr (safeString (JStr currency)) ''USD''
             in Inr (Some \<lparr>he_expected = expectedAmounts cur sp, he_gateMode = gateMode,
                  he_insufficientEvidenceMode = evidenceMode, he_holdPercent = pct, he_held = heldAmounts cur sp pct\<rparr>))))"

section \<open>Percentages\<close>

lemma floor_mul_lit_exact:
  assumes "0 \<le> s" and "s < 2 ^ 50" and "0 < k" and "k \<le> 2 ^ 10" and "1 / of_int k \<le> fl (1 / of_int k)"
  shows "floor_mul_lit s (1 / of_int k) = s div k"
proof (cases "s = 0")
  case True
  then show ?thesis by (simp add: floor_mul_lit_def)
next
  case False
  define x where "x = (of_int s :: rat)"
  define y where "y = (of_int k :: rat)"
  define r where "r = fl (1 / y)"
  have "(of_int s :: rat) < of_int (2 ^ 50)" "(of_int k :: rat) \<le> of_int (2 ^ 10)"
    using assms(2,4) by (simp_all only: of_int_less_iff of_int_le_iff)
  then have s1: "1 \<le> x" "x < 2 ^ 50" and k1: "1 \<le> y" "y \<le> 2 ^ 10"
    unfolding x_def y_def using assms(1,3) False by simp_all
  have p: "pow2 (-1000) \<le> 1 / 2 ^ 10"
  proof -
    have "pow2 (-1000) \<le> pow2 (-10)" by (rule pow2_mono) simp
    then show ?thesis by (simp add: pow2_def power_int_def field_simps)
  qed
  have y2: "1 / 2 ^ 10 \<le> 1 / y" using k1 by (simp add: field_simps)
  have r1: "1 / y \<le> r" "r \<le> 1 / y + 1 / y / 2 ^ 53"
    using assms(5) fl_rel_error[of "1 / y"] p y2 k1 by (simp_all add: r_def y_def abs_le_iff)
  have xy: "x / y \<le> x * r" "x * r \<le> x / y + x / y / 2 ^ 53"
    using mult_left_mono[OF r1(1), of x] mult_left_mono[OF r1(2), of x] s1 by (simp_all add: distrib_left)
  have pos: "1 / 2 ^ 10 \<le> x / y" using s1 k1 by (simp add: field_simps)
  have f: "fl (x * r) \<le> x * r + x * r / 2 ^ 53"
  proof -
    have "pow2 (-1000) \<le> x * r" "0 \<le> x * r"
      using order_trans[OF p order_trans[OF pos xy(1)]] pow2_pos[of "-1000"] by linarith+
    then have "pow2 (-1000) \<le> \<bar>x * r\<bar>" "\<bar>x * r\<bar> = x * r" by simp_all
    then show ?thesis using abs_ge_self[of "fl (x * r) - x * r"] fl_rel_error[of "x * r"] by linarith
  qed
  have small: "x / y / 2 ^ 53 + (x / y + x / y / 2 ^ 53) / 2 ^ 53 < 1 / y"
  proof -
    have "x / 2 ^ 53 + (x + x / 2 ^ 53) / 2 ^ 53 < 1" using s1 by simp
    then have "(x / 2 ^ 53 + (x + x / 2 ^ 53) / 2 ^ 53) / y < 1 / y" using k1 by (intro divide_strict_right_mono) auto
    then show ?thesis by (simp add: add_divide_distrib divide_divide_eq_left' mult.commute)
  qed
  have "x * r / 2 ^ 53 \<le> (x / y + x / y / 2 ^ 53) / 2 ^ 53" using xy(2) by (rule divide_right_mono) simp
  from order_trans[OF f add_mono[OF xy(2) this]] have "fl (x * r) \<le> x / y + (x / y / 2 ^ 53 + (x / y + x / y / 2 ^ 53) / 2 ^ 53)"
    by (simp only: add.assoc)
  also have "\<dots> < x / y + 1 / y" using small by (rule add_strict_left_mono)
  finally have "fl (x * r) < x / y + 1 / y" .
  moreover have "x / y + 1 / y \<le> of_int (s div k) + 1"
  proof -
    have "s + 1 \<le> k * (s div k + 1)" using mult_div_mod_eq[of k s] pos_mod_bound[OF assms(3), of s] unfolding distrib_left by linarith
    then have "(of_int (s + 1) :: rat) \<le> of_int (k * (s div k + 1))" by (simp only: of_int_le_iff)
    then show ?thesis using k1 by (simp add: x_def y_def field_simps)
  qed
  moreover have "of_int (s div k) \<le> fl (x * r)"
  proof -
    have "k * (s div k) \<le> s" using mult_div_mod_eq[of k s] pos_mod_sign[OF assms(3), of s] by linarith
    then have "(of_int (k * (s div k)) :: rat) \<le> of_int s" by (simp only: of_int_le_iff)
    then have "of_int (s div k) \<le> x / y" using k1 by (simp add: x_def y_def field_simps)
    then have "fl (of_int (s div k)) \<le> fl (x * r)" using xy(1) by (intro fl_mono) linarith
    moreover have "\<bar>s div k\<bar> \<le> 2 ^ 53"
    proof -
      have "0 \<le> s div k" "s div k \<le> s" using assms(1,3) zdiv_mono2[of s 1 k] by (simp_all add: pos_imp_zdiv_nonneg_iff)
      then show ?thesis using assms(2) by simp
    qed
    ultimately show ?thesis by (simp add: fl_of_int)
  qed
  ultimately show ?thesis unfolding floor_mul_lit_def r_def x_def y_def by (intro floor_unique) linarith+
qed


lemma lits: "2 / 10 = (1 / of_int 5 :: rat)" "2 / 100 = (1 / of_int 50 :: rat)" "5 / 100 = (1 / of_int 20 :: rat)"
  by simp_all

lemma lits_up: "(1 / of_int 5 :: rat) \<le> fl (1 / of_int 5)" "(1 / of_int 50 :: rat) \<le> fl (1 / of_int 50)" "(1 / of_int 20 :: rat) \<le> fl (1 / of_int 20)"
  by code_simp+

lemma floor_mul_lit_bounds:
  assumes "0 \<le> s" and "is_safe s" and "0 \<le> d" and "fl d \<le> 1"
  shows "0 \<le> floor_mul_lit s d \<and> floor_mul_lit s d \<le> s"
proof -
  have d: "0 \<le> fl d" using assms(3) by (rule fl_nonneg)
  have s: "(0 :: rat) \<le> of_int s" using assms(1) by simp
  have "fl (of_int s * fl d) \<le> fl (of_int s)" using assms(4) s d by (intro fl_mono) (simp add: mult_left_le)
  moreover have "fl (of_int s) = of_int s" using assms(2) by (intro fl_of_int) (simp add: is_safe_def MAX_SAFE_INTEGER_def)
  moreover have "0 \<le> fl (of_int s * fl d)" using s d by (intro fl_nonneg) simp
  ultimately show ?thesis unfolding floor_mul_lit_def by (simp add: floor_le_iff)
qed

lemma lits_le: "fl (2 / 10) \<le> 1" "fl (2 / 100) \<le> 1" "fl (5 / 100) \<le> 1"
  by code_simp+

lemma add_int_neg: "a + b < 0 \<Longrightarrow> add_int a b < 0"
proof -
  assume "a + b < 0"
  then have "(of_int (a + b) :: rat) \<le> of_int (- 1)" by (simp only: of_int_le_iff)
  then have "fl (of_int (a + b)) \<le> fl (of_int (- 1))" by (rule fl_mono)
  then show ?thesis unfolding add_int_def using fl_of_int[of "- 1"] by (simp add: floor_less_iff)
qed

lemma add_int_exact_abs: "\<bar>a + b\<bar> \<le> 9007199254740992 \<Longrightarrow> add_int a b = a + b"
  by (rule add_int_exact) simp

section \<open>A split adds up\<close>

definition adds_up :: "settlement_splits \<Rightarrow> bool" where
  "adds_up sp \<longleftrightarrow> sp_amountCents sp = sp_serviceAmountCents sp + sp_coverageFeeCents sp
     \<and> sp_serviceAmountCents sp = sp_platformFeeCents sp + sp_ownerPayoutCents sp + sp_operatorFeeCents sp
         + sp_developerRoyaltiesCents sp + sp_insuranceReserveCents sp
     \<and> 0 \<le> sp_coverageFeeCents sp \<and> 0 \<le> sp_platformFeeCents sp \<and> 0 \<le> sp_ownerPayoutCents sp \<and> 0 \<le> sp_operatorFeeCents sp
     \<and> 0 \<le> sp_developerRoyaltiesCents sp \<and> 0 \<le> sp_insuranceReserveCents sp \<and> is_safe (sp_amountCents sp)"

lemma assertSafeInteger_Inr_iff: "assertSafeInteger v name = Inr n \<longleftrightarrow> safe_int_of v = Some n"
  by (simp add: assertSafeInteger_def split: option.splits)

lemma splits_add_up:
  assumes "computeSettlementSplitsV1 a c h (JInt r) = Inr sp" and "0 \<le> r"
  shows "adds_up sp \<and> safe_int_of a = Some (sp_amountCents sp) \<and> safe_int_of c = Some (sp_coverageFeeCents sp) \<and> sp_developerRoyaltiesCents sp = r
    \<and> sp_platformFeeCents sp = floor_mul_lit (sp_serviceAmountCents sp) (2 / 10)
    \<and> sp_insuranceReserveCents sp = floor_mul_lit (sp_serviceAmountCents sp) (2 / 100)
    \<and> sp_operatorFeeCents sp = (if h then floor_mul_lit (sp_serviceAmountCents sp) (5 / 100) else 0)"
proof -
  from assms(1) obtain amount coverage where
    a: "safe_int_of a = Some amount" and c: "safe_int_of c = Some coverage" and co: "0 \<le> coverage" "coverage \<le> amount" and r: "is_safe r"
    and ow: "0 \<le> sp_ownerPayoutCents sp"
    and sp: "sp = splitShares amount coverage h r"
    by (auto simp: computeSettlementSplitsV1_def andThen_Inr_iff assertSafeInteger_Inr_iff throwIf_Inr_iff Let_def split: if_splits)
  have am: "is_safe amount" "is_safe coverage" using safe_int_of_Some a c by blast+
  define s where "s = add_int amount (- coverage)"
  have s: "s = amount - coverage" "0 \<le> s" "is_safe s" unfolding s_def using am co by (simp_all add: add_int_safe is_safe_bounds)
  define p where "p = floor_mul_lit s (2 / 10)"
  define i where "i = floor_mul_lit s (2 / 100)"
  define q where "q = (if h then floor_mul_lit s (5 / 100) else 0)"
  have b: "0 \<le> p" "p \<le> s" "0 \<le> i" "i \<le> s" "0 \<le> q" "q \<le> s"
    using floor_mul_lit_bounds[OF s(2,3) _ lits_le(1)] floor_mul_lit_bounds[OF s(2,3) _ lits_le(2)] floor_mul_lit_bounds[OF s(2,3) _ lits_le(3)] s(2)
    by (simp_all add: p_def i_def q_def)
  have sm: "s \<le> 9007199254740991" "r \<le> 9007199254740991" using s(3) r by (simp_all add: is_safe_bounds)
  have 1: "add_int s (- p) = s - p" using add_int_exact_abs[of s "- p"] b sm by simp
  have 2: "add_int (s - p) (- q) = s - p - q" using add_int_exact_abs[of "s - p" "- q"] b sm by simp
  define t where "t = add_int (s - p - q) (- r)"
  have sh: "sp_ownerPayoutCents sp = add_int (add_int (add_int (add_int s (- p)) (- q)) (- r)) (- i)"
    "sp_amountCents sp = amount" "sp_serviceAmountCents sp = s" "sp_coverageFeeCents sp = coverage" "sp_platformFeeCents sp = p"
    "sp_operatorFeeCents sp = q" "sp_developerRoyaltiesCents sp = r" "sp_insuranceReserveCents sp = i"
    unfolding sp splitShares_def Let_def s_def p_def i_def q_def by (simp_all only: settlement_splits.simps)
  then have ow': "sp_ownerPayoutCents sp = add_int t (- i)" unfolding t_def 1 2 by (simp only:)
  have t: "i \<le> t" using ow add_int_neg[of t "- i"] unfolding ow' by linarith
  then have "0 \<le> s - p - q - r" using add_int_neg[of "s - p - q" "- r"] b(3) unfolding t_def by linarith
  then have te: "t = s - p - q - r" unfolding t_def using add_int_exact_abs[of "s - p - q" "- r"] b sm assms(2) by simp
  then have "add_int t (- i) = s - p - q - r - i" using add_int_exact_abs[of t "- i"] b sm t assms(2) by simp
  then have "sp_ownerPayoutCents sp = s - p - q - r - i" unfolding ow' .
  then show ?thesis using ow b co s a c am(1) assms(2) unfolding adds_up_def sh(2-) p_def[symmetric] i_def[symmetric] q_def[symmetric] by simp
qed

lemma sum_licenses_nonneg: "0 \<le> sumSkillLicenseFeesCents v"
proof -
  have "0 \<le> licenseFee l" for l by (simp add: licenseFee_def split: option.splits)
  moreover have "0 \<le> add_int a b" if "0 \<le> a" "0 \<le> b" for a b :: int
    unfolding add_int_def using that by (simp add: fl_nonneg flip: of_int_add)
  ultimately have "0 \<le> a \<Longrightarrow> 0 \<le> foldl addLicenseFee a xs" for a xs
    by (induction xs arbitrary: a) (simp_all add: addLicenseFee_def)
  then show ?thesis by (auto simp: sumSkillLicenseFeesCents_def split: jsval.splits)
qed

lemma expected_splits_call:
  assumes "computeExpectedSettlementSplitsV1 job eventsBefore = Inr (Some (currency, sp))"
  obtains a c h r where "computeSettlementSplitsV1 a c h (JInt r) = Inr sp" "0 \<le> r"
  using assms sum_licenses_nonneg unfolding computeExpectedSettlementSplitsV1_def Let_def
  by (cases "is_object job"; cases "safe_int_of (getp (getp job ''quote'') ''amountCents'')") (force simp: andThen_Inr_iff)+

text \<open>C30: The expected splits of a job always add up: price = service + coverage fee, and service = platform fee +
  owner payout + operator fee + royalties + insurance reserve, all of them non-negative. Below \<open>2 ^ 50\<close> cents the
  products with the literals 0.2, 0.02 and 0.05 in doubles are the exact percentages, rounded down.\<close>

theorem expected_splits_exact:
  assumes "computeExpectedSettlementSplitsV1 job eventsBefore = Inr (Some (currency, sp))"
  shows "adds_up sp \<and> (sp_serviceAmountCents sp < 2 ^ 50 \<longrightarrow>
      sp_platformFeeCents sp = sp_serviceAmountCents sp div 5 \<and> sp_insuranceReserveCents sp = sp_serviceAmountCents sp div 50
      \<and> sp_operatorFeeCents sp \<in> {0, sp_serviceAmountCents sp div 20})"
proof -
  obtain a c h r where "computeSettlementSplitsV1 a c h (JInt r) = Inr sp" "0 \<le> r" using expected_splits_call[OF assms] .
  note f = splits_add_up[OF this]
  let ?s = "sp_serviceAmountCents sp"
  have up: "adds_up sp" using f by blast
  then have s: "0 \<le> ?s" by (simp add: adds_up_def)
  have "floor_mul_lit ?s (2 / 10) = ?s div 5" "floor_mul_lit ?s (2 / 100) = ?s div 50" "floor_mul_lit ?s (5 / 100) = ?s div 20" if "?s < 2 ^ 50"
  proof -
    show "floor_mul_lit ?s (2 / 10) = ?s div 5" unfolding lits by (rule floor_mul_lit_exact[OF s that _ _ lits_up(1)]) simp_all
    show "floor_mul_lit ?s (2 / 100) = ?s div 50" unfolding lits by (rule floor_mul_lit_exact[OF s that _ _ lits_up(2)]) simp_all
    show "floor_mul_lit ?s (5 / 100) = ?s div 20" unfolding lits by (rule floor_mul_lit_exact[OF s that _ _ lits_up(3)]) simp_all
  qed
  then show ?thesis using f by (metis insertCI)
qed

section \<open>A hold is a part\<close>

lemma floor_part: "0 \<le> x \<Longrightarrow> x < 2 ^ 46 \<Longrightarrow> 0 \<le> p \<Longrightarrow> p \<le> 100 \<Longrightarrow> floor_mul_div x p 100 = x * p div 100"
proof -
  assume a: "0 \<le> x" "x < 2 ^ 46" "0 \<le> p" "p \<le> 100"
  then have "x * p \<le> 2 ^ 46 * 100" by (intro mult_mono) simp_all
  then show ?thesis using a by (intro floor_mul_div_exact) simp_all
qed

lemma part_bounds: "0 \<le> x \<Longrightarrow> 0 \<le> p \<Longrightarrow> p \<le> 100 \<Longrightarrow> 0 \<le> x * p div 100 \<and> x * p div 100 \<le> (x :: int)"
proof -
  assume a: "0 \<le> x" "0 \<le> p" "p \<le> 100"
  then have "x * p \<le> x * 100" by (intro mult_left_mono) simp_all
  then have "x * p div 100 \<le> x * 100 div 100" by (intro zdiv_mono1) simp_all
  then show ?thesis using a by (simp add: pos_imp_zdiv_nonneg_iff)
qed

lemma parts_superadditive: "a * p div 100 + b * p div 100 \<le> (a + b) * (p :: int) div 100"
proof -
  have "100 * (a * p div 100) \<le> a * p" "100 * (b * p div 100) \<le> b * p" by simp_all
  then have "100 * (a * p div 100 + b * p div 100) \<le> (a + b) * p" unfolding distrib_left distrib_right by linarith
  then have "100 * (a * p div 100 + b * p div 100) div 100 \<le> (a + b) * p div 100" by (intro zdiv_mono1) simp_all
  then show ?thesis by simp
qed

lemma holdPercent_range: "0 \<le> c \<Longrightarrow> c \<le> 100 \<Longrightarrow> 0 \<le> holdPercentFor g m c \<and> holdPercentFor g m c \<le> 100"
  by (simp add: holdPercentFor_def)

lemma clampInt_range: "0 \<le> clampInt v 0 100 \<and> clampInt v 0 100 \<le> 100"
  by (simp add: clampInt_def split: jsnum.splits)

definition held_part :: "exposure_amounts \<Rightarrow> exposure_amounts \<Rightarrow> bool" where
  "held_part held expected \<longleftrightarrow>
     ex_amountGrossCents held = ex_amountNetCents held + ex_coverageFeeCents held
   \<and> ex_amountNetCents held = ex_platformFeeCents held + ex_ownerPayoutCents held + ex_operatorFeeCents held
       + ex_developerRoyaltiesCents held + ex_insuranceReserveCents held
   \<and> list_all (\<lambda>f. 0 \<le> f held) [ex_amountNetCents, ex_coverageFeeCents, ex_platformFeeCents, ex_ownerPayoutCents, ex_operatorFeeCents,
       ex_developerRoyaltiesCents, ex_insuranceReserveCents]
   \<and> list_all (\<lambda>f. f held \<le> f expected) [ex_amountGrossCents, ex_amountNetCents, ex_coverageFeeCents, ex_platformFeeCents,
       ex_operatorFeeCents, ex_developerRoyaltiesCents, ex_insuranceReserveCents]"

lemma subtract_chain:
  assumes "0 \<le> s" "0 \<le> a" "0 \<le> b" "0 \<le> c" "0 \<le> d" "0 \<le> e" "a + b + c + d \<le> s" "s + e \<le> 9007199254740992"
  shows "add_int s (- a) = s - a" "add_int (s - a) (- b) = s - a - b" "add_int (s - a - b) (- c) = s - a - b - c"
    "add_int (s - a - b - c) (- d) = s - a - b - c - d" "add_int s e = s + e"
  using assms by (simp_all add: add_int_exact_abs)

lemma heldAmounts_part:
  assumes "adds_up sp" and "sp_amountCents sp < 2 ^ 46" and "0 \<le> p" and "p \<le> 100"
  shows "held_part (heldAmounts cur sp p) (expectedAmounts cur sp)"
proof -
  define f where "f x = x * p div 100" for x
  define s where "s = sp_serviceAmountCents sp"
  define a where "a = sp_platformFeeCents sp"
  define b where "b = sp_operatorFeeCents sp"
  define c where "c = sp_developerRoyaltiesCents sp"
  define d where "d = sp_insuranceReserveCents sp"
  define e where "e = sp_coverageFeeCents sp"
  have u: "a + b + c + d \<le> s" "0 \<le> a" "0 \<le> b" "0 \<le> c" "0 \<le> d" "0 \<le> e" "s + e < 2 ^ 46" "0 \<le> s"
    using assms(1,2) by (simp_all add: adds_up_def s_def a_def b_def c_def d_def e_def)
  have fl: "floor_mul_div s p 100 = f s" "floor_mul_div a p 100 = f a" "floor_mul_div b p 100 = f b" "floor_mul_div c p 100 = f c"
    "floor_mul_div d p 100 = f d" "floor_mul_div e p 100 = f e"
    unfolding f_def using u assms(3,4) by (intro floor_part; linarith)+
  have "f a + f b + f c + f d \<le> f (a + b + c + d)"
    using parts_superadditive[of a p b, folded f_def] parts_superadditive[of "a + b" p c, folded f_def]
      parts_superadditive[of "a + b + c" p d, folded f_def] by linarith
  also have "\<dots> \<le> f s" unfolding f_def using u(1) assms(3) by (intro zdiv_mono1 mult_right_mono) simp_all
  finally have parts: "f a + f b + f c + f d \<le> f s" .
  have bd: "0 \<le> f s" "f s \<le> s" "0 \<le> f a" "f a \<le> a" "0 \<le> f b" "f b \<le> b" "0 \<le> f c" "f c \<le> c" "0 \<le> f d" "f d \<le> d" "0 \<le> f e" "f e \<le> e"
    using u part_bounds[OF _ assms(3,4), folded f_def] by blast+
  have ex: "add_int (f s) (- f a) = f s - f a" "add_int (f s - f a) (- f b) = f s - f a - f b"
    "add_int (f s - f a - f b) (- f c) = f s - f a - f b - f c"
    "add_int (f s - f a - f b - f c) (- f d) = f s - f a - f b - f c - f d"
    "add_int (f s) (f e) = f s + f e"
    using subtract_chain[OF bd(1,3,5,7,9,11) parts] u(7) bd(2,12) by simp_all
  let ?h = "heldAmounts cur sp p"
  have h: "ex_amountGrossCents ?h = f s + f e" "ex_amountNetCents ?h = f s" "ex_coverageFeeCents ?h = f e" "ex_platformFeeCents ?h = f a"
    "ex_ownerPayoutCents ?h = f s - f a - f b - f c - f d" "ex_operatorFeeCents ?h = f b" "ex_developerRoyaltiesCents ?h = f c"
    "ex_insuranceReserveCents ?h = f d"
    unfolding heldAmounts_def Let_def s_def[symmetric] a_def[symmetric] b_def[symmetric] c_def[symmetric] d_def[symmetric] e_def[symmetric] fl ex
    by (simp_all only: exposure_amounts.simps)
  have x: "ex_amountGrossCents (expectedAmounts cur sp) = s + e" "ex_amountNetCents (expectedAmounts cur sp) = s"
    "ex_coverageFeeCents (expectedAmounts cur sp) = e" "ex_platformFeeCents (expectedAmounts cur sp) = a"
    "ex_operatorFeeCents (expectedAmounts cur sp) = b" "ex_developerRoyaltiesCents (expectedAmounts cur sp) = c"
    "ex_insuranceReserveCents (expectedAmounts cur sp) = d"
    using assms(1) by (simp_all add: expectedAmounts_def adds_up_def s_def a_def b_def c_def d_def e_def)
  show ?thesis unfolding held_part_def list.pred_inject h x using bd parts by auto
qed

text \<open>A hold keeps back a part of every share. For prices below \<open>2 ^ 46\<close> cents the hold percentage is within
  0..100, the held shares are non-negative, none exceeds its expected share, and they add up to the held
  amount; in the \<^verbatim>\<open>warn\<close> mode nothing is held.\<close>

theorem hold_exposure_sound:
  assumes "computeHoldExposureV1 job eventsBefore = Inr (Some he)" and "ex_amountGrossCents (he_expected he) < 2 ^ 46"
  shows "0 \<le> he_holdPercent he \<and> he_holdPercent he \<le> 100 \<and> held_part (he_held he) (he_expected he)
    \<and> (he_gateMode he = ''warn'' \<longrightarrow> ex_amountGrossCents (he_held he) = 0)"
proof -
  from assms(1) obtain cur sp g m v cur' where e: "computeExpectedSettlementSplitsV1 job eventsBefore = Inr (Some (cur, sp))"
    and he: "he_expected he = expectedAmounts cur' sp" "he_held he = heldAmounts cur' sp (he_holdPercent he)"
      "he_holdPercent he = holdPercentFor (he_gateMode he) m (clampInt v 0 100)"
    by (auto simp: computeHoldExposureV1_def andThen_Inr_iff Let_def split: if_splits option.splits)
  obtain a c h r where "computeSettlementSplitsV1 a c h (JInt r) = Inr sp" "0 \<le> r" using expected_splits_call[OF e] .
  then have up: "adds_up sp" using splits_add_up by blast
  have p: "0 \<le> he_holdPercent he" "he_holdPercent he \<le> 100" using he(3) holdPercent_range clampInt_range by metis+
  have "held_part (he_held he) (he_expected he)"
    unfolding he(1,2) by (rule heldAmounts_part[OF up _ p]) (use assms(2) he(1) in \<open>simp add: expectedAmounts_def\<close>)
  moreover have "ex_amountGrossCents (he_held he) = 0" if "he_gateMode he = ''warn''"
    using that he(2,3) by (simp add: holdPercentFor_def heldAmounts_def Let_def floor_mul_div_def add_int_def)
  ultimately show ?thesis using p by blast
qed

section \<open>Examples\<close>

definition sample_job :: jsval where
  "sample_job = JObj [(''quote'', JObj [(''amountCents'', JInt 10999), (''breakdown'', JObj [(''coverageFeeCents'', JInt 1000)])]),
     (''booking'', JObj [(''policySnapshot'', JObj [(''proofPolicy'', JObj [(''gateMode'', JStr ''holdback''),
        (''insufficientEvidenceBehavior'', JObj [(''mode'', JStr ''HOLD_PERCENT''), (''holdPercent'', JInt 25)])])])])]"

definition sample_splits :: settlement_splits where
  "sample_splits = \<lparr>sp_amountCents = 10999, sp_serviceAmountCents = 9999, sp_coverageFeeCents = 1000, sp_platformFeeCents = 1999,
     sp_ownerPayoutCents = 7302, sp_operatorFeeCents = 499, sp_developerRoyaltiesCents = 0, sp_insuranceReserveCents = 199\<rparr>"

lemma sample_shares: "computeSettlementSplitsV1 (JInt 10999) (JInt 1000) True (JInt 0) = Inr sample_splits"
proof -
  have m: "floor_mul_lit 9999 (1 / 5) = 1999" "floor_mul_lit 9999 (1 / 50) = 199" "floor_mul_lit 9999 (1 / 20) = 499" by code_simp+
  have s: "is_safe 10999" "is_safe 1000" by (simp_all add: is_safe_bounds)
  show ?thesis
    by (simp add: computeSettlementSplitsV1_def splitShares_def Let_def assertSafeInteger_def s m add_int_exact_abs sample_splits_def)
qed

lemma sample_quote:
  "safe_int_of (getp (getp sample_job ''quote'') ''amountCents'') = Some 10999"
  "orElse (getp (getp (getp sample_job ''quote'') ''breakdown'') ''coverageFeeCents'') (JInt 0) = JInt 1000"
  "getp sample_job ''skillLicenses'' = JUndef" "getp (getp sample_job ''quote'') ''currency'' = JUndef" "is_object sample_job"
  by (simp_all add: sample_job_def is_safe_bounds)

definition sample_before :: jsval where
  "sample_before = JArr [JObj [(''type'', JStr ''ASSIST_STARTED'')]]"

lemma sample_expected: "computeExpectedSettlementSplitsV1 sample_job sample_before = Inr (Some (''USD'', sample_splits))"
proof -
  have "coverageOrZero (JInt 1000) = 1000" "sumSkillLicenseFeesCents (JArr []) = 0" "quoteCurrency JUndef = ''USD''"
    by (simp_all add: coverageOrZero_def is_safe_bounds sumSkillLicenseFeesCents_def quoteCurrency_def)
  then show ?thesis using sample_shares sample_quote
    by (simp add: computeExpectedSettlementSplitsV1_def sample_before_def dflt_def hadAssist_def)
qed

theorem expected_splits_exact_witness: "adds_up sample_splits \<and> sp_platformFeeCents sample_splits = 9999 div 5"
proof -
  have "sp_serviceAmountCents sample_splits = 9999" by (simp add: sample_splits_def)
  then show ?thesis using expected_splits_exact[OF sample_expected] by simp
qed

theorem hold_exposure_sound_witness:
  "\<exists>he. computeHoldExposureV1 sample_job sample_before = Inr (Some he) \<and> held_part (he_held he) (he_expected he) \<and> he_holdPercent he = 25"
proof -
  have c: "clampInt (num_of_int 25) 0 100 = 25" by code_simp
  have g: "holdGateMode (getp (getp (getp sample_job ''booking'') ''policySnapshot'') ''proofPolicy'') = ''holdback''"
    "stringOr (safeString (getp (getp (getp (getp (getp sample_job ''booking'') ''policySnapshot'') ''proofPolicy'') ''insufficientEvidenceBehavior'') ''mode'')) ''ALLOW'' = ''HOLD_PERCENT''"
    "getp (getp (getp (getp (getp sample_job ''booking'') ''policySnapshot'') ''proofPolicy'') ''insufficientEvidenceBehavior'') ''holdPercent'' = JInt 25"
    by code_simp+
  let ?he = "\<lparr>he_expected = expectedAmounts (stringOr (safeString (JStr ''USD'')) ''USD'') sample_splits, he_gateMode = ''holdback'',
    he_insufficientEvidenceMode = ''HOLD_PERCENT'', he_holdPercent = 25, he_held = heldAmounts (stringOr (safeString (JStr ''USD'')) ''USD'') sample_splits 25\<rparr>"
  have "computeHoldExposureV1 sample_job sample_before = Inr (Some ?he)"
    using sample_expected sample_quote(5) g c by (simp add: computeHoldExposureV1_def holdPercentFor_def Let_def)
  moreover have "ex_amountGrossCents (he_expected ?he) < 2 ^ 46" by (simp add: expectedAmounts_def sample_splits_def)
  ultimately show ?thesis using hold_exposure_sound[of sample_job sample_before ?he] by auto
qed

end
