(* ===== verification/LedgerPostings.thy ===== *)
theory LedgerPostings
  imports Ledger SettlementSplits JobLifecycle
begin

text \<open>
  \<^verbatim>\<open>src/core/ledger-postings.js\<close> and \<^verbatim>\<open>computeClaimTotalCents\<close> of \<^verbatim>\<open>src/core/claims.js\<close>: the journal entries that an
  event of a job stands for. Jobs and events are dynamic objects, and the earlier events are a list
  of them. Each type of event has its own definition, and \<open>ledgerEntriesForJobEvent\<close> selects it.
  The time of an entry is kept as its text. The results are that every entry balances, that
  booking and settling a job together leave nothing in the customer's escrow and in unearned
  coverage, and that a settlement whose insurance reserve rounds to zero cents is rejected, because
  a posting of zero is.
\<close>

section \<open>Amounts of a job\<close>

definition neg_num :: "int \<Rightarrow> jsnum" where
  "neg_num n = (if n = 0 then NegZero else num_of_int (- n))"

definition computeJobAmountCents :: "jsval \<Rightarrow> int res" where
  "computeJobAmountCents job = assertSafeInteger (getp (getp job ''quote'') ''amountCents'') ''job.quote.amountCents''"

definition computeCoverageFeeCents :: "jsval \<Rightarrow> int" where
  "computeCoverageFeeCents job = coverageOrZero (orElse (getp (getp (getp job ''quote'') ''breakdown'') ''coverageFeeCents'') (JInt 0))"

definition coveragePolicy :: "jsval \<Rightarrow> jsval" where
  "coveragePolicy job = getp (getp (getp job ''booking'') ''policySnapshot'') ''coveragePolicy''"

definition clampPercent :: "int \<Rightarrow> jsval \<Rightarrow> int" where
  "clampPercent d v = (case safe_int_of v of None \<Rightarrow> d | Some n \<Rightarrow> (if n < 0 then 0 else if 100 < n then 100 else n))"

definition computeReserveFundPercent :: "jsval \<Rightarrow> int" where
  "computeReserveFundPercent job = clampPercent 0 (getp (coveragePolicy job) ''reserveFundPercent'')"

definition computeRecoverablePercent :: "jsval \<Rightarrow> int" where
  "computeRecoverablePercent job = clampPercent 100 (getp (coveragePolicy job) ''recoverablePercent'')"

record reversal_splits =
  rv_refundCents :: int
  rv_platformFeeCents :: int
  rv_ownerPayoutCents :: int
  rv_operatorFeeCents :: int
  rv_developerRoyaltiesCents :: int
  rv_insuranceReserveCents :: int
  rv_coverageFeeCents :: int

text \<open>Each share in proportion, the remainder to the owner.\<close>

definition reversalShares :: "int \<Rightarrow> settlement_splits \<Rightarrow> reversal_splits" where
  "reversalShares refund sp =
     (let part = (\<lambda>x. floor_mul_div x refund (sp_amountCents sp));
          subtotal = add_int (add_int (add_int (add_int (part (sp_platformFeeCents sp)) (part (sp_operatorFeeCents sp)))
              (part (sp_developerRoyaltiesCents sp))) (part (sp_insuranceReserveCents sp))) (part (sp_coverageFeeCents sp))
      in \<lparr>rv_refundCents = refund, rv_platformFeeCents = part (sp_platformFeeCents sp), rv_ownerPayoutCents = add_int refund (- subtotal),
          rv_operatorFeeCents = part (sp_operatorFeeCents sp), rv_developerRoyaltiesCents = part (sp_developerRoyaltiesCents sp),
          rv_insuranceReserveCents = part (sp_insuranceReserveCents sp), rv_coverageFeeCents = part (sp_coverageFeeCents sp)\<rparr>)"

definition computeRefundReversalSplits :: "int \<Rightarrow> settlement_splits \<Rightarrow> reversal_splits res" where
  "computeRefundReversalSplits refund sp =
     andThen (throwIf (\<not> is_safe refund) (TypeError ''refundCents must be a safe integer'')) (\<lambda>_.
     andThen (throwIf (refund \<le> 0) (TypeError ''refundCents must be positive'')) (\<lambda>_.
     andThen (throwIf (\<not> is_safe (sp_amountCents sp)) (TypeError ''settlementSplits.amountCents must be a safe integer'')) (\<lambda>_.
     andThen (throwIf (sp_amountCents sp < refund) (TypeError ''refundCents exceeds original amount'')) (\<lambda>_.
     let rv = reversalShares refund sp in
     andThen (throwIf (rv_ownerPayoutCents rv < 0) (TypeError ''refund reversal splits invalid: owner reversal would be negative''))
       (\<lambda>_. Inr rv)))))"

section \<open>Proof gate\<close>

definition getGateMode :: "jsval \<Rightarrow> string" where
  "getGateMode job =
     (case getp (getp (getp (getp job ''booking'') ''policySnapshot'') ''proofPolicy'') ''gateMode'' of
        JStr v \<Rightarrow> (if v = ''strict'' \<or> v = ''holdback'' then v else ''warn'') | _ \<Rightarrow> ''warn'')"

definition completionHash :: "jsval \<Rightarrow> string option" where
  "completionHash e =
     (if getp e ''type'' \<in> {JStr ''EXECUTION_COMPLETED'', JStr ''JOB_EXECUTION_COMPLETED''}
      then (case getp e ''chainHash'' of JStr s \<Rightarrow> (if trim s \<noteq> [] then Some (trim s) else None) | _ \<Rightarrow> None)
      else None)"

text \<open>The last event for which the test gives something.\<close>

fun last_some :: "('a \<Rightarrow> 'b option) \<Rightarrow> 'a list \<Rightarrow> 'b option" where
  "last_some f [] = None"
| "last_some f (x # xs) = (case last_some f xs of Some y \<Rightarrow> Some y | None \<Rightarrow> f x)"

definition findLatestCompletionChainHash :: "jsval list \<Rightarrow> string option" where
  "findLatestCompletionChainHash eventsBefore = last_some completionHash eventsBefore"

definition proofStatusAt :: "string \<Rightarrow> jsval \<Rightarrow> string option" where
  "proofStatusAt anchor e =
     (if getp e ''type'' = JStr ''PROOF_EVALUATED'' \<and> getp (getp e ''payload'') ''evaluatedAtChainHash'' = JStr anchor
      then (case getp (getp e ''payload'') ''status'' of JStr s \<Rightarrow> (if s \<noteq> [] then Some s else None) | _ \<Rightarrow> None)
      else None)"

definition findLatestProofStatusForAnchor :: "jsval list \<Rightarrow> string \<Rightarrow> string option" where
  "findLatestProofStatusForAnchor eventsBefore anchor =
     (if trim anchor = [] then None else last_some (proofStatusAt anchor) eventsBefore)"

definition refProofStatus :: "jsval \<Rightarrow> string option" where
  "refProofStatus event =
     (case getp (getp (getp event ''payload'') ''settlementProofRef'') ''status'' of
        JStr s \<Rightarrow> (if trim s \<noteq> [] then Some s else None) | _ \<Rightarrow> None)"

definition proofOutcome :: "string \<Rightarrow> bool res" where
  "proofOutcome status =
     (if status = ''INSUFFICIENT_EVIDENCE''
      then Inl (TypeError ''SETTLED cannot proceed with INSUFFICIENT_EVIDENCE in strict/holdback mode'')
      else Inr (status = ''FAIL''))"

text \<open>Whether the job is settled without charge; an error when a strict or holdback gate has no
  usable proof.\<close>

definition settledWithoutCharge :: "jsval \<Rightarrow> jsval \<Rightarrow> jsval list \<Rightarrow> bool res" where
  "settledWithoutCharge job event eventsBefore =
     (if getGateMode job = ''warn'' then Inr False
      else case refProofStatus event of
        Some status \<Rightarrow> proofOutcome status
      | None \<Rightarrow>
          (case Option.bind (findLatestCompletionChainHash eventsBefore) (findLatestProofStatusForAnchor eventsBefore) of
             None \<Rightarrow> Inl (TypeError ''SETTLED requires settlementProofRef (or PROOF_EVALUATED) in strict/holdback mode'')
           | Some status \<Rightarrow> proofOutcome status))"

section \<open>Entries\<close>

type_synonym draft = "(string \<times> jsnum) list"

definition jobEntry :: "string \<Rightarrow> jsval \<Rightarrow> jsval \<Rightarrow> string \<Rightarrow> string \<Rightarrow> draft \<Rightarrow> journal_entry res" where
  "jobEntry now job event idSuffix memo postings =
     createJournalEntry (''jnl_'' @ js_String (getp event ''id'') @ idSuffix)
       (js_String (dflt (getp event ''at'') (JStr now)))
       (''job:'' @ js_String (getp job ''id'') @ memo) postings"

definition one_entry :: "journal_entry res \<Rightarrow> journal_entry list res" where
  "one_entry r = andThen r (\<lambda>e. Inr [e])"

text \<open>\<^verbatim>\<open>if (n) postings.push({ accountId, amountCents: n })\<close>\<close>

definition debitIf :: "string \<Rightarrow> int \<Rightarrow> draft" where
  "debitIf acct n = (if n = 0 then [] else [(acct, num_of_int n)])"

definition creditIf :: "string \<Rightarrow> int \<Rightarrow> draft" where
  "creditIf acct n = (if n = 0 then [] else [(acct, num_of_int (- n))])"

definition bookedEntries :: "string \<Rightarrow> jsval \<Rightarrow> jsval \<Rightarrow> journal_entry list res" where
  "bookedEntries now job event =
     andThen (computeJobAmountCents job) (\<lambda>amount.
     andThen (jobEntry now job event [] '' BOOKED''
        [(''acct_cash'', num_of_int amount), (''acct_customer_escrow'', neg_num amount)]) (\<lambda>e.
     let coverage = computeCoverageFeeCents job in
     if coverage = 0 then Inr [e]
     else andThen (jobEntry now job event ''_coverage_fee'' '' BOOKED coverage fee''
            [(''acct_customer_escrow'', num_of_int coverage), (''acct_coverage_unearned'', neg_num coverage)]) (\<lambda>c. Inr [e, c])))"

text \<open>The customer gets the escrow back, the unearned coverage fee included.\<close>

definition returnedPostings :: "int \<Rightarrow> int \<Rightarrow> draft" where
  "returnedPostings amount coverage =
     (if coverage = 0 then [(''acct_customer_escrow'', num_of_int amount), (''acct_cash'', neg_num amount)]
      else [(''acct_customer_escrow'', num_of_int (add_int amount (- coverage))), (''acct_coverage_unearned'', num_of_int coverage),
            (''acct_cash'', neg_num amount)])"

definition settledPostings :: "settlement_splits \<Rightarrow> draft" where
  "settledPostings sp =
     [(''acct_customer_escrow'', num_of_int (sp_serviceAmountCents sp)),
      (''acct_platform_revenue'', neg_num (sp_platformFeeCents sp)),
      (''acct_owner_payable'', neg_num (sp_ownerPayoutCents sp)),
      (''acct_insurance_reserve'', neg_num (sp_insuranceReserveCents sp))]
     @ creditIf ''acct_operator_payable'' (sp_operatorFeeCents sp)
     @ creditIf ''acct_developer_royalty_payable'' (sp_developerRoyaltiesCents sp)"

definition coverageEntries :: "string \<Rightarrow> jsval \<Rightarrow> jsval \<Rightarrow> int \<Rightarrow> journal_entry list res" where
  "coverageEntries now job event coverage =
     (if coverage = 0 then Inr []
      else andThen (jobEntry now job event ''_coverage_recognize'' '' SETTLED coverage recognize''
             [(''acct_coverage_unearned'', num_of_int coverage), (''acct_coverage_revenue'', neg_num coverage)]) (\<lambda>c.
           let fund = floor_mul_div coverage (computeReserveFundPercent job) 100 in
           if 0 < fund
           then andThen (jobEntry now job event ''_coverage_reserve_fund'' '' SETTLED coverage reserve fund''
                  [(''acct_coverage_payout_expense'', num_of_int fund), (''acct_coverage_reserve'', neg_num fund)]) (\<lambda>f. Inr [c, f])
           else Inr [c]))"

definition jobSplits :: "jsval \<Rightarrow> jsval list \<Rightarrow> int \<Rightarrow> int \<Rightarrow> settlement_splits res" where
  "jobSplits job eventsBefore amount coverage =
     computeSettlementSplitsV1 (JInt amount) (JInt coverage) (hadAssist eventsBefore)
       (JInt (sumSkillLicenseFeesCents (getp job ''skillLicenses'')))"

definition settledEntries :: "string \<Rightarrow> jsval \<Rightarrow> jsval \<Rightarrow> jsval list \<Rightarrow> journal_entry list res" where
  "settledEntries now job event eventsBefore =
     andThen (computeJobAmountCents job) (\<lambda>amount.
     let coverage = computeCoverageFeeCents job in
     if getp job ''status'' = JStr (status_name S_ABORTED)
     then one_entry (jobEntry now job event [] '' SETTLED (refund)'' (returnedPostings amount coverage))
     else if getp job ''status'' \<noteq> JStr (status_name S_COMPLETED)
     then Inl (TypeError ''SETTLED ledger entry requires job to be COMPLETED or ABORTED'')
     else andThen (settledWithoutCharge job event eventsBefore) (\<lambda>free.
       if free then one_entry (jobEntry now job event [] '' SETTLED (no-charge)'' (returnedPostings amount coverage))
       else andThen (jobSplits job eventsBefore amount coverage) (\<lambda>sp.
            andThen (jobEntry now job event [] '' SETTLED'' (settledPostings sp)) (\<lambda>e.
            andThen (coverageEntries now job event (sp_coverageFeeCents sp)) (\<lambda>cs. Inr (e # cs))))))"

text \<open>Adjustments for claims.\<close>

definition assertSafeNonNegativeCents :: "int \<Rightarrow> string \<Rightarrow> unit res" where
  "assertSafeNonNegativeCents n name =
     throwIf (\<not> is_safe n \<or> n < 0) (TypeError (name @ '' must be a non-negative safe integer (cents)''))"

definition computeClaimTotalCents :: "int \<Rightarrow> int \<Rightarrow> int res" where
  "computeClaimTotalCents payout refund =
     andThen (assertSafeNonNegativeCents payout ''payoutCents'') (\<lambda>_.
     andThen (assertSafeNonNegativeCents refund ''refundCents'') (\<lambda>_. Inr (add_int payout refund)))"

definition requireClaimId :: "jsval \<Rightarrow> string res" where
  "requireClaimId event =
     (case getp (getp event ''payload'') ''claimId'' of
        JStr s \<Rightarrow> (if trim s = [] then Inl (TypeError ''payload.claimId is required'') else Inr s)
      | _ \<Rightarrow> Inl (TypeError ''payload.claimId is required''))"

definition findClaim :: "jsval \<Rightarrow> string \<Rightarrow> jsval option" where
  "findClaim job claimId = (case getp job ''claims'' of JArr cs \<Rightarrow> find (\<lambda>c. getp c ''claimId'' = JStr claimId) cs | _ \<Rightarrow> None)"

definition happened :: "string \<Rightarrow> jsval list \<Rightarrow> bool" where
  "happened t eventsBefore \<longleftrightarrow> (\<exists>e \<in> set eventsBefore. getp e ''type'' = JStr t)"

definition reversalPostings :: "reversal_splits \<Rightarrow> draft" where
  "reversalPostings rv =
     debitIf ''acct_platform_revenue'' (rv_platformFeeCents rv) @ debitIf ''acct_owner_payable'' (rv_ownerPayoutCents rv)
     @ debitIf ''acct_insurance_reserve'' (rv_insuranceReserveCents rv) @ debitIf ''acct_coverage_revenue'' (rv_coverageFeeCents rv)
     @ debitIf ''acct_operator_payable'' (rv_operatorFeeCents rv) @ debitIf ''acct_developer_royalty_payable'' (rv_developerRoyaltiesCents rv)"

text \<open>The part of the reserve funding that goes with the refunded coverage fee.\<close>

definition reserveReversal :: "jsval \<Rightarrow> int \<Rightarrow> int \<Rightarrow> draft" where
  "reserveReversal job coverage refunded =
     (if refunded = 0 \<or> coverage = 0 then []
      else let funded = floor_mul_div coverage (computeReserveFundPercent job) 100;
               back = floor_mul_div funded refunded coverage
           in if 0 < back then [(''acct_coverage_reserve'', num_of_int back), (''acct_coverage_payout_expense'', neg_num back)] else [])"

definition refundPostings :: "jsval \<Rightarrow> jsval list \<Rightarrow> int \<Rightarrow> draft res" where
  "refundPostings job eventsBefore refund =
     (if refund = 0 then Inr []
      else andThen (computeJobAmountCents job) (\<lambda>amount.
           andThen (throwIf (\<not> happened ''EXECUTION_COMPLETED'' eventsBefore \<or> happened ''EXECUTION_ABORTED'' eventsBefore)
                      (TypeError ''refund adjustments are only supported for settled, completed jobs'')) (\<lambda>_.
           let coverage = computeCoverageFeeCents job in
           andThen (jobSplits job eventsBefore amount coverage) (\<lambda>sp.
           andThen (computeRefundReversalSplits refund sp) (\<lambda>rv.
             Inr (reversalPostings rv @ reserveReversal job coverage (rv_coverageFeeCents rv)))))))"

definition adjustedEntries :: "string \<Rightarrow> jsval \<Rightarrow> jsval \<Rightarrow> jsval list \<Rightarrow> journal_entry list res" where
  "adjustedEntries now job event eventsBefore =
     andThen (throwIf (getp job ''status'' \<noteq> JStr (status_name S_SETTLED)) (TypeError ''JOB_ADJUSTED requires job to be SETTLED'')) (\<lambda>_.
     andThen (requireClaimId event) (\<lambda>claimId.
     case findClaim job claimId of
       None \<Rightarrow> Inl (TypeError ''claim not found on job'')
     | Some claim \<Rightarrow>
         andThen (throwIf (getp claim ''status'' \<noteq> JStr ''APPROVED'') (TypeError ''JOB_ADJUSTED requires claim status APPROVED'')) (\<lambda>_.
         let amounts = getp (getp claim ''approved'') ''amounts'' in
         andThen (assertSafeInteger (orElse (getp amounts ''payoutCents'') (JInt 0)) ''claim.payoutCents'') (\<lambda>payout.
         andThen (assertSafeInteger (orElse (getp amounts ''refundCents'') (JInt 0)) ''claim.refundCents'') (\<lambda>refund.
         andThen (throwIf (payout < 0 \<or> refund < 0) (TypeError ''claim amounts must be non-negative'')) (\<lambda>_.
         andThen (computeClaimTotalCents payout refund) (\<lambda>total.
         andThen (throwIf (total \<le> 0) (TypeError ''JOB_ADJUSTED requires non-zero claim amounts'')) (\<lambda>_.
         andThen (refundPostings job eventsBefore refund) (\<lambda>rs.
           one_entry (jobEntry now job event [] ('' claim:'' @ claimId @ '' ADJUSTED'')
             (debitIf ''acct_claims_expense'' payout @ rs @ [(''acct_claims_payable'', neg_num total)])))))))))))"

definition claimPaidEntries :: "string \<Rightarrow> jsval \<Rightarrow> jsval \<Rightarrow> journal_entry list res" where
  "claimPaidEntries now job event =
     andThen (requireClaimId event) (\<lambda>claimId.
     andThen (assertSafeInteger (getp (getp event ''payload'') ''amountCents'') ''payload.amountCents'') (\<lambda>amount.
     andThen (throwIf (amount \<le> 0) (TypeError ''payload.amountCents must be positive'')) (\<lambda>_.
       one_entry (jobEntry now job event [] ('' claim:'' @ claimId @ '' PAID'')
         [(''acct_claims_payable'', num_of_int amount), (''acct_cash'', neg_num amount)]))))"

definition operatorCostEntries :: "string \<Rightarrow> jsval \<Rightarrow> jsval \<Rightarrow> journal_entry list res" where
  "operatorCostEntries now job event =
     andThen (throwIf (getp job ''status'' \<noteq> JStr (status_name S_SETTLED)) (TypeError ''OPERATOR_COST_RECORDED requires job to be SETTLED'')) (\<lambda>_.
     andThen (assertSafeInteger (getp (getp event ''payload'') ''costCents'') ''payload.costCents'') (\<lambda>cost.
     andThen (throwIf (cost < 0) (TypeError ''payload.costCents must be >= 0'')) (\<lambda>_.
       if cost = 0 then Inr []
       else one_entry (jobEntry now job event [] '' OPERATOR_COST_RECORDED''
              [(''acct_operator_labor_expense'', num_of_int cost), (''acct_operator_cost_accrued'', neg_num cost)]))))"

text \<open>\<^verbatim>\<open>if (n > 0) debitPostings.push(...)\<close>\<close>

definition debitPos :: "string \<Rightarrow> int \<Rightarrow> draft" where
  "debitPos acct n = (if 0 < n then [(acct, num_of_int n)] else [])"

definition orDebit :: "draft \<Rightarrow> string \<Rightarrow> int \<Rightarrow> draft" where
  "orDebit ps acct n = (if ps = [] then [(acct, num_of_int n)] else ps)"

definition creditFunding :: "jsval \<Rightarrow> jsval list \<Rightarrow> int \<Rightarrow> draft res" where
  "creditFunding job eventsBefore amount =
     (let model = getp (coveragePolicy job) ''creditFundingModel'' in
      if model = JStr ''COVERAGE_RESERVE'' then Inr [(''acct_coverage_reserve'', num_of_int amount)]
      else if model = JStr ''OPERATOR_CHARGEBACK'' then
        andThen (computeJobAmountCents job) (\<lambda>jobAmount.
        andThen (jobSplits job eventsBefore jobAmount (computeCoverageFeeCents job)) (\<lambda>sp.
        let fromPayable = max 0 (min amount (sp_operatorFeeCents sp)) in
          Inr (orDebit (debitPos ''acct_operator_payable'' fromPayable
                 @ debitPos ''acct_operator_chargeback_receivable'' (add_int amount (- fromPayable)))
               ''acct_operator_chargeback_receivable'' amount)))
      else if model = JStr ''INSURER_RECOVERABLE'' then
        (let receivable = floor_mul_div amount (computeRecoverablePercent job) 100
         in Inr (orDebit (debitPos ''acct_insurer_receivable'' receivable
                   @ debitPos ''acct_sla_credits_expense'' (add_int amount (- receivable)))
              ''acct_sla_credits_expense'' amount))
      else Inr [(''acct_sla_credits_expense'', num_of_int amount)])"

definition slaCreditEntries :: "string \<Rightarrow> jsval \<Rightarrow> jsval \<Rightarrow> jsval list \<Rightarrow> journal_entry list res" where
  "slaCreditEntries now job event eventsBefore =
     andThen (throwIf (getp job ''status'' \<noteq> JStr (status_name S_SETTLED)) (TypeError ''SLA_CREDIT_ISSUED requires job to be SETTLED'')) (\<lambda>_.
     andThen (assertSafeInteger (getp (getp event ''payload'') ''amountCents'') ''payload.amountCents'') (\<lambda>amount.
     andThen (throwIf (amount \<le> 0) (TypeError ''payload.amountCents must be positive'')) (\<lambda>_.
     andThen (creditFunding job eventsBefore amount) (\<lambda>debits.
       one_entry (jobEntry now job event [] '' SLA_CREDIT_ISSUED'' (debits @ [(''acct_customer_credits_payable'', neg_num amount)]))))))"

definition ledgerEntriesForJobEvent :: "string \<Rightarrow> jsval \<Rightarrow> jsval \<Rightarrow> jsval list \<Rightarrow> journal_entry list res" where
  "ledgerEntriesForJobEvent now jobBefore event eventsBefore =
     (let t = getp event ''type'' in
      if t = JStr ''BOOKED'' then bookedEntries now jobBefore event
      else if t = JStr ''SETTLED'' then settledEntries now jobBefore event eventsBefore
      else if t = JStr ''JOB_ADJUSTED'' then adjustedEntries now jobBefore event eventsBefore
      else if t = JStr ''CLAIM_PAID'' then claimPaidEntries now jobBefore event
      else if t = JStr ''OPERATOR_COST_RECORDED'' then operatorCostEntries now jobBefore event
      else if t = JStr ''SLA_CREDIT_ISSUED'' then slaCreditEntries now jobBefore event eventsBefore
      else Inr [])"

definition ledgerEntryForJobEvent :: "string \<Rightarrow> jsval \<Rightarrow> jsval \<Rightarrow> jsval list \<Rightarrow> journal_entry option res" where
  "ledgerEntryForJobEvent now jobBefore event eventsBefore =
     andThen (ledgerEntriesForJobEvent now jobBefore event eventsBefore) (\<lambda>es. Inr (case es of [] \<Rightarrow> None | e # _ \<Rightarrow> Some e))"

section \<open>Drafts and entries\<close>

text \<open>The amount an entry keeps of a drafted posting.\<close>

definition cents :: "jsnum \<Rightarrow> int" where
  "cents n = (case safe_int n of None \<Rightarrow> 0 | Some k \<Rightarrow> k)"

definition draft_ok :: "draft \<Rightarrow> bool" where
  "draft_ok qs \<longleftrightarrow> (\<forall>q \<in> set qs. safe_int (snd q) \<noteq> None)"

definition draft_sum :: "draft \<Rightarrow> int" where
  "draft_sum qs = sum_list (map (\<lambda>q. cents (snd q)) qs)"

definition draft_to :: "draft \<Rightarrow> string \<Rightarrow> int" where
  "draft_to qs a = sum_list (map (\<lambda>q. if fst q = a then cents (snd q) else 0) qs)"

definition entry_sum :: "journal_entry \<Rightarrow> int" where
  "entry_sum e = sum_list (map amountCents (entry_postings e))"

lemma safe_int_neg_num: "safe_int (neg_num n) = (if is_safe n then Some (- n) else None)"
proof (cases "n = 0")
  case True
  then show ?thesis by (simp add: neg_num_def safe_int_def)
next
  case False
  then show ?thesis by (simp add: neg_num_def is_safe_def)
qed

lemma cents_num_simps [simp]: "cents (num_of_int n) = (if is_safe n then n else 0)" "cents (neg_num n) = (if is_safe n then - n else 0)"
  by (simp_all add: cents_def safe_int_neg_num)

lemma draft_ok_simps [simp]:
  "draft_ok []" "draft_ok ((a, num_of_int n) # qs) \<longleftrightarrow> is_safe n \<and> draft_ok qs" "draft_ok ((a, neg_num n) # qs) \<longleftrightarrow> is_safe n \<and> draft_ok qs"
  "draft_ok (ps @ qs) \<longleftrightarrow> draft_ok ps \<and> draft_ok qs"
  by (auto simp: draft_ok_def safe_int_neg_num)

lemma draft_sum_simps [simp]: "draft_sum [] = 0" "draft_sum ((a, n) # qs) = cents n + draft_sum qs" "draft_sum (ps @ qs) = draft_sum ps + draft_sum qs"
  by (simp_all add: draft_sum_def)

lemma draft_to_simps [simp]: "draft_to [] a = 0" "draft_to ((b, n) # qs) a = (if b = a then cents n else 0) + draft_to qs a"
  "draft_to (ps @ qs) a = draft_to ps a + draft_to qs a"
  by (simp_all add: draft_to_def)

lemma safe_uminus [simp]: "is_safe (- n) = is_safe n"
  by (simp add: is_safe_def)

lemma conditional_postings [simp]:
  "draft_sum (debitIf a n) = (if is_safe n then n else 0)" "draft_sum (creditIf a n) = (if is_safe n then - n else 0)"
  "draft_ok (debitIf a n) = is_safe n" "draft_ok (creditIf a n) = is_safe n"
  "draft_to (debitIf a n) b = (if a = b \<and> is_safe n then n else 0)" "draft_to (creditIf a n) b = (if a = b \<and> is_safe n then - n else 0)"
  by (simp_all add: debitIf_def creditIf_def)

lemma positive_postings [simp]:
  "draft_sum (debitPos a n) = (if 0 < n \<and> is_safe n then n else 0)" "draft_ok (debitPos a n) \<longleftrightarrow> n \<le> 0 \<or> is_safe n"
  by (auto simp: debitPos_def)

lemma entry_of_draft:
  assumes "jobEntry now job event sfx memo qs = Inr e"
  shows "draft_ok qs \<and> entry_sum e = draft_sum qs \<and> posted_to (entry_postings e) a = draft_to qs a"
proof -
  have "list_all2 (\<lambda>q p. fst q = accountId p \<and> safe_int (snd q) = Some (amountCents p)) qs (entry_postings e)"
    using createJournalEntry_postings(8) assms unfolding jobEntry_def by blast
  then show ?thesis unfolding entry_sum_def
  proof (induction rule: list_all2_induct)
    case Nil
    then show ?case by (simp add: posted_to_def)
  next
    case (Cons q qs p ps)
    then show ?case by (cases q) (auto simp: posted_to_def cents_def draft_ok_def)
  qed
qed

section \<open>Every entry balances\<close>

definition balanced_entries :: "journal_entry list \<Rightarrow> bool" where
  "balanced_entries es \<longleftrightarrow> (\<forall>e \<in> set es. entry_sum e = 0)"

lemma one_entry_balanced:
  assumes "one_entry (jobEntry now job event sfx memo qs) = Inr es" and "draft_ok qs \<Longrightarrow> draft_sum qs = 0"
  shows "balanced_entries es"
  using assms entry_of_draft by (fastforce simp: one_entry_def balanced_entries_def andThen_Inr_iff)

lemma pair_balanced: "jobEntry now job event sfx memo [(a, num_of_int n), (b, neg_num n)] = Inr e \<Longrightarrow> entry_sum e = 0"
  using entry_of_draft[of now job event sfx memo "[(a, num_of_int n), (b, neg_num n)]" e] by auto

lemma booked_balanced: "bookedEntries now job event = Inr es \<Longrightarrow> balanced_entries es"
  using pair_balanced by (fastforce simp: bookedEntries_def balanced_entries_def andThen_Inr_iff Let_def split: if_splits)

lemma returned_sum: "draft_ok (returnedPostings amount coverage) \<Longrightarrow> draft_sum (returnedPostings amount coverage) = 0"
  by (auto simp: returnedPostings_def safe_add_int add_int_safe split: if_splits)

lemma settled_sum: "adds_up sp \<Longrightarrow> draft_ok (settledPostings sp) \<Longrightarrow> draft_sum (settledPostings sp) = 0"
  by (simp add: settledPostings_def adds_up_def)

lemma coverage_balanced: "coverageEntries now job event c = Inr es \<Longrightarrow> balanced_entries es"
  using pair_balanced by (fastforce simp: coverageEntries_def balanced_entries_def andThen_Inr_iff Let_def split: if_splits)

lemma jobSplits_add_up: "jobSplits job evs a c = Inr sp \<Longrightarrow>
    adds_up sp \<and> sp_amountCents sp = a \<and> sp_coverageFeeCents sp = c \<and> sp_insuranceReserveCents sp = floor_mul_lit (sp_serviceAmountCents sp) (2 / 100)"
  unfolding jobSplits_def using splits_add_up[OF _ sum_licenses_nonneg] by (fastforce split: if_splits)

lemma settled_balanced:
  assumes "settledEntries now job event evs = Inr es"
  shows "balanced_entries es"
proof -
  from assms obtain amount where
    "one_entry (jobEntry now job event [] '' SETTLED (refund)'' (returnedPostings amount (computeCoverageFeeCents job))) = Inr es
     \<or> one_entry (jobEntry now job event [] '' SETTLED (no-charge)'' (returnedPostings amount (computeCoverageFeeCents job))) = Inr es
     \<or> (\<exists>sp e cs. jobSplits job evs amount (computeCoverageFeeCents job) = Inr sp \<and> jobEntry now job event [] '' SETTLED'' (settledPostings sp) = Inr e
        \<and> coverageEntries now job event (sp_coverageFeeCents sp) = Inr cs \<and> es = e # cs)"
    by (fastforce simp: settledEntries_def andThen_Inr_iff Let_def split: if_splits)
  then show ?thesis
  proof (elim disjE exE conjE)
    fix sp e cs
    assume sp: "jobSplits job evs amount (computeCoverageFeeCents job) = Inr sp" and e: "jobEntry now job event [] '' SETTLED'' (settledPostings sp) = Inr e"
      and cs: "coverageEntries now job event (sp_coverageFeeCents sp) = Inr cs" and es: "es = e # cs"
    have "entry_sum e = 0" using entry_of_draft[OF e] settled_sum jobSplits_add_up[OF sp] by auto
    then show ?thesis using coverage_balanced[OF cs] es by (simp add: balanced_entries_def)
  qed (auto intro: one_entry_balanced returned_sum)
qed

lemma add_int_below:
  assumes "0 \<le> a" and "0 \<le> b" and "add_int a b < 2 ^ 53"
  shows "add_int a b = a + b \<and> a < 2 ^ 53"
proof -
  have "a + b < 2 ^ 53"
  proof (rule ccontr)
    assume "\<not> a + b < 2 ^ 53"
    then have "2 ^ 53 \<le> fl (of_int (a + b))" by (intro fl_unsafe) simp
    then have "2 ^ 53 \<le> add_int a b" by (simp add: add_int_def le_floor_iff)
    then show False using assms(3) by simp
  qed
  then show ?thesis using assms(1,2) add_int_exact[of a b] by simp
qed

lemma reversal_adds_up:
  assumes "computeRefundReversalSplits refund sp = Inr rv" and "adds_up sp"
  shows "0 < refund \<and> refund = rv_platformFeeCents rv + rv_ownerPayoutCents rv + rv_operatorFeeCents rv + rv_developerRoyaltiesCents rv
      + rv_insuranceReserveCents rv + rv_coverageFeeCents rv
    \<and> list_all (\<lambda>f. 0 \<le> f rv) [rv_platformFeeCents, rv_ownerPayoutCents, rv_operatorFeeCents, rv_developerRoyaltiesCents, rv_insuranceReserveCents, rv_coverageFeeCents]"
proof -
  from assms(1) have r: "is_safe refund" "0 < refund" "refund \<le> sp_amountCents sp" "0 \<le> rv_ownerPayoutCents rv" "rv = reversalShares refund sp"
    by (auto simp: computeRefundReversalSplits_def andThen_Inr_iff throwIf_Inr_iff Let_def)
  define f where "f x = floor_mul_div x refund (sp_amountCents sp)" for x
  have pos: "0 \<le> f x" if "0 \<le> x" for x unfolding f_def using that r by (intro floor_mul_div_nonneg) auto
  let ?a = "f (sp_platformFeeCents sp)" and ?b = "f (sp_operatorFeeCents sp)" and ?c = "f (sp_developerRoyaltiesCents sp)"
    and ?d = "f (sp_insuranceReserveCents sp)" and ?e = "f (sp_coverageFeeCents sp)"
  have p: "0 \<le> ?a" "0 \<le> ?b" "0 \<le> ?c" "0 \<le> ?d" "0 \<le> ?e" using assms(2) pos by (simp_all add: adds_up_def)
  define t where "t = add_int (add_int (add_int (add_int ?a ?b) ?c) ?d) ?e"
  have rv: "rv_platformFeeCents rv = ?a" "rv_operatorFeeCents rv = ?b" "rv_developerRoyaltiesCents rv = ?c" "rv_insuranceReserveCents rv = ?d"
    "rv_coverageFeeCents rv = ?e" "rv_ownerPayoutCents rv = add_int refund (- t)"
    unfolding r(5) reversalShares_def Let_def f_def t_def by simp_all
  have "t \<le> refund" using r(4) add_int_neg[of refund "- t"] unfolding rv(6) by linarith
  moreover have n: "0 \<le> add_int x y" if "0 \<le> x" "0 \<le> y" for x y
    unfolding add_int_def using that by (simp add: fl_nonneg flip: of_int_add)
  ultimately have t: "t < 2 ^ 53" using r(1) by (simp add: is_safe_bounds)
  note 4 = add_int_below[OF _ p(5) t[unfolded t_def]]
  have 4: "t = add_int (add_int (add_int ?a ?b) ?c) ?d + ?e" "add_int (add_int (add_int ?a ?b) ?c) ?d < 2 ^ 53"
    using 4 n p unfolding t_def by blast+
  have 3: "add_int (add_int (add_int ?a ?b) ?c) ?d = add_int (add_int ?a ?b) ?c + ?d" "add_int (add_int ?a ?b) ?c < 2 ^ 53"
    using add_int_below[OF _ p(4) 4(2)] n p by blast+
  have 2: "add_int (add_int ?a ?b) ?c = add_int ?a ?b + ?c" "add_int ?a ?b < 2 ^ 53"
    using add_int_below[OF _ p(3) 3(2)] n p by blast+
  have "add_int ?a ?b = ?a + ?b" using add_int_below[OF p(1,2) 2(2)] by blast
  then have te: "t = ?a + ?b + ?c + ?d + ?e" using 2(1) 3(1) 4(1) by linarith
  then have "rv_ownerPayoutCents rv = refund - t"
    unfolding rv(6) using \<open>t \<le> refund\<close> r(1,2) p add_int_exact_abs[of refund "- t"] by (simp add: is_safe_bounds)
  then show ?thesis using te r(2,4) p rv by simp
qed

lemma refund_sum:
  assumes "refundPostings job evs refund = Inr rs" and "draft_ok rs"
  shows "draft_sum rs = refund"
proof (cases "refund = 0")
  case True
  then show ?thesis using assms(1) by (simp add: refundPostings_def)
next
  case False
  then obtain a sp rv c where s: "jobSplits job evs a c = Inr sp" and rv: "computeRefundReversalSplits refund sp = Inr rv"
    and rs: "rs = reversalPostings rv @ reserveReversal job c (rv_coverageFeeCents rv)"
    using assms(1) by (auto simp: refundPostings_def andThen_Inr_iff Let_def)
  have sp: "adds_up sp" using jobSplits_add_up[OF s] by blast
  have "draft_sum (reversalPostings rv) = refund"
    using reversal_adds_up[OF rv sp] assms(2) by (simp add: rs reversalPostings_def)
  moreover have "draft_sum (reserveReversal job c (rv_coverageFeeCents rv)) = 0"
    using assms(2) by (auto simp: rs reserveReversal_def Let_def split: if_splits)
  ultimately show ?thesis by (simp add: rs)
qed

lemma adjusted_balanced:
  assumes "adjustedEntries now job event evs = Inr es"
  shows "balanced_entries es"
proof -
  from assms obtain payout refund total rs memo where
    t: "computeClaimTotalCents payout refund = Inr total" and rs: "refundPostings job evs refund = Inr rs"
    and e: "one_entry (jobEntry now job event [] memo (debitIf ''acct_claims_expense'' payout @ rs @ [(''acct_claims_payable'', neg_num total)])) = Inr es"
    by (auto simp: adjustedEntries_def andThen_Inr_iff Let_def split: option.splits)
  have "total = add_int payout refund" "is_safe payout" using t by (auto simp: computeClaimTotalCents_def andThen_Inr_iff assertSafeNonNegativeCents_def throwIf_Inr_iff)
  then show ?thesis using one_entry_balanced[OF e] refund_sum[OF rs] by (auto simp: safe_add_int add_int_safe)
qed

lemma paid_balanced: "claimPaidEntries now job event = Inr es \<Longrightarrow> balanced_entries es"
  by (auto simp: claimPaidEntries_def andThen_Inr_iff intro: one_entry_balanced)

lemma cost_balanced: "operatorCostEntries now job event = Inr es \<Longrightarrow> balanced_entries es"
  by (auto simp: operatorCostEntries_def andThen_Inr_iff balanced_entries_def split: if_splits intro: one_entry_balanced[unfolded balanced_entries_def, rule_format])


lemma chargeback_sum:
  assumes "0 \<le> f" and "f \<le> amount" and "0 < amount" and "is_safe amount"
  shows "draft_sum (orDebit (debitPos a f @ debitPos b (add_int amount (- f))) c amount) = amount"
proof -
  have "add_int amount (- f) = amount - f" "is_safe f" "is_safe (amount - f)" using assms by (simp_all add: add_int_safe is_safe_bounds)
  then show ?thesis using assms by (auto simp: orDebit_def debitPos_def)
qed

lemma overcharge_rejected:
  assumes "amount < r" and "0 < amount"
  shows "jobEntry now job event [] memo (orDebit (debitPos a r @ debitPos b (add_int amount (- r))) c amount @ [(d, neg_num amount)]) \<noteq> Inr e"
proof
  have "\<not> 0 < add_int amount (- r)" using add_int_neg[of amount "- r"] assms(1) by simp
  moreover assume "jobEntry now job event [] memo (orDebit (debitPos a r @ debitPos b (add_int amount (- r))) c amount @ [(d, neg_num amount)]) = Inr e"
  ultimately have e: "createJournalEntry (''jnl_'' @ js_String (getp event ''id'') @ []) (js_String (dflt (getp event ''at'') (JStr now)))
      (''job:'' @ js_String (getp job ''id'') @ memo) [(a, num_of_int r), (d, neg_num amount)] = Inr e"
    using assms by (simp add: jobEntry_def orDebit_def debitPos_def)
  obtain p q where pq: "entry_postings e = [p, q]" "is_safe r" "amountCents p = r" "is_safe amount" "amountCents q = - amount"
    using createJournalEntry_postings(8)[OF e] by (auto simp: list_all2_Cons1 safe_int_neg_num split: if_splits)
  have "add_int (add_int 0 r) (- amount) = 0" using createJournalEntry_postings(6)[OF e] by (simp add: pq)
  moreover have "add_int 0 r = r" using pq(2) by (simp add: add_int_safe)
  moreover have "add_int r (- amount) = r - amount" using pq(2,4) assms by (subst add_int_exact_abs) (simp_all add: is_safe_bounds)
  ultimately show False using assms by simp
qed

lemma sla_balanced:
  assumes "slaCreditEntries now job event evs = Inr es"
  shows "balanced_entries es"
proof -
  from assms obtain amount ds where am: "safe_int_of (getp (getp event ''payload'') ''amountCents'') = Some amount" "0 < amount"
    and ds: "creditFunding job evs amount = Inr ds"
    and e: "one_entry (jobEntry now job event [] '' SLA_CREDIT_ISSUED'' (ds @ [(''acct_customer_credits_payable'', neg_num amount)])) = Inr es"
    by (auto simp: slaCreditEntries_def andThen_Inr_iff throwIf_Inr_iff assertSafeInteger_Inr_iff)
  have safe: "is_safe amount" using am(1) by (rule safe_int_of_Some)
  have "draft_sum ds = amount"
  proof -
    from ds consider "ds = [(''acct_coverage_reserve'', num_of_int amount)]" | "ds = [(''acct_sla_credits_expense'', num_of_int amount)]"
      | f where "ds = orDebit (debitPos ''acct_operator_payable'' f @ debitPos ''acct_operator_chargeback_receivable'' (add_int amount (- f)))
               ''acct_operator_chargeback_receivable'' amount" "0 \<le> f" "f \<le> amount"
      | "ds = orDebit (debitPos ''acct_insurer_receivable'' (floor_mul_div amount (computeRecoverablePercent job) 100)
             @ debitPos ''acct_sla_credits_expense'' (add_int amount (- floor_mul_div amount (computeRecoverablePercent job) 100))) ''acct_sla_credits_expense'' amount"
      using am(2) by (fastforce simp: creditFunding_def andThen_Inr_iff Let_def split: if_splits)
    then show ?thesis
    proof cases
      case 4
      have "0 \<le> computeRecoverablePercent job" by (simp add: computeRecoverablePercent_def clampPercent_def split: option.splits)
      then have "0 \<le> floor_mul_div amount (computeRecoverablePercent job) 100" using am(2) by (intro floor_mul_div_nonneg) simp_all
      moreover have "floor_mul_div amount (computeRecoverablePercent job) 100 \<le> amount"
        using e overcharge_rejected[OF _ am(2)] unfolding 4 one_entry_def andThen_Inr_iff by (meson not_le)
      ultimately show ?thesis unfolding 4 using chargeback_sum am(2) safe by blast
    qed (use chargeback_sum am(2) safe in auto)
  qed
  then show ?thesis using one_entry_balanced[OF e] safe by simp
qed

lemmas events_balanced = booked_balanced settled_balanced adjusted_balanced paid_balanced cost_balanced sla_balanced

text \<open>C19: Every journal entry that an event of a job stands for balances to zero exactly, whatever the job, the
  event and the earlier events: the rounding of double sums never lets an unbalanced entry through here.\<close>

theorem job_entries_balance:
  assumes "ledgerEntriesForJobEvent now job event eventsBefore = Inr es"
  shows "balanced_entries es"
proof -
  have "balanced_entries []" by (simp add: balanced_entries_def)
  then show ?thesis using assms events_balanced unfolding ledgerEntriesForJobEvent_def Let_def by (metis sum.inject(2))
qed

section \<open>Booking and settling close the escrow\<close>

definition posted_by :: "journal_entry list \<Rightarrow> string \<Rightarrow> int" where
  "posted_by es a = sum_list (map (\<lambda>e. posted_to (entry_postings e) a) es)"

lemma posted_by_simps [simp]: "posted_by [] a = 0" "posted_by (e # es) a = posted_to (entry_postings e) a + posted_by es a"
  by (simp_all add: posted_by_def)

lemma posted_by_append [simp]: "posted_by (xs @ ys) a = posted_by xs a + posted_by ys a"
  by (simp add: posted_by_def)

lemmas entry_posts = entry_of_draft[THEN conjunct2, THEN conjunct2] entry_of_draft[THEN conjunct1]

lemma one_entry_posts:
  "one_entry (jobEntry now job event sfx memo qs) = Inr es \<Longrightarrow> draft_ok qs \<and> posted_by es a = draft_to qs a"
  using entry_posts by (fastforce simp: one_entry_def andThen_Inr_iff)

lemma job_amount: "computeJobAmountCents job = Inr a \<Longrightarrow> is_safe a"
  using safe_int_of_Some by (auto simp: computeJobAmountCents_def assertSafeInteger_Inr_iff)

lemma coverage_safe: "is_safe (computeCoverageFeeCents job)"
  by (auto simp: computeCoverageFeeCents_def coverageOrZero_def is_safe_bounds dest!: safe_int_of_Some split: option.splits)

lemma booked_posts:
  assumes "bookedEntries now job event = Inr es" and "computeJobAmountCents job = Inr amount"
  shows "posted_by es ''acct_customer_escrow'' = computeCoverageFeeCents job - amount \<and> posted_by es ''acct_coverage_unearned'' = - computeCoverageFeeCents job"
proof -
  have am: "is_safe amount" using assms(2) by (rule job_amount)
  from assms obtain e cs where e: "jobEntry now job event [] '' BOOKED'' [(''acct_cash'', num_of_int amount), (''acct_customer_escrow'', neg_num amount)] = Inr e"
    and cs: "es = e # cs" "(computeCoverageFeeCents job = 0 \<and> cs = []) \<or> (\<exists>c. cs = [c] \<and> jobEntry now job event ''_coverage_fee'' '' BOOKED coverage fee''
       [(''acct_customer_escrow'', num_of_int (computeCoverageFeeCents job)), (''acct_coverage_unearned'', neg_num (computeCoverageFeeCents job))] = Inr c)"
    by (auto simp: bookedEntries_def andThen_Inr_iff Let_def split: if_splits)
  show ?thesis using cs(2) entry_posts(1)[OF e] am coverage_safe by (auto simp: cs(1) entry_posts(1))
qed

lemma returned_posts:
  assumes "draft_ok (returnedPostings amount coverage)"
  shows "draft_to (returnedPostings amount coverage) ''acct_customer_escrow'' = amount - coverage
    \<and> draft_to (returnedPostings amount coverage) ''acct_coverage_unearned'' = coverage"
  using assms by (auto simp: returnedPostings_def safe_add_int add_int_safe split: if_splits)

lemma coverage_posts:
  assumes "coverageEntries now job event c = Inr es" and "is_safe c"
  shows "posted_by es ''acct_customer_escrow'' = 0 \<and> posted_by es ''acct_coverage_unearned'' = c"
  using assms by (auto simp: coverageEntries_def andThen_Inr_iff Let_def entry_posts(1) split: if_splits)

lemma settled_posts:
  assumes "settledEntries now job event evs = Inr es" and "computeJobAmountCents job = Inr amount"
  shows "posted_by es ''acct_customer_escrow'' = amount - computeCoverageFeeCents job \<and> posted_by es ''acct_coverage_unearned'' = computeCoverageFeeCents job"
proof -
  let ?c = "computeCoverageFeeCents job"
  from assms consider memo where "one_entry (jobEntry now job event [] memo (returnedPostings amount ?c)) = Inr es"
    | sp e cs where "jobSplits job evs amount ?c = Inr sp" "jobEntry now job event [] '' SETTLED'' (settledPostings sp) = Inr e"
        "coverageEntries now job event (sp_coverageFeeCents sp) = Inr cs" "es = e # cs"
    by (fastforce simp: settledEntries_def andThen_Inr_iff Let_def split: if_splits)
  then show ?thesis
  proof cases
    case 1
    then show ?thesis using one_entry_posts[OF 1] returned_posts by metis
  next
    case 2
    have sp: "adds_up sp" "sp_amountCents sp = amount" "sp_coverageFeeCents sp = ?c" using jobSplits_add_up[OF 2(1)] by auto
    have "is_safe (sp_serviceAmountCents sp)" using entry_posts(2)[OF 2(2)] by (simp add: settledPostings_def)
    then show ?thesis using coverage_posts[OF 2(3)] coverage_safe sp
      by (simp add: 2(4) entry_posts(1)[OF 2(2)] settledPostings_def adds_up_def)
  qed
qed

text \<open>C24: What booking a job puts into the customer's escrow and into unearned coverage, settling it takes
  out again, to the cent: when both events succeed under the same quote, the two accounts are back where they
  were, whether the job was completed, aborted or settled without charge.\<close>

theorem escrow_closes:
  assumes "ledgerEntriesForJobEvent now job event evs = Inr booked" and "getp event ''type'' = JStr ''BOOKED''"
    and "ledgerEntriesForJobEvent now' job' event' evs' = Inr settled" and "getp event' ''type'' = JStr ''SETTLED''"
    and "getp job' ''quote'' = getp job ''quote''"
  shows "posted_by (booked @ settled) ''acct_customer_escrow'' = 0 \<and> posted_by (booked @ settled) ''acct_coverage_unearned'' = 0"
proof -
  have b: "bookedEntries now job event = Inr booked" and s: "settledEntries now' job' event' evs' = Inr settled"
    using assms(1-4) by (simp_all add: ledgerEntriesForJobEvent_def)
  obtain amount where a: "computeJobAmountCents job = Inr amount" using b by (auto simp: bookedEntries_def andThen_Inr_iff)
  then have a': "computeJobAmountCents job' = Inr amount" using assms(5) by (simp add: computeJobAmountCents_def)
  have "computeCoverageFeeCents job' = computeCoverageFeeCents job" using assms(5) by (simp add: computeCoverageFeeCents_def)
  then show ?thesis using booked_posts[OF b a] settled_posts[OF s a'] by simp
qed

section \<open>Small settlements\<close>

lemma zero_posting_rejected:
  assumes "draft_ok qs" and "\<forall>q \<in> set qs. fst q \<noteq> []" and "\<exists>q \<in> set qs. cents (snd q) = 0"
  shows "foldRes checkPosting st qs = Inl (TypeError ''amountCents must be non-zero'')"
  using assms
proof (induction qs arbitrary: st)
  case Nil
  then show ?case by simp
next
  case (Cons q qs)
  obtain a n k where q: "q = (a, n)" "safe_int n = Some k" using Cons.prems(1) by (cases q) (auto simp: draft_ok_def)
  obtain s ps where st: "st = (s, ps)" by (cases st)
  have c: "cents n = k" by (simp add: cents_def q(2))
  show ?case
  proof (cases "k = 0")
    case True
    then show ?thesis using Cons.prems(2) by (simp add: q st checkPosting_def assertSafeCents_def)
  next
    case False
    then have "foldRes checkPosting s' qs = Inl (TypeError ''amountCents must be non-zero'')" for s'
      using Cons.prems c by (intro Cons.IH) (auto simp: draft_ok_def q(1))
    then show ?thesis using Cons.prems(2) False by (simp add: q st checkPosting_def assertSafeCents_def)
  qed
qed

lemma splits_safe:
  assumes "adds_up sp"
  shows "draft_ok (settledPostings sp)"
  using assms by (simp add: settledPostings_def adds_up_def is_safe_bounds)

lemma settled_zero_rejected:
  assumes "adds_up sp" and "sp_insuranceReserveCents sp = 0"
  shows "jobEntry now job event [] '' SETTLED'' (settledPostings sp) = Inl (TypeError ''amountCents must be non-zero'')"
proof -
  have "foldRes checkPosting st (settledPostings sp) = Inl (TypeError ''amountCents must be non-zero'')" for st
    using splits_safe[OF assms(1)] assms(2) by (intro zero_posting_rejected) (auto simp: settledPostings_def creditIf_def)
  moreover have "\<not> length (settledPostings sp) < 2" by (simp add: settledPostings_def)
  ultimately show ?thesis by (simp add: jobEntry_def createJournalEntry_def)
qed

text \<open>A completed job whose service amount is below 50 cents cannot be settled, although its splits are
  well defined and its amounts are legal: the insurance reserve of two percent rounds down to zero, its
  posting is made nevertheless, and a journal entry with a posting of zero is rejected.\<close>

theorem small_settlement_rejected:
  assumes "getp event ''type'' = JStr ''SETTLED''" and "getp job ''status'' = JStr ''COMPLETED''"
    and "computeJobAmountCents job = Inr amount" and "settledWithoutCharge job event evs = Inr False"
    and "jobSplits job evs amount (computeCoverageFeeCents job) = Inr sp" and "sp_serviceAmountCents sp < 50"
  shows "ledgerEntriesForJobEvent now job event evs = Inl (TypeError ''amountCents must be non-zero'')"
proof -
  let ?s = "sp_serviceAmountCents sp"
  have sp: "adds_up sp" "sp_insuranceReserveCents sp = floor_mul_lit ?s (2 / 100)" using jobSplits_add_up[OF assms(5)] by auto
  then have "0 \<le> ?s" by (simp add: adds_up_def)
  then have "floor_mul_lit ?s (2 / 100) = ?s div 50"
    unfolding lits using assms(6) by (intro floor_mul_lit_exact[OF _ _ _ _ lits_up(2)]) simp_all
  then have "sp_insuranceReserveCents sp = 0" using sp(2) \<open>0 \<le> ?s\<close> assms(6) by simp
  from settled_zero_rejected[OF sp(1) this] show ?thesis
    using assms(1-5) by (simp add: ledgerEntriesForJobEvent_def settledEntries_def Let_def)
qed

section \<open>Witnesses\<close>

definition sample_quoted :: "string \<Rightarrow> int \<Rightarrow> int \<Rightarrow> jsval" where
  "sample_quoted status amount coverage =
     JObj [(''id'', JStr ''job_1''), (''status'', JStr status),
           (''quote'', JObj [(''amountCents'', JInt amount), (''breakdown'', JObj [(''coverageFeeCents'', JInt coverage)])])]"

definition sample_job_event :: "string \<Rightarrow> jsval" where
  "sample_job_event t = JObj [(''id'', JStr ''evt_1''), (''type'', JStr t), (''at'', JStr ''2026-01-01T00:00:00.000Z'')]"

definition sample_entry :: "string \<Rightarrow> string \<Rightarrow> posting list \<Rightarrow> journal_entry" where
  "sample_entry sfx memo ps = \<lparr>entry_id = ''jnl_evt_1'' @ sfx, entry_at = ''2026-01-01T00:00:00.000Z'', entry_memo = ''job:job_1'' @ memo, entry_postings = ps\<rparr>"

definition sample_booked :: "journal_entry list" where
  "sample_booked =
     [sample_entry [] '' BOOKED'' [\<lparr>accountId = ''acct_cash'', amountCents = 10999\<rparr>, \<lparr>accountId = ''acct_customer_escrow'', amountCents = - 10999\<rparr>],
      sample_entry ''_coverage_fee'' '' BOOKED coverage fee''
        [\<lparr>accountId = ''acct_customer_escrow'', amountCents = 1000\<rparr>, \<lparr>accountId = ''acct_coverage_unearned'', amountCents = - 1000\<rparr>]]"

definition sample_refunded :: "journal_entry list" where
  "sample_refunded =
     [sample_entry [] '' SETTLED (refund)''
        [\<lparr>accountId = ''acct_customer_escrow'', amountCents = 9999\<rparr>, \<lparr>accountId = ''acct_coverage_unearned'', amountCents = 1000\<rparr>,
         \<lparr>accountId = ''acct_cash'', amountCents = - 10999\<rparr>]]"

lemma sample_quoted_amounts:
  "is_safe a \<Longrightarrow> computeJobAmountCents (sample_quoted st a c) = Inr a"
  "is_safe c \<Longrightarrow> 0 \<le> c \<Longrightarrow> computeCoverageFeeCents (sample_quoted st a c) = c"
  "getp (sample_quoted st a c) ''status'' = JStr st" "getp (sample_job_event t) ''type'' = JStr t"
  by (simp_all add: sample_quoted_def sample_job_event_def computeJobAmountCents_def computeCoverageFeeCents_def assertSafeInteger_def coverageOrZero_def
      orElse_def nullish_def)

lemma sample_no_licenses: "sumSkillLicenseFeesCents (getp (sample_quoted st a c) ''skillLicenses'') = 0"
  by (simp add: sumSkillLicenseFeesCents_def sample_quoted_def)

lemma sample_jobEntry:
  "jobEntry now (sample_quoted st a c) (sample_job_event t) sfx memo qs =
     createJournalEntry (''jnl_evt_1'' @ sfx) ''2026-01-01T00:00:00.000Z'' (''job:job_1'' @ memo) qs"
  by (simp add: jobEntry_def sample_quoted_def sample_job_event_def dflt_def)

lemmas sample_checks = checkPosting_def assertSafeCents_def createJournalEntry_def is_safe_bounds add_int_exact_abs sample_entry_def neg_num_def

lemma sample_booking: "ledgerEntriesForJobEvent [] (sample_quoted ''QUOTED'' 10999 1000) (sample_job_event ''BOOKED'') [] = Inr sample_booked"
  by (simp add: ledgerEntriesForJobEvent_def bookedEntries_def sample_quoted_amounts sample_jobEntry sample_checks sample_booked_def)

lemma sample_settling: "ledgerEntriesForJobEvent [] (sample_quoted ''ABORTED'' 10999 1000) (sample_job_event ''SETTLED'') [] = Inr sample_refunded"
  by (simp add: ledgerEntriesForJobEvent_def settledEntries_def sample_quoted_amounts sample_jobEntry sample_checks sample_refunded_def
      one_entry_def returnedPostings_def)

theorem job_entries_balance_witness: "balanced_entries sample_booked"
  using job_entries_balance[OF sample_booking] .

theorem escrow_closes_witness: "posted_by (sample_booked @ sample_refunded) ''acct_customer_escrow'' = 0"
  using escrow_closes[OF sample_booking _ sample_settling] by (simp add: sample_job_event_def sample_quoted_def)

theorem small_settlement_rejected_witness:
  "ledgerEntriesForJobEvent [] (sample_quoted ''COMPLETED'' 49 0) (sample_job_event ''SETTLED'') [] = Inl (TypeError ''amountCents must be non-zero'')"
proof (rule small_settlement_rejected)
  let ?sp = "\<lparr>sp_amountCents = 49, sp_serviceAmountCents = 49, sp_coverageFeeCents = 0, sp_platformFeeCents = 9,
     sp_ownerPayoutCents = 40, sp_operatorFeeCents = 0, sp_developerRoyaltiesCents = 0, sp_insuranceReserveCents = 0\<rparr>"
  have m: "floor_mul_lit 49 (1 / 5) = 9" "floor_mul_lit 49 (1 / 50) = 0" by code_simp+
  show "jobSplits (sample_quoted ''COMPLETED'' 49 0) [] 49 (computeCoverageFeeCents (sample_quoted ''COMPLETED'' 49 0)) = Inr ?sp"
    by (simp add: jobSplits_def hadAssist_def computeSettlementSplitsV1_def splitShares_def Let_def assertSafeInteger_def m add_int_exact_abs is_safe_bounds
        sample_quoted_amounts(2) sample_no_licenses)
  show "settledWithoutCharge (sample_quoted ''COMPLETED'' 49 0) (sample_job_event ''SETTLED'') [] = Inr False"
    by (simp add: settledWithoutCharge_def getGateMode_def sample_quoted_def)
qed (simp_all add: sample_quoted_amounts is_safe_bounds)

end
