(* ===== verification/Documents.thy ===== *)
theory Documents
  imports CanonicalJson JsOps
begin

text \<open>
  Documents that the modules of \<^verbatim>\<open>src/core\<close> build as object literals and pass through
  \<open>normalizeForCanonicalJson\<close>. A document with ordinary keys and JSON leaves is returned unchanged,
  unless it holds a negative zero, which is rejected. 
\<close>

section \<open>Literal documents\<close>

definition plain_key :: "string \<Rightarrow> bool" where
  "plain_key k \<longleftrightarrow> k \<noteq> ''__proto__'' \<and> array_index k = None"

definition plain_keys :: "props \<Rightarrow> bool" where
  "plain_keys ps \<longleftrightarrow> distinct (map fst ps) \<and> list_all plain_key (map fst ps)"

function literal_doc :: "jsval \<Rightarrow> bool" where
  "literal_doc JUndef = False"
| "literal_doc JNull = True"
| "literal_doc (JStr s) = True"
| "literal_doc (JBool b) = True"
| "literal_doc (JNum n) = isFinite n"
| "literal_doc (JBigInt n) = False"
| "literal_doc (JFun s) = False"
| "literal_doc (JDate t) = False"
| "literal_doc (JArr xs) = list_all literal_doc xs"
| "literal_doc (JObj ps) = (plain_keys ps \<and> list_all (\<lambda>p. literal_doc (snd p)) ps)"
  by pat_completeness auto
termination by (relation "measure size") (auto simp del: jsval.size intro: size_elem)

function neg_zero_free :: "jsval \<Rightarrow> bool" where
  "neg_zero_free (JNum n) = (n \<noteq> NegZero)"
| "neg_zero_free (JArr xs) = list_all neg_zero_free xs"
| "neg_zero_free (JObj ps) = list_all (\<lambda>p. neg_zero_free (snd p)) ps"
| "neg_zero_free JUndef = True"
| "neg_zero_free JNull = True"
| "neg_zero_free (JStr s) = True"
| "neg_zero_free (JBool b) = True"
| "neg_zero_free (JBigInt n) = True"
| "neg_zero_free (JFun s) = True"
| "neg_zero_free (JDate t) = True"
  by pat_completeness auto
termination by (relation "measure size") (auto simp del: jsval.size intro: size_elem)

lemma plain_name [simp]: "\<not> is_digit c \<Longrightarrow> array_index (c # cs) = None"
  by (simp add: array_index_def)

lemma insert_plain: "array_index k = None \<Longrightarrow> insert_prop k v ps = ps @ [(k, v)]"
  by (induction ps) auto

lemma assign_plain:
  "plain_keys (ps @ qs) \<Longrightarrow> assign_props ps qs = ps @ qs"
proof (induction qs arbitrary: ps)
  case Nil
  then show ?case by (simp add: assign_props_def)
next
  case (Cons q qs)
  obtain k v where q: "q = (k, v)" by (cases q)
  have "set_prop k v ps = ps @ [q]"
    using Cons.prems by (auto simp: q plain_keys_def plain_key_def set_prop_def put_prop_def insert_plain)
  then have "assign_props ps (q # qs) = assign_props (ps @ [q]) qs" by (simp add: assign_props_def q)
  then show ?case using Cons by simp
qed

lemma spread_plain: "plain_keys (ps @ qs) \<Longrightarrow> spread ps qs = ps @ qs"
proof (induction qs arbitrary: ps)
  case Nil
  then show ?case by (simp add: spread_def)
next
  case (Cons q qs)
  obtain k v where q: "q = (k, v)" by (cases q)
  have "put_prop k v ps = ps @ [q]"
    using Cons.prems by (auto simp: q plain_keys_def plain_key_def put_prop_def insert_plain)
  then have "spread ps (q # qs) = spread (ps @ [q]) qs" by (simp add: spread_def q)
  then show ?case using Cons by simp
qed

lemma build_plain: "plain_keys ps \<Longrightarrow> build_obj ps = JObj ps"
  using assign_plain[of "[]" ps] by (simp add: build_obj_def)

lemma list_all2_cong_left: "(\<And>x y. x \<in> set xs \<Longrightarrow> P x y = Q x y) \<Longrightarrow> list_all2 P xs ys = list_all2 Q xs ys"
  by (induction xs arbitrary: ys) (auto simp: list_all2_Cons1)

lemma list_all2_ex_right: "(\<And>x. x \<in> set xs \<Longrightarrow> \<exists>y. P x y) \<Longrightarrow> \<exists>ys. list_all2 P xs ys"
  by (induction xs) (auto simp: list_all2_Cons1)

lemma list_all2_eq_map: "list_all2 (\<lambda>x y. y = f x \<and> P x) xs ys \<longleftrightarrow> ys = map f xs \<and> list_all P xs"
  by (induction xs arbitrary: ys) (auto simp: list_all2_Cons1)

lemma normalize_literal:
  "literal_doc v \<Longrightarrow> normalizeForCanonicalJson v path a = Inr w \<longleftrightarrow> w = v \<and> neg_zero_free v"
proof (induction v path a arbitrary: w rule: normalizeForCanonicalJson.induct)
  case (9 xs path a)
  have "list_all2 (\<lambda>p y. normalizeForCanonicalJson (snd p) (path @ ''['' @ show_int (int (fst p)) @ '']'') True = Inr y) (enumerate 0 xs) ys
    \<longleftrightarrow> list_all2 (\<lambda>p y. y = snd p \<and> neg_zero_free (snd p)) (enumerate 0 xs) ys" for ys
    using 9 by (intro list_all2_cong_left) (metis enumerate_snd_mem list_all_iff literal_doc.simps(9))
  moreover have "map snd (enumerate 0 xs) = xs" by (simp add: map_snd_enumerate)
  moreover have "list_all (\<lambda>p. neg_zero_free (snd p)) (enumerate 0 xs) \<longleftrightarrow> list_all neg_zero_free xs"
    by (metis list.pred_map map_snd_enumerate comp_def list.pred_mono_strong)
  ultimately show ?case by (auto simp: andThen_Inr_iff mapRes_Inr_iff list_all2_eq_map)
next
  case (10 ps path a)
  let ?f = "\<lambda>p. andThen (normalizeForCanonicalJson (snd p) (path @ ''.'' @ fst p) False) (\<lambda>w. Inr (fst p, w))"
  have "list_all2 (\<lambda>p y. ?f p = Inr y) ps out \<longleftrightarrow> list_all2 (\<lambda>p y. y = p \<and> neg_zero_free (snd p)) ps out" for out
    using 10 by (intro list_all2_cong_left) (auto simp: list_all_iff andThen_Inr_iff)
  then have "mapRes ?f ps = Inr out \<longleftrightarrow> out = ps \<and> list_all (\<lambda>p. neg_zero_free (snd p)) ps" for out
    using list_all2_eq_map[of "\<lambda>p. p"] by (simp add: mapRes_Inr_iff)
  moreover have "drop_undef ps = ps" using 10(2) by (auto simp: drop_undef_def list_all_iff intro!: filter_True)
  ultimately show ?case using 10(2) by (auto simp: andThen_Inr_iff build_plain)
qed auto

lemma normalize_literal_id [simp]:
  "literal_doc v \<Longrightarrow> neg_zero_free v \<Longrightarrow> normalizeForCanonicalJson v path a = Inr v"
  by (simp add: normalize_literal)

declare normalizeForCanonicalJson.simps(9,10) [simp del]

section \<open>Checks that pass again\<close>

definition good_id :: "int \<Rightarrow> int \<Rightarrow> string \<Rightarrow> bool" where
  "good_id lo hi s \<longleftrightarrow> is_id_token s \<and> lo \<le> int (length s) \<and> int (length s) \<le> hi"

lemma id_token_trim: "is_id_token s \<Longrightarrow> trim s = s"
proof (rule trim_id)
  assume "is_id_token s"
  then have "s \<noteq> []" and c: "\<And>d. d \<in> set s \<Longrightarrow> is_upper d \<or> is_lower d \<or> is_digit d \<or> d = CHR '':'' \<or> d = CHR ''_'' \<or> d = CHR ''-''"
    by (auto simp: is_id_token_def list_all_iff)
  moreover have "\<not> is_ws d" if "d \<in> set s" for d using c[OF that] by (auto simp: is_ws_def is_upper_def is_lower_def is_digit_def)
  ultimately show "s = [] \<or> \<not> is_ws (hd s) \<and> \<not> is_ws (last s)" by simp
qed

lemma normalizeId_Inr: "normalizeId v name lo hi = Inr s \<Longrightarrow> good_id lo hi s"
  by (auto simp: normalizeId_def good_id_def res_simps Let_def)

lemma normalizeId_good [simp]: "good_id lo hi s \<Longrightarrow> normalizeId (JStr s) name lo hi = Inr s"
  using id_token_trim[of s] by (auto simp: normalizeId_def good_id_def assertNonEmptyString_def is_id_token_def)

lemma normalizeHexHash_Inr: "normalizeHexHash v name = Inr s \<Longrightarrow> is_sha256_hex s"
  by (auto simp: normalizeHexHash_def res_simps Let_def)

lemma normalizeHexHash_hex [simp]: "is_sha256_hex s \<Longrightarrow> normalizeHexHash (JStr s) name = Inr s"
  using sha256_hex_norm[of s] by (simp add: normalizeHexHash_def assertNonEmptyString_def)

lemma normalizeCurrency_Inr: "normalizeCurrency v name = Inr c \<Longrightarrow> is_currency_code c"
  by (auto simp: normalizeCurrency_def res_simps Let_def)

lemma normalizeCurrency_code [simp]: "is_currency_code c \<Longrightarrow> normalizeCurrency (JStr c) name = Inr c"
  using currency_code_norm[of c] by (simp add: normalizeCurrency_def Let_def)

lemma assertNonNegativeSafeInt_iff: "assertNonNegativeSafeInt v name = Inr n \<longleftrightarrow> isSafeNumber v = Some n \<and> 0 \<le> n"
  by (auto simp: assertNonNegativeSafeInt_def split: option.splits)

lemma assertPositiveSafeInt_iff: "assertPositiveSafeInt v name = Inr n \<longleftrightarrow> isSafeNumber v = Some n \<and> 0 < n"
  by (auto simp: assertPositiveSafeInt_def split: option.splits)

lemma assertIsoDate_iso [simp]: "is_iso t \<Longrightarrow> assertIsoDate (JStr t) name = Inr t"
  by (simp add: res_simps)

section \<open>Properties of objects\<close>

lemma getp_appended: "getp (JObj (ps @ qs)) k = (if k \<in> fst ` set ps then getp (JObj ps) k else getp (JObj qs) k)"
  by (induction ps) (auto simp: rev_image_eqI)

lemma without_append: "without ks (ps @ qs) = without ks ps @ without ks qs"
  by (simp add: without_def)

lemma without_all: "fst ` set ps \<subseteq> set ks \<Longrightarrow> without ks ps = []"
  by (force simp: without_def filter_empty_conv)

lemma without_none: "fst ` set ps \<inter> set ks = {} \<Longrightarrow> without ks ps = ps"
  by (auto simp: without_def filter_id_conv)

text \<open>Normalizing an object literal keeps the literal fields as they are.\<close>

lemma normalize_obj:
  assumes "plain_keys ps" and "normalizeForCanonicalJson (JObj ps) path a = Inr w"
  shows "\<exists>ps'. w = JObj ps' \<and> plain_keys ps' \<and> fst ` set ps' \<subseteq> fst ` set ps
    \<and> (\<forall>k v. (k, v) \<in> set ps \<longrightarrow> literal_doc v \<longrightarrow> getp w k = v)"
proof -
  let ?f = "\<lambda>p. andThen (normalizeForCanonicalJson (snd p) (path @ ''.'' @ fst p) False) (\<lambda>w. Inr (fst p, w))"
  from assms(2) obtain out where l: "list_all2 (\<lambda>p q. ?f p = Inr q) ps out" and w: "w = build_obj (drop_undef out)"
    by (auto simp: normalizeForCanonicalJson.simps(10) andThen_Inr_iff mapRes_Inr_iff)
  have "map fst out = map fst ps" using l by (induction rule: list_all2_induct) (auto simp: andThen_Inr_iff)
  then have pk: "plain_keys out" using assms(1) unfolding plain_keys_def by metis
  have keys: "fst ` set out = fst ` set ps" using \<open>map fst out = map fst ps\<close> by (metis set_map)
  have pf: "plain_keys (drop_undef out)" using pk by (auto simp: plain_keys_def drop_undef_def distinct_map_filter list_all_iff)
  have wj: "w = JObj (drop_undef out)" using w build_plain[OF pf] by simp
  have "getp w k = v" if "(k, v) \<in> set ps" "literal_doc v" for k v
  proof -
    from that(1) obtain i where i: "i < length ps" "ps ! i = (k, v)" by (auto simp: in_set_conv_nth)
    define q where "q = out ! i"
    have "?f (ps ! i) = Inr q" "i < length out" using list_all2_nthD[OF l i(1)] list_all2_lengthD[OF l] i(1) by (simp_all add: q_def)
    then have q: "q \<in> set out" "?f (k, v) = Inr q" by (simp_all add: i(2) q_def)
    have "q = (k, v)" using q(2) that(2) by (auto simp: andThen_Inr_iff normalize_literal)
    moreover have "v \<noteq> JUndef" using that(2) by auto
    ultimately have "(k, v) \<in> set (drop_undef out)" using q(1) by (simp add: drop_undef_def)
    then have "map_of (drop_undef out) k = Some v" using pf by (intro map_of_is_SomeI) (simp_all add: plain_keys_def)
    then show ?thesis by (simp add: wj getp.simps(1))
  qed
  moreover have "fst ` set (drop_undef out) \<subseteq> fst ` set ps" using keys by (auto simp: drop_undef_def)
  ultimately show ?thesis using wj pf by blast
qed

lemma canonicalize_literal: "literal_doc v \<Longrightarrow> neg_zero_free v \<Longrightarrow> \<exists>c. canonicalize v = Inr c"
proof (induction v rule: canonicalize.induct)
  case (8 xs)
  then have "\<exists>ys. list_all2 (\<lambda>x y. canonicalize x = Inr y) xs ys" by (intro list_all2_ex_right) (auto simp: list_all_iff)
  then show ?case by (auto simp: andThen_Inr_iff mapRes_Inr_iff)
next
  case (10 ps)
  then have "\<exists>ys. list_all2 (\<lambda>p y. andThen (canonicalize (snd p)) (\<lambda>w. Inr (fst p, w)) = Inr y) (sorted_props ps) ys"
    by (intro list_all2_ex_right) (auto simp: list_all_iff andThen_Inr_iff)
  then show ?case by (auto simp: andThen_Inr_iff mapRes_Inr_iff)
qed auto

end
