(* ===== verification/SettlementPolicy.thy ===== *)
theory SettlementPolicy
  imports Documents
begin

text \<open>
  \<^verbatim>\<open>src/core/settlement-policy.js\<close>: policies that say which part of a settlement is released for a
  verification status, and whether that happens without review. Policies and verification methods
  are documents: the normalizers build an object and pass it through \<open>normalizeForCanonicalJson\<close>, so the
  model keeps them as dynamic values. The results are that the decision divides the amount exactly,
  that a settlement is resolved automatically exactly when the policy allows it, and that
  normalizing is idempotent.
\<close>

section \<open>Values\<close>

definition VERIFICATION_METHOD_SCHEMA_VERSION :: string where
  "VERIFICATION_METHOD_SCHEMA_VERSION = ''VerificationMethod.v1''"

definition SETTLEMENT_POLICY_SCHEMA_VERSION :: string where
  "SETTLEMENT_POLICY_SCHEMA_VERSION = ''SettlementPolicy.v1''"

definition ALLOWED_METHOD_MODES :: "string list" where
  "ALLOWED_METHOD_MODES = [''deterministic'', ''attested'', ''discretionary'']"

definition ALLOWED_POLICY_MODES :: "string list" where
  "ALLOWED_POLICY_MODES = [''automatic'', ''manual-review'']"

definition ALLOWED_VERIFICATION_STATUSES :: "string list" where
  "ALLOWED_VERIFICATION_STATUSES = [''green'', ''amber'', ''red'']"

definition normalizeNullableString :: "jsval \<Rightarrow> string option" where
  "normalizeNullableString v = (case v of JStr s \<Rightarrow> (if trim s = [] then None else Some (trim s)) | _ \<Rightarrow> None)"

definition js_nullable :: "string option \<Rightarrow> jsval" where
  "js_nullable s = (case s of None \<Rightarrow> JNull | Some t \<Rightarrow> JStr t)"

text \<open>\<^verbatim>\<open>value === null || value === undefined || value === ""\<close>\<close>

definition is_blank :: "jsval \<Rightarrow> bool" where
  "is_blank v \<longleftrightarrow> nullish v \<or> v = JStr []"

definition normalizeOptionalSafeInt :: "jsval \<Rightarrow> int \<Rightarrow> int \<Rightarrow> jsval res" where
  "normalizeOptionalSafeInt v lo hi =
     (if is_blank v then Inr JNull
      else case isSafeNumber v of
        None \<Rightarrow> Inl (TypeError ''expected a safe integer'')
      | Some n \<Rightarrow> (if n < lo \<or> hi < n
                   then Inl (TypeError (''expected integer in range '' @ show_int lo @ ''..'' @ show_int hi))
                   else Inr (JNum (js_Number v))))"

definition normalizeReleaseRatePct :: "jsval \<Rightarrow> int \<Rightarrow> jsval res" where
  "normalizeReleaseRatePct v fallback =
     (if is_blank v then Inr (JInt fallback)
      else case isSafeNumber v of
        None \<Rightarrow> Inl (TypeError ''releaseRatePct must be an integer within 0..100'')
      | Some n \<Rightarrow> (if n < 0 \<or> 100 < n then Inl (TypeError ''releaseRatePct must be an integer within 0..100'')
                   else Inr (JNum (js_Number v))))"

definition normalizeOptionalSha256 :: "jsval \<Rightarrow> string \<Rightarrow> jsval res" where
  "normalizeOptionalSha256 v name =
     (if is_blank v then Inr JNull
      else case v of
        JStr s \<Rightarrow> (let t = toLowerCase (trim s) in
                   if is_sha256_hex t then Inr (JStr t) else Inl (TypeError (name @ '' must be a sha256 hex string'')))
      | _ \<Rightarrow> Inl (TypeError (name @ '' must be a sha256 hex string'')))"

section \<open>Documents\<close>

definition evidenceProps :: "props \<Rightarrow> jsval \<Rightarrow> jsval \<Rightarrow> jsval \<Rightarrow> props" where
  "evidenceProps req pm mr ic = req @ [(''pricingMatrixHash'', pm), (''meteringReportHash'', mr), (''invoiceClaimHash'', ic)]"

definition normalizeMeteringPricingEvidence :: "jsval \<Rightarrow> string \<Rightarrow> bool \<Rightarrow> jsval res" where
  "normalizeMeteringPricingEvidence input fieldPath includeRequired =
     andThen (assertPlainObject input fieldPath) (\<lambda>_.
     andThen (throwIf (hasOwn input ''required'' \<and> \<not> nullish (getp input ''required'') \<and> js_typeof (getp input ''required'') \<noteq> ''boolean'')
                (TypeError (fieldPath @ ''.required must be boolean''))) (\<lambda>_.
     andThen (normalizeOptionalSha256 (getp input ''pricingMatrixHash'') (fieldPath @ ''.pricingMatrixHash'')) (\<lambda>pm.
     andThen (normalizeOptionalSha256 (getp input ''meteringReportHash'') (fieldPath @ ''.meteringReportHash'')) (\<lambda>mr.
     andThen (normalizeOptionalSha256 (getp input ''invoiceClaimHash'') (fieldPath @ ''.invoiceClaimHash'')) (\<lambda>ic.
       normalizeForCanonicalJson
         (JObj (evidenceProps (if includeRequired then [(''required'', JBool (getp input ''required'' = JBool True))] else []) pm mr ic))
         ''$'' False)))))"

text \<open>\<^verbatim>\<open>input && typeof input === "object" && !Array.isArray(input) ? input : {}\<close>\<close>

definition object_or_empty :: "jsval \<Rightarrow> jsval" where
  "object_or_empty v = (if isObjectLike v then v else JObj [])"

text \<open>The optional property \<^verbatim>\<open>meteringPricingEvidence\<close> of a rule set or a method.\<close>

definition evidenceField :: "jsval \<Rightarrow> string \<Rightarrow> bool \<Rightarrow> props res" where
  "evidenceField raw fieldPath includeRequired =
     (if hasOwn raw ''meteringPricingEvidence''
      then (if getp raw ''meteringPricingEvidence'' = JNull then Inr [(''meteringPricingEvidence'', JNull)]
            else andThen (normalizeMeteringPricingEvidence (getp raw ''meteringPricingEvidence'') fieldPath includeRequired)
                   (\<lambda>e. Inr [(''meteringPricingEvidence'', e)]))
      else Inr [])"

definition methodProps :: "string \<Rightarrow> string option \<Rightarrow> string option \<Rightarrow> string option \<Rightarrow> props \<Rightarrow> props" where
  "methodProps mode src attestor notes evidence =
     [(''schemaVersion'', JStr VERIFICATION_METHOD_SCHEMA_VERSION), (''mode'', JStr mode), (''source'', js_nullable src),
      (''attestor'', js_nullable attestor), (''notes'', js_nullable notes)] @ evidence"

definition normalizeVerificationMethod :: "jsval \<Rightarrow> jsval \<Rightarrow> jsval res" where
  "normalizeVerificationMethod input defaultMode =
     (let raw = object_or_empty input;
          mode = toLowerCase (case normalizeNullableString (getp raw ''mode'') of
                   Some m \<Rightarrow> m | None \<Rightarrow> js_String (dflt defaultMode (JStr ''deterministic'')))
      in andThen (throwIf (mode \<notin> set ALLOWED_METHOD_MODES)
                    (TypeError ''verificationMethod.mode must be deterministic|attested|discretionary'')) (\<lambda>_.
         andThen (evidenceField raw ''verificationMethod.meteringPricingEvidence'' False) (\<lambda>evidence.
           normalizeForCanonicalJson
             (JObj (methodProps mode (normalizeNullableString (getp raw ''source'')) (normalizeNullableString (getp raw ''attestor''))
                      (normalizeNullableString (getp raw ''notes'')) evidence)) ''$'' False)))"

definition rulesProps :: "jsval \<Rightarrow> jsval \<Rightarrow> jsval \<Rightarrow> jsval \<Rightarrow> jsval \<Rightarrow> jsval \<Rightarrow> props \<Rightarrow> props" where
  "rulesProps raw green amber red limit window evidence =
     [(''requireDeterministicVerification'', JBool (getp raw ''requireDeterministicVerification'' = JBool True)),
      (''autoReleaseOnGreen'', JBool (getp raw ''autoReleaseOnGreen'' \<noteq> JBool False)),
      (''autoReleaseOnAmber'', JBool (getp raw ''autoReleaseOnAmber'' = JBool True)),
      (''autoReleaseOnRed'', JBool (getp raw ''autoReleaseOnRed'' = JBool True)),
      (''greenReleaseRatePct'', green), (''amberReleaseRatePct'', amber), (''redReleaseRatePct'', red),
      (''maxAutoReleaseAmountCents'', limit), (''disputeWindowHours'', window),
      (''manualReason'', js_nullable (normalizeNullableString (getp raw ''manualReason'')))] @ evidence"

definition normalizeRules :: "jsval \<Rightarrow> jsval res" where
  "normalizeRules raw =
     andThen (normalizeReleaseRatePct (getp raw ''greenReleaseRatePct'') 100) (\<lambda>green.
     andThen (normalizeReleaseRatePct (getp raw ''amberReleaseRatePct'') 50) (\<lambda>amber.
     andThen (normalizeReleaseRatePct (getp raw ''redReleaseRatePct'') 0) (\<lambda>red.
     andThen (normalizeOptionalSafeInt (getp raw ''maxAutoReleaseAmountCents'') 1 MAX_SAFE_INTEGER) (\<lambda>limit.
     andThen (normalizeOptionalSafeInt (getp raw ''disputeWindowHours'') 1 (24 * 365)) (\<lambda>window.
     andThen (evidenceField raw ''policy.rules.meteringPricingEvidence'' True) (\<lambda>evidence.
       Inr (JObj (rulesProps raw green amber red limit window evidence))))))))"

definition normalizeSettlementPolicy :: "jsval \<Rightarrow> jsval res" where
  "normalizeSettlementPolicy input =
     (let raw = object_or_empty input;
          mode = toLowerCase (case normalizeNullableString (getp raw ''mode'') of Some m \<Rightarrow> m | None \<Rightarrow> ''automatic'')
      in andThen (throwIf (mode \<notin> set ALLOWED_POLICY_MODES) (TypeError ''policy.mode must be automatic|manual-review'')) (\<lambda>_.
         andThen (normalizeOptionalSafeInt (orElse (getp raw ''policyVersion'') (orElse (getp raw ''version'') (JInt 1))) 1 MAX_SAFE_INTEGER)
           (\<lambda>policyVersion.
         andThen (throwIf (policyVersion = JNull) (TypeError ''policyVersion must be a positive safe integer'')) (\<lambda>_.
         andThen (normalizeRules (object_or_empty (getp raw ''rules''))) (\<lambda>rules.
           normalizeForCanonicalJson
             (JObj [(''schemaVersion'', JStr SETTLEMENT_POLICY_SCHEMA_VERSION), (''policyVersion'', policyVersion), (''mode'', JStr mode), (''rules'', rules)])
             ''$'' False)))))"

definition computeSettlementPolicyHash :: "(string \<Rightarrow> string) \<Rightarrow> jsval \<Rightarrow> string res" where
  "computeSettlementPolicyHash sha256Hex policy =
     andThen (assertPlainObject policy ''policy'') (\<lambda>_.
     andThen (throwIf (getp policy ''schemaVersion'' \<noteq> JStr SETTLEMENT_POLICY_SCHEMA_VERSION)
                (TypeError (''policy.schemaVersion must be '' @ SETTLEMENT_POLICY_SCHEMA_VERSION))) (\<lambda>_.
     andThen (canonicalJsonStringify policy) (\<lambda>text. Inr (sha256Hex text))))"

definition computeVerificationMethodHash :: "(string \<Rightarrow> string) \<Rightarrow> jsval \<Rightarrow> string res" where
  "computeVerificationMethodHash sha256Hex method =
     andThen (assertPlainObject method ''verificationMethod'') (\<lambda>_.
     andThen (throwIf (getp method ''schemaVersion'' \<noteq> JStr VERIFICATION_METHOD_SCHEMA_VERSION)
                (TypeError (''verificationMethod.schemaVersion must be '' @ VERIFICATION_METHOD_SCHEMA_VERSION))) (\<lambda>_.
     andThen (canonicalJsonStringify method) (\<lambda>text. Inr (sha256Hex text))))"

section \<open>Evaluation\<close>

definition computeReleaseAmounts :: "int \<Rightarrow> jsval \<Rightarrow> (int \<times> int) res" where
  "computeReleaseAmounts amount rateArg =
     andThen (throwIf (\<not> is_safe amount \<or> amount \<le> 0) (TypeError ''amountCents must be a positive safe integer'')) (\<lambda>_.
     case safe_int_of rateArg of
       None \<Rightarrow> Inl (TypeError ''releaseRatePct must be an integer within 0..100'')
     | Some rate \<Rightarrow>
         andThen (throwIf (rate < 0 \<or> 100 < rate) (TypeError ''releaseRatePct must be an integer within 0..100'')) (\<lambda>_.
         let release = (if rate \<le> 0 then 0 else min amount (floor_mul_div amount rate 100))
         in Inr (release, add_int amount (- release))))"

definition reasonIf :: "bool \<Rightarrow> string \<Rightarrow> string list" where
  "reasonIf b code = (if b then [code] else [])"

text \<open>The reasons that concern metering and pricing evidence.\<close>

definition evidenceReasons :: "jsval \<Rightarrow> jsval \<Rightarrow> string list" where
  "evidenceReasons mp evidence =
     (if getp mp ''required'' \<noteq> JBool True then []
      else let want = getp mp; got = (\<lambda>h. orElse (getp evidence h) JNull);
               differs = (\<lambda>h. truthy (want h) \<and> truthy (got h) \<and> want h \<noteq> got h)
           in reasonIf (\<not> truthy (want ''pricingMatrixHash'')) ''metering_pricing_policy_pricing_matrix_hash_missing''
            @ reasonIf (\<not> truthy (want ''meteringReportHash'')) ''metering_pricing_policy_metering_report_hash_missing''
            @ reasonIf (\<not> truthy (got ''pricingMatrixHash'')) ''metering_pricing_pricing_matrix_hash_missing''
            @ reasonIf (\<not> truthy (got ''meteringReportHash'')) ''metering_pricing_metering_report_hash_missing''
            @ reasonIf (truthy (want ''invoiceClaimHash'') \<and> \<not> truthy (got ''invoiceClaimHash'')) ''metering_pricing_invoice_claim_hash_missing''
            @ reasonIf (differs ''pricingMatrixHash'') ''metering_pricing_pricing_matrix_hash_mismatch''
            @ reasonIf (differs ''meteringReportHash'') ''metering_pricing_metering_report_hash_mismatch''
            @ reasonIf (differs ''invoiceClaimHash'') ''metering_pricing_invoice_claim_hash_mismatch'')"

definition exceeds :: "int \<Rightarrow> jsval \<Rightarrow> bool" where
  "exceeds amount limit = (case safe_int_of limit of Some n \<Rightarrow> n < amount | None \<Rightarrow> False)"

definition autoFlag :: "string \<Rightarrow> string" where
  "autoFlag status = (if status = ''green'' then ''autoReleaseOnGreen'' else if status = ''amber'' then ''autoReleaseOnAmber'' else ''autoReleaseOnRed'')"

definition rateField :: "string \<Rightarrow> string" where
  "rateField status = (if status = ''green'' then ''greenReleaseRatePct'' else if status = ''amber'' then ''amberReleaseRatePct'' else ''redReleaseRatePct'')"

definition disabledReason :: "string \<Rightarrow> string" where
  "disabledReason status = (if status = ''green'' then ''auto_release_disabled_for_green''
     else if status = ''amber'' then ''auto_release_disabled_for_amber'' else ''auto_release_disabled_for_red'')"

definition policyReasons :: "jsval \<Rightarrow> jsval \<Rightarrow> string \<Rightarrow> int \<Rightarrow> string list" where
  "policyReasons policy method status amount =
     (let rules = getp policy ''rules'' in
      reasonIf (getp policy ''mode'' = JStr ''manual-review'') ''policy_mode_manual_review''
      @ reasonIf (truthy (getp rules ''requireDeterministicVerification'') \<and> getp method ''mode'' \<noteq> JStr ''deterministic'')
          ''verification_method_not_deterministic''
      @ reasonIf (exceeds amount (getp rules ''maxAutoReleaseAmountCents'')) ''amount_exceeds_auto_release_limit''
      @ evidenceReasons (getp rules ''meteringPricingEvidence'') (getp method ''meteringPricingEvidence'')
      @ reasonIf (\<not> truthy (getp rules (autoFlag status))) (disabledReason status))"

record policy_decision =
  pd_policy :: jsval
  pd_verificationMethod :: jsval
  pd_decisionMode :: string
  pd_shouldAutoResolve :: bool
  pd_reasonCodes :: "string list"
  pd_releaseRatePct :: jsval
  pd_releaseAmountCents :: int
  pd_refundAmountCents :: int
  pd_settlementStatus :: string
  pd_verificationStatus :: string
  pd_runStatus :: string

text \<open>\<^verbatim>\<open>Array.from(new Set(reasons))\<close>: the first of equal reasons stays.\<close>

definition unique_in_order :: "'a list \<Rightarrow> 'a list" where
  "unique_in_order xs = rev (remdups (rev xs))"

definition evaluateSettlementPolicy :: "jsval \<Rightarrow> jsval \<Rightarrow> jsval \<Rightarrow> jsval \<Rightarrow> jsval \<Rightarrow> policy_decision res" where
  "evaluateSettlementPolicy policyArg methodArg verificationStatus runStatusArg amountArg =
     andThen (normalizeSettlementPolicy policyArg) (\<lambda>policy.
     andThen (normalizeVerificationMethod methodArg JUndef) (\<lambda>method.
     let status = toLowerCase (trim (js_String (orElse verificationStatus (JStr []))));
         runStatus = toLowerCase (trim (js_String (orElse runStatusArg (JStr [])))) in
     andThen (throwIf (status \<notin> set ALLOWED_VERIFICATION_STATUSES) (TypeError ''verificationStatus must be green|amber|red'')) (\<lambda>_.
     andThen (throwIf (runStatus \<noteq> ''completed'' \<and> runStatus \<noteq> ''failed'') (TypeError ''runStatus must be completed|failed'')) (\<lambda>_.
     andThen (assertPositiveSafeInt amountArg ''amountCents'') (\<lambda>amount.
     let reasons = policyReasons policy method status amount;
         rate = (if runStatus = ''failed'' then JInt 0 else getp (getp policy ''rules'') (rateField status)) in
     andThen (computeReleaseAmounts amount rate) (\<lambda>(release, refund).
       Inr \<lparr>pd_policy = policy, pd_verificationMethod = method,
            pd_decisionMode = (if reasons = [] then ''automatic'' else ''manual-review''),
            pd_shouldAutoResolve = (reasons = []), pd_reasonCodes = unique_in_order reasons,
            pd_releaseRatePct = rate, pd_releaseAmountCents = release, pd_refundAmountCents = refund,
            pd_settlementStatus = (if 0 < release then ''released'' else ''refunded''),
            pd_verificationStatus = status, pd_runStatus = runStatus\<rparr>))))))"

section \<open>The decision divides the amount\<close>

lemma release_amounts:
  assumes "computeReleaseAmounts amount rateArg = Inr (release, refund)"
  shows "\<exists>rate. safe_int_of rateArg = Some rate \<and> 0 \<le> rate \<and> rate \<le> 100 \<and> 0 < amount \<and> is_safe amount
    \<and> release + refund = amount \<and> 0 \<le> release \<and> release \<le> amount
    \<and> (rate = 0 \<longrightarrow> release = 0) \<and> (amount < 2 ^ 46 \<longrightarrow> release = amount * rate div 100)"
proof -
  from assms obtain rate where r: "safe_int_of rateArg = Some rate" "0 \<le> rate" "rate \<le> 100" and a: "0 < amount" "is_safe amount"
    and rel: "release = (if rate \<le> 0 then 0 else min amount (floor_mul_div amount rate 100))" and ref: "refund = add_int amount (- release)"
    by (auto simp: computeReleaseAmounts_def andThen_Inr_iff throwIf_Inr_iff Let_def split: option.splits)
  have "0 \<le> floor_mul_div amount rate 100" using r a by (intro floor_mul_div_nonneg) simp_all
  then have b: "0 \<le> release" "release \<le> amount" using a by (simp_all add: rel)
  then have "refund = amount - release" using a by (simp add: ref add_int_safe is_safe_bounds)
  moreover have "release = amount * rate div 100" if "amount < 2 ^ 46"
  proof -
    have le: "amount * rate \<le> amount * 100" using r a by (intro mult_left_mono) simp_all
    then have "amount * rate < 2 ^ 53" using that by simp
    then have "floor_mul_div amount rate 100 = amount * rate div 100" using r a by (intro floor_mul_div_exact) simp_all
    moreover have "amount * rate div 100 \<le> amount" using zdiv_mono1[OF le, of 100] by simp
    ultimately show ?thesis using r(2) by (auto simp: rel)
  qed
  ultimately show ?thesis using r a b by (simp add: rel)
qed

lemma positive_amount: "assertPositiveSafeInt v name = Inr n \<longleftrightarrow> isSafeNumber v = Some n \<and> 0 < n"
  by (auto simp: assertPositiveSafeInt_def split: option.splits)

lemma evaluated:
  assumes "evaluateSettlementPolicy p m vs rs a = Inr d"
  obtains policy meth status amount where
    "normalizeSettlementPolicy p = Inr policy" "normalizeVerificationMethod m JUndef = Inr meth" "status \<in> set ALLOWED_VERIFICATION_STATUSES"
    "isSafeNumber a = Some amount" "pd_policy d = policy" "pd_verificationMethod d = meth" "pd_verificationStatus d = status"
    "pd_runStatus d \<in> {''completed'', ''failed''}"
    "pd_shouldAutoResolve d \<longleftrightarrow> policyReasons policy meth status amount = []"
    "pd_reasonCodes d = unique_in_order (policyReasons policy meth status amount)"
    "pd_decisionMode d = (if pd_shouldAutoResolve d then ''automatic'' else ''manual-review'')"
    "pd_releaseRatePct d = (if pd_runStatus d = ''failed'' then JInt 0 else getp (getp policy ''rules'') (rateField status))"
    "computeReleaseAmounts amount (pd_releaseRatePct d) = Inr (pd_releaseAmountCents d, pd_refundAmountCents d)"
    "pd_settlementStatus d = (if 0 < pd_releaseAmountCents d then ''released'' else ''refunded'')"
  using assms unfolding evaluateSettlementPolicy_def Let_def
  by (auto simp: andThen_Inr_iff throwIf_Inr_iff positive_amount)

text \<open>A decision divides the amount: released and refunded cents are non-negative and add up to it, the
  released part is the rate's share rounded down (exactly, for amounts below \<open>2 ^ 46\<close> cents), a failed run
  refunds everything, and the status is \<^verbatim>\<open>released\<close> exactly when something is released.\<close>

theorem policy_decision_divides:
  assumes "evaluateSettlementPolicy policy method verificationStatus runStatus amountCents = Inr d"
  shows "\<exists>amount rate. isSafeNumber amountCents = Some amount \<and> safe_int_of (pd_releaseRatePct d) = Some rate \<and> 0 \<le> rate \<and> rate \<le> 100
    \<and> pd_releaseAmountCents d + pd_refundAmountCents d = amount \<and> 0 \<le> pd_releaseAmountCents d \<and> 0 \<le> pd_refundAmountCents d
    \<and> (amount < 2 ^ 46 \<longrightarrow> pd_releaseAmountCents d = amount * rate div 100)
    \<and> (pd_runStatus d = ''failed'' \<longrightarrow> pd_refundAmountCents d = amount)
    \<and> (pd_settlementStatus d = ''released'' \<longleftrightarrow> 0 < pd_releaseAmountCents d)"
proof -
  from assms obtain amount where a: "isSafeNumber amountCents = Some amount"
    and c: "computeReleaseAmounts amount (pd_releaseRatePct d) = Inr (pd_releaseAmountCents d, pd_refundAmountCents d)"
    and f: "pd_runStatus d = ''failed'' \<Longrightarrow> pd_releaseRatePct d = JInt 0"
    and s: "pd_settlementStatus d = (if 0 < pd_releaseAmountCents d then ''released'' else ''refunded'')"
    by (rule evaluated) simp
  have "safe_int_of (JInt 0) = Some 0" by simp
  then show ?thesis using a f s release_amounts[OF c] by auto
qed

section \<open>When a settlement is resolved automatically\<close>

text \<open>The evidence the policy asks for is pinned in it and observed by the method.\<close>

definition evidence_agrees :: "jsval \<Rightarrow> jsval \<Rightarrow> bool" where
  "evidence_agrees mp evidence \<longleftrightarrow>
     (getp mp ''required'' = JBool True \<longrightarrow>
        (\<forall>h \<in> {''pricingMatrixHash'', ''meteringReportHash''}. truthy (getp mp h) \<and> getp evidence h = getp mp h)
      \<and> (truthy (getp mp ''invoiceClaimHash'') \<longrightarrow> getp evidence ''invoiceClaimHash'' = getp mp ''invoiceClaimHash''))"

definition auto_release_allowed :: "jsval \<Rightarrow> jsval \<Rightarrow> string \<Rightarrow> int \<Rightarrow> bool" where
  "auto_release_allowed policy method status amount \<longleftrightarrow>
     getp policy ''mode'' \<noteq> JStr ''manual-review''
   \<and> (getp (getp policy ''rules'') ''requireDeterministicVerification'' = JBool True \<longrightarrow> getp method ''mode'' = JStr ''deterministic'')
   \<and> (\<forall>limit. safe_int_of (getp (getp policy ''rules'') ''maxAutoReleaseAmountCents'') = Some limit \<longrightarrow> amount \<le> limit)
   \<and> evidence_agrees (getp (getp policy ''rules'') ''meteringPricingEvidence'') (getp method ''meteringPricingEvidence'')
   \<and> getp (getp policy ''rules'') (autoFlag status) = JBool True"

lemma reasonIf_Nil [simp]: "reasonIf b c = [] \<longleftrightarrow> \<not> b"
  by (simp add: reasonIf_def)

lemma truthy_orElse [simp]: "truthy (orElse v JNull) \<longleftrightarrow> truthy v"
  by (auto simp: orElse_def nullish_def)

lemma observed_eq: "truthy w \<Longrightarrow> (truthy v \<and> w = orElse v JNull) \<longleftrightarrow> v = w"
  by (auto simp: orElse_def nullish_def)

lemma evidenceReasons_Nil: "evidenceReasons mp evidence = [] \<longleftrightarrow> evidence_agrees mp evidence"
  unfolding evidenceReasons_def evidence_agrees_def Let_def using observed_eq by (auto simp del: truthy.simps)

section \<open>Normalized documents\<close>

definition hash_or_null :: "jsval \<Rightarrow> bool" where
  "hash_or_null v \<longleftrightarrow> v = JNull \<or> (\<exists>t. v = JStr t \<and> is_sha256_hex t)"

definition evidence_doc :: "bool \<Rightarrow> jsval \<Rightarrow> bool" where
  "evidence_doc req v \<longleftrightarrow> (\<exists>b pm mr ic. v = JObj (evidenceProps (if req then [(''required'', JBool b)] else []) pm mr ic)
     \<and> hash_or_null pm \<and> hash_or_null mr \<and> hash_or_null ic)"

definition evidence_field :: "bool \<Rightarrow> props \<Rightarrow> bool" where
  "evidence_field req ps \<longleftrightarrow> ps = [] \<or> (\<exists>v. ps = [(''meteringPricingEvidence'', v)] \<and> (v = JNull \<or> evidence_doc req v))"

lemma sha256_or_null: "normalizeOptionalSha256 v name = Inr w \<Longrightarrow> hash_or_null w"
  by (auto simp: normalizeOptionalSha256_def hash_or_null_def Let_def split: if_splits jsval.splits)

lemma hash_or_null_literal: "hash_or_null v \<Longrightarrow> literal_doc v \<and> neg_zero_free v"
  by (auto simp: hash_or_null_def)

lemma evidence_literal:
  assumes "hash_or_null pm" and "hash_or_null mr" and "hash_or_null ic" and "req = [] \<or> req = [(''required'', JBool b)]"
  shows "literal_doc (JObj (evidenceProps req pm mr ic)) \<and> neg_zero_free (JObj (evidenceProps req pm mr ic))"
  using assms hash_or_null_literal by (auto simp: evidenceProps_def plain_keys_def plain_key_def is_digit_def)

lemma evidenceField_shape:
  assumes "evidenceField raw fp req = Inr ps"
  shows "evidence_field req ps"
proof -
  have "evidence_doc req e" if m: "normalizeMeteringPricingEvidence v fp req = Inr e" for v e
  proof -
    let ?req = "\<lambda>b. if req then [(''required'', JBool b)] else []"
    define b where "b \<longleftrightarrow> getp v ''required'' = JBool True"
    from m obtain pm mr ic where h: "hash_or_null pm" "hash_or_null mr" "hash_or_null ic"
      and n: "normalizeForCanonicalJson (JObj (evidenceProps (?req b) pm mr ic)) ''$'' False = Inr e"
      unfolding normalizeMeteringPricingEvidence_def andThen_Inr_iff b_def[symmetric] using sha256_or_null by blast
    have "e = JObj (evidenceProps (?req b) pm mr ic)"
      using n evidence_literal[OF h, of "?req b" b] by (simp add: normalize_literal)
    then show ?thesis using h unfolding evidence_doc_def by blast
  qed
  then show ?thesis using assms by (auto simp: evidenceField_def evidence_field_def andThen_Inr_iff split: if_splits)
qed

lemma evidence_field_literal:
  assumes "evidence_field req ps"
  shows "list_all (\<lambda>p. literal_doc (snd p) \<and> neg_zero_free (snd p)) ps \<and> (ps = [] \<or> map fst ps = [''meteringPricingEvidence''])"
proof -
  have "literal_doc v \<and> neg_zero_free v" if v: "evidence_doc req v" for v
  proof -
    from v obtain b pm mr ic where d: "v = JObj (evidenceProps (if req then [(''required'', JBool b)] else []) pm mr ic)"
      and h: "hash_or_null pm" "hash_or_null mr" "hash_or_null ic" unfolding evidence_doc_def by blast
    show ?thesis unfolding d by (rule evidence_literal[OF h, where b = b]) simp
  qed
  then show ?thesis using assms by (auto simp: evidence_field_def)
qed

definition int_between :: "int \<Rightarrow> int \<Rightarrow> jsval \<Rightarrow> bool" where
  "int_between lo hi v \<longleftrightarrow> (\<exists>n k. v = JNum n \<and> safe_int n = Some k \<and> lo \<le> k \<and> k \<le> hi)"

lemma int_between_JInt [simp]: "is_safe n \<Longrightarrow> int_between lo hi (JInt n) \<longleftrightarrow> lo \<le> n \<and> n \<le> hi"
  by (auto simp: int_between_def)

lemma rate_value: "normalizeReleaseRatePct v fb = Inr w \<Longrightarrow> 0 \<le> fb \<Longrightarrow> fb \<le> 100 \<Longrightarrow> int_between 0 100 w"
  by (auto simp: normalizeReleaseRatePct_def isSafeNumber_def is_safe_bounds int_between_def[of _ _ "JNum (js_Number v)"] split: if_splits option.splits)

lemmas rate_values = rate_value[where fb = 100, simplified] rate_value[where fb = 50, simplified] rate_value[where fb = 0, simplified]

lemma optional_value: "normalizeOptionalSafeInt v lo hi = Inr w \<Longrightarrow> w = JNull \<or> int_between lo hi w"
  by (auto simp: normalizeOptionalSafeInt_def int_between_def isSafeNumber_def split: if_splits option.splits)

lemma int_between_literal: "int_between lo hi v \<Longrightarrow> literal_doc v"
proof -
  assume "int_between lo hi v"
  then obtain n k where n: "v = JNum n" "safe_int n = Some k" unfolding int_between_def by blast
  then show ?thesis by (cases n) (simp_all add: safe_int_def isFinite_def)
qed

definition policy_doc :: "string \<Rightarrow> jsval \<Rightarrow> jsval \<Rightarrow> jsval" where
  "policy_doc mode version rules =
     JObj [(''schemaVersion'', JStr SETTLEMENT_POLICY_SCHEMA_VERSION), (''policyVersion'', version), (''mode'', JStr mode), (''rules'', rules)]"

lemma normalized_policy:
  assumes "normalizeSettlementPolicy input = Inr p"
  obtains mode version raw green amber red limit window evidence where
    "p = policy_doc mode version (JObj (rulesProps raw green amber red limit window evidence))" "literal_doc p \<and> neg_zero_free p"
    "mode \<in> set ALLOWED_POLICY_MODES" "int_between 1 MAX_SAFE_INTEGER version" "int_between 0 100 green" "int_between 0 100 amber" "int_between 0 100 red"
    "limit = JNull \<or> int_between 1 MAX_SAFE_INTEGER limit" "window = JNull \<or> int_between 1 (24 * 365) window" "evidence_field True evidence"
proof -
  define raw where "raw = object_or_empty (getp (object_or_empty input) ''rules'')"
  from assms obtain mode version rules where m: "mode \<in> set ALLOWED_POLICY_MODES" and v: "int_between 1 MAX_SAFE_INTEGER version"
    and rules: "normalizeRules raw = Inr rules" and d: "normalizeForCanonicalJson (policy_doc mode version rules) ''$'' False = Inr p"
    unfolding normalizeSettlementPolicy_def Let_def policy_doc_def[symmetric] andThen_Inr_iff throwIf_Inr_iff raw_def[symmetric] using optional_value by blast
  from rules obtain green amber red limit window evidence where
    n: "rules = JObj (rulesProps raw green amber red limit window evidence)"
    and c: "int_between 0 100 green" "int_between 0 100 amber" "int_between 0 100 red"
    "limit = JNull \<or> int_between 1 MAX_SAFE_INTEGER limit" "window = JNull \<or> int_between 1 (24 * 365) window" "evidence_field True evidence"
    unfolding normalizeRules_def andThen_Inr_iff sum.inject using rate_values optional_value evidenceField_shape by blast
  have "literal_doc (JObj (rulesProps raw green amber red limit window evidence))"
    using c evidence_field_literal[OF c(6)]
    by (auto simp: rulesProps_def plain_keys_def plain_key_def is_digit_def js_nullable_def int_between_literal list_all_iff split: option.splits)
  then have "literal_doc (policy_doc mode version (JObj (rulesProps raw green amber red limit window evidence)))"
    using int_between_literal[OF v] by (simp add: policy_doc_def plain_keys_def plain_key_def is_digit_def)
  then have "p = policy_doc mode version (JObj (rulesProps raw green amber red limit window evidence))" "literal_doc p \<and> neg_zero_free p"
    using d by (simp_all add: n normalize_literal)
  then show ?thesis using that m v c by blast
qed

lemma rule_flags:
  assumes "normalizeSettlementPolicy input = Inr p"
  shows "\<exists>b. getp (getp p ''rules'') (autoFlag status) = JBool b" and "\<exists>b. getp (getp p ''rules'') ''requireDeterministicVerification'' = JBool b"
proof -
  from assms obtain mode version raw green amber red limit window evidence where
    p: "p = policy_doc mode version (JObj (rulesProps raw green amber red limit window evidence))"
    by (rule normalized_policy) blast
  show "\<exists>b. getp (getp p ''rules'') (autoFlag status) = JBool b" "\<exists>b. getp (getp p ''rules'') ''requireDeterministicVerification'' = JBool b"
    by (simp_all add: p policy_doc_def rulesProps_def autoFlag_def)
qed

lemma reasons_Nil:
  assumes "normalizeSettlementPolicy input = Inr p"
  shows "policyReasons p method status amount = [] \<longleftrightarrow> auto_release_allowed p method status amount"
proof -
  obtain b c where "getp (getp p ''rules'') (autoFlag status) = JBool b" "getp (getp p ''rules'') ''requireDeterministicVerification'' = JBool c"
    using rule_flags[OF assms] by blast
  moreover have "\<not> exceeds amount l \<longleftrightarrow> (\<forall>n. safe_int_of l = Some n \<longrightarrow> amount \<le> n)" for l
    by (auto simp: exceeds_def split: option.splits)
  ultimately show ?thesis unfolding policyReasons_def auto_release_allowed_def Let_def by (simp add: evidenceReasons_Nil)
qed

text \<open>C17: A settlement is resolved without review exactly when the policy allows it: it is not in review mode, a
  required deterministic verification was one, the amount is within the limit, the pinned evidence hashes were
  observed, and automatic release is on for the verification status. Otherwise the decision lists why not.\<close>

theorem policy_auto_resolve_iff:
  assumes "evaluateSettlementPolicy policy method verificationStatus runStatus amountCents = Inr d"
    and "isSafeNumber amountCents = Some amount"
  shows "(pd_shouldAutoResolve d \<longleftrightarrow> auto_release_allowed (pd_policy d) (pd_verificationMethod d) (pd_verificationStatus d) amount)
    \<and> (pd_shouldAutoResolve d \<longleftrightarrow> pd_reasonCodes d = []) \<and> (pd_shouldAutoResolve d \<longleftrightarrow> pd_decisionMode d = ''automatic'')"
proof -
  from assms(1) obtain p m st am where n: "normalizeSettlementPolicy policy = Inr p" and a: "isSafeNumber amountCents = Some am"
    and r: "pd_shouldAutoResolve d \<longleftrightarrow> policyReasons p m st am = []" "pd_reasonCodes d = unique_in_order (policyReasons p m st am)"
      "pd_decisionMode d = (if pd_shouldAutoResolve d then ''automatic'' else ''manual-review'')"
    and d: "pd_policy d = p" "pd_verificationMethod d = m" "pd_verificationStatus d = st"
    by (rule evaluated) simp
  have "am = amount" using a assms(2) by simp
  then show ?thesis using r reasons_Nil[OF n] by (simp add: d unique_in_order_def)
qed

section \<open>Normalizing is idempotent\<close>

lemma nullable_norm [simp]: "normalizeNullableString (js_nullable (normalizeNullableString v)) = normalizeNullableString v"
  by (auto simp: normalizeNullableString_def js_nullable_def split: jsval.splits)

lemma rate_norm: "int_between 0 100 v \<Longrightarrow> normalizeReleaseRatePct v fb = Inr v"
  by (auto simp: int_between_def normalizeReleaseRatePct_def is_blank_def nullish_def isSafeNumber_def)

lemma optional_norm: "v = JNull \<or> int_between lo hi v \<Longrightarrow> normalizeOptionalSafeInt v lo hi = Inr v"
  by (auto simp: int_between_def normalizeOptionalSafeInt_def is_blank_def nullish_def isSafeNumber_def)

lemma sha256_norm: "hash_or_null v \<Longrightarrow> normalizeOptionalSha256 v name = Inr v"
  using sha256_hex_norm by (auto simp: hash_or_null_def normalizeOptionalSha256_def is_blank_def nullish_def Let_def)

lemma evidence_norm:
  assumes "evidence_doc req v"
  shows "normalizeMeteringPricingEvidence v fp req = Inr v"
proof -
  from assms obtain b pm mr ic where v: "v = JObj (evidenceProps (if req then [(''required'', JBool b)] else []) pm mr ic)"
    and h: "hash_or_null pm" "hash_or_null mr" "hash_or_null ic" unfolding evidence_doc_def by blast
  have "literal_doc v \<and> neg_zero_free v" unfolding v by (rule evidence_literal[OF h, where b = b]) simp
  moreover have "getp v ''pricingMatrixHash'' = pm" "getp v ''meteringReportHash'' = mr" "getp v ''invoiceClaimHash'' = ic"
    "assertPlainObject v fp = Inr ()" "req \<Longrightarrow> getp v ''required'' = JBool b" "\<not> req \<Longrightarrow> \<not> hasOwn v ''required''"
    by (simp_all add: v evidenceProps_def assertPlainObject_def isObjectLike_def)
  ultimately show ?thesis
    using v by (cases req) (simp_all add: normalizeMeteringPricingEvidence_def sha256_norm h)
qed

lemma evidenceField_norm:
  assumes "evidence_field req ps" and "hasOwn raw ''meteringPricingEvidence'' \<longleftrightarrow> ps \<noteq> []"
    and "ps \<noteq> [] \<Longrightarrow> getp raw ''meteringPricingEvidence'' = snd (hd ps)"
  shows "evidenceField raw fp req = Inr ps"
proof -
  have "v \<noteq> JNull" if "evidence_doc req v" for v using that by (auto simp: evidence_doc_def)
  then show ?thesis using assms evidence_norm by (auto simp: evidence_field_def evidenceField_def)
qed

lemma rules_norm:
  assumes "int_between 0 100 green" "int_between 0 100 amber" "int_between 0 100 red"
    "limit = JNull \<or> int_between 1 MAX_SAFE_INTEGER limit" "window = JNull \<or> int_between 1 (24 * 365) window" "evidence_field True ev"
  shows "normalizeRules (JObj (rulesProps raw green amber red limit window ev)) = Inr (JObj (rulesProps raw green amber red limit window ev))"
proof -
  let ?r = "JObj (rulesProps raw green amber red limit window ev)"
  have ev: "ev = [] \<or> (\<exists>v. ev = [(''meteringPricingEvidence'', v)])" using assms(6) by (auto simp: evidence_field_def)
  then have e: "evidenceField ?r ''policy.rules.meteringPricingEvidence'' True = Inr ev"
    by (intro evidenceField_norm[OF assms(6)]) (auto simp: rulesProps_def)
  have g: "getp ?r ''greenReleaseRatePct'' = green" "getp ?r ''amberReleaseRatePct'' = amber" "getp ?r ''redReleaseRatePct'' = red"
    "getp ?r ''maxAutoReleaseAmountCents'' = limit" "getp ?r ''disputeWindowHours'' = window"
    by (simp_all add: rulesProps_def)
  have "rulesProps ?r green amber red limit window ev = rulesProps raw green amber red limit window ev"
    by (simp add: rulesProps_def)
  then show ?thesis
    unfolding normalizeRules_def g rate_norm[OF assms(1)] rate_norm[OF assms(2)] rate_norm[OF assms(3)] optional_norm[OF assms(4)] optional_norm[OF assms(5)] e
    by simp
qed

text \<open>A normalized policy is a fixed point: normalizing it again gives the same document, so its hash does
  not depend on how often it was normalized.\<close>

theorem policy_normalize_idempotent:
  assumes "normalizeSettlementPolicy input = Inr policy"
  shows "normalizeSettlementPolicy policy = Inr policy"
proof -
  from assms obtain mode version raw green amber red limit window ev where
    p: "policy = policy_doc mode version (JObj (rulesProps raw green amber red limit window ev))" and z: "literal_doc policy \<and> neg_zero_free policy"
    and m: "mode \<in> set ALLOWED_POLICY_MODES" and v: "int_between 1 MAX_SAFE_INTEGER version"
    and c: "int_between 0 100 green" "int_between 0 100 amber" "int_between 0 100 red"
    "limit = JNull \<or> int_between 1 MAX_SAFE_INTEGER limit" "window = JNull \<or> int_between 1 (24 * 365) window" "evidence_field True ev"
    by (rule normalized_policy) blast
  let ?rules = "JObj (rulesProps raw green amber red limit window ev)"
  have o: "object_or_empty policy = policy" "object_or_empty ?rules = ?rules" by (simp_all add: p policy_doc_def object_or_empty_def isObjectLike_def)
  have g: "getp policy ''rules'' = ?rules" "getp policy ''mode'' = JStr mode" "orElse (getp policy ''policyVersion'') d = version" for d
    using v by (auto simp: p policy_doc_def int_between_def orElse_def nullish_def)
  have "version \<noteq> JNull" using v by (auto simp: int_between_def)
  moreover have "normalizeNullableString (JStr mode) = Some mode" "toLowerCase mode = mode"
    using m by (auto simp: ALLOWED_POLICY_MODES_def normalizeNullableString_def trim_def is_ws_def toLowerCase_def lower_char_def)
  ultimately show ?thesis
    using m optional_norm[of version 1 MAX_SAFE_INTEGER] v rules_norm[OF c] z
    by (simp add: normalizeSettlementPolicy_def Let_def o g policy_doc_def[symmetric] p[symmetric])
qed

section \<open>Examples\<close>

definition sample_policy :: jsval where
  "sample_policy = policy_doc ''automatic'' (JInt 1)
     (JObj (rulesProps (JObj []) (JInt 100) (JInt 25) (JInt 0) JNull JNull []))"

definition sample_method :: jsval where
  "sample_method = JObj (methodProps ''deterministic'' None None None [])"

definition sample_decision :: policy_decision where
  "sample_decision = \<lparr>pd_policy = sample_policy, pd_verificationMethod = sample_method, pd_decisionMode = ''manual-review'',
     pd_shouldAutoResolve = False, pd_reasonCodes = [''auto_release_disabled_for_amber''], pd_releaseRatePct = JInt 25,
     pd_releaseAmountCents = 250, pd_refundAmountCents = 751, pd_settlementStatus = ''released'',
     pd_verificationStatus = ''amber'', pd_runStatus = ''completed''\<rparr>"

definition sample_input :: jsval where
  "sample_input = JObj [(''rules'', JObj [(''amberReleaseRatePct'', JInt 25)])]"

lemma sample_normalized: "normalizeSettlementPolicy sample_input = Inr sample_policy"
  by code_simp

lemma sample_method_normalized: "normalizeVerificationMethod JNull JUndef = Inr sample_method"
  by code_simp

lemma sample_reasons: "policyReasons sample_policy sample_method ''amber'' 1001 = [''auto_release_disabled_for_amber'']"
  by code_simp

lemma sample_amounts: "computeReleaseAmounts 1001 (JInt 25) = Inr (250, 751)"
  by code_simp

lemma sample_statuses: "toLowerCase (trim ''Amber'') = ''amber''" "toLowerCase (trim ''completed'') = ''completed''"
  "''amber'' \<in> set ALLOWED_VERIFICATION_STATUSES" "assertPositiveSafeInt (JInt 1001) ''amountCents'' = Inr 1001"
  "isSafeNumber (JInt 1001) = Some 1001" "getp (getp sample_policy ''rules'') (rateField ''amber'') = JInt 25" "unique_in_order [''auto_release_disabled_for_amber''] = [''auto_release_disabled_for_amber'']"
  by code_simp+

lemma sample_evaluated: "evaluateSettlementPolicy sample_input JNull (JStr ''Amber'') (JStr ''completed'') (JInt 1001) = Inr sample_decision"
  by (simp add: evaluateSettlementPolicy_def sample_normalized sample_method_normalized sample_reasons sample_amounts sample_statuses sample_decision_def Let_def)

theorem policy_decision_divides_witness: "pd_releaseAmountCents sample_decision + pd_refundAmountCents sample_decision = 1001"
  using policy_decision_divides[OF sample_evaluated] sample_statuses(5) by auto

theorem policy_auto_resolve_iff_witness: "\<not> auto_release_allowed sample_policy sample_method ''amber'' 1001"
  using policy_auto_resolve_iff[OF sample_evaluated sample_statuses(5)] by (simp add: sample_decision_def)

theorem policy_normalize_idempotent_witness: "normalizeSettlementPolicy sample_policy = Inr sample_policy"
  using policy_normalize_idempotent[OF sample_normalized] .

end
