(* ===== verification/AgreementDelegation.thy ===== *)
theory AgreementDelegation
  imports Documents "HOL-Library.AList"
begin

text \<open>
  \<^verbatim>\<open>src/core/agreement-delegation.js\<close>: delegations of one agreement to another, the graph they form,
  and the plans that settle or revoke them in cascades. A delegation is a document with a hash over
  its immutable fields. The \<^verbatim>\<open>Map\<close>s of the code are association lists in insertion order. SHA-256
  (\<open>H\<close>), the clock (\<open>now\<close>) and sorting by \<^verbatim>\<open>localeCompare\<close> (\<open>lsort\<close>) are parameters.
\<close>

section \<open>Values\<close>

definition AGREEMENT_DELEGATION_SCHEMA_VERSION :: string where
  "AGREEMENT_DELEGATION_SCHEMA_VERSION = ''AgreementDelegation.v1''"

definition AGREEMENT_DELEGATION_STATUS :: "string list" where
  "AGREEMENT_DELEGATION_STATUS = [''active'', ''settled'', ''revoked'']"

definition normalizeStatus :: "jsval \<Rightarrow> string \<Rightarrow> string res" where
  "normalizeStatus v name =
     (let s = (case v of JStr t \<Rightarrow> toLowerCase (trim t) | _ \<Rightarrow> [])
      in if s \<in> set AGREEMENT_DELEGATION_STATUS then Inr s
         else Inl (TypeError (name @ '' must be one of: active|settled|revoked'')))"

text \<open>The loop of \<^verbatim>\<open>normalizeAncestorChain\<close>.\<close>

definition pushAncestor :: "string \<Rightarrow> string list \<Rightarrow> nat \<times> jsval \<Rightarrow> string list res" where
  "pushAncestor name out = (\<lambda>(i, v).
     andThen (normalizeHexHash v (name @ ''['' @ show_int (int i) @ '']'')) (\<lambda>h.
       if h \<in> set out then Inl (TypeError (name @ '' must not contain duplicates'')) else Inr (out @ [h])))"

definition normalizeAncestorChain :: "jsval \<Rightarrow> string \<Rightarrow> int option \<Rightarrow> string \<Rightarrow> string list option res" where
  "normalizeAncestorChain v name requiredDepth expectedParentHash =
     (if nullish v then Inr None
      else case v of
        JArr xs \<Rightarrow>
          andThen (foldRes (pushAncestor name) [] (enumerate 0 xs)) (\<lambda>out.
          andThen (throwIf (requiredDepth \<noteq> None \<and> requiredDepth \<noteq> Some (int (length out)))
                     (TypeError (name @ '' length must equal delegationDepth''))) (\<lambda>_.
          andThen (throwIf (expectedParentHash \<noteq> [] \<and> out \<noteq> [] \<and> last out \<noteq> expectedParentHash)
                     (TypeError (name @ '' last element must equal parentAgreementHash''))) (\<lambda>_. Inr (Some out))))
      | _ \<Rightarrow> Inl (TypeError (name @ '' must be an array'')))"

section \<open>Delegation documents\<close>

text \<open>The fields outside the hash.\<close>

definition mutable_fields :: "string list" where
  "mutable_fields = [''delegationHash'', ''status'', ''resolvedAt'', ''updatedAt'', ''revision'', ''metadata'']"

definition computeAgreementDelegationHashV1 :: "(string \<Rightarrow> string) \<Rightarrow> jsval \<Rightarrow> string res" where
  "computeAgreementDelegationHashV1 H core =
     andThen (assertPlainObject core ''delegationCore'') (\<lambda>_.
     andThen (normalizeForCanonicalJson (JObj (without mutable_fields (own_props core))) ''$'' False) (\<lambda>normalized.
     andThen (canonicalJsonStringify normalized) (\<lambda>text. Inr (H text))))"

definition coreProps :: "string \<Rightarrow> string \<Rightarrow> string \<Rightarrow> string \<Rightarrow> string \<Rightarrow> string \<Rightarrow> jsnum \<Rightarrow> string \<Rightarrow> jsnum \<Rightarrow> jsnum \<Rightarrow> string \<Rightarrow> string list option \<Rightarrow> props" where
  "coreProps delegationId tenantId parentHash childHash delegator delegatee budget currency depth maxDepth createdAt chain =
     [(''schemaVersion'', JStr AGREEMENT_DELEGATION_SCHEMA_VERSION), (''delegationId'', JStr delegationId), (''tenantId'', JStr tenantId),
      (''parentAgreementHash'', JStr parentHash), (''childAgreementHash'', JStr childHash),
      (''delegatorAgentId'', JStr delegator), (''delegateeAgentId'', JStr delegatee),
      (''budgetCapCents'', JNum budget), (''currency'', JStr currency), (''delegationDepth'', JNum depth),
      (''maxDelegationDepth'', JNum maxDepth), (''createdAt'', JStr createdAt)]
     @ (case chain of None \<Rightarrow> [] | Some hs \<Rightarrow> [(''ancestorChain'', JArr (map JStr hs))])"

definition buildAgreementDelegationV1 :: "(string \<Rightarrow> string) \<Rightarrow> string \<Rightarrow> jsval \<Rightarrow> jsval res" where
  "buildAgreementDelegationV1 H now args =
     andThen (assertIsoDate (orElse (getp args ''createdAt'') (JStr now)) ''createdAt'') (\<lambda>t.
     andThen (normalizeHexHash (getp args ''parentAgreementHash'') ''parentAgreementHash'') (\<lambda>parentHash.
     andThen (assertNonNegativeSafeInt (getp args ''delegationDepth'') ''delegationDepth'') (\<lambda>depth.
     andThen (normalizeAncestorChain (getp args ''ancestorChain'') ''ancestorChain''
                (if nullish (getp args ''ancestorChain'') then None else Some depth) parentHash) (\<lambda>chain.
     andThen (normalizeId (getp args ''delegationId'') ''delegationId'' 3 240) (\<lambda>delegationId.
     andThen (normalizeId (getp args ''tenantId'') ''tenantId'' 1 128) (\<lambda>tenantId.
     andThen (normalizeHexHash (getp args ''childAgreementHash'') ''childAgreementHash'') (\<lambda>childHash.
     andThen (normalizeId (getp args ''delegatorAgentId'') ''delegatorAgentId'' 3 128) (\<lambda>delegator.
     andThen (normalizeId (getp args ''delegateeAgentId'') ''delegateeAgentId'' 3 128) (\<lambda>delegatee.
     andThen (assertPositiveSafeInt (getp args ''budgetCapCents'') ''budgetCapCents'') (\<lambda>_.
     andThen (normalizeCurrency (getp args ''currency'') ''currency'') (\<lambda>currency.
     andThen (assertNonNegativeSafeInt (getp args ''maxDelegationDepth'') ''maxDelegationDepth'') (\<lambda>maxDepth.
     andThen (normalizeForCanonicalJson
                (JObj (coreProps delegationId tenantId parentHash childHash delegator delegatee (js_Number (getp args ''budgetCapCents'')) currency
                         (js_Number (getp args ''delegationDepth'')) (js_Number (getp args ''maxDelegationDepth'')) t chain)) ''$'' False) (\<lambda>normalized.
     andThen (throwIf (maxDepth < depth) (TypeError ''delegationDepth must be <= maxDelegationDepth'')) (\<lambda>_.
     andThen (throwIf (parentHash = childHash) (TypeError ''parentAgreementHash must differ from childAgreementHash'')) (\<lambda>_.
     andThen (computeAgreementDelegationHashV1 H normalized) (\<lambda>delegationHash.
       normalizeForCanonicalJson
         (JObj (spread (own_props normalized)
            [(''delegationHash'', JStr delegationHash), (''status'', JStr ''active''), (''revision'', JInt 0), (''updatedAt'', JStr t)]))
         ''$'' False))))))))))))))))"

definition optionalChainCheck :: "jsval \<Rightarrow> int \<Rightarrow> string \<Rightarrow> unit res" where
  "optionalChainCheck d depth parentHash =
     (if hasOwn d ''ancestorChain''
      then andThen (normalizeAncestorChain (orElse (getp d ''ancestorChain'') JNull) ''delegation.ancestorChain''
                     (if getp d ''ancestorChain'' = JNull then None else Some depth) parentHash) (\<lambda>_. Inr ())
      else Inr ())"

definition assertIsoDateOrNull :: "jsval \<Rightarrow> string \<Rightarrow> unit res" where
  "assertIsoDateOrNull v name = (if nullish v then Inr () else andThen (assertIsoDate v name) (\<lambda>_. Inr ()))"

definition validateAgreementDelegationV1 :: "(string \<Rightarrow> string) \<Rightarrow> jsval \<Rightarrow> unit res" where
  "validateAgreementDelegationV1 H d =
     andThen (assertPlainObject d ''delegation'') (\<lambda>_.
     andThen (throwIf (getp d ''schemaVersion'' \<noteq> JStr AGREEMENT_DELEGATION_SCHEMA_VERSION)
                (TypeError (''delegation.schemaVersion must be '' @ AGREEMENT_DELEGATION_SCHEMA_VERSION))) (\<lambda>_.
     andThen (normalizeId (getp d ''delegationId'') ''delegation.delegationId'' 3 240) (\<lambda>_.
     andThen (normalizeId (getp d ''tenantId'') ''delegation.tenantId'' 1 128) (\<lambda>_.
     andThen (normalizeHexHash (getp d ''parentAgreementHash'') ''delegation.parentAgreementHash'') (\<lambda>parentHash.
     andThen (normalizeHexHash (getp d ''childAgreementHash'') ''delegation.childAgreementHash'') (\<lambda>childHash.
     andThen (throwIf (parentHash = childHash) (TypeError ''delegation.parentAgreementHash must differ from delegation.childAgreementHash'')) (\<lambda>_.
     andThen (normalizeId (getp d ''delegatorAgentId'') ''delegation.delegatorAgentId'' 3 128) (\<lambda>_.
     andThen (normalizeId (getp d ''delegateeAgentId'') ''delegation.delegateeAgentId'' 3 128) (\<lambda>_.
     andThen (assertPositiveSafeInt (getp d ''budgetCapCents'') ''delegation.budgetCapCents'') (\<lambda>_.
     andThen (normalizeCurrency (getp d ''currency'') ''delegation.currency'') (\<lambda>_.
     andThen (assertNonNegativeSafeInt (getp d ''delegationDepth'') ''delegation.delegationDepth'') (\<lambda>depth.
     andThen (assertNonNegativeSafeInt (getp d ''maxDelegationDepth'') ''delegation.maxDelegationDepth'') (\<lambda>maxDepth.
     andThen (throwIf (maxDepth < depth) (TypeError ''delegation.delegationDepth must be <= delegation.maxDelegationDepth'')) (\<lambda>_.
     andThen (assertIsoDate (getp d ''createdAt'') ''delegation.createdAt'') (\<lambda>_.
     andThen (optionalChainCheck d depth parentHash) (\<lambda>_.
     andThen (normalizeHexHash (getp d ''delegationHash'') ''delegation.delegationHash'') (\<lambda>_.
     andThen (normalizeStatus (getp d ''status'') ''delegation.status'') (\<lambda>_.
     andThen (case isSafeNumber (orElse (getp d ''revision'') (JInt 0)) of
                Some n \<Rightarrow> throwIf (n < 0) (TypeError ''delegation.revision must be a non-negative safe integer'')
              | None \<Rightarrow> Inl (TypeError ''delegation.revision must be a non-negative safe integer'')) (\<lambda>_.
     andThen (assertIsoDate (getp d ''updatedAt'') ''delegation.updatedAt'') (\<lambda>_.
     andThen (if hasOwn d ''resolvedAt'' then assertIsoDateOrNull (getp d ''resolvedAt'') ''delegation.resolvedAt'' else Inr ()) (\<lambda>_.
     andThen (computeAgreementDelegationHashV1 H d) (\<lambda>computed.
       throwIf (computed \<noteq> toLowerCase (js_String (getp d ''delegationHash''))) (TypeError ''delegationHash mismatch'')))))))))))))))))))))))"

definition resolvedProps :: "jsval \<Rightarrow> string \<Rightarrow> string \<Rightarrow> props" where
  "resolvedProps d nextStatus t =
     spread (own_props d)
       [(''status'', JStr nextStatus), (''resolvedAt'', JStr t),
        (''revision'', JNum (num_plus_one (js_Number (orElse (getp d ''revision'') (JInt 0))))), (''updatedAt'', JStr t)]"

definition resolveAgreementDelegationV1 :: "(string \<Rightarrow> string) \<Rightarrow> string \<Rightarrow> jsval \<Rightarrow> jsval \<Rightarrow> jsval \<Rightarrow> jsval \<Rightarrow> jsval res" where
  "resolveAgreementDelegationV1 H now d statusArg resolvedAt metadata =
     andThen (validateAgreementDelegationV1 H d) (\<lambda>_.
     andThen (normalizeStatus statusArg ''status'') (\<lambda>nextStatus.
     andThen (assertIsoDate (orElse resolvedAt (JStr now)) ''resolvedAt'') (\<lambda>t.
     andThen (throwIf (nextStatus = ''active'') (TypeError ''cannot resolve delegation to active'')) (\<lambda>_.
     if toLowerCase (js_String (orElse (getp d ''status'') (JStr []))) \<noteq> ''active'' then Inr d
     else if isObjectLike metadata
     then andThen (normalizeForCanonicalJson metadata ''$.metadata'' False) (\<lambda>meta.
            normalizeForCanonicalJson (JObj (put_prop ''metadata'' meta (resolvedProps d nextStatus t))) ''$'' False)
     else normalizeForCanonicalJson (JObj (resolvedProps d nextStatus t)) ''$'' False))))"

section \<open>The core of a delegation\<close>

definition safe_num :: "int \<Rightarrow> jsnum \<Rightarrow> bool" where
  "safe_num lo n \<longleftrightarrow> (\<exists>k. safe_int n = Some k \<and> lo \<le> k)"

text \<open>A chain of ancestors as validation accepts it for a depth and a parent.\<close>

definition good_chain :: "string list option \<Rightarrow> int \<Rightarrow> string \<Rightarrow> bool" where
  "good_chain chain depth parent \<longleftrightarrow>
     (\<forall>hs. chain = Some hs \<longrightarrow> distinct hs \<and> list_all is_sha256_hex hs \<and> int (length hs) = depth \<and> (hs \<noteq> [] \<longrightarrow> last hs = parent))"

inductive core_shape :: "props \<Rightarrow> bool" where
  "core_shape (coreProps delegationId tenantId parent child delegator delegatee budget currency depth maxDepth createdAt chain)"
  if "good_id 3 240 delegationId" "good_id 1 128 tenantId" "is_sha256_hex parent" "is_sha256_hex child" "parent \<noteq> child"
    "good_id 3 128 delegator" "good_id 3 128 delegatee" "safe_num 1 budget" "is_currency_code currency"
    "safe_int depth = Some n" "safe_int maxDepth = Some m" "0 \<le> n" "n \<le> m" "is_iso createdAt" "good_chain chain n parent"

lemma coreProps_keys: "core_shape core \<Longrightarrow> fst ` set core \<inter> set mutable_fields = {}"
  by (auto simp: coreProps_def mutable_fields_def elim!: core_shape.cases split: option.splits)

lemma core_literal:
  assumes "core_shape core"
  shows "literal_doc (JObj core)"
proof -
  have f: "safe_int n = Some k \<Longrightarrow> isFinite n" for n k by (cases n) (simp_all add: safe_int_def isFinite_def)
  then have "safe_num lo n \<Longrightarrow> isFinite n" for lo n by (auto simp: safe_num_def)
  then show ?thesis using assms f
    by (auto elim!: core_shape.cases simp: coreProps_def plain_keys_def plain_key_def is_digit_def list_all_iff split: option.splits)
qed

lemma pushAncestors_pass:
  assumes "list_all is_sha256_hex hs" and "distinct hs" and "set acc \<inter> set hs = {}"
  shows "foldRes (pushAncestor name) acc (enumerate i (map JStr hs)) = Inr (acc @ hs)"
  using assms
proof (induction hs arbitrary: acc i)
  case Nil
  then show ?case by simp
next
  case (Cons h hs)
  have "foldRes (pushAncestor name) (acc @ [h]) (enumerate (Suc i) (map JStr hs)) = Inr ((acc @ [h]) @ hs)"
    using Cons.prems by (intro Cons.IH) auto
  moreover have "pushAncestor name acc (i, JStr h) = Inr (acc @ [h])" using Cons.prems by (simp add: pushAncestor_def)
  ultimately show ?case by simp
qed

lemma pushAncestors_hex:
  assumes "foldRes (pushAncestor name) acc xs = Inr hs" and "list_all is_sha256_hex acc \<and> distinct acc"
  shows "list_all is_sha256_hex hs \<and> distinct hs"
  using assms
proof (rule foldRes_invariant)
  fix s x s' assume "list_all is_sha256_hex s \<and> distinct s" "pushAncestor name s x = Inr s'"
  then show "list_all is_sha256_hex s' \<and> distinct s'"
    by (cases x) (auto simp: pushAncestor_def andThen_Inr_iff split: if_splits dest: normalizeHexHash_Inr)
qed

lemma chain_Inr:
  assumes "normalizeAncestorChain v name (if nullish v then None else Some n) parent = Inr chain" and "parent \<noteq> []"
  shows "good_chain chain n parent"
  using assms pushAncestors_hex[of name "[]"]
  by (auto simp: normalizeAncestorChain_def good_chain_def andThen_Inr_iff throwIf_Inr_iff split: if_splits jsval.splits)

lemma chain_passes:
  assumes "good_chain (Some hs) n parent"
  shows "normalizeAncestorChain (JArr (map JStr hs)) name (Some n) parent = Inr (Some hs)"
  using assms pushAncestors_pass[of hs "[]" name 0] by (auto simp: good_chain_def normalizeAncestorChain_def nullish_def)

section \<open>Life cycle\<close>

text \<open>A delegation document: an immutable core with its hash, and the fields a resolution changes.\<close>

definition good_rest :: "string \<Rightarrow> props \<Rightarrow> bool" where
  "good_rest h rest \<longleftrightarrow> fst ` set rest \<subseteq> set mutable_fields \<and> getp (JObj rest) ''delegationHash'' = JStr h
     \<and> (\<exists>s. getp (JObj rest) ''status'' = JStr s \<and> s \<in> set AGREEMENT_DELEGATION_STATUS)
     \<and> (\<exists>r. getp (JObj rest) ''revision'' = JInt r \<and> is_safe r \<and> 0 \<le> r)
     \<and> (\<exists>t. getp (JObj rest) ''updatedAt'' = JStr t \<and> is_iso t)
     \<and> (getp (JObj rest) ''resolvedAt'' = JUndef \<or> (\<exists>t. getp (JObj rest) ''resolvedAt'' = JStr t \<and> is_iso t))"

lemma hash_ignores_rest:
  assumes "core_shape core" and "fst ` set rest \<subseteq> set mutable_fields"
  shows "computeAgreementDelegationHashV1 H (JObj (core @ rest)) = computeAgreementDelegationHashV1 H (JObj core)"
  using assms coreProps_keys[OF assms(1)]
  by (simp add: computeAgreementDelegationHashV1_def own_props_def without_append without_all without_none assertPlainObject_def isObjectLike_def)

lemma status_norm: "s \<in> set AGREEMENT_DELEGATION_STATUS \<Longrightarrow> trim s = s \<and> toLowerCase s = s"
  by (auto simp: AGREEMENT_DELEGATION_STATUS_def trim_def is_ws_def toLowerCase_def lower_char_def)

lemma normalizeStatus_pass [simp]: "s \<in> set AGREEMENT_DELEGATION_STATUS \<Longrightarrow> normalizeStatus (JStr s) name = Inr s"
  using status_norm[of s] by (simp add: normalizeStatus_def Let_def)

lemma normalizeStatus_Inr: "normalizeStatus v name = Inr s \<Longrightarrow> s \<in> set AGREEMENT_DELEGATION_STATUS"
  by (auto simp: normalizeStatus_def Let_def split: if_splits)

lemma getp_missing: "getp (JObj ps) k = JUndef" if "k \<notin> fst ` set ps"
proof -
  have "map_of ps k = None" using that by (simp add: map_of_eq_None_iff)
  then show ?thesis by (simp add: getp.simps(1))
qed

lemma getp_core:
  assumes "core_shape core" and "fst ` set rest \<subseteq> set mutable_fields" and "k \<notin> set mutable_fields"
  shows "getp (JObj (core @ rest)) k = getp (JObj core) k"
proof (cases "k \<in> fst ` set core")
  case True
  then show ?thesis by (simp add: getp_appended)
next
  case False
  moreover have "k \<notin> fst ` set rest" using assms(2,3) by auto
  ultimately show ?thesis by (simp add: getp_appended getp_missing)
qed

lemma getp_rest:
  assumes "core_shape core" and "k \<in> set mutable_fields"
  shows "getp (JObj (core @ rest)) k = getp (JObj rest) k"
  using coreProps_keys[OF assms(1)] assms(2) by (auto simp: getp_appended)

lemma hasOwn_append: "hasOwn (JObj (ps @ qs)) k \<longleftrightarrow> hasOwn (JObj ps) k \<or> hasOwn (JObj qs) k"
  by auto

lemma validate_good:
  assumes core: "core_shape core" and rest: "good_rest h rest" and h: "computeAgreementDelegationHashV1 H (JObj core) = Inr h" "is_sha256_hex h"
  shows "validateAgreementDelegationV1 H (JObj (core @ rest)) = Inr ()"
proof -
  let ?d = "JObj (core @ rest)"
  note g = getp_core[OF core, of rest] and m = getp_rest[OF core, of _ rest]
  have keys: "fst ` set rest \<subseteq> set mutable_fields" using rest by (simp add: good_rest_def)
  have mf: "x \<in> set mutable_fields" if "x \<in> {''delegationHash'', ''status'', ''resolvedAt'', ''updatedAt'', ''revision'', ''metadata''}" for x
    using that by (auto simp: mutable_fields_def)
  obtain s r t where r: "getp ?d ''delegationHash'' = JStr h" "getp ?d ''status'' = JStr s" "s \<in> set AGREEMENT_DELEGATION_STATUS"
    "getp ?d ''revision'' = JInt r" "is_safe r" "0 \<le> r" "getp ?d ''updatedAt'' = JStr t" "is_iso t"
    "assertIsoDateOrNull (getp ?d ''resolvedAt'') n = Inr ()" for n
    using rest mf m by (auto simp: good_rest_def assertIsoDateOrNull_def nullish_def)
  have c: "computeAgreementDelegationHashV1 H ?d = Inr h" using hash_ignores_rest[OF core keys] h by simp
  have nm: "''ancestorChain'' \<notin> set mutable_fields" by (simp add: mutable_fields_def)
  have hr: "\<not> hasOwn (JObj rest) ''ancestorChain''" using keys nm by auto
  have hl: "toLowerCase h = h" using sha256_hex_norm[OF h(2)] by blast
  from core show ?thesis
  proof cases
    case (1 did ten par chi dor dee bud cur dep n maxd mm crt chain)
    have f: "getp ?d ''schemaVersion'' = JStr AGREEMENT_DELEGATION_SCHEMA_VERSION" "getp ?d ''delegationId'' = JStr did" "getp ?d ''tenantId'' = JStr ten"
      "getp ?d ''parentAgreementHash'' = JStr par" "getp ?d ''childAgreementHash'' = JStr chi" "getp ?d ''delegatorAgentId'' = JStr dor"
      "getp ?d ''delegateeAgentId'' = JStr dee" "getp ?d ''budgetCapCents'' = JNum bud" "getp ?d ''currency'' = JStr cur"
      "getp ?d ''delegationDepth'' = JNum dep" "getp ?d ''maxDelegationDepth'' = JNum maxd" "getp ?d ''createdAt'' = JStr crt"
      by (simp_all add: 1(1) coreProps_def)
    have oc: "optionalChainCheck ?d n par = Inr ()"
    proof (cases chain)
      case None
      then have "\<not> hasOwn ?d ''ancestorChain''" unfolding hasOwn_append using hr by (simp add: 1(1) coreProps_def)
      then show ?thesis by (simp add: optionalChainCheck_def)
    next
      case (Some hs)
      have "getp ?d ''ancestorChain'' = JArr (map JStr hs)" by (simp add: 1(1) coreProps_def Some)
      moreover have "orElse (JArr (map JStr hs)) JNull = JArr (map JStr hs)" by (simp add: orElse_def nullish_def)
      ultimately show ?thesis using chain_passes[of hs n par] 1 Some by (simp add: optionalChainCheck_def)
    qed
    obtain b where "safe_int bud = Some b" "1 \<le> b" using 1 by (auto simp: safe_num_def)
    then have i: "assertPositiveSafeInt (JNum bud) nm = Inr b" "assertNonNegativeSafeInt (JNum dep) nm = Inr n"
      "assertNonNegativeSafeInt (JNum maxd) nm = Inr mm" for nm
      using 1 by (simp_all add: assertPositiveSafeInt_iff assertNonNegativeSafeInt_iff isSafeNumber_def)
    have p: "assertPlainObject ?d nm = Inr ()" for nm by (simp add: assertPlainObject_def isObjectLike_def)
    show ?thesis
      using 1(2-) r(3,5,6,8) h(2)
      by (simp add: validateAgreementDelegationV1_def f i p r(1,2,4,7,9) c hl oc isSafeNumber_def)
  qed
qed

lemma safe_int_finite: "safe_int n = Some k \<Longrightarrow> isFinite n"
  by (cases n) (simp_all add: safe_int_def isFinite_def)

lemma iso_of: "assertIsoDate v name = Inr t \<Longrightarrow> is_iso t"
  by (simp add: res_simps)

lemma build_shape:
  assumes "buildAgreementDelegationV1 H now args = Inr d" and hex: "\<And>x. is_sha256_hex (H x)"
  obtains core h t where "core_shape core" "neg_zero_free (JObj core)" "computeAgreementDelegationHashV1 H (JObj core) = Inr h" "is_sha256_hex h" "is_iso t"
    "d = JObj (core @ [(''delegationHash'', JStr h), (''status'', JStr ''active''), (''revision'', JInt 0), (''updatedAt'', JStr t)])"
proof -
  let ?ch = "getp args ''ancestorChain''"
  from assms(1) obtain t par n chain did ten chi dor dee b cur m normalized h where
    s: "assertIsoDate (orElse (getp args ''createdAt'') (JStr now)) ''createdAt'' = Inr t" "normalizeHexHash (getp args ''parentAgreementHash'') ''parentAgreementHash'' = Inr par"
      "assertNonNegativeSafeInt (getp args ''delegationDepth'') ''delegationDepth'' = Inr n"
      "normalizeAncestorChain ?ch ''ancestorChain'' (if nullish ?ch then None else Some n) par = Inr chain"
      "normalizeId (getp args ''delegationId'') ''delegationId'' 3 240 = Inr did" "normalizeId (getp args ''tenantId'') ''tenantId'' 1 128 = Inr ten"
      "normalizeHexHash (getp args ''childAgreementHash'') ''childAgreementHash'' = Inr chi"
      "normalizeId (getp args ''delegatorAgentId'') ''delegatorAgentId'' 3 128 = Inr dor" "normalizeId (getp args ''delegateeAgentId'') ''delegateeAgentId'' 3 128 = Inr dee"
      "assertPositiveSafeInt (getp args ''budgetCapCents'') ''budgetCapCents'' = Inr b" "normalizeCurrency (getp args ''currency'') ''currency'' = Inr cur"
      "assertNonNegativeSafeInt (getp args ''maxDelegationDepth'') ''maxDelegationDepth'' = Inr m"
    and nz: "normalizeForCanonicalJson (JObj (coreProps did ten par chi dor dee (js_Number (getp args ''budgetCapCents'')) cur
        (js_Number (getp args ''delegationDepth'')) (js_Number (getp args ''maxDelegationDepth'')) t chain)) ''$'' False = Inr normalized"
    and c: "\<not> m < n" "par \<noteq> chi" and h: "computeAgreementDelegationHashV1 H normalized = Inr h"
    and d: "normalizeForCanonicalJson (JObj (spread (own_props normalized)
            [(''delegationHash'', JStr h), (''status'', JStr ''active''), (''revision'', JInt 0), (''updatedAt'', JStr t)])) ''$'' False = Inr d"
    unfolding buildAgreementDelegationV1_def andThen_Inr_iff throwIf_Inr_iff by (elim exE conjE) (rule that; assumption)
  define core where "core = coreProps did ten par chi dor dee (js_Number (getp args ''budgetCapCents'')) cur
        (js_Number (getp args ''delegationDepth'')) (js_Number (getp args ''maxDelegationDepth'')) t chain"
  have iso: "is_iso t" using s(1) by (rule iso_of)
  have ph: "is_sha256_hex par" "is_sha256_hex chi" using s(2,7) normalizeHexHash_Inr by blast+
  then have "par \<noteq> []" by (auto simp: is_sha256_hex_def)
  then have "good_chain chain n par" using s(4) chain_Inr by blast
  then have shape: "core_shape core" unfolding core_def
    using s ph c iso by (intro core_shape.intros[where n = n and m = m])
      (auto simp: safe_num_def assertPositiveSafeInt_iff assertNonNegativeSafeInt_iff isSafeNumber_def dest: normalizeId_Inr normalizeCurrency_Inr)
  have n: "normalized = JObj core" "neg_zero_free (JObj core)"
    using nz core_literal[OF shape] unfolding core_def[symmetric] by (simp_all add: normalize_literal)
  let ?rest = "[(''delegationHash'', JStr h), (''status'', JStr ''active''), (''revision'', JInt 0), (''updatedAt'', JStr t)]"
  have "plain_keys (core @ ?rest)" using core_literal[OF shape] coreProps_keys[OF shape]
    by (auto simp: plain_keys_def plain_key_def mutable_fields_def is_digit_def)
  then have sp: "spread core ?rest = core @ ?rest" "literal_doc (JObj (core @ ?rest))"
    using core_literal[OF shape] by (simp_all add: spread_plain)
  have "d = JObj (core @ ?rest)" using d sp by (simp add: n own_props_def normalize_literal)
  moreover have "is_sha256_hex h" using h hex by (auto simp: computeAgreementDelegationHashV1_def andThen_Inr_iff)
  ultimately show ?thesis using that shape n h iso by blast
qed

lemma replace_prop_append: "k \<notin> fst ` set ps \<Longrightarrow> replace_prop k v (ps @ qs) = ps @ replace_prop k v qs"
  by (induction ps) auto

lemma put_prop_append: "k \<notin> fst ` set ps \<Longrightarrow> array_index k = None \<Longrightarrow> put_prop k v (ps @ qs) = ps @ put_prop k v qs"
  by (auto simp: put_prop_def replace_prop_append insert_plain)

lemma map_fst_replace: "map fst (replace_prop k v ps) = map fst ps"
  by (induction ps) auto

lemma set_replace_prop: "fst ` set (replace_prop k v ps) = fst ` set ps"
  by (metis map_fst_replace set_map)

lemma put_prop_keys: "array_index k = None \<Longrightarrow> fst ` set (put_prop k v ps) = insert k (fst ` set ps)"
  by (auto simp: put_prop_def set_replace_prop insert_plain)

lemma literal_replace: "list_all (\<lambda>p. literal_doc (snd p)) ps \<Longrightarrow> literal_doc v \<Longrightarrow> list_all (\<lambda>p. literal_doc (snd p)) (replace_prop k v ps)"
  by (induction ps) auto

lemma literal_put:
  assumes "literal_doc (JObj ps)" and "plain_key k" and "literal_doc v"
  shows "literal_doc (JObj (put_prop k v ps))"
  using assms literal_replace[of ps v k] unfolding put_prop_def
  by (auto simp: plain_keys_def plain_key_def map_fst_replace insert_plain)

lemma mutable_plain: "k \<in> set mutable_fields \<Longrightarrow> plain_key k"
  by (auto simp: mutable_fields_def plain_key_def is_digit_def)

lemma spread_core:
  assumes "core_shape core" and "fst ` set qs \<subseteq> set mutable_fields"
  shows "spread (core @ rest) qs = core @ spread rest qs"
  using assms
proof (induction qs arbitrary: rest)
  case Nil
  then show ?case by (simp add: spread_def)
next
  case (Cons q qs)
  obtain k v where q: "q = (k, v)" by (cases q)
  have k: "k \<in> set mutable_fields" using Cons.prems by (simp add: q)
  then have "k \<notin> fst ` set core" "array_index k = None" using coreProps_keys[OF Cons.prems(1)] mutable_plain by (auto simp: plain_key_def)
  then have "put_prop k v (core @ rest) = core @ put_prop k v rest" by (rule put_prop_append)
  then have "spread (core @ rest) (q # qs) = spread (core @ put_prop k v rest) qs" by (simp add: spread_def q)
  also have "\<dots> = core @ spread (put_prop k v rest) qs" using Cons.prems by (intro Cons.IH) auto
  finally show ?case by (simp add: spread_def q)
qed

lemma spread_literal:
  assumes "literal_doc (JObj ps)" and "\<forall>q \<in> set qs. plain_key (fst q) \<and> literal_doc (snd q)"
  shows "literal_doc (JObj (spread ps qs))"
  using assms
proof (induction qs arbitrary: ps)
  case Nil
  then show ?case by (simp add: spread_def)
next
  case (Cons q qs)
  then have "literal_doc (JObj (spread (put_prop (fst q) (snd q) ps) qs))" by (intro Cons.IH literal_put) auto
  then show ?case by (simp add: spread_def case_prod_unfold)
qed

lemma spread_keys: "\<forall>q \<in> set qs. array_index (fst q) = None \<Longrightarrow> fst ` set (spread ps qs) = fst ` set ps \<union> fst ` set qs"
proof (induction qs arbitrary: ps)
  case Nil
  then show ?case by (simp add: spread_def)
next
  case (Cons q qs)
  have "fst ` set (spread (put_prop (fst q) (snd q) ps) qs) = fst ` set (put_prop (fst q) (snd q) ps) \<union> fst ` set qs"
    using Cons by simp
  then show ?case using Cons.prems by (simp add: spread_def case_prod_unfold put_prop_keys)
qed

text \<open>Metadata as JSON gives it: anything that is not an object is ignored.\<close>

definition json_metadata :: "jsval \<Rightarrow> bool" where
  "json_metadata v \<longleftrightarrow> \<not> isObjectLike v \<or> literal_doc v"

definition delegation_form :: "(string \<Rightarrow> string) \<Rightarrow> props \<Rightarrow> string \<Rightarrow> jsval \<Rightarrow> bool" where
  "delegation_form H core h d \<longleftrightarrow> core_shape core \<and> computeAgreementDelegationHashV1 H (JObj core) = Inr h \<and> is_sha256_hex h
     \<and> (\<exists>rest. d = JObj (core @ rest) \<and> good_rest h rest \<and> literal_doc d \<and> neg_zero_free d)"

lemma form_valid: "delegation_form H core h d \<Longrightarrow> validateAgreementDelegationV1 H d = Inr ()"
  using validate_good by (auto simp: delegation_form_def)

lemma form_getp:
  assumes "delegation_form H core h d"
  shows "getp d ''delegationHash'' = JStr h" and "\<exists>s \<in> set AGREEMENT_DELEGATION_STATUS. getp d ''status'' = JStr s"
    and "\<exists>r. getp d ''revision'' = JInt r \<and> is_safe r" and "k \<notin> set mutable_fields \<Longrightarrow> getp d k = getp (JObj core) k"
proof -
  from assms obtain rest where r: "d = JObj (core @ rest)" "core_shape core" "good_rest h rest" by (auto simp: delegation_form_def)
  have m: "x \<in> set mutable_fields" if "x \<in> {''delegationHash'', ''status'', ''revision''}" for x using that by (auto simp: mutable_fields_def)
  show "getp d ''delegationHash'' = JStr h" "\<exists>s \<in> set AGREEMENT_DELEGATION_STATUS. getp d ''status'' = JStr s"
    "\<exists>r. getp d ''revision'' = JInt r \<and> is_safe r" using r(3) getp_rest[OF r(2), of _ rest] m unfolding r(1) by (auto simp: good_rest_def)
  show "k \<notin> set mutable_fields \<Longrightarrow> getp d k = getp (JObj core) k"
    using getp_core[OF r(2)] r(3) unfolding r(1) good_rest_def by blast
qed

lemma form_terminal:
  assumes "delegation_form H core h d" and "getp d ''status'' \<noteq> JStr ''active''"
    and "resolveAgreementDelegationV1 H now d statusArg resolvedAt metadata = Inr d'"
  shows "d' = d"
proof -
  obtain s where s: "getp d ''status'' = JStr s" "s \<in> set AGREEMENT_DELEGATION_STATUS" using form_getp(2)[OF assms(1)] by blast
  then have "toLowerCase s \<noteq> ''active''" using status_norm[OF s(2)] assms(2) by simp
  then show ?thesis using assms(3) s(1) by (auto simp: resolveAgreementDelegationV1_def andThen_Inr_iff)
qed

lemma form_resolved:
  assumes form: "delegation_form H core h d" and act: "getp d ''status'' = JStr ''active''" and rev: "getp d ''revision'' = JInt r" "is_safe (r + 1)" "0 \<le> r"
    and res: "resolveAgreementDelegationV1 H now d statusArg resolvedAt metadata = Inr d'" and meta: "json_metadata metadata"
  shows "delegation_form H core h d' \<and> getp d' ''revision'' = JInt (r + 1) \<and> getp d' ''status'' \<in> {JStr ''settled'', JStr ''revoked''}
    \<and> (\<exists>s. normalizeStatus statusArg ''status'' = Inr s \<and> getp d' ''status'' = JStr s)"
proof -
  from form obtain rest where r: "d = JObj (core @ rest)" and core: "core_shape core" and rest: "good_rest h rest" and l: "literal_doc d" by (auto simp: delegation_form_def)
  have low: "toLowerCase (js_String (orElse (getp d ''status'') (JStr []))) = ''active''" using act by (simp add: toLowerCase_def lower_char_def)
  obtain s t where st: "normalizeStatus statusArg ''status'' = Inr s" "s \<noteq> ''active''" and t: "is_iso t"
    and e: "(if isObjectLike metadata then andThen (normalizeForCanonicalJson metadata ''$.metadata'' False) (\<lambda>meta.
            normalizeForCanonicalJson (JObj (put_prop ''metadata'' meta (resolvedProps d s t))) ''$'' False)
          else normalizeForCanonicalJson (JObj (resolvedProps d s t)) ''$'' False) = Inr d'"
  proof -
    let ?e = "\<lambda>s t. if isObjectLike metadata then andThen (normalizeForCanonicalJson metadata ''$.metadata'' False) (\<lambda>meta.
            normalizeForCanonicalJson (JObj (put_prop ''metadata'' meta (resolvedProps d s t))) ''$'' False)
          else normalizeForCanonicalJson (JObj (resolvedProps d s t)) ''$'' False"
    obtain s where s: "normalizeStatus statusArg ''status'' = Inr s"
      using res by (cases "normalizeStatus statusArg ''status''") (auto simp: resolveAgreementDelegationV1_def andThen_Inr_iff)
    obtain t where t: "assertIsoDate (orElse resolvedAt (JStr now)) ''resolvedAt'' = Inr t"
      using res by (cases "assertIsoDate (orElse resolvedAt (JStr now)) ''resolvedAt''") (auto simp: resolveAgreementDelegationV1_def andThen_Inr_iff s)
    have "s \<noteq> ''active''" "?e s t = Inr d'"
      using res form_valid[OF form] by (auto simp: resolveAgreementDelegationV1_def s t low throwIf_def split: if_splits)
    then show thesis using that s iso_of[OF t] by blast
  qed
  define P where "P ps \<longleftrightarrow> ps = resolvedProps d s t \<or> (\<exists>m. isObjectLike metadata \<and> normalizeForCanonicalJson metadata ''$.metadata'' False = Inr m
      \<and> ps = put_prop ''metadata'' m (resolvedProps d s t))" for ps
  have "\<exists>ps. normalizeForCanonicalJson (JObj ps) ''$'' False = Inr d' \<and> P ps"
  proof (cases "isObjectLike metadata")
    case True
    then obtain m where "normalizeForCanonicalJson metadata ''$.metadata'' False = Inr m"
      "normalizeForCanonicalJson (JObj (put_prop ''metadata'' m (resolvedProps d s t))) ''$'' False = Inr d'"
      using e by (auto simp: andThen_Inr_iff)
    then show ?thesis using True unfolding P_def by blast
  next
    case False
    then show ?thesis using e unfolding P_def by auto
  qed
  then obtain ps where d': "normalizeForCanonicalJson (JObj ps) ''$'' False = Inr d'" and ps: "ps = resolvedProps d s t \<or> (\<exists>m. isObjectLike metadata
      \<and> normalizeForCanonicalJson metadata ''$.metadata'' False = Inr m \<and> ps = put_prop ''metadata'' m (resolvedProps d s t))"
    unfolding P_def by blast
  let ?qs = "[(''status'', JStr s), (''resolvedAt'', JStr t), (''revision'', JInt (r + 1)), (''updatedAt'', JStr t)]"
  have rp: "resolvedProps d s t = core @ spread rest ?qs"
    using rev num_plus_one_safe[OF rev(2)] spread_core[OF core, of ?qs rest] by (simp add: resolvedProps_def own_props_def r mutable_fields_def)
  have "literal_doc (JObj (resolvedProps d s t))" unfolding rp using l spread_core[OF core, of ?qs rest] spread_literal[of "core @ rest" ?qs]
    by (simp add: r mutable_fields_def plain_key_def is_digit_def)
  have mk: "''metadata'' \<in> set mutable_fields" by (simp add: mutable_fields_def)
  then have cm: "''metadata'' \<notin> fst ` set core" "array_index ''metadata'' = None" using coreProps_keys[OF core] mutable_plain[OF mk] by (auto simp: plain_key_def)
  have lit: "literal_doc (JObj ps)"
    using ps meta literal_put[OF \<open>literal_doc (JObj (resolvedProps d s t))\<close> mutable_plain[OF mk]] \<open>literal_doc (JObj (resolvedProps d s t))\<close>
    by (auto simp: json_metadata_def normalize_literal)
  then have dps: "d' = JObj ps" "neg_zero_free (JObj ps)" using d' by (simp_all add: normalize_literal)
  have k: "\<forall>q \<in> set ?qs. array_index (fst q) = None" by (simp add: is_digit_def)
  have keys: "fst ` set (spread rest ?qs) \<subseteq> set mutable_fields" unfolding spread_keys[OF k] using rest by (auto simp: good_rest_def mutable_fields_def)
  obtain rest' where rest': "ps = core @ rest'" "fst ` set rest' \<subseteq> set mutable_fields"
      "\<And>k. k \<noteq> ''metadata'' \<Longrightarrow> getp (JObj rest') k = getp (JObj (spread rest ?qs)) k"
    using ps
  proof (elim disjE exE conjE)
    fix m assume a: "\<And>rest'. ps = core @ rest' \<Longrightarrow> fst ` set rest' \<subseteq> set mutable_fields
      \<Longrightarrow> (\<And>k. k \<noteq> ''metadata'' \<Longrightarrow> getp (JObj rest') k = getp (JObj (spread rest ?qs)) k) \<Longrightarrow> thesis"
      and m: "ps = put_prop ''metadata'' m (resolvedProps d s t)"
    show thesis
    proof (rule a)
      show "ps = core @ put_prop ''metadata'' m (spread rest ?qs)" using put_prop_append[OF cm] by (simp add: m rp)
      show "fst ` set (put_prop ''metadata'' m (spread rest ?qs)) \<subseteq> set mutable_fields" using keys mk by (simp add: put_prop_keys cm(2))
    qed simp
  qed (use keys rp in simp)
  have s: "s \<in> set AGREEMENT_DELEGATION_STATUS" using normalizeStatus_Inr[OF st(1)] .
  have "good_rest h rest'" unfolding good_rest_def
    using rest'(2,3) rest s rev t by (auto simp: good_rest_def intro!: exI[of _ "r + 1"])
  then have "delegation_form H core h d'" using form lit dps rest'(1) by (auto simp: delegation_form_def)
  moreover have "getp d' ''revision'' = JInt (r + 1)" "getp d' ''status'' = JStr s"
    using getp_rest[OF core, of _ rest'] rest'(3) by (simp_all add: dps rest'(1) mutable_fields_def)
  ultimately show ?thesis using s st by (auto simp: AGREEMENT_DELEGATION_STATUS_def)
qed

text \<open>What happens to a delegation: it is built, and resolution is asked for any number of times.\<close>

inductive delegation_history :: "(string \<Rightarrow> string) \<Rightarrow> jsval \<Rightarrow> jsval \<Rightarrow> bool" for H where
  built: "buildAgreementDelegationV1 H now args = Inr d \<Longrightarrow> delegation_history H d d"
| resolved: "delegation_history H b d \<Longrightarrow> resolveAgreementDelegationV1 H now d statusArg resolvedAt metadata = Inr d' \<Longrightarrow> json_metadata metadata
    \<Longrightarrow> delegation_history H b d'"

lemma history_form:
  assumes "delegation_history H b d" and hex: "\<And>x. is_sha256_hex (H x)"
  shows "\<exists>core h. delegation_form H core h b \<and> delegation_form H core h d
    \<and> (getp d ''status'' = JStr ''active'' \<and> getp d ''revision'' = JInt 0 \<and> d = b
      \<or> getp d ''status'' \<in> {JStr ''settled'', JStr ''revoked''} \<and> getp d ''revision'' = JInt 1)"
  using assms(1)
proof induction
  case (built now args d)
  obtain core h t where c: "core_shape core" "neg_zero_free (JObj core)" "computeAgreementDelegationHashV1 H (JObj core) = Inr h" "is_sha256_hex h" "is_iso t"
    and d: "d = JObj (core @ [(''delegationHash'', JStr h), (''status'', JStr ''active''), (''revision'', JInt 0), (''updatedAt'', JStr t)])"
    by (rule build_shape[OF built hex])
  let ?rest = "[(''delegationHash'', JStr h), (''status'', JStr ''active''), (''revision'', JInt 0), (''updatedAt'', JStr t)]"
  have g: "good_rest h ?rest" using c(5) by (auto simp: good_rest_def mutable_fields_def AGREEMENT_DELEGATION_STATUS_def is_safe_bounds intro!: exI[of _ 0])
  have "literal_doc d \<and> neg_zero_free d" using core_literal[OF c(1)] coreProps_keys[OF c(1)] c(2)
    by (auto simp: d plain_keys_def plain_key_def mutable_fields_def is_digit_def)
  then have "delegation_form H core h d" using c g d unfolding delegation_form_def by blast
  moreover have "getp d ''status'' = JStr ''active''" "getp d ''revision'' = JInt 0"
    using getp_rest[OF c(1), of _ ?rest] by (simp_all add: d mutable_fields_def)
  ultimately show ?case by blast
next
  case (resolved b d now statusArg resolvedAt metadata d')
  then obtain core h where f: "delegation_form H core h b" "delegation_form H core h d"
    and s: "getp d ''status'' = JStr ''active'' \<and> getp d ''revision'' = JInt 0 \<and> d = b
      \<or> getp d ''status'' \<in> {JStr ''settled'', JStr ''revoked''} \<and> getp d ''revision'' = JInt 1" by blast
  show ?case
  proof (cases "getp d ''status'' = JStr ''active''")
    case True
    then have "getp d ''revision'' = JInt 0" using s by auto
    then show ?thesis using form_resolved[OF f(2) True _ _ _ resolved.hyps(2,3), of 0] f(1) by (auto simp: is_safe_bounds)
  next
    case False
    then show ?thesis using form_terminal[OF f(2) False resolved.hyps(2)] f s by blast
  qed
qed

text \<open>C15: The life of a delegation. Whatever is asked of a built delegation, the document stays valid and keeps its
  hash and every field under it. It is active and as built at revision 0, or settled or revoked at revision 1;
  once settled or revoked, asking for another resolution changes nothing.\<close>

theorem delegation_lifecycle:
  assumes "delegation_history H b d" and "\<And>x. is_sha256_hex (H x)"
  shows "validateAgreementDelegationV1 H d = Inr () \<and> getp d ''delegationHash'' = getp b ''delegationHash''
    \<and> (\<forall>k. k \<notin> set mutable_fields \<longrightarrow> getp d k = getp b k)
    \<and> (getp d ''status'' = JStr ''active'' \<and> getp d ''revision'' = JInt 0 \<and> d = b
      \<or> getp d ''status'' \<in> {JStr ''settled'', JStr ''revoked''} \<and> getp d ''revision'' = JInt 1
        \<and> (\<forall>now statusArg resolvedAt metadata d'. resolveAgreementDelegationV1 H now d statusArg resolvedAt metadata = Inr d' \<longrightarrow> d' = d))"
proof -
  obtain core h where f: "delegation_form H core h b" "delegation_form H core h d"
    and s: "getp d ''status'' = JStr ''active'' \<and> getp d ''revision'' = JInt 0 \<and> d = b
      \<or> getp d ''status'' \<in> {JStr ''settled'', JStr ''revoked''} \<and> getp d ''revision'' = JInt 1"
    using history_form[OF assms] by blast
  have "getp d ''status'' \<in> {JStr ''settled'', JStr ''revoked''} \<Longrightarrow> getp d ''status'' \<noteq> JStr ''active''" by auto
  then show ?thesis using form_valid[OF f(2)] form_getp(1)[OF f(1)] form_getp(1)[OF f(2)] form_getp(4)[OF f(1)] form_getp(4)[OF f(2)]
      form_terminal[OF f(2)] s by (metis (full_types))
qed

section \<open>Example\<close>

definition const_hash :: "string \<Rightarrow> string" where
  "const_hash x = replicate 64 (CHR ''0'')"

definition sample_hash :: "char \<Rightarrow> string" where
  "sample_hash c = replicate 64 c"

definition delegation_args :: jsval where
  "delegation_args = JObj [(''delegationId'', JStr ''dlg_1''), (''tenantId'', JStr ''t''), (''parentAgreementHash'', JStr (sample_hash (CHR ''a''))),
     (''childAgreementHash'', JStr (sample_hash (CHR ''b''))), (''delegatorAgentId'', JStr ''agt_a''), (''delegateeAgentId'', JStr ''agt_b''),
     (''budgetCapCents'', JInt 500), (''delegationDepth'', JInt 1), (''maxDelegationDepth'', JInt 2),
     (''ancestorChain'', JArr [JStr (sample_hash (CHR ''a''))]), (''createdAt'', JStr ''2026-01-01T00:00:00.000Z'')]"

definition sample_core :: props where
  "sample_core = coreProps ''dlg_1'' ''t'' (sample_hash (CHR ''a'')) (sample_hash (CHR ''b'')) ''agt_a'' ''agt_b'' (num_of_int 500) ''USD''
     (num_of_int 1) (num_of_int 2) ''2026-01-01T00:00:00.000Z'' (Some [sample_hash (CHR ''a'')])"

definition sample_active :: jsval where
  "sample_active = JObj (sample_core @ [(''delegationHash'', JStr (sample_hash (CHR ''0''))), (''status'', JStr ''active''), (''revision'', JInt 0),
     (''updatedAt'', JStr ''2026-01-01T00:00:00.000Z'')])"

definition sample_settled :: jsval where
  "sample_settled = JObj (sample_core @ [(''delegationHash'', JStr (sample_hash (CHR ''0''))), (''status'', JStr ''settled''), (''revision'', JInt 1),
     (''updatedAt'', JStr ''2026-01-02T00:00:00.000Z''), (''resolvedAt'', JStr ''2026-01-02T00:00:00.000Z'')])"

lemma sample_fields:
  "assertIsoDate (orElse (getp delegation_args ''createdAt'') (JStr [])) ''createdAt'' = Inr ''2026-01-01T00:00:00.000Z''"
  "normalizeHexHash (getp delegation_args ''parentAgreementHash'') ''parentAgreementHash'' = Inr (sample_hash (CHR ''a''))"
  "assertNonNegativeSafeInt (getp delegation_args ''delegationDepth'') ''delegationDepth'' = Inr 1"
  "normalizeAncestorChain (getp delegation_args ''ancestorChain'') ''ancestorChain'' (if nullish (getp delegation_args ''ancestorChain'') then None else Some 1)
     (sample_hash (CHR ''a'')) = Inr (Some [sample_hash (CHR ''a'')])"
  "normalizeId (getp delegation_args ''delegationId'') ''delegationId'' 3 240 = Inr ''dlg_1''"
  "normalizeId (getp delegation_args ''tenantId'') ''tenantId'' 1 128 = Inr ''t''"
  "normalizeHexHash (getp delegation_args ''childAgreementHash'') ''childAgreementHash'' = Inr (sample_hash (CHR ''b''))"
  "normalizeId (getp delegation_args ''delegatorAgentId'') ''delegatorAgentId'' 3 128 = Inr ''agt_a''"
  "normalizeId (getp delegation_args ''delegateeAgentId'') ''delegateeAgentId'' 3 128 = Inr ''agt_b''"
  "assertPositiveSafeInt (getp delegation_args ''budgetCapCents'') ''budgetCapCents'' = Inr 500"
  "normalizeCurrency (getp delegation_args ''currency'') ''currency'' = Inr ''USD''"
  "assertNonNegativeSafeInt (getp delegation_args ''maxDelegationDepth'') ''maxDelegationDepth'' = Inr 2"
  "js_Number (getp delegation_args ''budgetCapCents'') = num_of_int 500" "js_Number (getp delegation_args ''delegationDepth'') = num_of_int 1"
  "js_Number (getp delegation_args ''maxDelegationDepth'') = num_of_int 2" "sample_hash (CHR ''a'') \<noteq> sample_hash (CHR ''b'')"
  by code_simp+

lemma sample_core_literal: "literal_doc (JObj sample_core)" "neg_zero_free (JObj sample_core)"
  by (simp_all add: sample_core_def coreProps_def plain_keys_def plain_key_def is_digit_def)

lemma sample_active_literal: "literal_doc sample_active" "neg_zero_free sample_active"
  by (simp_all add: sample_active_def sample_core_def coreProps_def plain_keys_def plain_key_def is_digit_def)

lemma sample_core_ok: "normalizeForCanonicalJson (JObj sample_core) ''$'' False = Inr (JObj sample_core)"
  "computeAgreementDelegationHashV1 const_hash (JObj sample_core) = Inr (sample_hash (CHR ''0''))"
  "normalizeForCanonicalJson (JObj (spread (own_props (JObj sample_core)) [(''delegationHash'', JStr (sample_hash (CHR ''0''))), (''status'', JStr ''active''),
     (''revision'', JInt 0), (''updatedAt'', JStr ''2026-01-01T00:00:00.000Z'')])) ''$'' False = Inr sample_active"
proof -
  have "without mutable_fields sample_core = sample_core"
    by (intro without_none) (simp add: sample_core_def coreProps_def mutable_fields_def)
  then show n: "normalizeForCanonicalJson (JObj sample_core) ''$'' False = Inr (JObj sample_core)"
    "computeAgreementDelegationHashV1 const_hash (JObj sample_core) = Inr (sample_hash (CHR ''0''))"
    using sample_core_literal canonicalize_literal[OF sample_core_literal]
    by (auto simp: computeAgreementDelegationHashV1_def own_props_def assertPlainObject_def isObjectLike_def canonicalJsonStringify_def const_hash_def sample_hash_def)
  have "plain_keys (sample_core @ [(''delegationHash'', JStr (sample_hash (CHR ''0''))), (''status'', JStr ''active''),
     (''revision'', JInt 0), (''updatedAt'', JStr ''2026-01-01T00:00:00.000Z'')])" using sample_active_literal(1) unfolding sample_active_def literal_doc.simps by blast
  from spread_plain[OF this] show "normalizeForCanonicalJson (JObj (spread (own_props (JObj sample_core)) [(''delegationHash'', JStr (sample_hash (CHR ''0''))), (''status'', JStr ''active''),
     (''revision'', JInt 0), (''updatedAt'', JStr ''2026-01-01T00:00:00.000Z'')])) ''$'' False = Inr sample_active"
    using sample_active_literal by (simp add: own_props_def sample_active_def[symmetric])
qed

lemma sample_built: "buildAgreementDelegationV1 const_hash [] delegation_args = Inr sample_active"
  unfolding buildAgreementDelegationV1_def sample_fields andThen_simps sample_core_def[symmetric] sample_core_ok
  using sample_fields(16) by simp

lemma const_hash_hex: "is_sha256_hex (const_hash x)"
  by (simp add: const_hash_def is_sha256_hex_def is_hex_char_def is_digit_def list_all_iff)

lemma sample_settled_props: "JObj (resolvedProps sample_active ''settled'' ''2026-01-02T00:00:00.000Z'') = sample_settled"
proof -
  have "num_plus_one (num_of_int 0) = num_of_int 1" using num_plus_one_safe[of 0] by (simp add: is_safe_bounds)
  then show ?thesis
    by (simp add: resolvedProps_def sample_active_def sample_settled_def sample_core_def coreProps_def own_props_def spread_def put_prop_def is_digit_def)
qed

lemma sample_steps:
  "normalizeStatus (JStr ''settled'') ''status'' = Inr ''settled''" "toLowerCase (js_String (orElse (getp sample_active ''status'') (JStr []))) = ''active''"
  "assertIsoDate (orElse JNull (JStr ''2026-01-02T00:00:00.000Z'')) ''resolvedAt'' = Inr ''2026-01-02T00:00:00.000Z''" "\<not> isObjectLike JNull"
  by code_simp+

lemma sample_settled_normal: "normalizeForCanonicalJson sample_settled ''$'' False = Inr sample_settled"
  by (intro normalize_literal_id) (simp_all add: sample_settled_def sample_core_def coreProps_def plain_keys_def plain_key_def is_digit_def)

lemma sample_valid: "validateAgreementDelegationV1 const_hash sample_active = Inr ()"
  using history_form[OF built[OF sample_built] const_hash_hex] form_valid by blast

lemma sample_resolved: "resolveAgreementDelegationV1 const_hash ''2026-01-02T00:00:00.000Z'' sample_active (JStr ''settled'') JNull JNull = Inr sample_settled"
  unfolding resolveAgreementDelegationV1_def sample_valid sample_steps andThen_simps sample_settled_props sample_settled_normal
  using sample_steps(4) by simp

theorem delegation_lifecycle_witness: "validateAgreementDelegationV1 const_hash sample_settled = Inr ()"
proof -
  have "json_metadata JNull" by (simp add: json_metadata_def isObjectLike_def)
  then have "delegation_history const_hash sample_active sample_settled"
    by (rule delegation_history.resolved[OF delegation_history.built[OF sample_built] sample_resolved])
  from delegation_lifecycle[OF this const_hash_hex] show ?thesis by blast
qed

end
