(* ===== verification/DelegationGraph.thy ===== *)
theory DelegationGraph
  imports AgreementDelegation
begin

text \<open>
  The graph part of \<^verbatim>\<open>src/core/agreement-delegation.js\<close>.
\<close>

section \<open>The delegation graph\<close>

record link =
  lk_delegationId :: jsval
  lk_parent :: string
  lk_child :: string

text \<open>\<^verbatim>\<open>Array.isArray(v) ? v : []\<close>, without the entries the loops skip.\<close>

definition delegation_objects :: "jsval \<Rightarrow> jsval list" where
  "delegation_objects v = (case v of JArr xs \<Rightarrow> filter isObjectLike xs | _ \<Rightarrow> [])"

definition lower_or_empty :: "jsval \<Rightarrow> string" where
  "lower_or_empty v = (case v of JStr s \<Rightarrow> toLowerCase s | _ \<Rightarrow> [])"

text \<open>The link an entry contributes, unless it is revoked or incomplete.\<close>

definition link_of :: "jsval \<Rightarrow> link option" where
  "link_of d =
     (let parent = lower_or_empty (getp d ''parentAgreementHash''); child = lower_or_empty (getp d ''childAgreementHash'')
      in if toLowerCase (js_String (orElse (getp d ''status'') (JStr []))) = ''revoked'' \<or> parent = [] \<or> child = [] then None
         else Some \<lparr>lk_delegationId = orElse (getp d ''delegationId'') JNull, lk_parent = parent, lk_child = child\<rparr>)"

type_synonym delegation_index = "(string \<times> link) list \<times> (string \<times> link list) list"

definition links_at :: "(string \<times> link list) list \<Rightarrow> string \<Rightarrow> link list" where
  "links_at m p = (case map_of m p of None \<Rightarrow> [] | Some ls \<Rightarrow> ls)"

definition indexStep :: "delegation_index \<Rightarrow> jsval \<Rightarrow> delegation_index res" where
  "indexStep = (\<lambda>(byChild, childrenByParent) d.
     case link_of d of
       None \<Rightarrow> Inr (byChild, childrenByParent)
     | Some l \<Rightarrow>
         if (\<exists>k \<in> set_option (map_of byChild (lk_child l)). lk_parent k \<noteq> lk_parent l)
         then Inl (CodedError ''AGREEMENT_DELEGATION_MULTIPLE_PARENTS'' ''multiple parents found for childAgreementHash'')
         else Inr (AList.update (lk_child l) l byChild,
                   AList.update (lk_parent l) (links_at childrenByParent (lk_parent l) @ [l]) childrenByParent))"

definition indexDelegations :: "(link list \<Rightarrow> link list) \<Rightarrow> jsval \<Rightarrow> delegation_index res" where
  "indexDelegations lsort delegations =
     andThen (foldRes indexStep ([], []) (delegation_objects delegations)) (\<lambda>(byChild, childrenByParent).
       Inr (byChild, map (\<lambda>(p, ls). (p, lsort ls)) childrenByParent))"

definition delegation_id :: "jsval \<Rightarrow> string" where
  "delegation_id d = (case getp d ''delegationId'' of JStr s \<Rightarrow> trim s | _ \<Rightarrow> [])"

definition indexByIdStep :: "(string \<times> jsval) list \<Rightarrow> jsval \<Rightarrow> (string \<times> jsval) list res" where
  "indexByIdStep byId d =
     (if delegation_id d = [] then Inr byId
      else if map_of byId (delegation_id d) \<noteq> None
      then Inl (CodedError ''AGREEMENT_DELEGATION_DUPLICATE_ID'' ''duplicate delegationId in input set'')
      else Inr (AList.update (delegation_id d) d byId))"

definition indexDelegationsById :: "jsval \<Rightarrow> (string \<times> jsval) list res" where
  "indexDelegationsById delegations = foldRes indexByIdStep [] (delegation_objects delegations)"

section \<open>Ledger summary\<close>

record delegation_counts =
  dc_total :: int
  dc_active :: int
  dc_settled :: int
  dc_revoked :: int
  dc_unknown :: bool

definition delegation_status :: "jsval \<Rightarrow> string" where
  "delegation_status d = toLowerCase (trim (js_String (orElse (getp d ''status'') (JStr []))))"

definition countDelegation :: "delegation_counts \<Rightarrow> jsval \<Rightarrow> delegation_counts" where
  "countDelegation c d =
     (let c = c\<lparr>dc_total := dc_total c + 1\<rparr>; s = delegation_status d
      in if s = ''active'' then c\<lparr>dc_active := dc_active c + 1\<rparr>
         else if s = ''settled'' then c\<lparr>dc_settled := dc_settled c + 1\<rparr>
         else if s = ''revoked'' then c\<lparr>dc_revoked := dc_revoked c + 1\<rparr>
         else c\<lparr>dc_unknown := True\<rparr>)"

definition ledgerInvariant :: "delegation_counts \<Rightarrow> jsval" where
  "ledgerInvariant c =
     (if dc_total c \<noteq> dc_active c + dc_settled c + dc_revoked c
      then JObj [(''ok'', JBool False), (''code'', JStr ''AGREEMENT_DELEGATION_LEDGER_IMBALANCED''),
                 (''message'', JStr ''active+settled+revoked must equal totalDelegations'')]
      else if dc_unknown c
      then JObj [(''ok'', JBool False), (''code'', JStr ''AGREEMENT_DELEGATION_STATUS_UNKNOWN''),
                 (''message'', JStr ''delegation has unsupported status'')]
      else JObj [(''ok'', JBool True), (''code'', JStr ''AGREEMENT_DELEGATION_LEDGER_INVARIANT_OK''),
                 (''message'', JStr ''active+settled+revoked equals total'')])"

definition summarizeAgreementDelegationLedgerV1 :: "jsval \<Rightarrow> jsval res" where
  "summarizeAgreementDelegationLedgerV1 delegations =
     (let c = foldl countDelegation \<lparr>dc_total = 0, dc_active = 0, dc_settled = 0, dc_revoked = 0, dc_unknown = False\<rparr>
                (delegation_objects delegations)
      in normalizeForCanonicalJson
           (JObj [(''schemaVersion'', JStr ''AgreementDelegationLedger.v1''), (''totalDelegations'', JInt (dc_total c)),
                  (''activeCount'', JInt (dc_active c)), (''settledCount'', JInt (dc_settled c)), (''revokedCount'', JInt (dc_revoked c)),
                  (''terminalCount'', JInt (dc_settled c + dc_revoked c)), (''unresolvedCount'', JInt (dc_active c)),
                  (''countsByStatus'', JObj [(''active'', JInt (dc_active c)), (''settled'', JInt (dc_settled c)), (''revoked'', JInt (dc_revoked c))]),
                  (''invariant'', ledgerInvariant c)]) ''$'' False)"

section \<open>Plans\<close>

text \<open>The walk from a child to the top, as the links it passes.\<close>

function cascadeWalk :: "(string \<times> link) list \<Rightarrow> string list \<Rightarrow> string \<Rightarrow> link list res" where
  "cascadeWalk byChild seen cursor =
     (case map_of byChild cursor of
        None \<Rightarrow> Inr []
      | Some l \<Rightarrow>
          if lk_parent l \<in> set seen then Inl (CodedError ''AGREEMENT_DELEGATION_CYCLE'' ''cycle detected in delegation graph'')
          else andThen (cascadeWalk byChild (lk_parent l # seen) (lk_parent l)) (\<lambda>ls. Inr (l\<lparr>lk_child := cursor\<rparr> # ls)))"
  by pat_completeness auto
termination
proof (relation "measure (\<lambda>(byChild, seen, cursor). card (lk_parent ` snd ` set byChild - set seen))", goal_cases)
  case 1
  then show ?case by simp
next
  case (2 byChild seen cursor l)
  then have "lk_parent l \<in> lk_parent ` snd ` set byChild - set seen"
    by (metis DiffI image_eqI map_of_SomeD snd_conv)
  moreover have "lk_parent ` snd ` set byChild - set (lk_parent l # seen) = lk_parent ` snd ` set byChild - set seen - {lk_parent l}" by auto
  ultimately show ?case by (simp only: in_measure split_conv card_Diff1_less finite_Diff finite_imageI finite_set)
qed

definition js_of_edge :: "link \<Rightarrow> jsval" where
  "js_of_edge l = JObj [(''delegationId'', lk_delegationId l), (''childAgreementHash'', JStr (lk_child l)), (''parentAgreementHash'', JStr (lk_parent l))]"

definition cascadeSettlementCheck :: "(link list \<Rightarrow> link list) \<Rightarrow> jsval \<Rightarrow> jsval \<Rightarrow> jsval res" where
  "cascadeSettlementCheck lsort delegations fromChildHash =
     andThen (normalizeHexHash fromChildHash ''fromChildHash'') (\<lambda>start.
     andThen (indexDelegations lsort delegations) (\<lambda>(byChild, _).
     andThen (cascadeWalk byChild [start] start) (\<lambda>ls.
       normalizeForCanonicalJson
         (JObj [(''ok'', JBool True), (''kind'', JStr ''cascade_settlement_check_v1''), (''fromChildHash'', JStr start),
                (''parentAgreementHashes'', JArr (map (\<lambda>l. JStr (lk_parent l)) ls)), (''edges'', JArr (map js_of_edge ls))])
         ''$'' False)))"

record unwind_state =
  us_seen :: "string list"
  us_ordered :: "string list"
  us_edges :: "link list"

text \<open>One link of the inner loop of the unwind: every link is an edge, a new child is queued.\<close>

definition unwindVisit :: "string \<Rightarrow> link \<Rightarrow> unwind_state \<times> string list \<Rightarrow> unwind_state \<times> string list" where
  "unwindVisit parent l = (\<lambda>(st, queue).
     let st = st\<lparr>us_edges := us_edges st @ [l\<lparr>lk_parent := parent\<rparr>]\<rparr>
     in if lk_child l \<in> set (us_seen st) then (st, queue)
        else (st\<lparr>us_seen := lk_child l # us_seen st, us_ordered := us_ordered st @ [lk_child l]\<rparr>, queue @ [lk_child l]))"

definition unwind_children :: "(string \<times> link list) list \<Rightarrow> string set" where
  "unwind_children m = (\<Union>e \<in> set m. lk_child ` set (snd e))"

lemma links_at_children: "l \<in> set (links_at m p) \<Longrightarrow> lk_child l \<in> unwind_children m"
  by (cases "map_of m p") (auto simp: links_at_def unwind_children_def dest!: map_of_SomeD intro!: bexI imageI)

lemma finite_unwind_children [simp]: "finite (unwind_children m)"
  by (simp add: unwind_children_def)

lemma unwindVisit_measure:
  assumes "lk_child l \<in> A" and "finite A" and "unwindVisit p l (st, q) = (st', q')"
  shows "card (A - set (us_seen st')) + length q' = card (A - set (us_seen st)) + length q"
proof (cases "lk_child l \<in> set (us_seen st)")
  case True
  then show ?thesis using assms(3) by (auto simp: unwindVisit_def)
next
  case False
  have "A - set (lk_child l # us_seen st) = A - set (us_seen st) - {lk_child l}" by auto
  moreover have "card (A - set (us_seen st) - {lk_child l}) + 1 = card (A - set (us_seen st))"
    using False assms(1,2) by (metis DiffI Suc_eq_plus1 card.remove finite_Diff plus_1_eq_Suc add.commute)
  moreover have "us_seen st' = lk_child l # us_seen st" "length q' = length q + 1" using assms(3) False by (auto simp: unwindVisit_def)
  ultimately show ?thesis by (simp only:)
qed

lemma unwindVisits_measure:
  assumes "\<forall>l \<in> set ls. lk_child l \<in> A" and "finite A" and "fold (unwindVisit p) ls (st, q) = (st', q')"
  shows "card (A - set (us_seen st')) + length q' = card (A - set (us_seen st)) + length q"
  using assms
proof (induction ls arbitrary: st q)
  case Nil
  then show ?case by simp
next
  case (Cons l ls)
  obtain st1 q1 where v: "unwindVisit p l (st, q) = (st1, q1)" by fastforce
  have "card (A - set (us_seen st')) + length q' = card (A - set (us_seen st1)) + length q1"
    using Cons.IH[of st1 q1] Cons.prems v by simp
  then show ?case using unwindVisit_measure[OF _ Cons.prems(2) v] Cons.prems(1) by simp
qed

text \<open>The queue loop of \<^verbatim>\<open>refundUnwindCheck\<close>: every step takes one agreement off the queue, and an agreement is
  queued at most once.\<close>

function unwindLoop :: "(string \<times> link list) list \<Rightarrow> unwind_state \<Rightarrow> string list \<Rightarrow> unwind_state" where
  "unwindLoop m st [] = st"
| "unwindLoop m st (p # queue) = (case fold (unwindVisit p) (links_at m p) (st, queue) of (st', queue') \<Rightarrow> unwindLoop m st' queue')"
  by pat_completeness auto
termination
proof (relation "measure (\<lambda>(m, st, queue). card (unwind_children m - set (us_seen st)) + length queue)", goal_cases)
  case 1
  then show ?case by simp
next
  case (2 m st p queue st' queue')
  then have "card (unwind_children m - set (us_seen st')) + length queue' = card (unwind_children m - set (us_seen st)) + length queue"
    using unwindVisits_measure[of "links_at m p" "unwind_children m"] links_at_children by simp
  then show ?case by simp
qed

definition js_of_unwind_edge :: "link \<Rightarrow> jsval" where
  "js_of_unwind_edge l = JObj [(''delegationId'', lk_delegationId l), (''parentAgreementHash'', JStr (lk_parent l)), (''childAgreementHash'', JStr (lk_child l))]"

definition unwind_start :: "string \<Rightarrow> unwind_state" where
  "unwind_start start = \<lparr>us_seen = [start], us_ordered = [], us_edges = []\<rparr>"

definition refundUnwindCheck :: "(link list \<Rightarrow> link list) \<Rightarrow> jsval \<Rightarrow> jsval \<Rightarrow> jsval res" where
  "refundUnwindCheck lsort delegations fromParentHash =
     andThen (normalizeHexHash fromParentHash ''fromParentHash'') (\<lambda>start.
     andThen (indexDelegations lsort delegations) (\<lambda>(_, childrenByParent).
     let st = unwindLoop childrenByParent (unwind_start start) [start] in
       normalizeForCanonicalJson
         (JObj [(''ok'', JBool True), (''kind'', JStr ''refund_unwind_check_v1''), (''fromParentHash'', JStr start),
                (''childAgreementHashes'', JArr (map JStr (us_ordered st))), (''edges'', JArr (map js_of_unwind_edge (us_edges st)))])
         ''$'' False))"

section \<open>Executing a plan\<close>

record plan_operation =
  op_delegationId :: string
  op_result :: string
  op_fromStatus :: string
  op_toStatus :: string

definition js_of_operation :: "plan_operation \<Rightarrow> jsval" where
  "js_of_operation p = JObj [(''delegationId'', JStr (op_delegationId p)), (''result'', JStr (op_result p)),
     (''fromStatus'', JStr (op_fromStatus p)), (''toStatus'', JStr (op_toStatus p))]"

type_synonym plan_state = "(string \<times> jsval) list \<times> plan_operation list"

text \<open>\<^verbatim>\<open>updates.get(id) ?? byId.get(id)\<close>\<close>

definition current_of :: "(string \<times> jsval) list \<Rightarrow> (string \<times> jsval) list \<Rightarrow> string \<Rightarrow> jsval option" where
  "current_of updates byId k = (case map_of updates k of Some d \<Rightarrow> Some d | None \<Rightarrow> map_of byId k)"

definition planStep :: "(string \<Rightarrow> string) \<Rightarrow> string \<Rightarrow> string \<Rightarrow> string \<Rightarrow> jsval \<Rightarrow> (string \<times> jsval) list \<Rightarrow> plan_state \<Rightarrow> jsval \<Rightarrow> plan_state res" where
  "planStep H now nextStatus t metadata byId = (\<lambda>(updates, ops) edge.
     let k = delegation_id edge in
     if k = [] then Inl (CodedError ''AGREEMENT_DELEGATION_PLAN_EDGE_ID_REQUIRED'' ''delegationId is required on plan edge'')
     else case current_of updates byId k of
       None \<Rightarrow> Inl (CodedError ''AGREEMENT_DELEGATION_PLAN_EDGE_NOT_FOUND'' ''plan references unknown delegationId'')
     | Some current \<Rightarrow>
         let s = delegation_status current in
         if s \<noteq> ''active'' \<and> s \<noteq> nextStatus
         then Inl (CodedError ''AGREEMENT_DELEGATION_TERMINAL_CONFLICT'' ''delegation already resolved with conflicting terminal status'')
         else if s = nextStatus
         then Inr (updates, ops @ [\<lparr>op_delegationId = k, op_result = ''noop'', op_fromStatus = s, op_toStatus = nextStatus\<rparr>])
         else andThen (resolveAgreementDelegationV1 H now current (JStr nextStatus) (JStr t) metadata) (\<lambda>d'.
                Inr (AList.update k d' updates,
                     ops @ [\<lparr>op_delegationId = k, op_result = ''applied'', op_fromStatus = s, op_toStatus = nextStatus\<rparr>])))"

definition nextDelegations :: "(string \<times> jsval) list \<Rightarrow> jsval \<Rightarrow> jsval list" where
  "nextDelegations updates delegations =
     map (\<lambda>d. case map_of updates (delegation_id d) of Some d' \<Rightarrow> d' | None \<Rightarrow> d)
       (filter (\<lambda>d. delegation_id d \<noteq> []) (delegation_objects delegations))"

definition count_ops :: "string \<Rightarrow> plan_operation list \<Rightarrow> jsval" where
  "count_ops r ops = JInt (int (length (filter (\<lambda>p. op_result p = r) ops)))"

definition applyDelegationResolutionPlan ::
    "(string \<Rightarrow> string) \<Rightarrow> string \<Rightarrow> jsval \<Rightarrow> jsval \<Rightarrow> jsval \<Rightarrow> jsval \<Rightarrow> jsval \<Rightarrow> string \<Rightarrow> jsval res" where
  "applyDelegationResolutionPlan H now delegations edges targetStatus resolvedAt metadata resultKind =
     andThen (normalizeStatus targetStatus ''targetStatus'') (\<lambda>nextStatus.
     andThen (throwIf (nextStatus = ''active'') (TypeError ''targetStatus must be settled|revoked'')) (\<lambda>_.
     andThen (indexDelegationsById delegations) (\<lambda>byId.
     andThen (assertIsoDate (orElse resolvedAt (JStr now)) ''resolvedAt'') (\<lambda>t.
     andThen (foldRes (planStep H now nextStatus t metadata byId) ([], []) (case edges of JArr es \<Rightarrow> es | _ \<Rightarrow> [])) (\<lambda>(updates, ops).
     let nextDs = nextDelegations updates delegations in
     andThen (summarizeAgreementDelegationLedgerV1 (JArr nextDs)) (\<lambda>ledger.
       normalizeForCanonicalJson
         (JObj [(''ok'', JBool True), (''kind'', JStr resultKind), (''targetStatus'', JStr nextStatus), (''resolvedAt'', JStr t),
                (''operations'', JArr (map js_of_operation ops)),
                (''stats'', JObj [(''attempted'', JInt (int (length ops))), (''applied'', count_ops ''applied'' ops), (''noop'', count_ops ''noop'' ops)]),
                (''ledger'', ledger), (''delegations'', JArr nextDs)]) ''$'' False))))))"

text \<open>The three executors: compute a plan, apply it to the delegations, report both.\<close>

definition executePlan :: "(string \<Rightarrow> string) \<Rightarrow> string \<Rightarrow> jsval \<Rightarrow> jsval res \<Rightarrow> string \<Rightarrow> jsval \<Rightarrow> jsval \<Rightarrow> string \<Rightarrow> jsval res" where
  "executePlan H now delegations planRes targetStatus resolvedAt metadata resultKind =
     andThen planRes (\<lambda>plan.
     andThen (applyDelegationResolutionPlan H now delegations (getp plan ''edges'') (JStr targetStatus) resolvedAt metadata resultKind) (\<lambda>result.
       normalizeForCanonicalJson (JObj (spread (own_props result) [(''plan'', plan)])) ''$'' False))"

definition cascadeSettlementExecute :: "(string \<Rightarrow> string) \<Rightarrow> string \<Rightarrow> (link list \<Rightarrow> link list) \<Rightarrow> jsval \<Rightarrow> jsval \<Rightarrow> jsval \<Rightarrow> jsval \<Rightarrow> jsval res" where
  "cascadeSettlementExecute H now lsort delegations fromChildHash resolvedAt metadata =
     executePlan H now delegations (cascadeSettlementCheck lsort delegations fromChildHash) ''settled'' resolvedAt metadata ''cascade_settlement_execute_v1''"

definition cascadeUnwindExecute :: "(string \<Rightarrow> string) \<Rightarrow> string \<Rightarrow> (link list \<Rightarrow> link list) \<Rightarrow> jsval \<Rightarrow> jsval \<Rightarrow> jsval \<Rightarrow> jsval \<Rightarrow> jsval res" where
  "cascadeUnwindExecute H now lsort delegations fromChildHash resolvedAt metadata =
     executePlan H now delegations (cascadeSettlementCheck lsort delegations fromChildHash) ''revoked'' resolvedAt metadata ''cascade_unwind_execute_v1''"

definition refundUnwindExecute :: "(string \<Rightarrow> string) \<Rightarrow> string \<Rightarrow> (link list \<Rightarrow> link list) \<Rightarrow> jsval \<Rightarrow> jsval \<Rightarrow> jsval \<Rightarrow> jsval \<Rightarrow> jsval res" where
  "refundUnwindExecute H now lsort delegations fromParentHash resolvedAt metadata =
     executePlan H now delegations (refundUnwindCheck lsort delegations fromParentHash) ''revoked'' resolvedAt metadata ''refund_unwind_execute_v1''"

section \<open>What the index holds\<close>

definition links_of :: "jsval list \<Rightarrow> link list" where
  "links_of xs = List.map_filter link_of xs"

lemma links_of_simps [simp]: "links_of [] = []" "links_of (xs @ [d]) = links_of xs @ (case link_of d of None \<Rightarrow> [] | Some l \<Rightarrow> [l])"
  by (auto simp: links_of_def map_filter_def split: option.splits)

definition index_ok :: "link list \<Rightarrow> delegation_index \<Rightarrow> bool" where
  "index_ok ls = (\<lambda>(byChild, childrenByParent).
     (\<forall>c l. map_of byChild c = Some l \<longrightarrow> l \<in> set ls \<and> lk_child l = c)
   \<and> (\<forall>l \<in> set ls. \<exists>k. map_of byChild (lk_child l) = Some k \<and> lk_parent k = lk_parent l)
   \<and> (\<forall>p. links_at childrenByParent p = filter (\<lambda>l. lk_parent l = p) ls))"

lemma indexStep_ok:
  assumes "index_ok ls (bc, cp)" and "indexStep (bc, cp) d = Inr (bc', cp')"
  shows "index_ok (ls @ (case link_of d of None \<Rightarrow> [] | Some l \<Rightarrow> [l])) (bc', cp')"
proof (cases "link_of d")
  case None
  then show ?thesis using assms by (simp add: indexStep_def)
next
  case (Some l)
  then have n: "bc' = AList.update (lk_child l) l bc" "cp' = AList.update (lk_parent l) (links_at cp (lk_parent l) @ [l]) cp"
    and same: "\<forall>k. map_of bc (lk_child l) = Some k \<longrightarrow> lk_parent k = lk_parent l"
    using assms(2) by (auto simp: indexStep_def split: if_splits)
  have m: "map_of bc' = (map_of bc)(lk_child l \<mapsto> l)" "map_of cp' = (map_of cp)(lk_parent l \<mapsto> links_at cp (lk_parent l) @ [l])"
    by (simp_all add: n update_conv')
  have c: "links_at cp' p = links_at cp p @ (if p = lk_parent l then [l] else [])" for p
    using m(2) by (auto simp: links_at_def)
  have a: "\<And>c k. map_of bc c = Some k \<Longrightarrow> k \<in> set ls \<and> lk_child k = c" "\<And>k. k \<in> set ls \<Longrightarrow> \<exists>k'. map_of bc (lk_child k) = Some k' \<and> lk_parent k' = lk_parent k"
    "\<And>p. links_at cp p = filter (\<lambda>l. lk_parent l = p) ls" using assms(1) by (auto simp: index_ok_def)
  have "\<exists>k'. map_of bc' (lk_child k) = Some k' \<and> lk_parent k' = lk_parent k" if "k \<in> set ls" for k
    using a(2)[OF that] same by (cases "lk_child k = lk_child l") (auto simp: m(1))
  moreover have "k \<in> set (ls @ [l]) \<and> lk_child k = c" if "map_of bc' c = Some k" for c k
    using that a(1) by (auto simp: m(1) split: if_splits)
  moreover have "\<exists>k'. map_of bc' (lk_child l) = Some k' \<and> lk_parent k' = lk_parent l" by (simp add: m(1))
  ultimately show ?thesis unfolding index_ok_def Some split_conv option.case by (simp add: a(3) c)
qed

lemma indexed_ok: "foldRes indexStep ([], []) xs = Inr idx \<Longrightarrow> index_ok (links_of xs) idx"
proof (induction xs arbitrary: idx rule: rev_induct)
  case Nil
  then show ?case by (auto simp: index_ok_def links_at_def)
next
  case (snoc d xs)
  then obtain bc cp where "foldRes indexStep ([], []) xs = Inr (bc, cp)" "indexStep (bc, cp) d = Inr idx"
    by (auto simp: foldRes_append andThen_Inr_iff)
  then show ?case using snoc.IH indexStep_ok by (cases idx) fastforce
qed

text \<open>The edges of the graph, from a child to its parent, that the delegations in force give.\<close>

definition up :: "jsval \<Rightarrow> (string \<times> string) set" where
  "up ds = {(lk_child l, lk_parent l) | l. l \<in> set (links_of (delegation_objects ds))}"

lemma links_at_map: "links_at (map (\<lambda>(p, ls). (p, f ls)) m) p = (case map_of m p of None \<Rightarrow> [] | Some ls \<Rightarrow> f ls)"
  by (cases "map_of m p") (simp_all add: links_at_def map_of_map)

lemma index_graph:
  assumes "indexDelegations lsort ds = Inr (bc, cp)"
  shows "map_of bc c = None \<longleftrightarrow> (\<nexists>p. (c, p) \<in> up ds)"
    and "map_of bc c = Some l \<Longrightarrow> (c, p) \<in> up ds \<longleftrightarrow> p = lk_parent l"
    and "(\<And>xs. set (lsort xs) = set xs) \<Longrightarrow> lk_child ` set (links_at cp p) = {c. (c, p) \<in> up ds}"
proof -
  from assms obtain cp0 where f: "foldRes indexStep ([], []) (delegation_objects ds) = Inr (bc, cp0)" and cp: "cp = map (\<lambda>(p, ls). (p, lsort ls)) cp0"
    by (auto simp: indexDelegations_def andThen_Inr_iff)
  note ok = indexed_ok[OF f]
  show "map_of bc c = None \<longleftrightarrow> (\<nexists>p. (c, p) \<in> up ds)" using ok by (cases "map_of bc c") (auto simp: index_ok_def up_def)
  show "(c, p) \<in> up ds \<longleftrightarrow> p = lk_parent l" if "map_of bc c = Some l"
    using ok that by (auto simp: index_ok_def up_def)
  have "links_at cp0 p = filter (\<lambda>l. lk_parent l = p) (links_of (delegation_objects ds))" using ok by (simp add: index_ok_def)
  then have "set (links_at cp p) = {l \<in> set (links_of (delegation_objects ds)). lk_parent l = p}" if "\<And>xs. set (lsort xs) = set xs"
    using that unfolding cp links_at_map by (cases "map_of cp0 p") (auto simp: links_at_def filter_empty_conv eq_commute[of "[]"])
  then show "lk_child ` set (links_at cp p) = {c. (c, p) \<in> up ds}" if "\<And>xs. set (lsort xs) = set xs"
    using that by (auto simp: up_def)
qed

section \<open>Settlement plans\<close>

fun path_up :: "(string \<times> string) set \<Rightarrow> string \<Rightarrow> string list \<Rightarrow> bool" where
  "path_up R c [] = True"
| "path_up R c (p # ps) = ((c, p) \<in> R \<and> path_up R p ps)"

definition cycle_above :: "(string \<times> string) set \<Rightarrow> string \<Rightarrow> bool" where
  "cycle_above R c \<longleftrightarrow> (\<exists>x. (c, x) \<in> R\<^sup>* \<and> (x, x) \<in> R\<^sup>+)"

text \<open>The index as a function from a child to its parent.\<close>

definition indexes :: "(string \<times> link) list \<Rightarrow> (string \<times> string) set \<Rightarrow> bool" where
  "indexes bc R \<longleftrightarrow> (\<forall>c p. (c, p) \<in> R \<longleftrightarrow> (\<exists>l. map_of bc c = Some l \<and> p = lk_parent l))"

lemma index_indexes: "indexDelegations lsort ds = Inr (bc, cp) \<Longrightarrow> indexes bc (up ds)"
  unfolding indexes_def using index_graph(1,2) by (metis option.exhaust)

lemma trancl_step: "R `` {c} = {p} \<Longrightarrow> R\<^sup>+ `` {c} = insert p (R\<^sup>+ `` {p})"
  by (auto dest: tranclD intro: trancl_into_trancl2) (metis Image_singleton_iff rtranclD singletonD tranclD)

lemma walk_Inr:
  assumes "cascadeWalk bc seen cur = Inr ls" and "indexes bc R" and "cur \<in> set seen"
  shows "distinct (map lk_parent ls) \<and> set (map lk_parent ls) \<inter> set seen = {} \<and> set (map lk_parent ls) = R\<^sup>+ `` {cur}
    \<and> path_up R cur (map lk_parent ls) \<and> \<not> cycle_above R cur"
  using assms
proof (induction bc seen cur arbitrary: ls rule: cascadeWalk.induct)
  case (1 bc seen cur)
  show ?case
  proof (cases "map_of bc cur")
    case None
    then have "\<And>p. (cur, p) \<notin> R" using 1(3) by (simp add: indexes_def)
    then have "R\<^sup>+ `` {cur} = {}" "\<not> cycle_above R cur" unfolding cycle_above_def by (auto dest: tranclD elim: converse_rtranclE)
    then show ?thesis using 1(2) None by simp
  next
    case (Some l)
    let ?p = "lk_parent l"
    have R: "R `` {cur} = {?p}" using 1(3) Some by (auto simp: indexes_def)
    have np: "?p \<notin> set seen" using 1(2) Some by (auto split: if_splits)
    then obtain ks where w: "cascadeWalk bc (?p # seen) ?p = Inr ks" and ls: "ls = l\<lparr>lk_child := cur\<rparr> # ks"
      using 1(2) Some by (auto simp: andThen_Inr_iff)
    have IH: "distinct (map lk_parent ks) \<and> set (map lk_parent ks) \<inter> set (?p # seen) = {} \<and> set (map lk_parent ks) = R\<^sup>+ `` {?p}
      \<and> path_up R ?p (map lk_parent ks) \<and> \<not> cycle_above R ?p"
      by (rule 1(1)[OF Some np w 1(3)]) simp
    have "\<not> cycle_above R cur"
    proof
      assume "cycle_above R cur"
      then obtain x where x: "(cur, x) \<in> R\<^sup>*" "(x, x) \<in> R\<^sup>+" by (auto simp: cycle_above_def)
      have "(?p, x) \<in> R\<^sup>*"
      proof (cases "x = cur")
        case True
        then show ?thesis using x(2) R by (metis Image_singleton_iff singletonD tranclD)
      next
        case False
        then show ?thesis using x(1) R by (metis Image_singleton_iff converse_rtranclE singletonD)
      qed
      then show False using IH x(2) by (auto simp: cycle_above_def)
    qed
    moreover have "(cur, ?p) \<in> R" using R by auto
    ultimately show ?thesis using IH np trancl_step[OF R] unfolding ls by auto
  qed
qed

lemma walk_Inl:
  assumes "cascadeWalk bc seen cur = Inl e"
  shows "e = CodedError ''AGREEMENT_DELEGATION_CYCLE'' ''cycle detected in delegation graph''"
  using assms
proof (induction bc seen cur rule: cascadeWalk.induct)
  case (1 bc seen cur)
  show ?case
  proof (cases "map_of bc cur")
    case (Some l)
    then show ?thesis using 1 by (cases "lk_parent l \<in> set seen") (auto simp: andThen_Inl_iff)
  qed (use 1(2) in simp)
qed

declare cascadeWalk.simps [simp del]

text \<open>C26: The settlement plan of an agreement is its line of ancestors. When the delegations above the agreement
  form a cycle, the check reports it; a plan that is returned lists, from the nearest to the farthest and each
  once, exactly the agreements above, and there is no cycle. The walk always ends.\<close>

theorem cascade_plan_ancestors:
  assumes "normalizeHexHash from ''fromChildHash'' = Inr start" and "indexDelegations lsort ds = Inr idx"
  shows "(cycle_above (up ds) start \<longrightarrow> cascadeSettlementCheck lsort ds from
        = Inl (CodedError ''AGREEMENT_DELEGATION_CYCLE'' ''cycle detected in delegation graph''))
    \<and> (\<forall>plan. cascadeSettlementCheck lsort ds from = Inr plan \<longrightarrow> \<not> cycle_above (up ds) start
        \<and> (\<exists>ps. getp plan ''parentAgreementHashes'' = JArr (map JStr ps) \<and> path_up (up ds) start ps \<and> distinct (start # ps)
             \<and> set ps = (up ds)\<^sup>+ `` {start}))"
proof -
  obtain bc cp where idx: "idx = (bc, cp)" by (cases idx)
  have ix: "indexes bc (up ds)" using assms(2) index_indexes by (simp add: idx)
  show ?thesis
  proof (cases "cascadeWalk bc [start] start")
    case (Inl e)
    then show ?thesis using walk_Inl assms by (auto simp: cascadeSettlementCheck_def idx)
  next
    case (Inr ls)
    let ?ps = "[(''ok'', JBool True), (''kind'', JStr ''cascade_settlement_check_v1''), (''fromChildHash'', JStr start),
                (''parentAgreementHashes'', JArr (map (\<lambda>l. JStr (lk_parent l)) ls)), (''edges'', JArr (map js_of_edge ls))]"
    have "plain_keys ?ps" by (simp add: plain_keys_def plain_key_def is_digit_def)
    moreover have "literal_doc (JArr (map (\<lambda>l. JStr (lk_parent l)) ls))" by (simp add: list_all_iff)
    ultimately have g: "getp plan ''parentAgreementHashes'' = JArr (map JStr (map lk_parent ls))"
      if "normalizeForCanonicalJson (JObj ?ps) ''$'' False = Inr plan" for plan
      using normalize_obj[OF _ that] by (auto simp: comp_def)
    have c: "cascadeSettlementCheck lsort ds from = normalizeForCanonicalJson (JObj ?ps) ''$'' False"
      using assms by (simp add: cascadeSettlementCheck_def idx Inr)
    have "start \<in> set [start]" by simp
    note w = walk_Inr[OF Inr ix this]
    have d: "distinct (start # map lk_parent ls)" using w by auto
    show ?thesis unfolding c using g w d by blast
  qed
qed

section \<open>Unwind plans\<close>

definition us_ok :: "string \<Rightarrow> unwind_state \<Rightarrow> bool" where
  "us_ok start st \<longleftrightarrow> set (us_seen st) = insert start (set (us_ordered st)) \<and> start \<notin> set (us_ordered st) \<and> distinct (us_ordered st)"

lemma visit_effect:
  assumes "unwindVisit p l (st, q) = (st', q')"
  shows "set (us_seen st') = insert (lk_child l) (set (us_seen st))"
    and "set q' = set q \<union> ({lk_child l} - set (us_seen st))"
    and "us_ok start st \<Longrightarrow> us_ok start st'"
proof -
  show "set (us_seen st') = insert (lk_child l) (set (us_seen st))" "set q' = set q \<union> ({lk_child l} - set (us_seen st))"
    using assms by (auto simp: unwindVisit_def Let_def split: if_splits)
  assume ok: "us_ok start st"
  show "us_ok start st'"
  proof (cases "lk_child l \<in> set (us_seen st)")
    case True
    then have "us_seen st' = us_seen st" "us_ordered st' = us_ordered st" using assms by (auto simp: unwindVisit_def Let_def)
    then show ?thesis using ok by (simp add: us_ok_def)
  next
    case False
    then have "us_seen st' = lk_child l # us_seen st" "us_ordered st' = us_ordered st @ [lk_child l]" using assms by (auto simp: unwindVisit_def Let_def)
    then show ?thesis using ok False by (auto simp: us_ok_def)
  qed
qed

lemma visits_effect:
  assumes "fold (unwindVisit p) ls (st, q) = (st', q')"
  shows "set (us_seen st') = set (us_seen st) \<union> lk_child ` set ls"
    and "set q' = set q \<union> (lk_child ` set ls - set (us_seen st))"
    and "us_ok start st \<Longrightarrow> us_ok start st'"
proof -
  have "set (us_seen st') = set (us_seen st) \<union> lk_child ` set ls \<and> set q' = set q \<union> (lk_child ` set ls - set (us_seen st))
    \<and> (us_ok start st \<longrightarrow> us_ok start st')"
    using assms
  proof (induction ls arbitrary: st q)
    case Nil
    then show ?case by simp
  next
    case (Cons l ls)
    obtain st1 q1 where v: "unwindVisit p l (st, q) = (st1, q1)" by fastforce
    from Cons.IH[of st1 q1] Cons.prems v show ?case using visit_effect[OF v] by auto
  qed
  then show "set (us_seen st') = set (us_seen st) \<union> lk_child ` set ls" "set q' = set q \<union> (lk_child ` set ls - set (us_seen st))"
    "us_ok start st \<Longrightarrow> us_ok start st'" by auto
qed

text \<open>What the queue loop keeps: the agreements seen are reachable, and those off the queue are finished.\<close>

definition unwind_inv :: "(string \<times> string) set \<Rightarrow> string \<Rightarrow> unwind_state \<Rightarrow> string list \<Rightarrow> bool" where
  "unwind_inv R start st queue \<longleftrightarrow> us_ok start st \<and> set queue \<subseteq> set (us_seen st) \<and> set (us_seen st) \<subseteq> {c. (c, start) \<in> R\<^sup>*}
     \<and> (\<forall>s \<in> set (us_seen st) - set queue. {c. (c, s) \<in> R} \<subseteq> set (us_seen st))"

lemma unwind_inv_step:
  assumes inv: "unwind_inv R start st (p # queue)" and ch: "lk_child ` set (links_at m p) = {c. (c, p) \<in> R}"
    and step: "fold (unwindVisit p) (links_at m p) (st, queue) = (st', queue')"
  shows "unwind_inv R start st' queue'"
proof -
  note e = visits_effect[OF step, unfolded ch]
  have p: "(p, start) \<in> R\<^sup>*" using inv by (auto simp: unwind_inv_def)
  have "{c. (c, s) \<in> R} \<subseteq> set (us_seen st')" if "s \<in> set (us_seen st') - set queue'" for s
  proof (cases "s = p")
    case False
    then have "s \<in> set (us_seen st) - set (p # queue)" using that e(1,2) by auto
    then show ?thesis using inv e(1) by (fastforce simp: unwind_inv_def)
  qed (use e(1) in auto)
  moreover have "set (us_seen st') \<subseteq> {c. (c, start) \<in> R\<^sup>*}" using inv e(1) p by (auto simp: unwind_inv_def)
  moreover have "us_ok start st'" "set queue' \<subseteq> set (us_seen st')" using inv e by (auto simp: unwind_inv_def)
  ultimately show ?thesis unfolding unwind_inv_def by blast
qed

lemma unwind_reaches:
  assumes "unwind_inv R start st queue" and "\<And>p. lk_child ` set (links_at m p) = {c. (c, p) \<in> R}"
  shows "us_ok start (unwindLoop m st queue) \<and> set (us_seen (unwindLoop m st queue)) = {c. (c, start) \<in> R\<^sup>*}"
  using assms
proof (induction m st queue rule: unwindLoop.induct)
  case (1 m st)
  have "c \<in> set (us_seen st)" if "(c, start) \<in> R\<^sup>*" for c
    using that
  proof (induction rule: converse_rtrancl_induct)
    case base
    then show ?case using 1(1) by (auto simp: unwind_inv_def us_ok_def)
  next
    case (step y z)
    then show ?case using 1(1) by (auto simp: unwind_inv_def)
  qed
  then show ?case using 1(1) by (auto simp: unwind_inv_def)
next
  case (2 m st p queue)
  obtain st' queue' where s: "fold (unwindVisit p) (links_at m p) (st, queue) = (st', queue')" by fastforce
  show ?case using 2(1)[OF s[symmetric] unwind_inv_step[OF 2(2,3) s] 2(3)] by (simp add: s)
qed

text \<open>C25: The unwind plan of an agreement is the set of its descendants: each agreement below it is listed once,
  nothing else is, and the agreement itself is not listed even when the delegations form a cycle. The queue
  loop always ends. (\<open>lsort\<close>, sorting by \<^verbatim>\<open>localeCompare\<close>, only has to permute.)\<close>

theorem unwind_plan_descendants:
  assumes "refundUnwindCheck lsort ds from = Inr plan" and "normalizeHexHash from ''fromParentHash'' = Inr start"
    and "\<And>xs. set (lsort xs) = set xs"
  shows "\<exists>cs. getp plan ''childAgreementHashes'' = JArr (map JStr cs) \<and> distinct (start # cs) \<and> set (start # cs) = {c. (c, start) \<in> (up ds)\<^sup>*}"
proof -
  from assms(1,2) obtain bc cp where idx: "indexDelegations lsort ds = Inr (bc, cp)"
    and n: "normalizeForCanonicalJson (JObj [(''ok'', JBool True), (''kind'', JStr ''refund_unwind_check_v1''), (''fromParentHash'', JStr start),
      (''childAgreementHashes'', JArr (map JStr (us_ordered (unwindLoop cp (unwind_start start) [start])))),
      (''edges'', JArr (map js_of_unwind_edge (us_edges (unwindLoop cp (unwind_start start) [start]))))]) ''$'' False = Inr plan"
    by (auto simp: refundUnwindCheck_def andThen_Inr_iff Let_def)
  let ?cs = "us_ordered (unwindLoop cp (unwind_start start) [start])"
  have "unwind_inv (up ds) start (unwind_start start) [start]" by (simp add: unwind_inv_def unwind_start_def us_ok_def)
  from unwind_reaches[OF this index_graph(3)[OF idx assms(3)]]
  have "distinct (start # ?cs)" "set (start # ?cs) = {c. (c, start) \<in> (up ds)\<^sup>*}" by (auto simp: us_ok_def)
  moreover have "getp plan ''childAgreementHashes'' = JArr (map JStr ?cs)"
    using normalize_obj[OF _ n] by (auto simp: plain_keys_def plain_key_def is_digit_def list_all_iff)
  ultimately show ?thesis by blast
qed

section \<open>Executing plans\<close>

text \<open>A list of delegations as the executors get it: each was built and perhaps resolved.\<close>

definition ledgered :: "(string \<Rightarrow> string) \<Rightarrow> jsval list \<Rightarrow> bool" where
  "ledgered H ds \<longleftrightarrow> (\<forall>d \<in> set ds. \<exists>b. delegation_history H b d)"

lemma ledgered_form:
  assumes "ledgered H ds" and "d \<in> set ds" and "\<And>x. is_sha256_hex (H x)"
  shows "\<exists>core h. delegation_form H core h d"
proof -
  obtain b where "delegation_history H b d" using assms(1,2) by (auto simp: ledgered_def)
  from history_form[OF this assms(3)] show ?thesis by blast
qed

lemma form_id:
  assumes "delegation_form H core h d"
  shows "delegation_id d \<noteq> []" and "getp d ''delegationId'' = JStr (delegation_id d)" and "isObjectLike d"
proof -
  have c: "core_shape core" using assms by (simp add: delegation_form_def)
  then obtain did where did: "getp (JObj core) ''delegationId'' = JStr did" "good_id 3 240 did"
    by (auto simp: coreProps_def elim!: core_shape.cases)
  have "getp d ''delegationId'' = JStr did" using form_getp(4)[OF assms, of "''delegationId''"] did(1) by (simp add: mutable_fields_def)
  moreover have "trim did = did" "did \<noteq> []" using did(2) id_token_trim by (auto simp: good_id_def)
  ultimately show "delegation_id d \<noteq> []" "getp d ''delegationId'' = JStr (delegation_id d)" by (simp_all add: delegation_id_def)
  show "isObjectLike d" using assms by (auto simp: delegation_form_def isObjectLike_def)
qed

lemma form_status: "delegation_form H core h d \<Longrightarrow> getp d ''status'' = JStr (delegation_status d)"
  using form_getp(2) status_norm by (fastforce simp: delegation_status_def)

lemma same_core: "delegation_form H core h d \<Longrightarrow> delegation_form H core h d' \<Longrightarrow> k \<notin> set mutable_fields \<Longrightarrow> getp d' k = getp d k"
  using form_getp(4) by metis

lemma same_id: "delegation_form H core h d \<Longrightarrow> delegation_form H core h d' \<Longrightarrow> delegation_id d' = delegation_id d"
  using same_core[of H core h d d' "''delegationId''"] by (simp add: delegation_id_def mutable_fields_def)

lemma indexed_by_id:
  assumes "foldRes indexByIdStep m xs = Inr m'" and "\<forall>d \<in> set xs. delegation_id d \<noteq> []"
  shows "map_of m' = map_of m ++ map_of (map (\<lambda>d. (delegation_id d, d)) xs) \<and> distinct (map delegation_id xs) \<and> (\<forall>d \<in> set xs. map_of m (delegation_id d) = None)"
  using assms
proof (induction xs arbitrary: m)
  case Nil
  then show ?case by simp
next
  case (Cons d xs)
  let ?k = "delegation_id d"
  from Cons.prems have k: "?k \<noteq> []" "map_of m ?k = None" and r: "foldRes indexByIdStep (AList.update ?k d m) xs = Inr m'"
    by (auto simp: indexByIdStep_def[of m d] split: if_splits)
  have IH: "map_of m' = map_of (AList.update ?k d m) ++ map_of (map (\<lambda>d. (delegation_id d, d)) xs)" "distinct (map delegation_id xs)"
    "\<forall>e \<in> set xs. map_of (AList.update ?k d m) (delegation_id e) = None" using Cons.IH[OF r] Cons.prems(2) by auto
  have n: "\<forall>e \<in> set xs. delegation_id e \<noteq> ?k \<and> map_of m (delegation_id e) = None" using IH(3) by (auto simp: update_conv' split: if_splits)
  then have "map_of (map (\<lambda>d. (delegation_id d, d)) xs) ?k = None" by (auto simp: map_of_eq_None_iff)
  then have "map_of m' = map_of m ++ map_of (map (\<lambda>d. (delegation_id d, d)) (d # xs))"
    unfolding IH(1) by (auto simp: update_conv' fun_eq_iff map_add_def split: option.splits)
  moreover have "distinct (map delegation_id (d # xs))" using IH(2) n by auto
  moreover have "\<forall>e \<in> set (d # xs). map_of m (delegation_id e) = None" using n k by auto
  ultimately show ?case by blast
qed

text \<open>What the loop over the edges keeps, for a target status other than active.\<close>

definition plan_inv :: "(string \<Rightarrow> string) \<Rightarrow> jsval list \<Rightarrow> string \<Rightarrow> string set \<Rightarrow> (string \<times> jsval) list \<Rightarrow> bool" where
  "plan_inv H ds target ks updates \<longleftrightarrow>
     (\<forall>k d'. map_of updates k = Some d' \<longrightarrow> k \<in> ks \<and> getp d' ''status'' = JStr target
        \<and> (\<exists>d \<in> set ds. delegation_id d = k \<and> (\<exists>core h. delegation_form H core h d \<and> delegation_form H core h d')))
   \<and> (\<forall>k \<in> ks. map_of updates k \<noteq> None \<or> (\<exists>d \<in> set ds. delegation_id d = k \<and> getp d ''status'' = JStr target))"

lemma planStep_inv:
  assumes inv: "plan_inv H ds target ks updates" and step: "planStep H now target t metadata byId (updates, ops) edge = Inr (updates', ops')"
    and ds: "ledgered H ds" and hex: "\<And>x. is_sha256_hex (H x)" and meta: "json_metadata metadata"
    and byId: "\<And>k d. map_of byId k = Some d \<Longrightarrow> d \<in> set ds \<and> delegation_id d = k" and t: "target \<in> {''settled'', ''revoked''}"
  shows "plan_inv H ds target (insert (delegation_id edge) ks) updates'"
proof -
  let ?k = "delegation_id edge"
  obtain cur where cur: "current_of updates byId ?k = Some cur"
    using step by (cases "current_of updates byId ?k") (auto simp: planStep_def Let_def split: if_splits)
  have form: "\<exists>d \<in> set ds. delegation_id d = ?k \<and> (\<exists>core h. delegation_form H core h d \<and> delegation_form H core h cur)
      \<and> (map_of updates ?k = None \<longrightarrow> d = cur)"
  proof (cases "map_of updates ?k")
    case None
    then have c: "cur \<in> set ds" "delegation_id cur = ?k" using cur byId by (auto simp: current_of_def)
    then obtain b where "delegation_history H b cur" using ds by (auto simp: ledgered_def)
    from history_form[OF this hex] c show ?thesis by blast
  next
    case (Some d')
    then show ?thesis using cur inv by (auto simp: current_of_def plan_inv_def)
  qed
  then obtain d core h where d: "d \<in> set ds" "delegation_id d = ?k" "delegation_form H core h d" "delegation_form H core h cur"
    "map_of updates ?k = None \<longrightarrow> d = cur" by (elim bexE conjE exE) (rule that)
  have st: "getp cur ''status'' = JStr (delegation_status cur)" using form_status[OF d(4)] .
  consider (noop) "delegation_status cur = target" "updates' = updates"
    | (applied) d' where "delegation_status cur = ''active''" "resolveAgreementDelegationV1 H now cur (JStr target) (JStr t) metadata = Inr d'"
        "updates' = AList.update ?k d' updates"
    using step cur by (auto simp: planStep_def Let_def andThen_Inr_iff split: if_splits)
  then show ?thesis
  proof cases
    case noop
    have "map_of updates ?k \<noteq> None \<or> (\<exists>d \<in> set ds. delegation_id d = ?k \<and> getp d ''status'' = JStr target)" using d st noop(1) by auto
    then show ?thesis using inv noop(2) by (auto simp: plan_inv_def)
  next
    case applied
    have "map_of updates ?k = None"
    proof (rule ccontr)
      assume "map_of updates ?k \<noteq> None"
      then have "getp cur ''status'' = JStr target" using inv cur by (auto simp: plan_inv_def current_of_def)
      then show False using st applied(1) t by auto
    qed
    then have "cur \<in> set ds" using d by simp
    then obtain b where "delegation_history H b cur" using ds by (auto simp: ledgered_def)
    then have "getp cur ''revision'' = JInt 0" using history_form[OF _ hex] st applied(1) by fastforce
    then have f: "delegation_form H core h d'" "getp d' ''status'' \<in> {JStr ''settled'', JStr ''revoked''}"
      "\<exists>s. normalizeStatus (JStr target) ''status'' = Inr s \<and> getp d' ''status'' = JStr s"
      using form_resolved[OF d(4) _ _ _ _ applied(2) meta, of 0] st applied(1) by (simp_all add: is_safe_bounds)
    have "target \<in> set AGREEMENT_DELEGATION_STATUS" using t by (auto simp: AGREEMENT_DELEGATION_STATUS_def)
    then have "getp d' ''status'' = JStr target" using f(3) by simp
    moreover have "map_of updates' = (map_of updates)(?k \<mapsto> d')" by (simp add: applied(3) update_conv')
    ultimately show ?thesis using inv d f by (auto simp: plan_inv_def)
  qed
qed

lemma planSteps_inv:
  assumes "foldRes (planStep H now target t metadata byId) (updates, ops) es = Inr (updates', ops')" and "plan_inv H ds target ks updates"
    and "ledgered H ds" and "\<And>x. is_sha256_hex (H x)" and "json_metadata metadata"
    and "\<And>k d. map_of byId k = Some d \<Longrightarrow> d \<in> set ds \<and> delegation_id d = k" and "target \<in> {''settled'', ''revoked''}"
  shows "plan_inv H ds target (ks \<union> delegation_id ` set es) updates'"
  using assms(1,2)
proof (induction es arbitrary: updates ops ks)
  case Nil
  then show ?case by simp
next
  case (Cons e es)
  from Cons.prems(1) obtain u o' where s: "planStep H now target t metadata byId (updates, ops) e = Inr (u, o')"
    and r: "foldRes (planStep H now target t metadata byId) (u, o') es = Inr (updates', ops')" by (auto simp: andThen_Inr_iff)
  have "plan_inv H ds target (insert (delegation_id e) ks) u" using planStep_inv[OF Cons.prems(2) s] assms(3-) by blast
  from Cons.IH[OF r this] show ?case by simp
qed

text \<open>The identifiers a plan names.\<close>

definition plan_ids :: "jsval \<Rightarrow> string set" where
  "plan_ids plan = delegation_id ` set (case getp plan ''edges'' of JArr es \<Rightarrow> es | _ \<Rightarrow> [])"

definition resolved_to :: "string \<Rightarrow> string set \<Rightarrow> jsval \<Rightarrow> jsval \<Rightarrow> bool" where
  "resolved_to target ids d d' \<longleftrightarrow> (\<forall>k. k \<notin> set mutable_fields \<longrightarrow> getp d' k = getp d k)
     \<and> (if delegation_id d \<in> ids then getp d' ''status'' = JStr target else d' = d)"

lemma applied_plan:
  assumes res: "applyDelegationResolutionPlan H now (JArr ds) (getp plan ''edges'') (JStr target) resolvedAt metadata kind = Inr result"
    and ds: "ledgered H ds" and hex: "\<And>x. is_sha256_hex (H x)" and meta: "json_metadata metadata" and t: "target \<in> {''settled'', ''revoked''}"
  shows "\<exists>ds' ps. result = JObj ps \<and> plain_keys ps \<and> ''plan'' \<notin> fst ` set ps \<and> getp result ''delegations'' = JArr ds' \<and> literal_doc (JArr ds')
    \<and> list_all2 (resolved_to target (plan_ids plan)) ds ds'"
proof -
  have forms: "\<exists>core h. delegation_form H core h d" if "d \<in> set ds" for d
    using ds that hex by (rule ledgered_form)
  then have ids: "\<forall>d \<in> set ds. delegation_id d \<noteq> [] \<and> isObjectLike d" using form_id by blast
  then have objs: "delegation_objects (JArr ds) = ds" by (simp add: delegation_objects_def)
  have tn: "normalizeStatus (JStr target) ''targetStatus'' = Inr target" "target \<noteq> ''active''" using t by (auto simp: AGREEMENT_DELEGATION_STATUS_def)
  let ?es = "case getp plan ''edges'' of JArr es \<Rightarrow> es | _ \<Rightarrow> []"
  from res obtain byId tm updates ops ledger where byId: "foldRes indexByIdStep [] ds = Inr byId"
    and steps: "foldRes (planStep H now target tm metadata byId) ([], []) ?es = Inr (updates, ops)"
    and n: "normalizeForCanonicalJson
         (JObj [(''ok'', JBool True), (''kind'', JStr kind), (''targetStatus'', JStr target), (''resolvedAt'', JStr tm),
                (''operations'', JArr (map js_of_operation ops)),
                (''stats'', JObj [(''attempted'', JInt (int (length ops))), (''applied'', count_ops ''applied'' ops), (''noop'', count_ops ''noop'' ops)]),
                (''ledger'', ledger), (''delegations'', JArr (nextDelegations updates (JArr ds)))]) ''$'' False = Inr result"
    by (auto simp: applyDelegationResolutionPlan_def tn indexDelegationsById_def objs andThen_Inr_iff Let_def)
  have ix: "map_of byId = map_of (map (\<lambda>d. (delegation_id d, d)) ds)" using indexed_by_id[OF byId] ids by simp
  have bi: "d \<in> set ds \<and> delegation_id d = k" if "map_of byId k = Some d" for k d
    using map_of_SomeD[OF that[unfolded ix]] by auto
  have inv: "plan_inv H ds target (plan_ids plan) updates"
    using planSteps_inv[OF steps _ ds hex meta bi t, of "{}"] by (simp add: plan_inv_def plan_ids_def)
  define next_of where "next_of d = (case map_of updates (delegation_id d) of Some d' \<Rightarrow> d' | None \<Rightarrow> d)" for d
  have nx: "nextDelegations updates (JArr ds) = map next_of ds"
    using ids by (simp add: nextDelegations_def objs next_of_def filter_id_conv[THEN iffD2])
  have dist: "distinct (map delegation_id ds)" using indexed_by_id[OF byId] ids by simp
  have each: "resolved_to target (plan_ids plan) d (next_of d) \<and> literal_doc (next_of d)" if d: "d \<in> set ds" for d
  proof (cases "map_of updates (delegation_id d)")
    case None
    obtain core h where "delegation_form H core h d" using forms[OF d] by blast
    then have "literal_doc d" by (auto simp: delegation_form_def)
    moreover have "getp d ''status'' = JStr target" if "delegation_id d \<in> plan_ids plan"
    proof -
      from that None inv obtain e where "e \<in> set ds" "delegation_id e = delegation_id d" "getp e ''status'' = JStr target" by (auto simp: plan_inv_def)
      then show ?thesis using dist d by (metis distinct_map inj_onD)
    qed
    ultimately show ?thesis using None by (simp add: next_of_def resolved_to_def)
  next
    case (Some d')
    then obtain e core h where e: "e \<in> set ds" "delegation_id e = delegation_id d" "delegation_form H core h e" "delegation_form H core h d'"
      and s: "delegation_id d \<in> plan_ids plan" "getp d' ''status'' = JStr target" using inv unfolding plan_inv_def by blast
    have "e = d" using e(1,2) dist d by (metis distinct_map inj_onD)
    then show ?thesis using same_core[OF e(3,4)] s e(4) Some by (auto simp: next_of_def resolved_to_def delegation_form_def)
  qed
  obtain fields where fields: "normalizeForCanonicalJson (JObj fields) ''$'' False = Inr result" "plain_keys fields" "''plan'' \<notin> fst ` set fields"
    "(''delegations'', JArr (map next_of ds)) \<in> set fields"
    by (rule that[OF n]) (simp_all add: nx plain_keys_def plain_key_def is_digit_def)
  have "literal_doc (JArr (map next_of ds))" using each by (simp add: list_all_iff)
  then obtain ps where r: "result = JObj ps" "plain_keys ps" "''plan'' \<notin> fst ` set ps" "getp result ''delegations'' = JArr (map next_of ds)"
    using normalize_obj[OF fields(2,1)] fields(3,4) by blast
  have "list_all2 (resolved_to target (plan_ids plan)) ds (map next_of ds)" using each by (auto simp: list_all2_map2 list_all2_same)
  then show ?thesis using r each by (auto simp: list_all_iff)
qed

lemma executed_plan:
  assumes ex: "executePlan H now (JArr ds) planRes target resolvedAt metadata kind = Inr result"
    and ds: "ledgered H ds" and hex: "\<And>x. is_sha256_hex (H x)" and meta: "json_metadata metadata" and t: "target \<in> {''settled'', ''revoked''}"
  shows "\<exists>plan ds'. planRes = Inr plan \<and> getp result ''delegations'' = JArr ds' \<and> list_all2 (resolved_to target (plan_ids plan)) ds ds'"
proof -
  from ex obtain plan r where p: "planRes = Inr plan"
    and a: "applyDelegationResolutionPlan H now (JArr ds) (getp plan ''edges'') (JStr target) resolvedAt metadata kind = Inr r"
    and n: "normalizeForCanonicalJson (JObj (spread (own_props r) [(''plan'', plan)])) ''$'' False = Inr result"
    by (auto simp: executePlan_def andThen_Inr_iff)
  from applied_plan[OF a ds hex meta t] obtain ds' ps where r: "r = JObj ps" "plain_keys ps" "''plan'' \<notin> fst ` set ps"
    "getp r ''delegations'' = JArr ds'" "literal_doc (JArr ds')" "list_all2 (resolved_to target (plan_ids plan)) ds ds'" by blast
  have pk: "plain_keys (ps @ [(''plan'', plan)])" using r(2,3) by (auto simp: plain_keys_def plain_key_def is_digit_def)
  have "(''delegations'', JArr ds') \<in> set ps" using r(4) by (auto simp: r(1) getp.simps(1) dest: map_of_SomeD split: option.splits)
  then have "getp result ''delegations'' = JArr ds'"
    using normalize_obj[OF pk, of "''$''" False result] n r(5) by (auto simp: own_props_def r(1) spread_plain[OF pk])
  then show ?thesis using p r(6) by blast
qed

text \<open>C14: Executing a cascade resolves exactly the delegations of its plan. When settling a cascade, unwinding one, or
  unwinding refunds succeeds on a list of delegations that were built and resolved by this module, every delegation
  the plan names is settled (respectively revoked), every other one is returned unchanged, in the same order,
  and no field under a delegation's hash changes.\<close>

theorem cascade_execution_exact:
  assumes "ledgered H ds" and "\<And>x. is_sha256_hex (H x)" and "json_metadata metadata"
    and "(target, result, plan) \<in> {(''settled'', cascadeSettlementExecute H now lsort (JArr ds) from resolvedAt metadata, cascadeSettlementCheck lsort (JArr ds) from),
        (''revoked'', cascadeUnwindExecute H now lsort (JArr ds) from resolvedAt metadata, cascadeSettlementCheck lsort (JArr ds) from),
        (''revoked'', refundUnwindExecute H now lsort (JArr ds) from resolvedAt metadata, refundUnwindCheck lsort (JArr ds) from)}"
    and "result = Inr out"
  shows "\<exists>p ds'. plan = Inr p \<and> getp out ''delegations'' = JArr ds' \<and> list_all2 (resolved_to target (plan_ids p)) ds ds'"
proof -
  obtain kind where "executePlan H now (JArr ds) plan target resolvedAt metadata kind = Inr out" and "target \<in> {''settled'', ''revoked''}"
    using assms(4,5) by (auto simp: cascadeSettlementExecute_def cascadeUnwindExecute_def refundUnwindExecute_def)
  from executed_plan[OF this(1) assms(1-3) this(2)] show ?thesis .
qed

section \<open>Example\<close>

definition sample_edge :: "string \<Rightarrow> char \<Rightarrow> char \<Rightarrow> jsval" where
  "sample_edge k parent child = JObj [(''delegationId'', JStr k), (''status'', JStr ''active''),
     (''parentAgreementHash'', JStr (sample_hash parent)), (''childAgreementHash'', JStr (sample_hash child))]"

definition sample_graph :: jsval where
  "sample_graph = JArr [sample_edge ''dlg_ab'' (CHR ''a'') (CHR ''b''), sample_edge ''dlg_bc'' (CHR ''b'') (CHR ''c''), sample_edge ''dlg_ad'' (CHR ''a'') (CHR ''d'')]"

lemma sample_index: "\<exists>idx. indexDelegations (\<lambda>x. x) sample_graph = Inr idx"
proof -
  have "(case indexDelegations (\<lambda>x. x) sample_graph of Inl _ \<Rightarrow> False | Inr _ \<Rightarrow> True)" by code_simp
  then show ?thesis by (auto split: sum.splits)
qed

lemma sample_plan: "\<exists>plan. cascadeSettlementCheck (\<lambda>x. x) sample_graph (JStr (sample_hash (CHR ''c''))) = Inr plan"
proof -
  have "(case cascadeSettlementCheck (\<lambda>x. x) sample_graph (JStr (sample_hash (CHR ''c''))) of Inl _ \<Rightarrow> False | Inr _ \<Rightarrow> True)" by code_simp
  then show ?thesis by (auto split: sum.splits)
qed

lemma sample_unwind: "\<exists>plan. refundUnwindCheck (\<lambda>x. x) sample_graph (JStr (sample_hash (CHR ''a''))) = Inr plan"
proof -
  have "(case refundUnwindCheck (\<lambda>x. x) sample_graph (JStr (sample_hash (CHR ''a''))) of Inl _ \<Rightarrow> False | Inr _ \<Rightarrow> True)" by code_simp
  then show ?thesis by (auto split: sum.splits)
qed

lemma sample_hash_hex: "normalizeHexHash (JStr (sample_hash (CHR ''c''))) name = Inr (sample_hash (CHR ''c''))"
  "normalizeHexHash (JStr (sample_hash (CHR ''a''))) name = Inr (sample_hash (CHR ''a''))"
  by (simp_all add: sample_hash_def is_sha256_hex_def is_hex_char_def is_digit_def list_all_iff)

theorem cascade_plan_ancestors_witness:
  "\<exists>plan ps. cascadeSettlementCheck (\<lambda>x. x) sample_graph (JStr (sample_hash (CHR ''c''))) = Inr plan
    \<and> getp plan ''parentAgreementHashes'' = JArr (map JStr ps) \<and> set ps = (up sample_graph)\<^sup>+ `` {sample_hash (CHR ''c'')}"
proof -
  obtain idx where "indexDelegations (\<lambda>x. x) sample_graph = Inr idx" using sample_index by blast
  from cascade_plan_ancestors[OF sample_hash_hex(1) this] show ?thesis using sample_plan by blast
qed

theorem unwind_plan_descendants_witness:
  "\<exists>plan cs. refundUnwindCheck (\<lambda>x. x) sample_graph (JStr (sample_hash (CHR ''a''))) = Inr plan \<and> getp plan ''childAgreementHashes'' = JArr (map JStr cs)
    \<and> set (sample_hash (CHR ''a'') # cs) = {c. (c, sample_hash (CHR ''a'')) \<in> (up sample_graph)\<^sup>*}"
proof -
  obtain plan where p: "refundUnwindCheck (\<lambda>x. x) sample_graph (JStr (sample_hash (CHR ''a''))) = Inr plan" using sample_unwind by blast
  from unwind_plan_descendants[OF p sample_hash_hex(2)] show ?thesis using p by auto
qed

lemma sample_ledgered: "ledgered const_hash [sample_settled]"
  using delegation_history.resolved[OF delegation_history.built[OF sample_built] sample_resolved]
  by (auto simp: ledgered_def json_metadata_def isObjectLike_def)

lemma sample_execution: "\<exists>out. cascadeSettlementExecute const_hash ''2026-01-03T00:00:00.000Z'' (\<lambda>x. x) (JArr [sample_settled]) (JStr (sample_hash (CHR ''b''))) JNull JNull = Inr out"
proof -
  have "(case cascadeSettlementExecute const_hash ''2026-01-03T00:00:00.000Z'' (\<lambda>x. x) (JArr [sample_settled]) (JStr (sample_hash (CHR ''b''))) JNull JNull of
      Inl _ \<Rightarrow> False | Inr _ \<Rightarrow> True)" by code_simp
  then show ?thesis by (auto split: sum.splits)
qed

theorem cascade_execution_exact_witness:
  "\<exists>out p ds'. cascadeSettlementExecute const_hash ''2026-01-03T00:00:00.000Z'' (\<lambda>x. x) (JArr [sample_settled]) (JStr (sample_hash (CHR ''b''))) JNull JNull = Inr out
    \<and> getp out ''delegations'' = JArr ds' \<and> list_all2 (resolved_to ''settled'' (plan_ids p)) [sample_settled] ds'"
proof -
  obtain out where o: "cascadeSettlementExecute const_hash ''2026-01-03T00:00:00.000Z'' (\<lambda>x. x) (JArr [sample_settled]) (JStr (sample_hash (CHR ''b''))) JNull JNull = Inr out"
    using sample_execution by blast
  have "json_metadata JNull" by (simp add: json_metadata_def isObjectLike_def)
  from cascade_execution_exact[OF sample_ledgered const_hash_hex this, OF insertI1 o] show ?thesis using o by blast
qed

end
