(* ===== verification/SettlementAdjustment.thy ===== *)
theory SettlementAdjustment
  imports AgreementDelegation
begin

text \<open>
  \<^verbatim>\<open>src/core/settlement-adjustment.js\<close>: the document that releases or refunds a holdback. Like a delegation it
  carries a hash over its own content, and the contract both share is a locale: validation accepts a
  document only with the hash of its core. Under the locale, two accepted documents with the same hash
  have the same content. SHA-256 (\<open>H\<close>) and the clock (\<open>now\<close>) are parameters.
\<close>

section \<open>Documents that carry their hash\<close>

text \<open>The text a document's hash is computed over.\<close>

definition core_text :: "string list \<Rightarrow> jsval \<Rightarrow> string" where
  "core_text loose d = (case canonicalJsonStringify (JObj (without loose (own_props d))) of Inr t \<Rightarrow> t | Inl _ \<Rightarrow> [])"

locale hashed_document =
  fixes digest :: "(string \<Rightarrow> string) \<Rightarrow> jsval \<Rightarrow> string res"
    and valid :: "(string \<Rightarrow> string) \<Rightarrow> jsval \<Rightarrow> unit res"
    and hash_field :: string and loose :: "string list"
  assumes digest_text: "digest H d = Inr h \<Longrightarrow> \<exists>ps n text. d = JObj ps \<and> normalizeForCanonicalJson (JObj (without loose ps)) ''$'' False = Inr n
        \<and> canonicalJsonStringify n = Inr text \<and> h = H text"
    and valid_digest: "valid H d = Inr () \<Longrightarrow> (\<And>x. is_sha256_hex (H x)) \<Longrightarrow> \<exists>s. getp d hash_field = JStr s \<and> digest H d = Inr (toLowerCase (trim s))"
begin

lemma valid_text:
  assumes "valid H d = Inr ()" and "\<And>x. is_sha256_hex (H x)" and "literal_doc d"
  shows "\<exists>ps s. d = JObj ps \<and> canonicalJsonStringify (JObj (without loose ps)) = Inr (core_text loose d)
    \<and> getp d hash_field = JStr s \<and> toLowerCase (trim s) = H (core_text loose d)"
proof -
  obtain s where s: "getp d hash_field = JStr s" "digest H d = Inr (toLowerCase (trim s))" using valid_digest[OF assms(1,2)] by blast
  from digest_text[OF s(2)] obtain ps n tx where d: "d = JObj ps" and n: "normalizeForCanonicalJson (JObj (without loose ps)) ''$'' False = Inr n"
    and t: "canonicalJsonStringify n = Inr tx" "toLowerCase (trim s) = H tx" by blast
  have "literal_doc (JObj (without loose ps))" using assms(3)
    by (auto simp: d without_def plain_keys_def list_all_iff distinct_map_filter)
  then have "n = JObj (without loose ps)" using n by (simp add: normalize_literal)
  then show ?thesis using d s(1) t by (simp add: core_text_def own_props_def)
qed

lemma same_hash_same_content:
  assumes "valid H d = Inr ()" and "valid H e = Inr ()" and "getp d hash_field = getp e hash_field"
    and "literal_doc d" "literal_doc e" "hashable d" "hashable e"
    and "\<And>x. is_sha256_hex (H x)" and "inj_on H {core_text loose d, core_text loose e}" and "k \<notin> set loose"
  shows "json_equiv (getp d k) (getp e k)"
proof -
  obtain ps s where d: "d = JObj ps" "canonicalJsonStringify (JObj (without loose ps)) = Inr (core_text loose d)"
    "getp d hash_field = JStr s" "toLowerCase (trim s) = H (core_text loose d)" using valid_text[OF assms(1,8,4)] by blast
  obtain qs u where e: "e = JObj qs" "canonicalJsonStringify (JObj (without loose qs)) = Inr (core_text loose e)"
    "getp e hash_field = JStr u" "toLowerCase (trim u) = H (core_text loose e)" using valid_text[OF assms(2,8,5)] by blast
  have "s = u" using assms(3) d(3) e(3) by simp
  then have "core_text loose d = core_text loose e" using d(4) e(4) assms(9) by (simp add: inj_on_eq_iff)
  then have same: "canonicalJsonStringify (JObj (without loose qs)) = Inr (core_text loose d)" using e(2) by simp
  have "hashable (JObj (without loose ps))" "hashable (JObj (without loose qs))"
    using assms(6,7) by (auto simp: d(1) e(1) without_def distinct_map_filter)
  from canonical_text_iff[OF this d(2)] same have "json_equiv (JObj (without loose ps)) (JObj (without loose qs))" by simp
  from json_equiv_getp[OF this, of k] assms(10) show ?thesis by (simp add: getp_without d(1) e(1))
qed

end

lemma ws_in_lower: "c \<in> set s \<Longrightarrow> is_ws c \<Longrightarrow> c \<in> set (toLowerCase s)"
  by (force simp: toLowerCase_def is_ws_def lower_char_def Let_def image_iff)

lemma lower_hex_trim:
  assumes "is_sha256_hex (toLowerCase s)"
  shows "trim s = s"
proof -
  have "\<not> is_ws c" if "c \<in> set s" for c
    using ws_in_lower[OF that] assms hex_char_not_ws by (auto simp: is_sha256_hex_def list_all_iff)
  then show ?thesis by (intro trim_id) auto
qed

interpretation delegation_doc: hashed_document computeAgreementDelegationHashV1 validateAgreementDelegationV1 "''delegationHash''" mutable_fields
proof unfold_locales
  fix H d h
  assume "computeAgreementDelegationHashV1 H d = Inr h"
  then show "\<exists>ps n text. d = JObj ps \<and> normalizeForCanonicalJson (JObj (without mutable_fields ps)) ''$'' False = Inr n
      \<and> canonicalJsonStringify n = Inr text \<and> h = H text"
    by (cases d) (auto simp: computeAgreementDelegationHashV1_def andThen_Inr_iff assertPlainObject_def isObjectLike_def own_props_def)
next
  fix H d
  assume v: "validateAgreementDelegationV1 H d = Inr ()" and hex: "\<And>x. is_sha256_hex (H x)"
  then obtain h g where h: "normalizeHexHash (getp d ''delegationHash'') ''delegation.delegationHash'' = Inr g" "computeAgreementDelegationHashV1 H d = Inr h"
    "h = toLowerCase (js_String (getp d ''delegationHash''))"
    unfolding validateAgreementDelegationV1_def andThen_Inr_iff throwIf_Inr_iff by blast
  from h(1) obtain s where s: "getp d ''delegationHash'' = JStr s" by (auto simp: normalizeHexHash_def res_simps)
  have "is_sha256_hex (toLowerCase s)" using h(2,3) hex unfolding computeAgreementDelegationHashV1_def andThen_Inr_iff s js_String.simps by (metis sum.inject(2))
  then show "\<exists>s. getp d ''delegationHash'' = JStr s \<and> computeAgreementDelegationHashV1 H d = Inr (toLowerCase (trim s))"
    using h s lower_hex_trim by simp
qed

section \<open>Adjustments\<close>

definition SETTLEMENT_ADJUSTMENT_SCHEMA_VERSION :: string where
  "SETTLEMENT_ADJUSTMENT_SCHEMA_VERSION = ''SettlementAdjustment.v1''"

definition SETTLEMENT_ADJUSTMENT_KIND :: "string list" where
  "SETTLEMENT_ADJUSTMENT_KIND = [''holdback_release'', ''holdback_refund'']"

definition normalizeKind :: "jsval \<Rightarrow> string \<Rightarrow> string res" where
  "normalizeKind v name =
     (let s = (case v of JStr t \<Rightarrow> toLowerCase (trim t) | _ \<Rightarrow> [])
      in if s \<in> set SETTLEMENT_ADJUSTMENT_KIND then Inr s
         else Inl (TypeError (name @ '' must be one of: holdback_release|holdback_refund'')))"

definition adjustment_loose :: "string list" where
  "adjustment_loose = [''adjustmentHash'', ''metadata'']"

definition computeSettlementAdjustmentHashV1 :: "(string \<Rightarrow> string) \<Rightarrow> jsval \<Rightarrow> string res" where
  "computeSettlementAdjustmentHashV1 H core =
     andThen (assertPlainObject core ''adjustmentCore'') (\<lambda>_.
     andThen (normalizeForCanonicalJson (JObj (without adjustment_loose (own_props core))) ''$'' False) (\<lambda>normalized.
     andThen (canonicalJsonStringify normalized) (\<lambda>text. Inr (H text))))"

text \<open>The reference to a verdict: an absent one is left out of the document.\<close>

definition normalizeVerdictRef :: "jsval \<Rightarrow> props res" where
  "normalizeVerdictRef verdictRef =
     (if \<not> isObjectLike verdictRef then Inr []
      else let caseId = (if truthy (getp verdictRef ''caseId'') then JStr (js_String (getp verdictRef ''caseId'')) else JNull);
               verdictHash = (if truthy (getp verdictRef ''verdictHash'') then JStr (toLowerCase (js_String (getp verdictRef ''verdictHash''))) else JNull) in
        andThen (normalizeForCanonicalJson (JObj [(''caseId'', caseId), (''verdictHash'', verdictHash)]) ''$'' False) (\<lambda>ref.
        andThen (throwIf (getp ref ''caseId'' \<in> {JNull, JStr []}) (TypeError ''verdictRef.caseId is required'')) (\<lambda>_.
        andThen (throwIf (\<not> is_sha256_hex (js_String (orElse (getp ref ''verdictHash'') (JStr []))))
                   (TypeError ''verdictRef.verdictHash must be a 64-hex sha256'')) (\<lambda>_. Inr [(''verdictRef'', ref)]))))"

definition adjustmentProps :: "string \<Rightarrow> string \<Rightarrow> string \<Rightarrow> string \<Rightarrow> string \<Rightarrow> string \<Rightarrow> jsnum \<Rightarrow> string \<Rightarrow> string \<Rightarrow> props \<Rightarrow> props" where
  "adjustmentProps adjustmentId tenantId agreementHash receiptHash holdHash kind amount currency createdAt verdict =
     [(''schemaVersion'', JStr SETTLEMENT_ADJUSTMENT_SCHEMA_VERSION), (''adjustmentId'', JStr adjustmentId), (''tenantId'', JStr tenantId),
      (''agreementHash'', JStr agreementHash), (''receiptHash'', JStr receiptHash), (''holdHash'', JStr holdHash), (''kind'', JStr kind),
      (''amountCents'', JNum amount), (''currency'', JStr currency), (''createdAt'', JStr createdAt)] @ verdict"

definition buildSettlementAdjustmentV1 :: "(string \<Rightarrow> string) \<Rightarrow> string \<Rightarrow> jsval \<Rightarrow> jsval res" where
  "buildSettlementAdjustmentV1 H now args =
     andThen (assertIsoDate (orElse (getp args ''createdAt'') (JStr now)) ''createdAt'') (\<lambda>t.
     andThen (normalizeVerdictRef (getp args ''verdictRef'')) (\<lambda>verdict.
     andThen (normalizeId (getp args ''adjustmentId'') ''adjustmentId'' 3 200) (\<lambda>adjustmentId.
     andThen (normalizeId (getp args ''tenantId'') ''tenantId'' 1 128) (\<lambda>tenantId.
     andThen (normalizeHexHash (getp args ''agreementHash'') ''agreementHash'') (\<lambda>agreementHash.
     andThen (normalizeHexHash (getp args ''receiptHash'') ''receiptHash'') (\<lambda>receiptHash.
     andThen (normalizeHexHash (getp args ''holdHash'') ''holdHash'') (\<lambda>holdHash.
     andThen (normalizeKind (getp args ''kind'') ''kind'') (\<lambda>kind.
     andThen (assertNonNegativeSafeInt (getp args ''amountCents'') ''amountCents'') (\<lambda>_.
     andThen (normalizeCurrency (getp args ''currency'') ''currency'') (\<lambda>currency.
     andThen (normalizeForCanonicalJson
                (JObj (adjustmentProps adjustmentId tenantId agreementHash receiptHash holdHash kind (js_Number (getp args ''amountCents'')) currency t verdict))
                ''$'' False) (\<lambda>normalized.
     andThen (computeSettlementAdjustmentHashV1 H normalized) (\<lambda>adjustmentHash.
     let out = spread (own_props normalized) [(''adjustmentHash'', JStr adjustmentHash)] in
     if isObjectLike (getp args ''metadata'')
     then andThen (normalizeForCanonicalJson (getp args ''metadata'') ''$'' False) (\<lambda>m.
            normalizeForCanonicalJson (JObj (put_prop ''metadata'' m out)) ''$'' False)
     else normalizeForCanonicalJson (JObj out) ''$'' False))))))))))))"

definition verdictRefCheck :: "jsval \<Rightarrow> unit res" where
  "verdictRefCheck ref =
     (if nullish ref then Inr ()
      else andThen (assertPlainObject ref ''adjustment.verdictRef'') (\<lambda>_.
           andThen (assertNonEmptyString (getp ref ''caseId'') ''adjustment.verdictRef.caseId'') (\<lambda>_.
           andThen (normalizeHexHash (getp ref ''verdictHash'') ''adjustment.verdictRef.verdictHash'') (\<lambda>_. Inr ()))))"

definition validateSettlementAdjustmentV1 :: "(string \<Rightarrow> string) \<Rightarrow> jsval \<Rightarrow> unit res" where
  "validateSettlementAdjustmentV1 H a =
     andThen (assertPlainObject a ''adjustment'') (\<lambda>_.
     andThen (throwIf (getp a ''schemaVersion'' \<noteq> JStr SETTLEMENT_ADJUSTMENT_SCHEMA_VERSION)
                (TypeError (''adjustment.schemaVersion must be '' @ SETTLEMENT_ADJUSTMENT_SCHEMA_VERSION))) (\<lambda>_.
     andThen (normalizeId (getp a ''adjustmentId'') ''adjustment.adjustmentId'' 3 200) (\<lambda>_.
     andThen (normalizeId (getp a ''tenantId'') ''adjustment.tenantId'' 1 128) (\<lambda>_.
     andThen (normalizeHexHash (getp a ''agreementHash'') ''adjustment.agreementHash'') (\<lambda>_.
     andThen (normalizeHexHash (getp a ''receiptHash'') ''adjustment.receiptHash'') (\<lambda>_.
     andThen (normalizeHexHash (getp a ''holdHash'') ''adjustment.holdHash'') (\<lambda>_.
     andThen (normalizeKind (getp a ''kind'') ''adjustment.kind'') (\<lambda>_.
     andThen (assertNonNegativeSafeInt (getp a ''amountCents'') ''adjustment.amountCents'') (\<lambda>_.
     andThen (normalizeCurrency (getp a ''currency'') ''adjustment.currency'') (\<lambda>_.
     andThen (verdictRefCheck (getp a ''verdictRef'')) (\<lambda>_.
     andThen (assertIsoDate (getp a ''createdAt'') ''adjustment.createdAt'') (\<lambda>_.
     andThen (normalizeHexHash (getp a ''adjustmentHash'') ''adjustment.adjustmentHash'') (\<lambda>hash.
     andThen (computeSettlementAdjustmentHashV1 H a) (\<lambda>computed.
       throwIf (computed \<noteq> hash) (TypeError ''adjustmentHash mismatch'')))))))))))))))"

interpretation adjustment_doc: hashed_document computeSettlementAdjustmentHashV1 validateSettlementAdjustmentV1 "''adjustmentHash''" adjustment_loose
proof unfold_locales
  fix H d h
  assume "computeSettlementAdjustmentHashV1 H d = Inr h"
  then show "\<exists>ps n text. d = JObj ps \<and> normalizeForCanonicalJson (JObj (without adjustment_loose ps)) ''$'' False = Inr n
      \<and> canonicalJsonStringify n = Inr text \<and> h = H text"
    by (cases d) (auto simp: computeSettlementAdjustmentHashV1_def andThen_Inr_iff assertPlainObject_def isObjectLike_def own_props_def)
next
  fix H d
  assume "validateSettlementAdjustmentV1 H d = Inr ()"
  then obtain g where h: "normalizeHexHash (getp d ''adjustmentHash'') ''adjustment.adjustmentHash'' = Inr g" "computeSettlementAdjustmentHashV1 H d = Inr g"
    unfolding validateSettlementAdjustmentV1_def andThen_Inr_iff throwIf_Inr_iff by blast
  then show "\<exists>s. getp d ''adjustmentHash'' = JStr s \<and> computeSettlementAdjustmentHashV1 H d = Inr (toLowerCase (trim s))"
    by (auto simp: normalizeHexHash_def res_simps Let_def)
qed

section \<open>What is built is accepted\<close>

inductive verdict_shape :: "props \<Rightarrow> bool" where
  none: "verdict_shape []"
| some: "c \<noteq> [] \<Longrightarrow> is_sha256_hex h \<Longrightarrow> verdict_shape [(''verdictRef'', JObj [(''caseId'', JStr c), (''verdictHash'', JStr h)])]"

lemma verdict_Inr:
  assumes "normalizeVerdictRef v = Inr ps"
  shows "verdict_shape ps"
proof (cases "isObjectLike v")
  case False
  then show ?thesis using assms by (simp add: normalizeVerdictRef_def verdict_shape.none)
next
  case True
  define c where "c = (if truthy (getp v ''caseId'') then JStr (js_String (getp v ''caseId'')) else JNull)"
  define h where "h = (if truthy (getp v ''verdictHash'') then JStr (toLowerCase (js_String (getp v ''verdictHash''))) else JNull)"
  have lit: "literal_doc (JObj [(''caseId'', c), (''verdictHash'', h)])" "neg_zero_free (JObj [(''caseId'', c), (''verdictHash'', h)])"
    by (simp_all add: c_def h_def plain_keys_def plain_key_def is_digit_def)
  from assms True have a: "c \<noteq> JNull" "c \<noteq> JStr []" "is_sha256_hex (js_String (orElse h (JStr [])))" and ps: "ps = [(''verdictRef'', JObj [(''caseId'', c), (''verdictHash'', h)])]"
    using normalize_literal_id[OF lit] unfolding normalizeVerdictRef_def Let_def c_def[symmetric] h_def[symmetric]
    by (simp_all add: andThen_Inr_iff throwIf_Inr_iff)
  then obtain s where c: "c = JStr s" "s \<noteq> []" by (auto simp: c_def split: if_splits)
  have "h \<noteq> JNull" using a(3) by (auto simp: is_sha256_hex_def)
  then obtain t where "h = JStr t" by (auto simp: h_def split: if_splits)
  then show ?thesis using a(3) c ps by (simp add: verdict_shape.some)
qed

inductive adjustment_shape :: "props \<Rightarrow> props \<Rightarrow> bool" where
  "adjustment_shape verdict (adjustmentProps adjustmentId tenantId agreementHash receiptHash holdHash kind amount currency createdAt verdict)"
  if "good_id 3 200 adjustmentId" "good_id 1 128 tenantId" "is_sha256_hex agreementHash" "is_sha256_hex receiptHash" "is_sha256_hex holdHash"
    "kind \<in> set SETTLEMENT_ADJUSTMENT_KIND" "safe_int amount = Some n" "0 \<le> n" "is_currency_code currency" "is_iso createdAt" "verdict_shape verdict"

lemma adjustment_literal: "adjustment_shape verdict base \<Longrightarrow> literal_doc (JObj base)"
  using safe_int_finite
  by (auto elim!: adjustment_shape.cases verdict_shape.cases simp: adjustmentProps_def plain_keys_def plain_key_def is_digit_def)

lemma adjustment_keys: "adjustment_shape verdict base \<Longrightarrow> fst ` set base \<inter> set adjustment_loose = {}"
  by (auto elim!: adjustment_shape.cases verdict_shape.cases simp: adjustmentProps_def adjustment_loose_def)

lemma kind_pass: "k \<in> set SETTLEMENT_ADJUSTMENT_KIND \<Longrightarrow> normalizeKind (JStr k) name = Inr k"
proof -
  assume k: "k \<in> set SETTLEMENT_ADJUSTMENT_KIND"
  then have "toLowerCase (trim k) = k" by (auto simp: SETTLEMENT_ADJUSTMENT_KIND_def trim_def is_ws_def toLowerCase_def lower_char_def)
  then show ?thesis using k by (simp add: normalizeKind_def Let_def)
qed

lemma kind_Inr: "normalizeKind v name = Inr k \<Longrightarrow> k \<in> set SETTLEMENT_ADJUSTMENT_KIND"
  by (auto simp: normalizeKind_def Let_def split: if_splits)

lemma adjustment_valid:
  assumes base: "adjustment_shape verdict base" and h: "computeSettlementAdjustmentHashV1 H (JObj base) = Inr h" "is_sha256_hex h"
    and ex: "extra = [] \<or> (\<exists>m. extra = [(''metadata'', m)])"
  shows "validateSettlementAdjustmentV1 H (JObj (base @ (''adjustmentHash'', JStr h) # extra)) = Inr ()
     \<longleftrightarrow> verdict = [] \<or> (\<exists>s. getp (getp (JObj base) ''verdictRef'') ''caseId'' = JStr s \<and> trim s \<noteq> [])"
proof -
  let ?rest = "(''adjustmentHash'', JStr h) # extra" and ?d = "JObj (base @ (''adjustmentHash'', JStr h) # extra)"
  have keys: "fst ` set ?rest \<subseteq> set adjustment_loose" using ex by (auto simp: adjustment_loose_def)
  have "without adjustment_loose base = base" using adjustment_keys[OF base] by (rule without_none)
  moreover have "without adjustment_loose ?rest = []" using keys by (rule without_all)
  ultimately have c: "computeSettlementAdjustmentHashV1 H ?d = Inr h"
    using h by (simp add: computeSettlementAdjustmentHashV1_def own_props_def without_append assertPlainObject_def isObjectLike_def)
  have hf: "getp ?d ''adjustmentHash'' = JStr h" using adjustment_keys[OF base] by (auto simp: getp_appended adjustment_loose_def)
  have p: "assertPlainObject ?d nm = Inr ()" for nm by (simp add: assertPlainObject_def isObjectLike_def)
  from base show ?thesis
  proof cases
    case (1 aid ten agr rec hold kind amount n cur crt)
    have f: "getp ?d ''schemaVersion'' = JStr SETTLEMENT_ADJUSTMENT_SCHEMA_VERSION" "getp ?d ''adjustmentId'' = JStr aid" "getp ?d ''tenantId'' = JStr ten"
      "getp ?d ''agreementHash'' = JStr agr" "getp ?d ''receiptHash'' = JStr rec" "getp ?d ''holdHash'' = JStr hold" "getp ?d ''kind'' = JStr kind"
      "getp ?d ''amountCents'' = JNum amount" "getp ?d ''currency'' = JStr cur" "getp ?d ''createdAt'' = JStr crt"
      by (simp_all add: 1(1) adjustmentProps_def)
    have i: "assertNonNegativeSafeInt (JNum amount) nm = Inr n" for nm using 1 by (simp add: assertNonNegativeSafeInt_iff isSafeNumber_def)
    have v: "validateSettlementAdjustmentV1 H ?d = Inr () \<longleftrightarrow> verdictRefCheck (getp ?d ''verdictRef'') = Inr ()"
      using 1(2-) h(2) unfolding validateSettlementAdjustmentV1_def p f hf c i by (simp add: kind_pass andThen_Inr_iff)
    show ?thesis unfolding v
    proof (rule verdict_shape.cases[OF 1(12)])
      assume none: "verdict = []"
      then have "getp ?d ''verdictRef'' = JUndef" using ex by (auto simp: 1(1) adjustmentProps_def)
      then show "verdictRefCheck (getp ?d ''verdictRef'') = Inr () \<longleftrightarrow> verdict = [] \<or> (\<exists>s. getp (getp (JObj base) ''verdictRef'') ''caseId'' = JStr s \<and> trim s \<noteq> [])"
        using none by (simp add: verdictRefCheck_def nullish_def)
    next
      fix cid vh assume some: "verdict = [(''verdictRef'', JObj [(''caseId'', JStr cid), (''verdictHash'', JStr vh)])]" "cid \<noteq> []" "is_sha256_hex vh"
      have "getp ?d ''verdictRef'' = JObj [(''caseId'', JStr cid), (''verdictHash'', JStr vh)]" "getp (JObj base) ''verdictRef'' = JObj [(''caseId'', JStr cid), (''verdictHash'', JStr vh)]"
        by (simp_all add: 1(1) adjustmentProps_def some)
      then show "verdictRefCheck (getp ?d ''verdictRef'') = Inr () \<longleftrightarrow> verdict = [] \<or> (\<exists>s. getp (getp (JObj base) ''verdictRef'') ''caseId'' = JStr s \<and> trim s \<noteq> [])"
        using some by (auto simp: verdictRefCheck_def nullish_def assertPlainObject_def isObjectLike_def assertNonEmptyString_def)
    qed
  qed
qed

text \<open>What \<^verbatim>\<open>buildSettlementAdjustmentV1\<close> returns, \<^verbatim>\<open>validateSettlementAdjustmentV1\<close> accepts, with one exception: a
  verdict reference whose case id consists of blanks is built but not accepted.\<close>

theorem adjustment_build_validates:
  assumes "buildSettlementAdjustmentV1 H now args = Inr a" and hex: "\<And>x. is_sha256_hex (H x)" and "json_metadata (getp args ''metadata'')"
  shows "validateSettlementAdjustmentV1 H a = Inr () \<longleftrightarrow>
     getp a ''verdictRef'' = JUndef \<or> (\<exists>s. getp (getp a ''verdictRef'') ''caseId'' = JStr s \<and> trim s \<noteq> [])"
proof -
  let ?am = "getp args ''amountCents''" and ?meta = "getp args ''metadata''"
  from assms(1) obtain t verdict aid ten agr rec hold kind n cur normalized h where
    s: "assertIsoDate (orElse (getp args ''createdAt'') (JStr now)) ''createdAt'' = Inr t" "normalizeVerdictRef (getp args ''verdictRef'') = Inr verdict"
      "normalizeId (getp args ''adjustmentId'') ''adjustmentId'' 3 200 = Inr aid" "normalizeId (getp args ''tenantId'') ''tenantId'' 1 128 = Inr ten"
      "normalizeHexHash (getp args ''agreementHash'') ''agreementHash'' = Inr agr" "normalizeHexHash (getp args ''receiptHash'') ''receiptHash'' = Inr rec"
      "normalizeHexHash (getp args ''holdHash'') ''holdHash'' = Inr hold" "normalizeKind (getp args ''kind'') ''kind'' = Inr kind"
      "assertNonNegativeSafeInt ?am ''amountCents'' = Inr n" "normalizeCurrency (getp args ''currency'') ''currency'' = Inr cur"
    and nz: "normalizeForCanonicalJson (JObj (adjustmentProps aid ten agr rec hold kind (js_Number ?am) cur t verdict)) ''$'' False = Inr normalized"
    and h: "computeSettlementAdjustmentHashV1 H normalized = Inr h"
    and out: "(let out = spread (own_props normalized) [(''adjustmentHash'', JStr h)] in if isObjectLike ?meta
     then andThen (normalizeForCanonicalJson ?meta ''$'' False) (\<lambda>m. normalizeForCanonicalJson (JObj (put_prop ''metadata'' m out)) ''$'' False)
     else normalizeForCanonicalJson (JObj out) ''$'' False) = Inr a"
    unfolding buildSettlementAdjustmentV1_def andThen_Inr_iff[of "assertIsoDate _ _"] andThen_Inr_iff[of "normalizeVerdictRef _"] andThen_Inr_iff[of "normalizeId _ _ _ _"]
      andThen_Inr_iff[of "normalizeHexHash _ _"] andThen_Inr_iff[of "normalizeKind _ _"] andThen_Inr_iff[of "assertNonNegativeSafeInt _ _"]
      andThen_Inr_iff[of "normalizeCurrency _ _"] andThen_Inr_iff[of "normalizeForCanonicalJson (JObj (adjustmentProps _ _ _ _ _ _ _ _ _ _)) _ _"]
      andThen_Inr_iff[of "computeSettlementAdjustmentHashV1 _ _"]
    by (elim exE conjE) (rule that; assumption)
  define base where "base = adjustmentProps aid ten agr rec hold kind (js_Number ?am) cur t verdict"
  have shape: "adjustment_shape verdict base" unfolding base_def
    using s by (intro adjustment_shape.intros[where n = n])
      (auto simp: assertNonNegativeSafeInt_iff isSafeNumber_def dest: normalizeId_Inr normalizeHexHash_Inr normalizeCurrency_Inr kind_Inr verdict_Inr iso_of)
  have n: "normalized = JObj base" using nz adjustment_literal[OF shape] by (simp add: base_def[symmetric] normalize_literal)
  have hx: "is_sha256_hex h" using h hex by (auto simp: computeSettlementAdjustmentHashV1_def andThen_Inr_iff)
  have keys: "''adjustmentHash'' \<notin> fst ` set base" "''metadata'' \<notin> fst ` set base" using adjustment_keys[OF shape] by (auto simp: adjustment_loose_def)
  have lit: "literal_doc (JObj (base @ [(''adjustmentHash'', JStr h)]))" and pk: "plain_keys (base @ [(''adjustmentHash'', JStr h)])"
    using adjustment_literal[OF shape] keys by (auto simp: plain_keys_def plain_key_def is_digit_def)
  have sp: "spread (own_props normalized) [(''adjustmentHash'', JStr h)] = base @ [(''adjustmentHash'', JStr h)]"
    using spread_plain[OF pk] by (simp add: n own_props_def)
  have "\<exists>extra. (extra = [] \<or> (\<exists>m. extra = [(''metadata'', m)])) \<and> a = JObj (base @ (''adjustmentHash'', JStr h) # extra)"
  proof (cases "isObjectLike ?meta")
    case False
    then show ?thesis using out lit by (simp add: sp normalize_literal)
  next
    case True
    then have ml: "literal_doc ?meta" using assms(3) by (simp add: json_metadata_def)
    have "put_prop ''metadata'' m (base @ [(''adjustmentHash'', JStr h)]) = base @ [(''adjustmentHash'', JStr h), (''metadata'', m)]" for m
      using keys by (simp add: put_prop_append is_digit_def) (simp add: put_prop_def is_digit_def)
    moreover have "literal_doc (JObj (base @ [(''adjustmentHash'', JStr h), (''metadata'', ?meta)]))"
      using lit ml keys by (auto simp: plain_keys_def plain_key_def is_digit_def)
    ultimately show ?thesis using out True ml by (auto simp: sp Let_def andThen_Inr_iff normalize_literal)
  qed
  then obtain extra where ex: "extra = [] \<or> (\<exists>m. extra = [(''metadata'', m)])" and a: "a = JObj (base @ (''adjustmentHash'', JStr h) # extra)" by blast
  have "getp a ''verdictRef'' = getp (JObj base) ''verdictRef''" "getp (JObj base) ''verdictRef'' = JUndef \<longleftrightarrow> verdict = []"
    using ex verdict_Inr[OF s(2)] by (auto simp: a getp_appended getp_missing base_def adjustmentProps_def elim!: verdict_shape.cases)
  then show ?thesis using adjustment_valid[OF shape h[unfolded n] hx ex] by (simp add: a)
qed

text \<open>C29: The hash binds the content. Two delegations, or two adjustments, that validation accepts and that carry the
  same hash agree on every field under the hash, up to the order of object keys, unless they exhibit a
  collision of SHA-256 (\<open>inj_on\<close> rules out just that collision).\<close>

theorem document_hash_binds:
  assumes "(valid, field, loose) \<in> {(validateAgreementDelegationV1, ''delegationHash'', mutable_fields),
        (validateSettlementAdjustmentV1, ''adjustmentHash'', adjustment_loose)}"
    and "valid H d = Inr ()" and "valid H e = Inr ()" and "getp d field = getp e field"
    and "literal_doc d \<and> hashable d" and "literal_doc e \<and> hashable e"
    and "\<And>x. is_sha256_hex (H x)" and "inj_on H {core_text loose d, core_text loose e}" and "k \<notin> set loose"
  shows "json_equiv (getp d k) (getp e k)"
  using assms delegation_doc.same_hash_same_content[of H d e k] adjustment_doc.same_hash_same_content[of H d e k] by auto

section \<open>Examples\<close>

lemma sample_settled_literal: "literal_doc sample_settled \<and> hashable sample_settled" "literal_doc sample_active \<and> hashable sample_active"
  by (simp_all add: sample_settled_def sample_active_def sample_core_def coreProps_def plain_keys_def plain_key_def is_digit_def is_safe_bounds)

lemma sample_same_text: "core_text mutable_fields sample_settled = core_text mutable_fields sample_active"
proof -
  have "without mutable_fields (own_props sample_settled) = without mutable_fields (own_props sample_active)"
    by (simp add: sample_settled_def sample_active_def own_props_def without_append) (simp add: without_def mutable_fields_def)
  then show ?thesis by (simp add: core_text_def)
qed

lemma sample_settled_valid: "validateAgreementDelegationV1 const_hash sample_settled = Inr ()"
proof -
  have "json_metadata JNull" by (simp add: json_metadata_def isObjectLike_def)
  then have "delegation_history const_hash sample_active sample_settled"
    by (rule delegation_history.resolved[OF delegation_history.built[OF sample_built] sample_resolved])
  from history_form[OF this const_hash_hex] show ?thesis using form_valid by blast
qed

theorem document_hash_binds_witness: "json_equiv (getp sample_active ''tenantId'') (getp sample_settled ''tenantId'')"
proof (rule document_hash_binds[OF insertI1 sample_valid sample_settled_valid _ sample_settled_literal(2,1) const_hash_hex])
  show "getp sample_active ''delegationHash'' = getp sample_settled ''delegationHash''"
    by (simp add: sample_active_def sample_settled_def sample_core_def coreProps_def)
  show "inj_on const_hash {core_text mutable_fields sample_active, core_text mutable_fields sample_settled}"
    using sample_same_text by simp
qed (simp add: mutable_fields_def)

definition blank_case_args :: jsval where
  "blank_case_args = JObj [(''adjustmentId'', JStr ''adj_1''), (''tenantId'', JStr ''t''), (''agreementHash'', JStr (sample_hash (CHR ''a''))),
     (''receiptHash'', JStr (sample_hash (CHR ''b''))), (''holdHash'', JStr (sample_hash (CHR ''c''))), (''kind'', JStr ''holdback_refund''),
     (''amountCents'', JInt 10), (''createdAt'', JStr ''2026-01-01T00:00:00.000Z''),
     (''verdictRef'', JObj [(''caseId'', JStr '' ''), (''verdictHash'', JStr (sample_hash (CHR ''d'')))])]"

definition blank_case_base :: props where
  "blank_case_base = adjustmentProps ''adj_1'' ''t'' (sample_hash (CHR ''a'')) (sample_hash (CHR ''b'')) (sample_hash (CHR ''c'')) ''holdback_refund''
     (num_of_int 10) ''USD'' ''2026-01-01T00:00:00.000Z'' [(''verdictRef'', JObj [(''caseId'', JStr '' ''), (''verdictHash'', JStr (sample_hash (CHR ''d'')))])]"

lemma blank_case_fields:
  "assertIsoDate (orElse (getp blank_case_args ''createdAt'') (JStr [])) ''createdAt'' = Inr ''2026-01-01T00:00:00.000Z''"
  "normalizeVerdictRef (getp blank_case_args ''verdictRef'') = Inr [(''verdictRef'', JObj [(''caseId'', JStr '' ''), (''verdictHash'', JStr (sample_hash (CHR ''d'')))])]"
  "normalizeId (getp blank_case_args ''adjustmentId'') ''adjustmentId'' 3 200 = Inr ''adj_1''" "normalizeId (getp blank_case_args ''tenantId'') ''tenantId'' 1 128 = Inr ''t''"
  "normalizeHexHash (getp blank_case_args ''agreementHash'') ''agreementHash'' = Inr (sample_hash (CHR ''a''))"
  "normalizeHexHash (getp blank_case_args ''receiptHash'') ''receiptHash'' = Inr (sample_hash (CHR ''b''))"
  "normalizeHexHash (getp blank_case_args ''holdHash'') ''holdHash'' = Inr (sample_hash (CHR ''c''))"
  "normalizeKind (getp blank_case_args ''kind'') ''kind'' = Inr ''holdback_refund''" "assertNonNegativeSafeInt (getp blank_case_args ''amountCents'') ''amountCents'' = Inr 10"
  "normalizeCurrency (getp blank_case_args ''currency'') ''currency'' = Inr ''USD''" "js_Number (getp blank_case_args ''amountCents'') = num_of_int 10"
  "isObjectLike (getp blank_case_args ''metadata'') = False"
  by code_simp+

lemma blank_case_literal: "literal_doc (JObj blank_case_base)" "neg_zero_free (JObj blank_case_base)"
  "literal_doc (JObj (blank_case_base @ [(''adjustmentHash'', JStr h)]))" "neg_zero_free (JObj (blank_case_base @ [(''adjustmentHash'', JStr h)]))"
  by (simp_all add: blank_case_base_def adjustmentProps_def plain_keys_def plain_key_def is_digit_def)

lemma blank_case_hash: "computeSettlementAdjustmentHashV1 const_hash (JObj blank_case_base) = Inr (sample_hash (CHR ''0''))"
proof -
  have "without adjustment_loose blank_case_base = blank_case_base"
    by (intro without_none) (simp add: blank_case_base_def adjustmentProps_def adjustment_loose_def)
  then show ?thesis using blank_case_literal canonicalize_literal[OF blank_case_literal(1,2)]
    by (auto simp: computeSettlementAdjustmentHashV1_def own_props_def assertPlainObject_def isObjectLike_def canonicalJsonStringify_def const_hash_def sample_hash_def)
qed

lemma blank_case_built: "buildSettlementAdjustmentV1 const_hash [] blank_case_args = Inr (JObj (blank_case_base @ [(''adjustmentHash'', JStr (sample_hash (CHR ''0'')))]))"
proof -
  have "spread blank_case_base [(''adjustmentHash'', JStr h)] = blank_case_base @ [(''adjustmentHash'', JStr h)]" for h
    using blank_case_literal(3)[of h] by (intro spread_plain) simp
  then show ?thesis
    unfolding buildSettlementAdjustmentV1_def blank_case_fields andThen_simps blank_case_base_def[symmetric] normalize_literal_id[OF blank_case_literal(1,2)] blank_case_hash
    using blank_case_literal by (simp add: own_props_def)
qed

theorem adjustment_build_validates_witness:
  "validateSettlementAdjustmentV1 const_hash (JObj (blank_case_base @ [(''adjustmentHash'', JStr (sample_hash (CHR ''0'')))])) \<noteq> Inr ()"
proof -
  have "json_metadata (getp blank_case_args ''metadata'')" using blank_case_fields(12) by (simp add: json_metadata_def)
  from adjustment_build_validates[OF blank_case_built const_hash_hex this]
  show ?thesis by (simp add: blank_case_base_def adjustmentProps_def trim_def is_ws_def)
qed

end
