(* ===== verification/NormalForm.thy ===== *)
theory NormalForm
  imports Documents
begin

text \<open>
  Normal documents: the fixed points of \<open>normalizeForCanonicalJson\<close>. What the function returns is normal, so
  normalizing is idempotent, for every value it accepts: dates, undefined properties, array-index keys and a key
  \<^verbatim>\<open>__proto__\<close> included. A normal object literal stays normal when an ordinary field is appended to it, as the builders
  of \<^verbatim>\<open>src/core\<close> do with the hash of a document.
\<close>

section \<open>The order of properties\<close>

text \<open>An object lists its array indices in ascending order before its other keys.\<close>

definition key_before :: "string \<Rightarrow> string \<Rightarrow> bool" where
  "key_before k k' = (case array_index k of
      Some i \<Rightarrow> (case array_index k' of Some j \<Rightarrow> i \<le> j | None \<Rightarrow> True)
    | None \<Rightarrow> array_index k' = None)"

definition ordered :: "props \<Rightarrow> bool" where
  "ordered ps \<longleftrightarrow> sorted_wrt key_before (map fst ps) \<and> distinct (map fst ps) \<and> ''__proto__'' \<notin> fst ` set ps"

lemma key_before_trans: "key_before a b \<Longrightarrow> key_before b c \<Longrightarrow> key_before a c"
  by (auto simp: key_before_def split: option.splits)

lemma key_before_total: "key_before a b \<or> key_before b a"
  by (auto simp: key_before_def split: option.splits)

lemma fst_insert_prop: "fst ` set (insert_prop k v ps) = insert k (fst ` set ps)"
  by (induction ps) (auto split: option.splits)

lemma insert_ordered:
  "sorted_wrt key_before (map fst ps) \<Longrightarrow> sorted_wrt key_before (map fst (insert_prop k v ps))"
proof (induction ps)
  case (Cons p ps)
  obtain k' v' where p: "p = (k', v')" by (cases p)
  have "insert_prop k v (p # ps) = (k, v) # p # ps \<and> key_before k k' \<or> insert_prop k v (p # ps) = p # insert_prop k v ps \<and> key_before k' k"
    by (auto simp: p key_before_def split: option.splits)
  then show ?case
  proof
    assume "insert_prop k v (p # ps) = (k, v) # p # ps \<and> key_before k k'"
    then show ?thesis using Cons.prems by (auto simp: p intro: key_before_trans)
  next
    assume "insert_prop k v (p # ps) = p # insert_prop k v ps \<and> key_before k' k"
    then show ?thesis using Cons.prems Cons.IH fst_insert_prop[of k v ps] by (auto simp: p)
  qed
qed simp

lemma replace_keys: "map fst (replace_prop k v ps) = map fst ps"
  by (induction ps) auto

lemma put_ordered:
  assumes "ordered ps" and "k \<noteq> ''__proto__''"
  shows "ordered (put_prop k v ps)"
proof (cases "k \<in> fst ` set ps")
  case True
  have "fst ` set (replace_prop k v ps) = fst ` set ps" by (metis replace_keys list.set_map)
  then show ?thesis using True assms by (simp add: ordered_def put_prop_def replace_keys)
next
  case False
  then show ?thesis using assms insert_ordered[of ps k v] distinct_insert_prop[of k ps v] fst_insert_prop[of k v ps]
    by (auto simp: ordered_def put_prop_def)
qed

lemma assign_ordered: "ordered ps \<Longrightarrow> ordered (assign_props ps qs)"
proof (induction qs arbitrary: ps)
  case (Cons q qs)
  have "ordered (set_prop (fst q) (snd q) ps)" using Cons.prems put_ordered by (simp add: set_prop_def)
  from Cons.IH[OF this] show ?case by (simp add: assign_props_def case_prod_unfold)
qed (simp add: assign_props_def)

lemma insert_last:
  "(\<And>q. q \<in> fst ` set ps \<Longrightarrow> key_before q k) \<Longrightarrow> insert_prop k v ps = ps @ [(k, v)]"
proof (induction ps)
  case (Cons p ps)
  have b: "key_before (fst p) k" using Cons.prems by simp
  have "insert_prop k v ps = ps @ [(k, v)]" using Cons by simp
  then show ?case using b by (cases p) (auto simp: key_before_def split: option.splits)
qed simp

lemma ordered_append:
  assumes "ordered (ps @ [(k, v)])"
  shows "set_prop k v ps = ps @ [(k, v)]" and "ordered ps"
proof -
  have "key_before q k" if "q \<in> fst ` set ps" for q
    using assms that by (auto simp: ordered_def sorted_wrt_append)
  moreover have "k \<notin> fst ` set ps" "k \<noteq> ''__proto__''" using assms by (auto simp: ordered_def)
  ultimately show "set_prop k v ps = ps @ [(k, v)]" by (simp add: set_prop_def put_prop_def insert_last)
  show "ordered ps" using assms by (auto simp: ordered_def sorted_wrt_append)
qed

lemma assign_fixed: "ordered ps \<Longrightarrow> assign_props [] ps = ps"
proof (induction ps rule: rev_induct)
  case (snoc p ps)
  obtain k v where p: "p = (k, v)" by (cases p)
  from snoc ordered_append[of ps k v] show ?case by (simp add: p assign_props_def)
qed (simp add: assign_props_def)

lemma set_replace_subset: "set (replace_prop k v ps) \<subseteq> insert (k, v) (set ps)"
  by (induction ps) (auto split: if_splits)

lemma set_assign: "set (assign_props ps qs) \<subseteq> set ps \<union> set qs"
proof (induction qs arbitrary: ps)
  case (Cons q qs)
  have "set (set_prop (fst q) (snd q) ps) \<subseteq> insert q (set ps)"
    using set_replace_subset[of "fst q" "snd q" ps] by (auto simp: set_prop_def put_prop_def set_insert_prop)
  moreover have "assign_props ps (q # qs) = assign_props (set_prop (fst q) (snd q) ps) qs" by (simp add: assign_props_def case_prod_unfold)
  ultimately show ?case using Cons.IH[of "set_prop (fst q) (snd q) ps"] by auto
qed (simp add: assign_props_def)

section \<open>Normal values\<close>

definition normal :: "jsval \<Rightarrow> bool" where
  "normal v \<longleftrightarrow> (\<forall>path a. normalizeForCanonicalJson v path a = Inr v)"

lemma normal_array: "\<forall>x \<in> set xs. normal x \<Longrightarrow> normal (JArr xs)"
proof -
  assume a: "\<forall>x \<in> set xs. normal x"
  have "mapRes (\<lambda>p. normalizeForCanonicalJson (snd p) (path @ ''['' @ show_int (int (fst p)) @ '']'') True) (enumerate 0 xs)
    = Inr (map snd (enumerate 0 xs))" for path
    using a by (intro mapRes_pure) (metis enumerate_snd_mem normal_def)
  then show ?thesis by (simp add: normal_def normalizeForCanonicalJson.simps(9))
qed

lemma normal_object:
  assumes "ordered ps" and "\<forall>p \<in> set ps. snd p \<noteq> JUndef \<and> normal (snd p)"
  shows "normal (JObj ps)"
proof -
  have "mapRes (\<lambda>p. andThen (normalizeForCanonicalJson (snd p) (path @ ''.'' @ fst p) False) (\<lambda>w. Inr (fst p, w))) ps = Inr (map (\<lambda>p. p) ps)" for path
    using assms(2) by (intro mapRes_pure) (auto simp: normal_def)
  moreover have "drop_undef ps = ps" using assms(2) by (auto simp: drop_undef_def intro!: filter_True)
  ultimately show ?thesis using assign_fixed[OF assms(1)]
    by (simp add: normal_def normalizeForCanonicalJson.simps(10) build_obj_def)
qed

text \<open>Whatever normalization returns is normal.\<close>

lemma normalize_normal:
  "normalizeForCanonicalJson v path a = Inr w \<Longrightarrow> w = JUndef \<or> normal w"
proof (induction v path a arbitrary: w rule: normalizeForCanonicalJson.induct)
  case (8 t path a)
  then show ?case by (auto simp: andThen_Inr_iff normal_def)
next
  case (9 xs path a)
  from "9.prems" obtain ys where w: "w = JArr ys"
    and l: "list_all2 (\<lambda>p y. normalizeForCanonicalJson (snd p) (path @ ''['' @ show_int (int (fst p)) @ '']'') True = Inr y) (enumerate 0 xs) ys"
    by (auto simp: normalizeForCanonicalJson.simps(9) andThen_Inr_iff mapRes_Inr_iff)
  have "normal y" if "y \<in> set ys" for y
  proof -
    from that obtain i where i: "i < length ys" "y = ys ! i" by (auto simp: in_set_conv_nth)
    define p where "p = enumerate 0 xs ! i"
    have p: "p \<in> set (enumerate 0 xs)" "normalizeForCanonicalJson (snd p) (path @ ''['' @ show_int (int (fst p)) @ '']'') True = Inr y"
      using i list_all2_nthD2[OF l i(1)] list_all2_lengthD[OF l] by (auto simp: p_def)
    have "y \<noteq> JUndef" using p(2) by (cases "snd p") (auto simp: andThen_Inr_iff normalizeForCanonicalJson.simps(9,10) build_obj_def split: if_splits)
    then show ?thesis using "9.IH"[OF p] by simp
  qed
  then show ?case by (simp add: w normal_array)
next
  case (10 ps path a)
  from "10.prems" obtain out where w: "w = build_obj (drop_undef out)"
    and l: "list_all2 (\<lambda>p q. andThen (normalizeForCanonicalJson (snd p) (path @ ''.'' @ fst p) False) (\<lambda>w. Inr (fst p, w)) = Inr q) ps out"
    by (auto simp: normalizeForCanonicalJson.simps(10) andThen_Inr_iff mapRes_Inr_iff)
  have "snd q = JUndef \<or> normal (snd q)" if "q \<in> set out" for q
  proof -
    from that obtain i where i: "i < length out" "q = out ! i" by (auto simp: in_set_conv_nth)
    have p: "ps ! i \<in> set ps" using i list_all2_lengthD[OF l] by simp
    from list_all2_nthD2[OF l i(1)] obtain w where n: "normalizeForCanonicalJson (snd (ps ! i)) (path @ ''.'' @ fst (ps ! i)) False = Inr w"
      and q: "out ! i = (fst (ps ! i), w)" unfolding andThen_Inr_iff by (elim exE conjE) simp
    from "10.IH"[OF p n] show ?thesis by (simp add: i(2) q)
  qed
  then have "\<forall>p \<in> set (assign_props [] (drop_undef out)). snd p \<noteq> JUndef \<and> normal (snd p)"
    using set_assign[of "[]" "drop_undef out"] by (auto simp: drop_undef_def)
  moreover have "ordered []" by (simp add: ordered_def)
  ultimately have "normal (JObj (assign_props [] (drop_undef out)))" by (intro normal_object assign_ordered)
  then show ?case by (simp add: w build_obj_def)
qed (auto simp: normal_def split: if_splits)

lemma normalize_object_normal: "normalizeForCanonicalJson (JObj ps) path a = Inr w \<Longrightarrow> normal w"
  using normalize_normal[of "JObj ps" path a w]
  by (auto simp: normalizeForCanonicalJson.simps(10) andThen_Inr_iff build_obj_def)

lemma normalized [simp]: "normal v \<Longrightarrow> normalizeForCanonicalJson v path a = Inr v"
  by (simp add: normal_def)

lemma normal_literal: "literal_doc v \<Longrightarrow> neg_zero_free v \<Longrightarrow> normal v"
  by (simp add: normal_def)

text \<open>The properties of a normal object.\<close>

lemma normal_obj_ordered:
  assumes "normal (JObj ps)"
  shows "ordered ps" and "\<forall>p \<in> set ps. snd p \<noteq> JUndef \<and> normal (snd p)"
proof -
  have "normalizeForCanonicalJson (JObj ps) [] False = Inr (JObj ps)" using assms by simp
  then obtain out where ps: "ps = assign_props [] (drop_undef out)"
    and l: "list_all2 (\<lambda>p q. andThen (normalizeForCanonicalJson (snd p) ([] @ ''.'' @ fst p) False) (\<lambda>w. Inr (fst p, w)) = Inr q) ps out"
    by (auto simp: normalizeForCanonicalJson.simps(10) andThen_Inr_iff mapRes_Inr_iff build_obj_def)
  show "ordered ps" by (subst ps) (rule assign_ordered, simp add: ordered_def)
  have "snd q \<noteq> JUndef \<longrightarrow> normal (snd q)" if "q \<in> set out" for q
  proof -
    from that obtain i where i: "i < length out" "q = out ! i" by (auto simp: in_set_conv_nth)
    from list_all2_nthD2[OF l i(1)] obtain w where n: "normalizeForCanonicalJson (snd (ps ! i)) ([] @ ''.'' @ fst (ps ! i)) False = Inr w"
      and q: "out ! i = (fst (ps ! i), w)" unfolding andThen_Inr_iff by (elim exE conjE) simp
    from normalize_normal[OF n] show ?thesis by (auto simp: i(2) q)
  qed
  moreover have "set ps \<subseteq> set (drop_undef out)" using set_assign[of "[]" "drop_undef out"] by (subst ps) simp
  ultimately show "\<forall>p \<in> set ps. snd p \<noteq> JUndef \<and> normal (snd p)" by (auto simp: drop_undef_def)
qed

lemma normal_append:
  assumes "normal (JObj ps)" and "plain_key k" and "k \<notin> fst ` set ps" and "v \<noteq> JUndef" and "normal v"
  shows "normal (JObj (ps @ [(k, v)]))" and "spread ps [(k, v)] = ps @ [(k, v)]"
proof -
  have b: "key_before q k" for q using assms(2) by (auto simp: plain_key_def key_before_def split: option.splits)
  have "ordered (ps @ [(k, v)])" using normal_obj_ordered(1)[OF assms(1)] assms(2,3) b
    by (auto simp: ordered_def sorted_wrt_append plain_key_def)
  then show "normal (JObj (ps @ [(k, v)]))" using normal_obj_ordered(2)[OF assms(1)] assms(4,5) by (intro normal_object) auto
  show "spread ps [(k, v)] = ps @ [(k, v)]"
    using assms(3) insert_last[of ps k v] b by (simp add: spread_def put_prop_def)
qed

end
