(* ===== verification/JsState.thy ===== *)
theory JsState
  imports Documents "HOL-Library.AList"
begin

text \<open>
  What the stateful modules of \<^verbatim>\<open>src/core\<close> share: calls that update a state and then return or throw, the copy
  \<^verbatim>\<open>JSON.parse(JSON.stringify(v))\<close> they hand out, and the updates of fixed-shape documents. A JavaScript \<^verbatim>\<open>Map\<close> whose
  order is observable is an association list; \<^verbatim>\<open>map.set(k, v)\<close> is \<open>AList.update\<close>, which keeps the place of a key
  that is present and appends otherwise.
\<close>

section \<open>Calls on a state\<close>

text \<open>The state after a call is returned even when the call throws.\<close>

type_synonym ('s, 'a) call = "'s \<times> 'a res"

definition tryIn :: "'s \<Rightarrow> 'a res \<Rightarrow> ('a \<Rightarrow> ('s, 'b) call) \<Rightarrow> ('s, 'b) call" where
  "tryIn s m f = (case m of Inl e \<Rightarrow> (s, Inl e) | Inr x \<Rightarrow> f x)"

definition thenIn :: "('s, 'a) call \<Rightarrow> ('s \<Rightarrow> 'a \<Rightarrow> ('s, 'b) call) \<Rightarrow> ('s, 'b) call" where
  "thenIn c f = (case c of (s, Inl e) \<Rightarrow> (s, Inl e) | (s, Inr x) \<Rightarrow> f s x)"

definition mapR :: "('a \<Rightarrow> 'b) \<Rightarrow> 'a res \<Rightarrow> 'b res" where
  "mapR f m = (case m of Inl e \<Rightarrow> Inl e | Inr x \<Rightarrow> Inr (f x))"

lemma mapR_simps [simp]: "mapR f (Inl e) = Inl e" "mapR f (Inr x) = Inr (f x)"
  by (simp_all add: mapR_def)

lemma mapR_Inr_iff: "mapR f m = Inr y \<longleftrightarrow> (\<exists>x. m = Inr x \<and> y = f x)"
  by (cases m) auto

lemma tryIn_simps [simp]: "tryIn s (Inl e) f = (s, Inl e)" "tryIn s (Inr x) f = f x"
  by (simp_all add: tryIn_def)

lemma thenIn_simps [simp]: "thenIn (s, Inl e) f = (s, Inl e)" "thenIn (s, Inr x) f = f s x"
  by (simp_all add: thenIn_def)

lemma tryIn_Inr_iff: "tryIn s m f = (s', Inr y) \<longleftrightarrow> (\<exists>x. m = Inr x \<and> f x = (s', Inr y))"
  by (cases m) auto

lemma tryIn_cases:
  assumes "tryIn s m f = r"
  obtains e where "m = Inl e" "r = (s, Inl e)" | x where "m = Inr x" "r = f x"
  using assms by (cases m) auto

text \<open>A property of the state holds after a call if it holds before it and after what follows.\<close>

lemma fst_tryInI: "Q s \<Longrightarrow> (\<And>x. m = Inr x \<Longrightarrow> Q (fst (f x))) \<Longrightarrow> Q (fst (tryIn s m f))"
  by (cases m) auto

lemma fst_tryIn: "fst (tryIn s m f) = (case m of Inl _ \<Rightarrow> s | Inr x \<Rightarrow> fst (f x))"
  by (cases m) auto

section \<open>Copies\<close>

text \<open>\<^verbatim>\<open>String(v ?? "").trim()\<close>\<close>

definition text_of :: "jsval \<Rightarrow> string" where
  "text_of v = trim (js_String (orElse v (JStr [])))"

text \<open>The value \<^verbatim>\<open>JSON.parse\<close> reads from the text \<^verbatim>\<open>JSON.stringify(v)\<close>: an undefined property or function is omitted,
  in an array it becomes null; a big integer throws. Property order is kept, since enumeration order is what
  \<^verbatim>\<open>JSON.stringify\<close> writes.\<close>

function json_copy :: "jsval \<Rightarrow> jsval res" where
  "json_copy JUndef = Inr JUndef"
| "json_copy (JFun s) = Inr JUndef"
| "json_copy JNull = Inr JNull"
| "json_copy (JBool b) = Inr (JBool b)"
| "json_copy (JStr s) = Inr (JStr s)"
| "json_copy (JNum n) = Inr (if \<not> isFinite n then JNull else if n = NegZero then JInt 0 else JNum n)"
| "json_copy (JBigInt n) = Inl (TypeError ''Do not know how to serialize a BigInt'')"
| "json_copy (JDate t) = Inr (case toISOString t of Inl _ \<Rightarrow> JNull | Inr s \<Rightarrow> JStr s)"
| "json_copy (JArr xs) = andThen (mapRes json_copy xs) (\<lambda>ys. Inr (JArr (map (\<lambda>y. orElse y JNull) ys)))"
| "json_copy (JObj ps) =
     andThen (mapRes (\<lambda>p. andThen (json_copy (snd p)) (\<lambda>w. Inr (fst p, w))) ps) (\<lambda>out. Inr (JObj (drop_undef out)))"
  by pat_completeness auto
termination by (relation "measure size") (auto simp del: jsval.size intro: size_elem)

text \<open>\<^verbatim>\<open>clone(value)\<close>. The text of a function is the undefined value, which \<^verbatim>\<open>JSON.parse\<close> rejects with a
  \<^verbatim>\<open>SyntaxError\<close>, represented by its base class.\<close>

definition clone :: "jsval \<Rightarrow> jsval res" where
  "clone v = (if nullish v then Inr v
     else case v of JFun _ \<Rightarrow> Inl (PlainError ''\"undefined\" is not valid JSON'') | _ \<Rightarrow> json_copy v)"

text \<open>JSON values are their own copies.\<close>

function json_value :: "jsval \<Rightarrow> bool" where
  "json_value JNull = True"
| "json_value (JBool b) = True"
| "json_value (JStr s) = True"
| "json_value (JNum n) = (isFinite n \<and> n \<noteq> NegZero)"
| "json_value (JArr xs) = list_all json_value xs"
| "json_value (JObj ps) = list_all (\<lambda>p. json_value (snd p)) ps"
| "json_value JUndef = False"
| "json_value (JFun s) = False"
| "json_value (JBigInt n) = False"
| "json_value (JDate t) = False"
  by pat_completeness auto
termination by (relation "measure size") (auto simp del: jsval.size intro: size_elem)

lemma json_copy_value: "json_value v \<Longrightarrow> json_copy v = Inr v"
proof (induction v rule: json_value.induct)
  case (5 xs)
  have "mapRes json_copy xs = Inr (map (\<lambda>x. x) xs)" using 5 by (intro mapRes_pure) (auto simp: list_all_iff)
  moreover have "map (\<lambda>y. orElse y JNull) xs = xs" using 5(2) by (intro map_idI) (auto simp: list_all_iff orElse_def nullish_def)
  ultimately show ?case by simp
next
  case (6 ps)
  have "mapRes (\<lambda>p. andThen (json_copy (snd p)) (\<lambda>w. Inr (fst p, w))) ps = Inr (map (\<lambda>x. x) ps)"
    using 6 by (intro mapRes_pure) (auto simp: list_all_iff)
  moreover have "drop_undef ps = ps" using 6(2) by (auto simp: drop_undef_def list_all_iff filter_id_conv)
  ultimately show ?case by simp
qed (auto simp: isFinite_def)

lemma clone_value: "json_value v \<Longrightarrow> clone v = Inr v"
  using json_copy_value[of v] by (cases v) (auto simp: clone_def nullish_def)

lemma build_obj_values:
  "list_all (\<lambda>p. json_value (snd p)) ps \<Longrightarrow> json_value (build_obj ps)"
proof -
  have ins: "list_all (\<lambda>p. json_value (snd p)) (insert_prop k v qs)" if "json_value v" "list_all (\<lambda>p. json_value (snd p)) qs" for k v qs
    using that by (induction qs) (auto split: option.splits)
  have rep: "list_all (\<lambda>p. json_value (snd p)) (replace_prop k v qs)" if "json_value v" "list_all (\<lambda>p. json_value (snd p)) qs" for k v qs
    using that by (induction qs) auto
  have "list_all (\<lambda>p. json_value (snd p)) (assign_props qs ps)"
    if "list_all (\<lambda>p. json_value (snd p)) ps" "list_all (\<lambda>p. json_value (snd p)) qs" for qs ps
    using that
  proof (induction ps arbitrary: qs)
    case (Cons p ps)
    obtain k v where p: "p = (k, v)" by (cases p)
    have "list_all (\<lambda>p. json_value (snd p)) (set_prop k v qs)" using Cons.prems ins rep by (auto simp: p set_prop_def put_prop_def)
    then show ?case using Cons by (simp add: p assign_props_def)
  qed (simp add: assign_props_def)
  then show "list_all (\<lambda>p. json_value (snd p)) ps \<Longrightarrow> json_value (build_obj ps)" by (simp add: build_obj_def)
qed

text \<open>Normalized documents are JSON values.\<close>

lemma normalize_json_value: "normalizeForCanonicalJson v path a = Inr w \<Longrightarrow> w = JUndef \<and> \<not> a \<or> json_value w"
proof (induction v path a arbitrary: w rule: normalizeForCanonicalJson.induct)
  case (9 xs path a)
  then obtain ys where w: "w = JArr ys"
    and l: "list_all2 (\<lambda>p y. normalizeForCanonicalJson (snd p) (path @ ''['' @ show_int (int (fst p)) @ '']'') True = Inr y) (enumerate 0 xs) ys"
    by (auto simp: normalizeForCanonicalJson.simps(9) andThen_Inr_iff mapRes_Inr_iff)
  have "json_value y" if y: "y \<in> set ys" for y
  proof -
    obtain i where i: "i < length ys" "ys ! i = y" using y by (auto simp: in_set_conv_nth)
    then have "enumerate 0 xs ! i \<in> set (enumerate 0 xs)" using list_all2_lengthD[OF l] by simp
    from 9(1)[OF this list_all2_nthD2[OF l i(1)]] show ?thesis using i(2) by simp
  qed
  then show ?case by (simp add: w list_all_iff)
next
  case (10 ps path a)
  then obtain out where w: "w = build_obj (drop_undef out)"
    and l: "list_all2 (\<lambda>p q. andThen (normalizeForCanonicalJson (snd p) (path @ ''.'' @ fst p) False) (\<lambda>w. Inr (fst p, w)) = Inr q) ps out"
    by (auto simp: normalizeForCanonicalJson.simps(10) andThen_Inr_iff mapRes_Inr_iff)
  have "json_value (snd q)" if "q \<in> set (drop_undef out)" for q
  proof -
    have q: "q \<in> set out" "snd q \<noteq> JUndef" using that by (auto simp: drop_undef_def)
    then obtain i where i: "i < length out" "out ! i = q" by (auto simp: in_set_conv_nth)
    then have m: "ps ! i \<in> set ps" using list_all2_lengthD[OF l] by simp
    have "andThen (normalizeForCanonicalJson (snd (ps ! i)) (path @ ''.'' @ fst (ps ! i)) False) (\<lambda>w. Inr (fst (ps ! i), w)) = Inr q"
      using list_all2_nthD2[OF l i(1)] i(2) by simp
    then have "normalizeForCanonicalJson (snd (ps ! i)) (path @ ''.'' @ fst (ps ! i)) False = Inr (snd q)"
      by (auto simp: andThen_Inr_iff)
    from 10(1)[OF m this] show ?thesis using q(2) by simp
  qed
  then show ?case unfolding w by (intro disjI2 build_obj_values) (simp add: list_all_iff)
qed (auto simp: andThen_Inr_iff split: if_splits)

section \<open>Updates of documents\<close>

lemma replace_append: "k \<in> fst ` set ps \<Longrightarrow> replace_prop k v (ps @ qs) = replace_prop k v ps @ qs"
  by (induction ps) (auto simp: rev_image_eqI)

lemma put_append: "k \<in> fst ` set ps \<Longrightarrow> put_prop k v (ps @ qs) = put_prop k v ps @ qs"
  by (auto simp: put_prop_def replace_append)

lemma put_keys: "k \<in> fst ` set ps \<Longrightarrow> map fst (put_prop k v ps) = map fst ps"
proof -
  have "map fst (replace_prop k v ps) = map fst ps" by (induction ps) auto
  then show "k \<in> fst ` set ps \<Longrightarrow> map fst (put_prop k v ps) = map fst ps" by (simp add: put_prop_def)
qed

lemma spread_same_keys: "fst ` set qs \<subseteq> fst ` set ps \<Longrightarrow> map fst (spread ps qs) = map fst ps"
proof (induction qs arbitrary: ps)
  case (Cons q qs)
  have "fst ` set (put_prop (fst q) (snd q) ps) = fst ` set ps" using put_keys[of "fst q" ps "snd q"] Cons.prems by (metis insert_subset image_insert list.simps(15) set_map)
  then show ?case using Cons put_keys[of "fst q" ps "snd q"] by (simp add: spread_def case_prod_unfold)
qed (simp add: spread_def)

lemma spread_append: "fst ` set qs \<subseteq> fst ` set ps \<Longrightarrow> spread (ps @ rs) qs = spread ps qs @ rs"
proof (induction qs arbitrary: ps)
  case (Cons q qs)
  have "fst ` set (put_prop (fst q) (snd q) ps) = fst ` set ps" using put_keys[of "fst q" ps "snd q"] Cons.prems by (metis insert_subset image_insert list.simps(15) set_map)
  then show ?case using Cons put_append[of "fst q" ps "snd q" rs] by (simp add: spread_def case_prod_unfold)
qed (simp add: spread_def)

lemma replace_same: "distinct (map fst ps) \<Longrightarrow> k \<in> fst ` set ps \<Longrightarrow> getp (JObj ps) k = v \<Longrightarrow> replace_prop k v ps = ps"
  by (induction ps) (auto simp: rev_image_eqI)

lemma put_same: "distinct (map fst ps) \<Longrightarrow> k \<in> fst ` set ps \<Longrightarrow> getp (JObj ps) k = v \<Longrightarrow> put_prop k v ps = ps"
  by (simp add: put_prop_def replace_same)

lemma spread_values:
  assumes "list_all (\<lambda>p. P (snd p)) ps" "list_all (\<lambda>p. P (snd p)) qs"
  shows "list_all (\<lambda>p. P (snd p)) (spread ps qs)"
proof -
  have ins: "list_all (\<lambda>p. P (snd p)) (insert_prop k v qs)" if "P v" "list_all (\<lambda>p. P (snd p)) qs" for k v qs
    using that by (induction qs) (auto split: option.splits)
  have rep: "list_all (\<lambda>p. P (snd p)) (replace_prop k v qs)" if "P v" "list_all (\<lambda>p. P (snd p)) qs" for k v qs
    using that by (induction qs) auto
  show ?thesis using assms
  proof (induction qs arbitrary: ps)
    case (Cons q qs)
    have "list_all (\<lambda>p. P (snd p)) (put_prop (fst q) (snd q) ps)" using Cons.prems ins rep by (auto simp: put_prop_def)
    then show ?case using Cons by (simp add: spread_def case_prod_unfold)
  qed (simp add: spread_def)
qed

end
