(* ===== verification/SettlementKernel.thy ===== *)
theory SettlementKernel
  imports NormalForm SettlementAdjustment JsState
begin

text \<open>
  \<^verbatim>\<open>src/core/settlement-kernel.js\<close>: the decision record and the receipt a settlement carries. Both are object literals,
  normalized and sealed with the hash of their content; the receipt names its decision record by id and hash. The
  verifier returns the list of everything that is wrong with a settlement's artifacts. SHA-256 (\<open>H\<close>) is a parameter.
\<close>

section \<open>Fields of a literal\<close>

text \<open>An object literal whose fields may throw: the fields are evaluated in order.\<close>

definition objOf :: "(string \<times> jsval res) list \<Rightarrow> jsval res" where
  "objOf fs = mapR JObj (mapRes (\<lambda>(k, r). mapR (\<lambda>v. (k, v)) r) fs)"

definition normalizeNullableString :: "jsval \<Rightarrow> string \<Rightarrow> int \<Rightarrow> jsval res" where
  "normalizeNullableString v name hi =
     (if nullish v then Inr JNull
      else let out = js_String v in
        andThen (throwIf (hi < int (length out)) (TypeError (name @ '' must be <= '' @ show_int hi @ '' chars''))) (\<lambda>_. Inr (JStr out)))"

definition normalizeNullableBoolean :: "jsval \<Rightarrow> string \<Rightarrow> jsval res" where
  "normalizeNullableBoolean v name =
     (if nullish v then Inr JNull
      else case v of JBool b \<Rightarrow> Inr (JBool b) | _ \<Rightarrow> Inl (TypeError (name @ '' must be boolean'')))"

definition normalizeNullableHttpStatus :: "jsval \<Rightarrow> string \<Rightarrow> jsval res" where
  "normalizeNullableHttpStatus v name =
     (if nullish v then Inr JNull
      else let bad = Inl (TypeError (name @ '' must be a 3-digit integer status code'')) in
        case safe_int (js_Number v) of
          Some n \<Rightarrow> (if n < 100 \<or> 999 < n then bad else Inr (JNum (js_Number v)))
        | None \<Rightarrow> bad)"

definition normalizeNullableSafeInt :: "jsval \<Rightarrow> string \<Rightarrow> int \<Rightarrow> int \<Rightarrow> jsval res" where
  "normalizeNullableSafeInt v name lo hi =
     (if nullish v then Inr JNull
      else let bad = Inl (TypeError (name @ '' must be an integer in range '' @ show_int lo @ ''..'' @ show_int hi)) in
        case safe_int (js_Number v) of
          Some n \<Rightarrow> (if n < lo \<or> hi < n then bad else Inr (JNum (js_Number v)))
        | None \<Rightarrow> bad)"

definition normalizeNullableHexHash :: "jsval \<Rightarrow> string \<Rightarrow> jsval res" where
  "normalizeNullableHexHash v name = (if nullish v then Inr JNull else mapR JStr (normalizeHexHash v name))"

text \<open>\<^verbatim>\<open>v === null || v === undefined ? null : String(v)\<close>\<close>

definition nullableText :: "jsval \<Rightarrow> jsval" where
  "nullableText v = (if nullish v then JNull else JStr (js_String v))"

text \<open>The fields of a binding carry the name of the property they are read from.\<close>

definition strField :: "jsval \<Rightarrow> string \<Rightarrow> int \<Rightarrow> string \<Rightarrow> string \<times> jsval res" where
  "strField v name hi k = (k, normalizeNullableString (getp v k) (name @ ''.'' @ k) hi)"

definition hexField :: "jsval \<Rightarrow> string \<Rightarrow> string \<Rightarrow> string \<times> jsval res" where
  "hexField v name k = (k, normalizeNullableHexHash (getp v k) (name @ ''.'' @ k))"

definition boolField :: "jsval \<Rightarrow> string \<Rightarrow> string \<Rightarrow> string \<times> jsval res" where
  "boolField v name k = (k, normalizeNullableBoolean (getp v k) (name @ ''.'' @ k))"

definition versionField :: "jsval \<Rightarrow> string \<Rightarrow> string \<Rightarrow> string \<times> jsval res" where
  "versionField v name k = (k, normalizeNullableSafeInt (getp v k) (name @ ''.'' @ k) 1 1000000000)"

definition textField :: "jsval \<Rightarrow> string \<Rightarrow> string \<times> jsval res" where
  "textField v k = (k, Inr (nullableText (getp v k)))"

text \<open>\<^verbatim>\<open>value.k ? { ... } : null\<close>\<close>

definition group :: "jsval \<Rightarrow> string \<Rightarrow> string \<Rightarrow> (jsval \<Rightarrow> string \<Rightarrow> (string \<times> jsval res) list) \<Rightarrow> string \<times> jsval res" where
  "group v name k fields = (k, if truthy (getp v k) then objOf (fields (getp v k) (name @ ''.'' @ k)) else Inr JNull)"

section \<open>Bindings\<close>

definition tokenFields :: "jsval \<Rightarrow> string \<Rightarrow> (string \<times> jsval res) list" where
  "tokenFields t n = [strField t n 200 ''kid'', hexField t n ''sha256'', textField t ''expiresAt'']"

definition requestFields :: "jsval \<Rightarrow> string \<Rightarrow> (string \<times> jsval res) list" where
  "requestFields t n = [hexField t n ''sha256'']"

definition responseFields :: "jsval \<Rightarrow> string \<Rightarrow> (string \<times> jsval res) list" where
  "responseFields t n = [(''status'', normalizeNullableHttpStatus (getp t ''status'') (n @ ''.status'')), hexField t n ''sha256'']"

definition providerSigFields :: "jsval \<Rightarrow> string \<Rightarrow> (string \<times> jsval res) list" where
  "providerSigFields t n =
     [boolField t n ''required'', boolField t n ''present'', boolField t n ''verified'', strField t n 200 ''providerKeyId'',
      hexField t n ''keyJwkThumbprintSha256'', strField t n 4000 ''error'']"

definition providerQuoteSigFields :: "jsval \<Rightarrow> string \<Rightarrow> (string \<times> jsval res) list" where
  "providerQuoteSigFields t n =
     [boolField t n ''required'', boolField t n ''present'', boolField t n ''verified'', strField t n 200 ''providerKeyId'',
      strField t n 200 ''quoteId'', hexField t n ''quoteSha256'', hexField t n ''keyJwkThumbprintSha256'', strField t n 4000 ''error'']"

definition reserveFields :: "jsval \<Rightarrow> string \<Rightarrow> (string \<times> jsval res) list" where
  "reserveFields t n = [strField t n 200 ''adapter'', strField t n 200 ''mode'', strField t n 256 ''reserveId'', strField t n 64 ''status'']"

definition quoteFields :: "jsval \<Rightarrow> string \<Rightarrow> (string \<times> jsval res) list" where
  "quoteFields t n =
     [strField t n 200 ''quoteId'', hexField t n ''quoteSha256'', textField t ''expiresAt'', strField t n 32 ''requestBindingMode'',
      hexField t n ''requestBindingSha256'']"

definition spendAuthorizationFields :: "jsval \<Rightarrow> string \<Rightarrow> (string \<times> jsval res) list" where
  "spendAuthorizationFields t n =
     [strField t n 64 ''spendAuthorizationVersion'', strField t n 256 ''idempotencyKey'', strField t n 256 ''nonce'',
      strField t n 200 ''sponsorRef'', strField t n 200 ''sponsorWalletRef'']
     @ (if hasOwn t ''policyRef'' then [strField t n 200 ''policyRef''] else [])
     @ [strField t n 200 ''agentKeyId'', strField t n 200 ''delegationGrantRef'', strField t n 200 ''delegationRef'',
        strField t n 200 ''rootDelegationRef'', hexField t n ''rootDelegationHash'', strField t n 200 ''effectiveDelegationRef'',
        hexField t n ''effectiveDelegationHash'', versionField t n ''policyVersion'', hexField t n ''policyFingerprint'']"

definition executionIntentFields :: "jsval \<Rightarrow> string \<Rightarrow> (string \<times> jsval res) list" where
  "executionIntentFields t n =
     [strField t n 64 ''schemaVersion'', strField t n 200 ''intentId'', hexField t n ''intentHash'', strField t n 256 ''idempotencyKey'',
      strField t n 256 ''nonce'', textField t ''expiresAt'', hexField t n ''requestSha256'', hexField t n ''policyHash'',
      hexField t n ''verificationMethodHash'']"

definition policyFingerprintFields :: "jsval \<Rightarrow> string \<Rightarrow> (string \<times> jsval res) list" where
  "policyFingerprintFields t n =
     [strField t n 64 ''fingerprintVersion'', strField t n 200 ''policyId'', versionField t n ''policyVersion'', hexField t n ''policyHash'',
      hexField t n ''verificationMethodHash'', hexField t n ''evaluationHash'']"

text \<open>An object of the caller's own making, normalized as it is.\<close>

definition openField :: "jsval \<Rightarrow> string \<Rightarrow> string \<Rightarrow> (string \<times> jsval res) list" where
  "openField v name k =
     (if isObjectLike (getp v k) then [(k, normalizeForCanonicalJson (getp v k) (name @ ''.'' @ k) False)] else [])"

definition bindingFields :: "jsval \<Rightarrow> string \<Rightarrow> (string \<times> jsval res) list" where
  "bindingFields v n =
     [strField v n 200 ''authorizationRef'', group v n ''token'' tokenFields, group v n ''request'' requestFields,
      group v n ''response'' responseFields, group v n ''providerSig'' providerSigFields,
      group v n ''providerQuoteSig'' providerQuoteSigFields, group v n ''reserve'' reserveFields, group v n ''quote'' quoteFields,
      group v n ''spendAuthorization'' spendAuthorizationFields, group v n ''executionIntent'' executionIntentFields,
      group v n ''policyDecisionFingerprint'' policyFingerprintFields]
     @ openField v n ''governance'' @ openField v n ''metadata''"

definition normalizeSettlementBindings :: "jsval \<Rightarrow> string \<Rightarrow> bool \<Rightarrow> jsval res" where
  "normalizeSettlementBindings v name allowNull =
     (if nullish v then (if allowNull then Inr JNull else Inl (TypeError (name @ '' is required'')))
      else andThen (assertPlainObject v name) (\<lambda>_.
           andThen (objOf (bindingFields v name)) (\<lambda>obj. normalizeForCanonicalJson obj ''$'' False)))"

section \<open>The hash of an artifact\<close>

text \<open>The hash leaves out its own field and the storage-level \<^verbatim>\<open>artifactHash\<close>.\<close>

definition computeKernelHash :: "(string \<Rightarrow> string) \<Rightarrow> jsval \<Rightarrow> string \<Rightarrow> string res" where
  "computeKernelHash H obj hashField =
     andThen (assertPlainObject obj ''obj'') (\<lambda>_.
     andThen (assertNonEmptyString (JStr hashField) ''hashField'') (\<lambda>_.
     andThen (normalizeForCanonicalJson (JObj (without [hashField, ''artifactHash''] (own_props obj))) ''$'' False) (\<lambda>normalized.
     andThen (canonicalJsonStringify normalized) (\<lambda>text. Inr (H text)))))"

text \<open>The last lines of both builders.\<close>

definition seal :: "(string \<Rightarrow> string) \<Rightarrow> string \<Rightarrow> jsval \<Rightarrow> jsval res" where
  "seal H hashField obj =
     andThen (normalizeForCanonicalJson obj ''$'' False) (\<lambda>normalized.
     andThen (computeKernelHash H normalized hashField) (\<lambda>h.
       normalizeForCanonicalJson (JObj (spread (own_props normalized) [(hashField, JStr h)])) ''$'' False))"

section \<open>The decision record\<close>

definition SETTLEMENT_DECISION_RECORD_SCHEMA_VERSION_V1 :: string where
  "SETTLEMENT_DECISION_RECORD_SCHEMA_VERSION_V1 = ''SettlementDecisionRecord.v1''"

definition SETTLEMENT_DECISION_RECORD_SCHEMA_VERSION_V2 :: string where
  "SETTLEMENT_DECISION_RECORD_SCHEMA_VERSION_V2 = ''SettlementDecisionRecord.v2''"

definition SETTLEMENT_POLICY_NORMALIZATION_VERSION_V1 :: string where
  "SETTLEMENT_POLICY_NORMALIZATION_VERSION_V1 = ''v1''"

definition idField :: "jsval \<Rightarrow> int \<Rightarrow> string \<Rightarrow> string \<times> jsval res" where
  "idField args hi k = (k, mapR JStr (normalizeId (getp args k) k 1 hi))"

definition trimmedText :: "jsval \<Rightarrow> jsval" where
  "trimmedText v = JStr (trim (js_String (orElse v (JStr []))))"

text \<open>A hash of the decision record that may be left out.\<close>

definition optHashField :: "jsval \<Rightarrow> string \<Rightarrow> (string \<times> jsval res) list" where
  "optHashField args k = (if nullish (getp args k) then [] else [(k, mapR JStr (normalizeHexHash (getp args k) k))])"

definition pinnedFields :: "jsval \<Rightarrow> (string \<times> jsval res) list" where
  "pinnedFields args =
     [(''policyNormalizationVersion'', Inr (if getp args ''policyNormalizationVersion'' = JUndef
        then JStr SETTLEMENT_POLICY_NORMALIZATION_VERSION_V1 else trimmedText (getp args ''policyNormalizationVersion''))),
      (''policyHashUsed'', mapR JStr (normalizeHexHash (getp args ''policyHashUsed'') ''policyHashUsed''))]
     @ optHashField args ''profileHashUsed'' @ optHashField args ''verificationMethodHashUsed''"

definition bindingsField :: "jsval \<Rightarrow> (string \<times> jsval res) list" where
  "bindingsField args = (if nullish (getp args ''bindings'') then []
     else [(''bindings'', normalizeSettlementBindings (getp args ''bindings'') ''bindings'' False)])"

definition decisionFields :: "string \<Rightarrow> jsval \<Rightarrow> string \<Rightarrow> (string \<times> jsval res) list" where
  "decisionFields version args decidedAt =
     [(''schemaVersion'', Inr (JStr version)), idField args 200 ''decisionId'', idField args 128 ''tenantId'', idField args 128 ''runId'',
      idField args 200 ''settlementId'', textField args ''agreementId'', (''decisionStatus'', Inr (trimmedText (getp args ''decisionStatus''))),
      (''decisionMode'', Inr (trimmedText (getp args ''decisionMode''))), textField args ''decisionReason'', textField args ''verificationStatus'']
     @ (if version = SETTLEMENT_DECISION_RECORD_SCHEMA_VERSION_V2 then pinnedFields args else [])
     @ [(''policyRef'', let ref = getp args ''policyRef'' in objOf [hexField ref ''policyRef'' ''policyHash'', hexField ref ''policyRef'' ''verificationMethodHash'']),
        (''verifierRef'', let ref = getp args ''verifierRef'' in objOf
           [textField ref ''verifierId'', textField ref ''verifierVersion'', hexField ref ''verifierRef'' ''verifierHash'', textField ref ''modality'']),
        (''workRef'', objOf [textField args ''runStatus'', textField args ''runLastEventId'', textField args ''runLastChainHash'',
           textField args ''resolutionEventId''])]
     @ bindingsField args @ [(''decidedAt'', Inr (JStr decidedAt))]"

definition buildSettlementDecisionRecord :: "(string \<Rightarrow> string) \<Rightarrow> jsval \<Rightarrow> jsval res" where
  "buildSettlementDecisionRecord H args =
     andThen (assertIsoDate (getp args ''decidedAt'') ''decidedAt'') (\<lambda>decidedAt.
     let version = trim (js_String (orElse (dflt (getp args ''schemaVersion'') (JStr SETTLEMENT_DECISION_RECORD_SCHEMA_VERSION_V2)) (JStr []))) in
     andThen (throwIf (version \<notin> {SETTLEMENT_DECISION_RECORD_SCHEMA_VERSION_V1, SETTLEMENT_DECISION_RECORD_SCHEMA_VERSION_V2})
                (TypeError ''schemaVersion must be SettlementDecisionRecord.v1 or SettlementDecisionRecord.v2'')) (\<lambda>_.
     andThen (objOf (decisionFields version args decidedAt)) (\<lambda>obj. seal H ''decisionHash'' obj)))"

definition buildSettlementDecisionRecordV1 :: "(string \<Rightarrow> string) \<Rightarrow> jsval \<Rightarrow> jsval res" where
  "buildSettlementDecisionRecordV1 H args =
     buildSettlementDecisionRecord H (JObj (spread (own_props args) [(''schemaVersion'', JStr SETTLEMENT_DECISION_RECORD_SCHEMA_VERSION_V1)]))"

definition buildSettlementDecisionRecordV2 :: "(string \<Rightarrow> string) \<Rightarrow> jsval \<Rightarrow> jsval res" where
  "buildSettlementDecisionRecordV2 H args =
     buildSettlementDecisionRecord H (JObj (spread (own_props args) [(''schemaVersion'', JStr SETTLEMENT_DECISION_RECORD_SCHEMA_VERSION_V2)]))"

section \<open>The receipt\<close>

definition SETTLEMENT_RECEIPT_SCHEMA_VERSION :: string where
  "SETTLEMENT_RECEIPT_SCHEMA_VERSION = ''SettlementReceipt.v1''"

definition PENDING_FINALITY :: string where "PENDING_FINALITY = ''pending''"

definition FINAL_FINALITY :: string where "FINAL_FINALITY = ''final''"

definition INTERNAL_LEDGER :: string where "INTERNAL_LEDGER = ''internal_ledger''"

definition amountField :: "jsval \<Rightarrow> int \<Rightarrow> string \<Rightarrow> string \<times> jsval res" where
  "amountField args lo k =
     (k, case safe_int (js_Number (getp args k)) of
           Some n \<Rightarrow> (if n < lo then Inl (TypeError (k @ '' must be a safe integer >= '' @ show_int lo)) else Inr (JNum (js_Number (getp args k))))
         | None \<Rightarrow> Inl (TypeError (k @ '' must be a safe integer >= '' @ show_int lo)))"

definition finalityState :: "jsval \<Rightarrow> string" where
  "finalityState args =
     (if nullish (getp args ''finalityState'')
      then (if toLowerCase (trim (js_String (orElse (getp args ''status'') (JStr [])))) = ''locked'' then PENDING_FINALITY else FINAL_FINALITY)
      else js_String (getp args ''finalityState''))"

definition decisionRefFields :: "jsval \<Rightarrow> (string \<times> jsval res) list" where
  "decisionRefFields decisionRecord =
     [(''decisionId'', mapR JStr (normalizeId (getp decisionRecord ''decisionId'') ''decisionRecord.decisionId'' 1 200)),
      (''decisionHash'', mapR JStr (normalizeHexHash (getp decisionRecord ''decisionHash'') ''decisionRecord.decisionHash''))]"

definition receiptFields :: "jsval \<Rightarrow> string \<Rightarrow> (string \<times> jsval res) list" where
  "receiptFields args createdAt =
     [(''schemaVersion'', Inr (JStr SETTLEMENT_RECEIPT_SCHEMA_VERSION)), idField args 200 ''receiptId'', idField args 128 ''tenantId'',
      idField args 128 ''runId'', idField args 200 ''settlementId'', (''decisionRef'', objOf (decisionRefFields (getp args ''decisionRecord''))),
      (''status'', Inr (trimmedText (getp args ''status''))), amountField args 1 ''amountCents'', amountField args 0 ''releasedAmountCents'',
      amountField args 0 ''refundedAmountCents'', amountField args 0 ''releaseRatePct'',
      (''currency'', mapR JStr (normalizeCurrency (getp args ''currency'') ''currency'')), textField args ''runStatus'',
      textField args ''resolutionEventId'', (''finalityProvider'', Inr (JStr (js_String (orElse (getp args ''finalityProvider'') (JStr INTERNAL_LEDGER))))),
      (''finalityState'', Inr (JStr (finalityState args))), textField args ''settledAt'']
     @ bindingsField args @ [(''createdAt'', Inr (JStr createdAt))]"

definition buildSettlementReceipt :: "(string \<Rightarrow> string) \<Rightarrow> jsval \<Rightarrow> jsval res" where
  "buildSettlementReceipt H args =
     andThen (assertPlainObject (getp args ''decisionRecord'') ''decisionRecord'') (\<lambda>_.
     andThen (assertIsoDate (getp args ''createdAt'') ''createdAt'') (\<lambda>createdAt.
     andThen (if nullish (getp args ''settledAt'') then Inr [] else assertIsoDate (getp args ''settledAt'') ''settledAt'') (\<lambda>_.
     andThen (objOf (receiptFields args createdAt)) (\<lambda>obj. seal H ''receiptHash'' obj))))"

section \<open>Verification\<close>

datatype kernel_code =
    SETTLEMENT_MISSING | SETTLEMENT_RUN_ID_MISMATCH
  | DECISION_RECORD_MISSING | DECISION_RECORD_HASH_INVALID | DECISION_RECORD_HASH_MISMATCH | DECISION_RECORD_RUN_ID_MISMATCH
  | DECISION_RECORD_SETTLEMENT_ID_MISMATCH | DECISION_RECORD_DECIDED_AT_INVALID | DECISION_RECORD_POLICY_HASH_USED_MISSING
  | DECISION_RECORD_POLICY_HASH_USED_INVALID | DECISION_RECORD_PROFILE_HASH_USED_INVALID
  | DECISION_RECORD_POLICY_NORMALIZATION_VERSION_INVALID | DECISION_RECORD_VERIFICATION_METHOD_HASH_USED_INVALID
  | SETTLEMENT_RECEIPT_MISSING | SETTLEMENT_RECEIPT_HASH_INVALID | SETTLEMENT_RECEIPT_HASH_MISMATCH | SETTLEMENT_RECEIPT_RUN_ID_MISMATCH
  | SETTLEMENT_RECEIPT_SETTLEMENT_ID_MISMATCH | SETTLEMENT_RECEIPT_DECISION_REF_MISSING | SETTLEMENT_RECEIPT_DECISION_ID_MISMATCH
  | SETTLEMENT_RECEIPT_DECISION_HASH_MISMATCH | SETTLEMENT_RECEIPT_CREATED_AT_INVALID | SETTLEMENT_RECEIPT_SETTLED_AT_INVALID
  | SETTLEMENT_RECEIPT_BEFORE_DECISION | SETTLEMENT_RECEIPT_SETTLED_BEFORE_DECISION | SETTLEMENT_RECEIPT_SETTLED_BEFORE_CREATED

record kernel_verification =
  kv_valid :: bool
  kv_errors :: "kernel_code list"

text \<open>\<^verbatim>\<open>if (b) errors.push(code)\<close>\<close>

definition err :: "bool \<Rightarrow> kernel_code \<Rightarrow> kernel_code list" where
  "err b code = (if b then [code] else [])"

definition extractSettlementKernelArtifacts :: "jsval \<Rightarrow> jsval \<times> jsval" where
  "extractSettlementKernelArtifacts settlement =
     (if \<not> isObjectLike settlement then (JNull, JNull)
      else let trace = getp settlement ''decisionTrace'' in
        if \<not> isObjectLike trace then (JNull, JNull)
        else (orElse (getp trace ''decisionRecord'') JNull, orElse (getp trace ''settlementReceipt'') JNull))"

text \<open>\<^verbatim>\<open>typeof v === "string" ? v.trim().toLowerCase() : ""\<close>\<close>

definition hexText :: "jsval \<Rightarrow> string" where
  "hexText v = (case v of JStr s \<Rightarrow> toLowerCase (trim s) | _ \<Rightarrow> [])"

text \<open>\<^verbatim>\<open>String(v ?? "")\<close>\<close>

definition textOf :: "jsval \<Rightarrow> string" where
  "textOf v = js_String (orElse v (JStr []))"

text \<open>The time of a date field, \<open>None\<close> for NaN.\<close>

definition timeOf :: "jsval \<Rightarrow> int option" where
  "timeOf v = (case v of JStr s \<Rightarrow> date_parse s | _ \<Rightarrow> None)"

definition earlier :: "int option \<Rightarrow> int option \<Rightarrow> bool" where
  "earlier a b = (case (a, b) of (Some x, Some y) \<Rightarrow> x < y | _ \<Rightarrow> False)"

definition hashErrors :: "(string \<Rightarrow> string) \<Rightarrow> string \<Rightarrow> kernel_code \<Rightarrow> kernel_code \<Rightarrow> jsval \<Rightarrow> kernel_code list" where
  "hashErrors H field invalid mismatch d =
     (let h = hexText (getp d field) in
      if \<not> is_sha256_hex h then [invalid]
      else case computeKernelHash H d field of Inl _ \<Rightarrow> [invalid] | Inr computed \<Rightarrow> err (computed \<noteq> h) mismatch)"

definition pinnedErrors :: "jsval \<Rightarrow> kernel_code list" where
  "pinnedErrors d =
     (let version = getp d ''policyNormalizationVersion''; used = hexText (getp d ''policyHashUsed'');
          profile = getp d ''profileHashUsed''; method = getp d ''verificationMethodHashUsed'' in
      err (version \<noteq> JUndef \<and> (let t = (case version of JStr s \<Rightarrow> trim s | _ \<Rightarrow> []) in t = [] \<or> 64 < length t))
        DECISION_RECORD_POLICY_NORMALIZATION_VERSION_INVALID
      @ (if used = [] then [DECISION_RECORD_POLICY_HASH_USED_MISSING]
         else err (\<not> is_sha256_hex used) DECISION_RECORD_POLICY_HASH_USED_INVALID)
      @ err (profile \<noteq> JUndef \<and> \<not> is_sha256_hex (hexText profile)) DECISION_RECORD_PROFILE_HASH_USED_INVALID
      @ err (method \<noteq> JUndef \<and> \<not> is_sha256_hex (hexText method)) DECISION_RECORD_VERIFICATION_METHOD_HASH_USED_INVALID)"

text \<open>An artifact names the settlement it belongs to.\<close>

definition settlementRunId :: "jsval \<Rightarrow> string" where
  "settlementRunId settlement = (case getp settlement ''runId'' of JStr s \<Rightarrow> s | _ \<Rightarrow> [])"

definition ownerErrors :: "jsval \<Rightarrow> kernel_code \<Rightarrow> kernel_code \<Rightarrow> jsval \<Rightarrow> kernel_code list" where
  "ownerErrors settlement runMismatch settlementMismatch d =
     err (settlementRunId settlement \<noteq> [] \<and> textOf (getp d ''runId'') \<noteq> settlementRunId settlement) runMismatch
     @ err (truthy (getp settlement ''settlementId'') \<and> textOf (getp d ''settlementId'') \<noteq> js_String (getp settlement ''settlementId'')) settlementMismatch"

definition decisionErrors :: "(string \<Rightarrow> string) \<Rightarrow> jsval \<Rightarrow> jsval \<Rightarrow> kernel_code list" where
  "decisionErrors H settlement d =
     (if getp d ''schemaVersion'' = JStr SETTLEMENT_DECISION_RECORD_SCHEMA_VERSION_V2 then pinnedErrors d else [])
     @ hashErrors H ''decisionHash'' DECISION_RECORD_HASH_INVALID DECISION_RECORD_HASH_MISMATCH d
     @ ownerErrors settlement DECISION_RECORD_RUN_ID_MISMATCH DECISION_RECORD_SETTLEMENT_ID_MISMATCH d
     @ err (timeOf (getp d ''decidedAt'') = None) DECISION_RECORD_DECIDED_AT_INVALID"

definition refErrors :: "jsval \<Rightarrow> jsval \<Rightarrow> kernel_code list" where
  "refErrors d ref =
     (if \<not> isObjectLike ref then [SETTLEMENT_RECEIPT_DECISION_REF_MISSING]
      else if isObjectLike d
      then err (textOf (getp ref ''decisionId'') \<noteq> textOf (getp d ''decisionId'')) SETTLEMENT_RECEIPT_DECISION_ID_MISMATCH
        @ err (textOf (getp ref ''decisionHash'') \<noteq> textOf (getp d ''decisionHash'')) SETTLEMENT_RECEIPT_DECISION_HASH_MISMATCH
      else [])"

definition dateErrors :: "int option \<Rightarrow> jsval \<Rightarrow> kernel_code list" where
  "dateErrors decided r =
     (let created = timeOf (getp r ''createdAt''); settled = timeOf (getp r ''settledAt'') in
      (if created = None then [SETTLEMENT_RECEIPT_CREATED_AT_INVALID] else err (earlier created decided) SETTLEMENT_RECEIPT_BEFORE_DECISION)
      @ err (\<not> nullish (getp r ''settledAt'') \<and> settled = None) SETTLEMENT_RECEIPT_SETTLED_AT_INVALID
      @ err (earlier settled decided) SETTLEMENT_RECEIPT_SETTLED_BEFORE_DECISION
      @ err (earlier settled created) SETTLEMENT_RECEIPT_SETTLED_BEFORE_CREATED)"

definition receiptErrors :: "(string \<Rightarrow> string) \<Rightarrow> jsval \<Rightarrow> jsval \<Rightarrow> jsval \<Rightarrow> kernel_code list" where
  "receiptErrors H settlement d r =
     hashErrors H ''receiptHash'' SETTLEMENT_RECEIPT_HASH_INVALID SETTLEMENT_RECEIPT_HASH_MISMATCH r
     @ ownerErrors settlement SETTLEMENT_RECEIPT_RUN_ID_MISMATCH SETTLEMENT_RECEIPT_SETTLEMENT_ID_MISMATCH r
     @ refErrors d (getp r ''decisionRef'')
     @ dateErrors (if isObjectLike d then timeOf (getp d ''decidedAt'') else None) r"

definition kernelErrors :: "(string \<Rightarrow> string) \<Rightarrow> jsval \<Rightarrow> jsval \<Rightarrow> kernel_code list" where
  "kernelErrors H settlement runId =
     (let (d, r) = extractSettlementKernelArtifacts settlement in
      err (\<not> nullish runId \<and> js_String runId \<noteq> settlementRunId settlement) SETTLEMENT_RUN_ID_MISMATCH
      @ (if isObjectLike d then decisionErrors H settlement d else [DECISION_RECORD_MISSING])
      @ (if isObjectLike r then receiptErrors H settlement d r else [SETTLEMENT_RECEIPT_MISSING]))"

definition verifySettlementKernelArtifacts :: "(string \<Rightarrow> string) \<Rightarrow> jsval \<Rightarrow> jsval \<Rightarrow> kernel_verification" where
  "verifySettlementKernelArtifacts H settlement runId =
     (let errors = (if isObjectLike settlement then kernelErrors H settlement runId else [SETTLEMENT_MISSING])
      in \<lparr>kv_valid = (errors = []), kv_errors = errors\<rparr>)"

section \<open>Literals\<close>

lemma mapR_Inr [res_simps]: "mapR f m = Inr y \<longleftrightarrow> (\<exists>x. m = Inr x \<and> y = f x)"
  by (cases m) auto

lemma objOf_Inr:
  "objOf fs = Inr v \<longleftrightarrow> (\<exists>ps. v = JObj ps \<and> list_all2 (\<lambda>f p. fst p = fst f \<and> snd f = Inr (snd p)) fs ps)"
proof -
  have "(case f of (k, r) \<Rightarrow> mapR (\<lambda>v. (k, v)) r) = Inr p \<longleftrightarrow> fst p = fst f \<and> snd f = Inr (snd p)" for f :: "string \<times> jsval res" and p
    by (cases f; cases p) (auto simp: mapR_Inr)
  then show ?thesis by (auto simp: objOf_def mapR_Inr mapRes_Inr_iff)
qed

lemma objOf_keys: "objOf fs = Inr (JObj ps) \<Longrightarrow> map fst ps = map fst fs"
  by (auto simp: objOf_Inr list_all2_conv_all_nth intro!: nth_equalityI)

lemma objOf_field:
  assumes "objOf fs = Inr (JObj ps)" and "distinct (map fst fs)" and "(k, r) \<in> set fs"
  shows "r = Inr (getp (JObj ps) k)" and "(k, getp (JObj ps) k) \<in> set ps"
proof -
  from assms(3) obtain i where i: "i < length fs" "fs ! i = (k, r)" by (auto simp: in_set_conv_nth)
  have l: "list_all2 (\<lambda>f p. fst p = fst f \<and> snd f = Inr (snd p)) fs ps" using assms(1) by (simp add: objOf_Inr)
  have p: "fst (ps ! i) = k" "r = Inr (snd (ps ! i))" "i < length ps" using list_all2_nthD[OF l i(1)] list_all2_lengthD[OF l] i by simp_all
  have "distinct (map fst ps)" using assms(2) objOf_keys[OF assms(1)] by simp
  then have "map_of ps k = Some (snd (ps ! i))" using p by (metis map_of_eq_Some_iff nth_mem prod.collapse)
  then show "r = Inr (getp (JObj ps) k)" "(k, getp (JObj ps) k) \<in> set ps" using p by (auto simp: getp.simps(1) dest: map_of_SomeD)
qed

section \<open>Sealed documents\<close>

text \<open>A document with its own hash in the field \<open>field\<close>.\<close>

definition sealed :: "(string \<Rightarrow> string) \<Rightarrow> string \<Rightarrow> jsval \<Rightarrow> bool" where
  "sealed H field d \<longleftrightarrow> normal d \<and> (\<exists>ps h. d = JObj ps \<and> getp d field = JStr h \<and> is_sha256_hex h \<and> computeKernelHash H d field = Inr h)"

lemma seal_sealed:
  assumes "seal H field (JObj ps) = Inr d" and hex: "\<And>x. is_sha256_hex (H x)"
    and keys: "plain_keys ps" "plain_key field" "trim field \<noteq> []" "field \<notin> fst ` set ps" "''artifactHash'' \<notin> fst ` set ps"
  shows "sealed H field d" and "\<And>k v. (k, v) \<in> set ps \<Longrightarrow> literal_doc v \<Longrightarrow> getp d k = v"
    and "\<And>k. k \<notin> insert field (fst ` set ps) \<Longrightarrow> getp d k = JUndef"
proof -
  from assms(1) obtain n h where n: "normalizeForCanonicalJson (JObj ps) ''$'' False = Inr n" and h: "computeKernelHash H n field = Inr h"
    and d: "normalizeForCanonicalJson (JObj (spread (own_props n) [(field, JStr h)])) ''$'' False = Inr d"
    by (auto simp: seal_def andThen_Inr_iff)
  from normalize_obj[OF keys(1) n] obtain ns where ns: "n = JObj ns" "plain_keys ns" "fst ` set ns \<subseteq> fst ` set ps"
    and val: "\<And>k v. (k, v) \<in> set ps \<Longrightarrow> literal_doc v \<Longrightarrow> getp n k = v" by blast
  have norm: "normal (JObj ns)" using normalize_object_normal[OF n] ns(1) by simp
  have nf: "field \<notin> fst ` set ns" "''artifactHash'' \<notin> fst ` set ns" using keys(4,5) ns(3) by auto
  have str: "normal (JStr h)" by (simp add: normal_def)
  from normal_append[OF norm keys(2) nf(1) _ str] have a: "normal (JObj (ns @ [(field, JStr h)]))" "spread ns [(field, JStr h)] = ns @ [(field, JStr h)]" by simp_all
  have dj: "d = JObj (ns @ [(field, JStr h)])" using d a by (simp add: ns(1) own_props_def)
  have w: "without [field, ''artifactHash''] (ns @ [(field, JStr h)]) = ns" "without [field, ''artifactHash''] ns = ns"
    using nf by (auto simp: without_append without_none without_all)
  have f: "assertNonEmptyString (JStr field) ''hashField'' = Inr field" using keys(3) by (simp add: assertNonEmptyString_def)
  have c: "computeKernelHash H d field = computeKernelHash H n field"
    by (simp add: computeKernelHash_def dj ns(1) own_props_def w assertPlainObject_def isObjectLike_def)
  have hx: "is_sha256_hex h" using h hex by (auto simp: computeKernelHash_def andThen_Inr_iff)
  show "sealed H field d" unfolding sealed_def using a(1) c h hx nf(1) by (auto simp: dj getp_appended)
  show "getp d k = v" if "(k, v) \<in> set ps" "literal_doc v" for k v
  proof -
    have v: "getp n k = v" "v \<noteq> JUndef" using val[OF that] that(2) by auto
    then have "k \<in> fst ` set ns" by (metis ns(1) getp_missing)
    then show ?thesis using v by (simp add: dj getp_appended ns(1))
  qed
  show "getp d k = JUndef" if "k \<notin> insert field (fst ` set ps)" for k
    using that ns(3) by (auto simp: dj getp_appended getp_missing)
qed

definition good_fields :: "string \<Rightarrow> (string \<times> jsval res) list \<Rightarrow> bool" where
  "good_fields field fs \<longleftrightarrow> distinct (map fst fs) \<and> list_all plain_key (map fst fs) \<and> plain_key field \<and> trim field \<noteq> []
     \<and> field \<notin> set (map fst fs) \<and> ''artifactHash'' \<notin> set (map fst fs)"

text \<open>A document built from good fields is sealed, and its literal fields are the ones it was built from.\<close>

lemma built:
  assumes "objOf fs = Inr obj" and "seal H field obj = Inr d" and "\<And>x. is_sha256_hex (H x)" and "good_fields field fs"
  shows "sealed H field d" and "\<And>k r. (k, r) \<in> set fs \<Longrightarrow> (\<And>v. r = Inr v \<Longrightarrow> literal_doc v) \<Longrightarrow> r = Inr (getp d k)"
    and "\<And>k. k \<notin> insert field (set (map fst fs)) \<Longrightarrow> getp d k = JUndef"
proof -
  from assms(1) obtain ps where obj: "obj = JObj ps" by (auto simp: objOf_Inr)
  then have o: "objOf fs = Inr (JObj ps)" and keys: "map fst ps = map fst fs" using assms(1) objOf_keys by auto
  have set: "fst ` set ps = set (map fst fs)" using keys by (metis list.set_map)
  have "plain_keys ps" using assms(4) keys by (simp add: good_fields_def plain_keys_def)
  then have g: "plain_keys ps" "plain_key field" "trim field \<noteq> []" "field \<notin> fst ` set ps" "''artifactHash'' \<notin> fst ` set ps"
    using assms(4) set by (simp_all add: good_fields_def)
  note seal = seal_sealed[OF assms(2)[unfolded obj] assms(3) g]
  show "sealed H field d" by (rule seal(1))
  show "getp d k = JUndef" if "k \<notin> insert field (set (map fst fs))" for k using seal(3) that set by simp
  show "r = Inr (getp d k)" if "(k, r) \<in> set fs" "\<And>v. r = Inr v \<Longrightarrow> literal_doc v" for k r
  proof -
    have f: "r = Inr (getp (JObj ps) k)" "(k, getp (JObj ps) k) \<in> set ps"
      using objOf_field[OF o _ that(1)] assms(4) by (simp_all add: good_fields_def)
    then show ?thesis using seal(2)[OF f(2) that(2)[OF f(1)]] by simp
  qed
qed

lemmas field_defs = idField_def textField_def amountField_def

lemma optional_keys:
  "map fst (optHashField args k) = (if nullish (getp args k) then [] else [k])"
  "map fst (bindingsField args) = (if nullish (getp args ''bindings'') then [] else [''bindings''])"
  "map fst (pinnedFields args) = [''policyNormalizationVersion'', ''policyHashUsed'']
     @ (if nullish (getp args ''profileHashUsed'') then [] else [''profileHashUsed''])
     @ (if nullish (getp args ''verificationMethodHashUsed'') then [] else [''verificationMethodHashUsed''])"
  by (simp_all add: optHashField_def bindingsField_def pinnedFields_def)

lemma decision_keys:
  "map fst (decisionFields v args t) = [''schemaVersion'', ''decisionId'', ''tenantId'', ''runId'', ''settlementId'', ''agreementId'',
     ''decisionStatus'', ''decisionMode'', ''decisionReason'', ''verificationStatus'']
     @ (if v = SETTLEMENT_DECISION_RECORD_SCHEMA_VERSION_V2 then map fst (pinnedFields args) else [])
     @ [''policyRef'', ''verifierRef'', ''workRef''] @ map fst (bindingsField args) @ [''decidedAt'']"
  by (simp add: decisionFields_def field_defs)

lemma receipt_keys:
  "map fst (receiptFields args t) = [''schemaVersion'', ''receiptId'', ''tenantId'', ''runId'', ''settlementId'', ''decisionRef'', ''status'',
     ''amountCents'', ''releasedAmountCents'', ''refundedAmountCents'', ''releaseRatePct'', ''currency'', ''runStatus'', ''resolutionEventId'',
     ''finalityProvider'', ''finalityState'', ''settledAt''] @ map fst (bindingsField args) @ [''createdAt'']"
  by (simp add: receiptFields_def field_defs)

lemma decision_good: "good_fields ''decisionHash'' (decisionFields v args t)"
  unfolding good_fields_def decision_keys optional_keys by (simp add: plain_key_def is_digit_def trim_def is_ws_def)

lemma receipt_good: "good_fields ''receiptHash'' (receiptFields args t)"
  unfolding good_fields_def receipt_keys optional_keys by (simp add: plain_key_def is_digit_def trim_def is_ws_def)

section \<open>What the builders make\<close>

lemma literal_strings [simp]: "literal_doc (nullableText v)" "literal_doc (trimmedText v)"
  by (simp_all add: nullableText_def trimmedText_def)

lemma mapR_JStr_literal: "mapR JStr m = Inr v \<Longrightarrow> literal_doc v"
  by (auto simp: mapR_Inr)

text \<open>A record with an acceptable normalization version.\<close>

definition version_ok :: "jsval \<Rightarrow> bool" where
  "version_ok d \<longleftrightarrow> (getp d ''schemaVersion'' = JStr SETTLEMENT_DECISION_RECORD_SCHEMA_VERSION_V2 \<longrightarrow>
     (\<exists>t. getp d ''policyNormalizationVersion'' = JStr t \<and> t \<noteq> [] \<and> length t \<le> 64))"

definition hash_field :: "jsval \<Rightarrow> bool" where
  "hash_field v \<longleftrightarrow> v = JUndef \<or> (\<exists>h. v = JStr h \<and> is_sha256_hex h)"

lemma opt_hash:
  assumes "\<And>k r. (k, r) \<in> set (optHashField args f) \<Longrightarrow> (\<And>v. r = Inr v \<Longrightarrow> literal_doc v) \<Longrightarrow> r = Inr (getp d k)"
    and "nullish (getp args f) \<Longrightarrow> getp d f = JUndef"
  shows "hash_field (getp d f)"
proof (cases "nullish (getp args f)")
  case False
  then have "mapR JStr (normalizeHexHash (getp args f) f) = Inr (getp d f)"
    by (intro assms(1)) (auto simp: optHashField_def intro: mapR_JStr_literal)
  then show ?thesis by (auto simp: hash_field_def mapR_Inr dest: normalizeHexHash_Inr)
qed (simp add: hash_field_def assms(2))

lemma decision_built:
  assumes "buildSettlementDecisionRecord H args = Inr d" and hex: "\<And>x. is_sha256_hex (H x)"
  shows "sealed H ''decisionHash'' d"
    and "\<exists>i. normalizeId (getp args ''decisionId'') ''decisionId'' 1 200 = Inr i \<and> getp d ''decisionId'' = JStr i"
    and "\<exists>i. normalizeId (getp args ''runId'') ''runId'' 1 128 = Inr i \<and> getp d ''runId'' = JStr i"
    and "\<exists>i. normalizeId (getp args ''settlementId'') ''settlementId'' 1 200 = Inr i \<and> getp d ''settlementId'' = JStr i"
    and "\<exists>t. getp args ''decidedAt'' = JStr t \<and> is_iso t \<and> getp d ''decidedAt'' = JStr t"
    and "getp d ''schemaVersion'' = JStr SETTLEMENT_DECISION_RECORD_SCHEMA_VERSION_V2 \<Longrightarrow>
      getp d ''policyNormalizationVersion'' = (if getp args ''policyNormalizationVersion'' = JUndef then JStr SETTLEMENT_POLICY_NORMALIZATION_VERSION_V1
        else trimmedText (getp args ''policyNormalizationVersion'')) \<and> hash_field (getp d ''policyHashUsed'') \<and> getp d ''policyHashUsed'' \<noteq> JUndef
      \<and> hash_field (getp d ''profileHashUsed'') \<and> hash_field (getp d ''verificationMethodHashUsed'')"
proof -
  from assms(1) obtain t v obj where t: "getp args ''decidedAt'' = JStr t" "is_iso t"
    and v: "v \<in> {SETTLEMENT_DECISION_RECORD_SCHEMA_VERSION_V1, SETTLEMENT_DECISION_RECORD_SCHEMA_VERSION_V2}"
    and o: "objOf (decisionFields v args t) = Inr obj" and s: "seal H ''decisionHash'' obj = Inr d"
    by (auto simp: buildSettlementDecisionRecord_def Let_def res_simps)
  note b = built[OF o s hex decision_good]
  show "sealed H ''decisionHash'' d" by (rule b(1))
  have id: "\<exists>i. normalizeId (getp args k) k 1 hi = Inr i \<and> getp d k = JStr i" if "idField args hi k \<in> set (decisionFields v args t)" for k hi
    using b(2)[OF that[unfolded idField_def] mapR_JStr_literal] by (auto simp: mapR_Inr)
  show "\<exists>i. normalizeId (getp args ''decisionId'') ''decisionId'' 1 200 = Inr i \<and> getp d ''decisionId'' = JStr i"
    "\<exists>i. normalizeId (getp args ''runId'') ''runId'' 1 128 = Inr i \<and> getp d ''runId'' = JStr i"
    "\<exists>i. normalizeId (getp args ''settlementId'') ''settlementId'' 1 200 = Inr i \<and> getp d ''settlementId'' = JStr i"
    by (rule id, simp add: decisionFields_def)+
  have "getp d ''decidedAt'' = JStr t" using b(2)[of "''decidedAt''" "Inr (JStr t)"] by (simp add: decisionFields_def)
  with t show "\<exists>t. getp args ''decidedAt'' = JStr t \<and> is_iso t \<and> getp d ''decidedAt'' = JStr t" by simp
  assume "getp d ''schemaVersion'' = JStr SETTLEMENT_DECISION_RECORD_SCHEMA_VERSION_V2"
  moreover have "getp d ''schemaVersion'' = JStr v" using b(2)[of "''schemaVersion''" "Inr (JStr v)"] by (simp add: decisionFields_def)
  ultimately have v2: "v = SETTLEMENT_DECISION_RECORD_SCHEMA_VERSION_V2" by simp
  then have sub: "set (pinnedFields args) \<subseteq> set (decisionFields v args t)" by (auto simp: decisionFields_def)
  have opt: "hash_field (getp d f)" if "set (optHashField args f) \<subseteq> set (pinnedFields args)"
    "nullish (getp args f) \<Longrightarrow> f \<notin> insert ''decisionHash'' (set (map fst (decisionFields v args t)))" for f
    using that sub b(2,3) by (intro opt_hash[of args f d]) blast+
  have absent: "nullish (getp args f) \<Longrightarrow> f \<in> {''profileHashUsed'', ''verificationMethodHashUsed''} \<Longrightarrow>
      f \<notin> insert ''decisionHash'' (set (map fst (decisionFields v args t)))" for f
    unfolding decision_keys optional_keys by auto
  have "hash_field (getp d ''profileHashUsed'')" "hash_field (getp d ''verificationMethodHashUsed'')"
    by (rule opt; use absent in \<open>auto simp: pinnedFields_def\<close>)+
  moreover have "(''policyHashUsed'', mapR JStr (normalizeHexHash (getp args ''policyHashUsed'') ''policyHashUsed'')) \<in> set (decisionFields v args t)"
    using sub by (auto simp: pinnedFields_def)
  then have "mapR JStr (normalizeHexHash (getp args ''policyHashUsed'') ''policyHashUsed'') = Inr (getp d ''policyHashUsed'')"
    using mapR_JStr_literal by (intro b(2)) auto
  then have "hash_field (getp d ''policyHashUsed'') \<and> getp d ''policyHashUsed'' \<noteq> JUndef"
    by (auto simp: mapR_Inr hash_field_def dest: normalizeHexHash_Inr)
  moreover have "getp d ''policyNormalizationVersion'' = (if getp args ''policyNormalizationVersion'' = JUndef then JStr SETTLEMENT_POLICY_NORMALIZATION_VERSION_V1
        else trimmedText (getp args ''policyNormalizationVersion''))" (is "_ = ?r")
  proof -
    have "(''policyNormalizationVersion'', Inr ?r) \<in> set (decisionFields v args t)" using sub by (auto simp: pinnedFields_def)
    from b(2)[OF this] show ?thesis by auto
  qed
  ultimately show "getp d ''policyNormalizationVersion'' = (if getp args ''policyNormalizationVersion'' = JUndef then JStr SETTLEMENT_POLICY_NORMALIZATION_VERSION_V1
        else trimmedText (getp args ''policyNormalizationVersion'')) \<and> hash_field (getp d ''policyHashUsed'') \<and> getp d ''policyHashUsed'' \<noteq> JUndef
      \<and> hash_field (getp d ''profileHashUsed'') \<and> hash_field (getp d ''verificationMethodHashUsed'')" by blast
qed

lemma receipt_built:
  assumes "buildSettlementReceipt H args = Inr r" and hex: "\<And>x. is_sha256_hex (H x)"
  shows "sealed H ''receiptHash'' r"
    and "\<exists>i. normalizeId (getp args ''runId'') ''runId'' 1 128 = Inr i \<and> getp r ''runId'' = JStr i"
    and "\<exists>i. normalizeId (getp args ''settlementId'') ''settlementId'' 1 200 = Inr i \<and> getp r ''settlementId'' = JStr i"
    and "\<exists>i h. normalizeId (getp (getp args ''decisionRecord'') ''decisionId'') ''decisionRecord.decisionId'' 1 200 = Inr i
      \<and> normalizeHexHash (getp (getp args ''decisionRecord'') ''decisionHash'') ''decisionRecord.decisionHash'' = Inr h
      \<and> getp r ''decisionRef'' = JObj [(''decisionId'', JStr i), (''decisionHash'', JStr h)]"
    and "\<exists>t. getp args ''createdAt'' = JStr t \<and> is_iso t \<and> getp r ''createdAt'' = JStr t"
    and "getp r ''settledAt'' = nullableText (getp args ''settledAt'') \<and> (nullish (getp args ''settledAt'') \<or> (\<exists>t. getp args ''settledAt'' = JStr t \<and> is_iso t))"
proof -
  from assms(1) obtain t obj where t: "getp args ''createdAt'' = JStr t" "is_iso t"
    and st: "nullish (getp args ''settledAt'') \<or> (\<exists>t. getp args ''settledAt'' = JStr t \<and> is_iso t)"
    and o: "objOf (receiptFields args t) = Inr obj" and s: "seal H ''receiptHash'' obj = Inr r"
    by (auto simp: buildSettlementReceipt_def res_simps split: if_splits)
  note b = built[OF o s hex receipt_good]
  show "sealed H ''receiptHash'' r" by (rule b(1))
  have id: "\<exists>i. normalizeId (getp args k) k 1 hi = Inr i \<and> getp r k = JStr i" if "idField args hi k \<in> set (receiptFields args t)" for k hi
    using b(2)[OF that[unfolded idField_def] mapR_JStr_literal] by (auto simp: mapR_Inr)
  show "\<exists>i. normalizeId (getp args ''runId'') ''runId'' 1 128 = Inr i \<and> getp r ''runId'' = JStr i"
    "\<exists>i. normalizeId (getp args ''settlementId'') ''settlementId'' 1 200 = Inr i \<and> getp r ''settlementId'' = JStr i"
    by (rule id, simp add: receiptFields_def)+
  have "getp r ''createdAt'' = JStr t" using b(2)[of "''createdAt''" "Inr (JStr t)"] by (simp add: receiptFields_def)
  with t show "\<exists>t. getp args ''createdAt'' = JStr t \<and> is_iso t \<and> getp r ''createdAt'' = JStr t" by simp
  have "getp r ''settledAt'' = nullableText (getp args ''settledAt'')"
    using b(2)[of "''settledAt''" "Inr (nullableText (getp args ''settledAt''))"] by (simp add: receiptFields_def textField_def)
  with st show "getp r ''settledAt'' = nullableText (getp args ''settledAt'') \<and> (nullish (getp args ''settledAt'') \<or> (\<exists>t. getp args ''settledAt'' = JStr t \<and> is_iso t))"
    by simp
  let ?d = "getp args ''decisionRecord''"
  have ref: "objOf (decisionRefFields ?d) = Inr v \<Longrightarrow> \<exists>i h. normalizeId (getp ?d ''decisionId'') ''decisionRecord.decisionId'' 1 200 = Inr i
      \<and> normalizeHexHash (getp ?d ''decisionHash'') ''decisionRecord.decisionHash'' = Inr h \<and> v = JObj [(''decisionId'', JStr i), (''decisionHash'', JStr h)]" for v
    by (auto simp: objOf_def decisionRefFields_def mapR_Inr andThen_Inr_iff)
  have "objOf (decisionRefFields ?d) = Inr (getp r ''decisionRef'')"
    using ref by (intro b(2)) (auto simp: receiptFields_def plain_keys_def plain_key_def is_digit_def)
  from ref[OF this] show "\<exists>i h. normalizeId (getp ?d ''decisionId'') ''decisionRecord.decisionId'' 1 200 = Inr i
      \<and> normalizeHexHash (getp ?d ''decisionHash'') ''decisionRecord.decisionHash'' = Inr h
      \<and> getp r ''decisionRef'' = JObj [(''decisionId'', JStr i), (''decisionHash'', JStr h)]" .
qed

section \<open>Verification of what is built\<close>

lemma err_empty [simp]: "err b c = [] \<longleftrightarrow> \<not> b"
  by (simp add: err_def)

lemma sealed_passes: "sealed H field d \<Longrightarrow> hashErrors H field invalid mismatch d = []"
  using sha256_hex_norm by (auto simp: sealed_def hashErrors_def hexText_def Let_def)

lemma sealed_object: "sealed H field d \<Longrightarrow> isObjectLike d"
  by (auto simp: sealed_def isObjectLike_def)

lemma hash_field_hex: "hash_field v \<Longrightarrow> v \<noteq> JUndef \<Longrightarrow> is_sha256_hex (hexText v)"
  using sha256_hex_norm by (auto simp: hash_field_def hexText_def)

text \<open>An artifact belongs to a settlement when it names its run and its id, where the settlement has them.\<close>

definition belongs :: "jsval \<Rightarrow> jsval \<Rightarrow> bool" where
  "belongs settlement d \<longleftrightarrow> (settlementRunId settlement = [] \<or> textOf (getp d ''runId'') = settlementRunId settlement)
     \<and> (truthy (getp settlement ''settlementId'') \<longrightarrow> textOf (getp d ''settlementId'') = js_String (getp settlement ''settlementId''))"

lemma ownerErrors_empty [simp]: "ownerErrors settlement a b d = [] \<longleftrightarrow> belongs settlement d"
  by (auto simp: ownerErrors_def belongs_def)

text \<open>The decision comes before the receipt, and both before the settlement.\<close>

definition chronological :: "jsval \<Rightarrow> jsval \<Rightarrow> bool" where
  "chronological d r \<longleftrightarrow> (let decided = timeOf (getp d ''decidedAt''); created = timeOf (getp r ''createdAt''); settled = timeOf (getp r ''settledAt'') in
     \<not> earlier created decided \<and> \<not> earlier settled decided \<and> \<not> earlier settled created)"

lemma iso_time: "is_iso t \<Longrightarrow> timeOf (JStr t) \<noteq> None"
  by (simp add: is_iso_def timeOf_def)

lemma built_decision_errors:
  assumes "buildSettlementDecisionRecord H args = Inr d" and hex: "\<And>x. is_sha256_hex (H x)"
  shows "decisionErrors H settlement d = [] \<longleftrightarrow> version_ok d \<and> belongs settlement d"
proof -
  note b = decision_built[OF assms]
  have "timeOf (getp d ''decidedAt'') \<noteq> None" using b(5) iso_time by auto
  moreover have "pinnedErrors d = [] \<longleftrightarrow> version_ok d" if v2: "getp d ''schemaVersion'' = JStr SETTLEMENT_DECISION_RECORD_SCHEMA_VERSION_V2"
  proof -
    have "trim SETTLEMENT_POLICY_NORMALIZATION_VERSION_V1 = SETTLEMENT_POLICY_NORMALIZATION_VERSION_V1" by code_simp
    then obtain t where t: "getp d ''policyNormalizationVersion'' = JStr t" "trim t = t"
      using b(6)[OF v2] by (cases "getp args ''policyNormalizationVersion'' = JUndef") (auto simp: trimmedText_def)
    from b(6)[OF v2] have h: "hash_field (getp d ''policyHashUsed'')" "getp d ''policyHashUsed'' \<noteq> JUndef" "hash_field (getp d ''profileHashUsed'')"
        "hash_field (getp d ''verificationMethodHashUsed'')" by auto
    have "is_sha256_hex (hexText (getp d ''policyHashUsed''))" using h(1,2) by (rule hash_field_hex)
    moreover from this have "hexText (getp d ''policyHashUsed'') \<noteq> []" using sha256_hex_norm by blast
    ultimately show ?thesis using t h(3,4) v2 hash_field_hex by (auto simp: pinnedErrors_def version_ok_def Let_def)
  qed
  ultimately show ?thesis using sealed_passes[OF b(1)] by (auto simp: decisionErrors_def version_ok_def)
qed

lemma built_receipt_errors:
  assumes "buildSettlementDecisionRecord H dargs = Inr d" and "buildSettlementReceipt H rargs = Inr r" and "getp rargs ''decisionRecord'' = d"
    and hex: "\<And>x. is_sha256_hex (H x)"
  shows "receiptErrors H settlement d r = [] \<longleftrightarrow> belongs settlement r \<and> chronological d r"
proof -
  note b = decision_built[OF assms(1) hex] and c = receipt_built[OF assms(2) hex]
  obtain i where i: "getp d ''decisionId'' = JStr i" "good_id 1 200 i" using b(2) normalizeId_Inr by blast
  obtain h where h: "getp d ''decisionHash'' = JStr h" "is_sha256_hex h" using b(1) by (auto simp: sealed_def)
  have "getp r ''decisionRef'' = JObj [(''decisionId'', JStr i), (''decisionHash'', JStr h)]"
    using c(4) i h by (simp add: assms(3))
  then have "refErrors d (getp r ''decisionRef'') = []" using i h by (simp add: refErrors_def isObjectLike_def)
  moreover have "timeOf (getp r ''createdAt'') \<noteq> None" using c(5) iso_time by auto
  moreover have "nullish (getp r ''settledAt'') \<or> timeOf (getp r ''settledAt'') \<noteq> None"
    using c(6) iso_time by (auto simp: nullableText_def nullish_def)
  ultimately show ?thesis using sealed_passes[OF c(1)] sealed_object[OF b(1)]
    by (auto simp: receiptErrors_def dateErrors_def chronological_def Let_def)
qed

lemma built_verifies:
  assumes "buildSettlementDecisionRecord H dargs = Inr d" and "buildSettlementReceipt H rargs = Inr r" and "getp rargs ''decisionRecord'' = d"
    and "\<And>x. is_sha256_hex (H x)" and "extractSettlementKernelArtifacts settlement = (d, r)"
  shows "kv_valid (verifySettlementKernelArtifacts H settlement runId) \<longleftrightarrow>
    (nullish runId \<or> js_String runId = settlementRunId settlement) \<and> version_ok d \<and> belongs settlement d \<and> belongs settlement r \<and> chronological d r"
proof -
  have o: "isObjectLike d" "isObjectLike r"
    using decision_built(1)[OF assms(1,4)] receipt_built(1)[OF assms(2,4)] sealed_object by blast+
  then have "isObjectLike settlement" using assms(5) by (auto simp: extractSettlementKernelArtifacts_def isObjectLike_def split: if_splits)
  then show ?thesis using o built_decision_errors[OF assms(1,4)] built_receipt_errors[OF assms(1-4)]
    by (auto simp: verifySettlementKernelArtifacts_def kernelErrors_def assms(5) Let_def)
qed

text \<open>C10: What the builders make, the verifier accepts. A settlement that carries a decision record and the receipt built from
  it verifies exactly when both name the settlement and its run, the dates are in order, and the record states its
  normalization version: hashes, references and formats never fail. The builder does not check the version, so one that
  is blank or longer than 64 characters is built and not accepted.\<close>

theorem kernel_build_verifies:
  assumes "buildSettlementDecisionRecord H dargs = Inr d" and "buildSettlementReceipt H rargs = Inr r" and "getp rargs ''decisionRecord'' = d"
    and "\<And>x. is_sha256_hex (H x)" and "extractSettlementKernelArtifacts settlement = (d, r)"
  shows "kv_valid (verifySettlementKernelArtifacts H settlement runId) \<longleftrightarrow>
    (nullish runId \<or> js_String runId = settlementRunId settlement) \<and> version_ok d \<and> belongs settlement d \<and> belongs settlement r \<and> chronological d r"
  by (rule built_verifies[OF assms])

section \<open>What a hash determines\<close>

definition decisionRecordCheck :: "(string \<Rightarrow> string) \<Rightarrow> jsval \<Rightarrow> unit res" where
  "decisionRecordCheck H d = throwIf (hashErrors H ''decisionHash'' DECISION_RECORD_HASH_INVALID DECISION_RECORD_HASH_MISMATCH d \<noteq> []) (PlainError ''decision record'')"

definition receiptCheck :: "(string \<Rightarrow> string) \<Rightarrow> jsval \<Rightarrow> unit res" where
  "receiptCheck H r = throwIf (hashErrors H ''receiptHash'' SETTLEMENT_RECEIPT_HASH_INVALID SETTLEMENT_RECEIPT_HASH_MISMATCH r \<noteq> []) (PlainError ''receipt'')"

lemma kernel_digest:
  "computeKernelHash H d field = Inr h \<Longrightarrow> \<exists>ps n text. d = JObj ps \<and> normalizeForCanonicalJson (JObj (without [field, ''artifactHash''] ps)) ''$'' False = Inr n
     \<and> canonicalJsonStringify n = Inr text \<and> h = H text"
  by (cases d) (auto simp: computeKernelHash_def andThen_Inr_iff assertPlainObject_def isObjectLike_def own_props_def)

lemma no_hash_error:
  assumes "hashErrors H field invalid mismatch d = []"
  shows "\<exists>s. getp d field = JStr s \<and> computeKernelHash H d field = Inr (toLowerCase (trim s))"
  using assms by (cases "getp d field") (auto simp: hashErrors_def hexText_def is_sha256_hex_def Let_def split: if_splits sum.splits)

interpretation decision_doc: hashed_document "\<lambda>H d. computeKernelHash H d ''decisionHash''" decisionRecordCheck "''decisionHash''" "[''decisionHash'', ''artifactHash'']"
  using kernel_digest no_hash_error by unfold_locales (auto simp: decisionRecordCheck_def throwIf_Inr_iff)

interpretation receipt_doc: hashed_document "\<lambda>H d. computeKernelHash H d ''receiptHash''" receiptCheck "''receiptHash''" "[''receiptHash'', ''artifactHash'']"
  using kernel_digest no_hash_error by unfold_locales (auto simp: receiptCheck_def throwIf_Inr_iff)

text \<open>Equivalent documents read as the same text.\<close>

lemma json_equiv_nullish: "json_equiv v w \<Longrightarrow> nullish v = nullish w"
  by (auto simp: nullish_def is_container_def elim: json_equiv.cases)

lemma json_equiv_text: "json_equiv v w \<Longrightarrow> js_String v = js_String w"
proof (induction rule: json_equiv.induct)
  case (arr xs ys)
  then have "list_all2 (\<lambda>x y. (if nullish x then [] else js_String x) = (if nullish y then [] else js_String y)) xs ys"
    by (auto simp: json_equiv_nullish elim: list_all2_mono)
  then have "map (\<lambda>x. if nullish x then [] else js_String x) xs = map (\<lambda>x. if nullish x then [] else js_String x) ys"
    by (induction rule: list_all2_induct) auto
  then show ?case by simp
qed simp_all

lemma json_equiv_property: "json_equiv v w \<Longrightarrow> json_equiv (getp v k) (getp w k)"
proof -
  assume e: "json_equiv v w"
  then show ?thesis
  proof (cases rule: json_equiv.cases)
    case scalar
    then show ?thesis by (cases v) (auto simp: is_container_def intro: json_equiv.scalar)
  next
    case (arr xs ys)
    then show ?thesis by (simp add: json_equiv.scalar is_container_def)
  next
    case (obj ps qs)
    then show ?thesis using e json_equiv_getp by simp
  qed
qed

lemma json_equiv_textOf: "json_equiv v w \<Longrightarrow> textOf v = textOf w"
  using json_equiv_text[of v w] json_equiv_nullish[of v w] by (auto simp: textOf_def orElse_def)

lemma verified_parts:
  assumes "kv_valid (verifySettlementKernelArtifacts H settlement i)" and "extractSettlementKernelArtifacts settlement = (d, r)"
  shows "decisionRecordCheck H d = Inr ()" and "receiptCheck H r = Inr ()" and "isObjectLike (getp r ''decisionRef'')"
    and "textOf (getp (getp r ''decisionRef'') ''decisionHash'') = textOf (getp d ''decisionHash'')"
proof -
  have "kernelErrors H settlement i = []" using assms(1) by (auto simp: verifySettlementKernelArtifacts_def Let_def split: if_splits)
  then have "isObjectLike d" "decisionErrors H settlement d = []" "receiptErrors H settlement d r = []"
    by (auto simp: kernelErrors_def assms(2) Let_def split: if_splits)
  then show "decisionRecordCheck H d = Inr ()" "receiptCheck H r = Inr ()" "isObjectLike (getp r ''decisionRef'')"
    "textOf (getp (getp r ''decisionRef'') ''decisionHash'') = textOf (getp d ''decisionHash'')"
    by (auto simp: decisionErrors_def receiptErrors_def decisionRecordCheck_def receiptCheck_def refErrors_def throwIf_def split: if_splits)
qed

text \<open>C9: A receipt hash determines the whole settlement evidence. Two settlements whose artifacts verify and whose receipts have
  the same hash have the same receipt and the same decision record, in every field under the hashes and up to the order of
  object keys, unless they exhibit a collision of SHA-256 (\<open>inj_on\<close> rules out just those collisions).\<close>

theorem kernel_receipt_binds:
  assumes "kv_valid (verifySettlementKernelArtifacts H s i)" and "extractSettlementKernelArtifacts s = (d, r)"
    and "kv_valid (verifySettlementKernelArtifacts H s' i')" and "extractSettlementKernelArtifacts s' = (d', r')"
    and "getp r ''receiptHash'' = getp r' ''receiptHash''"
    and doc: "\<And>v. v \<in> {d, r, d', r'} \<Longrightarrow> literal_doc v \<and> hashable v" and hex: "\<And>x. is_sha256_hex (H x)"
    and "inj_on H {core_text [''receiptHash'', ''artifactHash''] r, core_text [''receiptHash'', ''artifactHash''] r'}"
    and "inj_on H {core_text [''decisionHash'', ''artifactHash''] d, core_text [''decisionHash'', ''artifactHash''] d'}"
  shows "(k \<notin> {''receiptHash'', ''artifactHash''} \<longrightarrow> json_equiv (getp r k) (getp r' k))
    \<and> (k \<notin> {''decisionHash'', ''artifactHash''} \<longrightarrow> json_equiv (getp d k) (getp d' k))"
proof -
  note v = verified_parts[OF assms(1,2)] and v' = verified_parts[OF assms(3,4)]
  have receipts: "json_equiv (getp r f) (getp r' f)" if "f \<notin> {''receiptHash'', ''artifactHash''}" for f
    using receipt_doc.same_hash_same_content[OF v(2) v'(2) assms(5) _ _ _ _ hex assms(8), of f] doc that by simp
  then have "json_equiv (getp r ''decisionRef'') (getp r' ''decisionRef'')" by simp
  from json_equiv_textOf[OF json_equiv_property[OF this, of "''decisionHash''"]] have t: "textOf (getp d ''decisionHash'') = textOf (getp d' ''decisionHash'')" using v(4) v'(4) by simp
  obtain h h' where "getp d ''decisionHash'' = JStr h" "getp d' ''decisionHash'' = JStr h'"
    using decision_doc.valid_digest[OF v(1) hex] decision_doc.valid_digest[OF v'(1) hex] by blast
  then have "getp d ''decisionHash'' = getp d' ''decisionHash''" using t by (simp add: textOf_def)
  then show ?thesis using receipts decision_doc.same_hash_same_content[OF v(1) v'(1) _ _ _ _ _ hex assms(9), of k] doc by simp
qed

section \<open>A settled run\<close>

lemma seal_literal:
  assumes "literal_doc (JObj ps)" and "neg_zero_free (JObj ps)" and "plain_key field" and "trim field \<noteq> []"
    and "field \<notin> fst ` set ps" and "''artifactHash'' \<notin> fst ` set ps"
  shows "\<exists>t. seal H field (JObj ps) = Inr (JObj (ps @ [(field, JStr (H t))]))"
proof -
  have n: "normal (JObj ps)" using assms(1,2) by (rule normal_literal)
  obtain c where "canonicalize (JObj ps) = Inr c" using canonicalize_literal[OF assms(1,2)] by blast
  moreover have "without [field, ''artifactHash''] ps = ps" using assms(5,6) by (intro without_none) auto
  moreover have "assertNonEmptyString (JStr field) ''hashField'' = Inr field" using assms(4) by (simp add: assertNonEmptyString_def)
  ultimately have "computeKernelHash H (JObj ps) field = Inr (H (json_stringify c))"
    using n by (simp add: computeKernelHash_def assertPlainObject_def isObjectLike_def own_props_def canonicalJsonStringify_def)
  then show ?thesis using n normal_append[OF n assms(3,5), of "JStr (H (json_stringify c))"]
    by (auto simp: seal_def own_props_def normal_def)
qed

definition sample_decision_args :: jsval where
  "sample_decision_args = JObj
     [(''decisionId'', JStr ''dec_1''), (''tenantId'', JStr ''t1''), (''runId'', JStr ''run_1''), (''settlementId'', JStr ''setl_run_1''),
      (''decisionStatus'', JStr ''auto_resolved''), (''decisionMode'', JStr ''automatic''), (''verificationStatus'', JStr ''green''),
      (''policyHashUsed'', JStr (sample_hash (CHR ''a''))), (''runStatus'', JStr ''completed''),
      (''bindings'', JObj [(''request'', JObj [(''sha256'', JStr (sample_hash (CHR ''b'')))])]), (''decidedAt'', JStr ''2024-01-02T00:00:00.000Z'')]"

definition sample_receipt_args :: "jsval \<Rightarrow> jsval" where
  "sample_receipt_args d = JObj
     [(''receiptId'', JStr ''rcpt_1''), (''tenantId'', JStr ''t1''), (''runId'', JStr ''run_1''), (''settlementId'', JStr ''setl_run_1''),
      (''decisionRecord'', d), (''status'', JStr ''released''), (''amountCents'', JInt 100), (''releasedAmountCents'', JInt 100),
      (''refundedAmountCents'', JInt 0), (''releaseRatePct'', JInt 100), (''currency'', JStr ''USD''), (''runStatus'', JStr ''completed''),
      (''settledAt'', JStr ''2024-01-02T00:00:00.000Z''), (''createdAt'', JStr ''2024-01-02T00:00:00.000Z'')]"

definition sample_decision_props :: props where
  "sample_decision_props =
     [(''schemaVersion'', JStr ''SettlementDecisionRecord.v2''), (''decisionId'', JStr ''dec_1''), (''tenantId'', JStr ''t1''), (''runId'', JStr ''run_1''),
      (''settlementId'', JStr ''setl_run_1''), (''agreementId'', JNull), (''decisionStatus'', JStr ''auto_resolved''), (''decisionMode'', JStr ''automatic''),
      (''decisionReason'', JNull), (''verificationStatus'', JStr ''green''), (''policyNormalizationVersion'', JStr ''v1''),
      (''policyHashUsed'', JStr (sample_hash (CHR ''a''))), (''policyRef'', JObj [(''policyHash'', JNull), (''verificationMethodHash'', JNull)]),
      (''verifierRef'', JObj [(''verifierId'', JNull), (''verifierVersion'', JNull), (''verifierHash'', JNull), (''modality'', JNull)]),
      (''workRef'', JObj [(''runStatus'', JStr ''completed''), (''runLastEventId'', JNull), (''runLastChainHash'', JNull), (''resolutionEventId'', JNull)]),
      (''bindings'', JObj [(''authorizationRef'', JNull), (''token'', JNull), (''request'', JObj [(''sha256'', JStr (sample_hash (CHR ''b'')))]),
         (''response'', JNull), (''providerSig'', JNull), (''providerQuoteSig'', JNull), (''reserve'', JNull), (''quote'', JNull),
         (''spendAuthorization'', JNull), (''executionIntent'', JNull), (''policyDecisionFingerprint'', JNull)]),
      (''decidedAt'', JStr ''2024-01-02T00:00:00.000Z'')]"

definition sample_record :: jsval where
  "sample_record = JObj (sample_decision_props @ [(''decisionHash'', JStr (sample_hash (CHR ''0'')))])"

definition sample_receipt_props :: props where
  "sample_receipt_props =
     [(''schemaVersion'', JStr ''SettlementReceipt.v1''), (''receiptId'', JStr ''rcpt_1''), (''tenantId'', JStr ''t1''), (''runId'', JStr ''run_1''),
      (''settlementId'', JStr ''setl_run_1''),
      (''decisionRef'', JObj [(''decisionId'', JStr ''dec_1''), (''decisionHash'', JStr (sample_hash (CHR ''0'')))]), (''status'', JStr ''released''),
      (''amountCents'', JInt 100), (''releasedAmountCents'', JInt 100), (''refundedAmountCents'', JInt 0), (''releaseRatePct'', JInt 100),
      (''currency'', JStr ''USD''), (''runStatus'', JStr ''completed''), (''resolutionEventId'', JNull), (''finalityProvider'', JStr ''internal_ledger''),
      (''finalityState'', JStr ''final''), (''settledAt'', JStr ''2024-01-02T00:00:00.000Z''), (''createdAt'', JStr ''2024-01-02T00:00:00.000Z'')]"

definition sample_receipt :: jsval where
  "sample_receipt = JObj (sample_receipt_props @ [(''receiptHash'', JStr (sample_hash (CHR ''0'')))])"

lemma sample_built_fields:
  "objOf (decisionFields SETTLEMENT_DECISION_RECORD_SCHEMA_VERSION_V2 sample_decision_args ''2024-01-02T00:00:00.000Z'') = Inr (JObj sample_decision_props)"
  "objOf (receiptFields (sample_receipt_args sample_record) ''2024-01-02T00:00:00.000Z'') = Inr (JObj sample_receipt_props)"
  by (code_simp, code_simp)

lemma sample_literal:
  "literal_doc (JObj sample_decision_props)" "neg_zero_free (JObj sample_decision_props)"
  "literal_doc (JObj sample_receipt_props)" "neg_zero_free (JObj sample_receipt_props)"
  by (simp_all add: sample_decision_props_def sample_receipt_props_def plain_keys_def plain_key_def is_digit_def)

lemma sample_iso: "is_iso ''2024-01-02T00:00:00.000Z''" "date_parse ''2024-01-02T00:00:00.000Z'' = Some 1704153600000"
  by (code_simp, code_simp)

lemma sample_record_built: "buildSettlementDecisionRecord const_hash sample_decision_args = Inr sample_record"
proof -
  have "seal const_hash ''decisionHash'' (JObj sample_decision_props) = Inr sample_record"
    using seal_literal[OF sample_literal(1,2), of "''decisionHash''" const_hash]
    by (auto simp: sample_record_def const_hash_def sample_hash_def sample_decision_props_def plain_key_def is_digit_def trim_def is_ws_def)
  moreover have "getp sample_decision_args ''decidedAt'' = JStr ''2024-01-02T00:00:00.000Z''" "getp sample_decision_args ''schemaVersion'' = JUndef"
    by (simp_all add: sample_decision_args_def)
  moreover have "trim SETTLEMENT_DECISION_RECORD_SCHEMA_VERSION_V2 = SETTLEMENT_DECISION_RECORD_SCHEMA_VERSION_V2" by code_simp
  ultimately show ?thesis using sample_built_fields(1) sample_iso(1) by (simp add: buildSettlementDecisionRecord_def dflt_def)
qed

lemma sample_receipt_built: "buildSettlementReceipt const_hash (sample_receipt_args sample_record) = Inr sample_receipt"
proof -
  have "seal const_hash ''receiptHash'' (JObj sample_receipt_props) = Inr sample_receipt"
    using seal_literal[OF sample_literal(3,4), of "''receiptHash''" const_hash]
    by (auto simp: sample_receipt_def const_hash_def sample_hash_def sample_receipt_props_def plain_key_def is_digit_def trim_def is_ws_def)
  moreover have "getp (sample_receipt_args sample_record) ''decisionRecord'' = sample_record"
    "getp (sample_receipt_args sample_record) ''createdAt'' = JStr ''2024-01-02T00:00:00.000Z''"
    "getp (sample_receipt_args sample_record) ''settledAt'' = JStr ''2024-01-02T00:00:00.000Z''"
    by (simp_all add: sample_receipt_args_def)
  ultimately show ?thesis using sample_built_fields(2) sample_iso(1)
    by (simp add: buildSettlementReceipt_def sample_record_def assertPlainObject_def isObjectLike_def nullish_def)
qed

definition sample_kernel_settlement :: jsval where
  "sample_kernel_settlement = JObj [(''runId'', JStr ''run_1''), (''settlementId'', JStr ''setl_run_1''),
     (''decisionTrace'', JObj [(''decisionRecord'', sample_record), (''settlementReceipt'', sample_receipt)])]"

lemma sample_extract: "extractSettlementKernelArtifacts sample_kernel_settlement = (sample_record, sample_receipt)"
  by (simp add: extractSettlementKernelArtifacts_def sample_kernel_settlement_def isObjectLike_def sample_record_def sample_receipt_def)

lemma sample_accepted: "version_ok sample_record" "belongs sample_kernel_settlement sample_record" "belongs sample_kernel_settlement sample_receipt"
  "settlementRunId sample_kernel_settlement = ''run_1''" "chronological sample_record sample_receipt" "getp (sample_receipt_args sample_record) ''decisionRecord'' = sample_record"
  by (simp_all add: version_ok_def belongs_def settlementRunId_def textOf_def chronological_def timeOf_def earlier_def sample_iso sample_receipt_args_def
      sample_kernel_settlement_def sample_record_def sample_decision_props_def sample_receipt_def sample_receipt_props_def)

lemma sample_verified: "kv_valid (verifySettlementKernelArtifacts const_hash sample_kernel_settlement (JStr ''run_1''))"
  using sample_accepted built_verifies[OF sample_record_built sample_receipt_built sample_accepted(6) const_hash_hex sample_extract] by simp

theorem kernel_build_verifies_witness:
  "kv_valid (verifySettlementKernelArtifacts const_hash sample_kernel_settlement (JStr ''run_1''))
    \<and> \<not> kv_valid (verifySettlementKernelArtifacts const_hash sample_kernel_settlement (JStr ''run_2''))"
  using sample_accepted kernel_build_verifies[OF sample_record_built sample_receipt_built sample_accepted(6) const_hash_hex sample_extract] by (simp add: nullish_def)

lemma sample_documents:
  "literal_doc sample_record \<and> hashable sample_record" "literal_doc sample_receipt \<and> hashable sample_receipt"
  by (simp_all add: sample_record_def sample_decision_props_def sample_receipt_def sample_receipt_props_def plain_keys_def plain_key_def is_digit_def
      is_safe_def MAX_SAFE_INTEGER_def)

theorem kernel_receipt_binds_witness:
  "json_equiv (getp sample_receipt ''amountCents'') (JInt 100) \<and> json_equiv (getp sample_record ''policyHashUsed'') (JStr (sample_hash (CHR ''a'')))"
proof -
  have f: "getp sample_receipt ''amountCents'' = JInt 100" "getp sample_record ''policyHashUsed'' = JStr (sample_hash (CHR ''a''))"
    by (simp_all add: sample_record_def sample_decision_props_def sample_receipt_def sample_receipt_props_def)
  have doc: "\<And>v. v \<in> {sample_record, sample_receipt, sample_record, sample_receipt} \<Longrightarrow> literal_doc v \<and> hashable v" using sample_documents by blast
  show ?thesis
    using kernel_receipt_binds[OF sample_verified sample_extract sample_verified sample_extract refl doc const_hash_hex, of "''amountCents''"]
      kernel_receipt_binds[OF sample_verified sample_extract sample_verified sample_extract refl doc const_hash_hex, of "''policyHashUsed''"]
    by (simp add: f)
qed

end
