(* ===== verification/Tenancy.thy ===== *)
theory Tenancy
  imports JsState
begin

text \<open>
  \<^verbatim>\<open>src/core/tenancy.js\<close>: tenant, customer and site ids, and the keys that scope the records of a store to a tenant.
\<close>

definition DEFAULT_TENANT_ID :: string where
  "DEFAULT_TENANT_ID = ''tenant_default''"

definition assertNoNewlines :: "string \<Rightarrow> string \<Rightarrow> unit res" where
  "assertNoNewlines s name =
     throwIf (CHR 0x0A \<in> set s \<or> CHR 0x0D \<in> set s) (TypeError (name @ '' must not contain newlines''))"

definition normalizeTenantId :: "jsval \<Rightarrow> string res" where
  "normalizeTenantId v =
     (if nullish v \<or> trim (js_String v) = [] then Inr DEFAULT_TENANT_ID
      else let tenantId = trim (js_String v) in
        andThen (assertNonEmptyString (JStr tenantId) ''tenantId'') (\<lambda>_.
        andThen (assertNoNewlines tenantId ''tenantId'') (\<lambda>_.
        andThen (throwIf (200 < length tenantId) (TypeError ''tenantId is too long'')) (\<lambda>_. Inr tenantId))))"

definition normalizeCustomerId :: "jsval \<Rightarrow> string option \<Rightarrow> string option res" where
  "normalizeCustomerId v defaultCustomerId =
     (if nullish v \<or> trim (js_String v) = [] then Inr defaultCustomerId
      else let customerId = trim (js_String v) in
        andThen (assertNonEmptyString (JStr customerId) ''customerId'') (\<lambda>_.
        andThen (assertNoNewlines customerId ''customerId'') (\<lambda>_.
        andThen (throwIf (200 < length customerId) (TypeError ''customerId is too long'')) (\<lambda>_. Inr (Some customerId)))))"

definition normalizeSiteId :: "jsval \<Rightarrow> string option \<Rightarrow> string option res" where
  "normalizeSiteId v defaultSiteId =
     (if nullish v \<or> trim (js_String v) = [] then Inr defaultSiteId
      else let siteId = trim (js_String v) in
        andThen (assertNonEmptyString (JStr siteId) ''siteId'') (\<lambda>_.
        andThen (assertNoNewlines siteId ''siteId'') (\<lambda>_.
        andThen (throwIf (200 < length siteId) (TypeError ''siteId is too long'')) (\<lambda>_. Inr (Some siteId)))))"

definition makeScopedKey :: "jsval \<Rightarrow> jsval \<Rightarrow> string res" where
  "makeScopedKey tenantId i =
     andThen (normalizeTenantId tenantId) (\<lambda>t.
     andThen (assertNonEmptyString i ''id'') (\<lambda>s.
     andThen (assertNoNewlines s ''id'') (\<lambda>_.
     andThen (throwIf (500 < length s) (TypeError ''id is too long'')) (\<lambda>_. Inr (t @ CHR 0x0A # s)))))"

text \<open>\<^verbatim>\<open>s.split(sep)\<close> for a one-character separator.\<close>

fun split_on :: "char \<Rightarrow> string \<Rightarrow> string list" where
  "split_on sep [] = [[]]"
| "split_on sep (c # cs) =
     (if c = sep then [] # split_on sep cs
      else case split_on sep cs of [] \<Rightarrow> [[c]] | p # ps \<Rightarrow> (c # p) # ps)"

definition parseScopedKey :: "jsval \<Rightarrow> (string \<times> string) res" where
  "parseScopedKey key =
     andThen (assertNonEmptyString key ''key'') (\<lambda>s.
       case split_on (CHR 0x0A) s of
         [tenantId, i] \<Rightarrow>
           andThen (assertNonEmptyString (JStr tenantId) ''tenantId'') (\<lambda>_.
           andThen (assertNonEmptyString (JStr i) ''id'') (\<lambda>_. Inr (tenantId, i)))
       | _ \<Rightarrow> Inl (TypeError ''invalid scoped key''))"

section \<open>Scoped keys\<close>

lemma split_on_clean: "sep \<notin> set s \<Longrightarrow> split_on sep s = [s]"
  by (induction s) auto

lemma split_on_append: "sep \<notin> set s \<Longrightarrow> split_on sep (s @ sep # t) = s # split_on sep t"
  by (induction s) auto

lemma trim_Nil_iff: "trim s = [] \<longleftrightarrow> (\<forall>c \<in> set s. is_ws c)"
proof -
  have "(\<forall>c \<in> set (dropWhile is_ws s). is_ws c) \<longleftrightarrow> (\<forall>c \<in> set s. is_ws c)"
    by (induction s) auto
  then show ?thesis by (simp add: trim_def)
qed

lemma trim_nonempty_append: "trim s \<noteq> [] \<Longrightarrow> trim (t @ s) \<noteq> []"
  by (auto simp: trim_Nil_iff)

lemma default_tenant: "trim DEFAULT_TENANT_ID \<noteq> []" "CHR 0x0A \<notin> set DEFAULT_TENANT_ID"
  by code_simp+

lemma normalizeTenantId_Inr: "normalizeTenantId v = Inr t \<Longrightarrow> trim t \<noteq> [] \<and> CHR 0x0A \<notin> set t"
  using default_tenant by (auto simp: normalizeTenantId_def Let_def res_simps assertNoNewlines_def split: if_splits)

lemma makeScopedKey_Inr:
  "makeScopedKey tenant i = Inr k \<longleftrightarrow>
     (\<exists>t s. normalizeTenantId tenant = Inr t \<and> i = JStr s \<and> trim s \<noteq> [] \<and> CHR 0x0A \<notin> set s \<and> CHR 0x0D \<notin> set s \<and> length s \<le> 500 \<and>
       k = t @ CHR 0x0A # s)"
  by (auto simp: makeScopedKey_def res_simps assertNoNewlines_def)

text \<open>A scoped key parses back to the tenant and the id it was made of, so that two tenants never share a key.\<close>

theorem scoped_key_roundtrip:
  assumes "makeScopedKey tenant i = Inr k"
  shows "\<exists>t s. normalizeTenantId tenant = Inr t \<and> i = JStr s \<and> parseScopedKey (JStr k) = Inr (t, s)"
proof -
  obtain t s where k: "normalizeTenantId tenant = Inr t" "i = JStr s" "trim s \<noteq> []" "CHR 0x0A \<notin> set s" "k = t @ CHR 0x0A # s"
    using assms by (auto simp: makeScopedKey_Inr)
  have t: "trim t \<noteq> []" "CHR 0x0A \<notin> set t" using normalizeTenantId_Inr[OF k(1)] by simp_all
  have "trim k \<noteq> []" unfolding k(5) using trim_nonempty_append[of s "t @ [CHR 0x0A]"] k(3) by simp
  then have "parseScopedKey (JStr k) = Inr (t, s)"
    using k(3,4,5) t by (simp add: parseScopedKey_def split_on_append split_on_clean assertNonEmptyString_def)
  then show ?thesis using k(1,2) by blast
qed

theorem scoped_key_roundtrip_witness:
  "parseScopedKey (JStr (''tenant_default'' @ CHR 0x0A # ''job_1'')) = Inr (''tenant_default'', ''job_1'')"
proof -
  have "makeScopedKey JNull (JStr ''job_1'') = Inr (''tenant_default'' @ CHR 0x0A # ''job_1'')" "normalizeTenantId JNull = Inr ''tenant_default''"
    by code_simp+
  then show ?thesis using scoped_key_roundtrip[of JNull "JStr ''job_1''"] by auto
qed

end
