(* ===== verification/MoneyRails.thy ===== *)
theory MoneyRails
  imports Tenancy
begin

text \<open>
  \<^verbatim>\<open>src/core/money-rail-adapters.js\<close>: payouts and collections on an external payment rail. An operation is a document
  that moves through the states of \<open>op_state\<close>; \<open>rails\<close> is the state of the in-memory adapter (its three maps), and
  the store-backed adapter is written over a record of the store's functions, \<open>rail_store\<close>. The calls return the new
  state also when they throw. \<open>providerId\<close> and \<open>now\<close> are the closure variables of an adapter.
\<close>

section \<open>States and directions\<close>

datatype op_state = Initiated | Submitted | Confirmed | Failed | Cancelled | Reversed

fun state_name :: "op_state \<Rightarrow> string" where
  "state_name Initiated = ''initiated''"
| "state_name Submitted = ''submitted''"
| "state_name Confirmed = ''confirmed''"
| "state_name Failed = ''failed''"
| "state_name Cancelled = ''cancelled''"
| "state_name Reversed = ''reversed''"

definition MONEY_RAIL_DIRECTION :: "string list" where
  "MONEY_RAIL_DIRECTION = [''payout'', ''collection'']"

definition MONEY_RAIL_OPERATION_STATE :: "op_state list" where
  "MONEY_RAIL_OPERATION_STATE = [Initiated, Submitted, Confirmed, Failed, Cancelled, Reversed]"

definition MONEY_RAIL_PROVIDER_EVENT_TYPE :: "op_state list" where
  "MONEY_RAIL_PROVIDER_EVENT_TYPE = [Submitted, Confirmed, Failed, Cancelled, Reversed]"

fun ALLOWED_STATE_TRANSITIONS :: "op_state \<Rightarrow> op_state list" where
  "ALLOWED_STATE_TRANSITIONS Initiated = [Submitted, Failed, Cancelled]"
| "ALLOWED_STATE_TRANSITIONS Submitted = [Confirmed, Failed, Cancelled]"
| "ALLOWED_STATE_TRANSITIONS Confirmed = [Reversed]"
| "ALLOWED_STATE_TRANSITIONS Failed = []"
| "ALLOWED_STATE_TRANSITIONS Cancelled = []"
| "ALLOWED_STATE_TRANSITIONS Reversed = []"

section \<open>Argument checks\<close>

definition normalizeIsoDate :: "jsval \<Rightarrow> string \<Rightarrow> string res" where
  "normalizeIsoDate v name =
     andThen (assertNonEmptyString v name) (\<lambda>s.
     andThen (throwIf (date_parse s = None) (TypeError (name @ '' must be an ISO date-time''))) (\<lambda>_. Inr s))"

definition normalizeCurrency :: "jsval \<Rightarrow> string res" where
  "normalizeCurrency v =
     andThen (assertNonEmptyString v ''currency'') (\<lambda>s.
     let normalized = toUpperCase (trim s) in
     andThen (throwIf (\<not> is_currency_code normalized) (TypeError ''currency must match ^[A-Z][A-Z0-9_]{2,11}$'')) (\<lambda>_.
       Inr normalized))"

definition normalizeDirection :: "jsval \<Rightarrow> string res" where
  "normalizeDirection v =
     (let normalized = toLowerCase (text_of v) in
      if normalized \<in> set MONEY_RAIL_DIRECTION then Inr normalized
      else Inl (TypeError (''direction must be one of: '' @ join_with ''|'' MONEY_RAIL_DIRECTION)))"

definition state_named :: "op_state list \<Rightarrow> string \<Rightarrow> op_state option" where
  "state_named ss s = List.find (\<lambda>st. state_name st = s) ss"

definition normalizeState :: "jsval \<Rightarrow> op_state res" where
  "normalizeState v =
     (case state_named MONEY_RAIL_OPERATION_STATE (toLowerCase (text_of v)) of
        Some st \<Rightarrow> Inr st
      | None \<Rightarrow> Inl (TypeError (''state must be one of: '' @ join_with ''|'' (map state_name MONEY_RAIL_OPERATION_STATE))))"

definition normalizeProviderEventType :: "jsval \<Rightarrow> op_state res" where
  "normalizeProviderEventType v =
     (case state_named MONEY_RAIL_PROVIDER_EVENT_TYPE (toLowerCase (text_of v)) of
        Some st \<Rightarrow> Inr st
      | None \<Rightarrow> Inl (TypeError (''eventType must be one of: '' @ join_with ''|'' (map state_name MONEY_RAIL_PROVIDER_EVENT_TYPE))))"

definition normalizeAmountCents :: "jsval \<Rightarrow> int res" where
  "normalizeAmountCents v =
     (case safe_int (js_Number v) of
        Some n \<Rightarrow> (if n \<le> 0 then Inl (TypeError ''amountCents must be a positive safe integer'') else Inr n)
      | None \<Rightarrow> Inl (TypeError ''amountCents must be a positive safe integer''))"

definition normalizeIdempotencyKey :: "jsval \<Rightarrow> string res" where
  "normalizeIdempotencyKey v =
     andThen (assertNonEmptyString v ''idempotencyKey'') (\<lambda>s.
     andThen (assertNoNewlines s ''idempotencyKey'') (\<lambda>_.
     let normalized = trim s in
     andThen (throwIf (500 < length normalized) (TypeError ''idempotencyKey is too long'')) (\<lambda>_. Inr normalized)))"

definition normalizeRequestMetadata :: "jsval \<Rightarrow> jsval res" where
  "normalizeRequestMetadata v =
     (if nullish v then Inr JNull
      else andThen (assertPlainObject v ''metadata'') (\<lambda>_. normalizeForCanonicalJson v ''$'' False))"

section \<open>Requests\<close>

record rail_input =
  ri_tenantId :: string
  ri_operationId :: string
  ri_direction :: string
  ri_idempotencyKey :: string
  ri_amountCents :: int
  ri_currency :: string
  ri_counterpartyRef :: string
  ri_metadata :: jsval
  ri_at :: string

definition normalizeCreateInput :: "string \<Rightarrow> jsval \<Rightarrow> rail_input res" where
  "normalizeCreateInput now input =
     andThen (assertPlainObject input ''input'') (\<lambda>_.
     let tenantId = text_of (getp input ''tenantId''); operationId = text_of (getp input ''operationId'');
         counterpartyRef = text_of (getp input ''counterpartyRef'') in
     checks [throwIf (tenantId = []) (TypeError ''tenantId is required''),
             throwIf (operationId = []) (TypeError ''operationId is required''),
             throwIf (counterpartyRef = []) (TypeError ''counterpartyRef is required'')]
     (andThen (normalizeDirection (getp input ''direction'')) (\<lambda>direction.
     andThen (normalizeIdempotencyKey (getp input ''idempotencyKey'')) (\<lambda>idempotencyKey.
     andThen (normalizeAmountCents (getp input ''amountCents'')) (\<lambda>amountCents.
     andThen (normalizeCurrency (orElse (getp input ''currency'') (JStr ''USD''))) (\<lambda>currency.
     andThen (normalizeRequestMetadata (getp input ''metadata'')) (\<lambda>metadata.
     andThen (normalizeIsoDate (orElse (getp input ''at'') (JStr now)) ''at'') (\<lambda>atArg.
       Inr \<lparr>ri_tenantId = tenantId, ri_operationId = operationId, ri_direction = direction, ri_idempotencyKey = idempotencyKey,
            ri_amountCents = amountCents, ri_currency = currency, ri_counterpartyRef = counterpartyRef, ri_metadata = metadata,
            ri_at = atArg\<rparr>))))))))"

definition js_of_input :: "rail_input \<Rightarrow> props" where
  "js_of_input i =
     [(''tenantId'', JStr (ri_tenantId i)), (''operationId'', JStr (ri_operationId i)), (''direction'', JStr (ri_direction i)),
      (''idempotencyKey'', JStr (ri_idempotencyKey i)), (''amountCents'', JInt (ri_amountCents i)), (''currency'', JStr (ri_currency i)),
      (''counterpartyRef'', JStr (ri_counterpartyRef i)), (''metadata'', ri_metadata i), (''at'', JStr (ri_at i))]"

text \<open>The request hash is the canonical text itself.\<close>

definition REQUEST_KEYS :: "string list" where
  "REQUEST_KEYS = [''tenantId'', ''operationId'', ''direction'', ''idempotencyKey'', ''amountCents'', ''currency'', ''counterpartyRef'']"

definition buildOperationRequestHash :: "jsval \<Rightarrow> string res" where
  "buildOperationRequestHash input =
     andThen (normalizeForCanonicalJson
       (JObj (map (\<lambda>k. (k, getp input k)) REQUEST_KEYS @ [(''metadata'', orElse (getp input ''metadata'') JNull)])) ''$'' False)
       canonicalJsonStringify"

definition deriveRequestHashFromOperation :: "jsval \<Rightarrow> string option" where
  "deriveRequestHashFromOperation operation =
     (if \<not> isObjectLike operation then None
      else case buildOperationRequestHash operation of Inl _ \<Rightarrow> None | Inr h \<Rightarrow> Some h)"

definition stripInternalOperationFields :: "jsval \<Rightarrow> jsval res" where
  "stripInternalOperationFields operation =
     andThen (clone operation) (\<lambda>next. case next of JObj ps \<Rightarrow> Inr (JObj (without [''requestHash''] ps)) | _ \<Rightarrow> Inr next)"

definition createConflictError :: "string \<Rightarrow> string \<Rightarrow> js_error" where
  "createConflictError c message = CodedError c message"

section \<open>Transitions\<close>

definition assertStateTransitionAllowed :: "op_state \<Rightarrow> op_state \<Rightarrow> unit res" where
  "assertStateTransitionAllowed fromState toState =
     (if fromState = toState \<or> toState \<in> set (ALLOWED_STATE_TRANSITIONS fromState) then Inr ()
      else Inl (createConflictError ''MONEY_RAIL_INVALID_TRANSITION''
             (''invalid state transition: '' @ state_name fromState @ '' -> '' @ state_name toState)))"

fun timestamp_field :: "op_state \<Rightarrow> string option" where
  "timestamp_field Initiated = None"
| "timestamp_field Submitted = Some ''submittedAt''"
| "timestamp_field Confirmed = Some ''confirmedAt''"
| "timestamp_field Failed = Some ''failedAt''"
| "timestamp_field Cancelled = Some ''cancelledAt''"
| "timestamp_field Reversed = Some ''reversedAt''"

definition transition_props :: "jsval \<Rightarrow> op_state \<Rightarrow> string \<Rightarrow> jsval \<Rightarrow> jsval \<Rightarrow> props" where
  "transition_props operation toState timestamp providerRef reasonCode =
     [(''state'', JStr (state_name toState)), (''updatedAt'', JStr timestamp),
      (''providerRef'', if nullish providerRef then orElse (getp operation ''providerRef'') JNull else JStr (js_String providerRef)),
      (''reasonCode'', if nullish reasonCode then orElse (getp operation ''reasonCode'') JNull else JStr (js_String reasonCode))]
     @ (case timestamp_field toState of None \<Rightarrow> [] | Some f \<Rightarrow> [(f, JStr timestamp)])"

definition applyStateTransition :: "jsval \<Rightarrow> op_state \<Rightarrow> jsval \<Rightarrow> jsval \<Rightarrow> jsval \<Rightarrow> jsval res" where
  "applyStateTransition operation toState atArg providerRef reasonCode =
     andThen (assertPlainObject operation ''operation'') (\<lambda>_.
     andThen (normalizeState (getp operation ''state'')) (\<lambda>fromState.
     andThen (assertStateTransitionAllowed fromState toState) (\<lambda>_.
     if fromState = toState then clone operation
     else andThen (normalizeIsoDate atArg ''at'') (\<lambda>timestamp.
       Inr (JObj (spread (own_props operation) (transition_props operation toState timestamp providerRef reasonCode)))))))"

definition buildOperationRecord :: "string \<Rightarrow> rail_input \<Rightarrow> props" where
  "buildOperationRecord providerId i =
     [(''schemaVersion'', JStr ''MoneyRailOperation.v1''), (''providerId'', JStr providerId),
      (''operationId'', JStr (ri_operationId i)), (''tenantId'', JStr (ri_tenantId i)), (''direction'', JStr (ri_direction i)),
      (''idempotencyKey'', JStr (ri_idempotencyKey i)), (''amountCents'', JInt (ri_amountCents i)), (''currency'', JStr (ri_currency i)),
      (''counterpartyRef'', JStr (ri_counterpartyRef i)), (''metadata'', ri_metadata i), (''state'', JStr (state_name Initiated)),
      (''providerRef'', JNull), (''reasonCode'', JNull), (''initiatedAt'', JStr (ri_at i)), (''submittedAt'', JNull),
      (''confirmedAt'', JNull), (''failedAt'', JNull), (''cancelledAt'', JNull), (''reversedAt'', JNull),
      (''createdAt'', JStr (ri_at i)), (''updatedAt'', JStr (ri_at i))]"

definition operationStoreKey :: "string \<Rightarrow> string \<Rightarrow> string" where
  "operationStoreKey tenantId operationId = tenantId @ CHR 0x0A # operationId"

definition idempotencyStoreKey :: "string \<Rightarrow> string \<Rightarrow> string \<Rightarrow> string" where
  "idempotencyStoreKey tenantId direction idempotencyKey = tenantId @ CHR 0x0A # direction @ CHR 0x0A # idempotencyKey"

section \<open>The in-memory adapter\<close>

record rails =
  operationsByKey :: "(string \<times> jsval) list"
  idempotencyByKey :: "(string \<times> (string \<times> string)) list"     \<comment> \<open>request hash and operation key\<close>
  providerEventsByKey :: "(string \<times> (jsval \<times> jsval)) list"     \<comment> \<open>the event and the operation after it\<close>

definition createInMemoryMoneyRailAdapter :: "string \<Rightarrow> rails res" where
  "createInMemoryMoneyRailAdapter providerId =
     andThen (assertNonEmptyString (JStr providerId) ''providerId'') (\<lambda>_.
       Inr \<lparr>operationsByKey = [], idempotencyByKey = [], providerEventsByKey = []\<rparr>)"

text \<open>The result \<^verbatim>\<open>{ operation, idempotentReplay }\<close>, respectively \<^verbatim>\<open>{ operation, applied }\<close>.\<close>

type_synonym flagged = "jsval \<times> bool"

definition withFlag :: "bool \<Rightarrow> jsval \<Rightarrow> flagged" where
  "withFlag b v = (v, b)"

definition memory_create :: "string \<Rightarrow> string \<Rightarrow> rails \<Rightarrow> jsval \<Rightarrow> (rails, flagged) call" where
  "memory_create providerId now R input =
     tryIn R (normalizeCreateInput now input) (\<lambda>normalized.
     let opKey = operationStoreKey (ri_tenantId normalized) (ri_operationId normalized);
         idemKey = idempotencyStoreKey (ri_tenantId normalized) (ri_direction normalized) (ri_idempotencyKey normalized) in
     tryIn R (buildOperationRequestHash (JObj (js_of_input normalized))) (\<lambda>requestHash.
     case map_of (idempotencyByKey R) idemKey of
       Some (knownHash, knownKey) \<Rightarrow>
         (R, if knownHash \<noteq> requestHash
             then Inl (createConflictError ''MONEY_RAIL_IDEMPOTENCY_CONFLICT'' ''idempotency key was already used with a different request'')
             else case map_of (operationsByKey R) knownKey of
                None \<Rightarrow> Inl (createConflictError ''MONEY_RAIL_STORE_CORRUPT'' ''idempotency index references missing operation'')
              | Some existing \<Rightarrow> mapR (withFlag True) (clone existing))
     | None \<Rightarrow>
         (case map_of (operationsByKey R) opKey of
            Some existing \<Rightarrow>
              tryIn R (buildOperationRequestHash existing) (\<lambda>existingHash.
              if existingHash \<noteq> requestHash
              then (R, Inl (createConflictError ''MONEY_RAIL_OPERATION_CONFLICT'' ''operationId already exists with a different request''))
              else (R\<lparr>idempotencyByKey := AList.update idemKey (requestHash, opKey) (idempotencyByKey R)\<rparr>,
                    mapR (withFlag True) (clone existing)))
          | None \<Rightarrow>
              (let operation = JObj (buildOperationRecord providerId normalized) in
               (R\<lparr>operationsByKey := AList.update opKey operation (operationsByKey R),
                  idempotencyByKey := AList.update idemKey (requestHash, opKey) (idempotencyByKey R)\<rparr>,
                mapR (withFlag False) (clone operation))))))"

text \<open>\<^verbatim>\<open>{ tenantId, operationId }\<close> of a call, trimmed.\<close>

definition call_ids :: "jsval \<Rightarrow> (string \<times> string) res" where
  "call_ids args =
     andThen (assertNonEmptyString (getp args ''tenantId'') ''tenantId'') (\<lambda>tenantId.
     andThen (assertNonEmptyString (getp args ''operationId'') ''operationId'') (\<lambda>operationId.
       Inr (trim tenantId, trim operationId)))"

definition memory_status :: "rails \<Rightarrow> jsval \<Rightarrow> jsval res" where
  "memory_status R args =
     andThen (call_ids args) (\<lambda>(tenantId, operationId).
     case map_of (operationsByKey R) (operationStoreKey tenantId operationId) of None \<Rightarrow> Inr JNull | Some op \<Rightarrow> clone op)"

text \<open>\<open>lsort\<close> sorts by \<^verbatim>\<open>localeCompare\<close> of the operation ids.\<close>

definition memory_listOperations :: "(jsval list \<Rightarrow> jsval list) \<Rightarrow> rails \<Rightarrow> jsval \<Rightarrow> jsval list res" where
  "memory_listOperations lsort R args =
     andThen (assertNonEmptyString (getp args ''tenantId'') ''tenantId'') (\<lambda>tenantId.
     andThen (mapRes clone (filter (\<lambda>op. is_object op \<and> js_String (orElse (getp op ''tenantId'') (JStr [])) = trim tenantId)
                             (map snd (operationsByKey R)))) (\<lambda>rows. Inr (lsort rows)))"

definition not_found :: js_error where
  "not_found = createConflictError ''MONEY_RAIL_OPERATION_NOT_FOUND'' ''operation not found''"

definition memory_current :: "rails \<Rightarrow> string \<Rightarrow> jsval res" where
  "memory_current R opKey = (case map_of (operationsByKey R) opKey of None \<Rightarrow> Inl not_found | Some current \<Rightarrow> Inr current)"

text \<open>The states in which a cancellation changes nothing.\<close>

definition cancel_settled :: "jsval \<Rightarrow> bool" where
  "cancel_settled current \<longleftrightarrow> (\<exists>st \<in> set [Cancelled, Confirmed, Failed, Reversed]. getp current ''state'' = JStr (state_name st))"

definition memory_cancel :: "string \<Rightarrow> rails \<Rightarrow> jsval \<Rightarrow> (rails, flagged) call" where
  "memory_cancel now R args =
     tryIn R (call_ids args) (\<lambda>(tenantId, operationId).
     let opKey = operationStoreKey tenantId operationId in
     tryIn R (memory_current R opKey) (\<lambda>current.
     if cancel_settled current then (R, mapR (withFlag False) (clone current))
     else tryIn R (applyStateTransition current Cancelled (dflt (getp args ''at'') (JStr now)) JNull
                     (dflt (getp args ''reasonCode'') (JStr ''cancelled_by_caller''))) (\<lambda>next.
       (R\<lparr>operationsByKey := AList.update opKey next (operationsByKey R)\<rparr>, mapR (withFlag True) (clone next)))))"

definition memory_transition :: "string \<Rightarrow> rails \<Rightarrow> jsval \<Rightarrow> (rails, jsval) call" where
  "memory_transition now R args =
     tryIn R (call_ids args) (\<lambda>(tenantId, operationId).
     let opKey = operationStoreKey tenantId operationId in
     tryIn R (memory_current R opKey) (\<lambda>current.
     tryIn R (normalizeState (getp args ''state'')) (\<lambda>state.
     tryIn R (applyStateTransition current state (dflt (getp args ''at'') (JStr now)) (dflt (getp args ''providerRef'') JNull)
                (dflt (getp args ''reasonCode'') JNull)) (\<lambda>next.
       (R\<lparr>operationsByKey := AList.update opKey next (operationsByKey R)\<rparr>, clone next)))))"

text \<open>The part of an event both adapters normalize: its type, time and id.\<close>

definition event_head :: "string \<Rightarrow> jsval \<Rightarrow> (op_state \<times> string \<times> string option) res" where
  "event_head now args =
     andThen (normalizeProviderEventType (getp args ''eventType'')) (\<lambda>eventType.
     andThen (normalizeIsoDate (dflt (getp args ''at'') (JStr now)) ''at'') (\<lambda>atArg.
       Inr (eventType, atArg, if nullish (getp args ''eventId'') then None else Some (trim (js_String (getp args ''eventId''))))))"

definition dedupe_key :: "op_state \<times> string \<times> string option \<Rightarrow> string" where
  "dedupe_key = (\<lambda>(eventType, atArg, eventId). state_name eventType @ CHR 0x0A # (case eventId of None \<Rightarrow> atArg | Some e \<Rightarrow> e))"

definition opt_str :: "string option \<Rightarrow> jsval" where
  "opt_str s = (case s of None \<Rightarrow> JNull | Some t \<Rightarrow> JStr t)"

definition event_props :: "string \<Rightarrow> string \<Rightarrow> string \<Rightarrow> op_state \<times> string \<times> string option \<Rightarrow> props \<Rightarrow> jsval \<Rightarrow> props" where
  "event_props providerId tenantId operationId = (\<lambda>(eventType, atArg, eventId) extra payload.
     [(''schemaVersion'', JStr ''MoneyRailProviderEvent.v1''), (''providerId'', JStr providerId), (''tenantId'', JStr tenantId),
      (''operationId'', JStr operationId), (''eventType'', JStr (state_name eventType)), (''eventId'', opt_str eventId)]
     @ extra @ [(''at'', JStr atArg), (''payload'', payload)])"

definition isInvalidTransition :: "js_error \<Rightarrow> bool" where
  "isInvalidTransition e = (case e of CodedError c m \<Rightarrow> c = ''MONEY_RAIL_INVALID_TRANSITION'' | _ \<Rightarrow> False)"

text \<open>The transition an event asks for: the next operation, and whether it counts as applied. The code catches an
  invalid transition and lets it pass when the operation already is in the state.\<close>

definition event_transition :: "jsval \<Rightarrow> op_state \<times> string \<times> string option \<Rightarrow> jsval \<Rightarrow> flagged res" where
  "event_transition current = (\<lambda>(nextState, atArg, eventId) args.
     case applyStateTransition current nextState (JStr atArg) (dflt (getp args ''providerRef'') JNull)
            (dflt (getp args ''reasonCode'') JNull) of
       Inr next \<Rightarrow> Inr (next, True)
     | Inl e \<Rightarrow>
         if \<not> isInvalidTransition e then Inl e
         else andThen (normalizeState (getp current ''state'')) (\<lambda>fromState.
           if fromState = nextState then Inr (current, False) else Inl e))"

type_synonym event_reply = "jsval \<times> bool \<times> jsval"

definition memory_applyEvent :: "string \<Rightarrow> rails \<Rightarrow> string \<times> string \<Rightarrow> string \<Rightarrow> jsval \<Rightarrow> op_state \<times> string \<times> string option \<Rightarrow> jsval
    \<Rightarrow> (rails, event_reply) call" where
  "memory_applyEvent providerId R = (\<lambda>(tenantId, operationId) eventStoreKey current head args.
     let opKey = operationStoreKey tenantId operationId in
     tryIn R (event_transition current head args) (\<lambda>(next, applied).
     let R' = (if applied then R\<lparr>operationsByKey := AList.update opKey next (operationsByKey R)\<rparr> else R) in
     tryIn R' (clone (dflt (getp args ''payload'') JNull)) (\<lambda>payload.
     let event = JObj (event_props providerId tenantId operationId head [] payload) in
     (R'\<lparr>providerEventsByKey := AList.update eventStoreKey (event, next) (providerEventsByKey R')\<rparr>,
      andThen (clone next) (\<lambda>o'. andThen (clone event) (\<lambda>e'. Inr (o', applied, e')))))))"

definition memory_ingestProviderEvent :: "string \<Rightarrow> string \<Rightarrow> rails \<Rightarrow> jsval \<Rightarrow> (rails, event_reply) call" where
  "memory_ingestProviderEvent providerId now R args =
     tryIn R (call_ids args) (\<lambda>(tenantId, operationId).
     let opKey = operationStoreKey tenantId operationId in
     tryIn R (memory_current R opKey) (\<lambda>current.
     tryIn R (event_head now args) (\<lambda>head.
     let eventStoreKey = opKey @ CHR 0x0A # dedupe_key head in
     case map_of (providerEventsByKey R) eventStoreKey of
       Some (event, operation) \<Rightarrow>
         (R, andThen (clone operation) (\<lambda>o'. andThen (clone event) (\<lambda>e'. Inr (o', False, e'))))
     | None \<Rightarrow> memory_applyEvent providerId R (tenantId, operationId) eventStoreKey current head args)))"

section \<open>The store-backed adapter\<close>

text \<open>The functions of the store that the adapter calls, each with one argument object. A put returns the store after
  it and the reply.\<close>

record 's rail_store =
  getMoneyRailOperation :: "'s \<Rightarrow> jsval \<Rightarrow> jsval res"
  findMoneyRailOperationByIdempotency :: "'s \<Rightarrow> jsval \<Rightarrow> jsval res"
  listMoneyRailOperations :: "'s \<Rightarrow> jsval \<Rightarrow> jsval list res"
  putMoneyRailOperation :: "'s \<Rightarrow> jsval \<Rightarrow> ('s, jsval) call"
  getMoneyRailProviderEvent :: "'s \<Rightarrow> jsval \<Rightarrow> jsval res"
  putMoneyRailProviderEvent :: "'s \<Rightarrow> jsval \<Rightarrow> ('s, jsval) call"

definition loadOperation :: "'s rail_store \<Rightarrow> string \<Rightarrow> 's \<Rightarrow> string \<Rightarrow> string \<Rightarrow> jsval option res" where
  "loadOperation store providerId s tenantId operationId =
     andThen (getMoneyRailOperation store s
       (JObj [(''tenantId'', JStr tenantId), (''providerId'', JStr providerId), (''operationId'', JStr operationId)])) (\<lambda>loaded.
     if isObjectLike loaded then mapR Some (clone loaded) else Inr None)"

text \<open>\<^verbatim>\<open>existing.requestHash ?? deriveRequestHashFromOperation(existing)\<close>, and whether it contradicts the request.\<close>

definition other_request :: "jsval \<Rightarrow> string \<Rightarrow> bool" where
  "other_request existing requestHash =
     (let existingHash = orElse (getp existing ''requestHash'') (opt_str (deriveRequestHashFromOperation existing))
      in truthy existingHash \<and> existingHash \<noteq> JStr requestHash)"

definition put_args :: "string \<Rightarrow> string \<Rightarrow> jsval \<Rightarrow> jsval \<Rightarrow> jsval" where
  "put_args tenantId providerId operation requestHash =
     JObj [(''tenantId'', JStr tenantId), (''providerId'', JStr providerId), (''operation'', operation), (''requestHash'', requestHash)]"

text \<open>\<^verbatim>\<open>persisted?.operation && typeof persisted.operation === "object" ? persisted.operation : operation\<close>\<close>

definition saved_operation :: "jsval \<Rightarrow> jsval \<Rightarrow> jsval" where
  "saved_operation persisted operation =
     (if is_object (getp persisted ''operation'') then getp persisted ''operation'' else operation)"

text \<open>A creation first looks for the operation; the reply of a replay, or the operation to put and its hash.\<close>

definition backed_lookup :: "'s rail_store \<Rightarrow> string \<Rightarrow> 's \<Rightarrow> rail_input \<Rightarrow> string \<Rightarrow> flagged option res" where
  "backed_lookup store providerId s normalized requestHash =
     andThen (findMoneyRailOperationByIdempotency store s
       (JObj [(''tenantId'', JStr (ri_tenantId normalized)), (''providerId'', JStr providerId),
              (''direction'', JStr (ri_direction normalized)), (''idempotencyKey'', JStr (ri_idempotencyKey normalized))])) (\<lambda>byKey.
     if truthy byKey
     then andThen (throwIf (other_request byKey requestHash)
            (createConflictError ''MONEY_RAIL_IDEMPOTENCY_CONFLICT'' ''idempotency key was already used with a different request'')) (\<lambda>_.
          mapR (\<lambda>v. Some (v, True)) (stripInternalOperationFields byKey))
     else andThen (loadOperation store providerId s (ri_tenantId normalized) (ri_operationId normalized)) (\<lambda>byId.
       case byId of
         None \<Rightarrow> Inr None
       | Some existing \<Rightarrow>
           andThen (throwIf (other_request existing requestHash)
             (createConflictError ''MONEY_RAIL_OPERATION_CONFLICT'' ''operationId already exists with a different request'')) (\<lambda>_.
           mapR (\<lambda>v. Some (v, True)) (stripInternalOperationFields existing))))"

definition backed_store_new :: "'s rail_store \<Rightarrow> string \<Rightarrow> 's \<Rightarrow> rail_input \<Rightarrow> string \<Rightarrow> ('s, flagged) call" where
  "backed_store_new store providerId s normalized requestHash =
     (let operation = JObj (buildOperationRecord providerId normalized @ [(''requestHash'', JStr requestHash)]) in
      thenIn (putMoneyRailOperation store s (put_args (ri_tenantId normalized) providerId operation (JStr requestHash))) (\<lambda>s' persisted.
        (s', mapR (withFlag (getp persisted ''created'' = JBool False))
               (stripInternalOperationFields (saved_operation persisted operation)))))"

definition backed_create :: "'s rail_store \<Rightarrow> string \<Rightarrow> string \<Rightarrow> 's \<Rightarrow> jsval \<Rightarrow> ('s, flagged) call" where
  "backed_create store providerId now s input =
     tryIn s (normalizeCreateInput now input) (\<lambda>normalized.
     tryIn s (buildOperationRequestHash (JObj (js_of_input normalized))) (\<lambda>requestHash.
     tryIn s (backed_lookup store providerId s normalized requestHash) (\<lambda>found.
     case found of
       Some reply \<Rightarrow> (s, Inr reply)
     | None \<Rightarrow> backed_store_new store providerId s normalized requestHash)))"

definition backed_status :: "'s rail_store \<Rightarrow> string \<Rightarrow> 's \<Rightarrow> jsval \<Rightarrow> jsval res" where
  "backed_status store providerId s args =
     andThen (call_ids args) (\<lambda>(tenantId, operationId).
     andThen (loadOperation store providerId s tenantId operationId) (\<lambda>op.
     case op of None \<Rightarrow> Inr JNull | Some operation \<Rightarrow> stripInternalOperationFields operation))"

definition backed_listOperations :: "(jsval list \<Rightarrow> jsval list) \<Rightarrow> 's rail_store \<Rightarrow> string \<Rightarrow> 's \<Rightarrow> jsval \<Rightarrow> jsval list res" where
  "backed_listOperations lsort store providerId s args =
     andThen (assertNonEmptyString (getp args ''tenantId'') ''tenantId'') (\<lambda>tenantId.
     andThen (listMoneyRailOperations store s (JObj [(''tenantId'', JStr (trim tenantId)), (''providerId'', JStr providerId)])) (\<lambda>rows.
     mapRes stripInternalOperationFields (lsort rows)))"

definition backed_current :: "'s rail_store \<Rightarrow> string \<Rightarrow> 's \<Rightarrow> string \<Rightarrow> string \<Rightarrow> jsval res" where
  "backed_current store providerId s tenantId operationId =
     andThen (loadOperation store providerId s tenantId operationId) (\<lambda>op.
     case op of None \<Rightarrow> Inl not_found | Some current \<Rightarrow> Inr current)"

text \<open>Putting the next version of an operation.\<close>

definition backed_save :: "'s rail_store \<Rightarrow> string \<Rightarrow> 's \<Rightarrow> string \<Rightarrow> jsval \<Rightarrow> jsval \<Rightarrow> ('s, jsval) call" where
  "backed_save store providerId s tenantId current next =
     thenIn (putMoneyRailOperation store s (put_args tenantId providerId next (orElse (getp current ''requestHash'') JNull)))
       (\<lambda>s' persisted. (s', Inr (saved_operation persisted next)))"

definition backed_cancel :: "'s rail_store \<Rightarrow> string \<Rightarrow> string \<Rightarrow> 's \<Rightarrow> jsval \<Rightarrow> ('s, flagged) call" where
  "backed_cancel store providerId now s args =
     tryIn s (call_ids args) (\<lambda>(tenantId, operationId).
     tryIn s (backed_current store providerId s tenantId operationId) (\<lambda>current.
     if cancel_settled current then (s, mapR (withFlag False) (stripInternalOperationFields current))
     else tryIn s (applyStateTransition current Cancelled (dflt (getp args ''at'') (JStr now)) JNull
                     (dflt (getp args ''reasonCode'') (JStr ''cancelled_by_caller''))) (\<lambda>next.
       thenIn (backed_save store providerId s tenantId current next) (\<lambda>s' operation.
         (s', mapR (withFlag True) (stripInternalOperationFields operation))))))"

definition backed_transition :: "'s rail_store \<Rightarrow> string \<Rightarrow> string \<Rightarrow> 's \<Rightarrow> jsval \<Rightarrow> ('s, jsval) call" where
  "backed_transition store providerId now s args =
     tryIn s (call_ids args) (\<lambda>(tenantId, operationId).
     tryIn s (backed_current store providerId s tenantId operationId) (\<lambda>current.
     tryIn s (normalizeState (getp args ''state'')) (\<lambda>state.
     tryIn s (applyStateTransition current state (dflt (getp args ''at'') (JStr now)) (dflt (getp args ''providerRef'') JNull)
                (dflt (getp args ''reasonCode'') JNull)) (\<lambda>next.
       thenIn (backed_save store providerId s tenantId current next) (\<lambda>s' operation.
         (s', stripInternalOperationFields operation))))))"

text \<open>\<^verbatim>\<open>stripInternalOperationFields(currentOperation ?? operation)\<close> with the operation as it now is in the store.\<close>

definition backed_reload :: "'s rail_store \<Rightarrow> string \<Rightarrow> 's \<Rightarrow> string \<Rightarrow> string \<Rightarrow> jsval \<Rightarrow> jsval res" where
  "backed_reload store providerId s tenantId operationId operation =
     andThen (loadOperation store providerId s tenantId operationId) (\<lambda>now_stored.
       stripInternalOperationFields (case now_stored of None \<Rightarrow> operation | Some c \<Rightarrow> c))"

definition backed_ingestProviderEvent :: "'s rail_store \<Rightarrow> string \<Rightarrow> string \<Rightarrow> 's \<Rightarrow> jsval \<Rightarrow> ('s, event_reply) call" where
  "backed_ingestProviderEvent store providerId now s args =
     tryIn s (call_ids args) (\<lambda>(tenantId, operationId).
     tryIn s (backed_current store providerId s tenantId operationId) (\<lambda>current.
     tryIn s (event_head now args) (\<lambda>head.
     let eventDedupeKey = dedupe_key head in
     tryIn s (getMoneyRailProviderEvent store s
       (JObj [(''tenantId'', JStr tenantId), (''providerId'', JStr providerId), (''operationId'', JStr operationId),
              (''eventType'', JStr (state_name (fst head))), (''eventDedupeKey'', JStr eventDedupeKey)])) (\<lambda>existingEvent.
     if truthy existingEvent
     then (s, andThen (backed_reload store providerId s tenantId operationId current) (\<lambda>o'.
              andThen (clone existingEvent) (\<lambda>e'. Inr (o', False, e'))))
     else tryIn s (event_transition current head args) (\<lambda>(next, applied).
       thenIn (if applied then backed_save store providerId s tenantId current next else (s, Inr next)) (\<lambda>s1 next.
       tryIn s1 (clone (dflt (getp args ''payload'') JNull)) (\<lambda>payload.
       let event = JObj (event_props providerId tenantId operationId head [(''eventDedupeKey'', JStr eventDedupeKey)] payload) in
       thenIn (putMoneyRailProviderEvent store s1
         (JObj [(''tenantId'', JStr tenantId), (''providerId'', JStr providerId), (''operationId'', JStr operationId), (''event'', event)])) (\<lambda>s2 persisted.
       let saved = orElse (getp persisted ''event'') event in
       if getp persisted ''created'' = JBool False
       then (s2, andThen (backed_reload store providerId s2 tenantId operationId next) (\<lambda>o'.
                 andThen (clone saved) (\<lambda>e'. Inr (o', False, e'))))
       else (s2, andThen (stripInternalOperationFields next) (\<lambda>o'. andThen (clone saved) (\<lambda>e'. Inr (o', applied, e'))))))))))))"

section \<open>The registry\<close>

text \<open>An adapter is the object of its functions; the registry keeps adapters by provider id.\<close>

definition assertMoneyRailAdapter :: "jsval \<Rightarrow> string \<Rightarrow> unit res" where
  "assertMoneyRailAdapter adapter name =
     (let isFun = (\<lambda>k. case getp adapter k of JFun _ \<Rightarrow> True | _ \<Rightarrow> False) in
      checks [throwIf (\<not> is_object adapter) (TypeError (name @ '' must be an object'')),
              throwIf (\<not> isFun ''create'') (TypeError (name @ ''.create must be a function'')),
              throwIf (\<not> isFun ''status'') (TypeError (name @ ''.status must be a function'')),
              throwIf (\<not> isFun ''cancel'') (TypeError (name @ ''.cancel must be a function'')),
              throwIf (hasOwn adapter ''listOperations'' \<and> \<not> isFun ''listOperations'')
                (TypeError (name @ ''.listOperations must be a function when provided'')),
              throwIf (hasOwn adapter ''ingestProviderEvent'' \<and> \<not> isFun ''ingestProviderEvent'')
                (TypeError (name @ ''.ingestProviderEvent must be a function when provided''))] (Inr ()))"

definition registerAdapter :: "(string \<times> jsval) list \<Rightarrow> jsval \<Rightarrow> (string \<times> jsval) list res" where
  "registerAdapter byProviderId adapter =
     andThen (assertMoneyRailAdapter adapter ''adapter'') (\<lambda>_.
     let providerId = text_of (getp adapter ''providerId'') in
     checks [throwIf (providerId = []) (TypeError ''adapter.providerId must be a non-empty string''),
             throwIf (map_of byProviderId providerId \<noteq> None) (TypeError (''adapter already registered: '' @ providerId))]
       (Inr (AList.update providerId adapter byProviderId)))"

definition getAdapter :: "(string \<times> jsval) list \<Rightarrow> jsval \<Rightarrow> jsval res" where
  "getAdapter byProviderId providerId =
     andThen (assertNonEmptyString providerId ''providerId'') (\<lambda>s.
       Inr (case map_of byProviderId (trim s) of None \<Rightarrow> JNull | Some a \<Rightarrow> a))"

definition listAdapters :: "(string \<times> jsval) list \<Rightarrow> string list" where
  "listAdapters byProviderId = sort (map fst byProviderId)"

definition createMoneyRailAdapterRegistry :: "jsval \<Rightarrow> (string \<times> jsval) list res" where
  "createMoneyRailAdapterRegistry adapters =
     (case dflt adapters (JArr []) of JArr xs \<Rightarrow> foldRes registerAdapter [] xs
      | _ \<Rightarrow> Inl (TypeError ''adapters must be an array''))"

section \<open>Operation documents\<close>

definition OP_KEYS :: "string list" where
  "OP_KEYS = map fst (buildOperationRecord [] undefined)"

text \<open>The fields a transition sets; all others are fixed when the operation is created.\<close>

definition VOLATILE_KEYS :: "string list" where
  "VOLATILE_KEYS = [''state'', ''updatedAt'', ''providerRef'', ''reasonCode'', ''submittedAt'', ''confirmedAt'', ''failedAt'',
     ''cancelledAt'', ''reversedAt'']"

definition has_state :: "jsval \<Rightarrow> op_state \<Rightarrow> bool" where
  "has_state op st \<longleftrightarrow> getp op ''state'' = JStr (state_name st)"

definition op_doc :: "jsval \<Rightarrow> bool" where
  "op_doc op \<longleftrightarrow> (\<exists>ps. op = JObj ps \<and> map fst ps = OP_KEYS \<and> list_all (\<lambda>p. json_value (snd p)) ps) \<and> (\<exists>st. has_state op st)"

definition state_step :: "op_state \<Rightarrow> op_state \<Rightarrow> bool" where
  "state_step a b \<longleftrightarrow> b \<in> set (ALLOWED_STATE_TRANSITIONS a)"

text \<open>What may become of an operation: it stays as it is, or it moves forward and keeps its fixed fields.\<close>

definition progress :: "jsval \<Rightarrow> jsval \<Rightarrow> bool" where
  "progress op op' \<longleftrightarrow> op' = op \<or>
     (\<forall>k. k \<notin> set VOLATILE_KEYS \<longrightarrow> getp op' k = getp op k) \<and> (\<exists>a b. has_state op a \<and> has_state op' b \<and> state_step\<^sup>+\<^sup>+ a b)"

lemma OP_KEYS_simp: "OP_KEYS = [''schemaVersion'', ''providerId'', ''operationId'', ''tenantId'', ''direction'', ''idempotencyKey'',
   ''amountCents'', ''currency'', ''counterpartyRef'', ''metadata'', ''state'', ''providerRef'', ''reasonCode'', ''initiatedAt'',
   ''submittedAt'', ''confirmedAt'', ''failedAt'', ''cancelledAt'', ''reversedAt'', ''createdAt'', ''updatedAt'']"
  by (simp add: OP_KEYS_def buildOperationRecord_def)

lemma OP_KEYS_distinct: "distinct OP_KEYS" by (simp add: OP_KEYS_simp)

lemma state_name_inj [simp]: "state_name a = state_name b \<longleftrightarrow> a = b"
  by (cases a; cases b) auto

lemma has_state_unique: "has_state op a \<Longrightarrow> has_state op b \<Longrightarrow> a = b"
  by (simp add: has_state_def)

lemma trim_state [simp]: "text_of (JStr (state_name st)) = state_name st"
  by (induct st; code_simp)

lemma lower_state [simp]: "toLowerCase (state_name st) = state_name st"
  by (induct st; code_simp)

lemma state_named_name [simp]: "state_named MONEY_RAIL_OPERATION_STATE (state_name st) = Some st"
  by (cases st) (simp_all add: state_named_def MONEY_RAIL_OPERATION_STATE_def)

lemma normalizeState_name [simp]: "normalizeState (JStr (state_name st)) = Inr st"
  by (simp add: normalizeState_def)

lemma progress_refl [simp]: "progress op op"
  by (simp add: progress_def)

lemma progress_trans: "progress a b \<Longrightarrow> progress b c \<Longrightarrow> progress a c"
  by (auto simp: progress_def) (metis has_state_unique tranclp_trans)

lemma op_doc_clone: "op_doc op \<Longrightarrow> clone op = Inr op"
  by (auto simp: op_doc_def intro: clone_value)

lemma getp_spread_notin: "k \<notin> fst ` set qs \<Longrightarrow> getp (JObj (spread ps qs)) k = getp (JObj ps) k"
  by (rule getp_spread_other)

lemma transition_keys: "fst ` set (transition_props op st t pr rc) \<subseteq> set VOLATILE_KEYS"
  by (cases st) (auto simp: transition_props_def VOLATILE_KEYS_def)

lemma volatile_keys: "set VOLATILE_KEYS \<subseteq> set OP_KEYS"
  by (simp add: VOLATILE_KEYS_def OP_KEYS_simp)

lemma json_value_orElse: "op_doc op \<Longrightarrow> json_value (orElse (getp op k) JNull)"
proof -
  assume "op_doc op"
  then obtain ps where op: "op = JObj ps" and v: "list_all (\<lambda>p. json_value (snd p)) ps" by (auto simp: op_doc_def)
  show ?thesis
  proof (cases "map_of ps k")
    case (Some x)
    then have "json_value x" using v by (auto dest!: map_of_SomeD simp: list_all_iff)
    with Some show ?thesis by (simp add: op getp.simps(1) orElse_def)
  qed (simp add: op getp.simps(1) orElse_def nullish_def)
qed

lemma applyStateTransition_doc:
  assumes "op_doc op" and "applyStateTransition op st t pr rc = Inr op'"
  shows "op_doc op' \<and> progress op op' \<and> has_state op' st"
proof -
  from assms(1) obtain ps a where op: "op = JObj ps" and k: "map fst ps = OP_KEYS" and v: "list_all (\<lambda>p. json_value (snd p)) ps"
    and a: "has_state op a" by (auto simp: op_doc_def)
  have n: "normalizeState (getp op ''state'') = Inr a" using a by (simp add: has_state_def)
  show ?thesis
  proof (cases "a = st")
    case True
    then have "op' = op" using assms(2) op_doc_clone[OF assms(1)] n
      by (auto simp: applyStateTransition_def andThen_Inr_iff assertStateTransitionAllowed_def)
    then show ?thesis using assms(1) a True by simp
  next
    case False
    let ?tp = "\<lambda>ts. transition_props op st ts pr rc"
    from False assms(2) n obtain ts where step: "state_step a st" and op': "op' = JObj (spread ps (?tp ts))"
      by (auto simp: applyStateTransition_def andThen_Inr_iff assertStateTransitionAllowed_def state_step_def op own_props_def split: if_splits)
    have sub: "fst ` set (?tp ts) \<subseteq> fst ` set ps" using transition_keys volatile_keys k by (metis list.set_map order_trans)
    have val: "list_all (\<lambda>p. json_value (snd p)) (?tp ts)"
      using json_value_orElse[OF assms(1)] by (cases st) (auto simp: transition_props_def)
    have st: "has_state op' st" unfolding op' has_state_def by (cases st) (simp_all add: transition_props_def)
    moreover have "op_doc op'" using spread_same_keys[OF sub] spread_values[OF v val] st k by (auto simp: op_doc_def op')
    moreover have "getp op' key = getp op key" if "key \<notin> set VOLATILE_KEYS" for key
      using that transition_keys[of op st ts pr rc] unfolding op' op by (intro getp_spread_notin) blast
    ultimately show ?thesis using a step by (auto simp: progress_def)
  qed
qed


section \<open>Runs\<close>

datatype rail_call = Create jsval | Cancel jsval | Transition jsval | Ingest jsval

text \<open>The state after a call, returned or thrown, at a given time.\<close>

fun rail_after :: "string \<Rightarrow> rails \<Rightarrow> string \<times> rail_call \<Rightarrow> rails" where
  "rail_after providerId R (now, Create input) = fst (memory_create providerId now R input)"
| "rail_after providerId R (now, Cancel args) = fst (memory_cancel now R args)"
| "rail_after providerId R (now, Transition args) = fst (memory_transition now R args)"
| "rail_after providerId R (now, Ingest args) = fst (memory_ingestProviderEvent providerId now R args)"

definition rails_run :: "string \<Rightarrow> rails \<Rightarrow> (string \<times> rail_call) list \<Rightarrow> rails" where
  "rails_run providerId = foldl (rail_after providerId)"

definition empty_rails :: rails where
  "empty_rails = \<lparr>operationsByKey = [], idempotencyByKey = [], providerEventsByKey = []\<rparr>"

text \<open>Every stored operation is a document, and the idempotency index points to operations with the request it records.\<close>

definition rails_ok :: "rails \<Rightarrow> bool" where
  "rails_ok R \<longleftrightarrow> (\<forall>k op. map_of (operationsByKey R) k = Some op \<longrightarrow> op_doc op)
     \<and> (\<forall>ik h k. map_of (idempotencyByKey R) ik = Some (h, k) \<longrightarrow>
          (\<exists>op. map_of (operationsByKey R) k = Some op \<and> buildOperationRequestHash op = Inr h))"

text \<open>A later state: operations have progressed, index entries are unchanged.\<close>

definition later :: "rails \<Rightarrow> rails \<Rightarrow> bool" where
  "later R R' \<longleftrightarrow> (\<forall>k op. map_of (operationsByKey R) k = Some op \<longrightarrow> (\<exists>op'. map_of (operationsByKey R') k = Some op' \<and> progress op op'))
     \<and> (\<forall>ik x. map_of (idempotencyByKey R) ik = Some x \<longrightarrow> map_of (idempotencyByKey R') ik = Some x)"

lemma later_refl [simp]: "later R R"
  by (simp add: later_def)

lemma later_trans: "later R S \<Longrightarrow> later S T \<Longrightarrow> later R T"
  unfolding later_def by (meson progress_trans)

lemma hash_cong:
  "(\<And>k. k \<notin> set VOLATILE_KEYS \<Longrightarrow> getp op' k = getp op k) \<Longrightarrow> buildOperationRequestHash op' = buildOperationRequestHash op"
  by (simp add: buildOperationRequestHash_def REQUEST_KEYS_def VOLATILE_KEYS_def)

lemma progress_hash: "progress op op' \<Longrightarrow> buildOperationRequestHash op' = buildOperationRequestHash op"
  by (auto simp: progress_def intro: hash_cong)

lemma rails_okD:
  "rails_ok R \<Longrightarrow> map_of (operationsByKey R) k = Some op \<Longrightarrow> op_doc op"
  "rails_ok R \<Longrightarrow> map_of (idempotencyByKey R) ik = Some (h, k) \<Longrightarrow>
     \<exists>op. map_of (operationsByKey R) k = Some op \<and> buildOperationRequestHash op = Inr h"
  unfolding rails_ok_def by blast+

definition rails_next :: "rails \<Rightarrow> rails \<Rightarrow> bool" where
  "rails_next R S \<longleftrightarrow> rails_ok S \<and> later R S"

text \<open>Replacing an operation by one it may become.\<close>

lemma rails_update:
  assumes "rails_ok R" "map_of (operationsByKey R) k = Some op" "op_doc op'" "progress op op'"
  defines "R' \<equiv> R\<lparr>operationsByKey := AList.update k op' (operationsByKey R)\<rparr>"
  shows "rails_ok R' \<and> later R R'"
proof -
  have h: "buildOperationRequestHash op' = buildOperationRequestHash op" using assms(4) by (rule progress_hash)
  have "rails_ok R'" unfolding rails_ok_def
  proof (intro conjI allI impI)
    fix k' o' assume "map_of (operationsByKey R') k' = Some o'"
    then show "op_doc o'" using assms(1,3) by (auto simp: R'_def update_conv' dest: rails_okD split: if_splits)
  next
    fix ik g k' assume "map_of (idempotencyByKey R') ik = Some (g, k')"
    then have "\<exists>o'. map_of (operationsByKey R) k' = Some o' \<and> buildOperationRequestHash o' = Inr g"
      using rails_okD(2)[OF assms(1)] by (simp add: R'_def)
    then show "\<exists>o'. map_of (operationsByKey R') k' = Some o' \<and> buildOperationRequestHash o' = Inr g"
      using assms(2) h by (cases "k' = k") (auto simp: R'_def update_conv')
  qed
  moreover have "later R R'" using assms(2,4) by (auto simp: later_def R'_def update_conv')
  ultimately show ?thesis ..
qed

lemma rails_events [simp]: "rails_ok (R\<lparr>providerEventsByKey := E\<rparr>) = rails_ok R" "later R (S\<lparr>providerEventsByKey := E\<rparr>) = later R S"
  by (simp_all add: rails_ok_def later_def)

section \<open>Requests\<close>

lemma normalize_value_ok: "json_value v \<Longrightarrow> \<exists>w. normalizeForCanonicalJson v path a = Inr w"
proof (induction v path a rule: normalizeForCanonicalJson.induct)
  case (9 xs path a)
  have "\<exists>ys. list_all2 (\<lambda>p y. normalizeForCanonicalJson (snd p) (path @ ''['' @ show_int (int (fst p)) @ '']'') True = Inr y) (enumerate 0 xs) ys"
    using 9 by (intro list_all2_ex_right) (metis enumerate_snd_mem json_value.simps(5) list_all_iff)
  then show ?case by (auto simp: normalizeForCanonicalJson.simps(9) andThen_Inr_iff mapRes_Inr_iff)
next
  case (10 ps path a)
  have "\<exists>ys. list_all2 (\<lambda>p y. andThen (normalizeForCanonicalJson (snd p) (path @ ''.'' @ fst p) False) (\<lambda>w. Inr (fst p, w)) = Inr y) ps ys"
    using 10 by (intro list_all2_ex_right) (auto simp: list_all_iff andThen_Inr_iff)
  then show ?case by (auto simp: normalizeForCanonicalJson.simps(10) andThen_Inr_iff mapRes_Inr_iff)
qed auto

lemma canonicalize_value: "json_value v \<Longrightarrow> \<exists>c. canonicalize v = Inr c"
proof (induction v rule: canonicalize.induct)
  case (8 xs)
  then have "\<exists>ys. list_all2 (\<lambda>x y. canonicalize x = Inr y) xs ys" by (intro list_all2_ex_right) (auto simp: list_all_iff)
  then show ?case by (auto simp: andThen_Inr_iff mapRes_Inr_iff)
next
  case (10 ps)
  then have "\<exists>ys. list_all2 (\<lambda>p y. andThen (canonicalize (snd p)) (\<lambda>w. Inr (fst p, w)) = Inr y) (sorted_props ps) ys"
    by (intro list_all2_ex_right) (auto simp: list_all_iff andThen_Inr_iff)
  then show ?case by (auto simp: andThen_Inr_iff mapRes_Inr_iff)
qed auto

lemma normalize_defined: "isObjectLike v \<Longrightarrow> normalizeForCanonicalJson v path a = Inr w \<Longrightarrow> json_value w"
  using normalize_json_value[of v path a w]
  by (cases v) (auto simp: isObjectLike_def andThen_Inr_iff build_obj_def normalizeForCanonicalJson.simps(10))

lemma normalizeRequestMetadata_value: "normalizeRequestMetadata v = Inr w \<Longrightarrow> json_value w"
  by (auto simp: normalizeRequestMetadata_def res_simps assertPlainObject_def intro: normalize_defined split: if_splits)

lemma input_metadata: "normalizeCreateInput now input = Inr n \<Longrightarrow> json_value (ri_metadata n)"
  by (auto simp: normalizeCreateInput_def Let_def res_simps intro: normalizeRequestMetadata_value)

lemma hash_ok:
  assumes "\<And>k. k \<in> set REQUEST_KEYS \<Longrightarrow> json_value (getp op k)" and "json_value (orElse (getp op ''metadata'') JNull)"
  shows "\<exists>h. buildOperationRequestHash op = Inr h"
proof -
  let ?d = "JObj (map (\<lambda>k. (k, getp op k)) REQUEST_KEYS @ [(''metadata'', orElse (getp op ''metadata'') JNull)])"
  have "json_value ?d" using assms by (auto simp: list_all_iff)
  then obtain w where w: "normalizeForCanonicalJson ?d ''$'' False = Inr w" using normalize_value_ok by blast
  then have "json_value w" by (rule normalize_defined[rotated]) (simp add: isObjectLike_def)
  then obtain c where "canonicalize w = Inr c" using canonicalize_value by blast
  then show ?thesis unfolding buildOperationRequestHash_def w by (simp add: canonicalJsonStringify_def)
qed

lemma input_hash:
  assumes "normalizeCreateInput now input = Inr n"
  shows "\<exists>h. buildOperationRequestHash (JObj (js_of_input n)) = Inr h"
  using input_metadata[OF assms] by (intro hash_ok) (auto simp: REQUEST_KEYS_def js_of_input_def orElse_def)

lemma record_hash: "buildOperationRequestHash (JObj (buildOperationRecord pid n)) = buildOperationRequestHash (JObj (js_of_input n))"
  by (simp add: buildOperationRequestHash_def REQUEST_KEYS_def js_of_input_def buildOperationRecord_def)

lemma record_doc: "json_value (ri_metadata n) \<Longrightarrow> op_doc (JObj (buildOperationRecord pid n))"
  unfolding op_doc_def by (auto simp: OP_KEYS_simp buildOperationRecord_def has_state_def intro!: exI[of _ Initiated])

section \<open>Steps of the in-memory adapter\<close>

lemma memory_create_step:
  assumes ok: "rails_ok R" and c: "memory_create pid now R input = (R', r)"
  shows "rails_ok R' \<and> later R R'"
proof (cases "normalizeCreateInput now input")
  case (Inl e)
  then show ?thesis using assms by (simp add: memory_create_def)
next
  case n: (Inr n)
  obtain h where h: "buildOperationRequestHash (JObj (js_of_input n)) = Inr h" using input_hash[OF n] by blast
  let ?ok = "operationStoreKey (ri_tenantId n) (ri_operationId n)"
  let ?ik = "idempotencyStoreKey (ri_tenantId n) (ri_direction n) (ri_idempotencyKey n)"
  let ?op = "JObj (buildOperationRecord pid n)"
  have new: "op_doc ?op" "buildOperationRequestHash ?op = Inr h" using record_doc[OF input_metadata[OF n]] record_hash h by simp_all
  show ?thesis
  proof (cases "map_of (idempotencyByKey R) ?ik")
    case (Some x)
    then show ?thesis using ok c n h by (auto simp: memory_create_def Let_def split: prod.splits)
  next
    case idem: None
    show ?thesis
    proof (cases "map_of (operationsByKey R) ?ok")
      case None
      then have R': "R' = R\<lparr>operationsByKey := AList.update ?ok ?op (operationsByKey R), idempotencyByKey := AList.update ?ik (h, ?ok) (idempotencyByKey R)\<rparr>"
        using c n h idem by (simp add: memory_create_def Let_def)
      have "rails_ok R'" unfolding rails_ok_def
      proof (intro conjI allI impI)
        fix k op assume "map_of (operationsByKey R') k = Some op"
        then show "op_doc op" using new ok by (auto simp: R' update_conv' dest: rails_okD split: if_splits)
      next
        fix ik g k assume "map_of (idempotencyByKey R') ik = Some (g, k)"
        then show "\<exists>op. map_of (operationsByKey R') k = Some op \<and> buildOperationRequestHash op = Inr g"
          using new rails_okD(2)[OF ok, of ik g k] None by (auto simp: R' update_conv' split: if_splits)
      qed
      moreover have "later R R'" using None idem by (auto simp: later_def R' update_conv')
      ultimately show ?thesis ..
    next
      case (Some op)
      have "rails_ok R' \<and> later R R'" if "R' = R\<lparr>idempotencyByKey := AList.update ?ik (h, ?ok) (idempotencyByKey R)\<rparr>"
        "buildOperationRequestHash op = Inr h"
        using that ok Some idem unfolding rails_ok_def later_def by (simp add: update_conv')
      moreover have "R' = R \<or> R' = R\<lparr>idempotencyByKey := AList.update ?ik (h, ?ok) (idempotencyByKey R)\<rparr> \<and> buildOperationRequestHash op = Inr h"
        using c n h idem Some by (auto simp: memory_create_def Let_def tryIn_def split: sum.splits if_splits)
      ultimately show ?thesis using ok by auto
    qed
  qed
qed

lemma transition_step:
  assumes "rails_ok R" "memory_current R k = Inr current" "applyStateTransition current st t pr rc = Inr next"
  shows "rails_ok (R\<lparr>operationsByKey := AList.update k next (operationsByKey R)\<rparr>) \<and> later R (R\<lparr>operationsByKey := AList.update k next (operationsByKey R)\<rparr>)"
proof -
  have m: "map_of (operationsByKey R) k = Some current" using assms(2) by (simp add: memory_current_def split: option.splits)
  from applyStateTransition_doc[OF rails_okD(1)[OF assms(1) m] assms(3)] show ?thesis
    using rails_update[OF assms(1) m] by blast
qed

lemma memory_cancel_step: "rails_ok R \<Longrightarrow> memory_cancel now R args = (R', r) \<Longrightarrow> rails_ok R' \<and> later R R'"
  using transition_step by (fastforce simp: memory_cancel_def Let_def tryIn_def split: sum.splits if_splits prod.splits)

lemma memory_transition_step: "rails_ok R \<Longrightarrow> memory_transition now R args = (R', r) \<Longrightarrow> rails_ok R' \<and> later R R'"
  using transition_step by (fastforce simp: memory_transition_def Let_def tryIn_def split: sum.splits if_splits prod.splits)

lemma event_transition_cases:
  assumes "event_transition current head args = Inr (next, applied)"
  shows "applied \<and> (\<exists>pr rc. applyStateTransition current (fst head) (JStr (fst (snd head))) pr rc = Inr next) \<or> \<not> applied \<and> next = current"
  using assms by (auto simp: event_transition_def andThen_Inr_iff split: sum.splits if_splits prod.splits)

lemma event_step:
  assumes "rails_ok R" "memory_current R k = Inr current" "event_transition current head args = Inr (next, applied)"
  shows "rails_next R (if applied then R\<lparr>operationsByKey := AList.update k next (operationsByKey R)\<rparr> else R)"
  using event_transition_cases[OF assms(3)] transition_step[OF assms(1,2)] assms(1) by (auto simp: rails_next_def)

lemma rails_next_events [simp]: "rails_next R (S\<lparr>providerEventsByKey := E\<rparr>) = rails_next R S"
  by (simp add: rails_next_def)

lemma memory_applyEvent_step:
  assumes "rails_ok R" "memory_current R (operationStoreKey t i) = Inr current"
  shows "rails_next R (fst (memory_applyEvent pid R (t, i) ek current head args))"
proof (cases "event_transition current head args")
  case (Inl e)
  then show ?thesis using assms(1) by (simp add: memory_applyEvent_def rails_next_def)
next
  case (Inr x)
  obtain nx applied where x: "x = (nx, applied)" by (cases x)
  from event_step[OF assms Inr[unfolded x]] show ?thesis
    by (cases applied) (simp_all add: memory_applyEvent_def Inr x Let_def fst_tryIn split: sum.split)
qed

lemma memory_ingest_step:
  assumes ok: "rails_ok R"
  shows "rails_next R (fst (memory_ingestProviderEvent pid now R args))"
proof -
  have "rails_next R R" using ok by (simp add: rails_next_def)
  then show ?thesis using memory_applyEvent_step[OF ok]
    by (simp add: memory_ingestProviderEvent_def Let_def fst_tryIn split: sum.split prod.split option.split)
qed

lemma rail_step: "rails_ok R \<Longrightarrow> rails_ok (rail_after pid R c) \<and> later R (rail_after pid R c)"
proof (cases c)
  case (Pair now call)
  assume ok: "rails_ok R"
  show ?thesis
  proof (cases call)
    case (Create x)
    then show ?thesis using memory_create_step[OF ok prod.collapse[symmetric]] by (simp add: Pair)
  next
    case (Cancel x)
    then show ?thesis using memory_cancel_step[OF ok prod.collapse[symmetric]] by (simp add: Pair)
  next
    case (Transition x)
    then show ?thesis using memory_transition_step[OF ok prod.collapse[symmetric]] by (simp add: Pair)
  next
    case (Ingest x)
    then show ?thesis using memory_ingest_step[OF ok] by (simp add: Pair rails_next_def)
  qed
qed

lemma rails_run_step: "rails_ok R \<Longrightarrow> rails_ok (rails_run pid R calls) \<and> later R (rails_run pid R calls)"
proof (induction calls arbitrary: R)
  case (Cons c calls)
  then show ?case using rail_step[of R pid c] later_trans unfolding rails_run_def by (metis foldl_Cons)
qed (simp add: rails_run_def)

lemma empty_rails_ok: "rails_ok empty_rails"
  by (simp add: rails_ok_def empty_rails_def)

section \<open>What the in-memory adapter promises\<close>

lemma state_step_final:
  "state_step\<^sup>+\<^sup>+ a b \<Longrightarrow> a \<noteq> Failed \<and> a \<noteq> Cancelled \<and> a \<noteq> Reversed \<and> (a = Confirmed \<longrightarrow> b = Reversed)"
  by (induction rule: tranclp_induct) (auto simp: state_step_def elim: ALLOWED_STATE_TRANSITIONS.elims)

lemma progress_final:
  assumes "progress op op'"
  shows "has_state op Failed \<or> has_state op Cancelled \<or> has_state op Reversed \<Longrightarrow> op' = op"
    and "has_state op Confirmed \<Longrightarrow> op' = op \<or> has_state op' Reversed"
  using assms state_step_final has_state_unique unfolding progress_def by blast+

text \<open>C11: An operation of the in-memory adapter never disappears, and its request never changes: after any further calls
  it is the same document, or it has moved forward in the transition table with all its other fields kept. A failed,
  cancelled or reversed operation stays exactly as it is, and a confirmed one can only be reversed.\<close>

theorem rail_operations_progress:
  assumes "map_of (operationsByKey (rails_run pid empty_rails past)) k = Some op"
  shows "\<exists>op'. map_of (operationsByKey (rails_run pid empty_rails (past @ calls))) k = Some op' \<and> progress op op'
    \<and> (has_state op Failed \<or> has_state op Cancelled \<or> has_state op Reversed \<longrightarrow> op' = op)
    \<and> (has_state op Confirmed \<longrightarrow> op' = op \<or> has_state op' Reversed)"
proof -
  let ?R = "rails_run pid empty_rails past"
  have "rails_ok ?R" using rails_run_step[OF empty_rails_ok] by blast
  then have "later ?R (rails_run pid ?R calls)" using rails_run_step by blast
  then obtain op' where "map_of (operationsByKey (rails_run pid ?R calls)) k = Some op'" "progress op op'"
    using assms unfolding later_def by blast
  then show ?thesis using progress_final by (auto simp: rails_run_def)
qed

definition sample_rail_input :: jsval where
  "sample_rail_input = JObj [(''tenantId'', JStr ''t''), (''operationId'', JStr ''op1''), (''counterpartyRef'', JStr ''bank:1''),
     (''direction'', JStr ''payout''), (''idempotencyKey'', JStr ''k1''), (''amountCents'', JInt 500),
     (''at'', JStr ''2026-01-01T00:00:00.000Z'')]"

definition sample_rail_op :: rail_input where
  "sample_rail_op = \<lparr>ri_tenantId = ''t'', ri_operationId = ''op1'', ri_direction = ''payout'', ri_idempotencyKey = ''k1'',
     ri_amountCents = 500, ri_currency = ''USD'', ri_counterpartyRef = ''bank:1'', ri_metadata = JNull,
     ri_at = ''2026-01-01T00:00:00.000Z''\<rparr>"

lemma sample_rail_normal: "normalizeCreateInput now sample_rail_input = Inr sample_rail_op"
proof -
  have "date_parse ''2026-01-01T00:00:00.000Z'' = Some 1767225600000" by code_simp
  moreover have "text_of (JStr ''t'') = ''t''" "text_of (JStr ''op1'') = ''op1''" "text_of (JStr ''bank:1'') = ''bank:1''"
    "text_of (JStr ''payout'') = ''payout''" "toLowerCase ''payout'' = ''payout''" "trim ''k1'' = ''k1''" "trim ''USD'' = ''USD''"
    "toUpperCase ''USD'' = ''USD''" "is_currency_code ''USD''" "trim ''2026-01-01T00:00:00.000Z'' = ''2026-01-01T00:00:00.000Z''"
    by (code_simp+)
  moreover have "safe_int (num_of_int 500) = Some 500" by code_simp
  ultimately show ?thesis
    by (simp add: normalizeCreateInput_def sample_rail_input_def sample_rail_op_def assertPlainObject_def isObjectLike_def
        normalizeDirection_def MONEY_RAIL_DIRECTION_def normalizeIdempotencyKey_def assertNonEmptyString_def assertNoNewlines_def
        normalizeAmountCents_def MoneyRails.normalizeCurrency_def normalizeRequestMetadata_def nullish_def normalizeIsoDate_def Let_def)
qed

lemma create_new:
  assumes "normalizeCreateInput now input = Inr n"
    and "map_of (idempotencyByKey R) (idempotencyStoreKey (ri_tenantId n) (ri_direction n) (ri_idempotencyKey n)) = None"
    and "map_of (operationsByKey R) (operationStoreKey (ri_tenantId n) (ri_operationId n)) = None"
  shows "\<exists>h. memory_create pid now R input =
    (R\<lparr>operationsByKey := AList.update (operationStoreKey (ri_tenantId n) (ri_operationId n)) (JObj (buildOperationRecord pid n)) (operationsByKey R),
       idempotencyByKey := AList.update (idempotencyStoreKey (ri_tenantId n) (ri_direction n) (ri_idempotencyKey n))
         (h, operationStoreKey (ri_tenantId n) (ri_operationId n)) (idempotencyByKey R)\<rparr>,
     Inr (JObj (buildOperationRecord pid n), False))"
  using assms input_hash[OF assms(1)] op_doc_clone[OF record_doc[OF input_metadata[OF assms(1)]]]
  by (auto simp: memory_create_def Let_def withFlag_def)

theorem rail_operations_progress_witness:
  "\<exists>op'. map_of (operationsByKey (rails_run ''stub'' empty_rails ([(''n'', Create sample_rail_input)] @ [(''n'', Cancel JNull)])))
      (operationStoreKey ''t'' ''op1'') = Some op' \<and> progress (JObj (buildOperationRecord ''stub'' sample_rail_op)) op'"
proof -
  have "map_of (operationsByKey (rails_run ''stub'' empty_rails [(''n'', Create sample_rail_input)])) (operationStoreKey ''t'' ''op1'')
    = Some (JObj (buildOperationRecord ''stub'' sample_rail_op))"
    using create_new[OF sample_rail_normal, of empty_rails "''stub''" "''n''"]
    by (auto simp: rails_run_def empty_rails_def sample_rail_op_def update_conv')
  from rail_operations_progress[OF this] show ?thesis by blast
qed

text \<open>C23: A creation happens once. After a request has been accepted, and after any further calls, a request with the
  same idempotency key changes nothing: if it asks for the same thing it gets the operation as it now is, marked as a replay;
  if not, it is refused.\<close>

theorem rail_create_once:
  assumes "memory_create pid now (rails_run pid empty_rails past) input = (R, Inr (op, replay))"
    and "normalizeCreateInput now input = Inr n" and "normalizeCreateInput now' input' = Inr n'"
    and "ri_tenantId n' = ri_tenantId n" "ri_direction n' = ri_direction n" "ri_idempotencyKey n' = ri_idempotencyKey n"
  shows "\<exists>current. progress op current \<and> memory_create pid now' (rails_run pid R calls) input' =
    (rails_run pid R calls,
     if buildOperationRequestHash (JObj (js_of_input n')) = buildOperationRequestHash (JObj (js_of_input n)) then Inr (current, True)
     else Inl (CodedError ''MONEY_RAIL_IDEMPOTENCY_CONFLICT'' ''idempotency key was already used with a different request''))"
proof -
  let ?R0 = "rails_run pid empty_rails past" and ?S = "rails_run pid R calls"
  let ?ik = "idempotencyStoreKey (ri_tenantId n) (ri_direction n) (ri_idempotencyKey n)"
  obtain h where h: "buildOperationRequestHash (JObj (js_of_input n)) = Inr h" using input_hash[OF assms(2)] by blast
  obtain h' where h': "buildOperationRequestHash (JObj (js_of_input n')) = Inr h'" using input_hash[OF assms(3)] by blast
  have ok0: "rails_ok ?R0" using rails_run_step[OF empty_rails_ok] by blast
  with assms(1) have ok: "rails_ok R" using memory_create_step by blast
  have entry: "\<exists>k. map_of (idempotencyByKey R) ?ik = Some (h, k) \<and> map_of (operationsByKey R) k = Some op"
  proof -
    have doc: "clone o' = Inr o'" if "map_of (operationsByKey ?R0) k = Some o'" for k o'
      using rails_okD(1)[OF ok0 that] by (rule op_doc_clone)
    have new: "clone (JObj (buildOperationRecord pid n)) = Inr (JObj (buildOperationRecord pid n))"
      by (rule op_doc_clone[OF record_doc[OF input_metadata[OF assms(2)]]])
    show ?thesis using assms(1,2) h doc new
      by (auto simp: memory_create_def Let_def withFlag_def tryIn_def mapR_Inr_iff update_conv' split: option.splits if_splits sum.splits)
  qed
  then obtain k where k: "map_of (idempotencyByKey R) ?ik = Some (h, k)" "map_of (operationsByKey R) k = Some op" by blast
  have S: "rails_ok ?S" "later R ?S" using rails_run_step[OF ok] by blast+
  from S(2) k obtain cu where cur: "map_of (operationsByKey ?S) k = Some cu" "progress op cu"
    and ik: "map_of (idempotencyByKey ?S) ?ik = Some (h, k)" unfolding later_def by blast
  have "clone cu = Inr cu" using rails_okD(1)[OF S(1) cur(1)] by (rule op_doc_clone)
  with cur(2) show ?thesis using assms(3-6) ik cur(1) h h'
    by (intro exI[of _ cu]) (simp add: memory_create_def Let_def withFlag_def createConflictError_def)
qed

theorem rail_create_once_witness:
  "\<exists>current. progress (JObj (buildOperationRecord ''stub'' sample_rail_op)) current \<and>
    snd (memory_create ''stub'' ''n'' (rails_run ''stub'' (fst (memory_create ''stub'' ''n'' empty_rails sample_rail_input)) [(''n'', Cancel JNull)])
      sample_rail_input) = Inr (current, True)"
proof -
  have "\<exists>R. memory_create ''stub'' ''n'' (rails_run ''stub'' empty_rails []) sample_rail_input
      = (R, Inr (JObj (buildOperationRecord ''stub'' sample_rail_op), False))"
    using create_new[OF sample_rail_normal, of empty_rails "''stub''" "''n''"] by (auto simp: rails_run_def empty_rails_def)
  then obtain R where R: "memory_create ''stub'' ''n'' (rails_run ''stub'' empty_rails []) sample_rail_input
      = (R, Inr (JObj (buildOperationRecord ''stub'' sample_rail_op), False))" ..
  from rail_create_once[OF R sample_rail_normal sample_rail_normal[of "''n''"], of "[(''n'', Cancel JNull)]"]
  show ?thesis using R by (auto simp: rails_run_def)
qed

text \<open>Tenants are not separated. The key of an operation joins tenant and operation id with a newline, and neither
  is checked for newlines: asking for the status of operation \<open>b \n i\<close> of tenant \<open>a\<close> returns operation \<open>i\<close> of
  tenant \<open>a \n b\<close>.\<close>

theorem rail_status_crosses_tenants:
  assumes "memory_create pid now R input = (R', Inr (op, False))" "normalizeCreateInput now input = Inr n"
    and "ri_tenantId n = a @ CHR 0x0A # b" and "a \<noteq> []" "trim a = a" and "b \<noteq> []" "trim (b @ CHR 0x0A # ri_operationId n) = b @ CHR 0x0A # ri_operationId n"
  shows "memory_status R' (JObj [(''tenantId'', JStr a), (''operationId'', JStr (b @ CHR 0x0A # ri_operationId n))]) = Inr op
    \<and> getp op ''tenantId'' = JStr (a @ CHR 0x0A # b)"
proof -
  have c: "clone (JObj (buildOperationRecord pid n)) = Inr (JObj (buildOperationRecord pid n))"
    by (rule op_doc_clone[OF record_doc[OF input_metadata[OF assms(2)]]])
  have "op = JObj (buildOperationRecord pid n) \<and> map_of (operationsByKey R') (operationStoreKey (ri_tenantId n) (ri_operationId n)) = Some op"
    using assms(1,2) c
    by (auto simp: memory_create_def Let_def withFlag_def tryIn_def mapR_Inr_iff update_conv' split: option.splits if_splits sum.splits)
  then show ?thesis using assms(3-) c
    by (auto simp: memory_status_def call_ids_def assertNonEmptyString_def operationStoreKey_def buildOperationRecord_def)
qed

definition crossing_input :: jsval where
  "crossing_input = JObj [(''tenantId'', JStr (''a'' @ CHR 0x0A # ''b'')), (''operationId'', JStr ''op1''), (''counterpartyRef'', JStr ''bank:1''),
     (''direction'', JStr ''payout''), (''idempotencyKey'', JStr ''k1''), (''amountCents'', JInt 500),
     (''at'', JStr ''2026-01-01T00:00:00.000Z'')]"

lemma crossing_normal: "normalizeCreateInput now crossing_input = Inr (sample_rail_op\<lparr>ri_tenantId := ''a'' @ CHR 0x0A # ''b''\<rparr>)"
proof -
  have other: "getp crossing_input k = getp sample_rail_input k" if "k \<noteq> ''tenantId''" for k
    using that by (simp add: crossing_input_def sample_rail_input_def)
  have "text_of (getp crossing_input ''tenantId'') = ''a'' @ CHR 0x0A # ''b''" by code_simp
  moreover have "assertPlainObject crossing_input name = Inr ()" "assertPlainObject sample_rail_input name = Inr ()" for name
    by (simp_all add: crossing_input_def sample_rail_input_def assertPlainObject_def isObjectLike_def)
  moreover have "text_of (getp sample_rail_input ''tenantId'') = ''t''" by code_simp
  ultimately show ?thesis
    using sample_rail_normal[of now] by (auto simp: normalizeCreateInput_def other sample_rail_op_def res_simps Let_def)
qed

theorem rail_status_crosses_tenants_witness:
  "\<exists>op. memory_status (fst (memory_create ''stub'' ''n'' empty_rails crossing_input))
      (JObj [(''tenantId'', JStr ''a''), (''operationId'', JStr (''b'' @ CHR 0x0A # ''op1''))]) = Inr op
    \<and> getp op ''tenantId'' = JStr (''a'' @ CHR 0x0A # ''b'')"
proof -
  let ?n = "sample_rail_op\<lparr>ri_tenantId := ''a'' @ CHR 0x0A # ''b''\<rparr>"
  obtain R where R: "memory_create ''stub'' ''n'' empty_rails crossing_input = (R, Inr (JObj (buildOperationRecord ''stub'' ?n), False))"
    using create_new[OF crossing_normal, of empty_rails "''stub''" "''n''"] by (auto simp: empty_rails_def)
  have ids: "ri_tenantId ?n = ''a'' @ CHR 0x0A # ''b''" "ri_operationId ?n = ''op1''" by (simp_all add: sample_rail_op_def)
  have "trim ''a'' = ''a''" "trim (''b'' @ CHR 0x0A # ''op1'') = ''b'' @ CHR 0x0A # ''op1''" by code_simp+
  then show ?thesis using rail_status_crosses_tenants[OF R crossing_normal ids(1)] R unfolding ids by simp
qed

end
