(* ===== verification/RailStore.thy ===== *)
theory RailStore
  imports MoneyRails "HOL-Library.Multiset"
begin

text \<open>
  The part of the in-memory store of \<^verbatim>\<open>src/api/store.js\<close> that keeps money rail operations and provider events.
\<close>

section \<open>The store\<close>

record mem_store =
  moneyRailOperations :: "(string \<times> jsval) list"
  moneyRailProviderEvents :: "(string \<times> jsval) list"

text \<open>The \<^verbatim>\<open>assertNonEmptyString\<close> of the store returns the trimmed text.\<close>

definition requireText :: "jsval \<Rightarrow> string \<Rightarrow> string res" where
  "requireText v name =
     (case v of JStr s \<Rightarrow> (if trim s = [] then Inl (TypeError (name @ '' is required'')) else Inr (trim s))
      | _ \<Rightarrow> Inl (TypeError (name @ '' is required'')))"

definition moneyRailOperationStoreKey :: "jsval \<Rightarrow> jsval \<Rightarrow> jsval \<Rightarrow> string res" where
  "moneyRailOperationStoreKey tenantId providerId operationId =
     andThen (normalizeTenantId tenantId) (\<lambda>t. andThen (requireText providerId ''providerId'') (\<lambda>p.
     andThen (requireText operationId ''operationId'') (\<lambda>i. Inr (t @ CHR 0x0A # p @ CHR 0x0A # i))))"

definition moneyRailProviderEventStoreKey :: "jsval \<Rightarrow> jsval \<Rightarrow> jsval \<Rightarrow> jsval \<Rightarrow> jsval \<Rightarrow> string res" where
  "moneyRailProviderEventStoreKey tenantId providerId operationId eventType eventDedupeKey =
     andThen (normalizeTenantId tenantId) (\<lambda>t. andThen (requireText providerId ''providerId'') (\<lambda>p.
     andThen (requireText operationId ''operationId'') (\<lambda>i. andThen (requireText eventType ''eventType'') (\<lambda>e.
     andThen (requireText eventDedupeKey ''eventDedupeKey'') (\<lambda>d.
       Inr (t @ CHR 0x0A # p @ CHR 0x0A # i @ CHR 0x0A # e @ CHR 0x0A # d))))))"

text \<open>\<^verbatim>\<open>map.get(key) ?? null\<close>\<close>

definition get_or_null :: "(string \<times> jsval) list \<Rightarrow> string \<Rightarrow> jsval" where
  "get_or_null m k = (case map_of m k of None \<Rightarrow> JNull | Some v \<Rightarrow> v)"

definition mem_getOperation :: "mem_store \<Rightarrow> jsval \<Rightarrow> jsval res" where
  "mem_getOperation s args =
     andThen (moneyRailOperationStoreKey (dflt (getp args ''tenantId'') (JStr DEFAULT_TENANT_ID)) (getp args ''providerId'') (getp args ''operationId'')) (\<lambda>k.
       Inr (get_or_null (moneyRailOperations s) k))"

text \<open>\<^verbatim>\<open>String(operation.k ?? "")\<close>\<close>

definition field_text :: "jsval \<Rightarrow> string \<Rightarrow> string" where
  "field_text v k = js_String (orElse (getp v k) (JStr []))"

text \<open>The loops skip an entry at the first \<^verbatim>\<open>continue\<close> that applies; normalizing its tenant id may throw.\<close>

definition in_tenant :: "string \<Rightarrow> jsval \<Rightarrow> bool res" where
  "in_tenant tenantId op =
     (if \<not> is_object op then Inr False
      else mapR (\<lambda>t. t = tenantId) (normalizeTenantId (orElse (getp op ''tenantId'') (JStr DEFAULT_TENANT_ID))))"

definition same_idempotency :: "string \<Rightarrow> string \<Rightarrow> string \<Rightarrow> string \<Rightarrow> jsval \<Rightarrow> bool res" where
  "same_idempotency tenantId providerId direction idempotencyKey op =
     mapR (\<lambda>here. here \<and> field_text op ''providerId'' = providerId \<and> toLowerCase (field_text op ''direction'') = direction
              \<and> field_text op ''idempotencyKey'' = idempotencyKey)
       (in_tenant tenantId op)"

fun find_first :: "('a \<Rightarrow> bool res) \<Rightarrow> 'a list \<Rightarrow> 'a option res" where
  "find_first p [] = Inr None"
| "find_first p (x # xs) = andThen (p x) (\<lambda>b. if b then Inr (Some x) else find_first p xs)"

definition mem_findByIdempotency :: "mem_store \<Rightarrow> jsval \<Rightarrow> jsval res" where
  "mem_findByIdempotency s args =
     andThen (normalizeTenantId (getp args ''tenantId'')) (\<lambda>tenantId.
     andThen (requireText (getp args ''providerId'') ''providerId'') (\<lambda>providerId.
     andThen (requireText (getp args ''direction'') ''direction'') (\<lambda>direction.
     andThen (requireText (getp args ''idempotencyKey'') ''idempotencyKey'') (\<lambda>idempotencyKey.
     andThen (find_first (same_idempotency tenantId providerId (toLowerCase direction) idempotencyKey) (map snd (moneyRailOperations s))) (\<lambda>found.
       Inr (case found of None \<Rightarrow> JNull | Some op \<Rightarrow> op))))))"

fun filterRes :: "('a \<Rightarrow> bool res) \<Rightarrow> 'a list \<Rightarrow> 'a list res" where
  "filterRes p [] = Inr []"
| "filterRes p (x # xs) = andThen (p x) (\<lambda>b. andThen (filterRes p xs) (\<lambda>ys. Inr (if b then x # ys else ys)))"

text \<open>A filter argument that is null lets everything through.\<close>

definition optText :: "jsval \<Rightarrow> string \<Rightarrow> string option res" where
  "optText v name = (if dflt v JNull = JNull then Inr None else mapR Some (requireText v name))"

definition mem_listOperations :: "(jsval list \<Rightarrow> jsval list) \<Rightarrow> mem_store \<Rightarrow> jsval \<Rightarrow> jsval list res" where
  "mem_listOperations lsort s args =
     andThen (normalizeTenantId (getp args ''tenantId'')) (\<lambda>tenantId.
     andThen (optText (getp args ''providerId'') ''providerId'') (\<lambda>providerId.
     andThen (optText (getp args ''direction'') ''direction'') (\<lambda>direction.
     andThen (optText (getp args ''state'') ''state'') (\<lambda>state.
     (case (safe_int_of (dflt (getp args ''limit'') (JInt 200)), safe_int_of (dflt (getp args ''offset'') (JInt 0))) of
        (Some limit, offset) \<Rightarrow>
          (if limit \<le> 0 then Inl (TypeError ''limit must be a positive safe integer'')
           else case offset of
             None \<Rightarrow> Inl (TypeError ''offset must be a non-negative safe integer'')
           | Some off \<Rightarrow>
               (if off < 0 then Inl (TypeError ''offset must be a non-negative safe integer'')
                else andThen (filterRes (\<lambda>op. mapR (\<lambda>here. here
                         \<and> (providerId = None \<or> providerId = Some (field_text op ''providerId''))
                         \<and> (direction = None \<or> map_option toLowerCase direction = Some (toLowerCase (field_text op ''direction'')))
                         \<and> (state = None \<or> map_option toLowerCase state = Some (toLowerCase (field_text op ''state''))))
                       (in_tenant tenantId op)) (map snd (moneyRailOperations s))) (\<lambda>out.
                  Inr (take (nat (min 1000 limit)) (drop (nat off) (lsort out))))))
      | (None, _) \<Rightarrow> Inl (TypeError ''limit must be a positive safe integer''))))))"

text \<open>An existing operation conflicts when it has the idempotency key but another operation id.\<close>

definition key_conflict :: "string \<Rightarrow> string \<Rightarrow> string \<Rightarrow> string \<Rightarrow> string \<Rightarrow> unit \<Rightarrow> jsval \<Rightarrow> unit res" where
  "key_conflict tenantId providerId direction idempotencyKey operationId u existing =
     andThen (same_idempotency tenantId providerId direction idempotencyKey existing) (\<lambda>same.
       throwIf (same \<and> field_text existing ''operationId'' \<noteq> operationId)
         (CodedError ''MONEY_RAIL_IDEMPOTENCY_CONFLICT'' ''idempotency key was already used with a different operation''))"

text \<open>\<^verbatim>\<open>v && String(v).trim() !== ""\<close>, with the text.\<close>

definition hash_text :: "jsval \<Rightarrow> string option" where
  "hash_text v = (if truthy v \<and> trim (js_String v) \<noteq> [] then Some (js_String v) else None)"

definition stored_props :: "jsval \<Rightarrow> string \<Rightarrow> string \<Rightarrow> string \<Rightarrow> string \<Rightarrow> string \<Rightarrow> jsval \<Rightarrow> jsval \<Rightarrow> props" where
  "stored_props operation tenantId providerId operationId direction idempotencyKey requestHash existingById =
     spread (own_props operation)
       [(''tenantId'', JStr tenantId), (''providerId'', JStr providerId), (''operationId'', JStr operationId), (''direction'', JStr direction),
        (''idempotencyKey'', JStr idempotencyKey),
        (''requestHash'', opt_str (case hash_text requestHash of Some h \<Rightarrow> Some h | None \<Rightarrow> hash_text (getp existingById ''requestHash'')))]"

definition mem_putOperation :: "mem_store \<Rightarrow> jsval \<Rightarrow> (mem_store, jsval) call" where
  "mem_putOperation s args =
     (let operation = getp args ''operation''; requestHash = dflt (getp args ''requestHash'') JNull in
      tryIn s (normalizeTenantId (getp args ''tenantId'')) (\<lambda>tenantId.
      tryIn s (requireText (getp args ''providerId'') ''providerId'') (\<lambda>providerId.
      tryIn s (throwIf (\<not> isObjectLike operation) (TypeError ''operation is required'')) (\<lambda>_.
      tryIn s (requireText (orElse (getp operation ''operationId'') JNull) ''operation.operationId'') (\<lambda>operationId.
      tryIn s (mapR toLowerCase (requireText (orElse (getp operation ''direction'') JNull) ''operation.direction'')) (\<lambda>direction.
      tryIn s (requireText (orElse (getp operation ''idempotencyKey'') JNull) ''operation.idempotencyKey'') (\<lambda>idempotencyKey.
      tryIn s (moneyRailOperationStoreKey (JStr tenantId) (JStr providerId) (JStr operationId)) (\<lambda>opKey.
      tryIn s (foldRes (key_conflict tenantId providerId direction idempotencyKey operationId) () (map snd (moneyRailOperations s))) (\<lambda>_.
      let existingById = get_or_null (moneyRailOperations s) opKey in
      tryIn s (throwIf (truthy existingById \<and> truthy requestHash \<and> truthy (getp existingById ''requestHash'')
                 \<and> js_String (getp existingById ''requestHash'') \<noteq> js_String requestHash)
                (CodedError ''MONEY_RAIL_OPERATION_CONFLICT'' ''operationId already exists with a different request'')) (\<lambda>_.
      let next = JObj (stored_props operation tenantId providerId operationId direction idempotencyKey requestHash existingById) in
      (s\<lparr>moneyRailOperations := AList.update opKey next (moneyRailOperations s)\<rparr>,
       Inr (JObj [(''operation'', next), (''created'', JBool (\<not> truthy existingById))]))))))))))))"

definition mem_getEvent :: "mem_store \<Rightarrow> jsval \<Rightarrow> jsval res" where
  "mem_getEvent s args =
     andThen (moneyRailProviderEventStoreKey (getp args ''tenantId'') (getp args ''providerId'') (getp args ''operationId'')
                (getp args ''eventType'') (getp args ''eventDedupeKey'')) (\<lambda>k.
       Inr (get_or_null (moneyRailProviderEvents s) k))"

definition mem_putEvent :: "mem_store \<Rightarrow> jsval \<Rightarrow> (mem_store, jsval) call" where
  "mem_putEvent s args =
     (let event = getp args ''event'' in
      tryIn s (normalizeTenantId (getp args ''tenantId'')) (\<lambda>tenantId.
      tryIn s (requireText (getp args ''providerId'') ''providerId'') (\<lambda>providerId.
      tryIn s (requireText (getp args ''operationId'') ''operationId'') (\<lambda>operationId.
      tryIn s (throwIf (\<not> isObjectLike event) (TypeError ''event is required'')) (\<lambda>_.
      tryIn s (mapR toLowerCase (requireText (orElse (getp event ''eventType'') JNull) ''event.eventType'')) (\<lambda>eventType.
      tryIn s (requireText (orElse (getp event ''eventDedupeKey'') JNull) ''event.eventDedupeKey'') (\<lambda>eventDedupeKey.
      tryIn s (moneyRailProviderEventStoreKey (JStr tenantId) (JStr providerId) (JStr operationId) (JStr eventType) (JStr eventDedupeKey)) (\<lambda>key.
      let existing = get_or_null (moneyRailProviderEvents s) key in
      if truthy existing then (s, Inr (JObj [(''event'', existing), (''created'', JBool False)]))
      else
        let normalizedEvent = JObj (spread (own_props event)
              [(''tenantId'', JStr tenantId), (''providerId'', JStr providerId), (''operationId'', JStr operationId),
               (''eventType'', JStr eventType), (''eventDedupeKey'', JStr eventDedupeKey)]) in
        (s\<lparr>moneyRailProviderEvents := AList.update key normalizedEvent (moneyRailProviderEvents s)\<rparr>,
         Inr (JObj [(''event'', normalizedEvent), (''created'', JBool True)]))))))))))"

definition memory_store :: "(jsval list \<Rightarrow> jsval list) \<Rightarrow> mem_store rail_store" where
  "memory_store lsort =
     \<lparr>getMoneyRailOperation = mem_getOperation, findMoneyRailOperationByIdempotency = mem_findByIdempotency,
      listMoneyRailOperations = mem_listOperations lsort, putMoneyRailOperation = mem_putOperation,
      getMoneyRailProviderEvent = mem_getEvent, putMoneyRailProviderEvent = mem_putEvent\<rparr>"

section \<open>Plain requests\<close>

text \<open>Ids without line breaks and of the length the store accepts, and metadata whose canonical text determines it.\<close>

definition clean_id :: "string \<Rightarrow> bool" where
  "clean_id s \<longleftrightarrow> CHR 0x0A \<notin> set s \<and> CHR 0x0D \<notin> set s \<and> length s \<le> 200 \<and> s \<noteq> [] \<and> trim s = s"

definition clean_input :: "rail_input \<Rightarrow> bool" where
  "clean_input n \<longleftrightarrow> clean_id (ri_tenantId n) \<and> clean_id (ri_operationId n) \<and> ri_direction n \<in> set MONEY_RAIL_DIRECTION
     \<and> ri_idempotencyKey n \<noteq> [] \<and> trim (ri_idempotencyKey n) = ri_idempotencyKey n
     \<and> is_safe (ri_amountCents n) \<and> literal_doc (ri_metadata n) \<and> hashable (ri_metadata n) \<and> neg_zero_free (ri_metadata n)"

definition input_text :: "rail_input \<Rightarrow> string" where
  "input_text n = (case buildOperationRequestHash (JObj (js_of_input n)) of Inr h \<Rightarrow> h | Inl _ \<Rightarrow> [])"

definition request_doc :: "rail_input \<Rightarrow> jsval" where
  "request_doc n = JObj [(''tenantId'', JStr (ri_tenantId n)), (''operationId'', JStr (ri_operationId n)), (''direction'', JStr (ri_direction n)),
      (''idempotencyKey'', JStr (ri_idempotencyKey n)), (''amountCents'', JInt (ri_amountCents n)), (''currency'', JStr (ri_currency n)),
      (''counterpartyRef'', JStr (ri_counterpartyRef n)), (''metadata'', ri_metadata n)]"

lemma literal_not_undef: "literal_doc v \<Longrightarrow> orElse v JNull = v"
  by (cases v) (auto simp: orElse_def nullish_def)

lemma request_doc_literal: "clean_input n \<Longrightarrow> literal_doc (request_doc n) \<and> neg_zero_free (request_doc n)"
  by (simp add: request_doc_def clean_input_def plain_keys_def plain_key_def is_digit_def)

lemma clean_request:
  assumes "clean_input n"
  shows "buildOperationRequestHash (JObj (js_of_input n)) = canonicalJsonStringify (request_doc n)" "hashable (request_doc n)"
proof -
  have l: "literal_doc (request_doc n)" "neg_zero_free (request_doc n)" using request_doc_literal[OF assms] by blast+
  then show "buildOperationRequestHash (JObj (js_of_input n)) = canonicalJsonStringify (request_doc n)"
    using literal_not_undef[of "ri_metadata n"] assms
    by (simp add: buildOperationRequestHash_def REQUEST_KEYS_def js_of_input_def request_doc_def clean_input_def)
  show "hashable (request_doc n)" using assms by (auto simp: request_doc_def clean_input_def)
qed

lemma clean_text:
  assumes "clean_input n"
  shows "buildOperationRequestHash (JObj (js_of_input n)) = Inr (input_text n)" "\<exists>s. input_text n = CHR ''{'' # s"
proof -
  have l: "literal_doc (request_doc n)" "neg_zero_free (request_doc n)" using request_doc_literal[OF assms] by blast+
  then obtain c where c: "canonicalize (request_doc n) = Inr c" using canonicalize_literal by blast
  then have h: "buildOperationRequestHash (JObj (js_of_input n)) = Inr (json_stringify c)"
    using clean_request(1)[OF assms] by (simp add: canonicalJsonStringify_def)
  then show "buildOperationRequestHash (JObj (js_of_input n)) = Inr (input_text n)" by (simp add: input_text_def)
  show "\<exists>s. input_text n = CHR ''{'' # s" using h c by (auto simp: input_text_def request_doc_def andThen_Inr_iff build_obj_def)
qed

lemma clean_text_inj:
  assumes "clean_input n" "clean_input m" "input_text n = input_text m"
  shows "ri_tenantId n = ri_tenantId m \<and> ri_operationId n = ri_operationId m \<and> ri_direction n = ri_direction m \<and> ri_idempotencyKey n = ri_idempotencyKey m"
proof -
  have "canonicalJsonStringify (request_doc n) = Inr (input_text n)" "canonicalJsonStringify (request_doc m) = Inr (input_text n)"
    using clean_request(1) clean_text(1) assms by metis+
  then have "json_equiv (request_doc n) (request_doc m)" using canonical_text_iff clean_request(2) assms by metis
  then have "json_equiv (getp (request_doc n) k) (getp (request_doc m) k)" for k
    unfolding request_doc_def by (rule json_equiv_getp)
  from this[of "''tenantId''"] this[of "''operationId''"] this[of "''direction''"] this[of "''idempotencyKey''"]
  show ?thesis by (simp add: request_doc_def json_equiv_atom)
qed

lemma direction_facts: "d \<in> set MONEY_RAIL_DIRECTION \<Longrightarrow> trim d = d \<and> d \<noteq> [] \<and> toLowerCase d = d \<and> CHR 0x0A \<notin> set d"
  by (auto simp: MONEY_RAIL_DIRECTION_def) (code_simp)+

lemma nl_inject:
  assumes "CHR 0x0A \<notin> set a" "CHR 0x0A \<notin> set a'"
  shows "a @ CHR 0x0A # b = a' @ CHR 0x0A # b' \<longleftrightarrow> a = a' \<and> b = b'"
  using append_eq_prefix_free[of a "CHR 0x0A" b a' "CHR 0x0A" b'] assms by auto

lemma op_key_inj: "clean_id t \<Longrightarrow> clean_id t' \<Longrightarrow> operationStoreKey t i = operationStoreKey t' i' \<longleftrightarrow> t = t' \<and> i = i'"
  by (simp add: operationStoreKey_def nl_inject clean_id_def)

lemma idem_key_inj:
  "clean_id t \<Longrightarrow> clean_id t' \<Longrightarrow> d \<in> set MONEY_RAIL_DIRECTION \<Longrightarrow> d' \<in> set MONEY_RAIL_DIRECTION \<Longrightarrow>
   idempotencyStoreKey t d k = idempotencyStoreKey t' d' k' \<longleftrightarrow> t = t' \<and> d = d' \<and> k = k'"
  by (simp add: idempotencyStoreKey_def nl_inject clean_id_def direction_facts)

section \<open>Provenance\<close>

definition op_key :: "rail_input \<Rightarrow> string" where
  "op_key n = operationStoreKey (ri_tenantId n) (ri_operationId n)"

definition idem_key :: "rail_input \<Rightarrow> string" where
  "idem_key n = idempotencyStoreKey (ri_tenantId n) (ri_direction n) (ri_idempotencyKey n)"

text \<open>An operation that was created from a request: its fixed fields are those of the new record.\<close>

definition made_from :: "string \<Rightarrow> rail_input \<Rightarrow> jsval \<Rightarrow> bool" where
  "made_from pid n op \<longleftrightarrow> (\<forall>k. k \<notin> set VOLATILE_KEYS \<longrightarrow> getp op k = getp (JObj (buildOperationRecord pid n)) k)"

text \<open>The three-way correspondence of operations, requests and index entries.\<close>

definition rails_clean :: "string \<Rightarrow> rails \<Rightarrow> bool" where
  "rails_clean pid R \<longleftrightarrow> rails_ok R
     \<and> (\<forall>k op. map_of (operationsByKey R) k = Some op \<longrightarrow>
          (\<exists>n. clean_input n \<and> made_from pid n op \<and> k = op_key n \<and> map_of (idempotencyByKey R) (idem_key n) = Some (input_text n, k)))
     \<and> (\<forall>ik h k. map_of (idempotencyByKey R) ik = Some (h, k) \<longrightarrow>
          (\<exists>n op. clean_input n \<and> made_from pid n op \<and> k = op_key n \<and> ik = idem_key n \<and> h = input_text n \<and> map_of (operationsByKey R) k = Some op))"

lemma made_from_hash: "made_from pid n op \<Longrightarrow> clean_input n \<Longrightarrow> buildOperationRequestHash op = Inr (input_text n)"
  using hash_cong[of op "JObj (buildOperationRecord pid n)"] record_hash clean_text(1) by (simp add: made_from_def)

lemma made_from_ids:
  assumes "made_from pid n op"
  shows "getp op ''tenantId'' = JStr (ri_tenantId n)" "getp op ''operationId'' = JStr (ri_operationId n)"
    "getp op ''direction'' = JStr (ri_direction n)" "getp op ''idempotencyKey'' = JStr (ri_idempotencyKey n)" "getp op ''providerId'' = JStr pid"
  using assms by (simp_all add: made_from_def VOLATILE_KEYS_def buildOperationRecord_def)

lemma made_from_progress: "made_from pid n op \<Longrightarrow> progress op op' \<Longrightarrow> made_from pid n op'"
  by (auto simp: made_from_def progress_def)

lemma rails_clean_update:
  assumes "rails_clean pid R" "map_of (operationsByKey R) k = Some op" "op_doc op'" "progress op op'"
  shows "rails_clean pid (R\<lparr>operationsByKey := AList.update k op' (operationsByKey R)\<rparr>)"
proof -
  have ok: "rails_ok R" using assms(1) by (simp add: rails_clean_def)
  show ?thesis unfolding rails_clean_def
  proof (intro conjI allI impI)
    show "rails_ok (R\<lparr>operationsByKey := AList.update k op' (operationsByKey R)\<rparr>)" using rails_update[OF ok assms(2-4)] by blast
  next
    fix k' o' assume "map_of (operationsByKey (R\<lparr>operationsByKey := AList.update k op' (operationsByKey R)\<rparr>)) k' = Some o'"
    then obtain o0 where "map_of (operationsByKey R) k' = Some o0" "progress o0 o'"
      using assms(2,4) by (cases "k' = k") (auto simp: update_conv')
    then show "\<exists>n. clean_input n \<and> made_from pid n o' \<and> k' = op_key n
       \<and> map_of (idempotencyByKey (R\<lparr>operationsByKey := AList.update k op' (operationsByKey R)\<rparr>)) (idem_key n) = Some (input_text n, k')"
      using assms(1) made_from_progress unfolding rails_clean_def by fastforce
  next
    fix ik h k' assume "map_of (idempotencyByKey (R\<lparr>operationsByKey := AList.update k op' (operationsByKey R)\<rparr>)) ik = Some (h, k')"
    then obtain n o0 where n: "clean_input n" "made_from pid n o0" "k' = op_key n" "ik = idem_key n" "h = input_text n" "map_of (operationsByKey R) k' = Some o0"
      using assms(1) unfolding rails_clean_def by fastforce
    have "made_from pid n (if k' = k then op' else o0)" using n assms(2,4) made_from_progress by auto
    then show "\<exists>n op. clean_input n \<and> made_from pid n op \<and> k' = op_key n \<and> ik = idem_key n \<and> h = input_text n
       \<and> map_of (operationsByKey (R\<lparr>operationsByKey := AList.update k op' (operationsByKey R)\<rparr>)) k' = Some op"
      using n assms(2) by (intro exI[of _ n] exI[of _ "if k' = k then op' else o0"]) (auto simp: update_conv')
  qed
qed

lemma rails_clean_events [simp]: "rails_clean pid (R\<lparr>providerEventsByKey := E\<rparr>) = rails_clean pid R"
  by (simp add: rails_clean_def)

text \<open>A creation of a plain request, on each of its three branches.\<close>

lemma clean_create:
  assumes R: "rails_clean pid R" and n: "normalizeCreateInput now input = Inr n" "clean_input n"
  shows "(case map_of (idempotencyByKey R) (idem_key n) of
      Some (h, k) \<Rightarrow> memory_create pid now R input = (R, if h \<noteq> input_text n
          then Inl (createConflictError ''MONEY_RAIL_IDEMPOTENCY_CONFLICT'' ''idempotency key was already used with a different request'')
          else Inr (the (map_of (operationsByKey R) k), True))
    | None \<Rightarrow> (case map_of (operationsByKey R) (op_key n) of
        Some op \<Rightarrow> buildOperationRequestHash op \<noteq> Inr (input_text n) \<and> memory_create pid now R input =
          (R, Inl (createConflictError ''MONEY_RAIL_OPERATION_CONFLICT'' ''operationId already exists with a different request''))
      | None \<Rightarrow> memory_create pid now R input =
          (R\<lparr>operationsByKey := AList.update (op_key n) (JObj (buildOperationRecord pid n)) (operationsByKey R),
             idempotencyByKey := AList.update (idem_key n) (input_text n, op_key n) (idempotencyByKey R)\<rparr>,
           Inr (JObj (buildOperationRecord pid n), False))))"
proof -
  have ok: "rails_ok R" using R by (simp add: rails_clean_def)
  show ?thesis
  proof (cases "map_of (idempotencyByKey R) (idem_key n)")
    case (Some x)
    obtain h k where x: "x = (h, k)" by (cases x)
    obtain op where op: "map_of (operationsByKey R) k = Some op" using rails_okD(2)[OF ok Some[unfolded x]] by blast
    then have "clone op = Inr op" using op_doc_clone rails_okD(1)[OF ok] by blast
    then show ?thesis using n clean_text(1)[OF n(2)] Some[unfolded idem_key_def] x op
      by (simp add: memory_create_def Let_def idem_key_def withFlag_def)
  next
    case idem: None
    show ?thesis
    proof (cases "map_of (operationsByKey R) (op_key n)")
      case None
      have "clone (JObj (buildOperationRecord pid n)) = Inr (JObj (buildOperationRecord pid n))"
        by (rule op_doc_clone[OF record_doc[OF input_metadata[OF n(1)]]])
      then show ?thesis using n clean_text(1)[OF n(2)] idem None
        by (simp add: memory_create_def Let_def idem_key_def op_key_def withFlag_def)
    next
      case (Some op)
      then obtain m where m: "clean_input m" "made_from pid m op" "map_of (idempotencyByKey R) (idem_key m) = Some (input_text m, op_key n)"
        using R unfolding rails_clean_def by blast
      have "input_text m \<noteq> input_text n" using clean_text_inj[OF m(1) n(2)] m(3) idem by (auto simp: idem_key_def)
      then show ?thesis using n clean_text(1)[OF n(2)] idem Some made_from_hash[OF m(2,1)]
        by (simp add: memory_create_def Let_def idem_key_def op_key_def)
    qed
  qed
qed

section \<open>The contract between adapter and store\<close>

text \<open>A stored operation is the operation with its request hash.\<close>

definition stored :: "jsval \<Rightarrow> string \<Rightarrow> jsval" where
  "stored op h = JObj (own_props op @ [(''requestHash'', JStr h)])"

definition op_text :: "jsval \<Rightarrow> string" where
  "op_text op = (case buildOperationRequestHash op of Inr h \<Rightarrow> h | Inl _ \<Rightarrow> [])"

definition ids_args :: "string \<Rightarrow> string \<Rightarrow> string \<Rightarrow> jsval" where
  "ids_args t pid i = JObj [(''tenantId'', JStr t), (''providerId'', JStr pid), (''operationId'', JStr i)]"

definition idem_args :: "string \<Rightarrow> string \<Rightarrow> string \<Rightarrow> string \<Rightarrow> jsval" where
  "idem_args t pid d k = JObj [(''tenantId'', JStr t), (''providerId'', JStr pid), (''direction'', JStr d), (''idempotencyKey'', JStr k)]"

definition event_args :: "string \<Rightarrow> string \<Rightarrow> string \<Rightarrow> op_state \<times> string \<times> string option \<Rightarrow> jsval" where
  "event_args t pid i head = JObj [(''tenantId'', JStr t), (''providerId'', JStr pid), (''operationId'', JStr i),
     (''eventType'', JStr (state_name (fst head))), (''eventDedupeKey'', JStr (dedupe_key head))]"

definition backed_event :: "string \<Rightarrow> string \<Rightarrow> string \<Rightarrow> op_state \<times> string \<times> string option \<Rightarrow> jsval \<Rightarrow> jsval" where
  "backed_event pid t i head payload = JObj (event_props pid t i head [(''eventDedupeKey'', JStr (dedupe_key head))] payload)"

definition keyed :: "string \<Rightarrow> string \<Rightarrow> jsval \<Rightarrow> bool" where
  "keyed d k op \<longleftrightarrow> getp op ''direction'' = JStr d \<and> getp op ''idempotencyKey'' = JStr k"

text \<open>What the adapter expects of a store, for the operations of one provider. \<open>view\<close> is the content by tenant and
  operation id, \<open>seen\<close> gives the recorded provider events.\<close>

locale operation_store =
  fixes store :: "'s rail_store" and pid :: string and good :: "'s \<Rightarrow> bool"
    and view :: "'s \<Rightarrow> string \<Rightarrow> string \<Rightarrow> jsval option"
    and seen :: "'s \<Rightarrow> string \<Rightarrow> string \<Rightarrow> op_state \<times> string \<times> string option \<Rightarrow> jsval option"
  assumes get_law: "good s \<Longrightarrow> clean_id t \<Longrightarrow> clean_id i \<Longrightarrow>
      getMoneyRailOperation store s (ids_args t pid i) = Inr (case view s t i of None \<Rightarrow> JNull | Some op \<Rightarrow> op)"
    and find_law: "good s \<Longrightarrow> clean_id t \<Longrightarrow> d \<in> set MONEY_RAIL_DIRECTION \<Longrightarrow> k \<noteq> [] \<Longrightarrow> trim k = k \<Longrightarrow>
      (findMoneyRailOperationByIdempotency store s (idem_args t pid d k) = Inr JNull
         \<and> (\<forall>i op. clean_id i \<longrightarrow> view s t i = Some op \<longrightarrow> \<not> keyed d k op))
      \<or> (\<exists>i op. clean_id i \<and> view s t i = Some op \<and> keyed d k op
         \<and> findMoneyRailOperationByIdempotency store s (idem_args t pid d k) = Inr op)"
    and put_law: "good s \<Longrightarrow> op_doc op \<Longrightarrow> clean_input n \<Longrightarrow> made_from pid n op \<Longrightarrow>
      (\<And>i o'. clean_id i \<Longrightarrow> view s (ri_tenantId n) i = Some o' \<Longrightarrow> keyed (ri_direction n) (ri_idempotencyKey n) o' \<Longrightarrow> i = ri_operationId n) \<Longrightarrow>
      (\<And>o'. view s (ri_tenantId n) (ri_operationId n) = Some o' \<Longrightarrow> getp o' ''requestHash'' = JStr (input_text n)) \<Longrightarrow>
      \<exists>s'. putMoneyRailOperation store s (put_args (ri_tenantId n) pid (stored op (input_text n)) (JStr (input_text n)))
            = (s', Inr (JObj [(''operation'', stored op (input_text n)),
                              (''created'', JBool (view s (ri_tenantId n) (ri_operationId n) = None))]))
         \<and> good s' \<and> seen s' = seen s
         \<and> (\<forall>t i. clean_id t \<longrightarrow> clean_id i \<longrightarrow>
              view s' t i = (if t = ri_tenantId n \<and> i = ri_operationId n then Some (stored op (input_text n)) else view s t i))"
    and get_event_law: "good s \<Longrightarrow> clean_id t \<Longrightarrow> clean_id i \<Longrightarrow> trim (dedupe_key head) = dedupe_key head \<Longrightarrow>
      getMoneyRailProviderEvent store s (event_args t pid i head) = Inr (case seen s t i head of None \<Rightarrow> JNull | Some e \<Rightarrow> e)
      \<and> (\<forall>e. seen s t i head = Some e \<longrightarrow> truthy e \<and> clone e = Inr e)"
    and put_event_law: "good s \<Longrightarrow> clean_id t \<Longrightarrow> clean_id i \<Longrightarrow> trim (dedupe_key head) = dedupe_key head \<Longrightarrow> json_value payload \<Longrightarrow>
      seen s t i head = None \<Longrightarrow>
      \<exists>s'. putMoneyRailProviderEvent store s
            (JObj [(''tenantId'', JStr t), (''providerId'', JStr pid), (''operationId'', JStr i), (''event'', backed_event pid t i head payload)])
            = (s', Inr (JObj [(''event'', backed_event pid t i head payload), (''created'', JBool True)]))
         \<and> good s' \<and> view s' = view s
         \<and> (\<forall>t' i' head'. clean_id t' \<longrightarrow> clean_id i' \<longrightarrow> trim (dedupe_key head') = dedupe_key head' \<longrightarrow>
              seen s' t' i' head' = (if t' = t \<and> i' = i \<and> dedupe_key head' = dedupe_key head then Some (backed_event pid t i head payload)
                else seen s t' i' head'))"

section \<open>Stored operations\<close>

lemma op_doc_props: "op_doc op \<Longrightarrow> \<exists>ps. op = JObj ps \<and> map fst ps = OP_KEYS \<and> list_all (\<lambda>p. json_value (snd p)) ps"
  by (auto simp: op_doc_def)

lemma requestHash_fresh: "''requestHash'' \<notin> set OP_KEYS"
  by (simp add: OP_KEYS_simp)

lemma getp_stored:
  assumes "op_doc op"
  shows "getp (stored op h) k = (if k = ''requestHash'' then JStr h else getp op k)"
proof -
  from assms obtain ps where op: "op = JObj ps" and k: "map fst ps = OP_KEYS" using op_doc_props by blast
  have "fst ` set ps = set OP_KEYS" using k by (metis list.set_map)
  then have f: "''requestHash'' \<notin> fst ` set ps" using requestHash_fresh by simp
  have a: "getp (JObj ps) k = JUndef" if "k \<notin> fst ` set ps"
    using that by (simp add: getp.simps(1) map_of_eq_None_iff[THEN iffD2])
  show ?thesis using f a by (auto simp: stored_def op own_props_def getp_appended)
qed

lemma stored_clone: "op_doc op \<Longrightarrow> clone (stored op h) = Inr (stored op h)"
  by (rule clone_value) (auto simp: stored_def own_props_def dest!: op_doc_props)

lemma stored_strip:
  assumes "op_doc op"
  shows "stripInternalOperationFields (stored op h) = Inr op"
proof -
  from assms obtain ps where op: "op = JObj ps" and k: "map fst ps = OP_KEYS" using op_doc_props by blast
  have "fst ` set ps = set OP_KEYS" using k by (metis list.set_map)
  then have "without [''requestHash''] ps = ps" using requestHash_fresh by (intro without_none) auto
  then show ?thesis using stored_clone[OF assms, of h]
    by (simp add: stripInternalOperationFields_def stored_def op own_props_def without_append) (simp add: without_def)
qed

lemma stored_object [simp]: "isObjectLike (stored op h)" "is_object (stored op h)" "truthy (stored op h)" "\<not> nullish (stored op h)"
  by (simp_all add: stored_def isObjectLike_def nullish_def)

lemma stored_transition:
  assumes "op_doc op"
  shows "applyStateTransition (stored op h) st t pr rc = mapR (\<lambda>o'. stored o' h) (applyStateTransition op st t pr rc)"
proof -
  from assms obtain ps a where op: "op = JObj ps" and k: "map fst ps = OP_KEYS" and a: "has_state op a"
    by (auto simp: op_doc_def)
  have sub: "fst ` set (transition_props op st ts pr rc) \<subseteq> fst ` set ps" for ts
    using transition_keys volatile_keys k by (metis list.set_map order_trans)
  have tp: "transition_props (stored op h) st ts pr rc = transition_props op st ts pr rc" for ts
    by (simp add: transition_props_def getp_stored[OF assms])
  have sp: "spread (ps @ [(''requestHash'', JStr h)]) (transition_props op st ts pr rc) = spread ps (transition_props op st ts pr rc) @ [(''requestHash'', JStr h)]" for ts
    using spread_append[OF sub] .
  have c: "clone op = Inr op" "clone (stored op h) = Inr (stored op h)" using op_doc_clone stored_clone assms by blast+
  have "getp op ''state'' = JStr (state_name a)" "getp (stored op h) ''state'' = JStr (state_name a)"
    using a getp_stored[OF assms] by (simp_all add: has_state_def)
  moreover have "assertPlainObject (stored op h) ''operation'' = Inr ()" "assertPlainObject op ''operation'' = Inr ()"
    by (simp_all add: assertPlainObject_def stored_def op isObjectLike_def)
  ultimately show ?thesis
    using c sp tp by (simp add: applyStateTransition_def andThen_def mapR_def own_props_def op stored_def split: sum.split)
qed

lemma stored_hash [simp]: "op_doc op \<Longrightarrow> other_request (stored op h) h' \<longleftrightarrow> h \<noteq> [] \<and> h \<noteq> h'"
  by (simp add: other_request_def getp_stored Let_def)

lemma stored_cancel_settled [simp]: "op_doc op \<Longrightarrow> cancel_settled (stored op h) = cancel_settled op"
  by (simp add: cancel_settled_def getp_stored)

lemma iso_date_error: "normalizeIsoDate v name = Inl e \<Longrightarrow> \<not> isInvalidTransition e"
  by (auto simp: normalizeIsoDate_def assertNonEmptyString_def isInvalidTransition_def andThen_Inl_iff throwIf_def split: jsval.splits if_splits)

lemma event_transition_applied:
  assumes "op_doc current" and "event_transition current head args = Inr (nx, applied)"
  shows "applied"
proof -
  obtain st ts ei where head: "head = (st, ts, ei)" by (cases head)
  from assms(1) obtain a ps where a: "has_state current a" and op: "current = JObj ps" by (auto simp: op_doc_def)
  have n: "normalizeState (getp current ''state'') = Inr a" using a by (simp add: has_state_def)
  have p: "assertPlainObject current ''operation'' = Inr ()" by (simp add: op assertPlainObject_def isObjectLike_def)
  show ?thesis
    using assms(2) n p op_doc_clone[OF assms(1)] iso_date_error
    by (auto simp: head event_transition_def applyStateTransition_def assertStateTransitionAllowed_def andThen_Inl_iff
        split: sum.splits if_splits)
qed

section \<open>The two adapters side by side\<close>

fun clean_call :: "string \<times> rail_call \<Rightarrow> bool" where
  "clean_call (now, Create input) = (case normalizeCreateInput now input of Inl _ \<Rightarrow> True | Inr n \<Rightarrow> clean_input n)"
| "clean_call (now, Cancel args) = (case call_ids args of Inl _ \<Rightarrow> True | Inr (t, i) \<Rightarrow> clean_id t \<and> clean_id i)"
| "clean_call (now, Transition args) = (case call_ids args of Inl _ \<Rightarrow> True | Inr (t, i) \<Rightarrow> clean_id t \<and> clean_id i)"
| "clean_call (now, Ingest args) = ((case call_ids args of Inl _ \<Rightarrow> True | Inr (t, i) \<Rightarrow> clean_id t \<and> clean_id i)
     \<and> (case event_head now args of Inl _ \<Rightarrow> True | Inr head \<Rightarrow> trim (dedupe_key head) = dedupe_key head))"

text \<open>What a caller sees: the operation, whether the call was a replay, respectively took effect, and the event, if any.\<close>

type_synonym rail_reply = "(jsval \<times> bool \<times> jsval option) res"

fun memory_reply :: "string \<Rightarrow> rails \<Rightarrow> string \<times> rail_call \<Rightarrow> rail_reply" where
  "memory_reply pid R (now, Create input) = mapR (\<lambda>(op, b). (op, b, None)) (snd (memory_create pid now R input))"
| "memory_reply pid R (now, Cancel args) = mapR (\<lambda>(op, b). (op, b, None)) (snd (memory_cancel now R args))"
| "memory_reply pid R (now, Transition args) = mapR (\<lambda>op. (op, True, None)) (snd (memory_transition now R args))"
| "memory_reply pid R (now, Ingest args) = mapR (\<lambda>(op, b, event). (op, b, Some event)) (snd (memory_ingestProviderEvent pid now R args))"

fun backed_call :: "'s rail_store \<Rightarrow> string \<Rightarrow> 's \<Rightarrow> string \<times> rail_call \<Rightarrow> 's \<times> rail_reply" where
  "backed_call store pid s (now, Create input) = map_prod id (mapR (\<lambda>(op, b). (op, b, None))) (backed_create store pid now s input)"
| "backed_call store pid s (now, Cancel args) = map_prod id (mapR (\<lambda>(op, b). (op, b, None))) (backed_cancel store pid now s args)"
| "backed_call store pid s (now, Transition args) = map_prod id (mapR (\<lambda>op. (op, True, None))) (backed_transition store pid now s args)"
| "backed_call store pid s (now, Ingest args) =
     map_prod id (mapR (\<lambda>(op, b, event). (op, b, Some event))) (backed_ingestProviderEvent store pid now s args)"

text \<open>The one difference: an event the provider repeats is answered by the in-memory adapter with the operation as it was after
  the event, by the store-backed one with the operation as it is now, and the event of the store-backed adapter carries the key
  it is recognised by. \<open>with_key\<close> adds it after the first six properties, the last of which is the event's id.\<close>

definition with_key :: "jsval \<Rightarrow> jsval" where
  "with_key event = JObj (take 6 (own_props event)
     @ [(''eventDedupeKey'', JStr (js_String (getp event ''eventType'') @ CHR 0x0A # js_String (orElse (getp event ''eventId'') (getp event ''at''))))]
     @ drop 6 (own_props event))"

fun store_reply :: "string \<Rightarrow> rails \<Rightarrow> string \<times> rail_call \<Rightarrow> rail_reply" where
  "store_reply pid R (now, Ingest args) =
     andThen (memory_reply pid R (now, Ingest args)) (\<lambda>(op, applied, event).
     andThen (if applied then Inr op else memory_status R args) (\<lambda>current. Inr (current, applied, map_option with_key event)))"
| "store_reply pid R (now, call) = memory_reply pid R (now, call)"

fun store_replies :: "string \<Rightarrow> rails \<Rightarrow> (string \<times> rail_call) list \<Rightarrow> rail_reply list" where
  "store_replies pid R [] = []"
| "store_replies pid R (c # cs) = store_reply pid R c # store_replies pid (rail_after pid R c) cs"

fun backed_replies :: "'s rail_store \<Rightarrow> string \<Rightarrow> 's \<Rightarrow> (string \<times> rail_call) list \<Rightarrow> rail_reply list" where
  "backed_replies store pid s [] = []"
| "backed_replies store pid s (c # cs) = snd (backed_call store pid s c) # backed_replies store pid (fst (backed_call store pid s c)) cs"

definition with_text :: "jsval \<Rightarrow> jsval" where
  "with_text op = stored op (op_text op)"

definition event_key :: "string \<Rightarrow> string \<Rightarrow> op_state \<times> string \<times> string option \<Rightarrow> string" where
  "event_key t i head = operationStoreKey t i @ CHR 0x0A # dedupe_key head"

definition related :: "string \<Rightarrow> ('s \<Rightarrow> string \<Rightarrow> string \<Rightarrow> jsval option) \<Rightarrow> ('s \<Rightarrow> string \<Rightarrow> string \<Rightarrow> op_state \<times> string \<times> string option \<Rightarrow> jsval option)
    \<Rightarrow> 's \<Rightarrow> rails \<Rightarrow> bool" where
  "related pid view seen s R \<longleftrightarrow> rails_clean pid R
     \<and> (\<forall>t i. clean_id t \<longrightarrow> clean_id i \<longrightarrow> view s t i = map_option with_text (map_of (operationsByKey R) (operationStoreKey t i)))
     \<and> (\<forall>t i head. clean_id t \<longrightarrow> clean_id i \<longrightarrow> trim (dedupe_key head) = dedupe_key head \<longrightarrow>
          seen s t i head = map_option (\<lambda>(e, o'). with_key e) (map_of (providerEventsByKey R) (event_key t i head)))
     \<and> (\<forall>k e o'. map_of (providerEventsByKey R) k = Some (e, o') \<longrightarrow> json_value e \<and> json_value o')"

lemma op_text_made: "made_from pid n op \<Longrightarrow> clean_input n \<Longrightarrow> op_text op = input_text n"
  by (simp add: op_text_def made_from_hash)

lemma keyed_stored [simp]: "op_doc op \<Longrightarrow> keyed d k (stored op h) = keyed d k op"
  by (simp add: keyed_def getp_stored)

lemma rails_clean_doc: "rails_clean pid R \<Longrightarrow> map_of (operationsByKey R) k = Some op \<Longrightarrow> op_doc op"
  unfolding rails_clean_def by (blast dest: rails_okD(1))

lemma rails_clean_made:
  assumes "rails_clean pid R" "map_of (operationsByKey R) (operationStoreKey t i) = Some op" "clean_id t" "clean_id i"
  obtains n where "clean_input n" "made_from pid n op" "ri_tenantId n = t" "ri_operationId n = i"
    "map_of (idempotencyByKey R) (idem_key n) = Some (input_text n, operationStoreKey t i)" "op_text op = input_text n"
proof -
  from assms obtain n where n: "clean_input n" "made_from pid n op" "operationStoreKey t i = op_key n"
    "map_of (idempotencyByKey R) (idem_key n) = Some (input_text n, operationStoreKey t i)" unfolding rails_clean_def by blast
  moreover have "ri_tenantId n = t \<and> ri_operationId n = i"
    using n(1,3) op_key_inj[of t "ri_tenantId n"] assms(3) by (auto simp: op_key_def clean_input_def)
  ultimately show ?thesis using that op_text_made by blast
qed

text \<open>Two operations of a tenant with one idempotency key are the same.\<close>

lemma rails_clean_unique:
  assumes R: "rails_clean pid R" and "clean_id t" "clean_id i" "clean_id i'"
    and "map_of (operationsByKey R) (operationStoreKey t i) = Some op" "map_of (operationsByKey R) (operationStoreKey t i') = Some op'"
    and "keyed d k op" "keyed d k op'"
  shows "i = i'"
proof -
  obtain n where n: "made_from pid n op" "ri_tenantId n = t" "map_of (idempotencyByKey R) (idem_key n) = Some (input_text n, operationStoreKey t i)"
    using rails_clean_made[OF R assms(5,2,3)] by metis
  obtain m where m: "made_from pid m op'" "ri_tenantId m = t" "map_of (idempotencyByKey R) (idem_key m) = Some (input_text m, operationStoreKey t i')"
    using rails_clean_made[OF R assms(6,2,4)] by metis
  have "idem_key n = idem_key m" using assms(7,8) made_from_ids[OF n(1)] made_from_ids[OF m(1)] n(2) m(2) by (simp add: keyed_def idem_key_def)
  then show ?thesis using n(3) m(3) op_key_inj assms(2) by auto
qed

context operation_store
begin

lemma load:
  assumes "good s" "related pid view seen s R" "clean_id t" "clean_id i"
  shows "loadOperation store pid s t i = Inr (map_option with_text (map_of (operationsByKey R) (operationStoreKey t i)))"
proof -
  have v: "view s t i = map_option with_text (map_of (operationsByKey R) (operationStoreKey t i))"
    using assms(2-4) by (simp add: related_def)
  show ?thesis
  proof (cases "map_of (operationsByKey R) (operationStoreKey t i)")
    case None
    then show ?thesis using get_law[OF assms(1,3,4)] v by (simp add: loadOperation_def ids_args_def isObjectLike_def)
  next
    case (Some op)
    then have "op_doc op" using assms(2) rails_clean_doc by (auto simp: related_def)
    then have "clone (with_text op) = Inr (with_text op)" unfolding with_text_def by (rule stored_clone)
    then show ?thesis using get_law[OF assms(1,3,4)] v Some by (simp add: loadOperation_def ids_args_def with_text_def)
  qed
qed

lemma current:
  assumes "good s" "related pid view seen s R" "clean_id t" "clean_id i"
  shows "backed_current store pid s t i = mapR with_text (memory_current R (operationStoreKey t i))"
  using load[OF assms] by (simp add: backed_current_def memory_current_def split: option.split)

text \<open>Storing a version of a created operation.\<close>

lemma put_version:
  assumes g: "good s" and rel: "related pid view seen s R" and n: "clean_input n" "made_from pid n op" "op_doc op"
    and fresh: "\<And>i o'. clean_id i \<Longrightarrow> map_of (operationsByKey R) (operationStoreKey (ri_tenantId n) i) = Some o' \<Longrightarrow>
                  keyed (ri_direction n) (ri_idempotencyKey n) o' \<Longrightarrow> i = ri_operationId n"
    and same: "\<And>o'. map_of (operationsByKey R) (op_key n) = Some o' \<Longrightarrow> op_text o' = input_text n"
    and R': "rails_clean pid R'" "operationsByKey R' = AList.update (op_key n) op (operationsByKey R)" "providerEventsByKey R' = providerEventsByKey R"
  shows "\<exists>s'. putMoneyRailOperation store s (put_args (ri_tenantId n) pid (stored op (input_text n)) (JStr (input_text n)))
      = (s', Inr (JObj [(''operation'', stored op (input_text n)), (''created'', JBool (map_of (operationsByKey R) (op_key n) = None))]))
    \<and> good s' \<and> related pid view seen s' R'"
proof -
  have c: "clean_id (ri_tenantId n)" "clean_id (ri_operationId n)" using n(1) by (simp_all add: clean_input_def)
  have v: "view s t i = map_option with_text (map_of (operationsByKey R) (operationStoreKey t i))" if "clean_id t" "clean_id i" for t i
    using rel that by (simp add: related_def)
  have doc: "op_doc o'" if "map_of (operationsByKey R) k = Some o'" for k o' using rel rails_clean_doc that by (auto simp: related_def)
  have "\<exists>s'. putMoneyRailOperation store s (put_args (ri_tenantId n) pid (stored op (input_text n)) (JStr (input_text n)))
      = (s', Inr (JObj [(''operation'', stored op (input_text n)), (''created'', JBool (view s (ri_tenantId n) (ri_operationId n) = None))]))
    \<and> good s' \<and> seen s' = seen s \<and> (\<forall>t i. clean_id t \<longrightarrow> clean_id i \<longrightarrow>
              view s' t i = (if t = ri_tenantId n \<and> i = ri_operationId n then Some (stored op (input_text n)) else view s t i))"
  proof (rule put_law[OF g n(3,1,2)])
    fix i o' assume i: "clean_id i" "view s (ri_tenantId n) i = Some o'" "keyed (ri_direction n) (ri_idempotencyKey n) o'"
    then obtain o2 where o2: "map_of (operationsByKey R) (operationStoreKey (ri_tenantId n) i) = Some o2" "o' = with_text o2"
      using v[OF c(1) i(1)] by auto
    then show "i = ri_operationId n" using fresh[OF i(1) o2(1)] i(3) doc[OF o2(1)] by (simp add: with_text_def)
  next
    fix o' assume "view s (ri_tenantId n) (ri_operationId n) = Some o'"
    then obtain o2 where o2: "map_of (operationsByKey R) (op_key n) = Some o2" "o' = with_text o2" using v[OF c] by (auto simp: op_key_def)
    then show "getp o' ''requestHash'' = JStr (input_text n)" using same[OF o2(1)] getp_stored[OF doc[OF o2(1)]] by (simp add: with_text_def)
  qed
  then obtain s' where s': "putMoneyRailOperation store s (put_args (ri_tenantId n) pid (stored op (input_text n)) (JStr (input_text n)))
      = (s', Inr (JObj [(''operation'', stored op (input_text n)), (''created'', JBool (view s (ri_tenantId n) (ri_operationId n) = None))]))"
    "good s'" "seen s' = seen s" and view': "\<And>t i. clean_id t \<Longrightarrow> clean_id i \<Longrightarrow>
       view s' t i = (if t = ri_tenantId n \<and> i = ri_operationId n then Some (stored op (input_text n)) else view s t i)"
    by blast
  have "view s' t i = map_option with_text (map_of (operationsByKey R') (operationStoreKey t i))" if "clean_id t" "clean_id i" for t i
    using that c v op_key_inj[of t "ri_tenantId n" i "ri_operationId n"] op_text_made[OF n(2,1)]
    by (auto simp: view' R'(2) update_conv' op_key_def with_text_def)
  then have "related pid view seen s' R'" using rel R' s'(3) by (simp add: related_def)
  then show ?thesis using s'(1,2) v c by (auto simp: op_key_def)
qed

lemma save:
  assumes g: "good s" and rel: "related pid view seen s R" and "clean_id t" "clean_id i"
    and op: "map_of (operationsByKey R) (operationStoreKey t i) = Some op" "op_doc op'" "progress op op'"
  shows "\<exists>s'. backed_save store pid s t (with_text op) (stored op' (op_text op)) = (s', Inr (with_text op'))
    \<and> good s' \<and> related pid view seen s' (R\<lparr>operationsByKey := AList.update (operationStoreKey t i) op' (operationsByKey R)\<rparr>)"
proof -
  have R: "rails_clean pid R" using rel by (simp add: related_def)
  obtain n where n: "clean_input n" "made_from pid n op" "ri_tenantId n = t" "ri_operationId n = i" "op_text op = input_text n"
    using rails_clean_made[OF R op(1) assms(3,4)] by metis
  have m: "made_from pid n op'" using made_from_progress[OF n(2) op(3)] .
  have key: "op_key n = operationStoreKey t i" using n(3,4) by (simp add: op_key_def)
  have k: "keyed (ri_direction n) (ri_idempotencyKey n) op" using made_from_ids[OF n(2)] by (simp add: keyed_def)
  have "\<exists>s'. putMoneyRailOperation store s (put_args (ri_tenantId n) pid (stored op' (input_text n)) (JStr (input_text n)))
      = (s', Inr (JObj [(''operation'', stored op' (input_text n)), (''created'', JBool (map_of (operationsByKey R) (op_key n) = None))]))
    \<and> good s' \<and> related pid view seen s' (R\<lparr>operationsByKey := AList.update (operationStoreKey t i) op' (operationsByKey R)\<rparr>)"
  proof (rule put_version[OF g rel n(1) m op(2)])
    fix i' o' assume "clean_id i'" "map_of (operationsByKey R) (operationStoreKey (ri_tenantId n) i') = Some o'"
      "keyed (ri_direction n) (ri_idempotencyKey n) o'"
    then show "i' = ri_operationId n" using rails_clean_unique[OF R assms(3) _ assms(4) _ op(1) _ k] n(3,4) by auto
  next
    show "rails_clean pid (R\<lparr>operationsByKey := AList.update (operationStoreKey t i) op' (operationsByKey R)\<rparr>)"
      by (rule rails_clean_update[OF R op])
  qed (use op(1) n(5) key in auto)
  moreover have "getp (with_text op) ''requestHash'' = JStr (input_text n)" using getp_stored[OF rails_clean_doc[OF R op(1)]] n(5) by (simp add: with_text_def)
  ultimately show ?thesis using n(3,5) op_text_made[OF m n(1)] by (auto simp: backed_save_def saved_operation_def with_text_def)
qed

end

section \<open>Each call is simulated\<close>

definition simulates :: "('s \<Rightarrow> bool) \<Rightarrow> ('s \<Rightarrow> rails \<Rightarrow> bool) \<Rightarrow> ('s, 'a) call \<Rightarrow> (rails, 'b) call \<Rightarrow> ('a \<Rightarrow> 'c) \<Rightarrow> ('b \<Rightarrow> 'c) \<Rightarrow> bool" where
  "simulates good rel c c' f g \<longleftrightarrow> good (fst c) \<and> rel (fst c) (fst c') \<and> mapR f (snd c) = mapR g (snd c')"

lemma simulatesI:
  assumes "c = (s', r)" "good s'" "rel s' R'" "c' = (R', r')" "mapR f r = mapR g r'"
  shows "simulates good rel c c' f g"
  using assms by (simp add: simulates_def)

lemma simulates_tryIn:
  assumes "good s" "rel s R" "m = mapR h m'" and "\<And>x. m' = Inr x \<Longrightarrow> simulates good rel (k (h x)) (k' x) f g"
  shows "simulates good rel (tryIn s m k) (tryIn R m' k') f g"
  using assms by (cases m') (simp_all add: simulates_def)

lemma mapR_id: "m = mapR (\<lambda>x. x) m"
  by (cases m) simp_all

lemma memory_current_iff: "memory_current R k = Inr op \<longleftrightarrow> map_of (operationsByKey R) k = Some op"
  by (auto simp: memory_current_def split: option.splits)

text \<open>A fresh operation with its index entry.\<close>

lemma rails_clean_new:
  assumes R: "rails_clean pid R" and N: "normalizeCreateInput now input = Inr n" and n: "clean_input n"
    and idem: "map_of (idempotencyByKey R) (idem_key n) = None" and None: "map_of (operationsByKey R) (op_key n) = None"
  shows "rails_clean pid (R\<lparr>operationsByKey := AList.update (op_key n) (JObj (buildOperationRecord pid n)) (operationsByKey R),
           idempotencyByKey := AList.update (idem_key n) (input_text n, op_key n) (idempotencyByKey R)\<rparr>)"
proof -
  let ?op = "JObj (buildOperationRecord pid n)"
  let ?R' = "R\<lparr>operationsByKey := AList.update (op_key n) ?op (operationsByKey R),
         idempotencyByKey := AList.update (idem_key n) (input_text n, op_key n) (idempotencyByKey R)\<rparr>"
  have mem: "memory_create pid now R input = (?R', Inr (?op, False))" using clean_create[OF R N n] idem None by simp
  have made: "made_from pid n ?op" by (simp add: made_from_def)
  show ?thesis unfolding rails_clean_def
  proof (intro conjI allI impI)
    show "rails_ok ?R'" using memory_create_step[of R pid now input ?R'] R mem by (simp add: rails_clean_def)
  next
    fix k op assume "map_of (operationsByKey ?R') k = Some op"
    then consider "k = op_key n" "op = ?op" | "k \<noteq> op_key n" "map_of (operationsByKey R) k = Some op"
      by (auto simp: update_conv' split: if_splits)
    then show "\<exists>n'. clean_input n' \<and> made_from pid n' op \<and> k = op_key n' \<and> map_of (idempotencyByKey ?R') (idem_key n') = Some (input_text n', k)"
    proof cases
      case 1
      then show ?thesis using n made by (intro exI[of _ n]) (simp add: update_conv')
    next
      case 2
      then obtain n' where "clean_input n' \<and> made_from pid n' op \<and> k = op_key n' \<and> map_of (idempotencyByKey R) (idem_key n') = Some (input_text n', k)"
        using R unfolding rails_clean_def by blast
      then show ?thesis using idem by (intro exI[of _ n']) (auto simp: update_conv')
    qed
  next
    fix ik h k assume a: "map_of (idempotencyByKey ?R') ik = Some (h, k)"
    show "\<exists>n' op. clean_input n' \<and> made_from pid n' op \<and> k = op_key n' \<and> ik = idem_key n' \<and> h = input_text n' \<and> map_of (operationsByKey ?R') k = Some op"
    proof (cases "ik = idem_key n")
      case True
      then have "h = input_text n" "k = op_key n" using a by (simp_all add: update_conv')
      with True show ?thesis using n made by (intro exI[of _ n] exI[of _ ?op]) (simp add: update_conv')
    next
      case False
      then have "map_of (idempotencyByKey R) ik = Some (h, k)" using a by (simp add: update_conv')
      then obtain n' op where w: "clean_input n' \<and> made_from pid n' op \<and> k = op_key n' \<and> ik = idem_key n' \<and> h = input_text n' \<and> map_of (operationsByKey R) k = Some op"
        using R unfolding rails_clean_def by blast
      then have "k \<noteq> op_key n" using None by auto
      with w show ?thesis by (intro exI[of _ n'] exI[of _ op]) (auto simp: update_conv')
    qed
  qed
qed

context operation_store
begin

abbreviation rel :: "'s \<Rightarrow> rails \<Rightarrow> bool" where
  "rel \<equiv> related pid view seen"

lemma rel_doc: "rel s R \<Longrightarrow> map_of (operationsByKey R) k = Some op \<Longrightarrow> op_doc op"
  using rails_clean_doc by (auto simp: related_def)

lemma create_step:
  assumes g: "good s" and r: "rel s R" and c: "clean_call (now, Create input)"
  shows "simulates good rel (backed_create store pid now s input) (memory_create pid now R input) id id"
proof (cases "normalizeCreateInput now input")
  case (Inl e)
  then show ?thesis using g r by (simp add: simulates_def backed_create_def memory_create_def)
next
  case N: (Inr n)
  then have n: "clean_input n" using c by simp
  have R: "rails_clean pid R" using r by (simp add: related_def)
  have ids: "clean_id (ri_tenantId n)" "clean_id (ri_operationId n)" "ri_direction n \<in> set MONEY_RAIL_DIRECTION"
    "ri_idempotencyKey n \<noteq> []" "trim (ri_idempotencyKey n) = ri_idempotencyKey n" using n by (simp_all add: clean_input_def)
  have ne: "input_text m \<noteq> []" if "clean_input m" for m using clean_text(2)[OF that] by auto
  let ?find = "findMoneyRailOperationByIdempotency store s (idem_args (ri_tenantId n) pid (ri_direction n) (ri_idempotencyKey n))"
  have B: "backed_create store pid now s input = tryIn s (backed_lookup store pid s n (input_text n))
     (\<lambda>found. case found of Some reply \<Rightarrow> (s, Inr reply) | None \<Rightarrow> backed_store_new store pid s n (input_text n))"
    by (simp add: backed_create_def N clean_text(1)[OF n])
  have v: "view s (ri_tenantId n) i = map_option with_text (map_of (operationsByKey R) (operationStoreKey (ri_tenantId n) i))" if "clean_id i" for i
    using r that ids(1) by (simp add: related_def)
  have by_key: "\<exists>m. clean_input m \<and> map_of (idempotencyByKey R) (idem_key n) = Some (input_text m, operationStoreKey (ri_tenantId n) i) \<and> op_text op = input_text m"
    if i: "clean_id i" "map_of (operationsByKey R) (operationStoreKey (ri_tenantId n) i) = Some op" "keyed (ri_direction n) (ri_idempotencyKey n) op" for i op
  proof -
    obtain m where m: "clean_input m" "made_from pid m op" "ri_tenantId m = ri_tenantId n"
      "map_of (idempotencyByKey R) (idem_key m) = Some (input_text m, operationStoreKey (ri_tenantId n) i)" "op_text op = input_text m"
      using rails_clean_made[OF R i(2) ids(1) i(1)] by metis
    moreover have "idem_key m = idem_key n" using i(3) made_from_ids[OF m(2)] m(3) by (simp add: keyed_def idem_key_def)
    ultimately show ?thesis by auto
  qed
  from find_law[OF g ids(1,3,4,5)] show ?thesis
  proof (elim disjE exE conjE)
    fix i op' assume f: "clean_id i" "view s (ri_tenantId n) i = Some op'" "keyed (ri_direction n) (ri_idempotencyKey n) op'" "?find = Inr op'"
    then obtain op where op: "map_of (operationsByKey R) (operationStoreKey (ri_tenantId n) i) = Some op" "op' = with_text op" using v by auto
    have d: "op_doc op" using rel_doc[OF r op(1)] .
    obtain m where m: "clean_input m" "map_of (idempotencyByKey R) (idem_key n) = Some (input_text m, operationStoreKey (ri_tenantId n) i)" "op_text op = input_text m"
      using by_key[OF f(1) op(1)] f(3) d op(2) by (auto simp: with_text_def)
    have "backed_lookup store pid s n (input_text n) = (if input_text m \<noteq> input_text n
        then Inl (createConflictError ''MONEY_RAIL_IDEMPOTENCY_CONFLICT'' ''idempotency key was already used with a different request'')
        else Inr (Some (op, True)))"
      using f(4) d m ne[OF m(1)] op(2) by (simp add: backed_lookup_def idem_args_def with_text_def stored_strip)
    then show ?thesis using clean_create[OF R N n] m(2) op(1) g r by (simp add: B simulates_def)
  next
    assume f: "?find = Inr JNull" "\<forall>i op. clean_id i \<longrightarrow> view s (ri_tenantId n) i = Some op \<longrightarrow> \<not> keyed (ri_direction n) (ri_idempotencyKey n) op"
    have idem: "map_of (idempotencyByKey R) (idem_key n) = None"
    proof (rule ccontr)
      assume "map_of (idempotencyByKey R) (idem_key n) \<noteq> None"
      then obtain m op where m: "clean_input m" "made_from pid m op" "idem_key n = idem_key m" "map_of (operationsByKey R) (op_key m) = Some op"
        using R unfolding rails_clean_def by fastforce
      have "ri_tenantId n = ri_tenantId m \<and> ri_direction n = ri_direction m \<and> ri_idempotencyKey n = ri_idempotencyKey m"
        using m(1,3) ids idem_key_inj[of "ri_tenantId n" "ri_tenantId m"] by (simp add: idem_key_def clean_input_def)
      moreover have "keyed (ri_direction m) (ri_idempotencyKey m) op" using made_from_ids[OF m(2)] by (simp add: keyed_def)
      ultimately show False using f(2) m(1,4) rel_doc[OF r m(4)] v[of "ri_operationId m"]
        by (auto simp: op_key_def clean_input_def with_text_def)
    qed
    have look: "backed_lookup store pid s n (input_text n) = andThen (loadOperation store pid s (ri_tenantId n) (ri_operationId n)) (\<lambda>byId.
       case byId of None \<Rightarrow> Inr None | Some existing \<Rightarrow>
         andThen (throwIf (other_request existing (input_text n))
             (createConflictError ''MONEY_RAIL_OPERATION_CONFLICT'' ''operationId already exists with a different request'')) (\<lambda>_.
           mapR (\<lambda>v. Some (v, True)) (stripInternalOperationFields existing)))"
      using f(1) by (simp add: backed_lookup_def idem_args_def)
    show ?thesis
    proof (cases "map_of (operationsByKey R) (op_key n)")
      case (Some op)
      obtain m where m: "clean_input m" "made_from pid m op" "op_text op = input_text m"
        using rails_clean_made[OF R Some[unfolded op_key_def] ids(1,2)] by metis
      have "input_text m \<noteq> input_text n" using clean_create[OF R N n] idem Some made_from_hash[OF m(2,1)] by simp
      then have "backed_lookup store pid s n (input_text n)
          = Inl (createConflictError ''MONEY_RAIL_OPERATION_CONFLICT'' ''operationId already exists with a different request'')"
        using load[OF g r ids(1,2)] Some ne[OF m(1)] m(3) rel_doc[OF r Some] by (simp add: look op_key_def with_text_def)
      then show ?thesis using clean_create[OF R N n] idem Some g r by (simp add: B simulates_def)
    next
      case None
      let ?op = "JObj (buildOperationRecord pid n)"
      let ?R' = "R\<lparr>operationsByKey := AList.update (op_key n) ?op (operationsByKey R),
             idempotencyByKey := AList.update (idem_key n) (input_text n, op_key n) (idempotencyByKey R)\<rparr>"
      have mem: "memory_create pid now R input = (?R', Inr (?op, False))" using clean_create[OF R N n] idem None by simp
      have doc: "op_doc ?op" by (rule record_doc[OF input_metadata[OF N]])
      have made: "made_from pid n ?op" by (simp add: made_from_def)
      have R': "rails_clean pid ?R'" by (rule rails_clean_new[OF R N n idem None])
      have "\<exists>s'. putMoneyRailOperation store s (put_args (ri_tenantId n) pid (stored ?op (input_text n)) (JStr (input_text n)))
          = (s', Inr (JObj [(''operation'', stored ?op (input_text n)), (''created'', JBool (map_of (operationsByKey R) (op_key n) = None))]))
        \<and> good s' \<and> rel s' ?R'"
      proof (rule put_version[OF g r n made doc])
        fix i o' assume "clean_id i" "map_of (operationsByKey R) (operationStoreKey (ri_tenantId n) i) = Some o'" "keyed (ri_direction n) (ri_idempotencyKey n) o'"
        then show "i = ri_operationId n" using by_key[of i o'] idem by auto
      qed (use None R' in simp_all)
      then obtain s' where s': "putMoneyRailOperation store s (put_args (ri_tenantId n) pid (stored ?op (input_text n)) (JStr (input_text n)))
          = (s', Inr (JObj [(''operation'', stored ?op (input_text n)), (''created'', JBool (map_of (operationsByKey R) (op_key n) = None))]))"
        "good s'" "rel s' ?R'" by blast
      have st: "JObj (buildOperationRecord pid n @ [(''requestHash'', JStr (input_text n))]) = stored ?op (input_text n)"
        by (simp add: stored_def own_props_def)
      have "backed_store_new store pid s n (input_text n) = (s', Inr (?op, False))"
        using s'(1) None stored_strip[OF doc] by (simp add: backed_store_new_def st saved_operation_def withFlag_def)
      then have "backed_create store pid now s input = (s', Inr (?op, False))"
        using load[OF g r ids(1,2)] None by (simp add: B look op_key_def)
      then show ?thesis using mem s' by (simp add: simulates_def)
    qed
  qed
qed

end

lemma mapR_comp: "mapR f (mapR g m) = mapR (\<lambda>x. f (g x)) m"
  by (cases m) simp_all

lemma json_copy_json: "json_copy v = Inr w \<Longrightarrow> w = JUndef \<or> json_value w"
proof (induction v arbitrary: w rule: json_copy.induct)
  case (9 xs)
  then obtain ys where w: "w = JArr (map (\<lambda>y. orElse y JNull) ys)" and l: "list_all2 (\<lambda>x y. json_copy x = Inr y) xs ys"
    by (auto simp: andThen_Inr_iff mapRes_Inr_iff)
  have "json_value (orElse y JNull)" if y: "y \<in> set ys" for y
  proof -
    obtain i where i: "i < length ys" "ys ! i = y" using y by (auto simp: in_set_conv_nth)
    then have "xs ! i \<in> set xs" using list_all2_lengthD[OF l] by simp
    from 9(1)[OF this list_all2_nthD2[OF l i(1)]] show ?thesis using i(2) by (auto simp: orElse_def nullish_def)
  qed
  then show ?case by (simp add: w list_all_iff)
next
  case (10 ps)
  then obtain out where w: "w = JObj (drop_undef out)"
    and l: "list_all2 (\<lambda>p q. andThen (json_copy (snd p)) (\<lambda>w. Inr (fst p, w)) = Inr q) ps out"
    by (auto simp: andThen_Inr_iff mapRes_Inr_iff)
  have "json_value (snd q)" if "q \<in> set (drop_undef out)" for q
  proof -
    have q: "q \<in> set out" "snd q \<noteq> JUndef" using that by (auto simp: drop_undef_def)
    then obtain i where i: "i < length out" "out ! i = q" by (auto simp: in_set_conv_nth)
    then have m: "ps ! i \<in> set ps" using list_all2_lengthD[OF l] by simp
    have "andThen (json_copy (snd (ps ! i))) (\<lambda>w. Inr (fst (ps ! i), w)) = Inr q"
      using list_all2_nthD2[OF l i(1)] i(2) by simp
    then have "json_copy (snd (ps ! i)) = Inr (snd q)" by (auto simp: andThen_Inr_iff)
    from 10(1)[OF m this] show ?thesis using q(2) by simp
  qed
  then show ?case by (simp add: w list_all_iff)
qed (auto split: sum.splits)

lemma clone_payload: "clone (dflt v JNull) = Inr w \<Longrightarrow> json_value w"
  using json_copy_json[of v w] by (cases v) (auto simp: clone_def dflt_def nullish_def andThen_Inr_iff split: if_splits sum.splits)

context operation_store
begin

lemma transition_saved:
  assumes g: "good s" and r: "rel s R" and c: "clean_id t" "clean_id i" and op: "map_of (operationsByKey R) (operationStoreKey t i) = Some op"
    and tr: "applyStateTransition op st ta pr rc = Inr op'"
  shows "\<exists>s'. backed_save store pid s t (with_text op) (stored op' (op_text op)) = (s', Inr (with_text op')) \<and> good s'
    \<and> rel s' (R\<lparr>operationsByKey := AList.update (operationStoreKey t i) op' (operationsByKey R)\<rparr>) \<and> op_doc op' \<and> clone op' = Inr op'"
proof -
  from applyStateTransition_doc[OF rel_doc[OF r op] tr] have d: "op_doc op'" "progress op op'" by blast+
  from save[OF g r c op d] show ?thesis using op_doc_clone[OF d(1)] d(1) by blast
qed

lemma transition_stored:
  assumes "rel s R" "map_of (operationsByKey R) k = Some op"
  shows "applyStateTransition (with_text op) st ta pr rc = mapR (\<lambda>o'. stored o' (op_text op)) (applyStateTransition op st ta pr rc)"
  using stored_transition[OF rel_doc[OF assms]] by (simp add: with_text_def)

lemma found:
  assumes "good s" "rel s R" "clean_id t" "clean_id i" "map_of (operationsByKey R) (operationStoreKey t i) = Some op"
  shows "backed_current store pid s t i = Inr (with_text op)" "memory_current R (operationStoreKey t i) = Inr op"
    "stripInternalOperationFields (with_text op) = Inr op" "clone op = Inr op" "cancel_settled (with_text op) = cancel_settled op"
  using current[OF assms(1-4)] assms(5) rel_doc[OF assms(2,5)]
  by (simp_all add: memory_current_def with_text_def stored_strip op_doc_clone)

lemma missing:
  assumes "good s" "rel s R" "clean_id t" "clean_id i" "map_of (operationsByKey R) (operationStoreKey t i) = None"
  shows "backed_current store pid s t i = Inl not_found" "memory_current R (operationStoreKey t i) = Inl not_found"
  using current[OF assms(1-4)] assms(5) by (simp_all add: memory_current_def)

lemma strip_saved: "op_doc op \<Longrightarrow> stripInternalOperationFields (with_text op) = Inr op"
  by (simp add: with_text_def stored_strip)

lemma cancel_step:
  assumes g: "good s" and r: "rel s R" and c: "clean_call (now, Cancel args)"
  shows "simulates good rel (backed_cancel store pid now s args) (memory_cancel now R args) id id"
proof (cases "call_ids args")
  case (Inr ti)
  obtain t i where ti: "ti = (t, i)" by (cases ti)
  with c Inr have cl: "clean_id t" "clean_id i" by simp_all
  let ?tr = "\<lambda>x. applyStateTransition x Cancelled (dflt (getp args ''at'') (JStr now)) JNull (dflt (getp args ''reasonCode'') (JStr ''cancelled_by_caller''))"
  show ?thesis
  proof (cases "map_of (operationsByKey R) (operationStoreKey t i)")
    case None
    then show ?thesis using missing[OF g r cl] g r by (simp add: backed_cancel_def memory_cancel_def Inr ti simulates_def)
  next
    case (Some op)
    note f = found[OF g r cl Some] and tr = transition_stored[OF r Some]
    show ?thesis
    proof (cases "cancel_settled op \<or> (\<exists>e. ?tr op = Inl e)")
      case True
      then show ?thesis using g r by (auto simp: backed_cancel_def memory_cancel_def Inr ti f tr simulates_def)
    next
      case False
      then obtain op' where op': "?tr op = Inr op'" by (cases "?tr op") auto
      from transition_saved[OF g r cl Some op'] show ?thesis using False op' strip_saved
        by (auto simp: backed_cancel_def memory_cancel_def Inr ti f tr simulates_def)
    qed
  qed
qed (use g r in \<open>simp add: backed_cancel_def memory_cancel_def simulates_def\<close>)

lemma transition_call_step:
  assumes g: "good s" and r: "rel s R" and c: "clean_call (now, Transition args)"
  shows "simulates good rel (backed_transition store pid now s args) (memory_transition now R args) id id"
proof (cases "call_ids args")
  case (Inr ti)
  obtain t i where ti: "ti = (t, i)" by (cases ti)
  with c Inr have cl: "clean_id t" "clean_id i" by simp_all
  show ?thesis
  proof (cases "map_of (operationsByKey R) (operationStoreKey t i)")
    case None
    then show ?thesis using missing[OF g r cl] g r by (simp add: backed_transition_def memory_transition_def Inr ti simulates_def)
  next
    case (Some op)
    note f = found[OF g r cl Some] and tr = transition_stored[OF r Some]
    let ?tr = "\<lambda>st. applyStateTransition op st (dflt (getp args ''at'') (JStr now)) (dflt (getp args ''providerRef'') JNull) (dflt (getp args ''reasonCode'') JNull)"
    show ?thesis
    proof (cases "\<exists>st op'. normalizeState (getp args ''state'') = Inr st \<and> ?tr st = Inr op'")
      case False
      then show ?thesis using g r by (cases "normalizeState (getp args ''state'')"; cases "?tr (projr (normalizeState (getp args ''state'')))")
        (auto simp: backed_transition_def memory_transition_def Inr ti f tr simulates_def)
    next
      case True
      then obtain st op' where op': "normalizeState (getp args ''state'') = Inr st" "?tr st = Inr op'" by blast
      from transition_saved[OF g r cl Some op'(2)] show ?thesis using op' strip_saved
        by (auto simp: backed_transition_def memory_transition_def Inr ti f tr simulates_def)
    qed
  qed
qed (use g r in \<open>simp add: backed_transition_def memory_transition_def simulates_def\<close>)

end

lemma event_key_inj:
  "clean_id t \<Longrightarrow> clean_id t' \<Longrightarrow> clean_id i \<Longrightarrow> clean_id i' \<Longrightarrow>
   event_key t i head = event_key t' i' head' \<longleftrightarrow> t = t' \<and> i = i' \<and> dedupe_key head = dedupe_key head'"
  by (auto simp: event_key_def operationStoreKey_def nl_inject clean_id_def)

lemma event_json: "json_value payload \<Longrightarrow> list_all (\<lambda>p. json_value (snd p)) extra \<Longrightarrow> json_value (JObj (event_props pid t i head extra payload))"
  by (auto simp: event_props_def opt_str_def split: prod.split option.split)

lemma op_doc_json: "op_doc op \<Longrightarrow> json_value op"
  by (auto simp: op_doc_def)

lemma stored_event_transition:
  assumes "op_doc op"
  shows "event_transition (stored op h) head args = mapR (\<lambda>(o', b). (stored o' h, b)) (event_transition op head args)"
proof -
  have s: "getp (stored op h) ''state'' = getp op ''state''" using getp_stored[OF assms] by simp
  have a: "applied" if "event_transition op head args = Inr (nx, applied)" for nx applied using event_transition_applied[OF assms that] .
  show ?thesis
  proof (cases "event_transition op head args")
    case (Inl e)
    then show ?thesis using stored_transition[OF assms] s
      by (auto simp: event_transition_def andThen_def split: prod.splits sum.splits if_splits)
  next
    case (Inr x)
    then obtain nx where "event_transition op head args = Inr (nx, True)" using a by (cases x) auto
    then show ?thesis using stored_transition[OF assms] s
      by (auto simp: event_transition_def andThen_def split: prod.splits sum.splits if_splits)
  qed
qed

context operation_store
begin

lemma rel_seen:
  "rel s R \<Longrightarrow> clean_id t \<Longrightarrow> clean_id i \<Longrightarrow> trim (dedupe_key head) = dedupe_key head \<Longrightarrow>
   seen s t i head = map_option (\<lambda>(e, o'). with_key e) (map_of (providerEventsByKey R) (event_key t i head))"
  unfolding related_def by blast

lemma with_key_event: "with_key (JObj (event_props pid t i head [] payload)) = backed_event pid t i head payload"
proof -
  obtain st ts ei where head: "head = (st, ts, ei)" by (cases head)
  show ?thesis by (cases ei) (simp_all add: head with_key_def backed_event_def event_props_def own_props_def dedupe_key_def opt_str_def orElse_def nullish_def)
qed

text \<open>Recording an event.\<close>

lemma event_saved:
  assumes g: "good s" and r: "rel s R" and c: "clean_id t" "clean_id i" and h: "trim (dedupe_key head) = dedupe_key head"
    and new: "map_of (providerEventsByKey R) (event_key t i head) = None" and p: "json_value payload" "json_value op"
  shows "\<exists>s'. putMoneyRailProviderEvent store s (JObj [(''tenantId'', JStr t), (''providerId'', JStr pid), (''operationId'', JStr i),
        (''event'', backed_event pid t i head payload)]) = (s', Inr (JObj [(''event'', backed_event pid t i head payload), (''created'', JBool True)]))
    \<and> good s' \<and> rel s' (R\<lparr>providerEventsByKey := AList.update (event_key t i head) (JObj (event_props pid t i head [] payload), op) (providerEventsByKey R)\<rparr>)"
proof -
  have "seen s t i head = None" using rel_seen[OF r c h] new by simp
  from put_event_law[OF g c h p(1) this] obtain s' where s': "putMoneyRailProviderEvent store s (JObj [(''tenantId'', JStr t), (''providerId'', JStr pid),
        (''operationId'', JStr i), (''event'', backed_event pid t i head payload)])
      = (s', Inr (JObj [(''event'', backed_event pid t i head payload), (''created'', JBool True)]))" "good s'" "view s' = view s"
    and seen': "\<And>t' i' head'. clean_id t' \<Longrightarrow> clean_id i' \<Longrightarrow> trim (dedupe_key head') = dedupe_key head' \<Longrightarrow>
       seen s' t' i' head' = (if t' = t \<and> i' = i \<and> dedupe_key head' = dedupe_key head then Some (backed_event pid t i head payload) else seen s t' i' head')"
    by blast
  have e: "json_value (JObj (event_props pid t i head [] payload))" using event_json[OF p(1)] by simp
  let ?R = "R\<lparr>providerEventsByKey := AList.update (event_key t i head) (JObj (event_props pid t i head [] payload), op) (providerEventsByKey R)\<rparr>"
  have "seen s' t' i' head' = map_option (\<lambda>(e, o'). with_key e) (map_of (providerEventsByKey ?R) (event_key t' i' head'))"
    if "clean_id t'" "clean_id i'" "trim (dedupe_key head') = dedupe_key head'" for t' i' head'
    using seen'[OF that] rel_seen[OF r that] event_key_inj[OF that(1) c(1) that(2) c(2), of head' head] by (auto simp: update_conv' with_key_event)
  moreover have "json_value e' \<and> json_value o'" if "map_of (providerEventsByKey ?R) k = Some (e', o')" for k e' o'
    using that e p(2) r unfolding related_def by (auto simp: update_conv' split: if_splits)
  ultimately have "rel s' ?R" using r s'(3) unfolding related_def by simp
  then show ?thesis using s' by blast
qed

text \<open>What an ingested event is answered with, from the reply of the in-memory adapter in state \<open>R\<close>.\<close>

definition event_answer :: "rails \<Rightarrow> jsval \<Rightarrow> event_reply res \<Rightarrow> event_reply res" where
  "event_answer R args reply = andThen reply (\<lambda>(op, applied, event).
     andThen (if applied then Inr op else memory_status R args) (\<lambda>current. Inr (current, applied, with_key event)))"

lemma ingest_step:
  assumes g: "good s" and r: "rel s R" and c: "clean_call (now, Ingest args)"
  shows "good (fst (backed_ingestProviderEvent store pid now s args))
    \<and> rel (fst (backed_ingestProviderEvent store pid now s args)) (fst (memory_ingestProviderEvent pid now R args))
    \<and> snd (backed_ingestProviderEvent store pid now s args) = event_answer R args (snd (memory_ingestProviderEvent pid now R args))"
proof (cases "call_ids args")
  case (Inr ti)
  obtain t i where ti: "ti = (t, i)" by (cases ti)
  with c Inr have cl: "clean_id t" "clean_id i" by simp_all
  note defs = backed_ingestProviderEvent_def memory_ingestProviderEvent_def Inr ti event_answer_def Let_def
  show ?thesis
  proof (cases "map_of (operationsByKey R) (operationStoreKey t i)")
    case None
    then show ?thesis using missing[OF g r cl] g r by (simp add: defs)
  next
    case (Some op)
    note f = found[OF g r cl Some]
    have d: "op_doc op" using rel_doc[OF r Some] .
    show ?thesis
    proof (cases "event_head now args")
      case (Inl e)
      then show ?thesis using g r by (simp add: defs f)
    next
      case h: (Inr head)
      then have th: "trim (dedupe_key head) = dedupe_key head" using c by simp
      note v = get_event_law[OF g cl th]
      note seen = rel_seen[OF r cl th]
      show ?thesis
      proof (cases "map_of (providerEventsByKey R) (event_key t i head)")
        case old: (Some eo)
        obtain e o' where eo: "eo = (e, o')" by (cases eo)
        then have "json_value e" "json_value o'" using r old by (auto simp: related_def)
        moreover have "loadOperation store pid s t i = Inr (Some (with_text op))" using load[OF g r cl] Some by simp
        moreover have "memory_status R args = Inr op" using Some op_doc_clone[OF d] by (simp add: memory_status_def Inr ti)
        moreover have "truthy (with_key e)" "clone (with_key e) = Inr (with_key e)" "getMoneyRailProviderEvent store s (event_args t pid i head) = Inr (with_key e)"
          using v seen old eo by simp_all
        ultimately show ?thesis using old g r strip_saved[OF d]
          by (simp add: defs f h event_key_def[symmetric] event_args_def[symmetric] eo clone_value backed_reload_def)
      next
        case new: None
        have ev: "event_transition (with_text op) head args = mapR (\<lambda>(o', b). (stored o' (op_text op), b)) (event_transition op head args)"
          using stored_event_transition[OF d] by (simp add: with_text_def)
        show ?thesis
        proof (cases "event_transition op head args")
          case (Inl e)
          then show ?thesis using g r v new seen
            by (simp add: defs f h ev event_key_def[symmetric] event_args_def[symmetric] memory_applyEvent_def)
        next
          case (Inr x)
          then obtain op' where tr: "event_transition op head args = Inr (op', True)"
            using event_transition_applied[OF d, of head args "fst x" "snd x"] by (cases x) auto
          then obtain pr rc where "applyStateTransition op (fst head) (JStr (fst (snd head))) pr rc = Inr op'"
            using event_transition_cases by blast
          from transition_saved[OF g r cl Some this] obtain s1 where s1: "backed_save store pid s t (with_text op) (stored op' (op_text op)) = (s1, Inr (with_text op'))"
            "good s1" "rel s1 (R\<lparr>operationsByKey := AList.update (operationStoreKey t i) op' (operationsByKey R)\<rparr>)" (is "rel s1 ?R1")
            and d': "op_doc op'" "clone op' = Inr op'" by blast
          note now = g r v new seen tr s1 d' strip_saved[OF d'(1)]
          show ?thesis
          proof (cases "clone (dflt (getp args ''payload'') JNull)")
            case (Inl e)
            then show ?thesis using now
              by (simp add: defs f h ev event_key_def[symmetric] event_args_def[symmetric] memory_applyEvent_def)
          next
            case p: (Inr payload)
            let ?e = "JObj (event_props pid t i head [] payload)"
            have j: "json_value payload" using clone_payload[OF p] .
            have je: "json_value ?e" "json_value (backed_event pid t i head payload)" using event_json[OF j] by (simp_all add: backed_event_def)
            have "map_of (providerEventsByKey ?R1) (event_key t i head) = None" using new by simp
            from event_saved[OF s1(2,3) cl th this j op_doc_json[OF d'(1)]] obtain s2 where
              s2: "putMoneyRailProviderEvent store s1 (JObj [(''tenantId'', JStr t), (''providerId'', JStr pid), (''operationId'', JStr i),
                (''event'', backed_event pid t i head payload)]) = (s2, Inr (JObj [(''event'', backed_event pid t i head payload), (''created'', JBool True)]))"
              "good s2" "rel s2 (?R1\<lparr>providerEventsByKey := AList.update (event_key t i head) (?e, op') (providerEventsByKey R)\<rparr>)" by auto
            have oe: "orElse (backed_event pid t i head payload) x = backed_event pid t i head payload" for x by (simp add: backed_event_def)
            show ?thesis using now p s2 clone_value[OF je(1)] clone_value[OF je(2)] oe with_key_event[of t i head payload]
              by (simp add: defs f h ev event_key_def[symmetric] event_args_def[symmetric] backed_event_def[symmetric] memory_applyEvent_def)
          qed
        qed
      qed
    qed
  qed
qed (use g r in \<open>simp add: backed_ingestProviderEvent_def memory_ingestProviderEvent_def event_answer_def\<close>)

lemma call_step:
  assumes "good s" "rel s R" "clean_call c"
  shows "good (fst (backed_call store pid s c)) \<and> rel (fst (backed_call store pid s c)) (rail_after pid R c)
    \<and> snd (backed_call store pid s c) = store_reply pid R c"
proof -
  obtain now call where c: "c = (now, call)" by (cases c)
  show ?thesis
  proof (cases call)
    case (Create x)
    have "mapR id m = m" for m :: "flagged res" by (cases m) simp_all
    then show ?thesis using create_step[OF assms(1,2), of now x] assms(3) by (auto simp: c Create simulates_def)
  next
    case (Cancel x)
    have "mapR id m = m" for m :: "flagged res" by (cases m) simp_all
    then show ?thesis using cancel_step[OF assms(1,2), of now x] assms(3) by (auto simp: c Cancel simulates_def)
  next
    case (Transition x)
    have "mapR id m = m" for m :: "jsval res" by (cases m) simp_all
    then show ?thesis using transition_call_step[OF assms(1,2), of now x] assms(3) by (auto simp: c Transition simulates_def)
  next
    case (Ingest x)
    have m: "mapR (\<lambda>(op, b, event). (op, b, Some event)) (event_answer R x m) =
        andThen (mapR (\<lambda>(op, b, event). (op, b, Some event)) m) (\<lambda>(op, applied, event).
          andThen (if applied then Inr op else memory_status R x) (\<lambda>current. Inr (current, applied, map_option with_key event)))" for m
      by (cases m; cases "memory_status R x") (auto simp: event_answer_def split: prod.split)
    show ?thesis using ingest_step[OF assms(1,2), of now x] assms(3) by (simp add: c Ingest m)
  qed
qed

theorem replies_agree:
  assumes "good s" "rel s R" "\<forall>c \<in> set calls. clean_call c"
  shows "backed_replies store pid s calls = store_replies pid R calls"
  using assms
proof (induction calls arbitrary: s R)
  case (Cons c cs)
  then show ?case using call_step[of s R c] by simp
qed simp

end

section \<open>The in-memory store meets the contract\<close>

definition mem_key :: "string \<Rightarrow> string \<Rightarrow> string \<Rightarrow> string" where
  "mem_key t p i = t @ CHR 0x0A # p @ CHR 0x0A # i"

definition mem_event_key :: "string \<Rightarrow> string \<Rightarrow> string \<Rightarrow> op_state \<times> string \<times> string option \<Rightarrow> string" where
  "mem_event_key t p i head = t @ CHR 0x0A # p @ CHR 0x0A # i @ CHR 0x0A # state_name (fst head) @ CHR 0x0A # dedupe_key head"

definition mem_good :: "mem_store \<Rightarrow> bool" where
  "mem_good s \<longleftrightarrow> (\<forall>(k, doc) \<in> set (moneyRailOperations s). \<exists>n p op. clean_input n \<and> clean_id p \<and> made_from p n op \<and> op_doc op
       \<and> doc = stored op (input_text n) \<and> k = mem_key (ri_tenantId n) p (ri_operationId n))
     \<and> distinct (map fst (moneyRailOperations s))
     \<and> (\<forall>(k, e) \<in> set (moneyRailProviderEvents s). json_value e \<and> isObjectLike e)"

definition mem_view :: "string \<Rightarrow> mem_store \<Rightarrow> string \<Rightarrow> string \<Rightarrow> jsval option" where
  "mem_view pid s t i = map_of (moneyRailOperations s) (mem_key t pid i)"

definition mem_seen :: "string \<Rightarrow> mem_store \<Rightarrow> string \<Rightarrow> string \<Rightarrow> op_state \<times> string \<times> string option \<Rightarrow> jsval option" where
  "mem_seen pid s t i head = map_of (moneyRailProviderEvents s) (mem_event_key t pid i head)"

definition empty_mem :: mem_store where
  "empty_mem = \<lparr>moneyRailOperations = [], moneyRailProviderEvents = []\<rparr>"

lemma mem_key_inj: "clean_id t \<Longrightarrow> clean_id t' \<Longrightarrow> clean_id p \<Longrightarrow> clean_id p' \<Longrightarrow> mem_key t p i = mem_key t' p' i' \<longleftrightarrow> t = t' \<and> p = p' \<and> i = i'"
  by (auto simp: mem_key_def nl_inject clean_id_def)

lemma state_name_clean: "CHR 0x0A \<notin> set (state_name st)" "trim (state_name st) = state_name st" "state_name st \<noteq> []"
  by (induct st; code_simp)+

lemma dedupe_head: "dedupe_key head = dedupe_key head' \<Longrightarrow> fst head = fst head'"
  using nl_inject state_name_clean(1) by (auto simp: dedupe_key_def split: prod.splits)

lemma mem_event_key_inj:
  "clean_id t \<Longrightarrow> clean_id t' \<Longrightarrow> clean_id p \<Longrightarrow> clean_id i \<Longrightarrow> clean_id i' \<Longrightarrow>
   mem_event_key t p i head = mem_event_key t' p i' head' \<longleftrightarrow> t = t' \<and> i = i' \<and> dedupe_key head = dedupe_key head'"
  using dedupe_head[of head head'] by (auto simp: mem_event_key_def nl_inject clean_id_def state_name_clean)

lemma normalizeTenantId_clean [simp]: "clean_id t \<Longrightarrow> normalizeTenantId (JStr t) = Inr t"
  by (simp add: normalizeTenantId_def clean_id_def nullish_def assertNonEmptyString_def assertNoNewlines_def Let_def)

lemma requireText_clean [simp]: "clean_id t \<Longrightarrow> requireText (JStr t) name = Inr t"
  by (simp add: requireText_def clean_id_def)

lemma requireText_trimmed: "trim t = t \<Longrightarrow> t \<noteq> [] \<Longrightarrow> requireText (JStr t) name = Inr t"
  by (simp add: requireText_def)

lemma operationStoreKey_clean: "clean_id t \<Longrightarrow> clean_id p \<Longrightarrow> clean_id i \<Longrightarrow> moneyRailOperationStoreKey (JStr t) (JStr p) (JStr i) = Inr (mem_key t p i)"
  by (simp add: moneyRailOperationStoreKey_def mem_key_def)

lemma eventStoreKey_clean:
  assumes "clean_id t" "clean_id p" "clean_id i" "trim (dedupe_key head) = dedupe_key head"
  shows "moneyRailProviderEventStoreKey (JStr t) (JStr p) (JStr i) (JStr (state_name (fst head))) (JStr (dedupe_key head)) = Inr (mem_event_key t p i head)"
proof -
  have "dedupe_key head \<noteq> []" by (simp add: dedupe_key_def split: prod.split)
  then show ?thesis using assms state_name_clean by (simp add: moneyRailProviderEventStoreKey_def mem_event_key_def requireText_trimmed)
qed

lemma find_first_pure: "\<forall>x \<in> set xs. p x = Inr (q x) \<Longrightarrow> find_first p xs = Inr (List.find q xs)"
  by (induction xs) auto

lemma foldRes_unit: "\<forall>x \<in> set xs. f () x = Inr () \<Longrightarrow> foldRes f () xs = Inr ()"
  by (induction xs) auto

lemma spread_same:
  "distinct (map fst ps) \<Longrightarrow> \<forall>(k, v) \<in> set qs. k \<in> fst ` set ps \<and> getp (JObj ps) k = v \<Longrightarrow> spread ps qs = ps"
proof (induction qs)
  case (Cons q qs)
  obtain k v where q: "q = (k, v)" by (cases q)
  with Cons.prems have "k \<in> fst ` set ps" "getp (JObj ps) k = v" by simp_all
  then have "put_prop (fst q) (snd q) ps = ps" using put_same[OF Cons.prems(1)] by (simp add: q)
  then show ?case using Cons by (simp add: spread_def case_prod_unfold)
qed (simp add: spread_def)

lemma set_update_subset: "set (AList.update k v xs) \<subseteq> insert (k, v) (set xs)"
  by (induction xs) auto

lemma mem_doc:
  assumes "mem_good s" "doc \<in> set (map snd (moneyRailOperations s))" "clean_id t" "clean_id pid" "d \<in> set MONEY_RAIL_DIRECTION"
  obtains i op h b where "clean_id i" "op_doc op" "doc = stored op h" "field_text doc ''operationId'' = i" "same_idempotency t pid d k doc = Inr b"
    "b \<Longrightarrow> mem_view pid s t i = Some doc \<and> keyed d k doc" "\<And>i'. mem_view pid s t i' = Some doc \<Longrightarrow> keyed d k doc \<Longrightarrow> b"
proof -
  from assms(2) obtain key where key: "(key, doc) \<in> set (moneyRailOperations s)" by auto
  then obtain n p op where n: "clean_input n" "clean_id p" "made_from p n op" "op_doc op" "doc = stored op (input_text n)"
    "key = mem_key (ri_tenantId n) p (ri_operationId n)" using assms(1) unfolding mem_good_def by blast
  have m: "map_of (moneyRailOperations s) key = Some doc" using key assms(1) by (intro map_of_is_SomeI) (simp_all add: mem_good_def)
  have ids: "clean_id (ri_tenantId n)" "clean_id (ri_operationId n)" using n(1) by (simp_all add: clean_input_def)
  have dir: "toLowerCase (ri_direction n) = ri_direction n" using n(1) direction_facts by (simp add: clean_input_def)
  note g = getp_stored[OF n(4)] made_from_ids[OF n(3)]
  have b: "same_idempotency t pid d k doc = Inr (ri_tenantId n = t \<and> p = pid \<and> ri_direction n = d \<and> ri_idempotencyKey n = k)"
    using ids n(5) dir by (simp add: same_idempotency_def in_tenant_def field_text_def g)
  have origin: "ri_tenantId n = t \<and> p = pid" if v: "mem_view pid s t j = Some doc" for j
  proof -
    from map_of_SomeD[OF v[unfolded mem_view_def]] obtain n' p' op' where n': "clean_input n'" "clean_id p'" "made_from p' n' op'" "op_doc op'"
      "doc = stored op' (input_text n')" "mem_key t pid j = mem_key (ri_tenantId n') p' (ri_operationId n')"
      using assms(1) unfolding mem_good_def by blast
    have "getp doc ''tenantId'' = JStr (ri_tenantId n')" "getp doc ''providerId'' = JStr p'"
      using n'(5) getp_stored[OF n'(4)] made_from_ids[OF n'(3)] by simp_all
    moreover have "t = ri_tenantId n' \<and> pid = p'" using n'(1,2,6) mem_key_inj assms(3,4) by (simp add: clean_input_def)
    ultimately show ?thesis using n(5) g by simp
  qed
  show ?thesis
  proof (rule that[OF ids(2) n(4,5) _ b])
    show "field_text doc ''operationId'' = ri_operationId n" using n(5) g by (simp add: field_text_def)
    show "mem_view pid s t (ri_operationId n) = Some doc \<and> keyed d k doc"
      if "ri_tenantId n = t \<and> p = pid \<and> ri_direction n = d \<and> ri_idempotencyKey n = k"
      using that m n(5,6) g by (auto simp: mem_view_def keyed_def)
    show "ri_tenantId n = t \<and> p = pid \<and> ri_direction n = d \<and> ri_idempotencyKey n = k"
      if "mem_view pid s t i' = Some doc" "keyed d k doc" for i'
      using origin[OF that(1)] that(2) n(5) g by (simp add: keyed_def)
  qed
qed

lemma mem_find_law:
  assumes g: "mem_good s" and c: "clean_id pid" "clean_id t" "d \<in> set MONEY_RAIL_DIRECTION" "k \<noteq> []" "trim k = k"
  shows "(mem_findByIdempotency s (idem_args t pid d k) = Inr JNull \<and> (\<forall>i op. clean_id i \<longrightarrow> mem_view pid s t i = Some op \<longrightarrow> \<not> keyed d k op))
      \<or> (\<exists>i op. clean_id i \<and> mem_view pid s t i = Some op \<and> keyed d k op \<and> mem_findByIdempotency s (idem_args t pid d k) = Inr op)"
proof -
  let ?p = "same_idempotency t pid d k" and ?xs = "map snd (moneyRailOperations s)"
  let ?q = "\<lambda>doc. projr (?p doc)"
  have p: "\<forall>doc \<in> set ?xs. ?p doc = Inr (?q doc)" using mem_doc[OF g _ c(2,1,3)] by (metis sum.sel(2))
  have f: "mem_findByIdempotency s (idem_args t pid d k) = Inr (case List.find ?q ?xs of None \<Rightarrow> JNull | Some op \<Rightarrow> op)"
    using c find_first_pure[OF p] direction_facts[OF c(3)]
    by (simp add: mem_findByIdempotency_def idem_args_def requireText_trimmed)
  show ?thesis
  proof (cases "List.find ?q ?xs")
    case None
    have "\<not> keyed d k op" if i: "mem_view pid s t i = Some op" for i op
    proof
      assume "keyed d k op"
      have "op \<in> set ?xs" using map_of_SomeD[OF i[unfolded mem_view_def]] by force
      obtain b where b: "?p op = Inr b" "mem_view pid s t i = Some op \<Longrightarrow> keyed d k op \<Longrightarrow> b"
        using mem_doc[OF g \<open>op \<in> set ?xs\<close> c(2,1,3), of k] by metis
      then show False using None i \<open>keyed d k op\<close> \<open>op \<in> set ?xs\<close> by (auto simp: find_None_iff)
    qed
    then show ?thesis using f None by simp
  next
    case (Some op)
    then have op: "op \<in> set ?xs" "?q op" by (auto simp: find_Some_iff)
    obtain i where "clean_id i" "mem_view pid s t i = Some op" "keyed d k op"
      using mem_doc[OF g op(1) c(2,1,3), of k] op(2) by (metis sum.sel(2))
    then show ?thesis using f Some by auto
  qed
qed

lemma mem_get_law:
  assumes "mem_good s" "clean_id pid" "clean_id t" "clean_id i"
  shows "mem_getOperation s (ids_args t pid i) = Inr (case mem_view pid s t i of None \<Rightarrow> JNull | Some op \<Rightarrow> op)"
  using operationStoreKey_clean[OF assms(3,2,4)] by (simp add: mem_getOperation_def ids_args_def dflt_def mem_view_def get_or_null_def)

lemma mem_put_law:
  assumes g: "mem_good s" and pid: "clean_id pid" and op: "op_doc op" and n: "clean_input n" and made: "made_from pid n op"
    and fresh: "\<And>i o'. clean_id i \<Longrightarrow> mem_view pid s (ri_tenantId n) i = Some o' \<Longrightarrow> keyed (ri_direction n) (ri_idempotencyKey n) o' \<Longrightarrow> i = ri_operationId n"
    and same: "\<And>o'. mem_view pid s (ri_tenantId n) (ri_operationId n) = Some o' \<Longrightarrow> getp o' ''requestHash'' = JStr (input_text n)"
  shows "\<exists>s'. mem_putOperation s (put_args (ri_tenantId n) pid (stored op (input_text n)) (JStr (input_text n)))
            = (s', Inr (JObj [(''operation'', stored op (input_text n)), (''created'', JBool (mem_view pid s (ri_tenantId n) (ri_operationId n) = None))]))
         \<and> mem_good s' \<and> mem_seen pid s' = mem_seen pid s
         \<and> (\<forall>t i. clean_id t \<longrightarrow> clean_id i \<longrightarrow>
              mem_view pid s' t i = (if t = ri_tenantId n \<and> i = ri_operationId n then Some (stored op (input_text n)) else mem_view pid s t i))"
proof -
  let ?t = "ri_tenantId n" and ?i = "ri_operationId n" and ?h = "input_text n"
  let ?doc = "stored op ?h" and ?k = "mem_key (ri_tenantId n) pid (ri_operationId n)"
  have ids: "clean_id ?t" "clean_id ?i" "ri_direction n \<in> set MONEY_RAIL_DIRECTION" "ri_idempotencyKey n \<noteq> []" "trim (ri_idempotencyKey n) = ri_idempotencyKey n"
    using n by (simp_all add: clean_input_def)
  note gp = getp_stored[OF op] made_from_ids[OF made]
  have h: "?h \<noteq> []" "hash_text (JStr ?h) = Some ?h"
  proof -
    obtain cs where "?h = CHR ''{'' # cs" using clean_text(2)[OF n] by blast
    moreover have "\<not> is_ws (CHR ''{'')" by (simp add: is_ws_def)
    ultimately show "?h \<noteq> []" "hash_text (JStr ?h) = Some ?h"
      by (auto simp: hash_text_def trim_def dropWhile_append3 split: if_splits)
  qed
  have conflict: "foldRes (key_conflict ?t pid (ri_direction n) (ri_idempotencyKey n) ?i) () (map snd (moneyRailOperations s)) = Inr ()"
  proof (rule foldRes_unit, intro ballI)
    fix doc assume "doc \<in> set (map snd (moneyRailOperations s))"
    then obtain i b where "clean_id i" "field_text doc ''operationId'' = i" "same_idempotency ?t pid (ri_direction n) (ri_idempotencyKey n) doc = Inr b"
      "b \<Longrightarrow> mem_view pid s ?t i = Some doc \<and> keyed (ri_direction n) (ri_idempotencyKey n) doc"
      using mem_doc[OF g _ ids(1) pid ids(3), of doc "ri_idempotencyKey n"] by metis
    then show "key_conflict ?t pid (ri_direction n) (ri_idempotencyKey n) ?i () doc = Inr ()"
      using fresh[of i doc] by (auto simp: key_conflict_def throwIf_def)
  qed
  obtain ps where ps: "op = JObj ps" "map fst ps = OP_KEYS" using op_doc_props[OF op] by blast
  have f: "fst ` set ps = set OP_KEYS" using ps(2) by (metis list.set_map)
  have stp: "stored_props ?doc ?t pid ?i (ri_direction n) (ri_idempotencyKey n) (JStr ?h) e = ps @ [(''requestHash'', JStr ?h)]" for e
  proof -
    have "own_props ?doc = ps @ [(''requestHash'', JStr ?h)]" "JObj (ps @ [(''requestHash'', JStr ?h)]) = ?doc" by (simp_all add: stored_def ps own_props_def)
    moreover have "distinct (map fst (ps @ [(''requestHash'', JStr ?h)]))" using OP_KEYS_distinct ps(2) f requestHash_fresh by simp
    ultimately show ?thesis unfolding stored_props_def
      using h(2) gp f by (simp add: spread_same opt_str_def) (rule spread_same, simp_all add: OP_KEYS_simp)
  qed
  have old: "get_or_null (moneyRailOperations s) ?k = (case mem_view pid s ?t ?i of None \<Rightarrow> JNull | Some o' \<Rightarrow> o')"
    by (simp add: mem_view_def get_or_null_def)
  have tru: "truthy o'" if "mem_view pid s ?t ?i = Some o'" for o'
  proof -
    have "(?k, o') \<in> set (moneyRailOperations s)" using map_of_SomeD that by (simp add: mem_view_def)
    then show ?thesis using g by (fastforce simp: mem_good_def)
  qed
  let ?s' = "s\<lparr>moneyRailOperations := AList.update ?k ?doc (moneyRailOperations s)\<rparr>"
  have put: "mem_putOperation s (put_args ?t pid ?doc (JStr ?h)) = (?s', Inr (JObj [(''operation'', ?doc), (''created'', JBool (mem_view pid s ?t ?i = None))]))"
  proof -
    have "orElse (JStr x) y = JStr x" for x y by simp
    then show ?thesis
      using pid ids direction_facts[OF ids(3)] gp conflict stp[of JNull] stp same tru h old
        operationStoreKey_clean[OF ids(1) pid ids(2)]
      by (cases "mem_view pid s ?t ?i")
        (simp_all add: mem_putOperation_def put_args_def requireText_trimmed dflt_def Let_def, simp_all add: stored_def ps own_props_def)
  qed
  have "mem_good ?s'" unfolding mem_good_def
  proof (intro conjI)
    have "\<exists>n p op. clean_input n \<and> clean_id p \<and> made_from p n op \<and> op_doc op \<and> doc = stored op (input_text n)
       \<and> k = mem_key (ri_tenantId n) p (ri_operationId n)" if x: "(k, doc) \<in> set (moneyRailOperations ?s')" for k doc
    proof -
      have "(k, doc) = (?k, ?doc) \<or> (k, doc) \<in> set (moneyRailOperations s)"
        using x set_update_subset by fastforce
      then show ?thesis
      proof
        assume "(k, doc) = (?k, ?doc)"
        then show ?thesis using n pid made op by blast
      next
        assume "(k, doc) \<in> set (moneyRailOperations s)"
        then show ?thesis using g unfolding mem_good_def by blast
      qed
    qed
    then show "\<forall>(k, doc) \<in> set (moneyRailOperations ?s'). \<exists>n p op. clean_input n \<and> clean_id p \<and> made_from p n op \<and> op_doc op
       \<and> doc = stored op (input_text n) \<and> k = mem_key (ri_tenantId n) p (ri_operationId n)" by blast
  qed (use g in \<open>simp_all add: mem_good_def distinct_update\<close>)
  moreover have "mem_view pid ?s' t i = (if t = ?t \<and> i = ?i then Some ?doc else mem_view pid s t i)" if "clean_id t" for t i
    using mem_key_inj[OF that ids(1) pid pid] by (auto simp: mem_view_def update_conv')
  moreover have "mem_seen pid ?s' = mem_seen pid s" by (simp add: mem_seen_def fun_eq_iff)
  ultimately show ?thesis using put by blast
qed

lemma mem_get_event_law:
  assumes "mem_good s" "clean_id pid" "clean_id t" "clean_id i" "trim (dedupe_key head) = dedupe_key head"
  shows "mem_getEvent s (event_args t pid i head) = Inr (case mem_seen pid s t i head of None \<Rightarrow> JNull | Some e \<Rightarrow> e)
    \<and> (\<forall>e. mem_seen pid s t i head = Some e \<longrightarrow> truthy e \<and> clone e = Inr e)"
proof -
  let ?v = "get_or_null (moneyRailProviderEvents s) (mem_event_key t pid i head)"
  have "mem_getEvent s (event_args t pid i head) = Inr ?v"
    using eventStoreKey_clean[OF assms(3,2,4,5)] by (simp add: mem_getEvent_def event_args_def)
  moreover have "truthy e \<and> clone e = Inr e" if "map_of (moneyRailProviderEvents s) (mem_event_key t pid i head) = Some e" for e
  proof -
    have "json_value e" "isObjectLike e" using map_of_SomeD[OF that] assms(1) by (auto simp: mem_good_def)
    then show ?thesis using clone_value by (cases e) (auto simp: isObjectLike_def)
  qed
  ultimately show ?thesis by (simp add: mem_seen_def get_or_null_def)
qed

lemma backed_event_keep:
  "spread (own_props (backed_event pid t i head payload))
     [(''tenantId'', JStr t), (''providerId'', JStr pid), (''operationId'', JStr i), (''eventType'', JStr (state_name (fst head))),
      (''eventDedupeKey'', JStr (dedupe_key head))] = own_props (backed_event pid t i head payload)"
  by (rule spread_same) (auto simp: backed_event_def own_props_def event_props_def split: prod.split)

lemma mem_put_event_law:
  assumes g: "mem_good s" and c: "clean_id pid" "clean_id t" "clean_id i" and h: "trim (dedupe_key head) = dedupe_key head"
    and p: "json_value payload" and new: "mem_seen pid s t i head = None"
  shows "\<exists>s'. mem_putEvent s (JObj [(''tenantId'', JStr t), (''providerId'', JStr pid), (''operationId'', JStr i), (''event'', backed_event pid t i head payload)])
            = (s', Inr (JObj [(''event'', backed_event pid t i head payload), (''created'', JBool True)]))
         \<and> mem_good s' \<and> mem_view pid s' = mem_view pid s
         \<and> (\<forall>t' i' head'. clean_id t' \<longrightarrow> clean_id i' \<longrightarrow> trim (dedupe_key head') = dedupe_key head' \<longrightarrow>
              mem_seen pid s' t' i' head' = (if t' = t \<and> i' = i \<and> dedupe_key head' = dedupe_key head then Some (backed_event pid t i head payload)
                else mem_seen pid s t' i' head'))"
proof -
  let ?e = "backed_event pid t i head payload" and ?k = "mem_event_key t pid i head"
  let ?s' = "s\<lparr>moneyRailProviderEvents := AList.update ?k ?e (moneyRailProviderEvents s)\<rparr>"
  have e: "isObjectLike ?e" "getp ?e ''eventType'' = JStr (state_name (fst head))" "getp ?e ''eventDedupeKey'' = JStr (dedupe_key head)"
    by (auto simp: backed_event_def event_props_def isObjectLike_def split: prod.split)
  have lower: "requireText (JStr (state_name (fst head))) nm = Inr (state_name (fst head))" for nm
    using state_name_clean by (simp add: requireText_trimmed)
  have "dedupe_key head \<noteq> []" by (simp add: dedupe_key_def split: prod.split)
  then have key: "requireText (JStr (dedupe_key head)) nm = Inr (dedupe_key head)" for nm using h by (simp add: requireText_trimmed)
  have o: "JObj (own_props ?e) = ?e" by (simp add: backed_event_def own_props_def)
  have "mem_putEvent s (JObj [(''tenantId'', JStr t), (''providerId'', JStr pid), (''operationId'', JStr i), (''event'', ?e)])
      = (?s', Inr (JObj [(''event'', ?e), (''created'', JBool True)]))"
    using c e lower key eventStoreKey_clean[OF c(2,1,3) h] new backed_event_keep[of pid t i head payload] o
    by (simp add: mem_putEvent_def mem_seen_def get_or_null_def Let_def)
  moreover have "mem_good ?s'"
  proof -
    have "json_value ?e" using event_json[OF p] by (simp add: backed_event_def)
    then show ?thesis using g e(1) set_update_subset[of ?k ?e "moneyRailProviderEvents s"] unfolding mem_good_def by auto
  qed
  moreover have "mem_view pid ?s' = mem_view pid s" by (simp add: mem_view_def fun_eq_iff)
  moreover have "mem_seen pid ?s' t' i' head' = (if t' = t \<and> i' = i \<and> dedupe_key head' = dedupe_key head then Some ?e else mem_seen pid s t' i' head')"
    if "clean_id t'" "clean_id i'" for t' i' head'
    using mem_event_key_inj[OF c(2) that(1) c(1,3) that(2), of head head'] by (auto simp: mem_seen_def update_conv')
  ultimately show ?thesis by blast
qed

text \<open>The provider ids of the code are constants; \<open>stub_memory\<close> is the default of both adapters.\<close>

lemma memory_store_law: "clean_id pid \<Longrightarrow> operation_store (memory_store lsort) pid mem_good (mem_view pid) (mem_seen pid)"
  by (unfold_locales; unfold memory_store_def rail_store.select_convs;
      (rule mem_get_law mem_find_law mem_put_law mem_get_event_law mem_put_event_law; assumption))

lemma stub_memory_clean: "clean_id ''stub_memory''"
  unfolding clean_id_def by (intro conjI) (simp_all, code_simp)

interpretation mem: operation_store "memory_store lsort" "''stub_memory''" mem_good "mem_view ''stub_memory''" "mem_seen ''stub_memory''" for lsort
  by (rule memory_store_law[OF stub_memory_clean])

lemma empty_related: "related pid (mem_view pid) (mem_seen pid) empty_mem empty_rails"
  by (simp add: related_def rails_clean_def rails_ok_def empty_rails_def empty_mem_def mem_view_def mem_seen_def)

lemma empty_good: "mem_good empty_mem"
  by (simp add: mem_good_def empty_mem_def)

section \<open>Listings\<close>

definition permutes :: "('a list \<Rightarrow> 'a list) \<Rightarrow> bool" where
  "permutes lsort \<longleftrightarrow> (\<forall>xs. mset (lsort xs) = mset xs)"

definition tenant_args :: "string \<Rightarrow> jsval" where
  "tenant_args t = JObj [(''tenantId'', JStr t)]"

lemma rail_distinct:
  assumes "distinct (map fst (operationsByKey R))"
  shows "distinct (map fst (operationsByKey (rail_after pid R c)))"
proof (cases c)
  case (Pair now call)
  show ?thesis
    by (cases call) (use assms in \<open>auto simp: Pair memory_create_def memory_cancel_def memory_transition_def memory_ingestProviderEvent_def
      memory_applyEvent_def Let_def tryIn_def distinct_update split: sum.splits option.splits prod.splits if_splits\<close>)
qed

lemma run_distinct: "distinct (map fst (operationsByKey R)) \<Longrightarrow> distinct (map fst (operationsByKey (rails_run pid R calls)))"
  by (induction calls arbitrary: R) (simp_all add: rails_run_def rail_distinct)

lemma distinct_values:
  assumes "distinct (map fst xs)" and "\<And>k k' v. (k, v) \<in> set xs \<Longrightarrow> (k', v) \<in> set xs \<Longrightarrow> k = k'"
  shows "distinct (map snd xs)"
  using assms by (auto simp: distinct_map inj_on_def)

lemma op_key_of: "made_from pid n op \<Longrightarrow> made_from pid' m op \<Longrightarrow> op_key n = op_key m"
  using made_from_ids[of pid n op] made_from_ids[of pid' m op] by (simp add: op_key_def)

lemma memory_rows:
  assumes R: "rails_clean pid R" and d: "distinct (map fst (operationsByKey R))" and t: "clean_id t"
  obtains rows where "memory_listOperations lsort R (tenant_args t) = Inr (lsort rows)" "distinct rows"
    "set rows = {op. \<exists>i. clean_id i \<and> map_of (operationsByKey R) (operationStoreKey t i) = Some op}"
proof -
  define here where "here op \<longleftrightarrow> is_object op \<and> js_String (orElse (getp op ''tenantId'') (JStr [])) = trim t" for op
  let ?rows = "filter here (map snd (operationsByKey R))"
  have made: "\<exists>n. clean_input n \<and> made_from pid n op \<and> k = op_key n \<and> op_doc op \<and> map_of (operationsByKey R) k = Some op"
    if "(k, op) \<in> set (operationsByKey R)" for k op
    using map_of_is_SomeI[OF d that] R rails_clean_doc[OF R] unfolding rails_clean_def by blast
  have doc: "op_doc op" if "op \<in> set ?rows" for op using that by (auto dest!: made)
  have e: "here = (\<lambda>op. is_object op \<and> js_String (orElse (getp op ''tenantId'') (JStr [])) = t)"
    using t by (simp add: here_def clean_id_def fun_eq_iff)
  have "mapRes clone ?rows = Inr (map (\<lambda>x. x) ?rows)" using doc op_doc_clone by (intro mapRes_pure) blast
  then have l: "memory_listOperations lsort R (tenant_args t) = Inr (lsort ?rows)"
    using t unfolding e by (simp add: memory_listOperations_def tenant_args_def assertNonEmptyString_def clean_id_def)
  have dist: "distinct ?rows"
    by (intro distinct_filter distinct_values[OF d]) (metis made op_key_of)
  have obj: "is_object op" if "op_doc op" for op using op_doc_props[OF that] by auto
  have "set ?rows = {op. \<exists>i. clean_id i \<and> map_of (operationsByKey R) (operationStoreKey t i) = Some op}"
  proof (intro set_eqI iffI)
    fix op assume "op \<in> set ?rows"
    then obtain k where k: "(k, op) \<in> set (operationsByKey R)" "here op" by auto
    then obtain n where n: "clean_input n" "made_from pid n op" "k = op_key n" "map_of (operationsByKey R) k = Some op" using made by blast
    have "ri_tenantId n = t" using k(2) made_from_ids[OF n(2)] t by (simp add: here_def clean_id_def)
    then show "op \<in> {op. \<exists>i. clean_id i \<and> map_of (operationsByKey R) (operationStoreKey t i) = Some op}"
      using n by (auto simp: op_key_def clean_input_def)
  next
    fix op assume "op \<in> {op. \<exists>i. clean_id i \<and> map_of (operationsByKey R) (operationStoreKey t i) = Some op}"
    then obtain i where i: "clean_id i" "map_of (operationsByKey R) (operationStoreKey t i) = Some op" by blast
    obtain n where "made_from pid n op" "ri_tenantId n = t" using rails_clean_made[OF R i(2) t i(1)] by metis
    then have "here op" using made_from_ids[of pid n op] t obj[OF rails_clean_doc[OF R i(2)]] by (simp add: here_def clean_id_def)
    then show "op \<in> set ?rows" using map_of_SomeD[OF i(2)] by force
  qed
  then show ?thesis using that l dist by blast
qed

lemma filterRes_pure: "\<forall>x \<in> set xs. p x = Inr (q x) \<Longrightarrow> filterRes p xs = Inr (filter q xs)"
  by (induction xs) auto

lemma store_rows:
  assumes g: "mem_good s" and c: "clean_id pid" "clean_id t"
  obtains rows where "mem_listOperations lsort s (JObj [(''tenantId'', JStr t), (''providerId'', JStr pid)]) = Inr (take 200 (lsort rows))" "distinct rows"
    "set rows = {doc. \<exists>i. clean_id i \<and> mem_view pid s t i = Some doc}"
proof -
  have dk: "distinct (map fst (moneyRailOperations s))" using g by (simp add: mem_good_def)
  have made: "\<exists>n p op. clean_input n \<and> clean_id p \<and> made_from p n op \<and> op_doc op \<and> doc = stored op (input_text n)
      \<and> k = mem_key (ri_tenantId n) p (ri_operationId n)" if "(k, doc) \<in> set (moneyRailOperations s)" for k doc
    using that g unfolding mem_good_def by blast
  define here where "here doc \<longleftrightarrow> getp doc ''tenantId'' = JStr t \<and> getp doc ''providerId'' = JStr pid" for doc
  let ?rows = "filter here (map snd (moneyRailOperations s))"
  let ?p = "\<lambda>op. mapR (\<lambda>b. b \<and> pid = field_text op ''providerId'') (in_tenant t op)"
  have p: "?p doc = Inr (here doc)" if "doc \<in> set (map snd (moneyRailOperations s))" for doc
  proof -
    from that obtain k where "(k, doc) \<in> set (moneyRailOperations s)" by auto
    from made[OF this] obtain n p op where n: "clean_input n" "made_from p n op" "op_doc op" "doc = stored op (input_text n)" by blast
    have "clean_id (ri_tenantId n)" using n(1) by (simp add: clean_input_def)
    then show ?thesis using n(4) getp_stored[OF n(3)] made_from_ids[OF n(2)]
      by (auto simp: in_tenant_def field_text_def here_def)
  qed
  have "filterRes ?p (map snd (moneyRailOperations s)) = Inr ?rows" using p by (intro filterRes_pure) blast
  moreover have "safe_int_of (JInt 200) = Some 200" "safe_int_of (JInt 0) = Some 0" by code_simp+
  ultimately have l: "mem_listOperations lsort s (JObj [(''tenantId'', JStr t), (''providerId'', JStr pid)]) = Inr (take 200 (lsort ?rows))"
    using c by (simp add: mem_listOperations_def optText_def dflt_def)
  have key: "k = mem_key t' p' i'" if "(k, doc) \<in> set (moneyRailOperations s)"
    "getp doc ''tenantId'' = JStr t'" "getp doc ''providerId'' = JStr p'" "getp doc ''operationId'' = JStr i'" for k doc t' p' i'
  proof -
    from made[OF that(1)] obtain n p op where n: "made_from p n op" "op_doc op" "doc = stored op (input_text n)"
      "k = mem_key (ri_tenantId n) p (ri_operationId n)" by blast
    then show ?thesis using that(2-4) getp_stored[OF n(2)] made_from_ids[OF n(1)] by simp
  qed
  have ids: "\<exists>t' p' i'. clean_id t' \<and> clean_id p' \<and> clean_id i' \<and> k = mem_key t' p' i' \<and> getp doc ''tenantId'' = JStr t' \<and> getp doc ''providerId'' = JStr p'
      \<and> getp doc ''operationId'' = JStr i'" if x: "(k, doc) \<in> set (moneyRailOperations s)" for k doc
  proof -
    from made[OF x] obtain n p op where n: "clean_input n" "clean_id p" "made_from p n op" "op_doc op" "doc = stored op (input_text n)"
      "k = mem_key (ri_tenantId n) p (ri_operationId n)" by blast
    then show ?thesis using getp_stored[OF n(4)] made_from_ids[OF n(3)] by (simp add: clean_input_def)
  qed
  have "distinct ?rows" by (intro distinct_filter distinct_values[OF dk]) (metis ids key)
  moreover have "set ?rows = {doc. \<exists>i. clean_id i \<and> mem_view pid s t i = Some doc}"
  proof (intro set_eqI iffI)
    fix doc assume "doc \<in> set ?rows"
    then obtain k where k: "(k, doc) \<in> set (moneyRailOperations s)" "here doc" by auto
    obtain i where "clean_id i" "k = mem_key t pid i" using ids[OF k(1)] k(2) by (auto simp: here_def)
    then show "doc \<in> {doc. \<exists>i. clean_id i \<and> mem_view pid s t i = Some doc}" using map_of_is_SomeI[OF dk k(1)] by (auto simp: mem_view_def)
  next
    fix doc assume "doc \<in> {doc. \<exists>i. clean_id i \<and> mem_view pid s t i = Some doc}"
    then obtain i where i: "clean_id i" "(mem_key t pid i, doc) \<in> set (moneyRailOperations s)" by (auto simp: mem_view_def dest: map_of_SomeD)
    then have "here doc" using ids[OF i(2)] c mem_key_inj[OF c(2) _ c(1)] by (auto simp: here_def)
    then show "doc \<in> set ?rows" using i(2) by force
  qed
  ultimately show ?thesis using that l by blast
qed

lemma listings:
  assumes g: "mem_good s" and r: "related pid (mem_view pid) (mem_seen pid) s R" and d: "distinct (map fst (operationsByKey R))"
    and c: "clean_id pid" "clean_id t" and perm: "permutes lsort" "permutes csort"
  shows "\<exists>rows all. backed_listOperations csort (memory_store lsort) pid s (tenant_args t) = Inr rows
    \<and> memory_listOperations csort R (tenant_args t) = Inr all \<and> mset rows \<subseteq># mset all \<and> length rows = min 200 (length all)"
proof -
  have R: "rails_clean pid R" using r by (simp add: related_def)
  obtain ops where ops: "memory_listOperations csort R (tenant_args t) = Inr (csort ops)" "distinct ops"
    "set ops = {op. \<exists>i. clean_id i \<and> map_of (operationsByKey R) (operationStoreKey t i) = Some op}" using memory_rows[OF R d c(2)] .
  obtain docs where docs: "mem_listOperations lsort s (JObj [(''tenantId'', JStr t), (''providerId'', JStr pid)]) = Inr (take 200 (lsort docs))"
    "distinct docs" "set docs = {doc. \<exists>i. clean_id i \<and> mem_view pid s t i = Some doc}" using store_rows[OF g c] .
  have v: "mem_view pid s t i = map_option with_text (map_of (operationsByKey R) (operationStoreKey t i))" if "clean_id i" for i
    using r c(2) that by (simp add: related_def)
  have dt: "set docs = with_text ` set ops" unfolding docs(3) ops(3) using v by fastforce
  have doc: "op_doc op" if "op \<in> set ops" for op using that rails_clean_doc[OF R] by (auto simp: ops(3))
  define plain where "plain x = projr (stripInternalOperationFields x)" for x
  have strip: "stripInternalOperationFields x = Inr (plain x)" if "x \<in> set docs" for x
    using that doc stored_strip by (auto simp: dt plain_def with_text_def)
  have plain: "plain (with_text op) = op" if "op \<in> set ops" for op using doc[OF that] stored_strip by (simp add: plain_def with_text_def)
  have inj: "inj_on plain (set docs)" unfolding dt by (rule inj_onI) (auto simp: plain)
  have "set (map plain docs) = set ops" using plain by (force simp: dt)
  moreover have "distinct (map plain docs)" using docs(2) inj by (simp add: distinct_map)
  ultimately have m: "mset (map plain docs) = mset ops" using ops(2) set_eq_iff_mset_eq_distinct by blast
  have p: "mset (lsort xs) = mset xs" "mset (csort xs) = mset xs" for xs using perm by (simp_all add: permutes_def)
  let ?taken = "csort (take 200 (lsort docs))"
  have sub: "mset ?taken \<subseteq># mset docs"
    using p append_take_drop_id[of 200 "lsort docs"] by (metis mset_append mset_subset_eq_add_left)
  have "mapRes stripInternalOperationFields ?taken = Inr (map plain ?taken)"
    using strip set_mset_mono[OF sub] by (intro mapRes_pure) auto
  then have "backed_listOperations csort (memory_store lsort) pid s (tenant_args t) = Inr (map plain ?taken)"
    using docs(1) c(2) by (simp add: backed_listOperations_def tenant_args_def memory_store_def assertNonEmptyString_def clean_id_def)
  moreover have "mset (map plain ?taken) \<subseteq># mset (csort ops)"
    using image_mset_subseteq_mono[OF sub, of plain] m p(2)[of ops] by simp
  moreover have "length (map plain ?taken) = min 200 (length (csort ops))"
  proof -
    have "length docs = length ops" using m mset_eq_length by fastforce
    moreover have "length ?taken = length (take 200 (lsort docs))" "length (lsort docs) = length docs" "length (csort ops) = length ops"
      using p mset_eq_length by blast+
    ultimately show ?thesis by simp
  qed
  ultimately show ?thesis using ops(1) by blast
qed

section \<open>The store-backed adapter refines the in-memory one\<close>

context operation_store
begin

lemma status_agrees:
  assumes "good s" "rel s R" and "case call_ids args of Inl _ \<Rightarrow> True | Inr (t, i) \<Rightarrow> clean_id t \<and> clean_id i"
  shows "backed_status store pid s args = memory_status R args"
proof (cases "call_ids args")
  case (Inr ti)
  obtain t i where ti: "ti = (t, i)" by (cases ti)
  with assms(3) Inr have cl: "clean_id t" "clean_id i" by simp_all
  show ?thesis
    using load[OF assms(1,2) cl] rel_doc[OF assms(2)] strip_saved op_doc_clone
    by (cases "map_of (operationsByKey R) (operationStoreKey t i)") (simp_all add: backed_status_def memory_status_def Inr ti)
qed (simp add: backed_status_def memory_status_def)

lemma run_related:
  assumes "good s" "rel s R" "\<forall>c \<in> set calls. clean_call c"
  shows "good (foldl (\<lambda>s c. fst (backed_call store pid s c)) s calls)
    \<and> rel (foldl (\<lambda>s c. fst (backed_call store pid s c)) s calls) (rails_run pid R calls)"
  using assms
proof (induction calls arbitrary: s R)
  case (Cons c cs)
  then show ?case using call_step[of s R c] Cons.IH[of "fst (backed_call store pid s c)" "rail_after pid R c"] by (simp add: rails_run_def)
qed (simp add: rails_run_def)

end

definition backed_run :: "mem_store rail_store \<Rightarrow> string \<Rightarrow> (string \<times> rail_call) list \<Rightarrow> mem_store" where
  "backed_run store pid calls = foldl (\<lambda>s c. fst (backed_call store pid s c)) empty_mem calls"

text \<open>C5: The store-backed adapter over the in-memory store implements the in-memory adapter. After any sequence of calls, with ids
  without line breaks, metadata of plain JSON with safe integers and event ids that are not blank, creations, cancellations,
  transitions and provider events get the same replies and errors from both, operations and events included, and so does a
  status query. There are two differences, both spelled out: an event that the provider repeats is answered with the operation
  as it now is instead of as it was after the event, and events carry the key they are recognised by (\<open>store_reply\<close>); and a
  listing returns the same operations, but at most 200 of them.\<close>

theorem backed_rails_refine_memory:
  assumes "clean_id pid" and "\<forall>c \<in> set calls. clean_call c" and "permutes lsort" and "permutes csort"
  shows "backed_replies (memory_store lsort) pid empty_mem calls = store_replies pid empty_rails calls
    \<and> (\<forall>args. (case call_ids args of Inl _ \<Rightarrow> True | Inr (t, i) \<Rightarrow> clean_id t \<and> clean_id i) \<longrightarrow>
        backed_status (memory_store lsort) pid (backed_run (memory_store lsort) pid calls) args = memory_status (rails_run pid empty_rails calls) args)
    \<and> (\<forall>t. clean_id t \<longrightarrow>
        (\<exists>rows all. backed_listOperations csort (memory_store lsort) pid (backed_run (memory_store lsort) pid calls) (tenant_args t) = Inr rows
          \<and> memory_listOperations csort (rails_run pid empty_rails calls) (tenant_args t) = Inr all
          \<and> mset rows \<subseteq># mset all \<and> length rows = min 200 (length all)))"
proof -
  note law = memory_store_law[OF assms(1), of lsort]
  have run: "mem_good (backed_run (memory_store lsort) pid calls)"
    "related pid (mem_view pid) (mem_seen pid) (backed_run (memory_store lsort) pid calls) (rails_run pid empty_rails calls)"
    using operation_store.run_related[OF law empty_good empty_related assms(2)] by (simp_all add: backed_run_def)
  have "distinct (map fst (operationsByKey (rails_run pid empty_rails calls)))" by (rule run_distinct) (simp add: empty_rails_def)
  note listings[OF run this assms(1) _ assms(3,4)]
  then show ?thesis
    using operation_store.replies_agree[OF law empty_good empty_related assms(2)] operation_store.status_agrees[OF law run] by blast
qed

definition replayed_calls :: "(string \<times> rail_call) list" where
  "replayed_calls = [(''n'', Create sample_rail_input), (''n'', Create sample_rail_input)]"

theorem backed_rails_refine_memory_witness:
  "backed_replies (memory_store (\<lambda>xs. xs)) ''stub_memory'' empty_mem replayed_calls = store_replies ''stub_memory'' empty_rails replayed_calls
    \<and> backed_status (memory_store (\<lambda>xs. xs)) ''stub_memory'' (backed_run (memory_store (\<lambda>xs. xs)) ''stub_memory'' replayed_calls) sample_rail_input
        = memory_status (rails_run ''stub_memory'' empty_rails replayed_calls) sample_rail_input"
proof -
  have ids: "clean_id ''t''" "clean_id ''op1''" unfolding clean_id_def by (intro conjI; code_simp)+
  have i: "call_ids sample_rail_input = Inr (''t'', ''op1'')" by code_simp
  have "trim ''k1'' = ''k1''" "is_safe 500" by code_simp+
  then have "clean_input sample_rail_op"
    using ids by (simp add: clean_input_def sample_rail_op_def MONEY_RAIL_DIRECTION_def)
  then have c: "\<forall>c \<in> set replayed_calls. clean_call c" using sample_rail_normal by (simp add: replayed_calls_def)
  have "permutes (\<lambda>xs :: jsval list. xs)" by (simp add: permutes_def)
  from backed_rails_refine_memory[OF stub_memory_clean c this this] ids show ?thesis by (simp add: i)
qed

section \<open>Interleaved creations\<close>

context operation_store
begin

text \<open>The second half of a creation, run when the operation already is in the store.\<close>

lemma store_again:
  assumes g: "good s" and r: "rel s R" and N: "normalizeCreateInput now input = Inr n" and n: "clean_input n"
    and op: "map_of (operationsByKey R) (op_key n) = Some op" "op_text op = input_text n"
  shows "\<exists>s'. backed_store_new store pid s n (input_text n) = (s', Inr (JObj (buildOperationRecord pid n), True)) \<and> good s'
    \<and> view s' (ri_tenantId n) (ri_operationId n) = Some (stored (JObj (buildOperationRecord pid n)) (input_text n))"
proof -
  let ?op = "JObj (buildOperationRecord pid n)"
  have R: "rails_clean pid R" using r by (simp add: related_def)
  have ids: "clean_id (ri_tenantId n)" "clean_id (ri_operationId n)" using n by (simp_all add: clean_input_def)
  have v: "view s t i = map_option with_text (map_of (operationsByKey R) (operationStoreKey t i))" if "clean_id t" "clean_id i" for t i
    using r that by (simp add: related_def)
  have doc: "op_doc ?op" by (rule record_doc[OF input_metadata[OF N]])
  obtain m where m: "clean_input m" "made_from pid m op" "input_text m = input_text n"
    using rails_clean_made[OF R op(1)[unfolded op_key_def] ids] op(2) by metis
  have k: "keyed (ri_direction n) (ri_idempotencyKey n) op"
    using clean_text_inj[OF m(1) n m(3)] made_from_ids[OF m(2)] by (simp add: keyed_def)
  have "\<exists>s'. putMoneyRailOperation store s (put_args (ri_tenantId n) pid (stored ?op (input_text n)) (JStr (input_text n)))
      = (s', Inr (JObj [(''operation'', stored ?op (input_text n)), (''created'', JBool (view s (ri_tenantId n) (ri_operationId n) = None))]))
    \<and> good s' \<and> seen s' = seen s \<and> (\<forall>t i. clean_id t \<longrightarrow> clean_id i \<longrightarrow>
        view s' t i = (if t = ri_tenantId n \<and> i = ri_operationId n then Some (stored ?op (input_text n)) else view s t i))"
  proof (rule put_law[OF g doc n])
    show "made_from pid n ?op" by (simp add: made_from_def)
  next
    fix i o' assume i: "clean_id i" "view s (ri_tenantId n) i = Some o'" "keyed (ri_direction n) (ri_idempotencyKey n) o'"
    then obtain o2 where o2: "map_of (operationsByKey R) (operationStoreKey (ri_tenantId n) i) = Some o2" "o' = with_text o2" using v[OF ids(1) i(1)] by auto
    then have "keyed (ri_direction n) (ri_idempotencyKey n) o2" using i(3) rel_doc[OF r o2(1)] by (simp add: with_text_def)
    then show "i = ri_operationId n" using rails_clean_unique[OF R ids(1) i(1) ids(2) o2(1) op(1)[unfolded op_key_def]] k by blast
  next
    fix o' assume "view s (ri_tenantId n) (ri_operationId n) = Some o'"
    then have "o' = stored op (input_text n)" using v[OF ids] op by (simp add: op_key_def with_text_def)
    then show "getp o' ''requestHash'' = JStr (input_text n)" using getp_stored[OF rel_doc[OF r op(1)]] by simp
  qed
  then obtain s' where s': "putMoneyRailOperation store s (put_args (ri_tenantId n) pid (stored ?op (input_text n)) (JStr (input_text n)))
      = (s', Inr (JObj [(''operation'', stored ?op (input_text n)), (''created'', JBool (view s (ri_tenantId n) (ri_operationId n) = None))]))"
    "good s'" and view': "\<And>t i. clean_id t \<Longrightarrow> clean_id i \<Longrightarrow>
       view s' t i = (if t = ri_tenantId n \<and> i = ri_operationId n then Some (stored ?op (input_text n)) else view s t i)" by blast
  have st: "JObj (buildOperationRecord pid n @ [(''requestHash'', JStr (input_text n))]) = stored ?op (input_text n)"
    by (simp add: stored_def own_props_def)
  have "view s (ri_tenantId n) (ri_operationId n) \<noteq> None" using v[OF ids] op(1) by (simp add: op_key_def)
  then have "backed_store_new store pid s n (input_text n) = (s', Inr (?op, True))"
    using s'(1) stored_strip[OF doc] by (simp add: backed_store_new_def st saved_operation_def withFlag_def)
  then show ?thesis using s' view'[OF ids] by simp
qed

end

text \<open>C34: Creations of the store-backed adapter are not atomic. If the store half of a creation runs after other calls
  have created the same operation and moved it on, it overwrites the operation: a payout that was submitted, confirmed or
  cancelled in the meantime is initiated again, and the reply calls it a replay.\<close>

theorem interleaved_create_resets:
  assumes "clean_id pid" and calls: "\<forall>c \<in> set calls. clean_call c"
    and N: "normalizeCreateInput now input = Inr n" and "clean_input n"
    and cur: "map_of (operationsByKey (rails_run pid empty_rails calls)) (op_key n) = Some op" and "made_from pid n op"
  shows "backed_lookup (memory_store lsort) pid empty_mem n (input_text n) = Inr None
    \<and> mem_view pid (backed_run (memory_store lsort) pid calls) (ri_tenantId n) (ri_operationId n) = Some (stored op (input_text n))
    \<and> (\<exists>s'. backed_store_new (memory_store lsort) pid (backed_run (memory_store lsort) pid calls) n (input_text n)
              = (s', Inr (JObj (buildOperationRecord pid n), True))
         \<and> mem_view pid s' (ri_tenantId n) (ri_operationId n) = Some (stored (JObj (buildOperationRecord pid n)) (input_text n)))"
proof -
  let ?store = "memory_store lsort" and ?R = "rails_run pid empty_rails calls"
  note law = memory_store_law[OF assms(1)]
  let ?s = "backed_run ?store pid calls"
  have run: "mem_good ?s" "related pid (mem_view pid) (mem_seen pid) ?s ?R"
    using operation_store.run_related[OF law empty_good empty_related calls] by (simp_all add: backed_run_def)
  have tx: "op_text op = input_text n" by (rule op_text_made[OF assms(6,4)])
  have c: "clean_id (ri_tenantId n)" "clean_id (ri_operationId n)" "ri_direction n \<in> set MONEY_RAIL_DIRECTION"
    "ri_idempotencyKey n \<noteq> []" "trim (ri_idempotencyKey n) = ri_idempotencyKey n" using assms(4) by (simp_all add: clean_input_def)
  have "mem_view pid ?s (ri_tenantId n) (ri_operationId n) = Some (stored op (input_text n))"
    using run(2) c(1,2) cur tx unfolding related_def by (simp add: op_key_def with_text_def)
  moreover have "backed_lookup ?store pid empty_mem n (input_text n) = Inr None"
  proof -
    have "mem_findByIdempotency empty_mem (idem_args (ri_tenantId n) pid (ri_direction n) (ri_idempotencyKey n)) = Inr JNull"
      using mem_find_law[OF empty_good assms(1) c(1,3,4,5)] by (auto simp: mem_view_def empty_mem_def)
    moreover have "mem_getOperation empty_mem (ids_args (ri_tenantId n) pid (ri_operationId n)) = Inr JNull"
      using mem_get_law[OF empty_good assms(1) c(1,2)] by (simp add: mem_view_def empty_mem_def)
    ultimately show ?thesis
      by (simp add: backed_lookup_def idem_args_def ids_args_def loadOperation_def memory_store_def isObjectLike_def)
  qed
  ultimately show ?thesis using operation_store.store_again[OF law run N assms(4) cur tx] by blast
qed

lemma sample_clean: "clean_input sample_rail_op"
proof -
  have "clean_id ''t''" "clean_id ''op1''" unfolding clean_id_def by (intro conjI; code_simp)+
  moreover have "trim ''k1'' = ''k1''" "is_safe 500" by code_simp+
  ultimately show ?thesis by (simp add: clean_input_def sample_rail_op_def MONEY_RAIL_DIRECTION_def)
qed

theorem interleaved_create_resets_witness:
  "\<exists>op s'. getp op ''state'' = JStr ''cancelled'' \<and>
     mem_view ''stub_memory'' (backed_run (memory_store (\<lambda>xs. xs)) ''stub_memory''
        [(''2026-01-01T00:00:00.000Z'', Create sample_rail_input), (''2026-01-01T00:00:00.000Z'', Cancel sample_rail_input)]) ''t'' ''op1''
       = Some (stored op (input_text sample_rail_op)) \<and>
     backed_store_new (memory_store (\<lambda>xs. xs)) ''stub_memory'' (backed_run (memory_store (\<lambda>xs. xs)) ''stub_memory''
        [(''2026-01-01T00:00:00.000Z'', Create sample_rail_input), (''2026-01-01T00:00:00.000Z'', Cancel sample_rail_input)]) sample_rail_op
         (input_text sample_rail_op) = (s', Inr (JObj (buildOperationRecord ''stub_memory'' sample_rail_op), True))"
proof -
  let ?now = "''2026-01-01T00:00:00.000Z''"
  let ?calls = "[(?now, Create sample_rail_input), (?now, Cancel sample_rail_input)]"
  let ?op = "JObj (buildOperationRecord ''stub_memory'' sample_rail_op)"
  have ids: "call_ids sample_rail_input = Inr (''t'', ''op1'')" by code_simp
  have clean: "\<forall>c \<in> set ?calls. clean_call c"
    using sample_rail_normal sample_clean ids by (simp add: clean_input_def sample_rail_op_def)
  obtain h where h: "memory_create ''stub_memory'' ?now empty_rails sample_rail_input =
     (empty_rails\<lparr>operationsByKey := AList.update (op_key sample_rail_op) ?op [], idempotencyByKey := AList.update (idem_key sample_rail_op) (h, op_key sample_rail_op) []\<rparr>,
      Inr (?op, False))"
    using create_new[OF sample_rail_normal, of empty_rails "''stub_memory''" ?now] by (auto simp: op_key_def idem_key_def empty_rails_def)
  have doc: "op_doc ?op" by (rule record_doc) (simp add: sample_rail_op_def)
  have date: "date_parse ?now = Some 1767225600000" "trim ?now = ?now" by code_simp+
  have st: "getp ?op ''state'' = JStr (state_name Initiated)" by (simp add: buildOperationRecord_def)
  obtain op' where op': "applyStateTransition ?op Cancelled (JStr ?now) JNull (JStr ''cancelled_by_caller'') = Inr op'"
    using date by (simp add: applyStateTransition_def st del: state_name.simps)
      (simp add: assertPlainObject_def isObjectLike_def assertStateTransitionAllowed_def normalizeIsoDate_def assertNonEmptyString_def)
  from applyStateTransition_doc[OF doc this] have p: "op_doc op'" "progress ?op op'" "has_state op' Cancelled" by blast+
  have made: "made_from ''stub_memory'' sample_rail_op op'" by (rule made_from_progress[OF _ p(2)]) (simp add: made_from_def)
  have key: "operationStoreKey ''t'' ''op1'' = op_key sample_rail_op" by (simp add: op_key_def sample_rail_op_def)
  have ns: "\<not> cancel_settled ?op" by (simp add: cancel_settled_def buildOperationRecord_def)
  have "memory_cancel ?now (fst (memory_create ''stub_memory'' ?now empty_rails sample_rail_input)) sample_rail_input
      = (fst (memory_create ''stub_memory'' ?now empty_rails sample_rail_input)\<lparr>operationsByKey := AList.update (op_key sample_rail_op) op' [(op_key sample_rail_op, ?op)]\<rparr>,
         Inr (op', True))"
    using op' ns p(1) unfolding memory_cancel_def ids h
    by (simp add: key memory_current_def op_doc_clone withFlag_def dflt_def sample_rail_input_def Let_def)
  then have "map_of (operationsByKey (rails_run ''stub_memory'' empty_rails ?calls)) (op_key sample_rail_op) = Some op'"
    by (simp add: rails_run_def)
  from interleaved_create_resets[OF stub_memory_clean clean sample_rail_normal sample_clean this made, of "\<lambda>xs. xs"] show ?thesis
    using p(3) by (auto simp: sample_rail_op_def has_state_def)
qed

end
