(* ===== verification/AgentRuns.thy ===== *)
theory AgentRuns
  imports JsState "HOL-Library.Multiset"
begin

text \<open>
  \<^verbatim>\<open>src/core/agent-runs.js\<close>: the log of an agent run folded into the run document, and the verification that settlement
  starts from. \<open>lsort\<close> sorts strings by \<^verbatim>\<open>localeCompare\<close>.
\<close>

section \<open>Data\<close>

definition AGENT_RUN_SCHEMA_VERSION :: string where
  "AGENT_RUN_SCHEMA_VERSION = ''AgentRun.v1''"

datatype run_status = RunCreated | RunRunning | RunCompleted | RunFailed

fun run_status_name :: "run_status \<Rightarrow> string" where
  "run_status_name RunCreated = ''created''"
| "run_status_name RunRunning = ''running''"
| "run_status_name RunCompleted = ''completed''"
| "run_status_name RunFailed = ''failed''"

datatype run_event_type = RUN_CREATED | RUN_STARTED | RUN_HEARTBEAT | EVIDENCE_ADDED | RUN_COMPLETED | RUN_FAILED

fun event_type_name :: "run_event_type \<Rightarrow> string" where
  "event_type_name RUN_CREATED = ''RUN_CREATED''"
| "event_type_name RUN_STARTED = ''RUN_STARTED''"
| "event_type_name RUN_HEARTBEAT = ''RUN_HEARTBEAT''"
| "event_type_name EVIDENCE_ADDED = ''EVIDENCE_ADDED''"
| "event_type_name RUN_COMPLETED = ''RUN_COMPLETED''"
| "event_type_name RUN_FAILED = ''RUN_FAILED''"

definition event_types :: "run_event_type list" where
  "event_types = [RUN_CREATED, RUN_STARTED, RUN_HEARTBEAT, EVIDENCE_ADDED, RUN_COMPLETED, RUN_FAILED]"

record agent_run =
  ar_runId :: string
  ar_agentId :: string
  ar_tenantId :: string
  ar_taskType :: "string option"
  ar_inputRef :: "string option"
  ar_status :: run_status
  ar_evidenceRefs :: "string list"
  ar_metrics :: "props option"
  ar_failure :: "(string option \<times> string option) option"
  ar_startedAt :: "string option"
  ar_completedAt :: "string option"
  ar_failedAt :: "string option"
  ar_revision :: int
  ar_createdAt :: string
  ar_updatedAt :: string
  ar_lastEventId :: jsval
  ar_lastChainHash :: jsval

section \<open>Payloads\<close>

definition assertOptionalString :: "jsval \<Rightarrow> string \<Rightarrow> string option res" where
  "assertOptionalString v name = (if nullish v then Inr None else mapR Some (assertNonEmptyString v name))"

definition validateRunCreatedPayload :: "jsval \<Rightarrow> unit res" where
  "validateRunCreatedPayload payload =
     andThen (assertPlainObject payload ''payload'') (\<lambda>_.
     andThen (assertNonEmptyString (getp payload ''runId'') ''payload.runId'') (\<lambda>_.
     andThen (assertNonEmptyString (getp payload ''agentId'') ''payload.agentId'') (\<lambda>_.
     andThen (assertNonEmptyString (getp payload ''tenantId'') ''payload.tenantId'') (\<lambda>_.
     andThen (assertOptionalString (getp payload ''taskType'') ''payload.taskType'') (\<lambda>_.
     andThen (assertOptionalString (getp payload ''inputRef'') ''payload.inputRef'') (\<lambda>_. Inr ()))))))"

definition validateRunStartedPayload :: "jsval \<Rightarrow> unit res" where
  "validateRunStartedPayload payload =
     andThen (assertPlainObject payload ''payload'') (\<lambda>_.
     andThen (assertNonEmptyString (getp payload ''runId'') ''payload.runId'') (\<lambda>_.
     andThen (assertOptionalString (getp payload ''startedBy'') ''payload.startedBy'') (\<lambda>_. Inr ())))"

text \<open>\<^verbatim>\<open>Number.isFinite(v)\<close> and the range check \<^verbatim>\<open>v < 0 || v > 100\<close>.\<close>

definition progressCheck :: "jsval \<Rightarrow> unit res" where
  "progressCheck v =
     (case v of
        JNum n \<Rightarrow>
          (case n of
             Fin r \<Rightarrow> throwIf (r < 0 \<or> 100 < r) (TypeError ''payload.progressPct must be within 0..100'')
           | NegZero \<Rightarrow> Inr ()
           | _ \<Rightarrow> Inl (TypeError ''payload.progressPct must be a finite number''))
      | _ \<Rightarrow> Inl (TypeError ''payload.progressPct must be a finite number''))"

definition validateRunHeartbeatPayload :: "jsval \<Rightarrow> unit res" where
  "validateRunHeartbeatPayload payload =
     andThen (assertPlainObject payload ''payload'') (\<lambda>_.
     andThen (assertNonEmptyString (getp payload ''runId'') ''payload.runId'') (\<lambda>_.
     andThen (if nullish (getp payload ''progressPct'') then Inr () else progressCheck (getp payload ''progressPct'')) (\<lambda>_.
     andThen (assertOptionalString (getp payload ''stage'') ''payload.stage'') (\<lambda>_. Inr ()))))"

definition validateEvidenceAddedPayload :: "jsval \<Rightarrow> unit res" where
  "validateEvidenceAddedPayload payload =
     andThen (assertPlainObject payload ''payload'') (\<lambda>_.
     andThen (assertNonEmptyString (getp payload ''runId'') ''payload.runId'') (\<lambda>_.
     andThen (assertNonEmptyString (getp payload ''evidenceRef'') ''payload.evidenceRef'') (\<lambda>_. Inr ())))"

definition validateRunCompletedPayload :: "jsval \<Rightarrow> unit res" where
  "validateRunCompletedPayload payload =
     andThen (assertPlainObject payload ''payload'') (\<lambda>_.
     andThen (assertNonEmptyString (getp payload ''runId'') ''payload.runId'') (\<lambda>_.
     andThen (assertOptionalString (getp payload ''outputRef'') ''payload.outputRef'') (\<lambda>_.
       if nullish (getp payload ''metrics'') then Inr () else assertPlainObject (getp payload ''metrics'') ''payload.metrics'')))"

definition validateRunFailedPayload :: "jsval \<Rightarrow> unit res" where
  "validateRunFailedPayload payload =
     andThen (assertPlainObject payload ''payload'') (\<lambda>_.
     andThen (assertNonEmptyString (getp payload ''runId'') ''payload.runId'') (\<lambda>_.
     andThen (assertOptionalString (getp payload ''code'') ''payload.code'') (\<lambda>_.
     andThen (assertOptionalString (getp payload ''message'') ''payload.message'') (\<lambda>_. Inr ()))))"

fun validateTypedPayload :: "run_event_type \<Rightarrow> jsval \<Rightarrow> unit res" where
  "validateTypedPayload RUN_CREATED p = validateRunCreatedPayload p"
| "validateTypedPayload RUN_STARTED p = validateRunStartedPayload p"
| "validateTypedPayload RUN_HEARTBEAT p = validateRunHeartbeatPayload p"
| "validateTypedPayload EVIDENCE_ADDED p = validateEvidenceAddedPayload p"
| "validateTypedPayload RUN_COMPLETED p = validateRunCompletedPayload p"
| "validateTypedPayload RUN_FAILED p = validateRunFailedPayload p"

definition event_type_named :: "string \<Rightarrow> run_event_type option" where
  "event_type_named s = List.find (\<lambda>t. event_type_name t = s) event_types"

definition validatePayloadForType :: "string \<Rightarrow> jsval \<Rightarrow> run_event_type res" where
  "validatePayloadForType type payload =
     (case event_type_named type of
        None \<Rightarrow> Inl (TypeError (''unsupported agent run event type: '' @ type))
      | Some t \<Rightarrow> mapR (\<lambda>_. t) (validateTypedPayload t payload))"

section \<open>The fold\<close>

definition isTerminalStatus :: "run_status \<Rightarrow> bool" where
  "isTerminalStatus st \<longleftrightarrow> st = RunCompleted \<or> st = RunFailed"

definition str_of :: "jsval \<Rightarrow> string" where
  "str_of v = (case v of JStr s \<Rightarrow> s | _ \<Rightarrow> [])"

definition opt_of :: "jsval \<Rightarrow> string option" where
  "opt_of v = (case v of JStr s \<Rightarrow> Some s | _ \<Rightarrow> None)"

text \<open>What the loop reads from an event after its checks.\<close>

record run_event =
  ev_type :: run_event_type
  ev_streamId :: string
  ev_at :: string
  ev_payload :: jsval
  ev_id :: jsval
  ev_chainHash :: jsval

definition parseRunEvent :: "jsval \<Rightarrow> run_event res" where
  "parseRunEvent event =
     (if \<not> isObjectLike event then Inl (TypeError ''event must be an object'')
      else andThen (assertNonEmptyString (getp event ''type'') ''event.type'') (\<lambda>type.
        andThen (assertNonEmptyString (getp event ''streamId'') ''event.streamId'') (\<lambda>streamId.
        andThen (assertIsoDate (getp event ''at'') ''event.at'') (\<lambda>atArg.
        let payload = orElse (getp event ''payload'') (JObj []) in
        andThen (validatePayloadForType type payload) (\<lambda>t.
          Inr \<lparr>ev_type = t, ev_streamId = streamId, ev_at = atArg, ev_payload = payload,
               ev_id = getp event ''id'', ev_chainHash = getp event ''chainHash''\<rparr>)))))"

definition createRun :: "run_event \<Rightarrow> agent_run" where
  "createRun e = \<lparr>ar_runId = str_of (getp (ev_payload e) ''runId''), ar_agentId = str_of (getp (ev_payload e) ''agentId''),
     ar_tenantId = str_of (getp (ev_payload e) ''tenantId''), ar_taskType = opt_of (getp (ev_payload e) ''taskType''),
     ar_inputRef = opt_of (getp (ev_payload e) ''inputRef''), ar_status = RunCreated, ar_evidenceRefs = [], ar_metrics = None, ar_failure = None,
     ar_startedAt = None, ar_completedAt = None, ar_failedAt = None, ar_revision = 0, ar_createdAt = ev_at e, ar_updatedAt = ev_at e,
     ar_lastEventId = orElse (ev_id e) JNull, ar_lastChainHash = orElse (ev_chainHash e) JNull\<rparr>"

definition orStart :: "string option \<Rightarrow> string \<Rightarrow> string option" where
  "orStart s t = (case s of None \<Rightarrow> Some t | Some _ \<Rightarrow> s)"

text \<open>The branch of a type other than \<open>RUN_CREATED\<close>.\<close>

fun runBranch :: "(string list \<Rightarrow> string list) \<Rightarrow> run_event_type \<Rightarrow> agent_run \<Rightarrow> run_event \<Rightarrow> agent_run res" where
  "runBranch lsort RUN_STARTED run e =
     (if isTerminalStatus (ar_status run) then Inl (TypeError ''cannot start a terminal run'')
      else Inr (run\<lparr>ar_status := RunRunning, ar_startedAt := orStart (ar_startedAt run) (ev_at e)\<rparr>))"
| "runBranch lsort RUN_HEARTBEAT run e =
     (let run' = (if ar_status run = RunCreated then run\<lparr>ar_status := RunRunning, ar_startedAt := orStart (ar_startedAt run) (ev_at e)\<rparr> else run) in
      if isTerminalStatus (ar_status run') then Inl (TypeError ''cannot heartbeat a terminal run'') else Inr run')"
| "runBranch lsort EVIDENCE_ADDED run e =
     (if isTerminalStatus (ar_status run) then Inl (TypeError ''cannot append evidence to a terminal run'')
      else let ref = str_of (getp (ev_payload e) ''evidenceRef'') in
        Inr (run\<lparr>ar_evidenceRefs := lsort (if ref \<in> set (ar_evidenceRefs run) then ar_evidenceRefs run else ar_evidenceRefs run @ [ref])\<rparr>))"
| "runBranch lsort RUN_COMPLETED run e =
     (if isTerminalStatus (ar_status run) then Inl (TypeError ''run already terminal'')
      else Inr (run\<lparr>ar_status := RunCompleted, ar_startedAt := orStart (ar_startedAt run) (ev_at e), ar_completedAt := Some (ev_at e), ar_failedAt := None,
        ar_failure := None,
        ar_metrics := (if isObjectLike (getp (ev_payload e) ''metrics'') then Some (own_props (getp (ev_payload e) ''metrics'')) else ar_metrics run)\<rparr>))"
| "runBranch lsort RUN_FAILED run e =
     (if isTerminalStatus (ar_status run) then Inl (TypeError ''run already terminal'')
      else Inr (run\<lparr>ar_status := RunFailed, ar_startedAt := orStart (ar_startedAt run) (ev_at e), ar_failedAt := Some (ev_at e), ar_completedAt := None,
        ar_failure := Some (opt_of (getp (ev_payload e) ''code''), opt_of (getp (ev_payload e) ''message''))\<rparr>))"
| "runBranch lsort RUN_CREATED run e = Inl (TypeError (''unsupported event type: '' @ event_type_name RUN_CREATED))"

definition touchRun :: "run_event \<Rightarrow> agent_run \<Rightarrow> agent_run" where
  "touchRun e run = run\<lparr>ar_revision := ar_revision run + 1, ar_updatedAt := ev_at e,
     ar_lastEventId := orElse (ev_id e) (orElse (ar_lastEventId run) JNull),
     ar_lastChainHash := orElse (ev_chainHash e) (orElse (ar_lastChainHash run) JNull)\<rparr>"

definition runStep :: "(string list \<Rightarrow> string list) \<Rightarrow> agent_run option \<Rightarrow> jsval \<Rightarrow> agent_run option res" where
  "runStep lsort run event =
     andThen (parseRunEvent event) (\<lambda>e.
     if ev_type e = RUN_CREATED
     then checks [throwIf (run \<noteq> None) (TypeError ''run stream already initialized''),
                  throwIf (getp (ev_payload e) ''runId'' \<noteq> JStr (ev_streamId e)) (TypeError ''payload.runId must match streamId'')]
            (Inr (Some (createRun e)))
     else case run of
       None \<Rightarrow> Inl (TypeError ''run stream is missing RUN_CREATED'')
     | Some r \<Rightarrow>
         if truthy (getp (ev_payload e) ''runId'') \<and> getp (ev_payload e) ''runId'' \<noteq> JStr (ar_runId r)
         then Inl (TypeError ''payload.runId must match runId'')
         else mapR (\<lambda>r'. Some (touchRun e r')) (runBranch lsort (ev_type e) r e))"

definition reduceAgentRun :: "(string list \<Rightarrow> string list) \<Rightarrow> jsval \<Rightarrow> agent_run option res" where
  "reduceAgentRun lsort events =
     (case events of
        JArr es \<Rightarrow> (if es = [] then Inr None else foldRes (runStep lsort) None es)
      | _ \<Rightarrow> Inl (TypeError ''events must be an array''))"

section \<open>Verification\<close>

datatype run_verdict = Amber | Green | Red

text \<open>
  The report. The rate is an integer: \<^verbatim>\<open>-0\<close> is reported as zero.
\<close>

record run_verification =
  rv_verificationStatus :: run_verdict
  rv_runStatus :: jsval
  rv_reasonCodes :: "string list"
  rv_evidenceCount :: nat
  rv_eventCount :: nat
  rv_durationMs :: "int option"
  rv_settlementReleaseRatePct :: "int option"

text \<open>
  \<^verbatim>\<open>v ? Date.parse(v) : NaN\<close>, which reads the text of \<open>v\<close>; the text of a date object has no milliseconds.
\<close>

definition parse_time_of :: "jsval \<Rightarrow> int option" where
  "parse_time_of v =
     (if \<not> truthy v then None
      else case v of JDate t \<Rightarrow> Some (t - t mod 1000) | _ \<Rightarrow> date_parse (js_String v))"

definition array_length :: "jsval \<Rightarrow> nat" where
  "array_length v = (case v of JArr xs \<Rightarrow> length xs | _ \<Rightarrow> 0)"

definition run_duration :: "jsval \<Rightarrow> int option" where
  "run_duration run =
     (let endMs = (if truthy (getp run ''completedAt'') then parse_time_of (getp run ''completedAt'')
                   else parse_time_of (getp run ''failedAt''))
      in case (parse_time_of (getp run ''startedAt''), endMs) of
           (Some s, Some e) \<Rightarrow> (if s \<le> e then Some (e - s) else None)
         | _ \<Rightarrow> None)"

definition release_rate :: "jsval \<Rightarrow> int" where
  "release_rate run =
     (case isSafeNumber (getp (getp run ''metrics'') ''settlementReleaseRatePct'') of
        Some n \<Rightarrow> (if 0 \<le> n \<and> n \<le> 100 then n else 100)
      | None \<Rightarrow> 100)"

definition run_verdict_of :: "jsval \<Rightarrow> run_verdict \<times> string list \<times> int option" where
  "run_verdict_of run =
     (if getp run ''status'' = JStr ''completed'' then
        let rate = release_rate run in
        if 100 \<le> rate then (Green, [], Some rate)
        else if rate \<le> 0 then (Red, [''RUN_COMPLETED_ZERO_SETTLEMENT''], Some rate)
        else (Amber, [''RUN_COMPLETED_PARTIAL_SETTLEMENT''], Some rate)
      else if getp run ''status'' = JStr ''failed'' then
        (Red, ''RUN_FAILED'' # (case getp (getp run ''failure'') ''code'' of
                 JStr c \<Rightarrow> (if trim c \<noteq> [] then [''RUN_FAILED_'' @ c] else []) | _ \<Rightarrow> []), Some 0)
      else if getp run ''status'' = JStr ''running'' then (Amber, [''RUN_IN_PROGRESS''], None)
      else (Amber, [''RUN_CREATED_NOT_STARTED''], None))"

definition computeAgentRunVerification :: "jsval \<Rightarrow> jsval \<Rightarrow> run_verification" where
  "computeAgentRunVerification run events =
     (if \<not> is_object run
      then \<lparr>rv_verificationStatus = Amber, rv_runStatus = JNull, rv_reasonCodes = [''RUN_NOT_FOUND''], rv_evidenceCount = 0,
        rv_eventCount = array_length (dflt events (JArr [])), rv_durationMs = None, rv_settlementReleaseRatePct = None\<rparr>
      else let (verdict, codes, rate) = run_verdict_of run in
        \<lparr>rv_verificationStatus = verdict, rv_runStatus = orElse (getp run ''status'') JNull, rv_reasonCodes = codes,
          rv_evidenceCount = array_length (getp run ''evidenceRefs''), rv_eventCount = array_length (dflt events (JArr [])),
          rv_durationMs = run_duration run, rv_settlementReleaseRatePct = rate\<rparr>)"

text \<open>The run document as the reducer returns it.\<close>

definition js_opt :: "string option \<Rightarrow> jsval" where
  "js_opt x = (case x of None \<Rightarrow> JNull | Some s \<Rightarrow> JStr s)"

definition js_of_run :: "agent_run \<Rightarrow> jsval" where
  "js_of_run r = JObj
     [(''schemaVersion'', JStr AGENT_RUN_SCHEMA_VERSION), (''runId'', JStr (ar_runId r)), (''agentId'', JStr (ar_agentId r)),
      (''tenantId'', JStr (ar_tenantId r)), (''taskType'', js_opt (ar_taskType r)), (''inputRef'', js_opt (ar_inputRef r)),
      (''status'', JStr (run_status_name (ar_status r))), (''evidenceRefs'', JArr (map JStr (ar_evidenceRefs r))),
      (''metrics'', case ar_metrics r of None \<Rightarrow> JNull | Some ps \<Rightarrow> JObj ps),
      (''failure'', case ar_failure r of None \<Rightarrow> JNull
         | Some (c, m) \<Rightarrow> JObj [(''code'', js_opt c), (''message'', js_opt m)]),
      (''startedAt'', js_opt (ar_startedAt r)), (''completedAt'', js_opt (ar_completedAt r)), (''failedAt'', js_opt (ar_failedAt r)),
      (''revision'', JInt (ar_revision r)), (''createdAt'', JStr (ar_createdAt r)), (''updatedAt'', JStr (ar_updatedAt r)),
      (''lastEventId'', ar_lastEventId r), (''lastChainHash'', ar_lastChainHash r)]"

section \<open>What a log says\<close>

text \<open>
  A log is a creation followed by events of the same run, of which only the last may be terminal. The view says what
  the fields of the run are in terms of the events.
\<close>

definition terminal_type :: "run_event_type \<Rightarrow> bool" where
  "terminal_type t \<longleftrightarrow> t = RUN_COMPLETED \<or> t = RUN_FAILED"

definition starting_type :: "run_event_type \<Rightarrow> bool" where
  "starting_type t \<longleftrightarrow> t \<noteq> RUN_CREATED \<and> t \<noteq> EVIDENCE_ADDED"

definition run_of :: "run_event \<Rightarrow> jsval" where
  "run_of e = getp (ev_payload e) ''runId''"

definition evidence_of :: "run_event \<Rightarrow> string" where
  "evidence_of e = str_of (getp (ev_payload e) ''evidenceRef'')"

fun run_log :: "run_event list \<Rightarrow> bool" where
  "run_log [] \<longleftrightarrow> True"
| "run_log (c # es) \<longleftrightarrow>
     ev_type c = RUN_CREATED \<and> run_of c = JStr (ev_streamId c) \<and>
     (\<forall>e \<in> set es. ev_type e \<noteq> RUN_CREATED \<and> run_of e = JStr (ev_streamId c)) \<and>
     (\<forall>e \<in> set (butlast es). \<not> terminal_type (ev_type e))"

definition log_status :: "run_event_type list \<Rightarrow> run_status" where
  "log_status ts =
     (if RUN_COMPLETED \<in> set ts then RunCompleted else if RUN_FAILED \<in> set ts then RunFailed
      else if list_ex starting_type ts then RunRunning else RunCreated)"

definition time_of :: "(run_event \<Rightarrow> bool) \<Rightarrow> run_event list \<Rightarrow> string option" where
  "time_of P es = map_option ev_at (List.find P es)"

definition run_view :: "agent_run \<Rightarrow> run_event list \<Rightarrow> bool" where
  "run_view r ps \<longleftrightarrow>
     ar_runId r = ev_streamId (hd ps) \<and> ar_revision r = int (length ps) - 1 \<and>
     ar_createdAt r = ev_at (hd ps) \<and> ar_updatedAt r = ev_at (last ps) \<and>
     ar_status r = log_status (map ev_type ps) \<and>
     ar_startedAt r = time_of (\<lambda>e. starting_type (ev_type e)) ps \<and>
     ar_completedAt r = time_of (\<lambda>e. ev_type e = RUN_COMPLETED) ps \<and>
     ar_failedAt r = time_of (\<lambda>e. ev_type e = RUN_FAILED) ps \<and>
     set (ar_evidenceRefs r) = evidence_of ` {e \<in> set ps. ev_type e = EVIDENCE_ADDED} \<and> distinct (ar_evidenceRefs r)"

lemma find_append: "List.find P (xs @ ys) = (case List.find P xs of None \<Rightarrow> List.find P ys | Some x \<Rightarrow> Some x)"
  by (induction xs) auto

lemma find_none: "List.find P xs = None \<longleftrightarrow> (\<forall>x \<in> set xs. \<not> P x)"
  by (induction xs) auto

lemma log_status_terminal: "isTerminalStatus (log_status ts) \<longleftrightarrow> list_ex terminal_type ts"
  by (auto simp: log_status_def isTerminalStatus_def terminal_type_def list_ex_iff)

lemma run_log_snoc:
  "ps \<noteq> [] \<Longrightarrow> run_log (ps @ [e]) \<longleftrightarrow> run_log ps \<and> ev_type e \<noteq> RUN_CREATED \<and> run_of e = JStr (ev_streamId (hd ps)) \<and>
     \<not> list_ex terminal_type (map ev_type ps)"
  by (cases ps) (auto simp: list_ex_iff terminal_type_def dest: in_set_butlastD)

lemma parse_payload: "parseRunEvent x = Inr e \<Longrightarrow> \<exists>t. validatePayloadForType t (ev_payload e) = Inr (ev_type e)"
  by (auto simp: parseRunEvent_def res_simps Let_def split: if_splits)

lemma parse_runId:
  assumes "parseRunEvent x = Inr e"
  shows "\<exists>s. run_of e = JStr s \<and> s \<noteq> []"
proof -
  have t: "trim [] = []" by code_simp
  obtain t' where "validatePayloadForType t' (ev_payload e) = Inr (ev_type e)" using parse_payload[OF assms] by blast
  then have "validateTypedPayload (ev_type e) (ev_payload e) = Inr ()"
    by (auto simp: validatePayloadForType_def mapR_Inr_iff split: option.splits)
  then show ?thesis using t
    by (cases "ev_type e")
      (auto simp: run_of_def res_simps validateRunCreatedPayload_def validateRunStartedPayload_def validateRunHeartbeatPayload_def
        validateEvidenceAddedPayload_def validateRunCompletedPayload_def validateRunFailedPayload_def)
qed

section \<open>The fold and the log\<close>

definition log_state :: "agent_run option \<Rightarrow> run_event list \<Rightarrow> bool" where
  "log_state ro ps \<longleftrightarrow> run_log ps \<and> (case ro of None \<Rightarrow> ps = [] | Some r \<Rightarrow> ps \<noteq> [] \<and> run_view r ps)"

lemma create_view: "ev_type e = RUN_CREATED \<Longrightarrow> run_of e = JStr (ev_streamId e) \<Longrightarrow> run_view (createRun e) [e]"
  by (auto simp: run_view_def createRun_def str_of_def run_of_def log_status_def starting_type_def time_of_def)

lemma time_of_snoc:
  "time_of P (ps @ [e]) = (case time_of P ps of None \<Rightarrow> (if P e then Some (ev_at e) else None) | Some t \<Rightarrow> Some t)"
  by (auto simp: time_of_def find_append split: option.splits)

lemma log_status_snoc:
  "\<not> list_ex terminal_type ts \<Longrightarrow> log_status (ts @ [t]) =
     (if t = RUN_COMPLETED then RunCompleted else if t = RUN_FAILED then RunFailed
      else if starting_type t then RunRunning else log_status ts)"
  by (auto simp: log_status_def terminal_type_def list_ex_iff)

lemma time_none: "\<forall>e \<in> set ps. \<not> P e \<Longrightarrow> time_of P ps = None"
  by (simp add: time_of_def find_none)

lemma log_status_created: "log_status ts \<noteq> RunCreated \<longleftrightarrow> list_ex starting_type ts"
  by (auto simp: log_status_def list_ex_iff starting_type_def)

lemma started_unless_created: "list_ex starting_type (map ev_type ps) \<Longrightarrow> time_of (\<lambda>e. starting_type (ev_type e)) ps \<noteq> None"
  by (auto simp: time_of_def find_none list_ex_iff)

text \<open>One event more: the branch is taken exactly when the log may go on with the event, and keeps the view.\<close>

lemma branch_view:
  assumes view: "run_view r ps" and ne: "ps \<noteq> []" and open_run: "\<not> list_ex terminal_type (map ev_type ps)"
    and type: "ev_type e \<noteq> RUN_CREATED" and perm: "\<And>xs. mset (lsort xs) = mset xs"
  shows "\<exists>r'. runBranch lsort (ev_type e) r e = Inr r' \<and> run_view (touchRun e r') (ps @ [e])"
proof -
  let ?ts = "map ev_type ps"
  have nt: "\<not> isTerminalStatus (ar_status r)" using view open_run by (simp add: run_view_def log_status_terminal)
  have noterm: "\<forall>x \<in> set ps. ev_type x \<noteq> RUN_COMPLETED \<and> ev_type x \<noteq> RUN_FAILED"
    using open_run by (auto simp: list_ex_iff terminal_type_def)
  have none: "ar_completedAt r = None" "ar_failedAt r = None"
    using view noterm by (simp_all add: run_view_def time_none)
  have set_lsort: "set (lsort xs) = set xs" for xs using perm[of xs] by (metis mset_eq_setD)
  have distinct_lsort: "distinct (lsort xs) = distinct xs" for xs
    using perm[of xs] by (metis mset_eq_imp_distinct_iff)
  note view' = view[unfolded run_view_def]
  have "ar_startedAt r \<noteq> None" if "ar_status r \<noteq> RunCreated"
    using that view' log_status_created[of ?ts] started_unless_created by metis
  then have st: "ar_status r = RunCreated \<or> ar_status r = RunRunning \<and> ar_startedAt r \<noteq> None"
    using nt by (cases "ar_status r") (auto simp: isTerminalStatus_def)
  note snoc = time_of_snoc log_status_snoc[OF open_run]
  show ?thesis
    using view' ne nt none noterm st type
    by (cases "ev_type e"; cases "ar_status r")
      (auto simp: run_view_def touchRun_def snoc Let_def starting_type_def orStart_def isTerminalStatus_def
        evidence_of_def set_lsort distinct_lsort time_none split: option.splits)
qed

lemma step_view:
  assumes st: "log_state ro ps" and parse: "parseRunEvent x = Inr e" and perm: "\<And>xs. mset (lsort xs) = mset xs"
  shows "(\<exists>ro'. runStep lsort ro x = Inr ro' \<and> log_state ro' (ps @ [e])) \<or>
         (\<exists>err. runStep lsort ro x = Inl err) \<and> \<not> run_log (ps @ [e])"
proof (cases ro)
  case None
  then have ps: "ps = []" using st by (simp add: log_state_def)
  show ?thesis
  proof (cases "ev_type e = RUN_CREATED \<and> run_of e = JStr (ev_streamId e)")
    case True
    then show ?thesis using None ps parse create_view[of e]
      by (simp add: runStep_def run_of_def log_state_def)
  next
    case False
    then show ?thesis using None ps parse by (auto simp: runStep_def run_of_def)
  qed
next
  case (Some r)
  then have log: "run_log ps" and ne: "ps \<noteq> []" and view: "run_view r ps" using st by (auto simp: log_state_def)
  have rid: "ar_runId r = ev_streamId (hd ps)" using view by (simp add: run_view_def)
  have tr: "truthy (run_of e)" using parse_runId[OF parse] by auto
  show ?thesis
  proof (cases "run_log (ps @ [e])")
    case True
    then have t: "ev_type e \<noteq> RUN_CREATED" and r: "run_of e = JStr (ar_runId r)" and o: "\<not> list_ex terminal_type (map ev_type ps)"
      using run_log_snoc[OF ne] rid by auto
    obtain r' where "runBranch lsort (ev_type e) r e = Inr r'" "run_view (touchRun e r') (ps @ [e])"
      using branch_view[OF view ne o t perm] by blast
    then show ?thesis using Some parse t r True by (auto simp: runStep_def run_of_def log_state_def)
  next
    case False
    have stt: "isTerminalStatus (ar_status r) \<longleftrightarrow> list_ex terminal_type (map ev_type ps)"
      using view by (simp add: run_view_def log_status_terminal)
    have "ev_type e = RUN_CREATED \<or> run_of e \<noteq> JStr (ar_runId r) \<or> isTerminalStatus (ar_status r)"
      using False log run_log_snoc[OF ne, of e] rid stt by auto
    then have "\<exists>err. runStep lsort ro x = Inl err"
      using Some parse tr by (cases "ev_type e") (auto simp: runStep_def run_of_def isTerminalStatus_def Let_def)
    then show ?thesis using False by blast
  qed
qed

lemma fold_view:
  assumes perm: "\<And>xs. mset (lsort xs) = mset xs"
  shows "foldRes (runStep lsort) None es = Inr ro \<Longrightarrow> \<exists>ps. mapRes parseRunEvent es = Inr ps \<and> log_state ro ps"
proof (induction es arbitrary: ro rule: rev_induct)
  case Nil then show ?case by (simp add: log_state_def)
next
  case (snoc x xs)
  obtain ro1 where f1: "foldRes (runStep lsort) None xs = Inr ro1" and f2: "runStep lsort ro1 x = Inr ro"
    using snoc.prems by (auto simp: foldRes_append andThen_Inr_iff)
  obtain ps where ps: "mapRes parseRunEvent xs = Inr ps" "log_state ro1 ps" using snoc.IH[OF f1] by blast
  obtain e where e: "parseRunEvent x = Inr e" using f2 by (auto simp: runStep_def andThen_Inr_iff)
  have "log_state ro (ps @ [e])" using step_view[OF ps(2) e perm] f2 by auto
  moreover have "mapRes parseRunEvent (xs @ [x]) = Inr (ps @ [e])"
    using ps(1) e by (simp add: mapRes_Inr_iff list_all2_appendI)
  ultimately show ?case by blast
qed

lemma run_log_prefix: "run_log (ps @ qs) \<Longrightarrow> run_log ps"
proof (induction qs rule: rev_induct)
  case (snoc q qs)
  then show ?case using run_log_snoc[of "ps @ qs" q] by (cases "ps @ qs = []") auto
qed simp

lemma fold_accepts:
  assumes perm: "\<And>xs. mset (lsort xs) = mset xs"
  shows "mapRes parseRunEvent es = Inr ps \<Longrightarrow> run_log ps \<Longrightarrow> \<exists>ro. foldRes (runStep lsort) None es = Inr ro \<and> log_state ro ps"
proof (induction es arbitrary: ps rule: rev_induct)
  case Nil then show ?case by (simp add: log_state_def)
next
  case (snoc x xs)
  obtain qs e where ps: "ps = qs @ [e]" "mapRes parseRunEvent xs = Inr qs" "parseRunEvent x = Inr e"
    using snoc.prems(1) by (auto simp: mapRes_Inr_iff list_all2_append1 list_all2_Cons1)
  have "run_log qs" using snoc.prems(2) ps(1) run_log_prefix by blast
  then obtain ro where ro: "foldRes (runStep lsort) None xs = Inr ro" "log_state ro qs" using snoc.IH[OF ps(2)] by blast
  show ?case using step_view[OF ro(2) ps(3) perm] ro(1) snoc.prems(2) ps(1) by (auto simp: foldRes_append)
qed

lemma agent_run_log_view:
  assumes "\<And>xs. mset (lsort xs) = mset xs" and "reduceAgentRun lsort (JArr es) = Inr (Some r)"
  shows "\<exists>ps. mapRes parseRunEvent es = Inr ps \<and> run_log ps \<and> run_view r ps"
  using fold_view[OF assms(1), where es = es and ro = "Some r"] assms(2)
  by (auto simp: reduceAgentRun_def log_state_def split: if_splits)

lemma last_status:
  assumes "run_log ps" and "ps \<noteq> []"
  shows "log_status (map ev_type ps) = RunCompleted \<longleftrightarrow> ev_type (last ps) = RUN_COMPLETED"
    and "log_status (map ev_type ps) = RunFailed \<longleftrightarrow> ev_type (last ps) = RUN_FAILED"
  using assms by (cases ps rule: rev_cases; cases "butlast ps";
    auto simp: run_log_snoc log_status_def list_ex_iff terminal_type_def)+

text \<open>C13: The reducer accepts exactly the logs that open with the creation of the run, carry events of that run only and have
  nothing after a completion or a failure; every other sequence of events is an error. The run it returns is read off
  the log: its revision counts the events after the creation, its status is that of its terminal event, else whether it
  has started, the times are those of the first event that starts it and of the terminal one, and its evidence is the
  set of references added.\<close>

theorem agent_run_log:
  assumes "\<And>xs. mset (lsort xs) = mset xs"
  shows "((\<exists>r. reduceAgentRun lsort (JArr es) = Inr (Some r)) \<longleftrightarrow>
            es \<noteq> [] \<and> (\<exists>ps. mapRes parseRunEvent es = Inr ps \<and> run_log ps)) \<and>
         (\<forall>r. reduceAgentRun lsort (JArr es) = Inr (Some r) \<longrightarrow>
            (\<exists>ps. mapRes parseRunEvent es = Inr ps \<and> run_log ps \<and> run_view r ps))"
proof -
  have parsed: "\<exists>ps. mapRes parseRunEvent es = Inr ps \<and> es \<noteq> [] \<and> run_log ps \<and> run_view r ps"
    if "reduceAgentRun lsort (JArr es) = Inr (Some r)" for r
    using that fold_view[OF assms, where es = es and ro = "Some r"]
    by (auto simp: reduceAgentRun_def log_state_def split: if_splits)
  have "\<exists>r. reduceAgentRun lsort (JArr es) = Inr (Some r)"
    if es: "es \<noteq> []" and ps: "mapRes parseRunEvent es = Inr ps" "run_log ps" for ps
  proof -
    obtain ro where ro: "foldRes (runStep lsort) None es = Inr ro" "log_state ro ps"
      using fold_accepts[OF assms ps] by blast
    have "ps \<noteq> []" using ps(1) es by (auto simp: mapRes_Inr_iff)
    then obtain r where "ro = Some r" using ro(2) by (cases ro) (auto simp: log_state_def)
    then show ?thesis using ro(1) es by (auto simp: reduceAgentRun_def)
  qed
  then show ?thesis using parsed by blast
qed

definition sample_event :: "string \<Rightarrow> string \<Rightarrow> props \<Rightarrow> jsval" where
  "sample_event type atArg payload =
     JObj [(''type'', JStr type), (''streamId'', JStr ''run_1''), (''at'', JStr atArg),
           (''payload'', JObj ((''runId'', JStr ''run_1'') # payload))]"

definition sample_log :: "jsval list" where
  "sample_log =
     [sample_event ''RUN_CREATED'' ''2026-01-01T00:00:00.000Z'' [(''agentId'', JStr ''a''), (''tenantId'', JStr ''t'')],
      sample_event ''RUN_STARTED'' ''2026-01-01T00:00:01.000Z'' [],
      sample_event ''EVIDENCE_ADDED'' ''2026-01-01T00:00:02.000Z'' [(''evidenceRef'', JStr ''e'')],
      sample_event ''RUN_COMPLETED'' ''2026-01-01T00:00:03.500Z'' [(''metrics'', JObj [(''settlementReleaseRatePct'', JInt 40)])]]"

lemma sample_log_accepted: "\<exists>r. reduceAgentRun (\<lambda>xs. xs) (JArr sample_log) = Inr (Some r) \<and> ar_status r = RunCompleted \<and>
    ar_revision r = 3 \<and> ar_evidenceRefs r = [''e''] \<and> ar_startedAt r = Some ''2026-01-01T00:00:01.000Z''"
proof -
  have "case reduceAgentRun (\<lambda>xs. xs) (JArr sample_log) of Inr (Some r) \<Rightarrow> ar_status r = RunCompleted \<and>
    ar_revision r = 3 \<and> ar_evidenceRefs r = [''e''] \<and> ar_startedAt r = Some ''2026-01-01T00:00:01.000Z'' | _ \<Rightarrow> False"
    by code_simp
  then show ?thesis by (auto split: sum.splits option.splits)
qed

theorem agent_run_log_witness:
  "\<exists>r ps. reduceAgentRun (\<lambda>xs. xs) (JArr sample_log) = Inr (Some r) \<and> mapRes parseRunEvent sample_log = Inr ps \<and>
     run_log ps \<and> run_view r ps \<and> ar_status r = RunCompleted"
  using sample_log_accepted agent_run_log[of "\<lambda>xs. xs" sample_log] by fastforce

section \<open>The verification of a run\<close>

lemma verdict_of_run:
  "run_verdict_of (js_of_run r) =
     (case ar_status r of
        RunCompleted \<Rightarrow> let rate = release_rate (js_of_run r) in
          (if rate = 100 then Green else if rate = 0 then Red else Amber,
           if rate = 100 then [] else if rate = 0 then [''RUN_COMPLETED_ZERO_SETTLEMENT'']
           else [''RUN_COMPLETED_PARTIAL_SETTLEMENT''], Some rate)
      | RunFailed \<Rightarrow> (Red, ''RUN_FAILED'' # (case ar_failure r of
            Some (Some c, _) \<Rightarrow> (if trim c \<noteq> [] then [''RUN_FAILED_'' @ c] else []) | _ \<Rightarrow> []), Some 0)
      | RunRunning \<Rightarrow> (Amber, [''RUN_IN_PROGRESS''], None)
      | RunCreated \<Rightarrow> (Amber, [''RUN_CREATED_NOT_STARTED''], None))"
proof -
  have "0 \<le> release_rate v" "release_rate v \<le> 100" for v by (auto simp: release_rate_def split: option.splits)
  then have "release_rate v \<le> 0 \<longleftrightarrow> release_rate v = 0" "100 \<le> release_rate v \<longleftrightarrow> release_rate v = 100" for v
    by (metis dual_order.antisym order.refl)+
  then show ?thesis
    by (cases "ar_status r") (auto simp: run_verdict_of_def js_of_run_def js_opt_def Let_def split: option.splits)
qed

lemma date_nonempty: "date_parse s = Some t \<Longrightarrow> s \<noteq> []"
proof -
  have "date_parse [] = None" by code_simp
  then show "date_parse s = Some t \<Longrightarrow> s \<noteq> []" by auto
qed

text \<open>Which log a document of a run comes from does not matter for its times: they are times that parse.\<close>

lemma parsed_time: "parseRunEvent x = Inr e \<Longrightarrow> \<exists>t. date_parse (ev_at e) = Some t"
  by (auto simp: parseRunEvent_def res_simps Let_def is_iso_def split: if_splits)

lemma parsed_times:
  assumes "mapRes parseRunEvent es = Inr ps" and "time_of P ps = Some s"
  shows "\<exists>t. date_parse s = Some t"
proof -
  obtain e where e: "List.find P ps = Some e" and s: "s = ev_at e" using assms(2) by (auto simp: time_of_def)
  have "e \<in> set ps" using e by (auto simp: find_Some_iff)
  then obtain x where "parseRunEvent x = Inr e"
    using assms(1) by (fastforce simp: mapRes_Inr_iff list_all2_conv_all_nth in_set_conv_nth)
  then show ?thesis using s parsed_time by blast
qed

lemma parse_time_text [simp]: "parse_time_of (js_opt (Some s)) = (if s = [] then None else date_parse s)" "parse_time_of (js_opt None) = None"
  by (simp_all add: parse_time_of_def js_opt_def)

text \<open>The time between the event that starts a run and the one that ends it.\<close>

definition log_duration :: "run_event list \<Rightarrow> int option" where
  "log_duration ps =
     (case (time_of (\<lambda>e. starting_type (ev_type e)) ps, time_of (\<lambda>e. terminal_type (ev_type e)) ps) of
        (Some s, Some e) \<Rightarrow> (case (date_parse s, date_parse e) of (Some a, Some b) \<Rightarrow> (if a \<le> b then Some (b - a) else None) | _ \<Rightarrow> None)
      | _ \<Rightarrow> None)"

lemma one_terminal:
  assumes "run_log ps"
  shows "(\<forall>e \<in> set ps. ev_type e \<noteq> RUN_COMPLETED) \<or> (\<forall>e \<in> set ps. ev_type e \<noteq> RUN_FAILED)"
proof (cases ps rule: rev_cases)
  case (snoc qs q)
  then show ?thesis using assms run_log_snoc[of qs q] by (cases qs) (auto simp: list_ex_iff terminal_type_def)
qed simp

lemma terminal_time:
  assumes "run_log ps"
  shows "time_of (\<lambda>e. terminal_type (ev_type e)) ps =
    (case time_of (\<lambda>e. ev_type e = RUN_COMPLETED) ps of None \<Rightarrow> time_of (\<lambda>e. ev_type e = RUN_FAILED) ps | Some s \<Rightarrow> Some s)"
  using one_terminal[OF assms]
proof
  assume n: "\<forall>e \<in> set ps. ev_type e \<noteq> RUN_COMPLETED"
  then have "List.find (\<lambda>e. terminal_type (ev_type e)) ps = List.find (\<lambda>e. ev_type e = RUN_FAILED) ps"
    by (intro find_cong) (auto simp: terminal_type_def)
  then show ?thesis using time_none[OF n] by (simp add: time_of_def)
next
  assume n: "\<forall>e \<in> set ps. ev_type e \<noteq> RUN_FAILED"
  then have "List.find (\<lambda>e. terminal_type (ev_type e)) ps = List.find (\<lambda>e. ev_type e = RUN_COMPLETED) ps"
    by (intro find_cong) (auto simp: terminal_type_def)
  then show ?thesis using time_none[OF n] by (simp add: time_of_def split: option.splits)
qed

lemma run_duration_log:
  assumes "mapRes parseRunEvent es = Inr ps" and "run_log ps" and "run_view r ps"
  shows "run_duration (js_of_run r) = log_duration ps"
proof -
  have ne: "time_of P ps = Some s \<Longrightarrow> s \<noteq> []" for P s using parsed_times[OF assms(1)] date_nonempty by blast
  have t: "ar_startedAt r = time_of (\<lambda>e. starting_type (ev_type e)) ps" "ar_completedAt r = time_of (\<lambda>e. ev_type e = RUN_COMPLETED) ps"
    "ar_failedAt r = time_of (\<lambda>e. ev_type e = RUN_FAILED) ps" using assms(3) by (simp_all add: run_view_def)
  have g: "getp (js_of_run r) ''startedAt'' = js_opt (ar_startedAt r)" "getp (js_of_run r) ''completedAt'' = js_opt (ar_completedAt r)"
    "getp (js_of_run r) ''failedAt'' = js_opt (ar_failedAt r)" by (simp_all add: js_of_run_def)
  have tr: "truthy (js_opt (ar_completedAt r)) \<longleftrightarrow> ar_completedAt r \<noteq> None"
    using ne[of "\<lambda>e. ev_type e = RUN_COMPLETED"] t by (auto simp: js_opt_def split: option.splits)
  show ?thesis
    unfolding run_duration_def g log_duration_def terminal_time[OF assms(2)] tr unfolding t
    using ne by (auto split: option.splits)
qed

text \<open>The verification of a run that a log reduces to: it is green exactly when the run completed with a full release
  rate and red exactly when the rate is zero, which a failed run always has; there is a rate, between 0 and 100, exactly
  for terminal runs; evidence, events and duration are those of the log.\<close>

theorem agent_run_verification:
  assumes "\<And>xs. mset (lsort xs) = mset xs" and "reduceAgentRun lsort (JArr es) = Inr (Some r)"
  shows "\<exists>ps v. mapRes parseRunEvent es = Inr ps \<and> v = computeAgentRunVerification (js_of_run r) (JArr es) \<and>
    (rv_verificationStatus v = Green \<longleftrightarrow> ev_type (last ps) = RUN_COMPLETED \<and> rv_settlementReleaseRatePct v = Some 100) \<and>
    (rv_verificationStatus v = Red \<longleftrightarrow> rv_settlementReleaseRatePct v = Some 0) \<and>
    (ev_type (last ps) = RUN_FAILED \<longrightarrow> rv_settlementReleaseRatePct v = Some 0) \<and>
    (case rv_settlementReleaseRatePct v of None \<Rightarrow> \<not> terminal_type (ev_type (last ps))
       | Some n \<Rightarrow> 0 \<le> n \<and> n \<le> 100 \<and> terminal_type (ev_type (last ps))) \<and>
    rv_evidenceCount v = card (evidence_of ` {e \<in> set ps. ev_type e = EVIDENCE_ADDED}) \<and>
    int (rv_eventCount v) = ar_revision r + 1 \<and> rv_durationMs v = log_duration ps"
proof -
  obtain ps where ps: "mapRes parseRunEvent es = Inr ps" "run_log ps" "run_view r ps"
    using agent_run_log_view[OF assms] by blast
  let ?run = "js_of_run r"
  let ?v = "computeAgentRunVerification ?run (JArr es)"
  have ne: "ps \<noteq> []" using assms(2) ps(1) by (auto simp: reduceAgentRun_def mapRes_Inr_iff split: if_splits)
  have st: "ar_status r = RunCompleted \<longleftrightarrow> ev_type (last ps) = RUN_COMPLETED" "ar_status r = RunFailed \<longleftrightarrow> ev_type (last ps) = RUN_FAILED"
    using last_status[OF ps(2) ne] ps(3) by (auto simp: run_view_def)
  have rate: "0 \<le> release_rate ?run" "release_rate ?run \<le> 100" by (auto simp: release_rate_def split: option.splits)
  have verdict: "(rv_verificationStatus ?v, rv_reasonCodes ?v, rv_settlementReleaseRatePct ?v) = run_verdict_of ?run"
    by (simp add: computeAgentRunVerification_def js_of_run_def split: prod.splits)
  have counts: "rv_evidenceCount ?v = length (ar_evidenceRefs r)" "rv_eventCount ?v = length es" "rv_durationMs ?v = run_duration ?run"
    by (simp_all add: computeAgentRunVerification_def js_of_run_def array_length_def dflt_def split: prod.splits)
  have "length (ar_evidenceRefs r) = card (evidence_of ` {e \<in> set ps. ev_type e = EVIDENCE_ADDED})"
    using ps(3) distinct_card[of "ar_evidenceRefs r"] by (simp add: run_view_def)
  moreover have "int (length es) = ar_revision r + 1"
    using ps(3) mapRes_length[OF ps(1)] by (simp add: run_view_def)
  moreover have "run_duration ?run = log_duration ps" by (rule run_duration_log[OF ps])
  ultimately show ?thesis
    using verdict[unfolded verdict_of_run] rate st ps(1) counts
    by (cases "ar_status r") (auto simp: Let_def terminal_type_def split: if_splits)
qed

theorem agent_run_verification_witness:
  "\<exists>r. reduceAgentRun (\<lambda>xs. xs) (JArr sample_log) = Inr (Some r) \<and>
     rv_eventCount (computeAgentRunVerification (js_of_run r) (JArr sample_log)) = 4 \<and>
     rv_settlementReleaseRatePct (computeAgentRunVerification (js_of_run r) (JArr sample_log)) = Some 40 \<and>
     rv_verificationStatus (computeAgentRunVerification (js_of_run r) (JArr sample_log)) = Amber"
proof -
  obtain r where r: "reduceAgentRun (\<lambda>xs. xs) (JArr sample_log) = Inr (Some r)" "ar_revision r = 3"
    using sample_log_accepted by blast
  have "case reduceAgentRun (\<lambda>xs. xs) (JArr sample_log) of
     Inr (Some r) \<Rightarrow> rv_settlementReleaseRatePct (computeAgentRunVerification (js_of_run r) (JArr sample_log)) = Some 40 \<and>
       rv_verificationStatus (computeAgentRunVerification (js_of_run r) (JArr sample_log)) \<noteq> Green | _ \<Rightarrow> False" by code_simp
  then show ?thesis using r agent_run_verification[of "\<lambda>xs. xs" sample_log r]
    by (cases "rv_verificationStatus (computeAgentRunVerification (js_of_run r) (JArr sample_log))") auto
qed

end
