(* ===== verification/SettlementVerifier.thy ===== *)
theory SettlementVerifier
  imports AgentRuns Documents
begin

text \<open>
  \<^verbatim>\<open>src/core/settlement-verifier.js\<close>: the verification status a settlement is decided on. A method whose source
  names one of the deterministic verifiers is evaluated by it, every other keeps the status of the run's own
  verification. \<open>H\<close> is sha256 and \<open>queryOf s k\<close> is \<^verbatim>\<open>new URL(s).searchParams.get(k)\<close>, with \<open>None\<close> for a URL
  that does not parse.
\<close>

section \<open>Constants\<close>

definition ALLOWED_STATUSES :: "string list" where
  "ALLOWED_STATUSES = [''green'', ''amber'', ''red'']"

definition LATENCY_THRESHOLD_V1 :: string where
  "LATENCY_THRESHOLD_V1 = ''verifier://nooterra/deterministic/latency-threshold-v1''"

definition SCHEMA_CHECK_V1 :: string where
  "SCHEMA_CHECK_V1 = ''verifier://nooterra/deterministic/schema-check-v1''"

definition JSONSCHEMA_V1 :: string where
  "JSONSCHEMA_V1 = ''verifier://nooterra/deterministic/jsonschema-v1''"

section \<open>Normalization\<close>

definition normalizeNullableLowerString :: "jsval \<Rightarrow> string option" where
  "normalizeNullableLowerString v =
     (if nullish v then None else let out = toLowerCase (trim (js_String v)) in if out = [] then None else Some out)"

definition normalizeVerificationStatus :: "jsval \<Rightarrow> string \<Rightarrow> string" where
  "normalizeVerificationStatus v fallback =
     (case normalizeNullableLowerString v of Some s \<Rightarrow> (if s \<in> set ALLOWED_STATUSES then s else fallback) | None \<Rightarrow> fallback)"

text \<open>\<^verbatim>\<open>s.replace(/\/+$/, "")\<close>\<close>

definition strip_slashes :: "string \<Rightarrow> string" where
  "strip_slashes s = rev (dropWhile (\<lambda>c. c = CHR ''/'') (rev s))"

definition normalizeVerifierSource :: "jsval \<Rightarrow> string option" where
  "normalizeVerifierSource v = map_option strip_slashes (normalizeNullableLowerString v)"

text \<open>\<^verbatim>\<open>s.split(sep)[0]\<close>\<close>

definition before :: "char \<Rightarrow> string \<Rightarrow> string" where
  "before sep s = takeWhile (\<lambda>c. c \<noteq> sep) s"

definition optJs :: "string option \<Rightarrow> jsval" where
  "optJs x = (case x of None \<Rightarrow> JNull | Some s \<Rightarrow> JStr s)"

definition normalizeVerifierSourceBase :: "string option \<Rightarrow> string option" where
  "normalizeVerifierSourceBase source =
     (case normalizeVerifierSource (optJs source) of
        None \<Rightarrow> None
      | Some normalized \<Rightarrow>
          if normalized = [] then None
          else let base = strip_slashes (before (CHR ''#'') (before (CHR ''?'') normalized)) in
            if base = [] then None else Some base)"

definition toSafeNonNegativeInt :: "jsval \<Rightarrow> int option" where
  "toSafeNonNegativeInt v = (case isSafeNumber v of Some n \<Rightarrow> (if n < 0 then None else Some n) | None \<Rightarrow> None)"

definition orInt :: "int option \<Rightarrow> int option \<Rightarrow> int option" where
  "orInt x y = (case x of Some n \<Rightarrow> Some n | None \<Rightarrow> y)"

definition js_int_opt :: "int option \<Rightarrow> jsval" where
  "js_int_opt x = (case x of None \<Rightarrow> JNull | Some n \<Rightarrow> JInt n)"

section \<open>The verifiers\<close>

record schema_check_config =
  latencyMaxMs :: int
  requireReleaseRate :: bool

definition parseDeterministicSchemaCheckConfig ::
  "(string \<Rightarrow> (string \<Rightarrow> string option) option) \<Rightarrow> string \<Rightarrow> schema_check_config" where
  "parseDeterministicSchemaCheckConfig queryOf source =
     (if source = [] then \<lparr>latencyMaxMs = 1200, requireReleaseRate = False\<rparr>
      else case queryOf source of
        None \<Rightarrow> \<lparr>latencyMaxMs = 1200, requireReleaseRate = False\<rparr>
      | Some get \<Rightarrow>
          let raw = toLowerCase (trim (js_String (orElse (optJs (get ''requiresettlementreleaseratepct'')) (JStr [])))) in
          \<lparr>latencyMaxMs = (case toSafeNonNegativeInt (optJs (get ''latencymaxms'')) of Some n \<Rightarrow> n | None \<Rightarrow> 1200),
           requireReleaseRate = (raw = ''1'' \<or> raw = ''true'' \<or> raw = ''yes'')\<rparr>)"

definition computeVerifierHash :: "(string \<Rightarrow> string) \<Rightarrow> string \<Rightarrow> string \<Rightarrow> string \<Rightarrow> string res" where
  "computeVerifierHash H verifierId verifierVersion source =
     andThen (normalizeForCanonicalJson (JObj [(''schemaVersion'', JStr ''SettlementVerifierDescriptor.v1''),
        (''verifierId'', JStr verifierId), (''verifierVersion'', JStr verifierVersion), (''source'', JStr source)]) ''$'' False) (\<lambda>d.
     andThen (canonicalJsonStringify d) (\<lambda>s. Inr (H s)))"

record plugin_result =
  pr_status :: string
  pr_reasonCodes :: "string list"
  pr_summary :: jsval

definition latencyOf :: "jsval \<Rightarrow> jsval \<Rightarrow> int option" where
  "latencyOf run verification =
     orInt (toSafeNonNegativeInt (getp (getp run ''metrics'') ''latencyMs''))
       (toSafeNonNegativeInt (getp verification ''durationMs''))"

definition latency_result :: "string \<Rightarrow> string list \<Rightarrow> int option \<Rightarrow> plugin_result" where
  "latency_result status codes latency = \<lparr>pr_status = status, pr_reasonCodes = codes,
     pr_summary = JObj [(''latencyMs'', js_int_opt latency), (''thresholdGreenMs'', JInt 1000), (''thresholdRedMs'', JInt 4000)]\<rparr>"

definition evaluateDeterministicLatencyThreshold :: "jsval \<Rightarrow> jsval \<Rightarrow> plugin_result" where
  "evaluateDeterministicLatencyThreshold run verification =
     (if normalizeNullableLowerString (getp run ''status'') = Some ''failed''
      then latency_result ''red'' [''verifier_plugin_run_failed''] None
      else case latencyOf run verification of
        None \<Rightarrow> latency_result ''amber'' [''verifier_plugin_latency_missing''] None
      | Some ms \<Rightarrow>
          if ms \<le> 1000 then latency_result ''green'' [] (Some ms)
          else if 4000 \<le> ms then latency_result ''red'' [''verifier_plugin_latency_above_red_threshold''] (Some ms)
          else latency_result ''amber'' [''verifier_plugin_latency_between_thresholds''] (Some ms))"

definition violation :: "string \<Rightarrow> string \<Rightarrow> string \<Rightarrow> jsval" where
  "violation path code msg = JObj [(''path'', JStr path), (''code'', JStr code), (''message'', JStr msg)]"

definition schemaViolations :: "schema_check_config \<Rightarrow> jsval \<Rightarrow> int option \<Rightarrow> int option \<Rightarrow> jsval list" where
  "schemaViolations cfg run latency rate =
     (if normalizeNullableLowerString (getp run ''status'') \<noteq> Some ''completed''
      then [violation ''$.status'' ''not_completed'' ''run.status must be completed''] else [])
   @ (case latency of
        None \<Rightarrow> [violation ''$.metrics.latencyMs'' ''missing_latency'' ''metrics.latencyMs is required and must be a non-negative integer'']
      | Some ms \<Rightarrow> (if latencyMaxMs cfg < ms
          then [violation ''$.metrics.latencyMs'' ''latency_above_max'' (''metrics.latencyMs must be <= '' @ show_int (latencyMaxMs cfg))] else []))
   @ (case rate of
        None \<Rightarrow> (if requireReleaseRate cfg
          then [violation ''$.metrics.settlementReleaseRatePct'' ''missing_release_rate'' ''metrics.settlementReleaseRatePct is required''] else [])
      | Some n \<Rightarrow> (if 100 < n
          then [violation ''$.metrics.settlementReleaseRatePct'' ''release_rate_out_of_range'' ''metrics.settlementReleaseRatePct must be <= 100'']
          else []))"

definition schema_summary :: "string \<Rightarrow> schema_check_config \<Rightarrow> props \<Rightarrow> jsval" where
  "schema_summary source cfg rest = JObj
     ([(''schemaVersion'', JStr ''DeterministicVerifierSchemaCheck.v1''), (''source'', JStr source),
       (''latencyMaxMs'', JInt (latencyMaxMs cfg)), (''requireSettlementReleaseRatePct'', JBool (requireReleaseRate cfg))] @ rest)"

definition evaluateDeterministicSchemaCheck ::
  "(string \<Rightarrow> (string \<Rightarrow> string option) option) \<Rightarrow> jsval \<Rightarrow> jsval \<Rightarrow> string \<Rightarrow> plugin_result" where
  "evaluateDeterministicSchemaCheck queryOf run verification source =
     (let cfg = parseDeterministicSchemaCheckConfig queryOf source;
          latency = latencyOf run verification;
          rate = toSafeNonNegativeInt (getp (getp run ''metrics'') ''settlementReleaseRatePct'');
          violations = schemaViolations cfg run latency rate
      in if violations \<noteq> []
         then \<lparr>pr_status = ''red'', pr_reasonCodes = [''verifier_plugin_schema_check_failed''],
               pr_summary = schema_summary source cfg [(''violations'', JArr violations)]\<rparr>
         else \<lparr>pr_status = ''green'', pr_reasonCodes = [],
               pr_summary = schema_summary source cfg
                 [(''metrics'', JObj [(''latencyMs'', js_int_opt latency), (''settlementReleaseRatePct'', js_int_opt rate)])]\<rparr>)"

section \<open>Choosing the verifier\<close>

datatype plugin = LatencyThreshold | SchemaCheck

record verifier_ref =
  vr_verifierId :: string
  vr_verifierVersion :: string
  vr_verifierHash :: "string option"
  vr_modality :: "string option"
  vr_source :: "string option"
  vr_matchedPlugin :: "plugin option"

definition plugin_ref :: "(string \<Rightarrow> string) \<Rightarrow> string \<Rightarrow> string \<Rightarrow> string option \<Rightarrow> plugin \<Rightarrow> verifier_ref res" where
  "plugin_ref H verifierId own source p =
     mapR (\<lambda>h. \<lparr>vr_verifierId = verifierId, vr_verifierVersion = ''v1'', vr_verifierHash = Some h, vr_modality = Some ''deterministic'',
       vr_source = source, vr_matchedPlugin = Some p\<rparr>)
       (computeVerifierHash H verifierId ''v1'' (case source of Some s \<Rightarrow> s | None \<Rightarrow> own))"

definition resolveSettlementVerifierRef :: "(string \<Rightarrow> string) \<Rightarrow> jsval \<Rightarrow> verifier_ref res" where
  "resolveSettlementVerifierRef H verificationMethod =
     (let method = (if isObjectLike verificationMethod then verificationMethod else JNull);
          source = normalizeVerifierSource (getp method ''source'');
          base = normalizeVerifierSourceBase source
      in if base = Some LATENCY_THRESHOLD_V1
         then plugin_ref H ''nooterra.deterministic.latency-threshold'' LATENCY_THRESHOLD_V1 source LatencyThreshold
         else if base = Some SCHEMA_CHECK_V1 \<or> base = Some JSONSCHEMA_V1
         then plugin_ref H ''nooterra.deterministic.schema-check'' SCHEMA_CHECK_V1 source SchemaCheck
         else Inr \<lparr>vr_verifierId = ''nooterra.policy-engine'', vr_verifierVersion = ''v1'', vr_verifierHash = None,
                  vr_modality = normalizeNullableLowerString (getp method ''mode''), vr_source = source, vr_matchedPlugin = None\<rparr>)"

record verifier_execution =
  ve_verificationStatus :: string
  ve_ref :: verifier_ref
  ve_pluginMatched :: bool
  ve_reasonCodes :: "string list"
  ve_summary :: jsval

definition plugin_execution :: "verifier_ref \<Rightarrow> string \<Rightarrow> plugin_result \<Rightarrow> verifier_execution" where
  "plugin_execution ref baseStatus r =
     \<lparr>ve_verificationStatus = normalizeVerificationStatus (JStr (pr_status r)) baseStatus, ve_ref = ref, ve_pluginMatched = True,
      ve_reasonCodes = pr_reasonCodes r, ve_summary = pr_summary r\<rparr>"

definition evaluateSettlementVerifierExecution ::
  "(string \<Rightarrow> string) \<Rightarrow> (string \<Rightarrow> (string \<Rightarrow> string option) option) \<Rightarrow> jsval \<Rightarrow> jsval \<Rightarrow> jsval \<Rightarrow> jsval \<Rightarrow> verifier_execution res" where
  "evaluateSettlementVerifierExecution H queryOf verificationMethod run verification baseVerificationStatus =
     mapR (\<lambda>ref. let baseStatus = normalizeVerificationStatus baseVerificationStatus ''amber'' in
       case vr_matchedPlugin ref of
         Some LatencyThreshold \<Rightarrow> plugin_execution ref baseStatus (evaluateDeterministicLatencyThreshold run verification)
       | Some SchemaCheck \<Rightarrow> plugin_execution ref baseStatus
           (evaluateDeterministicSchemaCheck queryOf run verification (case vr_source ref of Some s \<Rightarrow> s | None \<Rightarrow> SCHEMA_CHECK_V1))
       | None \<Rightarrow> \<lparr>ve_verificationStatus = baseStatus, ve_ref = ref, ve_pluginMatched = False, ve_reasonCodes = [], ve_summary = JNull\<rparr>)
       (resolveSettlementVerifierRef H verificationMethod)"

text \<open>\<^verbatim>\<open>evaluateRunSettlementVerifierExecution\<close> of \<^verbatim>\<open>src/api/app.js\<close>: a failed run starts from red.\<close>

fun verdict_name :: "run_verdict \<Rightarrow> string" where
  "verdict_name Amber = ''amber''"
| "verdict_name Green = ''green''"
| "verdict_name Red = ''red''"

definition js_of_verification :: "run_verification \<Rightarrow> jsval" where
  "js_of_verification v = JObj
     [(''verificationStatus'', JStr (verdict_name (rv_verificationStatus v))), (''runStatus'', rv_runStatus v),
      (''reasonCodes'', JArr (map JStr (rv_reasonCodes v))), (''evidenceCount'', JInt (int (rv_evidenceCount v))),
      (''eventCount'', JInt (int (rv_eventCount v))), (''durationMs'', js_int_opt (rv_durationMs v)),
      (''settlementReleaseRatePct'', js_int_opt (rv_settlementReleaseRatePct v))]"

definition evaluateRunSettlementVerifierExecution ::
  "(string \<Rightarrow> string) \<Rightarrow> (string \<Rightarrow> (string \<Rightarrow> string option) option) \<Rightarrow> jsval \<Rightarrow> jsval \<Rightarrow> run_verification \<Rightarrow> verifier_execution res" where
  "evaluateRunSettlementVerifierExecution H queryOf verificationMethod run verification =
     evaluateSettlementVerifierExecution H queryOf verificationMethod run (js_of_verification verification)
       (if getp run ''status'' = JStr ''failed'' then JStr ''red'' else JStr (verdict_name (rv_verificationStatus verification)))"

section \<open>Statuses\<close>

lemma status_texts:
  "normalizeNullableLowerString (JStr ''green'') = Some ''green''" "normalizeNullableLowerString (JStr ''amber'') = Some ''amber''"
  "normalizeNullableLowerString (JStr ''red'') = Some ''red''" "normalizeNullableLowerString (JStr ''completed'') = Some ''completed''"
  "normalizeNullableLowerString (JStr ''failed'') = Some ''failed''"
  by code_simp+

lemma normalizeVerificationStatus_allowed [simp]:
  "s \<in> set ALLOWED_STATUSES \<Longrightarrow> normalizeVerificationStatus (JStr s) d = s"
  by (auto simp: normalizeVerificationStatus_def ALLOWED_STATUSES_def status_texts)

lemma normalizeVerificationStatus_in: "d \<in> set ALLOWED_STATUSES \<Longrightarrow> normalizeVerificationStatus v d \<in> set ALLOWED_STATUSES"
  by (auto simp: normalizeVerificationStatus_def split: option.splits)

lemma amber_allowed [simp]: "''amber'' \<in> set ALLOWED_STATUSES" "''red'' \<in> set ALLOWED_STATUSES" "''green'' \<in> set ALLOWED_STATUSES"
  by (simp_all add: ALLOWED_STATUSES_def)

lemma plugin_statuses:
  "pr_status (evaluateDeterministicLatencyThreshold run v) \<in> set ALLOWED_STATUSES"
  "pr_status (evaluateDeterministicSchemaCheck q run v s) \<in> set ALLOWED_STATUSES"
  by (auto simp: evaluateDeterministicLatencyThreshold_def evaluateDeterministicSchemaCheck_def latency_result_def Let_def
      split: option.splits)

section \<open>The reference\<close>

lemma mapRes_total: "(\<And>x. x \<in> set xs \<Longrightarrow> \<exists>y. f x = Inr y) \<Longrightarrow> \<exists>ys. mapRes f xs = Inr ys"
proof (induction xs)
  case (Cons x xs)
  then obtain y ys where "f x = Inr y" "mapRes f xs = Inr ys" by (meson list.set_intros)
  then show ?case by simp
qed simp

lemma verifier_hash_ok: "\<exists>h. computeVerifierHash H i v s = Inr h"
proof -
  let ?ps = "[(''schemaVersion'', JStr ''SettlementVerifierDescriptor.v1''), (''verifierId'', JStr i), (''verifierVersion'', JStr v), (''source'', JStr s)]"
  have n: "normalizeForCanonicalJson (JObj ?ps) ''$'' False = Inr (JObj ?ps)"
    by (rule normalize_literal_id) (simp_all add: plain_keys_def plain_key_def is_digit_def)
  have "\<exists>ys. mapRes (\<lambda>p. andThen (canonicalize (snd p)) (\<lambda>w. Inr (fst p, w))) (sorted_props ?ps) = Inr ys"
    by (rule mapRes_total) (auto simp: set_sorted_props)
  then have "\<exists>t. canonicalJsonStringify (JObj ?ps) = Inr t"
    by (auto simp: canonicalJsonStringify_def)
  then show ?thesis unfolding computeVerifierHash_def n andThen_simps by auto
qed

lemma ref_total: "\<exists>ref. resolveSettlementVerifierRef H m = Inr ref"
proof -
  have "\<exists>ref. plugin_ref H i own source p = Inr ref" for i own source p
    using verifier_hash_ok[of H i "''v1''" "case source of Some s \<Rightarrow> s | None \<Rightarrow> own"] by (auto simp: plugin_ref_def)
  then show ?thesis by (simp add: resolveSettlementVerifierRef_def Let_def)
qed

lemma plugin_ref_plugin: "plugin_ref H i own source p = Inr ref \<Longrightarrow> vr_matchedPlugin ref = Some p \<and> vr_source ref = source"
  by (auto simp: plugin_ref_def mapR_Inr_iff)

definition method_source :: "jsval \<Rightarrow> string option" where
  "method_source m = normalizeVerifierSource (getp (if isObjectLike m then m else JNull) ''source'')"

text \<open>The verifier a method names.\<close>

definition plugin_of :: "jsval \<Rightarrow> plugin option" where
  "plugin_of m =
     (let base = normalizeVerifierSourceBase (method_source m) in
      if base = Some LATENCY_THRESHOLD_V1 then Some LatencyThreshold
      else if base = Some SCHEMA_CHECK_V1 \<or> base = Some JSONSCHEMA_V1 then Some SchemaCheck else None)"

lemma ref_plugin:
  "resolveSettlementVerifierRef H m = Inr ref \<Longrightarrow> vr_matchedPlugin ref = plugin_of m \<and> vr_source ref = method_source m"
  by (auto simp: resolveSettlementVerifierRef_def plugin_of_def method_source_def Let_def dest: plugin_ref_plugin split: if_splits)

lemma source_of_plugin: "plugin_of m = Some p \<Longrightarrow> \<exists>s. method_source m = Some s \<and> s \<noteq> []"
proof -
  have "normalizeVerifierSourceBase None = None" "normalizeVerifierSourceBase (Some []) = None" by (code_simp, code_simp)
  then show "plugin_of m = Some p \<Longrightarrow> ?thesis" by (cases "method_source m") (auto simp: plugin_of_def Let_def)
qed

text \<open>An execution is that of the verifier the method names, or keeps the given status.\<close>

lemma execution:
  "\<exists>out. evaluateSettlementVerifierExecution H q m run v b = Inr out \<and>
     ve_verificationStatus out =
       (case plugin_of m of
          None \<Rightarrow> normalizeVerificationStatus b ''amber''
        | Some LatencyThreshold \<Rightarrow> pr_status (evaluateDeterministicLatencyThreshold run v)
        | Some SchemaCheck \<Rightarrow> pr_status (evaluateDeterministicSchemaCheck q run v (the (method_source m))))"
proof -
  obtain ref where ref: "resolveSettlementVerifierRef H m = Inr ref" using ref_total by blast
  show ?thesis
    using ref_plugin[OF ref] source_of_plugin[of m] plugin_statuses
    by (cases "plugin_of m") (auto simp: evaluateSettlementVerifierExecution_def ref plugin_execution_def Let_def split: plugin.splits)
qed

section \<open>Properties\<close>

text \<open>The execution of a verifier always returns, with one of the three verification statuses, whatever the method,
  the run and the verification are.\<close>

theorem verifier_execution_total:
  "\<exists>out. evaluateSettlementVerifierExecution H queryOf vm run verification base = Inr out \<and>
     ve_verificationStatus out \<in> {''green'', ''amber'', ''red''}"
proof -
  have "normalizeVerificationStatus base ''amber'' \<in> set ALLOWED_STATUSES" by (rule normalizeVerificationStatus_in) simp
  then show ?thesis using execution[of H queryOf vm run verification base] plugin_statuses
    by (cases "plugin_of vm") (auto simp: ALLOWED_STATUSES_def split: plugin.splits)
qed

text \<open>A run that failed is red under every verification method, deterministic verifiers and the policy engine alike.\<close>

theorem failed_run_is_red:
  assumes "getp run ''status'' = JStr ''failed''"
  shows "\<exists>out. evaluateRunSettlementVerifierExecution H queryOf vm run verification = Inr out \<and> ve_verificationStatus out = ''red''"
proof -
  have "normalizeVerificationStatus (JStr ''red'') ''amber'' = ''red''" by simp
  moreover have "pr_status (evaluateDeterministicLatencyThreshold run v) = ''red''" for v
    using assms by (simp add: evaluateDeterministicLatencyThreshold_def latency_result_def status_texts)
  moreover have "pr_status (evaluateDeterministicSchemaCheck q run v s) = ''red''" for q v s
    using assms by (simp add: evaluateDeterministicSchemaCheck_def schemaViolations_def status_texts Let_def)
  ultimately show ?thesis
    using execution[of H queryOf vm run "js_of_verification verification" "JStr ''red''"] assms
    by (cases "plugin_of vm") (auto simp: evaluateRunSettlementVerifierExecution_def split: plugin.splits)
qed

definition schema_passes :: "schema_check_config \<Rightarrow> jsval \<Rightarrow> jsval \<Rightarrow> bool" where
  "schema_passes cfg run verification \<longleftrightarrow>
     normalizeNullableLowerString (getp run ''status'') = Some ''completed'' \<and>
     (\<exists>ms. latencyOf run verification = Some ms \<and> ms \<le> latencyMaxMs cfg) \<and>
     (case toSafeNonNegativeInt (getp (getp run ''metrics'') ''settlementReleaseRatePct'') of
        None \<Rightarrow> \<not> requireReleaseRate cfg | Some n \<Rightarrow> n \<le> 100)"

lemma absent_number: "toSafeNonNegativeInt JNull = Some 0" "toSafeNonNegativeInt JUndef = None"
  by (code_simp, code_simp)

lemma schema_check_verdict_form:
  assumes "plugin_of vm = Some SchemaCheck"
  shows "\<exists>out source. evaluateSettlementVerifierExecution H queryOf vm run verification base = Inr out \<and>
    method_source vm = Some source \<and>
    ve_verificationStatus out =
      (if schema_passes (parseDeterministicSchemaCheckConfig queryOf source) run verification then ''green'' else ''red'')"
proof -
  obtain source where source: "method_source vm = Some source" using source_of_plugin[OF assms] by blast
  then show ?thesis
    using execution[of H queryOf vm run verification base] assms
    by (auto simp: evaluateDeterministicSchemaCheck_def schemaViolations_def schema_passes_def Let_def split: option.splits)
qed

text \<open>The schema check is green exactly for a completed run whose latency is known and within the maximum of the
  source, with a release rate of at most 100, which must be there when the source requires it; otherwise it is red.\<close>

theorem schema_check_verdict:
  assumes "plugin_of vm = Some SchemaCheck"
  shows "\<exists>out source. evaluateSettlementVerifierExecution H queryOf vm run verification base = Inr out \<and>
    method_source vm = Some source \<and>
    ve_verificationStatus out =
      (if schema_passes (parseDeterministicSchemaCheckConfig queryOf source) run verification then ''green'' else ''red'')"
  by (rule schema_check_verdict_form[OF assms])

text \<open>A source without a query allows no latency at all: the default of 1200 milliseconds applies only to a query
  parameter that is not a number, since a missing one reads as \<^verbatim>\<open>Number(null)\<close>, zero. A completed run with a latency
  of one millisecond is red.\<close>

theorem schema_check_default_latency:
  assumes "plugin_of vm = Some SchemaCheck" and "\<And>s. queryOf s = Some (\<lambda>k. None)"
    and "latencyOf run verification = Some ms" and "0 < ms"
  shows "\<exists>out. evaluateSettlementVerifierExecution H queryOf vm run verification base = Inr out \<and> ve_verificationStatus out = ''red''"
proof -
  have "source \<noteq> [] \<Longrightarrow> latencyMaxMs (parseDeterministicSchemaCheckConfig queryOf source) = 0" for source
    by (simp add: parseDeterministicSchemaCheckConfig_def assms(2) optJs_def absent_number Let_def)
  moreover have "source \<noteq> []" if "method_source vm = Some source" for source using source_of_plugin[OF assms(1)] that by auto
  ultimately have "latencyMaxMs (parseDeterministicSchemaCheckConfig queryOf source) = 0" if "method_source vm = Some source" for source
    using that by simp
  then have no: "\<not> schema_passes (parseDeterministicSchemaCheckConfig queryOf source) run verification"
    if "method_source vm = Some source" for source using that assms(3,4) by (simp add: schema_passes_def)
  obtain out source where out: "evaluateSettlementVerifierExecution H queryOf vm run verification base = Inr out"
      "method_source vm = Some source"
      "ve_verificationStatus out = (if schema_passes (parseDeterministicSchemaCheckConfig queryOf source) run verification then ''green'' else ''red'')"
    using schema_check_verdict_form[OF assms(1), of H queryOf run verification base] by blast
  show ?thesis using out(1,3) no[OF out(2)] by simp
qed

text \<open>C40: The latency check takes a run of unknown duration for a fast one: the verification reports the duration as
  \<^verbatim>\<open>null\<close>, which reads as zero, so the run is green and not amber.\<close>

theorem latency_unknown_is_green:
  assumes "plugin_of vm = Some LatencyThreshold" and "normalizeNullableLowerString (getp run ''status'') \<noteq> Some ''failed''"
    and "getp run ''metrics'' = JNull" and "rv_durationMs verification = None"
  shows "\<exists>out. evaluateRunSettlementVerifierExecution H queryOf vm run verification = Inr out \<and> ve_verificationStatus out = ''green''"
proof -
  have "latencyOf run (js_of_verification verification) = Some 0"
    using assms(3,4) by (simp add: latencyOf_def orInt_def js_of_verification_def js_int_opt_def absent_number)
  then show ?thesis
    using assms(1,2) execution[of H queryOf vm run "js_of_verification verification"]
    by (fastforce simp: evaluateRunSettlementVerifierExecution_def evaluateDeterministicLatencyThreshold_def latency_result_def)
qed

section \<open>Concrete inputs\<close>

definition sample_method :: "string \<Rightarrow> jsval" where
  "sample_method source = JObj [(''mode'', JStr ''deterministic''), (''source'', JStr source)]"

definition completed_run :: jsval where
  "completed_run = JObj [(''status'', JStr ''completed''), (''metrics'', JObj [(''latencyMs'', JInt 250)])]"

definition bare_run :: jsval where
  "bare_run = JObj [(''status'', JStr ''completed''), (''metrics'', JNull),
     (''startedAt'', JStr ''2026-01-01T00:00:05.000Z''), (''completedAt'', JStr ''2026-01-01T00:00:01.000Z'')]"

lemma sample_plugins:
  "plugin_of (sample_method ''verifier://nooterra/deterministic/schema-check-v1/'') = Some SchemaCheck"
  "plugin_of (sample_method LATENCY_THRESHOLD_V1) = Some LatencyThreshold"
  "latencyOf completed_run JNull = Some 250"
  by code_simp+

theorem failed_run_is_red_witness:
  "\<exists>out. evaluateRunSettlementVerifierExecution (\<lambda>s. s) (\<lambda>s. None) (sample_method LATENCY_THRESHOLD_V1) (JObj [(''status'', JStr ''failed'')])
     (computeAgentRunVerification (JObj [(''status'', JStr ''failed'')]) (JArr [])) = Inr out \<and> ve_verificationStatus out = ''red''"
  by (rule failed_run_is_red) simp

definition schema_method :: jsval where
  "schema_method = sample_method ''verifier://nooterra/deterministic/schema-check-v1?latencyMaxMs=300''"

definition sample_query :: "string \<Rightarrow> (string \<Rightarrow> string option) option" where
  "sample_query s = Some (\<lambda>k. if k = ''latencymaxms'' then Some ''300'' else None)"

theorem schema_check_verdict_witness:
  "\<exists>out. evaluateSettlementVerifierExecution (\<lambda>s. s) sample_query schema_method completed_run JNull JNull = Inr out \<and>
     ve_verificationStatus out = ''green''"
proof -
  have p: "plugin_of schema_method = Some SchemaCheck" by code_simp
  have n: "toSafeNonNegativeInt (JStr ''300'') = Some 300" by code_simp
  have "trim [] = []" "toLowerCase [] = []" by code_simp+
  then have "latencyMaxMs (parseDeterministicSchemaCheckConfig sample_query s) = 300 \<and>
      \<not> requireReleaseRate (parseDeterministicSchemaCheckConfig sample_query s)" if "s \<noteq> []" for s
    using that n by (simp add: parseDeterministicSchemaCheckConfig_def sample_query_def optJs_def Let_def)
  moreover have "method_source schema_method \<noteq> Some []" by code_simp
  moreover have "normalizeNullableLowerString (getp completed_run ''status'') = Some ''completed''"
    "toSafeNonNegativeInt (getp (getp completed_run ''metrics'') ''settlementReleaseRatePct'') = None" by code_simp+
  moreover obtain out source where out: "evaluateSettlementVerifierExecution (\<lambda>s. s) sample_query schema_method completed_run JNull JNull = Inr out"
      "method_source schema_method = Some source"
      "ve_verificationStatus out = (if schema_passes (parseDeterministicSchemaCheckConfig sample_query source) completed_run JNull then ''green'' else ''red'')"
    using schema_check_verdict[OF p, of "\<lambda>s. s" sample_query completed_run JNull JNull] by blast
  ultimately have "schema_passes (parseDeterministicSchemaCheckConfig sample_query source) completed_run JNull"
    using sample_plugins(3) by (simp add: schema_passes_def)
  then show ?thesis using out(1,3) by simp
qed

theorem schema_check_default_latency_witness:
  "\<exists>out. evaluateSettlementVerifierExecution (\<lambda>s. s) (\<lambda>s. Some (\<lambda>k. None))
     (sample_method ''verifier://nooterra/deterministic/schema-check-v1/'') completed_run JNull JNull = Inr out \<and>
     ve_verificationStatus out = ''red''"
  by (rule schema_check_default_latency[OF sample_plugins(1) _ sample_plugins(3)]) simp_all

theorem latency_unknown_is_green_witness:
  "\<exists>out. evaluateRunSettlementVerifierExecution (\<lambda>s. s) (\<lambda>s. None) (sample_method LATENCY_THRESHOLD_V1) bare_run
     (computeAgentRunVerification bare_run (JArr [])) = Inr out \<and> ve_verificationStatus out = ''green''"
proof -
  have "normalizeNullableLowerString (getp bare_run ''status'') \<noteq> Some ''failed'' \<and> getp bare_run ''metrics'' = JNull \<and>
    rv_durationMs (computeAgentRunVerification bare_run (JArr [])) = None" by code_simp
  then show ?thesis using latency_unknown_is_green[OF sample_plugins(2)] by blast
qed

end
