(* ===== verification/AgreementMilestones.thy ===== *)
theory AgreementMilestones
  imports SettlementVerifier SettlementPolicy
begin

text \<open>
  The agreement terms of \<^verbatim>\<open>src/api/app.js\<close> that decide how much of a settlement a run earns: milestones, the fee of a
  cancellation, change orders, and the outcome of a dispute.
\<close>

section \<open>Terms\<close>

text \<open>\<^verbatim>\<open>normalizeAgreementMilestoneStatusGate\<close> with its default \<^verbatim>\<open>"any"\<close>; \<open>allowAny\<close> is its option.\<close>

definition normalizeAgreementMilestoneStatusGate :: "jsval \<Rightarrow> bool \<Rightarrow> string" where
  "normalizeAgreementMilestoneStatusGate v allowAny =
     (let fallback = (if allowAny then ''any'' else ''green'') in
      if nullish v then fallback
      else let t = toLowerCase (trim (js_String v)) in
        if t = ''green'' \<or> t = ''amber'' \<or> t = ''red'' then t
        else if allowAny \<and> t = ''any'' then ''any'' else fallback)"

record milestone =
  ms_milestoneId :: string
  ms_label :: "string option"
  ms_releaseRatePct :: int
  ms_statusGate :: string
  ms_requiredEvidenceCount :: "int option"

text \<open>\<^verbatim>\<open>v === null || v === undefined || v === ""\<close>\<close>

definition absent :: "jsval \<Rightarrow> bool" where
  "absent v \<longleftrightarrow> nullish v \<or> v = JStr []"

definition trimmedText :: "jsval \<Rightarrow> string option" where
  "trimmedText v = (case v of JStr s \<Rightarrow> (if trim s \<noteq> [] then Some (trim s) else None) | _ \<Rightarrow> None)"

definition percent :: "jsval \<Rightarrow> int option" where
  "percent v = (case isSafeNumber v of Some n \<Rightarrow> (if n < 0 \<or> 100 < n then None else Some n) | None \<Rightarrow> None)"

definition milestoneEvidence :: "jsval \<Rightarrow> int option res" where
  "milestoneEvidence v =
     (if absent v then Inr None
      else case isSafeNumber v of
        Some n \<Rightarrow> (if n < 0 then Inl (TypeError ''agreementTerms.milestones[].requiredEvidenceCount must be a non-negative integer'') else Inr (Some n))
      | None \<Rightarrow> Inl (TypeError ''agreementTerms.milestones[].requiredEvidenceCount must be a non-negative integer''))"

text \<open>One row: the milestones so far, in order.\<close>

definition addMilestone :: "milestone list \<Rightarrow> jsval \<Rightarrow> milestone list res" where
  "addMilestone ms row =
     (if \<not> isObjectLike row then Inl (TypeError ''agreementTerms.milestones entries must be objects'')
      else case trimmedText (getp row ''milestoneId'') of
        None \<Rightarrow> Inl (TypeError ''agreementTerms.milestones[].milestoneId is required'')
      | Some i \<Rightarrow>
          if i \<in> ms_milestoneId ` set ms then Inl (TypeError (''duplicate milestoneId: '' @ i))
          else case percent (getp row ''releaseRatePct'') of
            None \<Rightarrow> Inl (TypeError ''agreementTerms.milestones[].releaseRatePct must be an integer within 0..100'')
          | Some rate \<Rightarrow>
              andThen (milestoneEvidence (getp row ''requiredEvidenceCount'')) (\<lambda>evidence.
                Inr (ms @ [\<lparr>ms_milestoneId = i, ms_label = trimmedText (getp row ''label''), ms_releaseRatePct = rate,
                  ms_statusGate = normalizeAgreementMilestoneStatusGate (getp row ''statusGate'') True, ms_requiredEvidenceCount = evidence\<rparr>])))"

definition normalizeAgreementMilestonesInput :: "jsval \<Rightarrow> milestone list res" where
  "normalizeAgreementMilestonesInput input =
     (case input of
        JArr (row # rows) \<Rightarrow>
          andThen (foldRes addMilestone [] (row # rows)) (\<lambda>ms.
            if sum_list (map ms_releaseRatePct ms) \<noteq> 100
            then Inl (TypeError ''agreementTerms.milestones releaseRatePct sum must equal 100'') else Inr ms)
      | _ \<Rightarrow> Inr [])"

record cancellation_terms =
  ct_allowCancellationBeforeStart :: bool
  ct_killFeeRatePct :: int
  ct_requireEvidenceOnCancellation :: bool
  ct_requireCounterpartyAcceptance :: bool

definition normalizeAgreementCancellationInput :: "jsval \<Rightarrow> cancellation_terms res" where
  "normalizeAgreementCancellationInput input =
     (let raw = (if isObjectLike input then input else JObj []) in
      andThen (if absent (getp raw ''killFeeRatePct'') then Inr 0
               else case percent (getp raw ''killFeeRatePct'') of Some n \<Rightarrow> Inr n
                 | None \<Rightarrow> Inl (TypeError ''agreementTerms.cancellation.killFeeRatePct must be an integer within 0..100'')) (\<lambda>fee.
        Inr \<lparr>ct_allowCancellationBeforeStart = (getp raw ''allowCancellationBeforeStart'' \<noteq> JBool False), ct_killFeeRatePct = fee,
             ct_requireEvidenceOnCancellation = (getp raw ''requireEvidenceOnCancellation'' = JBool True),
             ct_requireCounterpartyAcceptance = (getp raw ''requireCounterpartyAcceptance'' = JBool True)\<rparr>))"

record change_order_policy =
  co_enabled :: bool
  co_maxChangeOrders :: int
  co_requireCounterpartyAcceptance :: bool

definition normalizeAgreementChangeOrderPolicyInput :: "jsval \<Rightarrow> change_order_policy res" where
  "normalizeAgreementChangeOrderPolicyInput input =
     (let raw = (if isObjectLike input then input else JObj []); enabled = (getp raw ''enabled'' = JBool True) in
      andThen (if absent (getp raw ''maxChangeOrders'') then Inr 0
               else case isSafeNumber (getp raw ''maxChangeOrders'') of
                 Some n \<Rightarrow> (if n < 0 then Inl (TypeError ''agreementTerms.changeOrderPolicy.maxChangeOrders must be a non-negative integer'') else Inr n)
               | None \<Rightarrow> Inl (TypeError ''agreementTerms.changeOrderPolicy.maxChangeOrders must be a non-negative integer'')) (\<lambda>n.
        Inr \<lparr>co_enabled = enabled, co_maxChangeOrders = (if enabled then n else 0),
             co_requireCounterpartyAcceptance = (getp raw ''requireCounterpartyAcceptance'' \<noteq> JBool False)\<rparr>))"

section \<open>Rates\<close>

definition normalizePercentIntOrNull :: "jsval \<Rightarrow> int option" where
  "normalizePercentIntOrNull v = (if nullish v then None else percent v)"

definition resolveRunSettlementReleaseRatePct :: "jsval \<Rightarrow> run_verification \<Rightarrow> int" where
  "resolveRunSettlementReleaseRatePct run verification =
     (case normalizePercentIntOrNull (getp (getp run ''metrics'') ''settlementReleaseRatePct'') of
        Some n \<Rightarrow> n
      | None \<Rightarrow> (case rv_verificationStatus verification of Green \<Rightarrow> 100 | Red \<Rightarrow> 0 | Amber \<Rightarrow> 50))"

text \<open>\<^verbatim>\<open>rate <= 0 ? 0 : Math.min(amount, Math.floor((amount * rate) / 100))\<close>\<close>

definition share :: "int \<Rightarrow> int \<Rightarrow> int" where
  "share amount rate = (if rate \<le> 0 then 0 else min amount (floor_mul_div amount rate 100))"

section \<open>Milestones\<close>

definition addCompleted :: "string list \<Rightarrow> jsval \<Rightarrow> string list" where
  "addCompleted ids raw =
     (case trimmedText raw of None \<Rightarrow> ids | Some s \<Rightarrow> (if s \<in> set ids then ids else ids @ [s]))"

definition listCompletedMilestoneIdsFromRun :: "jsval \<Rightarrow> string list" where
  "listCompletedMilestoneIdsFromRun run =
     (case getp (getp run ''metrics'') ''completedMilestoneIds'' of JArr xs \<Rightarrow> fold (\<lambda>x ids. addCompleted ids x) xs [] | _ \<Rightarrow> [])"

text \<open>The rate a milestone contributes; \<open>None\<close> when it does not count.\<close>

definition milestoneRate :: "string list \<Rightarrow> string \<Rightarrow> int \<Rightarrow> jsval \<Rightarrow> (string \<times> int) option" where
  "milestoneRate completed status evidenceCount m =
     (case trimmedText (getp m ''milestoneId'') of
        None \<Rightarrow> None
      | Some i \<Rightarrow>
          let gate = normalizeAgreementMilestoneStatusGate (getp m ''statusGate'') True;
              required = (if nullish (getp m ''requiredEvidenceCount'') then None else isSafeNumber (getp m ''requiredEvidenceCount''))
          in if i \<notin> set completed then None
             else if gate \<noteq> ''any'' \<and> gate \<noteq> status then None
             else if (case required of Some n \<Rightarrow> evidenceCount < n | None \<Rightarrow> False) then None
             else map_option (\<lambda>rate. (i, rate)) (percent (getp m ''releaseRatePct'')))"

record milestone_evaluation =
  me_completedMilestoneIds :: "string list"
  me_appliedMilestoneIds :: "string list"
  me_milestoneRatePct :: int
  me_effectiveRatePct :: int
  me_verificationStatus :: string

definition agreement_milestones :: "jsval \<Rightarrow> jsval list" where
  "agreement_milestones agreement = (case getp (getp agreement ''terms'') ''milestones'' of JArr xs \<Rightarrow> xs | _ \<Rightarrow> [])"

definition applyAgreementMilestoneRelease ::
  "policy_decision \<Rightarrow> jsval \<Rightarrow> jsval \<Rightarrow> run_verification \<Rightarrow> int \<Rightarrow> policy_decision \<times> milestone_evaluation option" where
  "applyAgreementMilestoneRelease decision agreement run verification amount =
     (if agreement_milestones agreement = [] then (decision, None)
      else let completed = listCompletedMilestoneIdsFromRun run;
               st = (if getp run ''status'' = JStr ''failed'' then ''red'' else verdict_name (rv_verificationStatus verification));
               applied = List.map_filter (milestoneRate completed st (int (rv_evidenceCount verification))) (agreement_milestones agreement);
               rate = min 100 (max 0 (sum_list (map snd applied)));
               base = isSafeNumber (orElse (pd_releaseRatePct decision) (JInt 0));
               effective = (case base of Some b \<Rightarrow> min b rate | None \<Rightarrow> rate);
               release = share amount effective;
               evaluation = \<lparr>me_completedMilestoneIds = completed, me_appliedMilestoneIds = map fst applied,
                 me_milestoneRatePct = rate, me_effectiveRatePct = effective, me_verificationStatus = st\<rparr>
           in (decision\<lparr>pd_reasonCodes := pd_reasonCodes decision @ (if base \<noteq> Some effective then [''milestone_release_cap_applied''] else []),
                 pd_releaseRatePct := JInt effective, pd_releaseAmountCents := release,
                 pd_refundAmountCents := add_int amount (- release),
                 pd_settlementStatus := (if 0 < release then ''released'' else ''refunded'')\<rparr>, Some evaluation))"

section \<open>Disputes\<close>

record dispute_directive =
  dd_sourceOutcome :: string
  dd_financialOutcome :: string
  dd_status :: string
  dd_releaseRatePct :: int
  dd_releasedAmountCents :: int
  dd_refundedAmountCents :: int

definition partialDirective :: "string \<Rightarrow> int \<Rightarrow> jsval \<Rightarrow> dispute_directive option res" where
  "partialDirective outcome amount rateArg =
     (case (if absent rateArg then None else isSafeNumber rateArg) of
        None \<Rightarrow> Inl (TypeError ''disputeResolution.releaseRatePct must be an integer in range 1..99 when outcome=partial'')
      | Some rate \<Rightarrow>
          andThen (throwIf (rate \<le> 0 \<or> 100 \<le> rate)
                    (TypeError ''disputeResolution.releaseRatePct must be an integer in range 1..99 when outcome=partial'')) (\<lambda>_.
          let released = min amount (floor_mul_div amount rate 100); refunded = add_int amount (- released) in
          andThen (throwIf (released \<le> 0 \<or> refunded \<le> 0)
                    (TypeError ''partial dispute outcome must split funds into non-zero released and refunded amounts'')) (\<lambda>_.
            Inr (Some \<lparr>dd_sourceOutcome = outcome, dd_financialOutcome = ''reversal'', dd_status = ''released'', dd_releaseRatePct = rate,
              dd_releasedAmountCents = released, dd_refundedAmountCents = refunded\<rparr>))))"

definition deriveDisputeSettlementDirective :: "jsval \<Rightarrow> dispute_directive option res" where
  "deriveDisputeSettlementDirective settlement =
     (let resolution = getp settlement ''disputeResolution'';
          outcome = toLowerCase (trim (js_String (orElse (getp resolution ''outcome'') (JStr [])))) in
      if \<not> isObjectLike settlement \<or> \<not> isObjectLike resolution then Inr None
      else if outcome \<noteq> ''accepted'' \<and> outcome \<noteq> ''rejected'' \<and> outcome \<noteq> ''partial'' then Inr None
      else case isSafeNumber (orElse (getp settlement ''amountCents'') (JNum NaN)) of
        None \<Rightarrow> Inl (TypeError ''settlement.amountCents must be a positive safe integer for dispute outcome mapping'')
      | Some amount \<Rightarrow>
          andThen (throwIf (amount \<le> 0) (TypeError ''settlement.amountCents must be a positive safe integer for dispute outcome mapping'')) (\<lambda>_.
          if outcome = ''accepted''
          then Inr (Some \<lparr>dd_sourceOutcome = outcome, dd_financialOutcome = ''release'', dd_status = ''released'', dd_releaseRatePct = 100,
                 dd_releasedAmountCents = amount, dd_refundedAmountCents = 0\<rparr>)
          else if outcome = ''rejected''
          then Inr (Some \<lparr>dd_sourceOutcome = outcome, dd_financialOutcome = ''refund'', dd_status = ''refunded'', dd_releaseRatePct = 0,
                 dd_releasedAmountCents = 0, dd_refundedAmountCents = amount\<rparr>)
          else partialDirective outcome amount (getp resolution ''releaseRatePct'')))"

section \<open>Shares\<close>

lemma floor_mul_div_mono:
  assumes "0 \<le> a" and "b \<le> b'" and "0 < c"
  shows "floor_mul_div a b c \<le> floor_mul_div a b' c"
proof -
  have "(of_int (a * b) :: rat) \<le> of_int (a * b')" using assms(1,2) by (simp add: mult_left_mono)
  then have "fl (of_int (a * b)) / of_int c \<le> fl (of_int (a * b')) / of_int c"
    using assms(3) by (intro divide_right_mono fl_mono) simp_all
  then show ?thesis unfolding floor_mul_div_def by (intro floor_mono fl_mono)
qed

lemma share_bounds: "0 \<le> amount \<Longrightarrow> 0 \<le> share amount rate \<and> share amount rate \<le> amount"
  using floor_mul_div_nonneg[of amount rate 100] by (auto simp: share_def)

lemma share_mono: "0 \<le> amount \<Longrightarrow> r \<le> r' \<Longrightarrow> share amount r \<le> share amount r'"
  using floor_mul_div_nonneg[of amount r' 100] floor_mul_div_mono[of amount r r' 100] by (auto simp: share_def min_def)

lemma share_refund:
  assumes "0 \<le> amount" and "is_safe amount"
  shows "add_int amount (- share amount rate) = amount - share amount rate"
  using share_bounds[OF assms(1), of rate] assms(2) by (subst add_int_safe) (auto simp: is_safe_def)

lemma share_is_policy_share:
  assumes "computeReleaseAmounts amount (JInt rate) = Inr (release, refund)"
  shows "release = share amount rate"
  using assms by (auto simp: computeReleaseAmounts_def share_def andThen_Inr_iff Let_def split: option.splits if_splits)

section \<open>Terms\<close>

lemma percent_range: "percent v = Some n \<Longrightarrow> 0 \<le> n \<and> n \<le> 100"
  by (auto simp: percent_def split: option.splits if_splits)

definition milestone_terms :: "milestone \<Rightarrow> bool" where
  "milestone_terms m \<longleftrightarrow> trim (ms_milestoneId m) = ms_milestoneId m \<and> ms_milestoneId m \<noteq> [] \<and> 0 \<le> ms_releaseRatePct m \<and> ms_releaseRatePct m \<le> 100 \<and>
     ms_statusGate m \<in> {''any'', ''green'', ''amber'', ''red''} \<and> (case ms_requiredEvidenceCount m of None \<Rightarrow> True | Some n \<Rightarrow> 0 \<le> n)"

lemma trimmedText_Some: "trimmedText v = Some s \<Longrightarrow> trim s = s \<and> s \<noteq> []"
  by (auto simp: trimmedText_def split: jsval.splits if_splits)

lemma gate_range: "normalizeAgreementMilestoneStatusGate v True \<in> {''any'', ''green'', ''amber'', ''red''}"
  by (auto simp: normalizeAgreementMilestoneStatusGate_def Let_def)

lemma addMilestone_terms:
  assumes "addMilestone ms row = Inr ms'" and "list_all milestone_terms ms" and "distinct (map ms_milestoneId ms)"
  shows "list_all milestone_terms ms' \<and> distinct (map ms_milestoneId ms') \<and> length ms' = length ms + 1"
  using assms gate_range
  by (auto simp: addMilestone_def andThen_Inr_iff milestone_terms_def milestoneEvidence_def dest!: percent_range trimmedText_Some
      split: if_splits option.splits)

lemma milestones_facts:
  assumes "normalizeAgreementMilestonesInput input = Inr ms"
  shows "if \<exists>row rows. input = JArr (row # rows)
    then distinct (map ms_milestoneId ms) \<and> list_all milestone_terms ms \<and> sum_list (map ms_releaseRatePct ms) = 100 else ms = []"
proof (cases "\<exists>row rows. input = JArr (row # rows)")
  case True
  then obtain rows where f: "foldRes addMilestone [] rows = Inr ms" and s: "sum_list (map ms_releaseRatePct ms) = 100"
    using assms by (auto simp: normalizeAgreementMilestonesInput_def andThen_Inr_iff simp del: foldRes.simps split: if_splits)
  have "list_all milestone_terms ms \<and> distinct (map ms_milestoneId ms)"
    using f by (rule foldRes_invariant) (auto dest: addMilestone_terms)
  then show ?thesis using s True by simp
next
  case False
  then show ?thesis using assms by (auto simp: normalizeAgreementMilestonesInput_def split: jsval.splits list.splits)
qed

lemma cancellation_facts: "normalizeAgreementCancellationInput input = Inr ct \<Longrightarrow> 0 \<le> ct_killFeeRatePct ct \<and> ct_killFeeRatePct ct \<le> 100"
  by (auto simp: normalizeAgreementCancellationInput_def Let_def andThen_Inr_iff dest: percent_range split: if_splits option.splits)

lemma change_order_facts:
  "normalizeAgreementChangeOrderPolicyInput input = Inr co \<Longrightarrow>
   0 \<le> co_maxChangeOrders co \<and> is_safe (co_maxChangeOrders co) \<and> (\<not> co_enabled co \<longrightarrow> co_maxChangeOrders co = 0)"
  by (auto simp: normalizeAgreementChangeOrderPolicyInput_def Let_def andThen_Inr_iff isSafeNumber_def dest: safe_int_Some split: if_splits option.splits)

text \<open>C37: Accepted agreement terms are well-formed. Milestones, where the input has any, have distinct trimmed ids, rates between 0
  and 100 that add up to exactly 100, one of the four gates, and a count of required evidence that is not negative; the fee of
  a cancellation is a rate between 0 and 100; the number of change orders is a safe integer that is not negative, and zero when
  change orders are not enabled.\<close>

theorem agreement_terms_typed:
  assumes "normalizeAgreementMilestonesInput milestones = Inr ms" and "normalizeAgreementCancellationInput cancellation = Inr ct"
    and "normalizeAgreementChangeOrderPolicyInput changes = Inr co"
  shows "(if \<exists>row rows. milestones = JArr (row # rows)
      then distinct (map ms_milestoneId ms) \<and> list_all milestone_terms ms \<and> sum_list (map ms_releaseRatePct ms) = 100 else ms = [])
    \<and> 0 \<le> ct_killFeeRatePct ct \<and> ct_killFeeRatePct ct \<le> 100
    \<and> 0 \<le> co_maxChangeOrders co \<and> is_safe (co_maxChangeOrders co) \<and> (\<not> co_enabled co \<longrightarrow> co_maxChangeOrders co = 0)"
  using milestones_facts[OF assms(1)] cancellation_facts[OF assms(2)] change_order_facts[OF assms(3)] by blast

section \<open>Release by milestones\<close>

lemma milestoneRate_Some:
  assumes "milestoneRate c st n m = Some (i, rate)"
  shows "0 \<le> rate \<and> rate \<le> 100 \<and> i \<in> set c"
proof -
  obtain j where j: "trimmedText (getp m ''milestoneId'') = Some j" using assms by (auto simp: milestoneRate_def split: option.splits)
  have "j \<in> set c \<and> map_option (\<lambda>rate. (j, rate)) (percent (getp m ''releaseRatePct'')) = Some (i, rate)"
    using assms unfolding milestoneRate_def j option.case Let_def by (simp split: if_split_asm)
  then show ?thesis using percent_range by auto
qed

lemma applied_rates:
  "(i, rate) \<in> set (List.map_filter (milestoneRate c st n) ms) \<Longrightarrow> 0 \<le> rate \<and> rate \<le> 100 \<and> i \<in> set c"
  using milestoneRate_Some[of c st n] by (fastforce simp: List.map_filter_def)

text \<open>What a milestone earns, by the terms of the agreement: its rate, when the run reports it as completed, its gate is open for
  the verdict and enough evidence was given.\<close>

definition reports_completed :: "jsval \<Rightarrow> string \<Rightarrow> bool" where
  "reports_completed run i \<longleftrightarrow>
     (case getp (getp run ''metrics'') ''completedMilestoneIds'' of JArr xs \<Rightarrow> list_ex (\<lambda>v. trimmedText v = Some i) xs | _ \<Rightarrow> False)"

definition run_verdict_name :: "jsval \<Rightarrow> run_verification \<Rightarrow> string" where
  "run_verdict_name run verification = (if getp run ''status'' = JStr ''failed'' then ''red'' else verdict_name (rv_verificationStatus verification))"

definition gate_open :: "jsval \<Rightarrow> string \<Rightarrow> bool" where
  "gate_open m verdict \<longleftrightarrow> normalizeAgreementMilestoneStatusGate (getp m ''statusGate'') True \<in> {''any'', verdict}"

definition evidence_given :: "jsval \<Rightarrow> nat \<Rightarrow> bool" where
  "evidence_given m given \<longleftrightarrow>
     (\<forall>required. \<not> nullish (getp m ''requiredEvidenceCount'') \<and> isSafeNumber (getp m ''requiredEvidenceCount'') = Some required \<longrightarrow> required \<le> int given)"

definition earned_rate :: "jsval \<Rightarrow> run_verification \<Rightarrow> jsval \<Rightarrow> int" where
  "earned_rate run verification m =
     (case (trimmedText (getp m ''milestoneId''), percent (getp m ''releaseRatePct'')) of
        (Some i, Some rate) \<Rightarrow>
          if reports_completed run i \<and> gate_open m (run_verdict_name run verification) \<and> evidence_given m (rv_evidenceCount verification)
          then rate else 0
      | _ \<Rightarrow> 0)"

lemma completed_fold: "i \<in> set (fold (\<lambda>x ids. addCompleted ids x) xs ids) \<longleftrightarrow> i \<in> set ids \<or> list_ex (\<lambda>v. trimmedText v = Some i) xs"
  by (induction xs arbitrary: ids) (auto simp: addCompleted_def split: option.splits)

lemma completed_iff: "i \<in> set (listCompletedMilestoneIdsFromRun run) \<longleftrightarrow> reports_completed run i"
  by (auto simp: listCompletedMilestoneIdsFromRun_def reports_completed_def completed_fold split: jsval.splits)

lemma earned_milestoneRate:
  "(case milestoneRate (listCompletedMilestoneIdsFromRun run) (run_verdict_name run verification) (int (rv_evidenceCount verification)) m of
      None \<Rightarrow> 0 | Some (i, rate) \<Rightarrow> rate) = earned_rate run verification m"
  by (auto simp: milestoneRate_def earned_rate_def completed_iff gate_open_def evidence_given_def Let_def split: option.splits)

lemma earned_sum:
  "sum_list (map snd (List.map_filter (milestoneRate (listCompletedMilestoneIdsFromRun run) (run_verdict_name run verification)
     (int (rv_evidenceCount verification))) ms)) = (\<Sum>m\<leftarrow>ms. earned_rate run verification m)"
  by (induction ms) (auto simp: List.map_filter_simps earned_milestoneRate[symmetric] split: option.splits)

lemma earned_nonneg: "0 \<le> (\<Sum>m\<leftarrow>ms. earned_rate run verification m)"
  using percent_range by (intro sum_list_nonneg) (auto simp: earned_rate_def split: option.splits)

text \<open>C27: Milestones only lower what a policy decision releases. The decision keeps dividing the amount, at the smaller of the
  rate of the policy and the sum of the rates that the milestones of the agreement earn (at most 100): a milestone earns its
  rate only when the run reports it as completed, its gate is open for the verdict and the required evidence was given. A lower
  rate adds a reason code; whether the settlement is resolved automatically does not change.\<close>

theorem milestone_release_caps:
  assumes "0 < amount" and "is_safe amount" and "pd_releaseRatePct d = JInt base" and "0 \<le> base" and "base \<le> 100"
    and "pd_releaseAmountCents d = share amount base" and "pd_refundAmountCents d = amount - share amount base"
    and "applyAgreementMilestoneRelease d agreement run verification amount = (d', evaluation)"
  shows "pd_releaseAmountCents d' + pd_refundAmountCents d' = amount \<and> 0 \<le> pd_releaseAmountCents d' \<and>
    pd_releaseAmountCents d' \<le> pd_releaseAmountCents d \<and> pd_shouldAutoResolve d' = pd_shouldAutoResolve d \<and>
    (\<exists>rate. pd_releaseRatePct d' = JInt rate \<and> 0 \<le> rate \<and> rate \<le> base \<and> pd_releaseAmountCents d' = share amount rate \<and>
      (case evaluation of None \<Rightarrow> agreement_milestones agreement = [] \<and> d' = d
         | Some e \<Rightarrow> agreement_milestones agreement \<noteq> [] \<and>
             me_milestoneRatePct e = min 100 (\<Sum>m\<leftarrow>agreement_milestones agreement. earned_rate run verification m) \<and>
             rate = min base (me_milestoneRatePct e) \<and> list_all (reports_completed run) (me_appliedMilestoneIds e) \<and>
             pd_reasonCodes d' = pd_reasonCodes d @ (if rate < base then [''milestone_release_cap_applied''] else [])))"
proof -
  have safe: "safe_int_of (JInt base) = Some base" using assms(4,5) by (simp add: is_safe_def MAX_SAFE_INTEGER_def)
  then have b: "isSafeNumber (JInt base) = Some base" by (simp add: isSafeNumber_def safe_int_of_def)
  show ?thesis
  proof (cases "agreement_milestones agreement = []")
    case True
    then show ?thesis using assms share_bounds[of amount base] by (auto simp: applyAgreementMilestoneRelease_def)
  next
    case False
    define applied where "applied = List.map_filter (milestoneRate (listCompletedMilestoneIdsFromRun run) (run_verdict_name run verification)
      (int (rv_evidenceCount verification))) (agreement_milestones agreement)"
    define mrate where "mrate = min 100 (\<Sum>m\<leftarrow>agreement_milestones agreement. earned_rate run verification m)"
    have mr: "min 100 (max 0 (sum_list (map snd applied))) = mrate" unfolding applied_def earned_sum mrate_def using earned_nonneg by simp
    define rate where "rate = min base mrate"
    have o: "orElse (pd_releaseRatePct d) (JInt 0) = JInt base" using assms(3) by simp
    have eq: "(d', evaluation) = applyAgreementMilestoneRelease d agreement run verification amount" using assms(8) by (rule sym)
    note eq' = eq[unfolded applyAgreementMilestoneRelease_def run_verdict_name_def[symmetric] o b Let_def applied_def[symmetric] mr option.case
      rate_def[symmetric] if_not_P[OF False] prod.inject]
    have d': "pd_releaseRatePct d' = JInt rate" "pd_releaseAmountCents d' = share amount rate"
      "pd_refundAmountCents d' = add_int amount (- share amount rate)" "pd_shouldAutoResolve d' = pd_shouldAutoResolve d"
      "pd_reasonCodes d' = pd_reasonCodes d @ (if rate < base then [''milestone_release_cap_applied''] else [])"
      using eq'[THEN conjunct1] by (simp_all add: rate_def)
    obtain ev where ev: "evaluation = Some ev" "me_milestoneRatePct ev = mrate" "me_appliedMilestoneIds ev = map fst applied"
      using eq'[THEN conjunct2] by simp
    have sub: "list_all (reports_completed run) (map fst applied)"
      using applied_rates[of _ _ "listCompletedMilestoneIdsFromRun run"] unfolding applied_def list_all_iff
      by (fastforce simp: completed_iff[symmetric])
    have r: "0 \<le> rate" "rate \<le> base" using assms(4) earned_nonneg by (simp_all add: rate_def mrate_def)
    have amounts: "share amount rate + pd_refundAmountCents d' = amount" "0 \<le> share amount rate" "share amount rate \<le> share amount base"
      using d'(3) share_refund[of amount rate] share_bounds[of amount rate] share_mono[of amount rate base] r assms(1,2) by simp_all
    show ?thesis
      unfolding ev(1) option.case d'(1,2,4,5) assms(6) ev(2,3) using amounts r sub rate_def mrate_def False by blast
  qed
qed

section \<open>Disputes\<close>

text \<open>The directive of a dispute resolution divides the amount of the settlement: everything to the payee when accepted,
  everything back when rejected, and otherwise two positive parts by a rate strictly between 0 and 100.\<close>

theorem dispute_directive_divides:
  assumes "deriveDisputeSettlementDirective settlement = Inr (Some d)"
  shows "\<exists>amount. isSafeNumber (getp settlement ''amountCents'') = Some amount \<and> 0 < amount \<and>
    dd_releasedAmountCents d + dd_refundedAmountCents d = amount \<and>
    (if dd_sourceOutcome d = ''accepted'' then dd_releasedAmountCents d = amount \<and> dd_releaseRatePct d = 100
     else if dd_sourceOutcome d = ''rejected'' then dd_releasedAmountCents d = 0 \<and> dd_releaseRatePct d = 0
     else 0 < dd_releasedAmountCents d \<and> dd_releasedAmountCents d < amount \<and>
       dd_releasedAmountCents d = share amount (dd_releaseRatePct d) \<and> 0 < dd_releaseRatePct d \<and> dd_releaseRatePct d < 100)"
proof -
  let ?a = "getp settlement ''amountCents''"
  obtain amount where a: "isSafeNumber (orElse ?a (JNum NaN)) = Some amount" "0 < amount"
    using assms by (auto simp: deriveDisputeSettlementDirective_def Let_def andThen_Inr_iff throwIf_Inr_iff split: if_splits option.splits)
  have nan: "isSafeNumber (JNum NaN) = None" by code_simp
  then have a': "isSafeNumber ?a = Some amount" using a(1) by (auto simp: orElse_def split: if_splits)
  have safe: "is_safe amount" using a' by (auto simp: isSafeNumber_def dest: safe_int_Some)
  have part: "dd_sourceOutcome d = outcome \<and> dd_releasedAmountCents d + dd_refundedAmountCents d = amount \<and> 0 < dd_releasedAmountCents d \<and>
      dd_releasedAmountCents d < amount \<and> dd_releasedAmountCents d = share amount (dd_releaseRatePct d) \<and>
      0 < dd_releaseRatePct d \<and> dd_releaseRatePct d < 100" if p: "partialDirective outcome amount v = Inr (Some d)" for outcome v
  proof -
    obtain rate where r: "0 < rate" "rate < 100" and d: "dd_sourceOutcome d = outcome" "dd_releaseRatePct d = rate"
        "dd_releasedAmountCents d = min amount (floor_mul_div amount rate 100)" "dd_refundedAmountCents d = add_int amount (- dd_releasedAmountCents d)"
        "0 < dd_releasedAmountCents d" "0 < dd_refundedAmountCents d"
      using p by (auto simp: partialDirective_def Let_def andThen_Inr_iff throwIf_Inr_iff not_le split: option.splits)
    have "dd_releasedAmountCents d = share amount rate" using d(3) r by (simp add: share_def)
    then show ?thesis using d r share_refund[of amount rate] a(2) safe by simp
  qed
  define outcome where "outcome = toLowerCase (trim (js_String (orElse (getp (getp settlement ''disputeResolution'') ''outcome'') (JStr []))))"
  have "if outcome = ''accepted'' then dd_sourceOutcome d = outcome \<and> dd_releasedAmountCents d = amount \<and> dd_refundedAmountCents d = 0 \<and> dd_releaseRatePct d = 100
    else if outcome = ''rejected'' then dd_sourceOutcome d = outcome \<and> dd_releasedAmountCents d = 0 \<and> dd_refundedAmountCents d = amount \<and> dd_releaseRatePct d = 0
    else outcome = ''partial'' \<and> partialDirective outcome amount (getp (getp settlement ''disputeResolution'') ''releaseRatePct'') = Inr (Some d)"
    using assms a unfolding deriveDisputeSettlementDirective_def Let_def outcome_def[symmetric]
    by (auto simp: andThen_Inr_iff throwIf_Inr_iff split: if_splits)
  then consider "dd_sourceOutcome d = ''accepted''" "dd_releasedAmountCents d = amount" "dd_refundedAmountCents d = 0" "dd_releaseRatePct d = 100"
    | "dd_sourceOutcome d = ''rejected''" "dd_releasedAmountCents d = 0" "dd_refundedAmountCents d = amount" "dd_releaseRatePct d = 0"
    | "partialDirective ''partial'' amount (getp (getp settlement ''disputeResolution'') ''releaseRatePct'') = Inr (Some d)"
    by (metis (no_types, lifting))
  then show ?thesis
  proof cases
    case 3
    then show ?thesis using part[OF 3] a(2) a' by simp
  qed (use a(2) a' in simp_all)
qed

section \<open>Concrete inputs\<close>

definition sample_milestones :: jsval where
  "sample_milestones = JArr
     [JObj [(''milestoneId'', JStr ''draft''), (''releaseRatePct'', JInt 30)],
      JObj [(''milestoneId'', JStr ''final''), (''releaseRatePct'', JInt 70), (''statusGate'', JStr ''green'')]]"

definition sample_agreement :: jsval where
  "sample_agreement = JObj [(''terms'', JObj [(''milestones'', sample_milestones)])]"

definition half_done :: jsval where
  "half_done = JObj [(''status'', JStr ''completed''),
     (''metrics'', JObj [(''completedMilestoneIds'', JArr [JStr ''draft'', JStr ''final'']), (''settlementReleaseRatePct'', JInt 50)])]"

definition full_decision :: policy_decision where
  "full_decision = \<lparr>pd_policy = JNull, pd_verificationMethod = JNull, pd_decisionMode = ''automatic'', pd_shouldAutoResolve = True,
     pd_reasonCodes = [], pd_releaseRatePct = JInt 100, pd_releaseAmountCents = 1000, pd_refundAmountCents = 0,
     pd_settlementStatus = ''released'', pd_verificationStatus = ''amber'', pd_runStatus = ''completed''\<rparr>"

theorem agreement_terms_typed_witness:
  "\<exists>ms ct co. normalizeAgreementMilestonesInput sample_milestones = Inr ms \<and>
     normalizeAgreementCancellationInput (JObj [(''killFeeRatePct'', JInt 25)]) = Inr ct \<and>
     normalizeAgreementChangeOrderPolicyInput (JObj [(''enabled'', JBool True), (''maxChangeOrders'', JInt 3)]) = Inr co \<and>
     length ms = 2 \<and> sum_list (map ms_releaseRatePct ms) = 100 \<and> ct_killFeeRatePct ct = 25 \<and> 0 \<le> co_maxChangeOrders co"
proof -
  let ?ct = "normalizeAgreementCancellationInput (JObj [(''killFeeRatePct'', JInt 25)])"
  let ?co = "normalizeAgreementChangeOrderPolicyInput (JObj [(''enabled'', JBool True), (''maxChangeOrders'', JInt 3)])"
  have "case normalizeAgreementMilestonesInput sample_milestones of Inr ms \<Rightarrow> length ms = 2 | Inl e \<Rightarrow> False"
    "case ?ct of Inr ct \<Rightarrow> ct_killFeeRatePct ct = 25 | Inl e \<Rightarrow> False" "case ?co of Inr co \<Rightarrow> True | Inl e \<Rightarrow> False"
    by code_simp+
  then obtain ms ct co where r: "normalizeAgreementMilestonesInput sample_milestones = Inr ms" "length ms = 2" "?ct = Inr ct" "ct_killFeeRatePct ct = 25" "?co = Inr co"
    by (auto split: sum.splits)
  moreover have "\<exists>row rows. sample_milestones = JArr (row # rows)" by (simp add: sample_milestones_def)
  ultimately show ?thesis using agreement_terms_typed[OF r(1,3,5)] by simp
qed

theorem milestone_release_caps_witness:
  "case applyAgreementMilestoneRelease full_decision sample_agreement half_done (computeAgentRunVerification half_done (JArr [])) 1000 of
     (d', evaluation) \<Rightarrow> pd_releaseAmountCents d' + pd_refundAmountCents d' = 1000 \<and> pd_releaseAmountCents d' = 300"
proof -
  let ?r = "applyAgreementMilestoneRelease full_decision sample_agreement half_done (computeAgentRunVerification half_done (JArr [])) 1000"
  have e: "share 1000 100 = 1000" "pd_releaseAmountCents (fst ?r) = 300" by code_simp+
  obtain d' ev where r: "?r = (d', ev)" by fastforce
  have "pd_releaseAmountCents d' + pd_refundAmountCents d' = 1000"
    using milestone_release_caps[OF _ _ _ _ _ _ _ r, of 100] e(1) by (simp add: full_decision_def is_safe_def MAX_SAFE_INTEGER_def)
  then show ?thesis using e(2) r by simp
qed

definition partial_dispute :: jsval where
  "partial_dispute = JObj [(''amountCents'', JInt 1001),
     (''disputeResolution'', JObj [(''outcome'', JStr ''partial''), (''releaseRatePct'', JInt 25)])]"

theorem dispute_directive_divides_witness:
  "\<exists>d. deriveDisputeSettlementDirective partial_dispute = Inr (Some d) \<and> dd_releasedAmountCents d = 250 \<and> dd_refundedAmountCents d = 751"
proof -
  have "case deriveDisputeSettlementDirective partial_dispute of Inr (Some d) \<Rightarrow> dd_releasedAmountCents d = 250 | _ \<Rightarrow> False" by code_simp
  then obtain d where d: "deriveDisputeSettlementDirective partial_dispute = Inr (Some d)" "dd_releasedAmountCents d = 250"
    by (auto split: sum.splits option.splits)
  moreover have "isSafeNumber (getp partial_dispute ''amountCents'') = Some 1001" by code_simp
  ultimately show ?thesis using dispute_directive_divides[OF d(1)] by auto
qed

end
