(* ===== verification/EscrowProjection.thy ===== *)
theory EscrowProjection
  imports AgentWallets EscrowLedger Tenancy
begin

text \<open>
  The projection of wallet operations onto the escrow ledger in \<^verbatim>\<open>src/api/app.js\<close>: after a wallet operation the server
  opens a ledger with the wallets' balances from before, performs the operation on it and compares the result with the
  wallets' balances from after.
\<close>

section \<open>The projection\<close>

definition orWallet :: "agent_wallet option \<Rightarrow> agent_wallet option \<Rightarrow> agent_wallet option" where
  "orWallet x y = (case x of Some w \<Rightarrow> Some w | None \<Rightarrow> y)"

text \<open>The wallet id the ledger accounts are named after; \<^verbatim>\<open>"wallet_"\<close> stands for none.\<close>

definition wallet_key :: "agent_wallet \<Rightarrow> string" where
  "wallet_key w = (if trim (aw_walletId w) \<noteq> [] then trim (aw_walletId w) else ''wallet_'' @ aw_agentId w)"

definition syncEscrowLedgerWalletSnapshot :: "string \<Rightarrow> escrow_state \<Rightarrow> jsval \<Rightarrow> agent_wallet option \<Rightarrow> escrow_state res" where
  "syncEscrowLedgerWalletSnapshot now st tenantId wallet =
     (case wallet of None \<Rightarrow> Inr st
      | Some w \<Rightarrow>
          if wallet_key w = [] \<or> wallet_key w = ''wallet_'' then Inr st
          else andThen (normalizeTenantId tenantId) (\<lambda>t.
            mapR fst (upsertEscrowLedgerWalletBalances now st (JStr t) (JStr (wallet_key w)) (JInt (availableCents w)) (JInt (escrowLockedCents w)))))"

definition assertEscrowLedgerMatchesWallet :: "escrow_state \<Rightarrow> jsval \<Rightarrow> agent_wallet option \<Rightarrow> string \<Rightarrow> unit res" where
  "assertEscrowLedgerMatchesWallet st tenantId wallet contextLabel =
     (case wallet of None \<Rightarrow> Inr ()
      | Some w \<Rightarrow>
          if wallet_key w = [] \<or> wallet_key w = ''wallet_'' then Inr ()
          else andThen (normalizeTenantId tenantId) (\<lambda>t.
            andThen (walletAvailableAccountId t (wallet_key w)) (\<lambda>accountAvailable.
            andThen (walletEscrowAccountId t (wallet_key w)) (\<lambda>accountEscrow.
            andThen (getEscrowLedgerBalance st (JStr accountAvailable)) (\<lambda>ledgerAvailable.
            andThen (getEscrowLedgerBalance st (JStr accountEscrow)) (\<lambda>ledgerEscrowLocked.
              throwIf (ledgerAvailable \<noteq> availableCents w \<or> ledgerEscrowLocked \<noteq> escrowLockedCents w)
                (CodedError ''ESCROW_LEDGER_MISMATCH'' (''escrow ledger projection mismatch ('' @ contextLabel @ '')''))))))))"

definition settlement_currency :: "jsval \<Rightarrow> string" where
  "settlement_currency settlement =
     (case getp settlement ''currency'' of JStr c \<Rightarrow> (if trim c \<noteq> [] then trim c else ''USD'') | _ \<Rightarrow> ''USD'')"

definition wallet_or_agent :: "agent_wallet option \<Rightarrow> jsval \<Rightarrow> jsval" where
  "wallet_or_agent w agentId =
     (case w of Some v \<Rightarrow> JStr (aw_walletId v) | None \<Rightarrow> JStr (''wallet_'' @ js_String (orElse agentId (JStr []))))"

definition projection_input ::
  "string \<Rightarrow> jsval \<Rightarrow> string \<Rightarrow> escrow_type \<Rightarrow> int \<Rightarrow> jsval \<Rightarrow> agent_wallet option \<Rightarrow> agent_wallet option \<Rightarrow> jsval \<Rightarrow> jsval" where
  "projection_input t settlement operationId type cents atArg payer payee memo = JObj
     [(''operationId'', JStr operationId), (''tenantId'', JStr t), (''type'', JStr (escrow_type_str type)),
      (''payerWalletId'', wallet_or_agent payer (getp settlement ''payerAgentId'')),
      (''payeeWalletId'', if type = RELEASE then wallet_or_agent payee (getp settlement ''agentId'') else JNull),
      (''amountCents'', JInt cents), (''at'', atArg), (''memo'', memo)]"

definition projectEscrowLedgerOperation ::
  "string \<Rightarrow> jsval \<Rightarrow> jsval \<Rightarrow> string \<Rightarrow> escrow_type \<Rightarrow> jsval \<Rightarrow> jsval \<Rightarrow> agent_wallet option \<Rightarrow> agent_wallet option \<Rightarrow>
     agent_wallet option \<Rightarrow> agent_wallet option \<Rightarrow> jsval \<Rightarrow> escrow_operation option res" where
  "projectEscrowLedgerOperation now tenantId settlement operationId type amount atArg
      payerWalletBefore payerWalletAfter payeeWalletBefore payeeWalletAfter memo =
     (case safe_int (js_Number (orElse amount (JInt 0))) of
        None \<Rightarrow> Inr None
      | Some cents \<Rightarrow>
          if cents \<le> 0 then Inr None
          else andThen (createEscrowLedger now (JStr (settlement_currency settlement)) JUndef) (\<lambda>st.
            andThen (syncEscrowLedgerWalletSnapshot now st tenantId (orWallet payerWalletBefore payerWalletAfter)) (\<lambda>st.
            andThen (if type = RELEASE then syncEscrowLedgerWalletSnapshot now st tenantId (orWallet payeeWalletBefore payeeWalletAfter) else Inr st) (\<lambda>st.
            andThen (normalizeTenantId tenantId) (\<lambda>t.
            let (st, applied) = applyEscrowOperation now st (projection_input t settlement operationId type cents atArg
                (orWallet payerWalletAfter payerWalletBefore) (orWallet payeeWalletAfter payeeWalletBefore) memo)
            in andThen applied (\<lambda>(operation, _).
               andThen (assertEscrowLedgerMatchesWallet st tenantId (orWallet payerWalletAfter payerWalletBefore) (escrow_type_str type @ '':payer'')) (\<lambda>_.
               andThen (if type = RELEASE
                        then assertEscrowLedgerMatchesWallet st tenantId (orWallet payeeWalletAfter payeeWalletBefore) (escrow_type_str type @ '':payee'')
                        else Inr ()) (\<lambda>_. Inr (Some operation)))))))))"

section \<open>What the ledger holds after the snapshots\<close>

lemma normalizeTenantId_trim: "normalizeTenantId v = Inr t \<Longrightarrow> trim t = t"
proof -
  have "trim DEFAULT_TENANT_ID = DEFAULT_TENANT_ID" by code_simp
  then show "normalizeTenantId v = Inr t \<Longrightarrow> trim t = t"
    by (auto simp: normalizeTenantId_def Let_def res_simps split: if_splits)
qed

lemma wallet_key_wf: "wf_wallet w \<Longrightarrow> wallet_key w = trim (aw_walletId w) \<and> wallet_key w \<noteq> []"
  by (auto simp: wallet_key_def wf_wallet_def)

text \<open>The key \<^verbatim>\<open>"wallet_"\<close> is the one wallets without an id would have; the server skips it.\<close>

definition keyed :: "agent_wallet \<Rightarrow> bool" where
  "keyed w \<longleftrightarrow> wf_wallet w \<and> wallet_key w \<noteq> ''wallet_''"

definition snapshot :: "string \<Rightarrow> agent_wallet \<Rightarrow> (string \<Rightarrow> int) \<Rightarrow> string \<Rightarrow> int" where
  "snapshot t w b = b(available_id t (wallet_key w) := availableCents w, escrow_id t (wallet_key w) := escrowLockedCents w)"

lemma snapshot_ok:
  assumes w: "keyed w" and t: "normalizeTenantId tenant = Inr t"
  shows "\<exists>st'. syncEscrowLedgerWalletSnapshot now st tenant (Some w) = Inr st' \<and>
    balance_of (es_balances st') = snapshot t w (balance_of (es_balances st)) \<and>
    es_operations st' = es_operations st \<and> es_currency st' = es_currency st \<and> entryIds (es_ledger st') = entryIds (es_ledger st)"
proof -
  let ?k = "wallet_key w"
  have k: "trim ?k = ?k" "?k \<noteq> []" "?k \<noteq> ''wallet_''" using w wallet_key_wf[of w] by (auto simp: keyed_def)
  have tt: "trim t = t" "t \<noteq> []" using normalizeTenantId_trim[OF t] normalizeTenantId_Inr[OF t] by auto
  have c: "is_cents (availableCents w)" "is_cents (escrowLockedCents w)" using w by (auto simp: keyed_def wf_wallet_def)
  obtain st1 where st1: "ensureWalletAccounts now st t ?k = Inr st1"
    using ensureWalletAccounts_ok[of t ?k now st] k tt by auto
  let ?st' = "set_balance (escrow_id t ?k) (escrowLockedCents w) (set_balance (available_id t ?k) (availableCents w) st1)"
  have "setWalletBalances now t ?k (availableCents w) (escrowLockedCents w) st = Inr ?st'"
    using st1 k tt by (simp add: setWalletBalances_def account_id_Inr_iff[THEN iffD2])
  then have "upsertEscrowLedgerWalletBalances now st (JStr t) (JStr ?k) (JInt (availableCents w)) (JInt (escrowLockedCents w)) =
      Inr (?st', availableCents w, escrowLockedCents w)"
    using k tt c by (simp add: upsertEscrowLedgerWalletBalances_def EscrowLedger.normalizeAmountCents_def assertNonEmptyString_def is_cents_def)
  then have "syncEscrowLedgerWalletSnapshot now st tenant (Some w) = Inr ?st'"
    using k t by (simp add: syncEscrowLedgerWalletSnapshot_def)
  moreover have "balance_of (es_balances ?st') = snapshot t w (balance_of (es_balances st))"
    using ensureWalletAccounts_money(1)[OF st1] by (auto simp: set_balance_def snapshot_def same_money_def balance_of_def fun_eq_iff)
  ultimately show ?thesis using ensureWalletAccounts_money[OF st1] by (simp add: set_balance_def same_money_def)
qed

section \<open>The operation\<close>

lemma perform_iff:
  assumes i: "wf_input i" and fresh: "entryIds (es_ledger st) = {}" and plan: "buildPostingsForOperation i = Inr (move_plan src dst (ei_amountCents i))"
  shows "(\<exists>st' op. performOperation st i h k = Inr (st', op)) \<longleftrightarrow> ei_amountCents i \<le> balance_of (es_balances st) src"
proof -
  obtain src' dst' where b: "buildPostingsForOperation i = Inr (move_plan src' dst' (ei_amountCents i))" "src' \<noteq> []" "dst' \<noteq> []"
    using buildPostings_ok[OF i] by blast
  have same: "src' = src" "dst' = dst" using b(1) plan by (auto simp: move_plan_def)
  have n: "is_safe (ei_amountCents i)" "ei_amountCents i \<noteq> 0" using i by (auto simp: wf_input_def)
  have ft: "fromAccountId (move_plan src dst (ei_amountCents i)) = src" by (simp add: move_plan_def)
  show ?thesis using createJournalEntry_move[OF n b(2,3)] fresh
    by (auto simp: performOperation_def plan same ensureSufficientBalance_def getBalance_def ft applyJournalEntry_def Let_def)
qed

lemma apply_fresh:
  assumes i: "normalizeOperationInput now (es_currency st) input = Inr i" and fresh: "es_operations st = Map.empty"
  shows "\<exists>st2 h k. same_money (es_ledger st) (es_ledger st2) \<and> es_operations st2 = Map.empty \<and>
    applyEscrowOperation now st input =
      (case performOperation st2 i h k of Inl e \<Rightarrow> (st2, Inl e) | Inr (st3, op) \<Rightarrow> (st3, Inr (op, True)))"
proof -
  obtain h k where hk: "operationRequestHash i = Inr h" "EscrowLedger.operationStoreKey (ei_tenantId i) (ei_operationId i) = Inr k"
    using request_hash_ok store_key_ok by metis
  have wf: "wf_input i" using normalizeOperationInput_wf[OF i] .
  obtain st1 where st1: "ensureWalletAccounts now st (ei_tenantId i) (ei_payerWalletId i) = Inr st1"
    using ensureWalletAccounts_ok[of "ei_tenantId i" "ei_payerWalletId i" now st] wf by (auto simp: wf_input_def)
  obtain st2 where st2: "(case ei_payeeWalletId i of None \<Rightarrow> Inr st1
      | Some w \<Rightarrow> ensureWalletAccounts now st1 (ei_tenantId i) w) = Inr st2"
    using ensureWalletAccounts_ok[of "ei_tenantId i" "the (ei_payeeWalletId i)" now st1] wf
    by (cases "ei_payeeWalletId i") (auto simp: wf_input_def)
  have "same_money (es_ledger st) (es_ledger st2)" "es_operations st2 = es_operations st"
    using ensureWalletAccounts_money[OF st1] st2 ensureWalletAccounts_money[of now st1 "ei_tenantId i" _ st2]
    by (auto split: option.splits intro: same_money_trans)
  then show ?thesis using i hk st1 st2 fresh
    by (intro exI[of _ st2] exI[of _ h] exI[of _ k]) (simp add: applyEscrowOperation_def)
qed

text \<open>On a fresh ledger the operation moves the amount exactly when the source account covers it, by double sums.\<close>

lemma apply_moves:
  assumes i: "normalizeOperationInput now (es_currency st) input = Inr i" and fresh: "es_operations st = Map.empty" "entryIds (es_ledger st) = {}"
    and plan: "buildPostingsForOperation i = Inr (move_plan src dst (ei_amountCents i))"
  shows "case applyEscrowOperation now st input of
     (st', Inl e) \<Rightarrow> balance_of (es_balances st) src < ei_amountCents i
   | (st', Inr (op, a)) \<Rightarrow> ei_amountCents i \<le> balance_of (es_balances st) src \<and> src \<noteq> dst \<and>
       eo_fromAccountId op = src \<and> eo_toAccountId op = dst \<and> eo_amountCents op = ei_amountCents i \<and>
       balance_of (es_balances st') = (balance_of (es_balances st))
         (src := add_int (balance_of (es_balances st) src) (- ei_amountCents i), dst := add_int (balance_of (es_balances st) dst) (ei_amountCents i))"
proof -
  have wf: "wf_input i" using normalizeOperationInput_wf[OF i] .
  obtain st2 h k where st2: "same_money (es_ledger st) (es_ledger st2)"
    and a: "applyEscrowOperation now st input =
      (case performOperation st2 i h k of Inl e \<Rightarrow> (st2, Inl e) | Inr (st3, op) \<Rightarrow> (st3, Inr (op, True)))"
    using apply_fresh[OF i fresh(1)] by blast
  have bal: "balance_of (es_balances st2) = balance_of (es_balances st)" and ids: "entryIds (es_ledger st2) = {}"
    using st2 fresh(2) by (simp_all add: same_money_def)
  show ?thesis
  proof (cases "performOperation st2 i h k")
    case (Inl e)
    then show ?thesis using perform_iff[OF wf ids plan, of h k] by (auto simp: a bal)
  next
    case (Inr r)
    obtain st3 op where r: "r = (st3, op)" by fastforce
    obtain src' dst' where p: "buildPostingsForOperation i = Inr (move_plan src' dst' (ei_amountCents i))" "src' \<noteq> dst'"
      "ei_amountCents i \<le> balance_of (es_balances st2) src'" "es_balances st3 = moved src' dst' (ei_amountCents i) (es_balances st2)"
      "eo_fromAccountId op = src'" "eo_toAccountId op = dst'" "eo_amountCents op = ei_amountCents i"
      using performOperation_Inr[OF wf Inr[unfolded r]] by blast
    have same: "src' = src" "dst' = dst" using p(1) plan by (auto simp: move_plan_def)
    have "balance_of (es_balances st3) = (balance_of (es_balances st))
         (src := add_int (balance_of (es_balances st) src) (- ei_amountCents i), dst := add_int (balance_of (es_balances st) dst) (ei_amountCents i))"
      using p(2,4) unfolding same bal[symmetric] by (auto simp: applyPosting_def balance_of_def fun_eq_iff)
    then show ?thesis using p by (simp add: a Inr r same bal)
  qed
qed

section \<open>The check is exact\<close>

fun payer_moved :: "escrow_type \<Rightarrow> int \<Rightarrow> agent_wallet \<Rightarrow> agent_wallet \<Rightarrow> bool" where
  "payer_moved HOLD n p p' \<longleftrightarrow> n \<le> availableCents p \<and>
     availableCents p' = availableCents p - n \<and> escrowLockedCents p' = escrowLockedCents p + n"
| "payer_moved RELEASE n p p' \<longleftrightarrow> n \<le> escrowLockedCents p \<and>
     availableCents p' = availableCents p \<and> escrowLockedCents p' = escrowLockedCents p - n"
| "payer_moved FORFEIT n p p' \<longleftrightarrow> n \<le> escrowLockedCents p \<and>
     availableCents p' = availableCents p + n \<and> escrowLockedCents p' = escrowLockedCents p - n"

definition payee_moved :: "int \<Rightarrow> agent_wallet \<Rightarrow> agent_wallet \<Rightarrow> bool" where
  "payee_moved n q q' \<longleftrightarrow> availableCents q' = availableCents q + n \<and> escrowLockedCents q' = escrowLockedCents q"

lemma account_eq [simp]: "available_id t k = available_id t k' \<longleftrightarrow> k = k'" "escrow_id t k = escrow_id t k' \<longleftrightarrow> k = k'"
  by (simp_all add: available_id_def escrow_id_def)

lemma account_neq [simp]: "available_id t k \<noteq> escrow_id t k'" "escrow_id t k' \<noteq> available_id t k"
proof -
  have "last (available_id t k) = CHR ''e''" "last (escrow_id t k') = CHR ''d''" by (simp_all add: available_id_def escrow_id_def)
  then show "available_id t k \<noteq> escrow_id t k'" "escrow_id t k' \<noteq> available_id t k" by fastforce+
qed

lemma add_int_eq_safe: "is_safe z \<Longrightarrow> add_int y n = z \<longleftrightarrow> y + n = z"
  using safe_add_int[of y n] add_int_safe[of y n] by auto

lemma assert_wallet_iff:
  assumes "keyed w" and "normalizeTenantId tenant = Inr t"
  shows "assertEscrowLedgerMatchesWallet st tenant (Some w) l = Inr u \<longleftrightarrow>
    balance_of (es_balances st) (available_id t (wallet_key w)) = availableCents w \<and>
    balance_of (es_balances st) (escrow_id t (wallet_key w)) = escrowLockedCents w"
proof -
  have k: "trim (wallet_key w) \<noteq> []" "wallet_key w \<noteq> []" "wallet_key w \<noteq> ''wallet_''"
    using assms(1) wallet_key_wf[of w] by (auto simp: keyed_def)
  have "trim t \<noteq> []" using normalizeTenantId_Inr[OF assms(2)] by simp
  moreover have "trim (available_id t k) \<noteq> []" "trim (escrow_id t k) \<noteq> []" for k
    using trim_nonempty_append[of "'':available''" "''wallet:'' @ t @ '':'' @ k"] trim_nonempty_append[of "'':escrow_locked''" "''wallet:'' @ t @ '':'' @ k"]
    by (auto simp: available_id_def escrow_id_def trim_Nil_iff is_ws_def)
  ultimately show ?thesis
    using k assms(2) by (auto simp: assertEscrowLedgerMatchesWallet_def account_id_Inr_iff[THEN iffD2] getEscrowLedgerBalance_def
      assertNonEmptyString_def getBalance_def throwIf_Inr_iff)
qed

fun move_source :: "string \<Rightarrow> string \<Rightarrow> escrow_type \<Rightarrow> string" where
  "move_source t k HOLD = available_id t k"
| "move_source t k RELEASE = escrow_id t k"
| "move_source t k FORFEIT = escrow_id t k"

fun move_target :: "string \<Rightarrow> string \<Rightarrow> string \<Rightarrow> escrow_type \<Rightarrow> string" where
  "move_target t k k' HOLD = escrow_id t k"
| "move_target t k k' RELEASE = available_id t k'"
| "move_target t k k' FORFEIT = available_id t k"

lemma trimmed_text:
  "trimmed_str (JStr s) = trim s" "trimmed_opt JNull = None" "trim s \<noteq> [] \<Longrightarrow> trimmed_opt (JStr s) = Some (trim s)"
  by (simp add: trimmed_str_def, simp add: trimmed_opt_def nullish_def) (unfold trimmed_opt_def nullish_def Let_def, simp)

lemma projection_input_ok:
  assumes op: "trim operationId \<noteq> []" and t: "normalizeTenantId tenant = Inr t" and n: "0 < n" "is_safe n" and d: "is_iso d"
    and p: "keyed p" and q: "type = RELEASE \<Longrightarrow> payee = Some q \<and> keyed q"
  shows "\<exists>i. normalizeOperationInput now c (projection_input t settlement operationId type n (JStr d) (Some p) payee memo) = Inr i \<and>
    ei_amountCents i = n \<and>
    buildPostingsForOperation i = Inr (move_plan (move_source t (wallet_key p) type) (move_target t (wallet_key p) (wallet_key q) type) n)"
proof -
  have k: "wallet_key p = trim (aw_walletId p)" "wallet_key p \<noteq> []" using p wallet_key_wf[of p] by (auto simp: keyed_def)
  have kq: "type = RELEASE \<Longrightarrow> wallet_key q = trim (aw_walletId q)" "type = RELEASE \<Longrightarrow> trim (aw_walletId q) \<noteq> []"
    using q wallet_key_wf[of q] by (auto simp: keyed_def)
  have tt: "trim t = t" "t \<noteq> []" using normalizeTenantId_trim[OF t] normalizeTenantId_Inr[OF t] by auto
  have ty: "normalizeOperationType (JStr (escrow_type_str HOLD)) = Inr HOLD" "normalizeOperationType (JStr (escrow_type_str RELEASE)) = Inr RELEASE"
    "normalizeOperationType (JStr (escrow_type_str FORFEIT)) = Inr FORFEIT" by code_simp+
  have dd: "EscrowLedger.normalizeIsoDate (JStr d) l = Inr d" for l
    using d by (auto simp: EscrowLedger.normalizeIsoDate_def is_iso_def assertNonEmptyString_def)
  have nn: "EscrowLedger.normalizeAmountCents (JInt n) l False = Inr n" for l using n by (simp add: EscrowLedger.normalizeAmountCents_def)
  define inp where "inp = projection_input t settlement operationId type n (JStr d) (Some p) payee memo"
  have g: "getp inp ''operationId'' = JStr operationId" "getp inp ''tenantId'' = JStr t" "getp inp ''type'' = JStr (escrow_type_str type)"
    "getp inp ''payerWalletId'' = JStr (aw_walletId p)" "getp inp ''payeeWalletId'' = (if type = RELEASE then JStr (aw_walletId q) else JNull)"
    "getp inp ''amountCents'' = JInt n" "getp inp ''at'' = JStr d" "getp inp ''memo'' = memo"
    using q by (simp_all add: inp_def projection_input_def wallet_or_agent_def)
  have pl: "assertPlainObject inp l = Inr ()" for l by (simp add: inp_def projection_input_def res_simps)
  have ty': "normalizeOperationType (JStr (escrow_type_str type)) = Inr type" using ty by (cases type) simp_all
  let ?w = "if type = RELEASE then Some (wallet_key q) else None"
  let ?i = "\<lparr>ei_operationId = trim operationId, ei_tenantId = t, ei_payerWalletId = wallet_key p, ei_payeeWalletId = ?w,
    ei_type = type, ei_amountCents = n, ei_at = d, ei_memo = trimmed_opt memo, ei_currency = c\<rparr>"
  have "normalizeOperationInput now c inp = Inr ?i"
  proof (cases "type = RELEASE")
    case True
    then have q': "wallet_key q = trim (aw_walletId q)" "trim (aw_walletId q) \<noteq> []" using kq by auto
    show ?thesis unfolding normalizeOperationInput_def g pl andThen_simps ty' nn Let_def
      using op k(2) tt True q'(2) unfolding q'(1) k(1) by (simp add: dd trimmed_text del: trimmed_facts)
  next
    case False
    show ?thesis unfolding normalizeOperationInput_def g pl andThen_simps ty' nn Let_def
      using op k(2) tt False unfolding k(1) by (simp add: dd trimmed_text del: trimmed_facts)
  qed
  moreover have "walletAvailableAccountId t (wallet_key p) = Inr (available_id t (wallet_key p))"
    "walletEscrowAccountId t (wallet_key p) = Inr (escrow_id t (wallet_key p))"
    "type = RELEASE \<Longrightarrow> walletAvailableAccountId t (wallet_key q) = Inr (available_id t (wallet_key q))"
    using k kq tt by (simp_all add: account_id_Inr_iff)
  then have "buildPostingsForOperation ?i = Inr (move_plan (move_source t (wallet_key p) type) (move_target t (wallet_key p) (wallet_key q) type) n)"
    by (cases type) (simp_all add: buildPostingsForOperation_def)
  ultimately show ?thesis unfolding inp_def by (intro exI[of _ ?i]) simp
qed

text \<open>The balances before and after the operation on the ledger.\<close>

definition before_move :: "string \<Rightarrow> escrow_type \<Rightarrow> agent_wallet \<Rightarrow> agent_wallet \<Rightarrow> string \<Rightarrow> int" where
  "before_move t type p q = (if type = RELEASE then snapshot t q (snapshot t p (\<lambda>_. 0)) else snapshot t p (\<lambda>_. 0))"

definition after_move :: "string \<Rightarrow> escrow_type \<Rightarrow> int \<Rightarrow> agent_wallet \<Rightarrow> agent_wallet \<Rightarrow> string \<Rightarrow> int" where
  "after_move t type n p q =
     (let b = before_move t type p q; src = move_source t (wallet_key p) type; dst = move_target t (wallet_key p) (wallet_key q) type
      in b(src := add_int (b src) (- n), dst := add_int (b dst) n))"

definition shows_wallet :: "string \<Rightarrow> (string \<Rightarrow> int) \<Rightarrow> agent_wallet \<Rightarrow> bool" where
  "shows_wallet t b w \<longleftrightarrow> b (available_id t (wallet_key w)) = availableCents w \<and> b (escrow_id t (wallet_key w)) = escrowLockedCents w"

lemma projection_balances:
  assumes p: "keyed p" "keyed p'" "wallet_key p' = wallet_key p"
    and q: "type = RELEASE \<Longrightarrow> qb = Some q \<and> qa = Some q' \<and> keyed q \<and> keyed q' \<and> wallet_key q' = wallet_key q"
    and t: "normalizeTenantId tenant = Inr t" and c: "getp settlement ''currency'' = JStr c" "is_currency_code c"
    and n: "0 < n" "is_safe n" and op: "trim operationId \<noteq> []" and d: "is_iso d"
  shows "(\<exists>operation. projectEscrowLedgerOperation now tenant settlement operationId type (JInt n) (JStr d)
            (Some p) (Some p') qb qa memo = Inr (Some operation)) \<longleftrightarrow>
         n \<le> before_move t type p q (move_source t (wallet_key p) type) \<and>
         shows_wallet t (after_move t type n p q) p' \<and> (type = RELEASE \<longrightarrow> shows_wallet t (after_move t type n p q) q')"
    and "\<not> (\<exists>operation. projectEscrowLedgerOperation now tenant settlement operationId type (JInt n) (JStr d)
            (Some p) (Some p') qb qa memo = Inr (Some operation)) \<Longrightarrow>
         \<exists>e. projectEscrowLedgerOperation now tenant settlement operationId type (JInt n) (JStr d) (Some p) (Some p') qb qa memo = Inl e"
proof -
  let ?P = "wallet_key p" and ?Q = "wallet_key q"
  let ?st0 = "\<lparr>es_currency = c, es_ledger = createLedger, es_operations = Map.empty\<rparr>"
  have cur: "settlement_currency settlement = c" "createEscrowLedger now (JStr c) JUndef = Inr ?st0"
    using c currency_code_norm[OF c(2)]
    by (auto simp: settlement_currency_def createEscrowLedger_def EscrowLedger.normalizeCurrency_def dflt_def assertNonEmptyString_def)
  have b0: "balance_of (es_balances ?st0) = (\<lambda>_. 0)" "entryIds (es_ledger ?st0) = {}" by (auto simp: createLedger_def balance_of_def)
  obtain st1 where st1: "syncEscrowLedgerWalletSnapshot now ?st0 tenant (Some p) = Inr st1"
    and b1: "balance_of (es_balances st1) = snapshot t p (\<lambda>_. 0)" "es_operations st1 = Map.empty" "es_currency st1 = c" "entryIds (es_ledger st1) = {}"
    using snapshot_ok[OF p(1) t, of now ?st0] b0 by auto
  obtain st2 where st2: "(if type = RELEASE then syncEscrowLedgerWalletSnapshot now st1 tenant (orWallet qb qa) else Inr st1) = Inr st2"
    and b2: "balance_of (es_balances st2) = before_move t type p q"
      "es_operations st2 = Map.empty" "es_currency st2 = c" "entryIds (es_ledger st2) = {}"
    using snapshot_ok[of q tenant t now st1] q t b1 by (cases "type = RELEASE") (auto simp: orWallet_def before_move_def)
  let ?inp = "projection_input t settlement operationId type n (JStr d) (Some p') (orWallet qa qb) memo"
  obtain i where i: "normalizeOperationInput now c ?inp = Inr i" "ei_amountCents i = n"
    and plan: "buildPostingsForOperation i = Inr (move_plan (move_source t ?P type) (move_target t ?P ?Q type) (ei_amountCents i))"
  proof -
    have "move_target t ?P (wallet_key q') type = move_target t ?P ?Q type" using q by (cases type) simp_all
    then show thesis
      using projection_input_ok[OF op t n d p(2), where type = type and q = q' and payee = "orWallet qa qb" and c = c and settlement = settlement and memo = memo and now = now]
        p(3) q that by (auto simp: orWallet_def)
  qed
  obtain st3 r where ap: "applyEscrowOperation now st2 ?inp = (st3, r)" by fastforce
  have nz: "safe_int (js_Number (orElse (JInt n) (JInt 0))) = Some n" using n by simp
  have proj: "projectEscrowLedgerOperation now tenant settlement operationId type (JInt n) (JStr d) (Some p) (Some p') qb qa memo =
      andThen r (\<lambda>(operation, _).
        andThen (assertEscrowLedgerMatchesWallet st3 tenant (Some p') (escrow_type_str type @ '':payer'')) (\<lambda>_.
        andThen (if type = RELEASE then assertEscrowLedgerMatchesWallet st3 tenant (orWallet qa qb) (escrow_type_str type @ '':payee'') else Inr ()) (\<lambda>_.
          Inr (Some operation))))"
    using n(1) unfolding projectEscrowLedgerOperation_def nz cur orWallet_def[of "Some _"] option.case andThen_simps st1 st2 t Let_def ap by simp
  have as: "assertEscrowLedgerMatchesWallet st3 tenant (Some p') l = Inr u \<longleftrightarrow> shows_wallet t (balance_of (es_balances st3)) p'"
    "type = RELEASE \<Longrightarrow> assertEscrowLedgerMatchesWallet st3 tenant (orWallet qa qb) l = Inr u \<longleftrightarrow> shows_wallet t (balance_of (es_balances st3)) q'" for l u
    using assert_wallet_iff[OF p(2) t, of st3 l u] assert_wallet_iff[of q' tenant t st3 l u] q t by (auto simp: shows_wallet_def orWallet_def)
  have moved: "case r of
       Inl e \<Rightarrow> before_move t type p q (move_source t ?P type) < n
     | Inr (op, a) \<Rightarrow> n \<le> before_move t type p q (move_source t ?P type) \<and> balance_of (es_balances st3) = after_move t type n p q"
    using apply_moves[where st = st2 and now = now and i = i and input = ?inp, OF _ b2(2,4) plan] b2(1,3) i ap
    by (auto simp: after_move_def Let_def split: sum.splits)
  show "(\<exists>operation. projectEscrowLedgerOperation now tenant settlement operationId type (JInt n) (JStr d) (Some p) (Some p') qb qa memo = Inr (Some operation)) \<longleftrightarrow>
      n \<le> before_move t type p q (move_source t ?P type) \<and>
      shows_wallet t (after_move t type n p q) p' \<and> (type = RELEASE \<longrightarrow> shows_wallet t (after_move t type n p q) q')"
    unfolding proj using moved by (cases r) (auto simp: andThen_Inr_iff as)
  show "\<not> (\<exists>operation. projectEscrowLedgerOperation now tenant settlement operationId type (JInt n) (JStr d) (Some p) (Some p') qb qa memo = Inr (Some operation)) \<Longrightarrow>
      \<exists>e. projectEscrowLedgerOperation now tenant settlement operationId type (JInt n) (JStr d) (Some p) (Some p') qb qa memo = Inl e"
  proof -
    assume "\<not> (\<exists>operation. projectEscrowLedgerOperation now tenant settlement operationId type (JInt n) (JStr d) (Some p) (Some p') qb qa memo = Inr (Some operation))"
    moreover have "projectEscrowLedgerOperation now tenant settlement operationId type (JInt n) (JStr d) (Some p) (Some p') qb qa memo \<noteq> Inr None"
      unfolding proj by (auto simp: andThen_Inr_iff)
    ultimately show ?thesis
      by (cases "projectEscrowLedgerOperation now tenant settlement operationId type (JInt n) (JStr d) (Some p) (Some p') qb qa memo") force+
  qed
qed

text \<open>C7: The check of a projected operation is exact: for two wallets with different ids, the projection returns the
  operation when the wallets after it are those before with the amount moved as the type of the operation says, and
  the source covers the amount; in every other case it is an error.\<close>

theorem projection_is_exact:
  assumes p: "keyed p" "keyed p'" "wallet_key p' = wallet_key p"
    and q: "type = RELEASE \<Longrightarrow> keyed q \<and> keyed q' \<and> wallet_key q' = wallet_key q \<and> wallet_key p \<noteq> wallet_key q"
    and t: "normalizeTenantId tenant = Inr t" and c: "getp settlement ''currency'' = JStr c" "is_currency_code c"
    and n: "0 < n" "is_safe n" and op: "trim operationId \<noteq> []" and d: "is_iso d"
  shows "(\<exists>operation. projectEscrowLedgerOperation now tenant settlement operationId type (JInt n) (JStr d)
            (Some p) (Some p') (Some q) (Some q') memo = Inr (Some operation)) \<longleftrightarrow>
         payer_moved type n p p' \<and> (type = RELEASE \<longrightarrow> payee_moved n q q')"
proof -
  have cents: "is_safe (availableCents p')" "is_safe (escrowLockedCents p')" "type = RELEASE \<Longrightarrow> is_safe (availableCents q')"
    "is_cents (availableCents p)" "is_cents (escrowLockedCents p)"
    using p q by (auto simp: keyed_def wf_wallet_def is_cents_def)
  have sub: "x - n = add_int x (- n)" if "is_cents x" "n \<le> x" for x using is_cents_sub[OF that(1) less_imp_le[OF n(1)] that(2)] by simp
  have add: "add_int x n = z \<longleftrightarrow> z = x + n" if "is_safe z" for x z using add_int_eq_safe[OF that] by auto
  note proj = projection_balances(1)[OF p _ t c n op d, of type "Some q" q "Some q'" q' now memo]
  show ?thesis
  proof (cases type)
    case HOLD
    then show ?thesis using proj sub[OF cents(4)] add[OF cents(2)]
      by (auto simp: before_move_def after_move_def shows_wallet_def snapshot_def p(3) Let_def)
  next
    case RELEASE
    then have k: "wallet_key q' = wallet_key q" "wallet_key p \<noteq> wallet_key q" "keyed q" "keyed q'" using q by simp_all
    then show ?thesis using proj RELEASE sub[OF cents(5)] add[OF cents(3)[OF RELEASE]]
      by (auto simp: before_move_def after_move_def shows_wallet_def snapshot_def p(3) Let_def payee_moved_def)
  next
    case FORFEIT
    then show ?thesis using proj sub[OF cents(5)] add[OF cents(1)]
      by (auto simp: before_move_def after_move_def shows_wallet_def snapshot_def p(3) Let_def)
  qed
qed

text \<open>A wallet that pays itself does not pass: the payer's wallet after a release lacks the money the ledger gives back.\<close>

lemma self_release_fails:
  assumes p: "keyed p" "keyed p'" "wallet_key p' = wallet_key p" and q': "keyed q'" "wallet_key q' = wallet_key p"
    and t: "normalizeTenantId tenant = Inr t" and c: "getp settlement ''currency'' = JStr c" "is_currency_code c"
    and n: "0 < n" "is_safe n" and op: "trim operationId \<noteq> []" and d: "is_iso d" and same: "availableCents p' = availableCents p"
  shows "\<exists>e. projectEscrowLedgerOperation now tenant settlement operationId RELEASE (JInt n) (JStr d) (Some p) (Some p') (Some p) (Some q') memo = Inl e"
proof (rule projection_balances(2)[OF p _ t c n op d, where q = p and q' = q'])
  show "RELEASE = RELEASE \<Longrightarrow> Some p = Some p \<and> Some q' = Some q' \<and> keyed p \<and> keyed q' \<and> wallet_key q' = wallet_key p" using p q' by simp
  have "is_safe (availableCents p)" using p(1) by (simp add: keyed_def wf_wallet_def is_cents_def)
  then have "add_int (availableCents p) n \<noteq> availableCents p" using add_int_eq_safe n(1) by simp
  then have "\<not> shows_wallet t (after_move t RELEASE n p p) p'"
    using same by (simp add: after_move_def before_move_def shows_wallet_def snapshot_def p(3) Let_def)
  then show "\<not> (\<exists>operation. projectEscrowLedgerOperation now tenant settlement operationId RELEASE (JInt n) (JStr d)
      (Some p) (Some p') (Some p) (Some q') memo = Inr (Some operation))"
    using projection_balances(1)[OF p _ t c n op d, of RELEASE "Some p" p "Some q'" q' now memo] p q' by simp
qed

definition sample_payer :: "int \<Rightarrow> agent_wallet" where
  "sample_payer locked = (sample_wallet ''t1'' ''USD'' 100 locked)\<lparr>aw_walletId := ''wallet_a''\<rparr>"

definition sample_payee :: "int \<Rightarrow> agent_wallet" where
  "sample_payee available = (sample_wallet ''t1'' ''USD'' available 0)\<lparr>aw_walletId := ''wallet_b''\<rparr>"

lemma sample_keyed:
  "keyed (sample_payer 60)" "keyed (sample_payer 50)" "keyed (sample_payee 5)" "keyed (sample_payee 15)"
  "wallet_key (sample_payer n) = ''wallet_a''" "wallet_key (sample_payee n) = ''wallet_b''"
proof -
  have t: "trim ''wallet_a'' = ''wallet_a''" "trim ''wallet_b'' = ''wallet_b''" by code_simp+
  show k: "wallet_key (sample_payer n) = ''wallet_a''" "wallet_key (sample_payee n) = ''wallet_b''" for n
    by (simp_all add: wallet_key_def sample_payer_def sample_payee_def t)
  have "wf_wallet (sample_payer 60)" "wf_wallet (sample_payer 50)" "wf_wallet (sample_payee 5)" "wf_wallet (sample_payee 15)"
    using sample_wallet_wf t by (auto simp: wf_wallet_def sample_payer_def sample_payee_def sample_wallet_def is_cents_def is_safe_def MAX_SAFE_INTEGER_def)
  then show "keyed (sample_payer 60)" "keyed (sample_payer 50)" "keyed (sample_payee 5)" "keyed (sample_payee 15)"
    by (simp_all add: keyed_def k)
qed

theorem projection_is_exact_witness:
  "\<exists>operation. projectEscrowLedgerOperation [] (JStr ''t1'') (JObj [(''currency'', JStr ''USD'')]) ''op'' RELEASE (JInt 10)
     (JStr ''2024-01-02T00:00:00.000Z'') (Some (sample_payer 60)) (Some (sample_payer 50)) (Some (sample_payee 5)) (Some (sample_payee 15)) JNull =
     Inr (Some operation)"
proof -
  have t: "normalizeTenantId (JStr ''t1'') = Inr ''t1''" "is_currency_code ''USD''" "trim ''op'' \<noteq> []" by code_simp+
  have "payer_moved RELEASE 10 (sample_payer 60) (sample_payer 50) \<and> payee_moved 10 (sample_payee 5) (sample_payee 15)"
    by (simp add: sample_payer_def sample_payee_def sample_wallet_def payee_moved_def)
  then show ?thesis
    using projection_is_exact[OF sample_keyed(1,2) _ _ t(1) _ t(2) _ _ t(3) sample_date, where type = RELEASE and q = "sample_payee 5"
        and q' = "sample_payee 15" and n = 10 and settlement = "JObj [(''currency'', JStr ''USD'')]" and now = "[]" and memo = JNull]
    by (simp add: sample_keyed is_safe_def MAX_SAFE_INTEGER_def)
qed

end
