(* ===== verification/RunMoney.thy ===== *)
theory RunMoney
  imports AgreementMilestones EscrowProjection RunSettlement
begin

text \<open>
  The money of a run in \<^verbatim>\<open>src/api/app.js\<close>: the escrow a run is created with, and its settlement when the run ends. The
  handlers are modelled from the wallets they read to the operations they commit. The store is its two maps of wallets
  and settlements, keyed as \<^verbatim>\<open>src/api/persistence.js\<close> keys them. The settlement kernel (its checks and the decision trace
  it builds) is a parameter, and so are the material of the agreement's policy, sha256, the URL parser and the collation.
\<close>

section \<open>The store\<close>

record money_store =
  agentWallets :: "string \<rightharpoonup> agent_wallet"
  agentRunSettlements :: "string \<rightharpoonup> settlement"

datatype money_op = AGENT_WALLET_UPSERT agent_wallet | AGENT_RUN_SETTLEMENT_UPSERT settlement

definition getAgentWallet :: "money_store \<Rightarrow> string \<Rightarrow> string \<Rightarrow> jsval res" where
  "getAgentWallet st tenantId a =
     andThen (normalizeTenantId (JStr tenantId)) (\<lambda>t.
     andThen (throwIf (trim a = []) (TypeError ''agentId is required'')) (\<lambda>_.
     andThen (makeScopedKey (JStr t) (JStr a)) (\<lambda>k.
       Inr (case agentWallets st k of None \<Rightarrow> JNull | Some w \<Rightarrow> js_of_wallet w))))"

text \<open>The two operations of the transaction log; the tenant is that of the operation.\<close>

definition walletUpsert :: "string \<Rightarrow> money_store \<Rightarrow> agent_wallet \<Rightarrow> money_store res" where
  "walletUpsert tenantId st w =
     andThen (normalizeTenantId (JStr tenantId)) (\<lambda>t.
     andThen (throwIf (aw_agentId w = []) (TypeError ''AGENT_WALLET_UPSERT requires wallet.agentId'')) (\<lambda>_.
     andThen (makeScopedKey (JStr t) (JStr (aw_agentId w))) (\<lambda>k.
       Inr (st\<lparr>agentWallets := (agentWallets st)(k \<mapsto> w\<lparr>aw_tenantId := t\<rparr>)\<rparr>))))"

definition settlementUpsert :: "string \<Rightarrow> money_store \<Rightarrow> settlement \<Rightarrow> money_store res" where
  "settlementUpsert tenantId st s =
     andThen (normalizeTenantId (JStr tenantId)) (\<lambda>t.
     andThen (throwIf (si_runId (rs_ids s) = []) (TypeError ''AGENT_RUN_SETTLEMENT_UPSERT requires settlement.runId'')) (\<lambda>_.
     andThen (makeScopedKey (JStr t) (JStr (si_runId (rs_ids s)))) (\<lambda>k.
       Inr (st\<lparr>agentRunSettlements := (agentRunSettlements st)(k \<mapsto> s\<lparr>rs_ids := (rs_ids s)\<lparr>si_tenantId := t\<rparr>\<rparr>)\<rparr>))))"

fun applyMoneyOp :: "string \<Rightarrow> money_store \<Rightarrow> money_op \<Rightarrow> money_store res" where
  "applyMoneyOp tenantId st (AGENT_WALLET_UPSERT w) = walletUpsert tenantId st w"
| "applyMoneyOp tenantId st (AGENT_RUN_SETTLEMENT_UPSERT s) = settlementUpsert tenantId st s"

definition commitMoney :: "string \<Rightarrow> money_op list \<Rightarrow> money_store \<Rightarrow> money_store res" where
  "commitMoney tenantId ops st = foldRes (applyMoneyOp tenantId) st ops"

section \<open>Creating a run with a settlement\<close>

definition hold_settlement :: "string \<Rightarrow> settlement_request \<Rightarrow> jsval" where
  "hold_settlement payee req = JObj
     [(''payerAgentId'', JStr (sr_payerAgentId req)), (''agentId'', JStr payee), (''currency'', JStr (sr_currency req))]"

definition create_args :: "string \<Rightarrow> string \<Rightarrow> string \<Rightarrow> settlement_request \<Rightarrow> string \<Rightarrow> jsval" where
  "create_args tenantId runId payee req nowAt = JObj
     [(''tenantId'', JStr tenantId), (''runId'', JStr runId), (''agentId'', JStr payee), (''payerAgentId'', JStr (sr_payerAgentId req)),
      (''amountCents'', JInt (sr_amountCents req)), (''currency'', JStr (sr_currency req)),
      (''disputeWindowDays'', JInt (sr_disputeWindowDays req)), (''at'', JStr nowAt)]"

definition openRunSettlement ::
  "(string list \<Rightarrow> string list) \<Rightarrow> string \<Rightarrow> string \<Rightarrow> string \<Rightarrow> string \<Rightarrow> settlement_request \<Rightarrow> string \<Rightarrow> money_store \<Rightarrow>
     (money_op list \<times> settlement) res" where
  "openRunSettlement lsort now tenantId runId payee req nowAt st =
     andThen (getAgentWallet st tenantId (sr_payerAgentId req)) (\<lambda>existing.
     andThen (ensureAgentWallet now existing (JStr tenantId) (JStr (sr_payerAgentId req)) (JStr (sr_currency req)) (JStr nowAt)) (\<lambda>base.
     andThen (lockAgentWalletEscrow now (js_of_wallet base) (JInt (sr_amountCents req)) (JStr nowAt)) (\<lambda>payerWallet.
     andThen (projectEscrowLedgerOperation now (JStr tenantId) (hold_settlement payee req) (''escrow_hold_'' @ runId) HOLD
                (JInt (sr_amountCents req)) (JStr nowAt) (Some base) (Some payerWallet) None None (JStr (''run:'' @ runId @ '':hold''))) (\<lambda>_.
     andThen (createAgentRunSettlement lsort now (create_args tenantId runId payee req nowAt)) (\<lambda>settlement.
       Inr ([AGENT_WALLET_UPSERT payerWallet, AGENT_RUN_SETTLEMENT_UPSERT settlement], settlement))))))"

section \<open>The decision at the end of a run\<close>

record terminal_run =
  tr_tenantId :: string
  tr_runId :: string
  tr_at :: string
  tr_eventId :: jsval
  tr_run :: jsval
  tr_events :: jsval
  tr_agreement :: jsval
  tr_policy :: jsval
  tr_verificationMethod :: jsval
  tr_policyHash :: jsval

record settlement_kernel =
  sk_preflight :: "settlement \<Rightarrow> unit res"
  sk_decisionTrace :: "bool \<Rightarrow> verifier_execution \<Rightarrow> policy_decision \<Rightarrow> jsval res"
  sk_bindings :: "settlement \<Rightarrow> unit res"

definition fallbackDecision :: "jsval \<Rightarrow> run_verification \<Rightarrow> string \<Rightarrow> int \<Rightarrow> policy_decision" where
  "fallbackDecision run verification st amount =
     (let rate = (if getp run ''status'' = JStr ''failed'' then 0 else resolveRunSettlementReleaseRatePct run verification);
          release = share amount rate
      in \<lparr>pd_policy = JNull, pd_verificationMethod = JNull, pd_decisionMode = ''automatic'', pd_shouldAutoResolve = True,
          pd_reasonCodes = [], pd_releaseRatePct = JInt rate, pd_releaseAmountCents = release,
          pd_refundAmountCents = add_int amount (- release), pd_settlementStatus = (if 0 < release then ''released'' else ''refunded''),
          pd_verificationStatus = st, pd_runStatus = js_String (getp run ''status'')\<rparr>)"

definition failedEvaluation :: "terminal_run \<Rightarrow> string \<Rightarrow> int \<Rightarrow> policy_decision" where
  "failedEvaluation tr st amount =
     \<lparr>pd_policy = orElse (tr_policy tr) JNull, pd_verificationMethod = orElse (tr_verificationMethod tr) JNull,
      pd_decisionMode = ''manual-review'', pd_shouldAutoResolve = False, pd_reasonCodes = [''policy_evaluation_failed''],
      pd_releaseRatePct = JInt 0, pd_releaseAmountCents = 0, pd_refundAmountCents = amount, pd_settlementStatus = ''locked'',
      pd_verificationStatus = st, pd_runStatus = js_String (getp (tr_run tr) ''status'')\<rparr>"

definition terminalDecision ::
  "(string \<Rightarrow> string) \<Rightarrow> (string \<Rightarrow> (string \<Rightarrow> string option) option) \<Rightarrow> terminal_run \<Rightarrow> int \<Rightarrow> (verifier_execution \<times> policy_decision) res" where
  "terminalDecision H queryOf tr amount =
     (let run = tr_run tr; verification = computeAgentRunVerification run (tr_events tr) in
      andThen (evaluateRunSettlementVerifierExecution H queryOf (tr_verificationMethod tr) run verification) (\<lambda>execution.
      let st = ve_verificationStatus execution in
      if \<not> is_object (tr_agreement tr) then Inr (execution, fallbackDecision run verification st amount)
      else let decision = (case evaluateSettlementPolicy (tr_policy tr) (tr_verificationMethod tr) (JStr st) (getp run ''status'') (JInt amount) of
                 Inr d \<Rightarrow> d | Inl _ \<Rightarrow> failedEvaluation tr st amount)
        in Inr (execution, fst (applyAgreementMilestoneRelease decision (tr_agreement tr) run verification amount))))"

section \<open>The settlement at the end of a run\<close>

definition linkedDisputeWindowDays :: "terminal_run \<Rightarrow> settlement \<Rightarrow> int" where
  "linkedDisputeWindowDays tr s =
     (case isSafeNumber (orElse (getp (tr_agreement tr) ''disputeWindowDays'') (JInt (sd_windowDays (rs_dispute s)))) of
        Some n \<Rightarrow> (if 0 \<le> n then n else 0) | None \<Rightarrow> 0)"

definition resolutionKey :: "terminal_run \<Rightarrow> string" where
  "resolutionKey tr =
     (case tr_eventId tr of JStr i \<Rightarrow> (if trim i \<noteq> [] then i else ''run_'' @ tr_runId tr @ ''_'' @ tr_at tr)
      | _ \<Rightarrow> ''run_'' @ tr_runId tr @ ''_'' @ tr_at tr)"

definition firstReason :: "policy_decision \<Rightarrow> jsval" where
  "firstReason d = (case pd_reasonCodes d of [] \<Rightarrow> JNull | r # _ \<Rightarrow> JStr r)"

definition manual_args :: "terminal_run \<Rightarrow> settlement \<Rightarrow> policy_decision \<Rightarrow> jsval \<Rightarrow> jsval" where
  "manual_args tr s d trace = JObj
     [(''settlement'', js_of_settlement s), (''decisionStatus'', JStr ''manual_review_required''), (''decisionMode'', JStr ''manual-review''),
      (''decisionPolicyHash'', orElse (tr_policyHash tr) JNull),
      (''decisionReason'', orElse (firstReason d) (JStr ''manual review required by settlement policy'')),
      (''decisionTrace'', trace), (''at'', JStr (tr_at tr))]"

definition reviewSettlement ::
  "(string list \<Rightarrow> string list) \<Rightarrow> string \<Rightarrow> settlement_kernel \<Rightarrow> terminal_run \<Rightarrow> settlement \<Rightarrow> verifier_execution \<Rightarrow> policy_decision \<Rightarrow>
     (money_op list \<times> settlement) res" where
  "reviewSettlement lsort now sk tr s execution d =
     andThen (sk_decisionTrace sk False execution d) (\<lambda>trace.
     andThen (updateAgentRunSettlementDecision lsort now (manual_args tr s d trace)) (\<lambda>u.
     let s' = u\<lparr>rs_dispute := (rs_dispute u)\<lparr>sd_windowDays := linkedDisputeWindowDays tr s\<rparr>,
                rs_revision := add_int (rs_revision u) 1, rs_updatedAt := tr_at tr\<rparr>
     in Inr ([AGENT_RUN_SETTLEMENT_UPSERT s'], s')))"

text \<open>Paying the payee: the payer's wallet after it, and the operations.\<close>

definition payRelease ::
  "string \<Rightarrow> terminal_run \<Rightarrow> settlement \<Rightarrow> money_store \<Rightarrow> agent_wallet \<Rightarrow> int \<Rightarrow> (agent_wallet \<times> money_op list) res" where
  "payRelease now tr s st payerWallet amount =
     (if amount \<le> 0 then Inr (payerWallet, [])
      else andThen (getAgentWallet st (tr_tenantId tr) (si_agentId (rs_ids s))) (\<lambda>existing.
        andThen (ensureAgentWallet now existing (JStr (tr_tenantId tr)) (JStr (si_agentId (rs_ids s)))
                   (JStr (sm_currency (rs_money s))) (JStr (tr_at tr))) (\<lambda>payeeWallet.
        andThen (releaseAgentWalletEscrowToPayee now (js_of_wallet payerWallet) (js_of_wallet payeeWallet) (JInt amount) (JStr (tr_at tr)))
          (\<lambda>(payer, payee).
        andThen (projectEscrowLedgerOperation now (JStr (tr_tenantId tr)) (js_of_settlement s)
                   (''escrow_release_'' @ tr_runId tr @ ''_'' @ resolutionKey tr) RELEASE (JInt amount) (JStr (tr_at tr))
                   (Some payerWallet) (Some payer) (Some payeeWallet) (Some payee) (JStr (''run:'' @ tr_runId tr @ '':auto_release''))) (\<lambda>_.
          Inr (payer, [AGENT_WALLET_UPSERT payee]))))))"

definition payRefund :: "string \<Rightarrow> terminal_run \<Rightarrow> settlement \<Rightarrow> agent_wallet \<Rightarrow> int \<Rightarrow> agent_wallet res" where
  "payRefund now tr s payerWallet amount =
     (if amount \<le> 0 then Inr payerWallet
      else andThen (refundAgentWalletEscrow now (js_of_wallet payerWallet) (JInt amount) (JStr (tr_at tr))) (\<lambda>payer.
        andThen (projectEscrowLedgerOperation now (JStr (tr_tenantId tr)) (js_of_settlement s)
                   (''escrow_forfeit_'' @ tr_runId tr @ ''_'' @ resolutionKey tr) FORFEIT (JInt amount) (JStr (tr_at tr))
                   (Some payerWallet) (Some payer) None None (JStr (''run:'' @ tr_runId tr @ '':auto_refund''))) (\<lambda>_.
          Inr payer)))"

definition resolve_args :: "terminal_run \<Rightarrow> settlement \<Rightarrow> policy_decision \<Rightarrow> jsval \<Rightarrow> jsval" where
  "resolve_args tr s d trace = JObj
     [(''settlement'', js_of_settlement s),
      (''status'', JStr (if 0 < pd_releaseAmountCents d then ''released'' else ''refunded'')),
      (''runStatus'', getp (tr_run tr) ''status''), (''releasedAmountCents'', JInt (pd_releaseAmountCents d)),
      (''refundedAmountCents'', JInt (pd_refundAmountCents d)),
      (''releaseRatePct'', JNum (js_Number (orElse (pd_releaseRatePct d) (JInt 0)))),
      (''disputeWindowDays'', JInt (linkedDisputeWindowDays tr s)), (''decisionStatus'', JStr ''auto_resolved''),
      (''decisionMode'', JStr ''automatic''), (''decisionPolicyHash'', orElse (tr_policyHash tr) JNull),
      (''decisionReason'', firstReason d), (''decisionTrace'', trace), (''resolutionEventId'', tr_eventId tr), (''at'', JStr (tr_at tr))]"

definition autoSettlement ::
  "(string list \<Rightarrow> string list) \<Rightarrow> string \<Rightarrow> settlement_kernel \<Rightarrow> terminal_run \<Rightarrow> settlement \<Rightarrow> money_store \<Rightarrow> agent_wallet \<Rightarrow>
     verifier_execution \<Rightarrow> policy_decision \<Rightarrow> (money_op list \<times> settlement) res" where
  "autoSettlement lsort now sk tr s st payerWallet execution d =
     andThen (payRelease now tr s st payerWallet (pd_releaseAmountCents d)) (\<lambda>(payer, ops).
     andThen (payRefund now tr s payer (pd_refundAmountCents d)) (\<lambda>payer.
     andThen (sk_decisionTrace sk True execution d) (\<lambda>trace.
     andThen (resolveAgentRunSettlement lsort now (resolve_args tr s d trace)) (\<lambda>s'.
     andThen (sk_bindings sk s') (\<lambda>_.
       Inr (ops @ [AGENT_WALLET_UPSERT payer, AGENT_RUN_SETTLEMENT_UPSERT s'], s'))))))"

text \<open>Nothing happens unless the settlement is locked and the run has ended.\<close>

definition settleTerminalRun ::
  "(string \<Rightarrow> string) \<Rightarrow> (string \<Rightarrow> (string \<Rightarrow> string option) option) \<Rightarrow> (string list \<Rightarrow> string list) \<Rightarrow> string \<Rightarrow> settlement_kernel \<Rightarrow>
     terminal_run \<Rightarrow> settlement \<Rightarrow> money_store \<Rightarrow> (money_op list \<times> settlement) res" where
  "settleTerminalRun H queryOf lsort now sk tr s st =
     (if sm_status (rs_money s) \<noteq> LOCKED \<or> getp (tr_run tr) ''status'' \<notin> {JStr ''completed'', JStr ''failed''} then Inr ([], s)
      else andThen (sk_preflight sk s) (\<lambda>_.
        andThen (getAgentWallet st (tr_tenantId tr) (si_payerAgentId (rs_ids s))) (\<lambda>existing.
        andThen (ensureAgentWallet now existing (JStr (tr_tenantId tr)) (JStr (si_payerAgentId (rs_ids s)))
                   (JStr (sm_currency (rs_money s))) (JStr (tr_at tr))) (\<lambda>payerWallet.
        andThen (terminalDecision H queryOf tr (sm_amountCents (rs_money s))) (\<lambda>(execution, d).
          if \<not> pd_shouldAutoResolve d then reviewSettlement lsort now sk tr s execution d
          else autoSettlement lsort now sk tr s st payerWallet execution d)))))"

section \<open>Money in the store\<close>

definition money :: "agent_wallet \<Rightarrow> int" where
  "money w = availableCents w + escrowLockedCents w"

definition total_money :: "money_store \<Rightarrow> int" where
  "total_money st = (\<Sum>k \<in> dom (agentWallets st). money (the (agentWallets st k)))"

definition wallet_at :: "money_store \<Rightarrow> string \<Rightarrow> string \<Rightarrow> agent_wallet option" where
  "wallet_at st t a = agentWallets st (t @ CHR 0x0A # a)"

definition available_at :: "money_store \<Rightarrow> string \<Rightarrow> string \<Rightarrow> int" where
  "available_at st t a = (case wallet_at st t a of None \<Rightarrow> 0 | Some w \<Rightarrow> availableCents w)"

definition locked_at :: "money_store \<Rightarrow> string \<Rightarrow> string \<Rightarrow> int" where
  "locked_at st t a = (case wallet_at st t a of None \<Rightarrow> 0 | Some w \<Rightarrow> escrowLockedCents w)"

text \<open>Every wallet is well-formed, has an id, and stands under the key of its tenant and agent.\<close>

definition wf_store :: "money_store \<Rightarrow> bool" where
  "wf_store st \<longleftrightarrow> finite (dom (agentWallets st)) \<and>
     (\<forall>k w. agentWallets st k = Some w \<longrightarrow> keyed w \<and> makeScopedKey (JStr (aw_tenantId w)) (JStr (aw_agentId w)) = Inr k)"

definition tenant_text :: "string \<Rightarrow> bool" where
  "tenant_text t \<longleftrightarrow> normalizeTenantId (JStr t) = Inr t"

lemma scoped_key:
  "tenant_text t \<Longrightarrow> makeScopedKey (JStr t) (JStr a) = Inr k \<Longrightarrow> k = t @ CHR 0x0A # a \<and> trim a \<noteq> []"
  by (auto simp: tenant_text_def makeScopedKey_Inr)

lemma scoped_keys_differ: "t @ CHR 0x0A # a = t @ CHR 0x0A # b \<longleftrightarrow> a = b"
  by simp

definition put_wallet :: "string \<Rightarrow> agent_wallet \<Rightarrow> money_store \<Rightarrow> money_store" where
  "put_wallet t w st = st\<lparr>agentWallets := (agentWallets st)(t @ CHR 0x0A # aw_agentId w \<mapsto> w)\<rparr>"

lemma apply_wallet:
  assumes "tenant_text t" and "aw_tenantId w = t" and "applyMoneyOp t st (AGENT_WALLET_UPSERT w) = Inr st'"
  shows "st' = put_wallet t w st \<and> makeScopedKey (JStr t) (JStr (aw_agentId w)) = Inr (t @ CHR 0x0A # aw_agentId w)"
proof -
  have w: "w\<lparr>aw_tenantId := t\<rparr> = w" using assms(2) by simp
  obtain k where k: "makeScopedKey (JStr t) (JStr (aw_agentId w)) = Inr k" "st' = st\<lparr>agentWallets := (agentWallets st)(k \<mapsto> w)\<rparr>"
    using assms(1,3) w by (auto simp: walletUpsert_def tenant_text_def andThen_Inr_iff)
  then show ?thesis using scoped_key[OF assms(1) k(1)] by (simp add: put_wallet_def)
qed

lemma apply_settlement:
  "applyMoneyOp t st (AGENT_RUN_SETTLEMENT_UPSERT s) = Inr st' \<Longrightarrow> agentWallets st' = agentWallets st"
  by (auto simp: settlementUpsert_def andThen_Inr_iff)

lemma put_wallet_money:
  assumes "wf_store st" and "keyed w" and "makeScopedKey (JStr (aw_tenantId w)) (JStr (aw_agentId w)) = Inr (t @ CHR 0x0A # aw_agentId w)"
  shows "wf_store (put_wallet t w st)"
    and "total_money (put_wallet t w st) = total_money st + money w - (available_at st t (aw_agentId w) + locked_at st t (aw_agentId w))"
proof -
  let ?k = "t @ CHR 0x0A # aw_agentId w"
  show "wf_store (put_wallet t w st)" using assms by (auto simp: wf_store_def put_wallet_def)
  let ?f = "\<lambda>k. money (the (agentWallets st k))"
  have fin: "finite (dom (agentWallets st))" using assms(1) by (simp add: wf_store_def)
  have old: "available_at st t (aw_agentId w) + locked_at st t (aw_agentId w) = (if ?k \<in> dom (agentWallets st) then ?f ?k else 0)"
    by (auto simp: available_at_def locked_at_def wallet_at_def money_def split: option.splits)
  have "total_money (put_wallet t w st) = money w + (\<Sum>k \<in> dom (agentWallets st) - {?k}. ?f k)"
    using fin by (simp add: total_money_def put_wallet_def sum.insert_remove)
  also have "(\<Sum>k \<in> dom (agentWallets st) - {?k}. ?f k) = total_money st - (if ?k \<in> dom (agentWallets st) then ?f ?k else 0)"
    using fin by (simp add: total_money_def sum_diff1)
  finally show "total_money (put_wallet t w st) = total_money st + money w - (available_at st t (aw_agentId w) + locked_at st t (aw_agentId w))"
    using old by simp
qed

lemma put_wallet_at:
  "available_at (put_wallet t w st) t a = (if a = aw_agentId w then availableCents w else available_at st t a)"
  "locked_at (put_wallet t w st) t a = (if a = aw_agentId w then escrowLockedCents w else locked_at st t a)"
  by (simp_all add: available_at_def locked_at_def wallet_at_def put_wallet_def)

section \<open>The wallet a handler works on\<close>

lemma trim_prefix:
  assumes "trim a \<noteq> []"
  shows "\<exists>b. trim (''wallet_'' @ a) = ''wallet_'' @ b \<and> b \<noteq> []"
proof -
  have ex: "\<exists>c \<in> set (rev a). \<not> is_ws c" using assms by (auto simp: trim_Nil_iff)
  have n: "\<not> is_ws CHR ''w''" by code_simp
  have "dropWhile is_ws (rev a @ ys) = dropWhile is_ws (rev a) @ ys" for ys using ex dropWhile_append1[of _ "rev a" is_ws ys] by blast
  then have "trim (''wallet_'' @ a) = ''wallet_'' @ rev (dropWhile is_ws (rev a))"
    using n by (simp add: trim_def)
  moreover have "dropWhile is_ws (rev a) \<noteq> []" using ex by (auto simp: dropWhile_eq_Nil_conv)
  ultimately show ?thesis by simp
qed

lemma ensured_wallet:
  assumes st: "wf_store st" and t: "tenant_text t" and g: "getAgentWallet st t a = Inr v"
    and e: "ensureAgentWallet now v (JStr t) (JStr a) c (JStr d) = Inr w"
  shows "keyed w \<and> aw_tenantId w = t \<and> aw_agentId w = a \<and> availableCents w = available_at st t a \<and> escrowLockedCents w = locked_at st t a \<and>
    makeScopedKey (JStr t) (JStr a) = Inr (t @ CHR 0x0A # a)"
proof -
  obtain k where k: "makeScopedKey (JStr t) (JStr a) = Inr k"
    and v: "v = (case agentWallets st k of None \<Rightarrow> JNull | Some w \<Rightarrow> js_of_wallet w)"
    using g t by (auto simp: getAgentWallet_def tenant_text_def andThen_Inr_iff)
  note key = scoped_key[OF t k]
  show ?thesis
  proof (cases "agentWallets st k")
    case None
    then have "\<exists>x. createAgentWallet now (JStr t) (JStr a) x (JStr d) = Inr w"
      using e v by (auto simp: ensureAgentWallet_def dflt_def)
    then obtain x cc where cc: "normalizeWalletCurrency x = Inr cc" "is_iso d" "trim t \<noteq> []"
      and w: "w = \<lparr>aw_walletId = ''wallet_'' @ a, aw_agentId = a, aw_tenantId = t, aw_currency = cc,
            availableCents = 0, escrowLockedCents = 0, totalDebitedCents = 0, totalCreditedCents = 0,
            aw_revision = 0, aw_createdAt = d, aw_updatedAt = d\<rparr>"
      by (auto simp: createAgentWallet_def res_simps dflt_def orElse_def nullish_def)
    obtain b where b: "trim (''wallet_'' @ a) = ''wallet_'' @ b" "b \<noteq> []" using trim_prefix key by blast
    have "wf_wallet w" using cc normalizeWalletCurrency_Inr[OF cc(1)] key b
      by (simp add: w wf_wallet_def is_cents_def is_safe_def MAX_SAFE_INTEGER_def)
    moreover have "wallet_key w \<noteq> ''wallet_''" using b by (simp add: w wallet_key_def)
    ultimately show ?thesis using None key k by (simp add: keyed_def w available_at_def locked_at_def wallet_at_def)
  next
    case (Some u)
    then have u: "keyed u" "v = js_of_wallet u" using st v by (auto simp: wf_store_def)
    have "truthy (js_of_wallet u)" by (simp add: js_of_wallet_def)
    moreover have "normalizeWalletRecord (js_of_wallet u) = Inr u" using u(1) by (simp add: normalizeWalletRecord_js keyed_def wf_wallet_def)
    ultimately have "w = u" "aw_tenantId u = t" "aw_agentId u = a"
      using e u(2) by (auto simp: ensureAgentWallet_def andThen_Inr_iff throwIf_Inr_iff)
    then show ?thesis using u(1) Some key k by (simp add: available_at_def locked_at_def wallet_at_def)
  qed
qed

section \<open>Wallet operations\<close>

lemma amount_arg: "operationArgs now (JInt n) (JStr d) = Inr (t, m) \<Longrightarrow> t = d \<and> m = n \<and> 0 < n \<and> is_safe n \<and> is_iso d"
  by (auto simp: operationArgs_def res_simps dflt_def split: if_splits)

text \<open>An update keeps the identity of a wallet.\<close>

definition same_owner :: "agent_wallet \<Rightarrow> agent_wallet \<Rightarrow> bool" where
  "same_owner w w' \<longleftrightarrow> aw_walletId w' = aw_walletId w \<and> aw_agentId w' = aw_agentId w \<and> aw_tenantId w' = aw_tenantId w"

lemma keyed_update: "keyed w \<Longrightarrow> wf_wallet w' \<Longrightarrow> same_owner w w' \<Longrightarrow> keyed w' \<and> wallet_key w' = wallet_key w"
  by (auto simp: keyed_def same_owner_def wallet_key_def)

lemma updated_wf: "withWalletUpdate v f d = Inr w \<Longrightarrow> wf_wallet w"
  by (auto simp: withWalletUpdate_def andThen_Inr_iff intro: normalizeWalletRecord_wf)

lemma lock_effect:
  assumes "keyed w" and "lockAgentWalletEscrow now (js_of_wallet w) (JInt n) (JStr d) = Inr w'"
  shows "0 < n \<and> is_safe n \<and> is_iso d \<and> keyed w' \<and> same_owner w w' \<and> payer_moved HOLD n w w'"
proof -
  have n: "0 < n" "is_safe n" "is_iso d" and u: "withWalletUpdate (js_of_wallet w) (lock_available n) d = Inr w'"
    using assms(2) amount_arg by (fastforce simp: lockAgentWalletEscrow_def andThen_Inr_iff)+
  have wf: "wf_wallet w" using assms(1) by (simp add: keyed_def)
  have ge: "n \<le> availableCents w"
    using u withWalletUpdate_fail[OF wf, of "lock_available n"] by (cases "availableCents w < n") (auto simp: lock_available_def)
  let ?u = "w\<lparr>availableCents := add_int (availableCents w) (- n), escrowLockedCents := add_int (escrowLockedCents w) n\<rparr>"
  have "w' = ?u\<lparr>aw_revision := add_int (aw_revision w) 1, aw_updatedAt := d\<rparr>" and w': "wf_wallet w'"
    using u ge withWalletUpdate_wf[OF wf, of "lock_available n" ?u d w'] updated_wf[OF u] by (auto simp: lock_available_def)
  moreover have "is_safe (escrowLockedCents w')" using w' by (simp add: wf_wallet_def is_cents_def)
  ultimately have "payer_moved HOLD n w w' \<and> same_owner w w'"
    using ge n wf safe_add_int[of "escrowLockedCents w" n] is_cents_sub[of "availableCents w" n]
    by (simp add: same_owner_def wf_wallet_def add_int_safe)
  then show ?thesis using n keyed_update[OF assms(1) w'] by simp
qed

lemma refund_effect:
  assumes "keyed w" and "refundAgentWalletEscrow now (js_of_wallet w) (JInt n) (JStr d) = Inr w'"
  shows "0 < n \<and> is_safe n \<and> is_iso d \<and> keyed w' \<and> same_owner w w' \<and> payer_moved FORFEIT n w w'"
proof -
  have n: "0 < n" "is_safe n" "is_iso d" and u: "withWalletUpdate (js_of_wallet w) (refund_escrow n) d = Inr w'"
    using assms(2) amount_arg by (fastforce simp: refundAgentWalletEscrow_def andThen_Inr_iff)+
  have wf: "wf_wallet w" using assms(1) by (simp add: keyed_def)
  have ge: "n \<le> escrowLockedCents w"
    using u withWalletUpdate_fail[OF wf, of "refund_escrow n"] by (cases "escrowLockedCents w < n") (auto simp: refund_escrow_def)
  let ?u = "w\<lparr>escrowLockedCents := add_int (escrowLockedCents w) (- n), availableCents := add_int (availableCents w) n,
    totalCreditedCents := add_int (totalCreditedCents w) n\<rparr>"
  have "w' = ?u\<lparr>aw_revision := add_int (aw_revision w) 1, aw_updatedAt := d\<rparr>" and w': "wf_wallet w'"
    using u ge withWalletUpdate_wf[OF wf, of "refund_escrow n" ?u d w'] updated_wf[OF u] by (auto simp: refund_escrow_def)
  moreover have "is_safe (availableCents w')" using w' by (simp add: wf_wallet_def is_cents_def)
  ultimately have "payer_moved FORFEIT n w w' \<and> same_owner w w'"
    using ge n wf safe_add_int[of "availableCents w" n] is_cents_sub[of "escrowLockedCents w" n]
    by (simp add: same_owner_def wf_wallet_def add_int_safe)
  then show ?thesis using n keyed_update[OF assms(1) w'] by simp
qed

lemma release_effect:
  assumes "keyed p" and "keyed q"
    and "releaseAgentWalletEscrowToPayee now (js_of_wallet p) (js_of_wallet q) (JInt n) (JStr d) = Inr (p', q')"
  shows "0 < n \<and> is_safe n \<and> is_iso d \<and> keyed p' \<and> same_owner p p' \<and> payer_moved RELEASE n p p' \<and>
    keyed q' \<and> same_owner q q' \<and> payee_moved n q q'"
proof -
  have n: "0 < n" "is_safe n" "is_iso d" and u: "withWalletUpdate (js_of_wallet p) (debit_escrow n) d = Inr p'"
      "withWalletUpdate (js_of_wallet q) (credit_available n) d = Inr q'"
    using assms(3) amount_arg by (fastforce simp: releaseAgentWalletEscrowToPayee_def andThen_Inr_iff)+
  have wf: "wf_wallet p" "wf_wallet q" using assms(1,2) by (simp_all add: keyed_def)
  note e = debit_escrow_Inr[OF wf(1) n(1,3), THEN iffD1, OF u(1)] credit_available_Inr[OF wf(2) n(1,3), THEN iffD1, OF u(2)]
  have "payer_moved RELEASE n p p' \<and> same_owner p p' \<and> payee_moved n q q' \<and> same_owner q q'"
    using e by (simp add: same_owner_def payee_moved_def)
  then show ?thesis using n keyed_update[OF assms(1) updated_wf[OF u(1)]] keyed_update[OF assms(2) updated_wf[OF u(2)]] by simp
qed

section \<open>The payments\<close>

lemma settlement_currency_field:
  assumes "wf_settlement lsort s"
  shows "getp (js_of_settlement s) ''currency'' = JStr (sm_currency (rs_money s))" and "is_currency_code (sm_currency (rs_money s))"
  using assms by (simp_all add: js_of_settlement_def ids_props_def money_props_def wf_parts)

lemma operation_ids: "trim (''escrow_release_'' @ x) \<noteq> []" "trim (''escrow_forfeit_'' @ x) \<noteq> []" "trim (''escrow_hold_'' @ x) \<noteq> []"
  by (simp_all add: trim_Nil_iff is_ws_def)

text \<open>The payer's wallet as the handler obtains it.\<close>

definition payer_of :: "string \<Rightarrow> money_store \<Rightarrow> terminal_run \<Rightarrow> settlement \<Rightarrow> agent_wallet \<Rightarrow> bool" where
  "payer_of now st tr s p \<longleftrightarrow> (\<exists>v. getAgentWallet st (tr_tenantId tr) (si_payerAgentId (rs_ids s)) = Inr v \<and>
     ensureAgentWallet now v (JStr (tr_tenantId tr)) (JStr (si_payerAgentId (rs_ids s))) (JStr (sm_currency (rs_money s))) (JStr (tr_at tr)) = Inr p)"

lemma payRelease_effect:
  assumes st: "wf_store st" and t: "tenant_text (tr_tenantId tr)" and s: "wf_settlement lsort s" and p: "payer_of now st tr s p"
    and r: "payRelease now tr s st p n = Inr (p', ops)"
  shows "n \<le> 0 \<and> p' = p \<and> ops = [] \<or>
    0 < n \<and> si_agentId (rs_ids s) \<noteq> si_payerAgentId (rs_ids s) \<and> keyed p' \<and> same_owner p p' \<and> payer_moved RELEASE n p p' \<and>
    (\<exists>q'. ops = [AGENT_WALLET_UPSERT q'] \<and> keyed q' \<and> aw_tenantId q' = tr_tenantId tr \<and> aw_agentId q' = si_agentId (rs_ids s) \<and>
       availableCents q' = available_at st (tr_tenantId tr) (si_agentId (rs_ids s)) + n \<and>
       escrowLockedCents q' = locked_at st (tr_tenantId tr) (si_agentId (rs_ids s)))"
proof (cases "n \<le> 0")
  case True
  then show ?thesis using r by (simp add: payRelease_def)
next
  case False
  let ?t = "tr_tenantId tr" and ?A = "si_agentId (rs_ids s)" and ?P = "si_payerAgentId (rs_ids s)"
  obtain v q q' op where g: "getAgentWallet st ?t ?A = Inr v"
    and e: "ensureAgentWallet now v (JStr ?t) (JStr ?A) (JStr (sm_currency (rs_money s))) (JStr (tr_at tr)) = Inr q"
    and rel: "releaseAgentWalletEscrowToPayee now (js_of_wallet p) (js_of_wallet q) (JInt n) (JStr (tr_at tr)) = Inr (p', q')"
    and proj: "projectEscrowLedgerOperation now (JStr ?t) (js_of_settlement s) (''escrow_release_'' @ tr_runId tr @ ''_'' @ resolutionKey tr) RELEASE
        (JInt n) (JStr (tr_at tr)) (Some p) (Some p') (Some q) (Some q') (JStr (''run:'' @ tr_runId tr @ '':auto_release'')) = Inr op"
    and ops: "ops = [AGENT_WALLET_UPSERT q']"
    using r False by (auto simp: payRelease_def andThen_Inr_iff)
  obtain v' where p': "getAgentWallet st ?t ?P = Inr v'"
      "ensureAgentWallet now v' (JStr ?t) (JStr ?P) (JStr (sm_currency (rs_money s))) (JStr (tr_at tr)) = Inr p"
    using p by (auto simp: payer_of_def)
  have P: "keyed p" using ensured_wallet[OF st t p'] by simp
  have Q: "keyed q" "aw_tenantId q = ?t" "aw_agentId q = ?A" "availableCents q = available_at st ?t ?A" "escrowLockedCents q = locked_at st ?t ?A"
    using ensured_wallet[OF st t g e] by simp_all
  have eff: "0 < n" "is_safe n" "is_iso (tr_at tr)" "keyed p'" "same_owner p p'" "payer_moved RELEASE n p p'" "keyed q'" "same_owner q q'" "payee_moved n q q'"
    using release_effect[OF P Q(1) rel] by simp_all
  have keys: "wallet_key p' = wallet_key p" "wallet_key q' = wallet_key q"
    using eff(5,8) by (simp_all add: same_owner_def wallet_key_def)
  have "?A \<noteq> ?P"
  proof
    assume "?A = ?P"
    then have "q = p" using g e p' by simp
    then show False
      using self_release_fails[OF P eff(4) keys(1) eff(7) _ _ settlement_currency_field[OF s] eff(1,2) operation_ids(1) eff(3),
        of "JStr ?t" ?t now "tr_runId tr @ ''_'' @ resolutionKey tr" "JStr (''run:'' @ tr_runId tr @ '':auto_release'')"] proj keys(2) eff(6) t
      by (auto simp: tenant_text_def)
  qed
  moreover have "availableCents q' = available_at st ?t ?A + n" "escrowLockedCents q' = locked_at st ?t ?A" "aw_tenantId q' = ?t" "aw_agentId q' = ?A"
    using eff(8,9) Q by (simp_all add: payee_moved_def same_owner_def)
  ultimately show ?thesis using False eff ops by simp
qed

lemma payRefund_effect:
  assumes "keyed p" and "payRefund now tr s p n = Inr p'"
  shows "n \<le> 0 \<and> p' = p \<or> 0 < n \<and> keyed p' \<and> same_owner p p' \<and> payer_moved FORFEIT n p p'"
  using assms refund_effect[OF assms(1)] by (cases "n \<le> 0") (auto simp: payRefund_def andThen_Inr_iff)

section \<open>The resolution\<close>

lemma int_amount: "numberAmount (JInt n) name z = Inr m \<Longrightarrow> m = n"
  by (auto simp: res_simps split: if_splits)

lemma resolve_amounts:
  assumes c: "collates lsort" and s: "wf_settlement lsort s" and r: "resolveAgentRunSettlement lsort now (resolve_args tr s d trace) = Inr s'"
  shows "stepped lsort s s' \<and> sm_status (rs_money s') = (if 0 < pd_releaseAmountCents d then RELEASED else REFUNDED) \<and>
    sm_releasedAmountCents (rs_money s') = pd_releaseAmountCents d \<and> sm_refundedAmountCents (rs_money s') = pd_refundAmountCents d \<and>
    pd_releaseAmountCents d + pd_refundAmountCents d = sm_amountCents (rs_money s) \<and> 0 \<le> pd_releaseAmountCents d \<and> 0 \<le> pd_refundAmountCents d"
proof -
  let ?args = "resolve_args tr s d trace"
  have g: "getp ?args ''settlement'' = js_of_settlement s" "getp ?args ''releasedAmountCents'' = JInt (pd_releaseAmountCents d)"
    "getp ?args ''refundedAmountCents'' = JInt (pd_refundAmountCents d)"
    "getp ?args ''status'' = JStr (if 0 < pd_releaseAmountCents d then ''released'' else ''refunded'')"
    by (simp_all add: resolve_args_def)
  have self: "normalizeSettlementRecord lsort (js_of_settlement s) = Inr s" using settlement_js[OF c wf_canonical_parts[OF s]] s by blast
  from r obtain status runStatus t eventId rel ref rate days endsAt decision where
    st: "resolutionStatusArg (getp ?args ''status'') = Inr status"
    and pa: "partitionAmounts status (sm_amountCents (rs_money s)) (getp ?args ''releasedAmountCents'') (getp ?args ''refundedAmountCents'') = Inr (rel, ref)"
    and u: "normalizeSettlementRecord lsort (js_of_settlement (s
         \<lparr>rs_money := (rs_money s)\<lparr>sm_status := status, sm_runStatus := Some runStatus,
            sm_releasedAmountCents := rel, sm_refundedAmountCents := ref, sm_releaseRatePct := Some rate,
            sm_resolvedAt := Some t, sm_resolutionEventId := eventId\<rparr>,
          rs_dispute := (clear_dispute (rs_dispute s))\<lparr>sd_windowDays := days, sd_windowEndsAt := endsAt\<rparr>,
          rs_decision := decision\<lparr>sc_updatedAt := Some t\<rparr>,
          rs_revision := add_int (rs_revision s) 1, rs_updatedAt := t\<rparr>)) = Inr s'"
    unfolding resolveAgentRunSettlement_def g(1) self by (auto simp: andThen_Inr_iff throwIf_Inr_iff)
  have amounts: "rel = pd_releaseAmountCents d" "ref = pd_refundAmountCents d"
    using pa unfolding g partitionAmounts_def by (auto simp: andThen_Inr_iff nullish_def dest!: int_amount)
  have codes: "resolutionStatusArg (JStr ''released'') = Inr RELEASED" "resolutionStatusArg (JStr ''refunded'') = Inr REFUNDED" by code_simp+
  have "status = (if 0 < pd_releaseAmountCents d then RELEASED else REFUNDED)" using st codes unfolding g by (simp split: if_splits)
  moreover have "is_cents rel \<and> is_cents ref \<and> rel + ref = sm_amountCents (rs_money s)" using partition_Inr[OF pa] s by (simp add: wf_parts)
  moreover note update_steps[OF c s u]
  ultimately show ?thesis using amounts by (auto simp: same_contract_def clear_dispute_def is_cents_def)
qed

section \<open>Conservation\<close>

text \<open>The payer's wallet after both payments.\<close>

lemma payments_effect:
  assumes st: "wf_store st" and t: "tenant_text (tr_tenantId tr)" and s: "wf_settlement lsort s" and p: "payer_of now st tr s p"
    and rel: "payRelease now tr s st p n = Inr (p1, ops)" and ref: "payRefund now tr s p1 m = Inr p2" and nm: "0 \<le> n" "0 \<le> m"
  shows "keyed p2 \<and> aw_tenantId p2 = tr_tenantId tr \<and> aw_agentId p2 = si_payerAgentId (rs_ids s) \<and>
    availableCents p2 = available_at st (tr_tenantId tr) (si_payerAgentId (rs_ids s)) + m \<and>
    escrowLockedCents p2 = locked_at st (tr_tenantId tr) (si_payerAgentId (rs_ids s)) - (n + m)"
proof -
  have P: "keyed p" "aw_tenantId p = tr_tenantId tr" "aw_agentId p = si_payerAgentId (rs_ids s)"
    "availableCents p = available_at st (tr_tenantId tr) (si_payerAgentId (rs_ids s))"
    "escrowLockedCents p = locked_at st (tr_tenantId tr) (si_payerAgentId (rs_ids s))"
    using p ensured_wallet[OF st t] unfolding payer_of_def by metis+
  have 1: "keyed p1" "same_owner p p1" "availableCents p1 = availableCents p" "escrowLockedCents p1 = escrowLockedCents p - n"
    using payRelease_effect[OF st t s p rel] nm(1) P(1) by (auto simp: same_owner_def)
  have "keyed p2" "same_owner p1 p2" "availableCents p2 = availableCents p1 + m" "escrowLockedCents p2 = escrowLockedCents p1 - m"
    using payRefund_effect[OF 1(1) ref] nm(2) 1(1) by (auto simp: same_owner_def)
  then show ?thesis using 1 P by (simp add: same_owner_def)
qed

lemma same_wallets:
  assumes "agentWallets st' = agentWallets st"
  shows "total_money st' = total_money st" "wf_store st' = wf_store st" "locked_at st' = locked_at st" "available_at st' = available_at st"
proof -
  show "total_money st' = total_money st" "wf_store st' = wf_store st" by (simp_all add: assms total_money_def wf_store_def)
  show "locked_at st' = locked_at st" "available_at st' = available_at st"
    by (intro ext, simp add: assms locked_at_def available_at_def wallet_at_def)+
qed

lemma auto_effect:
  assumes c: "collates lsort" and st: "wf_store st" and t: "tenant_text (tr_tenantId tr)" and s: "wf_settlement lsort s"
    and p: "payer_of now st tr s p" and auto: "autoSettlement lsort now sk tr s st p execution d = Inr (ops, s')"
    and commit: "commitMoney (tr_tenantId tr) ops st = Inr st'"
  shows "wf_store st' \<and> total_money st' = total_money st \<and> stepped lsort s s' \<and> sm_status (rs_money s') \<noteq> LOCKED \<and>
    sm_releasedAmountCents (rs_money s') = pd_releaseAmountCents d \<and>
    sm_releasedAmountCents (rs_money s') + sm_refundedAmountCents (rs_money s') = sm_amountCents (rs_money s) \<and>
    (0 < sm_releasedAmountCents (rs_money s') \<longrightarrow> si_agentId (rs_ids s) \<noteq> si_payerAgentId (rs_ids s)) \<and>
    (\<forall>a. locked_at st' (tr_tenantId tr) a = locked_at st (tr_tenantId tr) a
        - (if a = si_payerAgentId (rs_ids s) then sm_amountCents (rs_money s) else 0)) \<and>
    (\<forall>a. available_at st' (tr_tenantId tr) a = available_at st (tr_tenantId tr) a
        + (if a = si_agentId (rs_ids s) then sm_releasedAmountCents (rs_money s') else 0)
        + (if a = si_payerAgentId (rs_ids s) then sm_refundedAmountCents (rs_money s') else 0))"
proof -
  let ?t = "tr_tenantId tr" and ?A = "si_agentId (rs_ids s)" and ?P = "si_payerAgentId (rs_ids s)"
  let ?n = "pd_releaseAmountCents d" and ?m = "pd_refundAmountCents d"
  obtain p1 rops p2 trace where rel: "payRelease now tr s st p ?n = Inr (p1, rops)" and ref: "payRefund now tr s p1 ?m = Inr p2"
    and res: "resolveAgentRunSettlement lsort now (resolve_args tr s d trace) = Inr s'"
    and ops: "ops = rops @ [AGENT_WALLET_UPSERT p2, AGENT_RUN_SETTLEMENT_UPSERT s']"
    using auto by (auto simp: autoSettlement_def andThen_Inr_iff)
  have am: "stepped lsort s s'" "sm_status (rs_money s') \<noteq> LOCKED" "sm_releasedAmountCents (rs_money s') = ?n"
    "sm_refundedAmountCents (rs_money s') = ?m" "?n + ?m = sm_amountCents (rs_money s)" "0 \<le> ?n" "0 \<le> ?m"
    using resolve_amounts[OF c s res] by (auto split: if_splits)
  have p2: "keyed p2" "aw_tenantId p2 = ?t" "aw_agentId p2 = ?P" "availableCents p2 = available_at st ?t ?P + ?m"
    "escrowLockedCents p2 = locked_at st ?t ?P - (?n + ?m)"
    using payments_effect[OF st t s p rel ref am(6,7)] by simp_all
  obtain st1 st2 where c1: "commitMoney ?t rops st = Inr st1" and c2: "applyMoneyOp ?t st1 (AGENT_WALLET_UPSERT p2) = Inr st2"
    and c3: "agentWallets st' = agentWallets st2"
    using commit unfolding ops commitMoney_def by (auto simp: foldRes_append andThen_Inr_iff simp del: applyMoneyOp.simps dest: apply_settlement)
  have same: "total_money st' = total_money st2" "wf_store st' = wf_store st2" "locked_at st' = locked_at st2" "available_at st' = available_at st2"
    using same_wallets[OF c3] by simp_all
  have 1: "wf_store st1 \<and> total_money st1 = total_money st + ?n \<and> (0 < ?n \<longrightarrow> ?A \<noteq> ?P) \<and> locked_at st1 ?t = locked_at st ?t \<and>
      (\<forall>a. available_at st1 ?t a = available_at st ?t a + (if a = ?A then ?n else 0))"
  proof (cases "0 < ?n")
    case False
    then have "?n = 0" "rops = []" using payRelease_effect[OF st t s p rel] am(6) by auto
    then show ?thesis using c1 st by (simp add: commitMoney_def)
  next
    case True
    obtain q where q: "rops = [AGENT_WALLET_UPSERT q]" "keyed q" "aw_tenantId q = ?t" "aw_agentId q = ?A"
        "availableCents q = available_at st ?t ?A + ?n" "escrowLockedCents q = locked_at st ?t ?A" and ne: "?A \<noteq> ?P"
      using payRelease_effect[OF st t s p rel] True by auto
    have "applyMoneyOp ?t st (AGENT_WALLET_UPSERT q) = Inr st1"
      using c1 unfolding q(1) commitMoney_def by (simp add: andThen_Inr_iff del: applyMoneyOp.simps)
    then have put: "st1 = put_wallet ?t q st" "makeScopedKey (JStr ?t) (JStr ?A) = Inr (?t @ CHR 0x0A # ?A)"
      using apply_wallet[OF t q(3)] q(4) by auto
    have k: "makeScopedKey (JStr (aw_tenantId q)) (JStr (aw_agentId q)) = Inr (?t @ CHR 0x0A # aw_agentId q)" using put(2) q(3,4) by simp
    show ?thesis unfolding put(1)
      using put_wallet_money[OF st q(2) k] put_wallet_at[of ?t q st] q ne by (auto simp: money_def fun_eq_iff)
  qed
  have put2: "st2 = put_wallet ?t p2 st1" and k2: "makeScopedKey (JStr (aw_tenantId p2)) (JStr (aw_agentId p2)) = Inr (?t @ CHR 0x0A # aw_agentId p2)"
    using apply_wallet[OF t p2(2) c2] p2(2,3) by auto
  have wf1: "wf_store st1" using 1 by simp
  have avP: "0 < ?n \<Longrightarrow> available_at st1 ?t ?P = available_at st ?t ?P" "?n = 0 \<Longrightarrow> available_at st1 ?t ?P = available_at st ?t ?P" using 1 by auto
  then have avP: "available_at st1 ?t ?P = available_at st ?t ?P" using am(6) by linarith
  have "wf_store st2" "total_money st2 = total_money st1 + money p2 - (available_at st1 ?t ?P + locked_at st1 ?t ?P)"
    unfolding put2 using put_wallet_money[OF wf1 p2(1) k2] p2(3) by simp_all
  then have "wf_store st2" "total_money st2 = total_money st" using 1 avP p2 by (auto simp: money_def)
  moreover have "locked_at st2 ?t a = locked_at st ?t a - (if a = ?P then sm_amountCents (rs_money s) else 0)" for a
    unfolding put2 using put_wallet_at(2)[of ?t p2 st1 a] p2(3,5) 1 am(5) by simp
  moreover have "available_at st2 ?t a = available_at st ?t a + (if a = ?A then ?n else 0) + (if a = ?P then ?m else 0)" for a
    unfolding put2 using put_wallet_at(1)[of ?t p2 st1 a] p2(3,4) 1 am(6) by auto
  ultimately show ?thesis using am 1 unfolding same by simp
qed

lemma andThen_InrE: "andThen x f = Inr y \<Longrightarrow> (\<And>a. x = Inr a \<Longrightarrow> f a = Inr y \<Longrightarrow> thesis) \<Longrightarrow> thesis"
  by (auto simp: andThen_Inr_iff)

lemma settled_run:
  assumes r: "settleTerminalRun H queryOf lsort now sk tr s st = Inr (ops, s')"
    and "\<not> (sm_status (rs_money s) \<noteq> LOCKED \<or> getp (tr_run tr) ''status'' \<notin> {JStr ''completed'', JStr ''failed''})"
  obtains p execution d where "payer_of now st tr s p" and "terminalDecision H queryOf tr (sm_amountCents (rs_money s)) = Inr (execution, d)"
    and "\<not> pd_shouldAutoResolve d \<Longrightarrow> reviewSettlement lsort now sk tr s execution d = Inr (ops, s')"
    and "pd_shouldAutoResolve d \<Longrightarrow> autoSettlement lsort now sk tr s st p execution d = Inr (ops, s')"
proof -
  show thesis
    using r unfolding settleTerminalRun_def if_not_P[OF assms(2)]
  proof (elim andThen_InrE)
    fix u v p x
    assume "getAgentWallet st (tr_tenantId tr) (si_payerAgentId (rs_ids s)) = Inr v"
      and "ensureAgentWallet now v (JStr (tr_tenantId tr)) (JStr (si_payerAgentId (rs_ids s))) (JStr (sm_currency (rs_money s))) (JStr (tr_at tr)) = Inr p"
    then have p: "payer_of now st tr s p" unfolding payer_of_def by blast
    assume x: "terminalDecision H queryOf tr (sm_amountCents (rs_money s)) = Inr x"
      and c: "(case x of (execution, d) \<Rightarrow> if \<not> pd_shouldAutoResolve d then reviewSettlement lsort now sk tr s execution d
        else autoSettlement lsort now sk tr s st p execution d) = Inr (ops, s')"
    obtain execution d where xd: "x = (execution, d)" by (cases x)
    show thesis
      using that[OF p x[unfolded xd]] c unfolding xd prod.case by (simp split: if_split_asm)
  qed
qed

lemma reviewed:
  assumes c: "collates lsort" and s: "wf_settlement lsort s" and r: "reviewSettlement lsort now sk tr s execution d = Inr (ops, s')"
  shows "sm_status (rs_money s') = LOCKED \<and> rs_money s' = rs_money s \<and> ops = [AGENT_RUN_SETTLEMENT_UPSERT s'] \<and>
    rs_ids s' = rs_ids s \<and> (rs_revision s < MAX_SAFE_INTEGER - 1 \<longrightarrow> wf_settlement lsort s')"
proof -
  obtain trace u where u: "updateAgentRunSettlementDecision lsort now (manual_args tr s d trace) = Inr u"
    and s': "s' = u\<lparr>rs_dispute := (rs_dispute u)\<lparr>sd_windowDays := linkedDisputeWindowDays tr s\<rparr>,
                rs_revision := add_int (rs_revision u) 1, rs_updatedAt := tr_at tr\<rparr>"
    and ops: "ops = [AGENT_RUN_SETTLEMENT_UPSERT s']"
    using r by (auto simp: reviewSettlement_def andThen_Inr_iff Let_def)
  have arg: "getp (manual_args tr s d trace) ''settlement'' = js_of_settlement s" by (simp add: manual_args_def)
  have self: "normalizeSettlementRecord lsort (js_of_settlement s) = Inr s" using settlement_js[OF c wf_canonical_parts[OF s]] s by blast
  have u': "stepped lsort s u" "rs_money u = rs_money s" "sm_status (rs_money s) = LOCKED" "rs_dispute u = rs_dispute s"
    using decision_step[OF c u] self unfolding arg by auto
  have atArg: "dflt (getp (manual_args tr s d trace) ''at'') (JStr now) = JStr (tr_at tr)" by (simp add: manual_args_def dflt_def)
  have "\<exists>t. assertIsoDate (dflt (getp (manual_args tr s d trace) ''at'') (JStr now)) ''at'' = Inr t"
    using u unfolding updateAgentRunSettlementDecision_def Let_def by (auto simp: andThen_Inr_iff)
  then have "is_iso (tr_at tr)" unfolding atArg by (auto simp: res_simps)
  moreover have "is_cents (linkedDisputeWindowDays tr s)"
    by (auto simp: linkedDisputeWindowDays_def is_cents_def isSafeNumber_def dest: safe_int_Some split: option.splits)
  moreover have "rs_revision s < MAX_SAFE_INTEGER - 1 \<longrightarrow> is_cents (add_int (rs_revision u) 1)"
    using u'(1) s by (auto simp: stepped_def wf_settlement_def is_cents_def add_int_safe is_safe_def MAX_SAFE_INTEGER_def)
  ultimately show ?thesis using u' s by (simp add: s' ops wf_settlement_def wf_dispute_def stepped_def same_contract_def)
qed

lemma review_effect:
  assumes "collates lsort" and "wf_settlement lsort s" and r: "reviewSettlement lsort now sk tr s execution d = Inr (ops, s')"
    and commit: "commitMoney (tr_tenantId tr) ops st = Inr st'"
  shows "sm_status (rs_money s') = LOCKED \<and> rs_money s' = rs_money s \<and> agentWallets st' = agentWallets st"
proof -
  note e = reviewed[OF assms(1-3)]
  have "applyMoneyOp (tr_tenantId tr) st (AGENT_RUN_SETTLEMENT_UPSERT s') = Inr st'"
    using commit e by (simp add: commitMoney_def andThen_Inr_iff del: applyMoneyOp.simps)
  then show ?thesis using apply_settlement e by blast
qed

lemma terminal_effect:
  assumes "collates lsort" and "wf_store st" and "tenant_text (tr_tenantId tr)" and "wf_settlement lsort s"
    and "settleTerminalRun H queryOf lsort now sk tr s st = Inr (ops, s')" and "commitMoney (tr_tenantId tr) ops st = Inr st'"
  shows "wf_store st' \<and> total_money st' = total_money st \<and>
    (if sm_status (rs_money s) = LOCKED \<and> sm_status (rs_money s') \<noteq> LOCKED
     then sm_releasedAmountCents (rs_money s') + sm_refundedAmountCents (rs_money s') = sm_amountCents (rs_money s) \<and>
       (\<forall>a. locked_at st' (tr_tenantId tr) a = locked_at st (tr_tenantId tr) a
          - (if a = si_payerAgentId (rs_ids s) then sm_amountCents (rs_money s) else 0)) \<and>
       (\<forall>a. available_at st' (tr_tenantId tr) a = available_at st (tr_tenantId tr) a
          + (if a = si_agentId (rs_ids s) then sm_releasedAmountCents (rs_money s') else 0)
          + (if a = si_payerAgentId (rs_ids s) then sm_refundedAmountCents (rs_money s') else 0))
     else agentWallets st' = agentWallets st)"
proof (cases "sm_status (rs_money s) \<noteq> LOCKED \<or> getp (tr_run tr) ''status'' \<notin> {JStr ''completed'', JStr ''failed''}")
  case True
  then have "ops = []" "s' = s" using assms(5) by (simp_all add: settleTerminalRun_def)
  then show ?thesis using assms(2,6) by (simp add: commitMoney_def)
next
  case False
  then obtain p execution d where p: "payer_of now st tr s p"
    and d: "\<not> pd_shouldAutoResolve d \<Longrightarrow> reviewSettlement lsort now sk tr s execution d = Inr (ops, s')"
      "pd_shouldAutoResolve d \<Longrightarrow> autoSettlement lsort now sk tr s st p execution d = Inr (ops, s')"
    using settled_run[OF assms(5)] by blast
  show ?thesis
  proof (cases "pd_shouldAutoResolve d")
    case True
    then show ?thesis using auto_effect[OF assms(1-4) p d(2) assms(6)] False by simp
  next
    case m: False
    have e: "sm_status (rs_money s') = LOCKED" "agentWallets st' = agentWallets st"
      using review_effect[OF assms(1,4) d(1)[OF m] assms(6)] by blast+
    then show ?thesis using same_wallets[OF e(2)] assms(2) by simp
  qed
qed

text \<open>C2: The settlement of a run conserves the money of the store. If it resolves the settlement, the amount leaves the
  payer's escrow, the released part becomes available to the payee and the refunded part to the payer, the two parts
  add up to the amount, and no other balance of the tenant changes; if it does not, no wallet changes. This holds for every policy,
  agreement, verification method and run, and for a payee that had no wallet.\<close>

theorem terminal_settlement_conserves:
  assumes "collates lsort" and "wf_store st" and "tenant_text (tr_tenantId tr)" and "wf_settlement lsort s"
    and "settleTerminalRun H queryOf lsort now sk tr s st = Inr (ops, s')" and "commitMoney (tr_tenantId tr) ops st = Inr st'"
  shows "wf_store st' \<and> total_money st' = total_money st \<and>
    (if sm_status (rs_money s) = LOCKED \<and> sm_status (rs_money s') \<noteq> LOCKED
     then sm_releasedAmountCents (rs_money s') + sm_refundedAmountCents (rs_money s') = sm_amountCents (rs_money s) \<and>
       (\<forall>a. locked_at st' (tr_tenantId tr) a = locked_at st (tr_tenantId tr) a
          - (if a = si_payerAgentId (rs_ids s) then sm_amountCents (rs_money s) else 0)) \<and>
       (\<forall>a. available_at st' (tr_tenantId tr) a = available_at st (tr_tenantId tr) a
          + (if a = si_agentId (rs_ids s) then sm_releasedAmountCents (rs_money s') else 0)
          + (if a = si_payerAgentId (rs_ids s) then sm_refundedAmountCents (rs_money s') else 0))
     else agentWallets st' = agentWallets st)"
  using assms by (rule terminal_effect)

section \<open>A failed run\<close>

lemma failed_decision:
  assumes d: "terminalDecision H queryOf tr amount = Inr (execution, d)" and failed: "getp (tr_run tr) ''status'' = JStr ''failed''"
    and auto: "pd_shouldAutoResolve d"
  shows "pd_releaseAmountCents d = 0"
proof (cases "is_object (tr_agreement tr)")
  case False
  then show ?thesis using d failed by (auto simp: terminalDecision_def andThen_Inr_iff Let_def fallbackDecision_def share_def)
next
  case True
  let ?v = "computeAgentRunVerification (tr_run tr) (tr_events tr)"
  let ?e = "evaluateSettlementPolicy (tr_policy tr) (tr_verificationMethod tr) (JStr (ve_verificationStatus execution)) (JStr ''failed'') (JInt amount)"
  let ?p = "case ?e of Inr d \<Rightarrow> d | Inl _ \<Rightarrow> failedEvaluation tr (ve_verificationStatus execution) amount"
  have eq: "d = fst (applyAgreementMilestoneRelease ?p (tr_agreement tr) (tr_run tr) ?v amount)"
    using d True failed by (auto simp: terminalDecision_def andThen_Inr_iff Let_def)
  have "pd_shouldAutoResolve ?p" using auto unfolding eq by (simp add: applyAgreementMilestoneRelease_def Let_def split: if_splits)
  then obtain p where p: "?e = Inr p" by (cases ?e) (auto simp: failedEvaluation_def)
  have "toLowerCase (trim (js_String (orElse (JStr ''failed'') (JStr [])))) = ''failed''" by code_simp
  then have "pd_runStatus p = ''failed''" using p by (auto simp: evaluateSettlementPolicy_def andThen_Inr_iff Let_def)
  then obtain n where rate: "pd_releaseRatePct p = JInt 0"
    and c: "computeReleaseAmounts n (JInt 0) = Inr (pd_releaseAmountCents p, pd_refundAmountCents p)"
    using evaluated[OF p] by metis
  have zero: "isSafeNumber (orElse (pd_releaseRatePct p) (JInt 0)) = Some 0" unfolding rate by code_simp
  have "pd_releaseAmountCents p = 0" using release_amounts[OF c] by auto
  moreover have "share amount (min 0 x) = 0" for x by (simp add: share_def)
  ultimately show ?thesis unfolding eq p by (simp add: applyAgreementMilestoneRelease_def Let_def zero)
qed

text \<open>C18: When a run has failed, its settlement is refunded in full or left locked for review: nothing is ever released
  automatically, whatever the policy, the agreement's milestones and the verifier say.\<close>

theorem failed_run_refunds:
  assumes "collates lsort" and "wf_settlement lsort s" and "sm_status (rs_money s) = LOCKED"
    and "getp (tr_run tr) ''status'' = JStr ''failed''" and "settleTerminalRun H queryOf lsort now sk tr s st = Inr (ops, s')"
  shows "sm_status (rs_money s') = LOCKED \<and> rs_money s' = rs_money s \<or>
    sm_status (rs_money s') = REFUNDED \<and> sm_releasedAmountCents (rs_money s') = 0 \<and>
    sm_refundedAmountCents (rs_money s') = sm_amountCents (rs_money s)"
proof -
  have live: "\<not> (sm_status (rs_money s) \<noteq> LOCKED \<or> getp (tr_run tr) ''status'' \<notin> {JStr ''completed'', JStr ''failed''})"
    using assms(3,4) by simp
  obtain p execution d where t: "terminalDecision H queryOf tr (sm_amountCents (rs_money s)) = Inr (execution, d)"
    and review: "\<not> pd_shouldAutoResolve d \<Longrightarrow> reviewSettlement lsort now sk tr s execution d = Inr (ops, s')"
    and auto: "pd_shouldAutoResolve d \<Longrightarrow> autoSettlement lsort now sk tr s st p execution d = Inr (ops, s')"
    using settled_run[OF assms(5) live] by blast
  show ?thesis
  proof (cases "pd_shouldAutoResolve d")
    case True
    obtain trace where "resolveAgentRunSettlement lsort now (resolve_args tr s d trace) = Inr s'"
      using auto[OF True] by (auto simp: autoSettlement_def andThen_Inr_iff)
    from resolve_amounts[OF assms(1,2) this] show ?thesis using failed_decision[OF t assms(4) True] by simp
  next
    case False
    then show ?thesis using reviewed[OF assms(1,2) review] by blast
  qed
qed

section \<open>The escrow of a new run\<close>

lemma created_fields:
  assumes "collates lsort" and "createAgentRunSettlement lsort now (create_args t r payee req d) = Inr s"
  shows "wf_settlement lsort s \<and> sm_status (rs_money s) = LOCKED \<and> rs_revision s = 0 \<and> si_tenantId (rs_ids s) = t \<and> si_runId (rs_ids s) = r \<and>
    si_agentId (rs_ids s) = payee \<and> si_payerAgentId (rs_ids s) = sr_payerAgentId req \<and> sm_amountCents (rs_money s) = sr_amountCents req"
proof -
  have args: "getp (create_args t r payee req d) ''tenantId'' = JStr t" "getp (create_args t r payee req d) ''runId'' = JStr r"
    "getp (create_args t r payee req d) ''agentId'' = JStr payee" "getp (create_args t r payee req d) ''payerAgentId'' = JStr (sr_payerAgentId req)"
    "getp (create_args t r payee req d) ''amountCents'' = JInt (sr_amountCents req)"
    by (simp_all add: create_args_def)
  from assms(2)[unfolded createAgentRunSettlement_def args] obtain u where u: "normalizeSettlementRecord lsort (js_of_settlement u) = Inr s"
    and cp: "canonical_parts lsort u" and f: "sm_status (rs_money u) = LOCKED" "rs_revision u = 0" "si_tenantId (rs_ids u) = t" "si_runId (rs_ids u) = r"
      "si_agentId (rs_ids u) = payee" "si_payerAgentId (rs_ids u) = sr_payerAgentId req" "sm_amountCents (rs_money u) = sr_amountCents req"
    by (auto simp: andThen_Inr_iff canonical_parts_def no_dispute_def res_simps dest!: normalizeWalletCurrency_Inr split: if_splits)
  then show ?thesis using settlement_js[OF assms(1) cp] by auto
qed

lemma opened_wallet:
  assumes st: "wf_store st" and t: "tenant_text t" and o: "openRunSettlement lsort now t r payee req d st = Inr (ops, s)"
  shows "\<exists>w. ops = [AGENT_WALLET_UPSERT w, AGENT_RUN_SETTLEMENT_UPSERT s] \<and> keyed w \<and> aw_tenantId w = t \<and> aw_agentId w = sr_payerAgentId req \<and>
    makeScopedKey (JStr t) (JStr (sr_payerAgentId req)) = Inr (t @ CHR 0x0A # sr_payerAgentId req) \<and>
    0 < sr_amountCents req \<and> sr_amountCents req \<le> available_at st t (sr_payerAgentId req) \<and>
    availableCents w = available_at st t (sr_payerAgentId req) - sr_amountCents req \<and>
    escrowLockedCents w = locked_at st t (sr_payerAgentId req) + sr_amountCents req \<and>
    createAgentRunSettlement lsort now (create_args t r payee req d) = Inr s"
proof -
  obtain v p w where g: "getAgentWallet st t (sr_payerAgentId req) = Inr v"
    and e: "ensureAgentWallet now v (JStr t) (JStr (sr_payerAgentId req)) (JStr (sr_currency req)) (JStr d) = Inr p"
    and l: "lockAgentWalletEscrow now (js_of_wallet p) (JInt (sr_amountCents req)) (JStr d) = Inr w"
    and c: "createAgentRunSettlement lsort now (create_args t r payee req d) = Inr s"
    and ops: "ops = [AGENT_WALLET_UPSERT w, AGENT_RUN_SETTLEMENT_UPSERT s]"
    using o unfolding openRunSettlement_def by (elim andThen_InrE) simp
  note P = ensured_wallet[OF st t g e]
  have "keyed p" using P by simp
  note L = lock_effect[OF this l]
  have "0 \<le> availableCents w" using L by (simp add: keyed_def wf_wallet_def is_cents_def)
  then show ?thesis using P L c ops by (auto simp: same_owner_def)
qed

text \<open>Keys of two tenants never meet, because a tenant id holds no newline.\<close>

lemma tenant_no_newline: "tenant_text t \<Longrightarrow> CHR 0x0A \<notin> set t"
  using normalizeTenantId_Inr unfolding tenant_text_def by blast

lemma keys_meet:
  assumes "tenant_text t" and "tenant_text u"
  shows "t @ CHR 0x0A # a = u @ CHR 0x0A # b \<longleftrightarrow> t = u \<and> a = b"
proof
  assume e: "t @ CHR 0x0A # a = u @ CHR 0x0A # b"
  have "split_on CHR 0x0A (t @ CHR 0x0A # a) = t # split_on CHR 0x0A a" "split_on CHR 0x0A (u @ CHR 0x0A # b) = u # split_on CHR 0x0A b"
    using assms tenant_no_newline by (simp_all add: split_on_append)
  then show "t = u \<and> a = b" using e by simp
qed simp

text \<open>What the transaction log does to the wallets and settlements of a tenant.\<close>

definition scoped :: "string \<Rightarrow> string \<Rightarrow> string" where
  "scoped t a = t @ CHR 0x0A # a"

lemma op_scope:
  assumes "tenant_text t" and "applyMoneyOp t st op = Inr st'"
  shows "\<exists>a. (\<forall>k. k \<noteq> scoped t a \<longrightarrow> agentWallets st' k = agentWallets st k \<and> agentRunSettlements st' k = agentRunSettlements st k)"
proof (cases op)
  case (AGENT_WALLET_UPSERT w)
  then obtain k where "makeScopedKey (JStr t) (JStr (aw_agentId w)) = Inr k" "st' = st\<lparr>agentWallets := (agentWallets st)(k \<mapsto> w\<lparr>aw_tenantId := t\<rparr>)\<rparr>"
    using assms by (auto simp: walletUpsert_def tenant_text_def andThen_Inr_iff)
  then show ?thesis using scoped_key[OF assms(1)] by (auto simp: scoped_def)
next
  case (AGENT_RUN_SETTLEMENT_UPSERT s)
  then obtain k where "makeScopedKey (JStr t) (JStr (si_runId (rs_ids s))) = Inr k"
      "st' = st\<lparr>agentRunSettlements := (agentRunSettlements st)(k \<mapsto> s\<lparr>rs_ids := (rs_ids s)\<lparr>si_tenantId := t\<rparr>\<rparr>)\<rparr>"
    using assms by (auto simp: settlementUpsert_def tenant_text_def andThen_Inr_iff)
  then show ?thesis using scoped_key[OF assms(1)] by (auto simp: scoped_def)
qed

lemma other_tenant:
  assumes "tenant_text t" and "tenant_text u" and "u \<noteq> t" and "commitMoney t ops st = Inr st'"
  shows "agentWallets st' (u @ CHR 0x0A # a) = agentWallets st (u @ CHR 0x0A # a) \<and>
    agentRunSettlements st' (u @ CHR 0x0A # r) = agentRunSettlements st (u @ CHR 0x0A # r)"
  using assms(4) unfolding commitMoney_def
proof (induction ops arbitrary: st)
  case (Cons op ops)
  then obtain st1 where s: "applyMoneyOp t st op = Inr st1" "foldRes (applyMoneyOp t) st1 ops = Inr st'" by (auto simp: andThen_Inr_iff)
  obtain b where b: "\<And>k. k \<noteq> scoped t b \<Longrightarrow> agentWallets st1 k = agentWallets st k \<and> agentRunSettlements st1 k = agentRunSettlements st k"
    using op_scope[OF assms(1) s(1)] by blast
  have ne: "u @ CHR 0x0A # x \<noteq> scoped t b" for x using keys_meet[OF assms(2,1), of x b] assms(3) by (auto simp: scoped_def)
  show ?case using b[OF ne[of a]] b[OF ne[of r]] Cons.IH[OF s(2)] by simp
qed simp

text \<open>A transaction of one tenant touches no wallet and no settlement of another tenant, whatever agent and run ids it
  carries.\<close>

theorem commit_tenant_isolation:
  assumes "tenant_text t" and "tenant_text u" and "u \<noteq> t" and "commitMoney t ops st = Inr st'"
  shows "agentWallets st' (u @ CHR 0x0A # a) = agentWallets st (u @ CHR 0x0A # a) \<and>
    agentRunSettlements st' (u @ CHR 0x0A # r) = agentRunSettlements st (u @ CHR 0x0A # r)"
  using assms by (rule other_tenant)

lemma committed_settlement:
  assumes "tenant_text t" and "si_tenantId (rs_ids s) = t" and "applyMoneyOp t st (AGENT_RUN_SETTLEMENT_UPSERT s) = Inr st'"
  shows "st' = st\<lparr>agentRunSettlements := (agentRunSettlements st)(t @ CHR 0x0A # si_runId (rs_ids s) \<mapsto> s)\<rparr>"
proof -
  have s: "s\<lparr>rs_ids := (rs_ids s)\<lparr>si_tenantId := t\<rparr>\<rparr> = s" using assms(2) by simp
  obtain k where k: "makeScopedKey (JStr t) (JStr (si_runId (rs_ids s))) = Inr k" "st' = st\<lparr>agentRunSettlements := (agentRunSettlements st)(k \<mapsto> s)\<rparr>"
    using assms(1,3) s by (auto simp: settlementUpsert_def tenant_text_def andThen_Inr_iff)
  then show ?thesis using scoped_key[OF assms(1) k(1)] by simp
qed

text \<open>The effect of creating a run, on the store it was computed from and on any other.\<close>

lemma committed_hold:
  assumes c: "collates lsort" and st: "wf_store st" and t: "tenant_text t" and o: "openRunSettlement lsort now t r payee req d st = Inr (ops, s)"
    and commit: "commitMoney t ops st1 = Inr st2"
  shows "\<exists>w. st2 = (put_wallet t w st1)\<lparr>agentRunSettlements := (agentRunSettlements st1)(t @ CHR 0x0A # r \<mapsto> s)\<rparr> \<and>
    keyed w \<and> aw_agentId w = sr_payerAgentId req \<and> makeScopedKey (JStr (aw_tenantId w)) (JStr (aw_agentId w)) = Inr (t @ CHR 0x0A # aw_agentId w) \<and>
    availableCents w = available_at st t (sr_payerAgentId req) - sr_amountCents req \<and>
    escrowLockedCents w = locked_at st t (sr_payerAgentId req) + sr_amountCents req \<and>
    0 < sr_amountCents req \<and> sr_amountCents req \<le> available_at st t (sr_payerAgentId req)"
proof -
  obtain w where w: "ops = [AGENT_WALLET_UPSERT w, AGENT_RUN_SETTLEMENT_UPSERT s]" "keyed w" "aw_tenantId w = t" "aw_agentId w = sr_payerAgentId req"
      "availableCents w = available_at st t (sr_payerAgentId req) - sr_amountCents req"
      "escrowLockedCents w = locked_at st t (sr_payerAgentId req) + sr_amountCents req"
      "0 < sr_amountCents req" "sr_amountCents req \<le> available_at st t (sr_payerAgentId req)"
      "createAgentRunSettlement lsort now (create_args t r payee req d) = Inr s"
    using opened_wallet[OF st t o] by blast
  have s: "si_tenantId (rs_ids s) = t" "si_runId (rs_ids s) = r" using created_fields[OF c w(9)] by simp_all
  obtain st' where st': "applyMoneyOp t st1 (AGENT_WALLET_UPSERT w) = Inr st'" "applyMoneyOp t st' (AGENT_RUN_SETTLEMENT_UPSERT s) = Inr st2"
    using commit unfolding w(1) commitMoney_def by (auto simp: andThen_Inr_iff simp del: applyMoneyOp.simps)
  note p = apply_wallet[OF t w(3) st'(1)]
  have "st2 = (put_wallet t w st1)\<lparr>agentRunSettlements := (agentRunSettlements st1)(t @ CHR 0x0A # r \<mapsto> s)\<rparr>"
    using p committed_settlement[OF t s(1) st'(2)] s(2) by (simp add: put_wallet_def)
  then show ?thesis using p w(2-8) by auto
qed

lemma store_update:
  "total_money (st\<lparr>agentRunSettlements := m\<rparr>) = total_money st" "wf_store (st\<lparr>agentRunSettlements := m\<rparr>) = wf_store st"
  "locked_at (st\<lparr>agentRunSettlements := m\<rparr>) = locked_at st" "available_at (st\<lparr>agentRunSettlements := m\<rparr>) = available_at st"
  using same_wallets[of "st\<lparr>agentRunSettlements := m\<rparr>" st] by simp_all

lemma hold_effect:
  assumes c: "collates lsort" and st: "wf_store st" and t: "tenant_text t" and o: "openRunSettlement lsort now t r payee req d st = Inr (ops, s)"
    and commit: "commitMoney t ops st = Inr st'"
  shows "wf_store st' \<and> total_money st' = total_money st \<and> sr_amountCents req \<le> available_at st t (sr_payerAgentId req) \<and>
    (\<forall>a. locked_at st' t a = locked_at st t a + (if a = sr_payerAgentId req then sr_amountCents req else 0)) \<and>
    (\<forall>a. available_at st' t a = available_at st t a - (if a = sr_payerAgentId req then sr_amountCents req else 0)) \<and>
    agentRunSettlements st' = (agentRunSettlements st)(t @ CHR 0x0A # r \<mapsto> s)"
proof -
  obtain w where w: "st' = (put_wallet t w st)\<lparr>agentRunSettlements := (agentRunSettlements st)(t @ CHR 0x0A # r \<mapsto> s)\<rparr>" "keyed w"
    "aw_agentId w = sr_payerAgentId req" "makeScopedKey (JStr (aw_tenantId w)) (JStr (aw_agentId w)) = Inr (t @ CHR 0x0A # aw_agentId w)"
    "availableCents w = available_at st t (sr_payerAgentId req) - sr_amountCents req"
    "escrowLockedCents w = locked_at st t (sr_payerAgentId req) + sr_amountCents req"
    "sr_amountCents req \<le> available_at st t (sr_payerAgentId req)"
    using committed_hold[OF c st t o commit] by blast
  show ?thesis unfolding w(1) store_update
    using put_wallet_money[OF st w(2,4)] put_wallet_at[of t w st] w(3,5-7) by (simp add: money_def)
qed

text \<open>C31: Two runs whose creations overlap lock only one of their amounts: when both handlers have read the payer's wallet
  before either commits, the second commit writes over the first, and two locked settlements stand on the escrow of one.
  The wallet's revision would tell them apart, but the transaction does not compare it.\<close>

theorem interleaved_holds_overcommit:
  assumes "collates lsort" and "wf_store st" and "tenant_text t" and "r1 \<noteq> r2" and "sr_payerAgentId q1 = P" and "sr_payerAgentId q2 = P"
    and "openRunSettlement lsort now1 t r1 payee1 q1 d1 st = Inr (ops1, s1)" and "openRunSettlement lsort now2 t r2 payee2 q2 d2 st = Inr (ops2, s2)"
    and "commitMoney t ops1 st = Inr st1" and "commitMoney t ops2 st1 = Inr st2"
  shows "agentRunSettlements st2 (t @ CHR 0x0A # r1) = Some s1 \<and> agentRunSettlements st2 (t @ CHR 0x0A # r2) = Some s2 \<and>
    locked_at st2 t P = locked_at st t P + sr_amountCents q2 \<and>
    locked_at st2 t P < locked_at st t P + sr_amountCents q1 + sr_amountCents q2"
proof -
  obtain w1 where 1: "agentRunSettlements st1 = (agentRunSettlements st)(t @ CHR 0x0A # r1 \<mapsto> s1)" "0 < sr_amountCents q1"
    using committed_hold[OF assms(1-3,7,9)] by auto
  obtain w2 where 2: "st2 = (put_wallet t w2 st1)\<lparr>agentRunSettlements := (agentRunSettlements st1)(t @ CHR 0x0A # r2 \<mapsto> s2)\<rparr>"
      "aw_agentId w2 = P" "escrowLockedCents w2 = locked_at st t P + sr_amountCents q2"
    using committed_hold[OF assms(1-3,8,10)] unfolding assms(6) by blast
  show ?thesis using 1 2 assms(4) by (simp add: store_update put_wallet_at)
qed

section \<open>Runs whose agent pays itself\<close>

text \<open>C33: A run whose agent is its own payer can be created with a settlement, but the event that ends the run can never release
  it. The projection onto the escrow ledger sees one wallet on both sides and disagrees with both of its copies: whenever the
  decision (of the policy, the milestones or the fallback) would release something automatically, the handler fails and nothing
  is stored. The event can only refund the settlement in full or leave it locked for a review.\<close>

theorem self_settlement_never_released:
  assumes "collates lsort" and st: "wf_store st" and t: "tenant_text (tr_tenantId tr)" and s: "wf_settlement lsort s"
    and locked: "sm_status (rs_money s) = LOCKED" and self: "si_agentId (rs_ids s) = si_payerAgentId (rs_ids s)"
    and run: "getp (tr_run tr) ''status'' \<in> {JStr ''completed'', JStr ''failed''}"
  shows "(\<forall>ops s'. settleTerminalRun H queryOf lsort now sk tr s st = Inr (ops, s') \<longrightarrow>
        sm_status (rs_money s') = LOCKED \<and> rs_money s' = rs_money s \<or>
        sm_status (rs_money s') = REFUNDED \<and> sm_releasedAmountCents (rs_money s') = 0 \<and>
        sm_refundedAmountCents (rs_money s') = sm_amountCents (rs_money s))
    \<and> (\<forall>execution d. terminalDecision H queryOf tr (sm_amountCents (rs_money s)) = Inr (execution, d) \<and> pd_shouldAutoResolve d \<and>
        0 < pd_releaseAmountCents d \<longrightarrow> (\<exists>e. settleTerminalRun H queryOf lsort now sk tr s st = Inl e))"
proof -
  have live: "\<not> (sm_status (rs_money s) \<noteq> LOCKED \<or> getp (tr_run tr) ''status'' \<notin> {JStr ''completed'', JStr ''failed''})" using locked run by simp
  have settled: "\<exists>execution d. terminalDecision H queryOf tr (sm_amountCents (rs_money s)) = Inr (execution, d) \<and>
      (if pd_shouldAutoResolve d then pd_releaseAmountCents d = 0 \<and> sm_status (rs_money s') = REFUNDED \<and> sm_releasedAmountCents (rs_money s') = 0 \<and>
          sm_refundedAmountCents (rs_money s') = sm_amountCents (rs_money s)
       else sm_status (rs_money s') = LOCKED \<and> rs_money s' = rs_money s)"
    if x: "settleTerminalRun H queryOf lsort now sk tr s st = Inr (ops, s')" for ops s'
  proof -
    obtain p execution d where p: "payer_of now st tr s p" and d: "terminalDecision H queryOf tr (sm_amountCents (rs_money s)) = Inr (execution, d)"
      and review: "\<not> pd_shouldAutoResolve d \<Longrightarrow> reviewSettlement lsort now sk tr s execution d = Inr (ops, s')"
      and auto: "pd_shouldAutoResolve d \<Longrightarrow> autoSettlement lsort now sk tr s st p execution d = Inr (ops, s')"
      using settled_run[OF x live] by blast
    show ?thesis
    proof (cases "pd_shouldAutoResolve d")
      case True
      obtain p1 rops trace where r: "payRelease now tr s st p (pd_releaseAmountCents d) = Inr (p1, rops)"
        "resolveAgentRunSettlement lsort now (resolve_args tr s d trace) = Inr s'"
        using auto[OF True] by (auto simp: autoSettlement_def andThen_Inr_iff)
      show ?thesis using d True payRelease_effect[OF st t s p r(1)] resolve_amounts[OF assms(1) s r(2)] self by auto
    next
      case False
      then show ?thesis using d reviewed[OF assms(1) s review] by auto
    qed
  qed
  show ?thesis
  proof (cases "settleTerminalRun H queryOf lsort now sk tr s st")
    case (Inr x)
    then show ?thesis using settled[of "fst x" "snd x"] by (fastforce split: if_splits)
  qed simp
qed

section \<open>A concrete store\<close>

definition noon :: string where
  "noon = ''2026-01-01T00:00:00.000Z''"

definition rich_wallet :: agent_wallet where
  "rich_wallet = \<lparr>aw_walletId = ''wallet_b'', aw_agentId = ''b'', aw_tenantId = ''t'', aw_currency = ''USD'', availableCents = 1000,
     escrowLockedCents = 0, totalDebitedCents = 0, totalCreditedCents = 1000, aw_revision = 1, aw_createdAt = noon, aw_updatedAt = noon\<rparr>"

definition rich_store :: money_store where
  "rich_store = \<lparr>agentWallets = [''t'' @ CHR 0x0A # ''b'' \<mapsto> rich_wallet], agentRunSettlements = Map.empty\<rparr>"

lemma rich_wf: "wf_store rich_store" "tenant_text ''t''"
proof -
  have "keyed rich_wallet" "makeScopedKey (JStr ''t'') (JStr ''b'') = Inr (''t'' @ CHR 0x0A # ''b'')" by code_simp+
  then show "wf_store rich_store" by (simp add: wf_store_def rich_store_def rich_wallet_def)
  show "tenant_text ''t''" by code_simp
qed

definition sample_request :: settlement_request where
  "sample_request = \<lparr>sr_payerAgentId = ''b'', sr_amountCents = 700, sr_currency = ''USD'', sr_disputeWindowDays = 0\<rparr>"

definition open_sample :: "string \<Rightarrow> string \<Rightarrow> (money_op list \<times> settlement) res" where
  "open_sample r payee = openRunSettlement (\<lambda>xs. xs) noon ''t'' r payee sample_request noon rich_store"

definition held_settlement :: "string \<Rightarrow> settlement" where
  "held_settlement payee =
     \<lparr>rs_ids = \<lparr>si_settlementId = ''setl_r'', si_runId = ''r'', si_tenantId = ''t'', si_agentId = payee, si_payerAgentId = ''b''\<rparr>,
      rs_money = \<lparr>sm_amountCents = 700, sm_currency = ''USD'', sm_status = LOCKED, sm_lockedAt = noon, sm_resolvedAt = None,
        sm_resolutionEventId = None, sm_runStatus = None, sm_releasedAmountCents = 0, sm_refundedAmountCents = 0, sm_releaseRatePct = None\<rparr>,
      rs_dispute = no_dispute 0,
      rs_decision = \<lparr>sc_status = PENDING, sc_mode = AUTOMATIC, sc_policyHash = None, sc_reason = None, sc_trace = None, sc_updatedAt = Some noon\<rparr>,
      rs_revision = 0, rs_createdAt = noon, rs_updatedAt = noon\<rparr>"

definition held_wallet :: agent_wallet where
  "held_wallet = rich_wallet\<lparr>availableCents := 300, escrowLockedCents := 700, aw_revision := 2\<rparr>"

definition held_store :: "string \<Rightarrow> money_store" where
  "held_store payee = \<lparr>agentWallets = [''t'' @ CHR 0x0A # ''b'' \<mapsto> held_wallet],
     agentRunSettlements = [''t'' @ CHR 0x0A # ''r'' \<mapsto> held_settlement payee]\<rparr>"

lemma held_wf: "wf_store (held_store payee)"
proof -
  have "keyed held_wallet" "makeScopedKey (JStr ''t'') (JStr ''b'') = Inr (''t'' @ CHR 0x0A # ''b'')" by code_simp+
  then show ?thesis by (simp add: wf_store_def held_store_def held_wallet_def rich_wallet_def)
qed

lemma held_settlement_wf: "wf_settlement (\<lambda>xs. xs) (held_settlement ''a'')" "wf_settlement (\<lambda>xs. xs) (held_settlement ''b'')"
  by code_simp+

definition sample_run :: "string \<Rightarrow> terminal_run" where
  "sample_run status = \<lparr>tr_tenantId = ''t'', tr_runId = ''r'', tr_at = noon, tr_eventId = JStr ''ev_1'',
     tr_run = JObj [(''status'', JStr status), (''metrics'', JObj [(''settlementReleaseRatePct'', JInt 40)])], tr_events = JArr [],
     tr_agreement = JNull, tr_policy = JNull, tr_verificationMethod = JNull, tr_policyHash = JNull\<rparr>"

definition open_kernel :: settlement_kernel where
  "open_kernel = \<lparr>sk_preflight = (\<lambda>_. Inr ()), sk_decisionTrace = (\<lambda>_ _ _. Inr JNull), sk_bindings = (\<lambda>_. Inr ())\<rparr>"

definition sample_decision :: "string \<Rightarrow> verifier_execution \<times> policy_decision" where
  "sample_decision status = projr (terminalDecision (\<lambda>s. s) (\<lambda>_. None) (sample_run status) 700)"

lemma not_isl_projr: "\<not> isl x \<Longrightarrow> x = Inr (projr x)"
  by (cases x) simp_all

lemma sample_decides:
  "\<not> isl (terminalDecision (\<lambda>s. s) (\<lambda>_. None) (sample_run ''completed'') 700)"
  "\<not> isl (terminalDecision (\<lambda>s. s) (\<lambda>_. None) (sample_run ''failed'') 700)"
  "pd_shouldAutoResolve (snd (sample_decision ''completed''))" "pd_shouldAutoResolve (snd (sample_decision ''failed''))"
  "pd_releaseAmountCents (snd (sample_decision ''completed'')) = 280" "pd_refundAmountCents (snd (sample_decision ''completed'')) = 420"
  "pd_releaseAmountCents (snd (sample_decision ''failed'')) = 0" "pd_refundAmountCents (snd (sample_decision ''failed'')) = 700"
  by code_simp+

lemma sample_wallet:
  "getAgentWallet (held_store payee) ''t'' ''b'' = Inr (js_of_wallet held_wallet)"
  "ensureAgentWallet noon (js_of_wallet held_wallet) (JStr ''t'') (JStr ''b'') (JStr ''USD'') (JStr noon) = Inr held_wallet"
  by code_simp+

definition new_wallet :: "int \<Rightarrow> int \<Rightarrow> agent_wallet" where
  "new_wallet n i = \<lparr>aw_walletId = ''wallet_a'', aw_agentId = ''a'', aw_tenantId = ''t'', aw_currency = ''USD'', availableCents = n,
     escrowLockedCents = 0, totalDebitedCents = 0, totalCreditedCents = n, aw_revision = i, aw_createdAt = noon, aw_updatedAt = noon\<rparr>"

definition paid_wallet :: agent_wallet where
  "paid_wallet = held_wallet\<lparr>escrowLockedCents := 420, totalDebitedCents := 280, aw_revision := 3\<rparr>"

lemma sample_payee_wallet:
  "getAgentWallet (held_store ''a'') ''t'' ''a'' = Inr JNull"
  "ensureAgentWallet noon JNull (JStr ''t'') (JStr ''a'') (JStr ''USD'') (JStr noon) = Inr (new_wallet 0 0)"
  "releaseAgentWalletEscrowToPayee noon (js_of_wallet held_wallet) (js_of_wallet (new_wallet 0 0)) (JInt 280) (JStr noon) =
     Inr (paid_wallet, new_wallet 280 1)"
  by code_simp+

lemma sample_projection:
  "\<not> isl (projectEscrowLedgerOperation noon (JStr ''t'') (js_of_settlement (held_settlement ''a'')) ''escrow_release_r_ev_1'' RELEASE (JInt 280) (JStr noon)
     (Some held_wallet) (Some paid_wallet) (Some (new_wallet 0 0)) (Some (new_wallet 280 1)) (JStr ''run:r:auto_release''))"
  by code_simp

definition refunded_wallet :: "agent_wallet \<Rightarrow> int \<Rightarrow> agent_wallet" where
  "refunded_wallet w n = w\<lparr>escrowLockedCents := 0, availableCents := 300 + n, totalCreditedCents := 1000 + n, aw_revision := aw_revision w + 1\<rparr>"

lemma sample_refunds:
  "refundAgentWalletEscrow noon (js_of_wallet paid_wallet) (JInt 420) (JStr noon) = Inr (refunded_wallet paid_wallet 420)"
  "refundAgentWalletEscrow noon (js_of_wallet held_wallet) (JInt 700) (JStr noon) = Inr (refunded_wallet held_wallet 700)"
  by code_simp+

lemma sample_forfeits:
  "\<not> isl (projectEscrowLedgerOperation noon (JStr ''t'') (js_of_settlement (held_settlement ''a'')) ''escrow_forfeit_r_ev_1'' FORFEIT (JInt 420)
     (JStr noon) (Some paid_wallet) (Some (refunded_wallet paid_wallet 420)) None None (JStr ''run:r:auto_refund''))"
  "\<not> isl (projectEscrowLedgerOperation noon (JStr ''t'') (js_of_settlement (held_settlement ''a'')) ''escrow_forfeit_r_ev_1'' FORFEIT (JInt 700)
     (JStr noon) (Some held_wallet) (Some (refunded_wallet held_wallet 700)) None None (JStr ''run:r:auto_refund''))"
  by code_simp+

definition sample_resolution :: "string \<Rightarrow> string \<Rightarrow> int \<Rightarrow> int \<Rightarrow> props option \<Rightarrow> jsval" where
  "sample_resolution runStatus status rel rate trace = JObj
     [(''settlement'', js_of_settlement (held_settlement ''a'')), (''status'', JStr status),
      (''runStatus'', JStr runStatus), (''releasedAmountCents'', JInt rel), (''refundedAmountCents'', JInt (700 - rel)),
      (''releaseRatePct'', JNum (js_Number (JInt rate))), (''disputeWindowDays'', JInt 0), (''decisionStatus'', JStr ''auto_resolved''),
      (''decisionMode'', JStr ''automatic''), (''decisionPolicyHash'', JNull),
      (''decisionReason'', JNull), (''decisionTrace'', (case trace of None \<Rightarrow> JNull | Some ps \<Rightarrow> JObj ps)), (''resolutionEventId'', JStr ''ev_1''), (''at'', JStr noon)]"

lemma sample_decision_parts:
  "firstReason (snd (sample_decision ''completed'')) = JNull" "firstReason (snd (sample_decision ''failed'')) = JNull"
  "pd_releaseRatePct (snd (sample_decision ''completed'')) = JInt 40" "pd_releaseRatePct (snd (sample_decision ''failed'')) = JInt 0"
  by code_simp+

lemma sample_run_parts:
  "tr_tenantId (sample_run st) = ''t''" "tr_runId (sample_run st) = ''r''" "tr_at (sample_run st) = noon" "resolutionKey (sample_run st) = ''ev_1''"
  "getp (tr_run (sample_run st)) ''status'' = JStr st" "tr_policyHash (sample_run st) = JNull" "tr_eventId (sample_run st) = JStr ''ev_1''"
  "linkedDisputeWindowDays (sample_run st) (held_settlement payee) = 0"
  by (simp_all add: sample_run_def held_settlement_def resolutionKey_def linkedDisputeWindowDays_def no_dispute_def orElse_def nullish_def)
    code_simp+

lemma sample_resolve_args:
  "resolve_args (sample_run ''completed'') (held_settlement ''a'') (snd (sample_decision ''completed'')) JNull = sample_resolution ''completed'' ''released'' 280 40 None"
  "resolve_args (sample_run ''failed'') (held_settlement ''a'') (snd (sample_decision ''failed'')) JNull = sample_resolution ''failed'' ''refunded'' 0 0 None"
  by (simp_all add: resolve_args_def sample_resolution_def sample_decides sample_decision_parts sample_run_parts orElse_def nullish_def)

definition resolved_sample :: "string \<Rightarrow> settlement_status \<Rightarrow> int \<Rightarrow> int \<Rightarrow> props option \<Rightarrow> settlement" where
  "resolved_sample r status rel rate trace = (held_settlement ''a'')
     \<lparr>rs_money := (rs_money (held_settlement ''a''))\<lparr>sm_status := status, sm_runStatus := Some r, sm_releasedAmountCents := rel,
        sm_refundedAmountCents := 700 - rel, sm_releaseRatePct := Some rate, sm_resolvedAt := Some noon, sm_resolutionEventId := Some ''ev_1''\<rparr>,
      rs_dispute := (clear_dispute (no_dispute 0))\<lparr>sd_windowDays := 0, sd_windowEndsAt := None\<rparr>,
      rs_decision := \<lparr>sc_status = AUTO_RESOLVED, sc_mode = AUTOMATIC, sc_policyHash = None, sc_reason = None, sc_trace = trace, sc_updatedAt = Some noon\<rparr>,
      rs_revision := 1, rs_updatedAt := noon\<rparr>"

lemma sample_resolve:
  assumes st: "resolutionStatusArg (JStr status) = Inr code"
    and pa: "partitionAmounts code 700 (JInt rel) (JInt (700 - rel)) = Inr (rel, 700 - rel)"
    and rate: "releaseRate (JNum (js_Number (JInt rate))) rel 700 = Inr rate"
    and wf: "wf_settlement (\<lambda>xs. xs) (resolved_sample r code rel rate trace)" and r: "trim r \<noteq> []"
  shows "resolveAgentRunSettlement (\<lambda>xs. xs) noon (sample_resolution r status rel rate trace) = Inr (resolved_sample r code rel rate trace)"
proof -
  have self: "normalizeSettlementRecord (\<lambda>xs. xs) (js_of_settlement (held_settlement ''a'')) = Inr (held_settlement ''a'')"
    using settlement_js[OF collates_id wf_canonical_parts] held_settlement_wf(1) by blast
  have res: "normalizeSettlementRecord (\<lambda>xs. xs) (js_of_settlement (resolved_sample r code rel rate trace)) = Inr (resolved_sample r code rel rate trace)"
    using settlement_js[OF collates_id wf_canonical_parts] wf by blast
  have args: "getp (sample_resolution r status rel rate trace) ''settlement'' = js_of_settlement (held_settlement ''a'')"
    "getp (sample_resolution r status rel rate trace) ''status'' = JStr status" "getp (sample_resolution r status rel rate trace) ''runStatus'' = JStr r"
    "getp (sample_resolution r status rel rate trace) ''releasedAmountCents'' = JInt rel"
    "getp (sample_resolution r status rel rate trace) ''refundedAmountCents'' = JInt (700 - rel)"
    "getp (sample_resolution r status rel rate trace) ''releaseRatePct'' = JNum (js_Number (JInt rate))"
    "getp (sample_resolution r status rel rate trace) ''disputeWindowDays'' = JInt 0"
    "getp (sample_resolution r status rel rate trace) ''resolutionEventId'' = JStr ''ev_1''" "getp (sample_resolution r status rel rate trace) ''at'' = JStr noon"
    by (simp_all add: sample_resolution_def)
  have dec: "decisionArgs (sample_resolution r status rel rate trace) ''auto_resolved'' ''automatic'' JNull =
      Inr \<lparr>sc_status = AUTO_RESOLVED, sc_mode = AUTOMATIC, sc_policyHash = None, sc_reason = None, sc_trace = trace, sc_updatedAt = None\<rparr>"
    using enum_arg_str(3)[of "''decisionStatus''" AUTO_RESOLVED] enum_arg_str(4)[of "''decisionMode''" AUTOMATIC]
    by (cases trace) (simp_all add: decisionArgs_def sample_resolution_def optTrimmed_def optTrace_def own_props_def dflt_def)
  have codes: "assertIsoDate (dflt (JStr noon) (JStr noon)) ''at'' = Inr noon" "optString (JStr ''ev_1'') ''resolutionEventId'' = Inr (Some ''ev_1'')"
    "nonNegDays (JInt 0) ''disputeWindowDays'' = Inr 0" "disputeWindowEnd noon 0 = Inr None" "add_int 0 1 = 1"
    by code_simp+
  have held: "sm_status (rs_money (held_settlement ''a'')) = LOCKED" "sm_amountCents (rs_money (held_settlement ''a'')) = 700"
    "rs_dispute (held_settlement ''a'') = no_dispute 0" "rs_revision (held_settlement ''a'') = 0"
    by (simp_all add: held_settlement_def)
  have run: "assertNonEmptyString (JStr r) ''runStatus'' = Inr r" using r by (simp add: res_simps)
  show ?thesis
    unfolding resolveAgentRunSettlement_def args dec codes run
    by (simp add: self st held pa rate codes dec run nullish_def rate[simplified] res[unfolded resolved_sample_def]) (simp add: resolved_sample_def)
qed

lemma sample_resolves:
  "resolveAgentRunSettlement (\<lambda>xs. xs) noon (sample_resolution ''completed'' ''released'' 280 40 None) = Inr (resolved_sample ''completed'' RELEASED 280 40 None)"
  "resolveAgentRunSettlement (\<lambda>xs. xs) noon (sample_resolution ''failed'' ''refunded'' 0 0 None) = Inr (resolved_sample ''failed'' REFUNDED 0 0 None)"
  by (rule sample_resolve; code_simp)+

lemma sample_payment:
  "payRelease noon (sample_run ''completed'') (held_settlement ''a'') (held_store ''a'') held_wallet 280 = Inr (paid_wallet, [AGENT_WALLET_UPSERT (new_wallet 280 1)])"
  "payRefund noon (sample_run ''completed'') (held_settlement ''a'') paid_wallet 420 = Inr (refunded_wallet paid_wallet 420)"
  "payRefund noon (sample_run ''failed'') (held_settlement ''a'') held_wallet 700 = Inr (refunded_wallet held_wallet 700)"
proof -
  note f = sample_run_parts
  have h: "si_agentId (rs_ids (held_settlement ''a'')) = ''a''" "sm_currency (rs_money (held_settlement ''a'')) = ''USD''"
    by (simp_all add: held_settlement_def)
  have ok: "\<not> isl x \<Longrightarrow> andThen x (\<lambda>_. y) = y" for x :: "'b res" and y :: "'c res" by (cases x) simp_all
  show "payRelease noon (sample_run ''completed'') (held_settlement ''a'') (held_store ''a'') held_wallet 280 = Inr (paid_wallet, [AGENT_WALLET_UPSERT (new_wallet 280 1)])"
    unfolding payRelease_def f h using sample_payee_wallet ok[OF sample_projection] by simp
  show "payRefund noon (sample_run ''completed'') (held_settlement ''a'') paid_wallet 420 = Inr (refunded_wallet paid_wallet 420)"
    unfolding payRefund_def f using sample_refunds(1) ok[OF sample_forfeits(1)] by simp
  show "payRefund noon (sample_run ''failed'') (held_settlement ''a'') held_wallet 700 = Inr (refunded_wallet held_wallet 700)"
    unfolding payRefund_def f using sample_refunds(2) ok[OF sample_forfeits(2)] by simp
qed

definition settle_sample :: "string \<Rightarrow> string \<Rightarrow> (money_op list \<times> settlement) res" where
  "settle_sample payee status = settleTerminalRun (\<lambda>s. s) (\<lambda>_. None) (\<lambda>xs. xs) noon open_kernel (sample_run status)
     (held_settlement payee) (held_store payee)"

lemma sample_auto:
  assumes "st = ''completed'' \<or> st = ''failed''"
  shows "settle_sample ''a'' st = autoSettlement (\<lambda>xs. xs) noon open_kernel (sample_run st) (held_settlement ''a'') (held_store ''a'') held_wallet
    (fst (sample_decision st)) (snd (sample_decision st))"
proof -
  have d: "terminalDecision (\<lambda>s. s) (\<lambda>_. None) (sample_run st) 700 = Inr (sample_decision st)"
    using sample_decides(1,2) assms unfolding sample_decision_def by (auto simp: not_isl_projr)
  have h: "sm_status (rs_money (held_settlement ''a'')) = LOCKED" "si_payerAgentId (rs_ids (held_settlement ''a'')) = ''b''"
    "sm_currency (rs_money (held_settlement ''a'')) = ''USD''" "sm_amountCents (rs_money (held_settlement ''a'')) = 700"
    by (simp_all add: held_settlement_def)
  have auto: "pd_shouldAutoResolve (snd (sample_decision st))" using sample_decides(3,4) assms by auto
  show ?thesis
    unfolding settle_sample_def settleTerminalRun_def sample_run_parts h
    using assms auto by (auto simp: open_kernel_def sample_wallet d split_beta)
qed

lemma sample_settled:
  "settle_sample ''a'' ''completed'' = Inr ([AGENT_WALLET_UPSERT (new_wallet 280 1), AGENT_WALLET_UPSERT (refunded_wallet paid_wallet 420),
     AGENT_RUN_SETTLEMENT_UPSERT (resolved_sample ''completed'' RELEASED 280 40 None)], resolved_sample ''completed'' RELEASED 280 40 None)"
  "settle_sample ''a'' ''failed'' = Inr ([AGENT_WALLET_UPSERT (refunded_wallet held_wallet 700),
     AGENT_RUN_SETTLEMENT_UPSERT (resolved_sample ''failed'' REFUNDED 0 0 None)], resolved_sample ''failed'' REFUNDED 0 0 None)"
proof -
  have k: "sk_decisionTrace open_kernel b e d = Inr JNull" "sk_bindings open_kernel x = Inr ()" for b e d x by (simp_all add: open_kernel_def)
  have free: "payRelease noon (sample_run ''failed'') (held_settlement ''a'') (held_store ''a'') held_wallet 0 = Inr (held_wallet, [])"
    by (simp add: payRelease_def)
  show "settle_sample ''a'' ''completed'' = Inr ([AGENT_WALLET_UPSERT (new_wallet 280 1), AGENT_WALLET_UPSERT (refunded_wallet paid_wallet 420),
     AGENT_RUN_SETTLEMENT_UPSERT (resolved_sample ''completed'' RELEASED 280 40 None)], resolved_sample ''completed'' RELEASED 280 40 None)"
    unfolding sample_auto[OF disjI1[OF refl]] autoSettlement_def sample_decides(5,6) sample_payment k
    by (simp add: sample_resolve_args sample_payment k sample_resolves)
  show "settle_sample ''a'' ''failed'' = Inr ([AGENT_WALLET_UPSERT (refunded_wallet held_wallet 700),
     AGENT_RUN_SETTLEMENT_UPSERT (resolved_sample ''failed'' REFUNDED 0 0 None)], resolved_sample ''failed'' REFUNDED 0 0 None)"
    unfolding sample_auto[OF disjI2[OF refl]] autoSettlement_def sample_decides(7,8) free k
    by (simp add: sample_resolve_args sample_payment k sample_resolves)
qed

lemma sample_keys:
  "makeScopedKey (JStr ''t'') (JStr ''a'') = Inr (''t'' @ CHR 0x0A # ''a'')" "makeScopedKey (JStr ''t'') (JStr ''b'') = Inr (''t'' @ CHR 0x0A # ''b'')"
  "makeScopedKey (JStr ''t'') (JStr ''r'') = Inr (''t'' @ CHR 0x0A # ''r'')" "makeScopedKey (JStr ''t'') (JStr ''q'') = Inr (''t'' @ CHR 0x0A # ''q'')"
  "normalizeTenantId (JStr ''t'') = Inr ''t''"
  by code_simp+

lemma sample_commit:
  "\<exists>st'. commitMoney ''t'' [AGENT_WALLET_UPSERT (new_wallet 280 1), AGENT_WALLET_UPSERT (refunded_wallet paid_wallet 420),
     AGENT_RUN_SETTLEMENT_UPSERT (resolved_sample ''completed'' RELEASED 280 40 None)] (held_store ''a'') = Inr st'"
  by (simp add: commitMoney_def walletUpsert_def settlementUpsert_def sample_keys new_wallet_def refunded_wallet_def paid_wallet_def held_wallet_def
      rich_wallet_def resolved_sample_def held_settlement_def)

theorem terminal_settlement_conserves_witness:
  "\<exists>ops s' st'. settle_sample ''a'' ''completed'' = Inr (ops, s') \<and> commitMoney ''t'' ops (held_store ''a'') = Inr st' \<and>
     total_money st' = total_money (held_store ''a'') \<and> sm_releasedAmountCents (rs_money s') = 280 \<and>
     available_at st' ''t'' ''a'' = available_at (held_store ''a'') ''t'' ''a'' + 280 \<and> locked_at st' ''t'' ''b'' = 0"
proof -
  let ?s = "resolved_sample ''completed'' RELEASED 280 40 None"
  obtain st' where c: "commitMoney ''t'' [AGENT_WALLET_UPSERT (new_wallet 280 1), AGENT_WALLET_UPSERT (refunded_wallet paid_wallet 420),
     AGENT_RUN_SETTLEMENT_UPSERT ?s] (held_store ''a'') = Inr st'" using sample_commit by blast
  have t: "tenant_text (tr_tenantId (sample_run ''completed''))" unfolding sample_run_parts by (rule rich_wf)
  have l: "locked_at (held_store ''a'') ''t'' ''b'' = 700"
    by (simp add: locked_at_def wallet_at_def held_store_def held_wallet_def)
  show ?thesis
    using terminal_settlement_conserves[OF collates_id held_wf t held_settlement_wf(1) sample_settled(1)[unfolded settle_sample_def], unfolded sample_run_parts, OF c]
      sample_settled(1) c l
    by (simp add: resolved_sample_def held_settlement_def)
qed

theorem failed_run_refunds_witness:
  "\<exists>ops s'. settle_sample ''a'' ''failed'' = Inr (ops, s') \<and> sm_status (rs_money s') = REFUNDED \<and> sm_refundedAmountCents (rs_money s') = 700"
  using failed_run_refunds[OF collates_id held_settlement_wf(1) _ _ sample_settled(2)[unfolded settle_sample_def]] sample_run_parts(5) sample_settled(2)
  by (simp add: resolved_sample_def held_settlement_def)

theorem self_settlement_never_released_witness:
  "\<not> isl (openRunSettlement (\<lambda>xs. xs) noon ''t'' ''r'' ''b'' sample_request noon rich_store) \<and> (\<exists>e. settle_sample ''b'' ''completed'' = Inl e)"
proof
  show "\<not> isl (openRunSettlement (\<lambda>xs. xs) noon ''t'' ''r'' ''b'' sample_request noon rich_store)" by code_simp
  have t: "tenant_text (tr_tenantId (sample_run ''completed''))" unfolding sample_run_parts by (rule rich_wf)
  have h: "sm_status (rs_money (held_settlement ''b'')) = LOCKED" "si_agentId (rs_ids (held_settlement ''b'')) = si_payerAgentId (rs_ids (held_settlement ''b''))"
    "getp (tr_run (sample_run ''completed'')) ''status'' \<in> {JStr ''completed'', JStr ''failed''}"
    by (simp_all add: held_settlement_def sample_run_parts)
  have "case terminalDecision (\<lambda>s. s) (\<lambda>_. None) (sample_run ''completed'') (sm_amountCents (rs_money (held_settlement ''b''))) of
      Inr (execution, d) \<Rightarrow> pd_shouldAutoResolve d \<and> 0 < pd_releaseAmountCents d | Inl e \<Rightarrow> False" by code_simp
  then obtain execution d where "terminalDecision (\<lambda>s. s) (\<lambda>_. None) (sample_run ''completed'') (sm_amountCents (rs_money (held_settlement ''b''))) = Inr (execution, d)"
    "pd_shouldAutoResolve d" "0 < pd_releaseAmountCents d" by (auto split: sum.splits prod.splits)
  then show "\<exists>e. settle_sample ''b'' ''completed'' = Inl e"
    using self_settlement_never_released[OF collates_id held_wf t held_settlement_wf(2) h] unfolding settle_sample_def by blast
qed

theorem commit_tenant_isolation_witness:
  "\<exists>st'. commitMoney ''t'' [AGENT_WALLET_UPSERT (new_wallet 280 1), AGENT_WALLET_UPSERT (refunded_wallet paid_wallet 420),
     AGENT_RUN_SETTLEMENT_UPSERT (resolved_sample ''completed'' RELEASED 280 40 None)] (held_store ''a'') = Inr st' \<and>
     agentWallets st' (''u'' @ CHR 0x0A # ''a'') = agentWallets (held_store ''a'') (''u'' @ CHR 0x0A # ''a'')"
proof -
  have "tenant_text ''u''" by code_simp
  then show ?thesis using sample_commit commit_tenant_isolation[OF rich_wf(2), of "''u''"] by fastforce
qed

definition opened :: "string \<Rightarrow> money_op list \<times> settlement" where
  "opened r = projr (openRunSettlement (\<lambda>xs. xs) noon ''t'' r ''a'' sample_request noon rich_store)"

lemma sample_opens:
  "openRunSettlement (\<lambda>xs. xs) noon ''t'' ''r'' ''a'' sample_request noon rich_store = Inr (opened ''r'')"
  "openRunSettlement (\<lambda>xs. xs) noon ''t'' ''q'' ''a'' sample_request noon rich_store = Inr (opened ''q'')"
proof -
  have "\<not> isl (openRunSettlement (\<lambda>xs. xs) noon ''t'' ''r'' ''a'' sample_request noon rich_store)"
    "\<not> isl (openRunSettlement (\<lambda>xs. xs) noon ''t'' ''q'' ''a'' sample_request noon rich_store)"
    by code_simp+
  then show "openRunSettlement (\<lambda>xs. xs) noon ''t'' ''r'' ''a'' sample_request noon rich_store = Inr (opened ''r'')"
    "openRunSettlement (\<lambda>xs. xs) noon ''t'' ''q'' ''a'' sample_request noon rich_store = Inr (opened ''q'')"
    unfolding opened_def by (simp_all add: not_isl_projr)
qed

lemma opened_commits:
  assumes "openRunSettlement (\<lambda>xs. xs) noon ''t'' r ''a'' sample_request noon rich_store = Inr (ops, s)"
    and "makeScopedKey (JStr ''t'') (JStr r) = Inr k"
  shows "\<exists>st'. commitMoney ''t'' ops st = Inr st'"
proof -
  obtain w where w: "ops = [AGENT_WALLET_UPSERT w, AGENT_RUN_SETTLEMENT_UPSERT s]" "aw_agentId w = ''b''"
      "createAgentRunSettlement (\<lambda>xs. xs) noon (create_args ''t'' r ''a'' sample_request noon) = Inr s"
    using opened_wallet[OF rich_wf assms(1)] by (auto simp: sample_request_def)
  have "si_runId (rs_ids s) = r" "r \<noteq> []" using created_fields[OF collates_id w(3)] assms(2) by (auto simp: makeScopedKey_Inr trim_def)
  then show ?thesis
    using w(2) assms(2) by (simp add: w(1) commitMoney_def walletUpsert_def settlementUpsert_def sample_keys)
qed

theorem interleaved_holds_overcommit_witness:
  "\<exists>st1 st2. commitMoney ''t'' (fst (opened ''r'')) rich_store = Inr st1 \<and> commitMoney ''t'' (fst (opened ''q'')) st1 = Inr st2 \<and>
     locked_at st2 ''t'' ''b'' = 700 \<and> agentRunSettlements st2 (''t'' @ CHR 0x0A # ''r'') = Some (snd (opened ''r'')) \<and>
     agentRunSettlements st2 (''t'' @ CHR 0x0A # ''q'') = Some (snd (opened ''q''))"
proof -
  have o: "openRunSettlement (\<lambda>xs. xs) noon ''t'' ''r'' ''a'' sample_request noon rich_store = Inr (fst (opened ''r''), snd (opened ''r''))"
    "openRunSettlement (\<lambda>xs. xs) noon ''t'' ''q'' ''a'' sample_request noon rich_store = Inr (fst (opened ''q''), snd (opened ''q''))"
    by (simp_all add: sample_opens)
  obtain st1 where 1: "commitMoney ''t'' (fst (opened ''r'')) rich_store = Inr st1" using opened_commits[OF o(1) sample_keys(3)] by blast
  obtain st2 where 2: "commitMoney ''t'' (fst (opened ''q'')) st1 = Inr st2" using opened_commits[OF o(2) sample_keys(4)] by blast
  have r: "sr_payerAgentId sample_request = ''b''" "sr_amountCents sample_request = 700" by (simp_all add: sample_request_def)
  have l: "locked_at rich_store ''t'' ''b'' = 0" by (simp add: locked_at_def wallet_at_def rich_store_def rich_wallet_def)
  show ?thesis
    using interleaved_holds_overcommit[OF collates_id rich_wf _ r(1) r(1) o 1 2] 1 2 l r by auto
qed

end
