(* ===== verification/RunEscrow.thy ===== *)
theory RunEscrow
  imports RunMoney
begin

text \<open>
  The money of a tenant over any sequence of requests: wallets are credited, runs are created with a settlement, and runs
  end. Each request is atomic here; \<^verbatim>\<open>RunMoney\<close> shows what happens when two creations overlap. The invariant is that the
  escrow of every wallet is the sum of the settlements it still has to pay.
\<close>

section \<open>Crediting a wallet\<close>

definition creditWallet :: "string \<Rightarrow> string \<Rightarrow> string \<Rightarrow> jsval \<Rightarrow> jsval \<Rightarrow> string \<Rightarrow> money_store \<Rightarrow> money_op list res" where
  "creditWallet now tenantId agentId amountArg currencyArg nowAt st =
     (case isSafeNumber amountArg of
        None \<Rightarrow> Inl (TypeError ''amountCents must be a positive safe integer'')
      | Some n \<Rightarrow>
          andThen (throwIf (n \<le> 0) (TypeError ''amountCents must be a positive safe integer'')) (\<lambda>_.
          andThen (getAgentWallet st tenantId agentId) (\<lambda>existing.
          andThen (ensureAgentWallet now existing (JStr tenantId) (JStr agentId) (orElse currencyArg (JStr ''USD'')) (JStr nowAt)) (\<lambda>base.
          andThen (creditAgentWallet now (js_of_wallet base) (JInt n) (JStr nowAt)) (\<lambda>wallet.
            Inr [AGENT_WALLET_UPSERT wallet])))))"

section \<open>Sequences of requests\<close>

text \<open>
  One request and the cents it brings in. A run id is used once: the event log of a run refuses a second creation. The
  revision of a settlement has to stay two below the largest safe integer, because a review counts it twice.
\<close>

inductive money_step :: "(string list \<Rightarrow> string list) \<Rightarrow> int \<Rightarrow> money_store \<Rightarrow> money_store \<Rightarrow> bool"
  for lsort :: "string list \<Rightarrow> string list" where
  credited: "tenant_text t \<Longrightarrow> isSafeNumber amountArg = Some n \<Longrightarrow> creditWallet now t a amountArg currencyArg d st = Inr ops \<Longrightarrow>
    commitMoney t ops st = Inr st' \<Longrightarrow> money_step lsort n st st'"
| opened: "tenant_text t \<Longrightarrow> agentRunSettlements st (t @ CHR 0x0A # r) = None \<Longrightarrow> openRunSettlement lsort now t r payee req d st = Inr (ops, s) \<Longrightarrow>
    commitMoney t ops st = Inr st' \<Longrightarrow> money_step lsort 0 st st'"
| settled: "tenant_text (tr_tenantId tr) \<Longrightarrow> agentRunSettlements st (tr_tenantId tr @ CHR 0x0A # tr_runId tr) = Some s \<Longrightarrow>
    rs_revision s < MAX_SAFE_INTEGER - 1 \<Longrightarrow> settleTerminalRun H queryOf lsort now sk tr s st = Inr (ops, s') \<Longrightarrow>
    commitMoney (tr_tenantId tr) ops st = Inr st' \<Longrightarrow> money_step lsort 0 st st'"

inductive money_run :: "(string list \<Rightarrow> string list) \<Rightarrow> int \<Rightarrow> money_store \<Rightarrow> money_store \<Rightarrow> bool"
  for lsort :: "string list \<Rightarrow> string list" where
  no_request: "money_run lsort 0 st st"
| request: "money_run lsort n st st1 \<Longrightarrow> money_step lsort m st1 st2 \<Longrightarrow> money_run lsort (n + m) st st2"

section \<open>What the settlements hold\<close>

definition held :: "settlement \<Rightarrow> string \<Rightarrow> string \<Rightarrow> int" where
  "held s t a = (if sm_status (rs_money s) = LOCKED \<and> si_tenantId (rs_ids s) = t \<and> si_payerAgentId (rs_ids s) = a
                 then sm_amountCents (rs_money s) else 0)"

definition escrowed :: "money_store \<Rightarrow> string \<Rightarrow> string \<Rightarrow> int" where
  "escrowed st t a = (\<Sum>k \<in> dom (agentRunSettlements st). held (the (agentRunSettlements st k)) t a)"

definition wf_settlements :: "(string list \<Rightarrow> string list) \<Rightarrow> money_store \<Rightarrow> bool" where
  "wf_settlements lsort st \<longleftrightarrow> finite (dom (agentRunSettlements st)) \<and>
     (\<forall>k s. agentRunSettlements st k = Some s \<longrightarrow>
        wf_settlement lsort s \<and> tenant_text (si_tenantId (rs_ids s)) \<and> k = si_tenantId (rs_ids s) @ CHR 0x0A # si_runId (rs_ids s))"

definition backed :: "(string list \<Rightarrow> string list) \<Rightarrow> money_store \<Rightarrow> bool" where
  "backed lsort st \<longleftrightarrow> wf_store st \<and> wf_settlements lsort st \<and> (\<forall>t a. tenant_text t \<longrightarrow> locked_at st t a = escrowed st t a)"

lemma escrowed_put:
  assumes "finite (dom (agentRunSettlements st))" and "agentRunSettlements st' = (agentRunSettlements st)(k \<mapsto> s)"
  shows "escrowed st' t a = escrowed st t a + held s t a - (case agentRunSettlements st k of None \<Rightarrow> 0 | Some s0 \<Rightarrow> held s0 t a)"
proof -
  let ?h = "\<lambda>k. held (the (agentRunSettlements st k)) t a"
  have "escrowed st' t a = held s t a + (\<Sum>k' \<in> dom (agentRunSettlements st) - {k}. ?h k')"
    using assms by (simp add: escrowed_def sum.insert_remove)
  also have "(\<Sum>k' \<in> dom (agentRunSettlements st) - {k}. ?h k') = escrowed st t a - (if k \<in> dom (agentRunSettlements st) then ?h k else 0)"
    using assms(1) by (simp add: escrowed_def sum_diff1)
  finally show ?thesis by (cases "agentRunSettlements st k") (auto simp: domIff)
qed

lemma wf_settlements_put:
  assumes "wf_settlements lsort st" and "agentRunSettlements st' = (agentRunSettlements st)(k \<mapsto> s)"
    and "wf_settlement lsort s" and "tenant_text (si_tenantId (rs_ids s))" and "k = si_tenantId (rs_ids s) @ CHR 0x0A # si_runId (rs_ids s)"
  shows "wf_settlements lsort st'"
  using assms by (auto simp: wf_settlements_def)

lemma same_settlements:
  "agentRunSettlements st' = agentRunSettlements st \<Longrightarrow> wf_settlements lsort st' = wf_settlements lsort st \<and> escrowed st' = escrowed st"
  by (intro conjI ext) (simp_all add: wf_settlements_def escrowed_def)

lemma other_locked:
  assumes "tenant_text t" and "tenant_text u" and "u \<noteq> t" and "commitMoney t ops st = Inr st'"
  shows "locked_at st' u a = locked_at st u a"
  using other_tenant[OF assms, of a] by (simp add: locked_at_def wallet_at_def)

section \<open>Credits\<close>

lemma credit_effect:
  assumes st: "wf_store st" and t: "tenant_text t" and r: "creditWallet now t a amountArg currencyArg d st = Inr ops"
    and n: "isSafeNumber amountArg = Some n" and commit: "commitMoney t ops st = Inr st'"
  shows "wf_store st' \<and> total_money st' = total_money st + n \<and> locked_at st' t = locked_at st t \<and> agentRunSettlements st' = agentRunSettlements st"
proof -
  obtain v w w' where g: "getAgentWallet st t a = Inr v"
    and e: "ensureAgentWallet now v (JStr t) (JStr a) (orElse currencyArg (JStr ''USD'')) (JStr d) = Inr w"
    and c: "creditAgentWallet now (js_of_wallet w) (JInt n) (JStr d) = Inr w'" and ops: "ops = [AGENT_WALLET_UPSERT w']"
    using r n unfolding creditWallet_def by (auto elim!: andThen_InrE)
  note W = ensured_wallet[OF st t g e]
  have wf: "wf_wallet w" using W by (simp add: keyed_def)
  have a: "0 < n" "is_safe n" "is_iso d" and u: "withWalletUpdate (js_of_wallet w) (credit_available n) d = Inr w'"
    using c amount_arg by (fastforce simp: creditAgentWallet_def andThen_Inr_iff)+
  have s: "same_owner w w'" "availableCents w' = availableCents w + n" "escrowLockedCents w' = escrowLockedCents w"
    using credit_available_Inr[OF wf a(1,3), THEN iffD1, OF u] by (simp_all add: same_owner_def)
  have k: "keyed w'" using keyed_update[OF _ updated_wf[OF u] s(1)] W by simp
  have "applyMoneyOp t st (AGENT_WALLET_UPSERT w') = Inr st'" using commit unfolding ops commitMoney_def by (simp add: andThen_Inr_iff del: applyMoneyOp.simps)
  then have p: "st' = put_wallet t w' st" "makeScopedKey (JStr (aw_tenantId w')) (JStr (aw_agentId w')) = Inr (t @ CHR 0x0A # aw_agentId w')"
    using apply_wallet[OF t] W s(1) by (auto simp: same_owner_def)
  have o: "aw_agentId w' = a" "availableCents w = available_at st t a" "escrowLockedCents w = locked_at st t a" using W s(1) by (auto simp: same_owner_def)
  show ?thesis unfolding p(1)
    using put_wallet_money[OF st k p(2)] put_wallet_at(2)[of t w' st] o s by (auto simp: money_def put_wallet_def fun_eq_iff)
qed

section \<open>Settlements\<close>

lemma wallet_op: "applyMoneyOp t st (AGENT_WALLET_UPSERT w) = Inr st' \<Longrightarrow> agentRunSettlements st' = agentRunSettlements st"
  by (auto simp: walletUpsert_def andThen_Inr_iff)

lemma settled_store:
  assumes c: "collates lsort" and st: "wf_store st" and t: "tenant_text (tr_tenantId tr)" and s: "wf_settlement lsort s"
    and ids: "si_tenantId (rs_ids s) = tr_tenantId tr"
    and r: "settleTerminalRun H queryOf lsort now sk tr s st = Inr (ops, s')" and commit: "commitMoney (tr_tenantId tr) ops st = Inr st'"
    and rev: "rs_revision s < MAX_SAFE_INTEGER - 1"
  shows "st' = st \<or> sm_status (rs_money s) = LOCKED \<and> wf_settlement lsort s' \<and> rs_ids s' = rs_ids s \<and> sm_amountCents (rs_money s') = sm_amountCents (rs_money s) \<and>
    agentRunSettlements st' = (agentRunSettlements st)(tr_tenantId tr @ CHR 0x0A # si_runId (rs_ids s) \<mapsto> s')"
proof (cases "sm_status (rs_money s) \<noteq> LOCKED \<or> getp (tr_run tr) ''status'' \<notin> {JStr ''completed'', JStr ''failed''}")
  case True
  then have "ops = []" using r by (simp add: settleTerminalRun_def)
  then show ?thesis using commit by (simp add: commitMoney_def)
next
  case False
  obtain p execution d where p: "payer_of now st tr s p"
    and d: "\<not> pd_shouldAutoResolve d \<Longrightarrow> reviewSettlement lsort now sk tr s execution d = Inr (ops, s')"
      "pd_shouldAutoResolve d \<Longrightarrow> autoSettlement lsort now sk tr s st p execution d = Inr (ops, s')"
    using settled_run[OF r False] by blast
  have "\<exists>wops. ops = map AGENT_WALLET_UPSERT wops @ [AGENT_RUN_SETTLEMENT_UPSERT s'] \<and> wf_settlement lsort s' \<and> rs_ids s' = rs_ids s \<and>
      sm_amountCents (rs_money s') = sm_amountCents (rs_money s)"
  proof (cases "pd_shouldAutoResolve d")
    case True
    obtain p1 rops p2 trace where rel: "payRelease now tr s st p (pd_releaseAmountCents d) = Inr (p1, rops)"
      and res: "resolveAgentRunSettlement lsort now (resolve_args tr s d trace) = Inr s'"
      and ops: "ops = rops @ [AGENT_WALLET_UPSERT p2, AGENT_RUN_SETTLEMENT_UPSERT s']"
      using d(2)[OF True] by (auto simp: autoSettlement_def andThen_Inr_iff)
    have w: "rops = [] \<or> (\<exists>q. rops = [AGENT_WALLET_UPSERT q])" using payRelease_effect[OF st t s p rel] by blast
    have "\<exists>wops. ops = map AGENT_WALLET_UPSERT wops @ [AGENT_RUN_SETTLEMENT_UPSERT s']"
    proof (cases "rops = []")
      case True
      then show ?thesis using ops by (intro exI[of _ "[p2]"]) simp
    next
      case False
      then obtain q where "rops = [AGENT_WALLET_UPSERT q]" using w by blast
      then show ?thesis using ops by (intro exI[of _ "[q, p2]"]) simp
    qed
    then show ?thesis using resolve_amounts[OF c s res] by (simp add: stepped_def same_contract_def)
  next
    case False
    show ?thesis using reviewed[OF c s d(1)[OF False]] rev by (intro exI[of _ "[]"]) simp
  qed
  then obtain wops where w: "ops = map AGENT_WALLET_UPSERT wops @ [AGENT_RUN_SETTLEMENT_UPSERT s']" and s': "wf_settlement lsort s'" "rs_ids s' = rs_ids s"
      "sm_amountCents (rs_money s') = sm_amountCents (rs_money s)" by blast
  obtain st1 where st1: "foldRes (applyMoneyOp (tr_tenantId tr)) st (map AGENT_WALLET_UPSERT wops) = Inr st1"
    and fin: "applyMoneyOp (tr_tenantId tr) st1 (AGENT_RUN_SETTLEMENT_UPSERT s') = Inr st'"
    using commit unfolding w commitMoney_def by (auto simp: foldRes_append andThen_Inr_iff simp del: applyMoneyOp.simps)
  have "agentRunSettlements st1 = agentRunSettlements st"
    using st1 by (induction wops arbitrary: st) (auto simp: andThen_Inr_iff simp del: applyMoneyOp.simps dest!: wallet_op)
  then show ?thesis using committed_settlement[OF t _ fin] s' ids False by simp
qed

section \<open>The invariant\<close>

lemma credited_backed:
  assumes "backed lsort st" and "tenant_text t" and "creditWallet now t a amountArg currencyArg d st = Inr ops" and "isSafeNumber amountArg = Some n"
    and "commitMoney t ops st = Inr st'"
  shows "backed lsort st' \<and> total_money st' = total_money st + n"
proof -
  have st: "wf_store st" using assms(1) by (simp add: backed_def)
  note e = credit_effect[OF st assms(2-5)]
  have "locked_at st' u b = locked_at st u b" if "tenant_text u" for u b
    using e other_locked[OF assms(2) that _ assms(5)] by (cases "u = t") auto
  then show ?thesis using e assms(1) same_settlements[of st' st lsort] by (simp add: backed_def)
qed

lemma opened_backed:
  assumes c: "collates lsort" and b: "backed lsort st" and t: "tenant_text t" and new: "agentRunSettlements st (t @ CHR 0x0A # r) = None"
    and o: "openRunSettlement lsort now t r payee req d st = Inr (ops, s)" and commit: "commitMoney t ops st = Inr st'"
  shows "backed lsort st' \<and> total_money st' = total_money st"
proof -
  have st: "wf_store st" and ss: "wf_settlements lsort st" using b by (simp_all add: backed_def)
  note e = hold_effect[OF c st t o commit]
  obtain w where "createAgentRunSettlement lsort now (create_args t r payee req d) = Inr s" using opened_wallet[OF st t o] by blast
  note f = created_fields[OF c this]
  have put: "agentRunSettlements st' = (agentRunSettlements st)(t @ CHR 0x0A # r \<mapsto> s)" using e by simp
  have ws: "wf_settlements lsort st'" using wf_settlements_put[OF ss put] f t by simp
  have "locked_at st' u a = escrowed st' u a" if u: "tenant_text u" for u a
  proof -
    have "escrowed st' u a = escrowed st u a + held s u a"
      using escrowed_put[OF _ put, of u a] ss new by (simp add: wf_settlements_def)
    moreover have "locked_at st' u a = locked_at st u a + held s u a"
      using e f other_locked[OF t u _ commit] by (cases "u = t") (auto simp: held_def)
    ultimately show ?thesis using b u by (simp add: backed_def)
  qed
  then show ?thesis using e ws by (simp add: backed_def)
qed

lemma settled_backed:
  assumes c: "collates lsort" and b: "backed lsort st" and t: "tenant_text (tr_tenantId tr)"
    and stored: "agentRunSettlements st (tr_tenantId tr @ CHR 0x0A # tr_runId tr) = Some s" and rev: "rs_revision s < MAX_SAFE_INTEGER - 1"
    and r: "settleTerminalRun H queryOf lsort now sk tr s st = Inr (ops, s')" and commit: "commitMoney (tr_tenantId tr) ops st = Inr st'"
  shows "backed lsort st' \<and> total_money st' = total_money st"
proof -
  let ?t = "tr_tenantId tr"
  have st: "wf_store st" and ss: "wf_settlements lsort st" using b by (simp_all add: backed_def)
  have s: "wf_settlement lsort s" "tenant_text (si_tenantId (rs_ids s))" "?t @ CHR 0x0A # tr_runId tr = si_tenantId (rs_ids s) @ CHR 0x0A # si_runId (rs_ids s)"
    using ss stored by (auto simp: wf_settlements_def)
  have ids: "si_tenantId (rs_ids s) = ?t" "si_runId (rs_ids s) = tr_runId tr" using keys_meet[OF t s(2)] s(3) by auto
  note e = terminal_effect[OF c st t s(1) r commit]
  show ?thesis
  proof (cases "st' = st")
    case True
    then show ?thesis using b by simp
  next
    case False
    have n: "sm_status (rs_money s) = LOCKED" "wf_settlement lsort s'" "rs_ids s' = rs_ids s" "sm_amountCents (rs_money s') = sm_amountCents (rs_money s)"
      and put: "agentRunSettlements st' = (agentRunSettlements st)(?t @ CHR 0x0A # tr_runId tr \<mapsto> s')"
      using settled_store[OF c st t s(1) ids(1) r commit rev] False ids(2) by auto
    have ws: "wf_settlements lsort st'" using wf_settlements_put[OF ss put n(2)] n(3) s(2) ids by simp
    have "locked_at st' u a = escrowed st' u a" if u: "tenant_text u" for u a
    proof -
      have "escrowed st' u a = escrowed st u a + held s' u a - held s u a"
        using escrowed_put[OF _ put, of u a] ss stored by (simp add: wf_settlements_def)
      moreover have "locked_at st' u a = locked_at st u a + held s' u a - held s u a"
      proof (cases "u = ?t")
        case False
        then show ?thesis using other_locked[OF t u False commit] n(3) ids by (simp add: held_def)
      next
        case True
        show ?thesis
        proof (cases "sm_status (rs_money s') = LOCKED")
          case l: True
          then have w: "agentWallets st' = agentWallets st" using e by simp
          show ?thesis using same_wallets(3)[OF w] n l by (simp add: held_def)
        next
          case l: False
          have cond: "sm_status (rs_money s) = LOCKED \<and> sm_status (rs_money s') \<noteq> LOCKED" using n(1) l by simp
          have "locked_at st' ?t a = locked_at st ?t a - (if a = si_payerAgentId (rs_ids s) then sm_amountCents (rs_money s) else 0)"
            using e[unfolded if_P[OF cond]] by blast
          then show ?thesis using l n(1) ids True by (simp add: held_def)
        qed
      qed
      ultimately show ?thesis using b u by (simp add: backed_def)
    qed
    then show ?thesis using e ws by (simp add: backed_def)
  qed
qed

lemma step_backed:
  assumes "collates lsort" and "money_step lsort n st st'" and "backed lsort st"
  shows "backed lsort st' \<and> total_money st' = total_money st + n"
  using assms(2)
proof cases
  case (credited t amountArg now a currencyArg d ops)
  then show ?thesis using credited_backed[OF assms(3)] by blast
next
  case (opened t r now payee req d ops s)
  then show ?thesis using opened_backed[OF assms(1,3)] by simp
next
  case (settled tr s H queryOf now sk ops s')
  then show ?thesis using settled_backed[OF assms(1,3)] by simp
qed

definition no_money :: money_store where
  "no_money = \<lparr>agentWallets = Map.empty, agentRunSettlements = Map.empty\<rparr>"

text \<open>C1: Over every sequence of credits, run creations and run endings that starts from an empty store, the money in the
  wallets is exactly what was credited, and the escrow of every agent of every tenant is exactly the sum of its
  locked settlements: no settlement stands without its money, and no money is locked without a settlement.\<close>

theorem escrow_backs_settlements:
  assumes "collates lsort" and "money_run lsort n no_money st"
  shows "total_money st = n \<and> (\<forall>t a. tenant_text t \<longrightarrow> locked_at st t a = escrowed st t a) \<and> wf_store st"
proof -
  have "backed lsort st \<and> total_money st = n"
    using assms(2)
  proof (induction "n" "no_money" st rule: money_run.induct)
    case no_request
    show ?case by (simp add: backed_def wf_store_def wf_settlements_def no_money_def escrowed_def locked_at_def wallet_at_def total_money_def)
  next
    case (request n st1 m st2)
    then show ?case using step_backed[OF assms(1)] by simp
  qed
  then show ?thesis by (simp add: backed_def)
qed

lemma sample_credit:
  "creditWallet noon ''t'' ''b'' (JInt 1000) JUndef noon no_money = Inr [AGENT_WALLET_UPSERT rich_wallet]"
  "commitMoney ''t'' [AGENT_WALLET_UPSERT rich_wallet] no_money = Inr rich_store"
proof -
  have "getAgentWallet no_money ''t'' ''b'' = Inr JNull" "isSafeNumber (JInt 1000) = Some 1000"
    "ensureAgentWallet noon JNull (JStr ''t'') (JStr ''b'') (orElse JUndef (JStr ''USD'')) (JStr noon) = Inr ((new_wallet 0 0)\<lparr>aw_walletId := ''wallet_b'', aw_agentId := ''b''\<rparr>)"
    "creditAgentWallet noon (js_of_wallet ((new_wallet 0 0)\<lparr>aw_walletId := ''wallet_b'', aw_agentId := ''b''\<rparr>)) (JInt 1000) (JStr noon) = Inr rich_wallet"
    by code_simp+
  then show "creditWallet noon ''t'' ''b'' (JInt 1000) JUndef noon no_money = Inr [AGENT_WALLET_UPSERT rich_wallet]"
    unfolding creditWallet_def by simp
  show "commitMoney ''t'' [AGENT_WALLET_UPSERT rich_wallet] no_money = Inr rich_store"
    by (simp add: commitMoney_def walletUpsert_def sample_keys rich_store_def no_money_def rich_wallet_def)
qed

theorem escrow_backs_settlements_witness:
  "\<exists>st. money_run (\<lambda>xs. xs) 1000 no_money st \<and> total_money st = 1000 \<and> locked_at st ''t'' ''b'' = 700 \<and> escrowed st ''t'' ''b'' = 700"
proof -
  have "isSafeNumber (JInt 1000) = Some 1000" by code_simp
  then have "money_step (\<lambda>xs. xs) 1000 no_money rich_store" using money_step.credited[OF rich_wf(2) _ sample_credit] by blast
  then have 1: "money_run (\<lambda>xs. xs) 1000 no_money rich_store" using money_run.request[OF money_run.no_request] by fastforce
  have o: "openRunSettlement (\<lambda>xs. xs) noon ''t'' ''r'' ''a'' sample_request noon rich_store = Inr (fst (opened ''r''), snd (opened ''r''))"
    by (simp add: sample_opens)
  obtain st where c: "commitMoney ''t'' (fst (opened ''r'')) rich_store = Inr st" using opened_commits[OF o sample_keys(3)] by blast
  have "money_step (\<lambda>xs. xs) 0 rich_store st"
    by (rule money_step.opened[OF rich_wf(2) _ o c]) (simp add: rich_store_def)
  then have 2: "money_run (\<lambda>xs. xs) 1000 no_money st" using money_run.request[OF 1] by fastforce
  have "locked_at st ''t'' ''b'' = 700"
    using hold_effect[OF collates_id rich_wf o c] by (simp add: sample_request_def locked_at_def wallet_at_def rich_store_def rich_wallet_def)
  then show ?thesis using escrow_backs_settlements[OF collates_id 2] rich_wf(2) 2 by auto
qed

end
