(* ===== verification/RunKernel.thy ===== *)
theory RunKernel
  imports RunMoney SettlementKernel
begin

text \<open>
  The settlement kernel as \<^verbatim>\<open>src/api/app.js\<close> uses it: the artifacts built for a settlement that is decided, the check of a
  settlement's artifacts before and after, and the kernel of a run that ends (\<open>run_kernel\<close>), which instantiates the
  parameter \<open>settlement_kernel\<close> of \<open>RunMoney\<close>. The identifiers that \<^verbatim>\<open>createId\<close> makes are parameters.
\<close>

section \<open>Policies and methods\<close>

fun error_message :: "js_error \<Rightarrow> string" where
  "error_message (TypeError m) = m"
| "error_message (RangeError m) = m"
| "error_message (PlainError m) = m"
| "error_message (CodedError c m) = m"

definition wrapError :: "string \<Rightarrow> 'a res \<Rightarrow> 'a res" where
  "wrapError what r = (case r of Inl e \<Rightarrow> Inl (TypeError (''invalid '' @ what @ '': '' @ error_message e)) | Inr x \<Rightarrow> Inr x)"

definition parseVerificationMethodInput :: "(string \<Rightarrow> string) \<Rightarrow> jsval \<Rightarrow> jsval res" where
  "parseVerificationMethodInput H input = wrapError ''verificationMethod''
     (let raw = object_or_empty input; expected = hexText (getp raw ''verificationMethodHash'') in
      andThen (normalizeVerificationMethod raw JUndef) (\<lambda>normalized.
      andThen (computeVerificationMethodHash H normalized) (\<lambda>computed.
      andThen (throwIf (expected \<noteq> [] \<and> expected \<noteq> computed)
                 (TypeError ''verificationMethodHash does not match canonical verificationMethod'')) (\<lambda>_. Inr normalized))))"

definition parseSettlementPolicyInput :: "(string \<Rightarrow> string) \<Rightarrow> jsval \<Rightarrow> jsval res" where
  "parseSettlementPolicyInput H input = wrapError ''policy''
     (let raw = object_or_empty input; expected = hexText (getp raw ''policyHash'') in
      andThen (normalizeSettlementPolicy raw) (\<lambda>normalized.
      andThen (computeSettlementPolicyHash H normalized) (\<lambda>computed.
      andThen (throwIf (expected \<noteq> [] \<and> expected \<noteq> computed) (TypeError ''policyHash does not match canonical policy'')) (\<lambda>_.
        Inr (JObj (spread (own_props normalized) [(''policyHash'', JStr computed)]))))))"

definition policyHashOf :: "(string \<Rightarrow> string) \<Rightarrow> jsval \<Rightarrow> string res" where
  "policyHashOf H input = mapR (\<lambda>p. js_String (getp p ''policyHash'')) (parseSettlementPolicyInput H input)"

definition methodHashOf :: "(string \<Rightarrow> string) \<Rightarrow> jsval \<Rightarrow> string res" where
  "methodHashOf H input = andThen (parseVerificationMethodInput H input) (computeVerificationMethodHash H)"

section \<open>The artifacts of a decision\<close>

text \<open>A hash the caller passes counts when it is a hash; otherwise the one of the object in the settlement's trace, and
  otherwise the one of the default. The empty text stands for \<^verbatim>\<open>null\<close>.\<close>

definition effectiveHash :: "(jsval \<Rightarrow> string res) \<Rightarrow> jsval \<Rightarrow> jsval \<Rightarrow> string res" where
  "effectiveHash hashOf given traced =
     (let h = (if is_sha256_hex (hexText given) then hexText given
               else if isObjectLike traced then (case hashOf traced of Inr t \<Rightarrow> t | Inl _ \<Rightarrow> []) else [])
      in if h = [] then hashOf JNull else Inr h)"

definition spendFingerprint :: "jsval \<Rightarrow> jsval" where
  "spendFingerprint bindings =
     (if isObjectLike (getp bindings ''spendAuthorization'') then getp (getp bindings ''spendAuthorization'') ''policyFingerprint'' else JNull)"

definition effectiveProfileHash :: "jsval \<Rightarrow> jsval \<Rightarrow> jsval \<Rightarrow> jsval" where
  "effectiveProfileHash profileHash bindings trace =
     (let record = getp trace ''decisionRecord'';
          candidate = orElse (orElse (spendFingerprint bindings) (spendFingerprint (getp trace ''bindings'')))
            (if isObjectLike record then getp record ''profileHashUsed'' else JNull)
      in if is_sha256_hex (hexText profileHash) then JStr (hexText profileHash)
         else if is_sha256_hex (hexText candidate) then JStr (hexText candidate) else JUndef)"

text \<open>\<^verbatim>\<open>Number.isSafeInteger(Number(a)) ? Number(a) : Number.isSafeInteger(Number(b)) ? Number(b) : d\<close>\<close>

definition firstSafe :: "jsval \<Rightarrow> jsval \<Rightarrow> jsval \<Rightarrow> jsval" where
  "firstSafe a b d = (if isSafeNumber a \<noteq> None then JNum (js_Number a) else if isSafeNumber b \<noteq> None then JNum (js_Number b) else d)"

definition passedBindings :: "jsval \<Rightarrow> props" where
  "passedBindings args = (if isObjectLike (getp args ''bindings'') then [(''bindings'', getp args ''bindings'')] else [])"

text \<open>A parameter whose default is \<^verbatim>\<open>null\<close>.\<close>

definition nullArg :: "jsval \<Rightarrow> string \<Rightarrow> jsval" where
  "nullArg args k = dflt (getp args k) JNull"

definition kernelRunStatus :: "jsval \<Rightarrow> jsval" where
  "kernelRunStatus args = orElse (orElse (getp (getp args ''run'') ''status'') (getp (getp args ''settlement'') ''runStatus'')) JNull"

definition decision_args :: "string \<Rightarrow> jsval \<Rightarrow> jsval \<Rightarrow> string \<Rightarrow> string \<Rightarrow> jsval \<Rightarrow> jsval" where
  "decision_args decisionId args createdAt policyHash methodHash profileHash =
     (let s = getp args ''settlement''; run = getp args ''run'' in JObj
       ([(''schemaVersion'', JStr ''SettlementDecisionRecord.v2''), (''decisionId'', JStr (''dec_'' @ decisionId)), (''tenantId'', getp s ''tenantId''),
         (''runId'', getp s ''runId''), (''settlementId'', getp s ''settlementId''), (''agreementId'', nullArg args ''agreementId''),
         (''decisionStatus'', getp args ''decisionStatus''), (''decisionMode'', getp args ''decisionMode''), (''decisionReason'', nullArg args ''decisionReason''),
         (''verificationStatus'', nullArg args ''verificationStatus''), (''policyHashUsed'', JStr policyHash), (''profileHashUsed'', profileHash),
         (''verificationMethodHashUsed'', JStr methodHash),
         (''policyRef'', JObj [(''policyHash'', JStr policyHash), (''verificationMethodHash'', JStr methodHash)]),
         (''verifierRef'', JObj [(''verifierId'', dflt (getp args ''verifierId'') (JStr ''nooterra.policy-engine'')),
            (''verifierVersion'', dflt (getp args ''verifierVersion'') (JStr ''v1'')), (''verifierHash'', nullArg args ''verifierHash''),
            (''modality'', orElse (nullArg args ''verificationMethodMode'') JNull)])]
        @ passedBindings args
        @ [(''runStatus'', kernelRunStatus args), (''runLastEventId'', orElse (getp run ''lastEventId'') JNull),
           (''runLastChainHash'', orElse (getp run ''lastChainHash'') JNull), (''resolutionEventId'', nullArg args ''resolutionEventId''),
           (''decidedAt'', createdAt)]))"

definition receipt_args :: "string \<Rightarrow> jsval \<Rightarrow> jsval \<Rightarrow> jsval \<Rightarrow> jsval" where
  "receipt_args receiptId args createdAt decisionRecord =
     (let s = getp args ''settlement''; status = orElse (nullArg args ''status'') (getp s ''status'') in JObj
       ([(''receiptId'', JStr (''rcpt_'' @ receiptId)), (''tenantId'', getp s ''tenantId''), (''runId'', getp s ''runId''),
         (''settlementId'', getp s ''settlementId''), (''decisionRecord'', decisionRecord), (''status'', status), (''amountCents'', getp s ''amountCents''),
         (''releasedAmountCents'', firstSafe (nullArg args ''releasedAmountCents'') (getp s ''releasedAmountCents'') (JInt 0)),
         (''refundedAmountCents'', firstSafe (nullArg args ''refundedAmountCents'') (getp s ''refundedAmountCents'') (JInt 0)),
         (''releaseRatePct'', firstSafe (nullArg args ''releaseRatePct'') (getp s ''releaseRatePct'') (JInt (if status = JStr ''released'' then 100 else 0))),
         (''currency'', getp s ''currency''), (''runStatus'', kernelRunStatus args),
         (''resolutionEventId'', orElse (orElse (nullArg args ''resolutionEventId'') (getp s ''resolutionEventId'')) JNull),
         (''finalityState'', dflt (getp args ''finalityState'') (JStr PENDING_FINALITY)),
         (''settledAt'', orElse (orElse (nullArg args ''settledAt'') (getp s ''resolvedAt'')) JNull)]
        @ passedBindings args @ [(''createdAt'', createdAt)]))"

definition buildSettlementKernelRefs :: "(string \<Rightarrow> string) \<Rightarrow> string \<Rightarrow> string \<Rightarrow> string \<Rightarrow> jsval \<Rightarrow> (jsval \<times> jsval) res" where
  "buildSettlementKernelRefs H decisionId receiptId now args =
     (if \<not> is_object (getp args ''settlement'') then Inr (JNull, JNull)
      else let createdAt = orElse (getp args ''createdAt'') (JStr now); trace = getp (getp args ''settlement'') ''decisionTrace'' in
        andThen (effectiveHash (policyHashOf H) (nullArg args ''policyHash'') (getp trace ''policy'')) (\<lambda>policyHash.
        andThen (effectiveHash (methodHashOf H) (nullArg args ''verificationMethodHash'') (getp trace ''verificationMethod'')) (\<lambda>methodHash.
        andThen (buildSettlementDecisionRecord H (decision_args decisionId args createdAt policyHash methodHash
                   (effectiveProfileHash (nullArg args ''profileHash'') (nullArg args ''bindings'') trace))) (\<lambda>d.
        andThen (buildSettlementReceipt H (receipt_args receiptId args createdAt d)) (\<lambda>r. Inr (d, r))))))"

section \<open>The check of a settlement's artifacts\<close>

definition assertSettlementKernelBindingsForResolution ::
  "(string \<Rightarrow> string) \<Rightarrow> jsval \<Rightarrow> jsval \<Rightarrow> string \<Rightarrow> bool \<Rightarrow> kernel_verification res" where
  "assertSettlementKernelBindingsForResolution H settlement runId phase allowMissingArtifacts =
     (let verification = verifySettlementKernelArtifacts H settlement runId;
          nonMissingErrors = filter (\<lambda>c. c \<noteq> DECISION_RECORD_MISSING \<and> c \<noteq> SETTLEMENT_RECEIPT_MISSING) (kv_errors verification) in
      if kv_valid verification then Inr verification
      else if allowMissingArtifacts \<and> nonMissingErrors = [] then Inr verification
      else Inl (CodedError ''SETTLEMENT_KERNEL_BINDING_INVALID'' (''settlement kernel binding invalid ('' @ phase @ '')'')))"

definition buildSettlementResponseBody :: "(string \<Rightarrow> string) \<Rightarrow> jsval \<Rightarrow> jsval \<times> jsval \<times> jsval \<times> kernel_verification" where
  "buildSettlementResponseBody H settlement =
     (let (d, r) = extractSettlementKernelArtifacts settlement in (settlement, d, r, verifySettlementKernelArtifacts H settlement JNull))"

section \<open>The kernel of a run that ends\<close>

record kernel_context =
  kx_decisionId :: string
  kx_receiptId :: string
  kx_verificationMethodHash :: jsval
  kx_milestoneEvaluation :: jsval

definition js_of_evaluation :: "verifier_execution \<Rightarrow> jsval" where
  "js_of_evaluation ex = JObj
     [(''pluginMatched'', JBool (ve_pluginMatched ex)), (''source'', str_of_opt (vr_source (ve_ref ex))),
      (''reasonCodes'', JArr (map JStr (ve_reasonCodes ex))), (''summary'', ve_summary ex)]"

text \<open>The decision, with the milestone evaluation where an agreement has milestones.\<close>

definition js_of_decision :: "jsval \<Rightarrow> policy_decision \<Rightarrow> jsval" where
  "js_of_decision milestoneEvaluation d = JObj
     ([(''policy'', pd_policy d), (''verificationMethod'', pd_verificationMethod d), (''decisionMode'', JStr (pd_decisionMode d)),
       (''shouldAutoResolve'', JBool (pd_shouldAutoResolve d)), (''reasonCodes'', JArr (map JStr (pd_reasonCodes d))),
       (''releaseRatePct'', pd_releaseRatePct d), (''releaseAmountCents'', JInt (pd_releaseAmountCents d)),
       (''refundAmountCents'', JInt (pd_refundAmountCents d)), (''settlementStatus'', JStr (pd_settlementStatus d)),
       (''verificationStatus'', JStr (pd_verificationStatus d)), (''runStatus'', JStr (pd_runStatus d))]
      @ (if milestoneEvaluation = JUndef then [] else [(''milestoneEvaluation'', milestoneEvaluation)]))"

text \<open>The arguments both branches share, and those of each.\<close>

definition shared_kernel_args :: "kernel_context \<Rightarrow> terminal_run \<Rightarrow> settlement \<Rightarrow> verifier_execution \<Rightarrow> policy_decision \<Rightarrow> props" where
  "shared_kernel_args kx tr s ex d =
     [(''settlement'', js_of_settlement s), (''run'', tr_run tr), (''agreementId'', orElse (getp (tr_agreement tr) ''agreementId'') JNull),
      (''verificationStatus'', JStr (pd_verificationStatus d)), (''policyHash'', orElse (tr_policyHash tr) JNull),
      (''verificationMethodHash'', orElse (kx_verificationMethodHash kx) JNull),
      (''verificationMethodMode'', orElse (str_of_opt (vr_modality (ve_ref ex))) (orElse (getp (tr_verificationMethod tr) ''mode'') JNull)),
      (''verifierId'', JStr (vr_verifierId (ve_ref ex))), (''verifierVersion'', JStr (vr_verifierVersion (ve_ref ex))),
      (''verifierHash'', str_of_opt (vr_verifierHash (ve_ref ex))), (''createdAt'', JStr (tr_at tr))]"

definition review_kernel_args :: "policy_decision \<Rightarrow> props" where
  "review_kernel_args d =
     [(''decisionStatus'', JStr ''manual_review_required''), (''decisionMode'', JStr ''manual-review''),
      (''decisionReason'', orElse (firstReason d) (JStr ''manual review required by settlement policy'')), (''resolutionEventId'', JNull),
      (''finalityState'', JStr PENDING_FINALITY), (''settledAt'', JNull)]"

definition auto_kernel_args :: "terminal_run \<Rightarrow> policy_decision \<Rightarrow> props" where
  "auto_kernel_args tr d =
     [(''decisionStatus'', JStr ''auto_resolved''), (''decisionMode'', JStr ''automatic''), (''decisionReason'', firstReason d),
      (''resolutionEventId'', tr_eventId tr), (''status'', JStr (if 0 < pd_releaseAmountCents d then ''released'' else ''refunded'')),
      (''releasedAmountCents'', JInt (pd_releaseAmountCents d)), (''refundedAmountCents'', JInt (pd_refundAmountCents d)),
      (''releaseRatePct'', JNum (js_Number (orElse (pd_releaseRatePct d) (JInt 0)))), (''finalityState'', JStr FINAL_FINALITY),
      (''settledAt'', JStr (tr_at tr))]"

definition kernelTrace ::
  "(string \<Rightarrow> string) \<Rightarrow> string \<Rightarrow> kernel_context \<Rightarrow> terminal_run \<Rightarrow> settlement \<Rightarrow> bool \<Rightarrow> verifier_execution \<Rightarrow> policy_decision \<Rightarrow> jsval res" where
  "kernelTrace H now kx tr s auto ex d =
     mapR (\<lambda>(record, receipt). JObj
         [(''phase'', JStr (if auto then ''run.terminal.auto_resolved'' else ''run.terminal.awaiting_manual_resolution'')),
          (''verifierExecution'', js_of_evaluation ex), (''policyDecision'', js_of_decision (kx_milestoneEvaluation kx) d),
          (''decisionRecord'', record), (''settlementReceipt'', receipt)])
       (buildSettlementKernelRefs H (kx_decisionId kx) (kx_receiptId kx) now
          (JObj (shared_kernel_args kx tr s ex d @ (if auto then auto_kernel_args tr d else review_kernel_args d))))"

definition run_kernel :: "(string \<Rightarrow> string) \<Rightarrow> string \<Rightarrow> kernel_context \<Rightarrow> terminal_run \<Rightarrow> settlement \<Rightarrow> settlement_kernel" where
  "run_kernel H now kx tr s =
     \<lparr>sk_preflight = \<lambda>u. mapR (\<lambda>_. ()) (assertSettlementKernelBindingsForResolution H (js_of_settlement u) (JStr (tr_runId tr))
        ''run_terminal_settlement.preflight'' True),
      sk_decisionTrace = kernelTrace H now kx tr s,
      sk_bindings = \<lambda>u. mapR (\<lambda>_. ()) (assertSettlementKernelBindingsForResolution H (js_of_settlement u) (JStr (tr_runId tr))
        ''run_terminal_settlement.auto_resolved'' False)\<rparr>"

section \<open>The artifacts a run is settled with\<close>

lemma decision_args_fields:
  "getp (decision_args i args t p m f) ''runId'' = getp (getp args ''settlement'') ''runId''"
  "getp (decision_args i args t p m f) ''settlementId'' = getp (getp args ''settlement'') ''settlementId''"
  "getp (decision_args i args t p m f) ''tenantId'' = getp (getp args ''settlement'') ''tenantId''"
  "getp (decision_args i args t p m f) ''decidedAt'' = t" "getp (decision_args i args t p m f) ''policyNormalizationVersion'' = JUndef"
  by (simp_all add: decision_args_def passedBindings_def Let_def)

lemma receipt_args_fields:
  "getp (receipt_args i args t d) ''runId'' = getp (getp args ''settlement'') ''runId''"
  "getp (receipt_args i args t d) ''settlementId'' = getp (getp args ''settlement'') ''settlementId''"
  "getp (receipt_args i args t d) ''createdAt'' = t" "getp (receipt_args i args t d) ''decisionRecord'' = d"
  "getp (receipt_args i args t d) ''settledAt'' = orElse (orElse (nullArg args ''settledAt'') (getp (getp args ''settlement'') ''resolvedAt'')) JNull"
  by (simp_all add: receipt_args_def passedBindings_def Let_def)

lemma refs_built:
  assumes "buildSettlementKernelRefs H i j now args = Inr (d, r)" and "is_object (getp args ''settlement'')"
  shows "\<exists>p m f. buildSettlementDecisionRecord H (decision_args i args (orElse (getp args ''createdAt'') (JStr now)) p m f) = Inr d
    \<and> buildSettlementReceipt H (receipt_args j args (orElse (getp args ''createdAt'') (JStr now)) d) = Inr r"
  using assms by (fastforce simp: buildSettlementKernelRefs_def Let_def andThen_Inr_iff)

lemma settlement_fields:
  "getp (js_of_settlement s) ''runId'' = JStr (si_runId (rs_ids s))" "getp (js_of_settlement s) ''settlementId'' = JStr (si_settlementId (rs_ids s))"
  "getp (js_of_settlement s) ''tenantId'' = JStr (si_tenantId (rs_ids s))"
  "getp (js_of_settlement s) ''resolvedAt'' = str_of_opt (sm_resolvedAt (rs_money s))" "is_object (js_of_settlement s)" "isObjectLike (js_of_settlement s)"
  "getp (js_of_settlement s) ''decisionTrace'' = (case sc_trace (rs_decision s) of None \<Rightarrow> JNull | Some ps \<Rightarrow> JObj ps)"
  by (simp_all add: js_of_settlement_def ids_props_def money_props_def dispute_props_def decision_props_def isObjectLike_def)

definition kernel_args :: "kernel_context \<Rightarrow> terminal_run \<Rightarrow> settlement \<Rightarrow> bool \<Rightarrow> verifier_execution \<Rightarrow> policy_decision \<Rightarrow> jsval" where
  "kernel_args kx tr s auto ex d = JObj (shared_kernel_args kx tr s ex d @ (if auto then auto_kernel_args tr d else review_kernel_args d))"

lemma kernel_args_fields:
  "getp (kernel_args kx tr s auto ex d) ''settlement'' = js_of_settlement s" "getp (kernel_args kx tr s auto ex d) ''createdAt'' = JStr (tr_at tr)"
  "nullArg (kernel_args kx tr s auto ex d) ''settledAt'' = (if auto then JStr (tr_at tr) else JNull)"
  by (simp_all add: kernel_args_def shared_kernel_args_def auto_kernel_args_def review_kernel_args_def nullArg_def dflt_def)

lemma kernelTrace_built:
  assumes "kernelTrace H now kx tr s auto ex d = Inr trace"
  shows "\<exists>rec receipt args p m f. trace = JObj (own_props trace) \<and> args = kernel_args kx tr s auto ex d
    \<and> getp trace ''decisionRecord'' = rec \<and> getp trace ''settlementReceipt'' = receipt
    \<and> buildSettlementDecisionRecord H (decision_args (kx_decisionId kx) args (JStr (tr_at tr)) p m f) = Inr rec
    \<and> buildSettlementReceipt H (receipt_args (kx_receiptId kx) args (JStr (tr_at tr)) rec) = Inr receipt"
proof -
  let ?args = "kernel_args kx tr s auto ex d"
  from assms obtain rec receipt where
    refs: "buildSettlementKernelRefs H (kx_decisionId kx) (kx_receiptId kx) now ?args = Inr (rec, receipt)"
    and t: "trace = JObj [(''phase'', JStr (if auto then ''run.terminal.auto_resolved'' else ''run.terminal.awaiting_manual_resolution'')),
          (''verifierExecution'', js_of_evaluation ex), (''policyDecision'', js_of_decision (kx_milestoneEvaluation kx) d),
          (''decisionRecord'', rec), (''settlementReceipt'', receipt)]"
    by (auto simp: kernelTrace_def mapR_Inr kernel_args_def)
  have "orElse (JStr (tr_at tr)) (JStr now) = JStr (tr_at tr)" by simp
  then obtain p m f where "buildSettlementDecisionRecord H (decision_args (kx_decisionId kx) ?args (JStr (tr_at tr)) p m f) = Inr rec"
    "buildSettlementReceipt H (receipt_args (kx_receiptId kx) ?args (JStr (tr_at tr)) rec) = Inr receipt"
    using refs_built[OF refs] unfolding kernel_args_fields by (auto simp: settlement_fields)
  then show ?thesis by (intro exI[of _ rec] exI[of _ receipt] exI[of _ ?args] exI[of _ p] exI[of _ m] exI[of _ f]) (simp add: t own_props_def)
qed

lemma normalizeId_trim: "normalizeId (JStr s) name lo hi = Inr i \<Longrightarrow> i = trim s \<and> good_id lo hi (trim s)"
  using normalizeId_Inr[of "JStr s" name lo hi i] by (auto simp: normalizeId_def res_simps Let_def)

lemma object_orElse: "isObjectLike v \<Longrightarrow> orElse v w = v"
  by (cases v) (simp_all add: isObjectLike_def orElse_def nullish_def)

definition trimmed_ids :: "settlement \<Rightarrow> bool" where
  "trimmed_ids s \<longleftrightarrow> trim (si_runId (rs_ids s)) = si_runId (rs_ids s) \<and> trim (si_settlementId (rs_ids s)) = si_settlementId (rs_ids s)"

text \<open>Stored in a settlement of the same run, the trace passes every check.\<close>

lemma trace_verified:
  assumes t: "kernelTrace H now kx tr s auto ex d = Inr trace" and hex: "\<And>x. is_sha256_hex (H x)" and ids: "trimmed_ids s"
    and "sm_resolvedAt (rs_money s) = None" and run: "tr_runId tr = si_runId (rs_ids s)"
    and s': "rs_ids s' = rs_ids s" "sc_trace (rs_decision s') = Some (own_props trace)"
  shows "kv_valid (verifySettlementKernelArtifacts H (js_of_settlement s') (JStr (tr_runId tr)))"
proof -
  from kernelTrace_built[OF t] obtain rec receipt args p m f where tr: "trace = JObj (own_props trace)" and args: "args = kernel_args kx tr s auto ex d"
    and parts: "getp trace ''decisionRecord'' = rec" "getp trace ''settlementReceipt'' = receipt"
    and d: "buildSettlementDecisionRecord H (decision_args (kx_decisionId kx) args (JStr (tr_at tr)) p m f) = Inr rec"
    and r: "buildSettlementReceipt H (receipt_args (kx_receiptId kx) args (JStr (tr_at tr)) rec) = Inr receipt" by blast
  note b = decision_built[OF d hex, unfolded decision_args_fields args kernel_args_fields settlement_fields]
    and c = receipt_built[OF r hex, unfolded receipt_args_fields args kernel_args_fields settlement_fields]
  have o: "isObjectLike rec" "isObjectLike receipt" using b(1) c(1) sealed_object by blast+
  have "getp (js_of_settlement s') ''decisionTrace'' = trace" using tr by (simp add: settlement_fields s'(2))
  moreover have "isObjectLike trace" by (subst tr) (simp add: isObjectLike_def)
  ultimately have ex: "extractSettlementKernelArtifacts (js_of_settlement s') = (rec, receipt)"
    using parts object_orElse[OF o(1)] object_orElse[OF o(2)] settlement_fields(6) by (simp add: extractSettlementKernelArtifacts_def)
  have "getp rec ''runId'' = JStr (si_runId (rs_ids s))" "getp rec ''settlementId'' = JStr (si_settlementId (rs_ids s))"
    "getp receipt ''runId'' = JStr (si_runId (rs_ids s))" "getp receipt ''settlementId'' = JStr (si_settlementId (rs_ids s))"
    using b(3,4) c(2,3) ids normalizeId_trim by (fastforce simp: trimmed_ids_def)+
  then have own: "belongs (js_of_settlement s') rec" "belongs (js_of_settlement s') receipt"
    by (simp_all add: belongs_def textOf_def settlementRunId_def settlement_fields s'(1))
  have "getp rec ''decidedAt'' = JStr (tr_at tr)" "getp receipt ''createdAt'' = JStr (tr_at tr)" using b(5) c(5) by auto
  moreover have "getp receipt ''settledAt'' = JStr (tr_at tr) \<or> getp receipt ''settledAt'' = JNull"
    using c(6) assms(4) by (auto simp: nullableText_def str_of_opt_def orElse_def nullish_def split: if_splits)
  ultimately have "chronological rec receipt" by (auto simp: chronological_def earlier_def timeOf_def Let_def split: option.splits)
  moreover have "version_ok rec" using b(6) by (auto simp: version_ok_def SETTLEMENT_POLICY_NORMALIZATION_VERSION_V1_def)
  ultimately show ?thesis
    using built_verifies[OF d r receipt_args_fields(4) hex ex] own by (simp add: settlementRunId_def settlement_fields s'(1) run)
qed

section \<open>The end of a run\<close>

lemma self_settlement: "collates lsort \<Longrightarrow> wf_settlement lsort s \<Longrightarrow> normalizeSettlementRecord lsort (js_of_settlement s) = Inr s"
  using settlement_js[OF _ wf_canonical_parts] by blast

text \<open>What a decision stores: the identifiers of the settlement and the trace.\<close>

lemma reviewed_trace:
  assumes c: "collates lsort" and s: "wf_settlement lsort s" and "reviewSettlement lsort now sk tr s ex d = Inr (ops, s')"
    and obj: "\<And>trace. sk_decisionTrace sk False ex d = Inr trace \<Longrightarrow> trace = JObj (own_props trace)"
  shows "\<exists>trace. sk_decisionTrace sk False ex d = Inr trace \<and> rs_ids s' = rs_ids s \<and> sc_trace (rs_decision s') = Some (own_props trace)"
proof -
  from assms(3) obtain trace u where t: "sk_decisionTrace sk False ex d = Inr trace"
    and u: "updateAgentRunSettlementDecision lsort now (manual_args tr s d trace) = Inr u"
    and s': "s' = u\<lparr>rs_dispute := (rs_dispute u)\<lparr>sd_windowDays := linkedDisputeWindowDays tr s\<rparr>,
                rs_revision := add_int (rs_revision u) 1, rs_updatedAt := tr_at tr\<rparr>"
    by (auto simp: reviewSettlement_def andThen_Inr_iff Let_def)
  have arg: "getp (manual_args tr s d trace) ''settlement'' = js_of_settlement s" "getp (manual_args tr s d trace) ''decisionTrace'' = trace"
    by (simp_all add: manual_args_def)
  have ot: "optTrace trace name = Inr (Some (own_props trace))" for name
    by (subst obj[OF t]) (simp add: optTrace_def own_props_def)
  from u obtain status mode h reason t' where
    n: "normalizeSettlementRecord lsort (js_of_settlement (s
         \<lparr>rs_decision := \<lparr>sc_status = status, sc_mode = mode, sc_policyHash = h, sc_reason = reason, sc_trace = Some (own_props trace), sc_updatedAt = Some t'\<rparr>,
          rs_revision := add_int (rs_revision s) 1, rs_updatedAt := t'\<rparr>)) = Inr u" (is "normalizeSettlementRecord lsort (js_of_settlement ?u) = _")
    unfolding updateAgentRunSettlementDecision_def Let_def arg self_settlement[OF c s] ot by (auto simp: andThen_Inr_iff orTrace_def)
  have "canonical_parts lsort ?u" using wf_canonical_parts[OF s] by (simp add: canonical_parts_def)
  then have "u = ?u" using settlement_js[OF c] n by blast
  then show ?thesis using t by (simp add: s')
qed

lemma resolved_trace:
  assumes c: "collates lsort" and s: "wf_settlement lsort s" and r: "resolveAgentRunSettlement lsort now (resolve_args tr s d trace) = Inr s'"
    and obj: "trace = JObj (own_props trace)"
  shows "rs_ids s' = rs_ids s \<and> sc_trace (rs_decision s') = Some (own_props trace)"
proof -
  have arg: "getp (resolve_args tr s d trace) ''settlement'' = js_of_settlement s" "getp (resolve_args tr s d trace) ''decisionTrace'' = trace"
    by (simp_all add: resolve_args_def)
  have ot: "optTrace trace name = Inr (Some (own_props trace))" for name
    by (subst obj) (simp add: optTrace_def own_props_def)
  from r obtain status runStatus t eventId rel ref rate days endsAt decision where
    dec: "decisionArgs (resolve_args tr s d trace) ''auto_resolved'' ''automatic'' JNull = Inr decision"
    and n: "normalizeSettlementRecord lsort (js_of_settlement (s
         \<lparr>rs_money := (rs_money s)\<lparr>sm_status := status, sm_runStatus := Some runStatus,
            sm_releasedAmountCents := rel, sm_refundedAmountCents := ref, sm_releaseRatePct := Some rate,
            sm_resolvedAt := Some t, sm_resolutionEventId := eventId\<rparr>,
          rs_dispute := (clear_dispute (rs_dispute s))\<lparr>sd_windowDays := days, sd_windowEndsAt := endsAt\<rparr>,
          rs_decision := decision\<lparr>sc_updatedAt := Some t\<rparr>,
          rs_revision := add_int (rs_revision s) 1, rs_updatedAt := t\<rparr>)) = Inr s'" (is "normalizeSettlementRecord lsort (js_of_settlement ?u) = _")
    unfolding resolveAgentRunSettlement_def arg self_settlement[OF c s] by (auto simp: andThen_Inr_iff)
  have "canonical_parts lsort ?u" using wf_canonical_parts[OF s] by (simp add: canonical_parts_def clear_dispute_def)
  then have "s' = ?u" using settlement_js[OF c] n by blast
  moreover have "sc_trace decision = Some (own_props trace)" using dec unfolding decisionArgs_def arg ot by (auto simp: andThen_Inr_iff)
  ultimately show ?thesis by simp
qed

lemma kernelTrace_object: "kernelTrace H now kx tr s auto ex d = Inr trace \<Longrightarrow> trace = JObj (own_props trace)"
  using kernelTrace_built by blast

lemma run_artifacts:
  assumes "collates lsort" and "wf_settlement lsort s" and hex: "\<And>x. is_sha256_hex (H x)" and ids: "trimmed_ids s" "tr_runId tr = si_runId (rs_ids s)"
    and locked: "sm_resolvedAt (rs_money s) = None"
  shows "reviewSettlement lsort now (run_kernel H now kx tr s) tr s ex d = Inr (ops, s') \<Longrightarrow>
      kv_valid (verifySettlementKernelArtifacts H (js_of_settlement s') (JStr (tr_runId tr)))"
    and "kernelTrace H now kx tr s True ex d = Inr trace \<Longrightarrow> resolveAgentRunSettlement lsort now (resolve_args tr s d trace) = Inr s' \<Longrightarrow>
      kv_valid (verifySettlementKernelArtifacts H (js_of_settlement s') (JStr (tr_runId tr)))"
proof -
  assume "reviewSettlement lsort now (run_kernel H now kx tr s) tr s ex d = Inr (ops, s')"
  from reviewed_trace[OF assms(1,2) this] kernelTrace_object obtain trace where t: "kernelTrace H now kx tr s False ex d = Inr trace"
    and s': "rs_ids s' = rs_ids s" "sc_trace (rs_decision s') = Some (own_props trace)" by (auto simp: run_kernel_def)
  from trace_verified[OF t hex ids(1) locked ids(2) s']
  show "kv_valid (verifySettlementKernelArtifacts H (js_of_settlement s') (JStr (tr_runId tr)))" .
next
  assume t: "kernelTrace H now kx tr s True ex d = Inr trace" and r: "resolveAgentRunSettlement lsort now (resolve_args tr s d trace) = Inr s'"
  from resolved_trace[OF assms(1,2) r kernelTrace_object[OF t]] have s': "rs_ids s' = rs_ids s" "sc_trace (rs_decision s') = Some (own_props trace)" by blast+
  from trace_verified[OF t hex ids(1) locked ids(2) s']
  show "kv_valid (verifySettlementKernelArtifacts H (js_of_settlement s') (JStr (tr_runId tr)))" .
qed

lemma andThen_same: "(\<And>x. m = Inr x \<Longrightarrow> f x = g x) \<Longrightarrow> andThen m f = andThen m g"
  by (cases m) auto

lemma final_check:
  assumes "collates lsort" and "wf_settlement lsort s" and "\<And>x. is_sha256_hex (H x)" and "trimmed_ids s" "tr_runId tr = si_runId (rs_ids s)"
    and "sm_resolvedAt (rs_money s) = None"
  shows "autoSettlement lsort now (run_kernel H now kx tr s) tr s st w ex d
    = autoSettlement lsort now ((run_kernel H now kx tr s)\<lparr>sk_bindings := \<lambda>_. Inr ()\<rparr>) tr s st w ex d"
proof -
  let ?K = "run_kernel H now kx tr s"
  have "andThen (sk_bindings ?K u) f = f ()" if t: "sk_decisionTrace ?K True ex d = Inr trace"
    and u: "resolveAgentRunSettlement lsort now (resolve_args tr s d trace) = Inr u" for u trace and f :: "unit \<Rightarrow> (money_op list \<times> settlement) res"
  proof -
    have "kernelTrace H now kx tr s True ex d = Inr trace" using t by (simp add: run_kernel_def)
    from run_artifacts(2)[OF assms this u] show ?thesis by (simp add: run_kernel_def assertSettlementKernelBindingsForResolution_def)
  qed
  then show ?thesis by (auto simp: autoSettlement_def intro!: andThen_same)
qed

lemma settled_ids:
  assumes "settleTerminalRun H queryOf lsort now (run_kernel H now kx tr s) tr s st = Inr (ops, s')"
    and "sm_status (rs_money s) = LOCKED" and "getp (tr_run tr) ''status'' \<in> {JStr ''completed'', JStr ''failed''}"
  shows "\<exists>auto ex d trace. kernelTrace H now kx tr s auto ex d = Inr trace"
proof -
  have "\<not> (sm_status (rs_money s) \<noteq> LOCKED \<or> getp (tr_run tr) ''status'' \<notin> {JStr ''completed'', JStr ''failed''})" using assms(2,3) by blast
  then obtain p ex d where r: "\<not> pd_shouldAutoResolve d \<Longrightarrow> reviewSettlement lsort now (run_kernel H now kx tr s) tr s ex d = Inr (ops, s')"
    and a: "pd_shouldAutoResolve d \<Longrightarrow> autoSettlement lsort now (run_kernel H now kx tr s) tr s st p ex d = Inr (ops, s')"
    using settled_run[OF assms(1)] by blast
  have k: "sk_decisionTrace (run_kernel H now kx tr s) = kernelTrace H now kx tr s" by (simp add: run_kernel_def)
  show ?thesis
  proof (cases "pd_shouldAutoResolve d")
    case True
    from a[OF this] show ?thesis by (auto simp: autoSettlement_def k andThen_Inr_iff)
  next
    case False
    from r[OF this] show ?thesis by (auto simp: reviewSettlement_def k andThen_Inr_iff)
  qed
qed

lemma terminal_artifacts:
  assumes "collates lsort" and "wf_settlement lsort s" and "\<And>x. is_sha256_hex (H x)" and "trimmed_ids s" and "tr_runId tr = si_runId (rs_ids s)"
    and "sm_resolvedAt (rs_money s) = None"
  shows "settleTerminalRun H queryOf lsort now (run_kernel H now kx tr s) tr s st
      = settleTerminalRun H queryOf lsort now ((run_kernel H now kx tr s)\<lparr>sk_bindings := \<lambda>_. Inr ()\<rparr>) tr s st"
    and "settleTerminalRun H queryOf lsort now (run_kernel H now kx tr s) tr s st = Inr (ops, s') \<Longrightarrow> ops \<noteq> [] \<Longrightarrow>
      kv_valid (verifySettlementKernelArtifacts H (js_of_settlement s') (JStr (tr_runId tr)))"
proof -
  let ?K = "run_kernel H now kx tr s"
  have "reviewSettlement lsort now ?K tr s ex d = reviewSettlement lsort now (?K\<lparr>sk_bindings := \<lambda>_. Inr ()\<rparr>) tr s ex d" for ex d
    by (simp add: reviewSettlement_def)
  then show "settleTerminalRun H queryOf lsort now ?K tr s st = settleTerminalRun H queryOf lsort now (?K\<lparr>sk_bindings := \<lambda>_. Inr ()\<rparr>) tr s st"
    using final_check[OF assms] by (auto simp: settleTerminalRun_def intro!: andThen_same)
  assume r: "settleTerminalRun H queryOf lsort now ?K tr s st = Inr (ops, s')" and "ops \<noteq> []"
  have "\<not> (sm_status (rs_money s) \<noteq> LOCKED \<or> getp (tr_run tr) ''status'' \<notin> {JStr ''completed'', JStr ''failed''})"
  proof
    assume "sm_status (rs_money s) \<noteq> LOCKED \<or> getp (tr_run tr) ''status'' \<notin> {JStr ''completed'', JStr ''failed''}"
    then have "settleTerminalRun H queryOf lsort now ?K tr s st = Inr ([], s)" by (simp add: settleTerminalRun_def)
    with r \<open>ops \<noteq> []\<close> show False by simp
  qed
  then obtain p ex d where rev: "\<not> pd_shouldAutoResolve d \<Longrightarrow> reviewSettlement lsort now ?K tr s ex d = Inr (ops, s')"
    and auto: "pd_shouldAutoResolve d \<Longrightarrow> autoSettlement lsort now ?K tr s st p ex d = Inr (ops, s')"
    using settled_run[OF r] by blast
  show "kv_valid (verifySettlementKernelArtifacts H (js_of_settlement s') (JStr (tr_runId tr)))"
  proof (cases "pd_shouldAutoResolve d")
    case True
    from auto[OF True] obtain trace where "kernelTrace H now kx tr s True ex d = Inr trace" "resolveAgentRunSettlement lsort now (resolve_args tr s d trace) = Inr s'"
      by (auto simp: autoSettlement_def andThen_Inr_iff run_kernel_def)
    then show ?thesis by (rule run_artifacts(2)[OF assms])
  next
    case False
    from rev[OF False] show ?thesis by (rule run_artifacts(1)[OF assms])
  qed
qed

text \<open>C3: The artifacts a run is settled with verify. Whenever the end of a run decides its settlement, resolving it or leaving it to a
  review, the settlement it stores carries a decision record and a receipt that pass every check of the kernel, for every policy,
  agreement, verification method and run whose ids have no surrounding white space; and the check the code makes at the end never
  refuses: without it the outcome is the same.\<close>

theorem terminal_artifacts_verify:
  assumes "collates lsort" and "wf_settlement lsort s" and "\<And>x. is_sha256_hex (H x)" and "trimmed_ids s" and "tr_runId tr = si_runId (rs_ids s)"
    and "sm_resolvedAt (rs_money s) = None"
  shows "settleTerminalRun H queryOf lsort now (run_kernel H now kx tr s) tr s st
      = settleTerminalRun H queryOf lsort now ((run_kernel H now kx tr s)\<lparr>sk_bindings := \<lambda>_. Inr ()\<rparr>) tr s st
    \<and> (\<forall>ops s'. settleTerminalRun H queryOf lsort now (run_kernel H now kx tr s) tr s st = Inr (ops, s') \<longrightarrow> ops \<noteq> [] \<longrightarrow>
      kv_valid (verifySettlementKernelArtifacts H (js_of_settlement s') (JStr (tr_runId tr))))"
  using terminal_artifacts[where H = H, OF assms] by blast

section \<open>Runs the kernel cannot settle\<close>

lemma objOf_all: "objOf fs = Inr obj \<Longrightarrow> (k, r) \<in> set fs \<Longrightarrow> \<exists>v. r = Inr v"
  by (auto simp: objOf_Inr list_all2_conv_all_nth in_set_conv_nth)

lemma decision_ids:
  assumes "buildSettlementDecisionRecord H args = Inr d"
  shows "\<exists>i. normalizeId (getp args ''tenantId'') ''tenantId'' 1 128 = Inr i" and "\<exists>i. normalizeId (getp args ''runId'') ''runId'' 1 128 = Inr i"
    and "\<exists>i. normalizeId (getp args ''settlementId'') ''settlementId'' 1 200 = Inr i"
proof -
  from assms obtain v t obj where o: "objOf (decisionFields v args t) = Inr obj" by (auto simp: buildSettlementDecisionRecord_def Let_def andThen_Inr_iff)
  have "\<exists>i. normalizeId (getp args k) k 1 hi = Inr i" if "idField args hi k \<in> set (decisionFields v args t)" for k hi
    using objOf_all[OF o that[unfolded idField_def]] by (auto simp: mapR_Inr)
  then show "\<exists>i. normalizeId (getp args ''tenantId'') ''tenantId'' 1 128 = Inr i" "\<exists>i. normalizeId (getp args ''runId'') ''runId'' 1 128 = Inr i"
    "\<exists>i. normalizeId (getp args ''settlementId'') ''settlementId'' 1 200 = Inr i"
    by (simp_all add: decisionFields_def)
qed

text \<open>C32: A run may be created under any id that is not blank, with a hold on the payer's escrow, but the artifacts its settlement must
  carry admit only ids of letters, digits, colons, underscores and hyphens, of at most 128 characters. The event that ends a run with
  another id (or with a tenant id or a settlement id the kernel does not admit) is always refused, whatever its result, policy and
  agreement are: the settlement stays locked.\<close>

theorem unusual_run_id_stuck:
  assumes "sm_status (rs_money s) = LOCKED" and "getp (tr_run tr) ''status'' \<in> {JStr ''completed'', JStr ''failed''}"
    and "\<not> (good_id 1 128 (trim (si_runId (rs_ids s))) \<and> good_id 1 200 (trim (si_settlementId (rs_ids s))) \<and> good_id 1 128 (trim (si_tenantId (rs_ids s))))"
  shows "\<exists>e. settleTerminalRun H queryOf lsort now (run_kernel H now kx tr s) tr s st = Inl e"
proof (rule ccontr)
  assume "\<nexists>e. settleTerminalRun H queryOf lsort now (run_kernel H now kx tr s) tr s st = Inl e"
  then obtain ops s' where "settleTerminalRun H queryOf lsort now (run_kernel H now kx tr s) tr s st = Inr (ops, s')"
    by (cases "settleTerminalRun H queryOf lsort now (run_kernel H now kx tr s) tr s st") auto
  from settled_ids[OF this assms(1,2)] obtain auto ex d trace where t: "kernelTrace H now kx tr s auto ex d = Inr trace" by blast
  from kernelTrace_built[OF t] obtain rec args p m f where args: "args = kernel_args kx tr s auto ex d"
    and b: "buildSettlementDecisionRecord H (decision_args (kx_decisionId kx) args (JStr (tr_at tr)) p m f) = Inr rec" by blast
  show False using decision_ids[OF b] assms(3) normalizeId_trim unfolding args decision_args_fields kernel_args_fields settlement_fields by blast
qed

section \<open>A run with an unusual id\<close>

lemma dotted_opens: "\<not> isl (openRunSettlement (\<lambda>xs. xs) noon ''t'' ''run.1'' ''a'' sample_request noon rich_store)"
  by code_simp

definition dotted_run :: "string \<Rightarrow> terminal_run" where
  "dotted_run status = (sample_run status)\<lparr>tr_runId := ''run.1''\<rparr>"

definition sample_context :: kernel_context where
  "sample_context = \<lparr>kx_decisionId = ''setl_1'', kx_receiptId = ''setl_2'', kx_verificationMethodHash = JNull, kx_milestoneEvaluation = JUndef\<rparr>"

theorem unusual_run_id_stuck_witness:
  "\<exists>ops s. openRunSettlement (\<lambda>xs. xs) noon ''t'' ''run.1'' ''a'' sample_request noon rich_store = Inr (ops, s) \<and>
     (\<exists>e. settleTerminalRun const_hash (\<lambda>_. None) (\<lambda>xs. xs) noon (run_kernel const_hash noon sample_context (dotted_run ''completed'') s)
        (dotted_run ''completed'') s rich_store = Inl e) \<and>
     (\<exists>e. settleTerminalRun const_hash (\<lambda>_. None) (\<lambda>xs. xs) noon (run_kernel const_hash noon sample_context (dotted_run ''failed'') s)
        (dotted_run ''failed'') s rich_store = Inl e)"
proof -
  obtain ops s where o: "openRunSettlement (\<lambda>xs. xs) noon ''t'' ''run.1'' ''a'' sample_request noon rich_store = Inr (ops, s)"
    using not_isl_projr[OF dotted_opens] by (metis surj_pair)
  obtain w where "createAgentRunSettlement (\<lambda>xs. xs) noon (create_args ''t'' ''run.1'' ''a'' sample_request noon) = Inr s"
    using opened_wallet[OF rich_wf o] by blast
  then have f: "si_runId (rs_ids s) = ''run.1''" "sm_status (rs_money s) = LOCKED" using created_fields[OF collates_id] by blast+
  have bad: "\<not> (good_id 1 128 (trim ''run.1'') \<and> P)" for P by (simp add: good_id_def is_id_token_def trim_def is_ws_def is_upper_def is_lower_def is_digit_def)
  have st: "getp (tr_run (dotted_run ''completed'')) ''status'' = JStr ''completed''" "getp (tr_run (dotted_run ''failed'')) ''status'' = JStr ''failed''"
    by (simp_all add: dotted_run_def sample_run_parts)
  show ?thesis
    using o unusual_run_id_stuck[OF f(2), of "dotted_run ''completed''"] unusual_run_id_stuck[OF f(2), of "dotted_run ''failed''"] bad st
    unfolding f(1) by auto
qed

section \<open>A run that is settled\<close>

lemma sample_decision_const:
  "terminalDecision const_hash (\<lambda>_. None) (sample_run ''completed'') 700 = Inr (sample_decision ''completed'')"
  unfolding sample_decision_def by code_simp

lemma default_hashes:
  "policyHashOf const_hash JNull = Inr (sample_hash (CHR ''0''))" "methodHashOf const_hash JNull = Inr (sample_hash (CHR ''0''))"
  by (code_simp, code_simp)

definition sample_kernel_args :: jsval where
  "sample_kernel_args = kernel_args sample_context (sample_run ''completed'') (held_settlement ''a'') True
     (fst (sample_decision ''completed'')) (snd (sample_decision ''completed''))"

definition sample_decision_input :: jsval where
  "sample_decision_input = decision_args ''setl_1'' sample_kernel_args (JStr noon) (sample_hash (CHR ''0'')) (sample_hash (CHR ''0'')) JUndef"

definition settled_decision_props :: props where
  "settled_decision_props = (case objOf (decisionFields SETTLEMENT_DECISION_RECORD_SCHEMA_VERSION_V2 sample_decision_input noon) of Inr v \<Rightarrow> own_props v | Inl _ \<Rightarrow> [])"

lemma settled_decision_fields:
  "objOf (decisionFields SETTLEMENT_DECISION_RECORD_SCHEMA_VERSION_V2 sample_decision_input noon) = Inr (JObj settled_decision_props)"
  "literal_doc (JObj settled_decision_props)" "neg_zero_free (JObj settled_decision_props)"
  by (code_simp, code_simp, code_simp)

lemma seal_built:
  assumes "objOf fs = Inr (JObj ps)" and "good_fields field fs" and "literal_doc (JObj ps)" and "neg_zero_free (JObj ps)"
  shows "seal const_hash field (JObj ps) = Inr (JObj (ps @ [(field, JStr (sample_hash (CHR ''0'')))]))"
proof -
  have "fst ` set ps = set (map fst fs)" using objOf_keys[OF assms(1)] by (metis list.set_map)
  then show ?thesis using seal_literal[OF assms(3,4), of field const_hash] assms(2) by (auto simp: good_fields_def const_hash_def sample_hash_def)
qed

lemma noon_iso: "assertIsoDate (JStr noon) name = Inr noon" "is_iso noon"
proof -
  show "is_iso noon" by code_simp
  then show "assertIsoDate (JStr noon) name = Inr noon" by simp
qed

definition settled_record :: jsval where
  "settled_record = JObj (settled_decision_props @ [(''decisionHash'', JStr (sample_hash (CHR ''0'')))])"

lemma settled_record_built: "buildSettlementDecisionRecord const_hash sample_decision_input = Inr settled_record"
proof -
  have "getp sample_decision_input ''decidedAt'' = JStr noon" "getp sample_decision_input ''schemaVersion'' = JStr SETTLEMENT_DECISION_RECORD_SCHEMA_VERSION_V2"
    "trim SETTLEMENT_DECISION_RECORD_SCHEMA_VERSION_V2 = SETTLEMENT_DECISION_RECORD_SCHEMA_VERSION_V2"
    by code_simp+
  then show ?thesis using seal_built[OF settled_decision_fields(1) decision_good settled_decision_fields(2,3)] settled_decision_fields(1) noon_iso
    by (simp add: buildSettlementDecisionRecord_def dflt_def settled_record_def)
qed

text \<open>A receipt depends on its decision record through the reference alone.\<close>

lemma receipt_fields_ref:
  assumes "decisionRefFields d = decisionRefFields d'"
  shows "receiptFields (receipt_args i args t d) u = receiptFields (receipt_args i args t d') u"
proof -
  have g: "getp (receipt_args i args t d) k = getp (receipt_args i args t d') k" if "k \<noteq> ''decisionRecord''" for k
    using that by (simp add: receipt_args_def Let_def)
  have "amountField (receipt_args i args t d) lo k = amountField (receipt_args i args t d') lo k" if "k \<noteq> ''decisionRecord''" for lo k
    unfolding amountField_def g[OF that] ..
  then show ?thesis using assms g by (simp add: receiptFields_def idField_def textField_def bindingsField_def finalityState_def receipt_args_fields(4))
qed

definition sample_ref :: jsval where
  "sample_ref = JObj [(''decisionId'', JStr ''dec_setl_1''), (''decisionHash'', JStr (sample_hash (CHR ''0'')))]"

lemma settled_ref: "decisionRefFields settled_record = decisionRefFields sample_ref"
proof -
  have "getp sample_decision_input ''decisionId'' = JStr ''dec_setl_1''" "normalizeId (JStr ''dec_setl_1'') ''decisionId'' 1 200 = Inr ''dec_setl_1''" by code_simp+
  then have "getp settled_record ''decisionId'' = JStr ''dec_setl_1''" using decision_built(2)[OF settled_record_built const_hash_hex] by simp
  moreover have "''decisionHash'' \<notin> fst ` set settled_decision_props"
    using objOf_keys[OF settled_decision_fields(1)] decision_good[of SETTLEMENT_DECISION_RECORD_SCHEMA_VERSION_V2 sample_decision_input noon]
    unfolding good_fields_def by (metis list.set_map)
  ultimately show ?thesis by (simp add: decisionRefFields_def sample_ref_def) (simp add: settled_record_def getp_appended)
qed

definition settled_receipt_props :: props where
  "settled_receipt_props = (case objOf (receiptFields (receipt_args ''setl_2'' sample_kernel_args (JStr noon) sample_ref) noon) of
     Inr v \<Rightarrow> own_props v | Inl _ \<Rightarrow> [])"

definition settled_receipt :: jsval where
  "settled_receipt = JObj (settled_receipt_props @ [(''receiptHash'', JStr (sample_hash (CHR ''0'')))])"

lemma settled_receipt_fields:
  "objOf (receiptFields (receipt_args ''setl_2'' sample_kernel_args (JStr noon) sample_ref) noon) = Inr (JObj settled_receipt_props)"
  "literal_doc (JObj settled_receipt_props)" "neg_zero_free (JObj settled_receipt_props)"
  by (code_simp, code_simp, code_simp)

lemma settled_receipt_built: "buildSettlementReceipt const_hash (receipt_args ''setl_2'' sample_kernel_args (JStr noon) settled_record) = Inr settled_receipt"
proof -
  have w: "getp (receipt_args ''setl_2'' sample_kernel_args (JStr noon) settled_record) ''settledAt'' = JStr noon"
    unfolding receipt_args_fields by (simp add: sample_kernel_args_def kernel_args_fields sample_run_parts)
  have f: "objOf (receiptFields (receipt_args ''setl_2'' sample_kernel_args (JStr noon) settled_record) noon) = Inr (JObj settled_receipt_props)"
    using settled_receipt_fields(1) receipt_fields_ref[OF settled_ref] by simp
  show ?thesis
    using seal_built[OF f receipt_good settled_receipt_fields(2,3)] f noon_iso w
    by (simp add: buildSettlementReceipt_def receipt_args_fields settled_receipt_def settled_record_def nullish_def assertPlainObject_def isObjectLike_def)
qed

lemma sample_refs: "buildSettlementKernelRefs const_hash ''setl_1'' ''setl_2'' noon sample_kernel_args = Inr (settled_record, settled_receipt)"
proof -
  have args: "getp sample_kernel_args ''settlement'' = js_of_settlement (held_settlement ''a'')" "getp sample_kernel_args ''createdAt'' = JStr noon"
    unfolding sample_kernel_args_def kernel_args_fields by (simp_all add: sample_run_parts)
  have nulls: "nullArg sample_kernel_args ''policyHash'' = JNull" "nullArg sample_kernel_args ''verificationMethodHash'' = JNull"
    "nullArg sample_kernel_args ''profileHash'' = JNull" "nullArg sample_kernel_args ''bindings'' = JNull"
    "getp (js_of_settlement (held_settlement ''a'')) ''decisionTrace'' = JNull"
    by code_simp+
  have hashes: "effectiveHash (policyHashOf const_hash) JNull (getp JNull ''policy'') = Inr (sample_hash (CHR ''0''))"
    "effectiveHash (methodHashOf const_hash) JNull (getp JNull ''verificationMethod'') = Inr (sample_hash (CHR ''0''))"
    by (simp_all add: effectiveHash_def default_hashes hexText_def is_sha256_hex_def isObjectLike_def)
  have p: "effectiveProfileHash JNull JNull JNull = JUndef" by code_simp
  show ?thesis
    unfolding buildSettlementKernelRefs_def args nulls
    using settled_record_built[unfolded sample_decision_input_def] settled_receipt_built
    by (simp del: getp.simps add: hashes p settlement_fields(5) Let_def)
qed

definition sample_trace :: props where
  "sample_trace = own_props (projr (kernelTrace const_hash noon sample_context (sample_run ''completed'') (held_settlement ''a'') True
     (fst (sample_decision ''completed'')) (snd (sample_decision ''completed''))))"

lemma sample_trace_built:
  "kernelTrace const_hash noon sample_context (sample_run ''completed'') (held_settlement ''a'') True (fst (sample_decision ''completed'')) (snd (sample_decision ''completed''))
    = Inr (JObj sample_trace)"
proof -
  have "kx_decisionId sample_context = ''setl_1''" "kx_receiptId sample_context = ''setl_2''" by (simp_all add: sample_context_def)
  then show ?thesis using sample_refs by (simp add: kernelTrace_def sample_kernel_args_def kernel_args_def sample_trace_def own_props_def)
qed

lemma sample_run_resolved:
  "resolveAgentRunSettlement (\<lambda>xs. xs) noon (resolve_args (sample_run ''completed'') (held_settlement ''a'') (snd (sample_decision ''completed'')) (JObj ps))
    = Inr (resolved_sample ''completed'' RELEASED 280 40 (Some ps))"
proof -
  have "resolve_args (sample_run ''completed'') (held_settlement ''a'') (snd (sample_decision ''completed'')) (JObj ps)
    = sample_resolution ''completed'' ''released'' 280 40 (Some ps)"
    by (simp add: resolve_args_def sample_resolution_def sample_decides sample_decision_parts sample_run_parts orElse_def nullish_def)
  moreover have "wf_settlement (\<lambda>xs. xs) (resolved_sample ''completed'' RELEASED 280 40 (Some ps))" by code_simp
  moreover have "resolutionStatusArg (JStr ''released'') = Inr RELEASED" "partitionAmounts RELEASED 700 (JInt 280) (JInt (700 - 280)) = Inr (280, 700 - 280)"
    "releaseRate (JNum (js_Number (JInt 40))) 280 700 = Inr 40" "trim ''completed'' \<noteq> []" by code_simp+
  ultimately show ?thesis by (simp add: sample_resolve)
qed

lemma sample_terminal:
  defines "K \<equiv> (run_kernel const_hash noon sample_context (sample_run ''completed'') (held_settlement ''a''))\<lparr>sk_bindings := \<lambda>_. Inr ()\<rparr>"
  shows "settleTerminalRun const_hash (\<lambda>_. None) (\<lambda>xs. xs) noon K (sample_run ''completed'') (held_settlement ''a'') (held_store ''a'')
    = Inr ([AGENT_WALLET_UPSERT (new_wallet 280 1), AGENT_WALLET_UPSERT (refunded_wallet paid_wallet 420),
        AGENT_RUN_SETTLEMENT_UPSERT (resolved_sample ''completed'' RELEASED 280 40 (Some sample_trace))],
      resolved_sample ''completed'' RELEASED 280 40 (Some sample_trace))"
proof -
  have "\<not> isl (assertSettlementKernelBindingsForResolution const_hash (js_of_settlement (held_settlement ''a'')) (JStr ''r'') ''run_terminal_settlement.preflight'' True)"
    by code_simp
  then obtain v where "assertSettlementKernelBindingsForResolution const_hash (js_of_settlement (held_settlement ''a'')) (JStr ''r'') ''run_terminal_settlement.preflight'' True = Inr v"
    using not_isl_projr by blast
  then have k: "sk_preflight K (held_settlement ''a'') = Inr ()" "sk_bindings K u = Inr ()"
    "sk_decisionTrace K = kernelTrace const_hash noon sample_context (sample_run ''completed'') (held_settlement ''a'')" for u
    by (simp_all add: K_def run_kernel_def sample_run_parts)
  have h: "sm_status (rs_money (held_settlement ''a'')) = LOCKED" "si_payerAgentId (rs_ids (held_settlement ''a'')) = ''b''"
    "sm_currency (rs_money (held_settlement ''a'')) = ''USD''" "sm_amountCents (rs_money (held_settlement ''a'')) = 700"
    by (simp_all add: held_settlement_def)
  obtain ex d where d: "sample_decision ''completed'' = (ex, d)" by (cases "sample_decision ''completed''")
  note parts = sample_decides(3,5,6)[unfolded d snd_conv] sample_trace_built[unfolded d fst_conv snd_conv] sample_run_resolved[unfolded d snd_conv]
  show ?thesis
    unfolding settleTerminalRun_def sample_run_parts h k autoSettlement_def
    by (simp add: sample_wallet sample_decision_const d parts sample_payment k)
qed

theorem terminal_artifacts_verify_witness:
  "\<exists>ops s'. settleTerminalRun const_hash (\<lambda>_. None) (\<lambda>xs. xs) noon (run_kernel const_hash noon sample_context (sample_run ''completed'') (held_settlement ''a''))
      (sample_run ''completed'') (held_settlement ''a'') (held_store ''a'') = Inr (ops, s') \<and> sm_status (rs_money s') = RELEASED \<and>
    kv_valid (verifySettlementKernelArtifacts const_hash (js_of_settlement s') (JStr ''r''))"
proof -
  have "trimmed_ids (held_settlement ''a'')" by code_simp
  moreover have "tr_runId (sample_run ''completed'') = si_runId (rs_ids (held_settlement ''a''))" "sm_resolvedAt (rs_money (held_settlement ''a'')) = None"
    by (simp_all add: sample_run_parts held_settlement_def)
  ultimately show ?thesis
    using terminal_artifacts_verify[where H = const_hash, OF collates_id held_settlement_wf(1) const_hash_hex, of "sample_run ''completed''" "\<lambda>_. None" noon sample_context "held_store ''a''"]
      sample_terminal
    by (auto simp: sample_run_parts resolved_sample_def)
qed

end
