(* ===== verification/Spec2Isabelle.thy ===== *)
theory Spec2Isabelle
  imports EventChain MerkleTree EscrowLedger AgentWallets RunSettlement JobLifecycle LedgerPostings SettlementPolicy
    DelegationGraph SettlementAdjustment NormalForm SettlementKernel RailStore RunEscrow RunKernel
begin

text \<open>
  Verification of the core of the settlement system in \<^verbatim>\<open>src/src/core\<close>, and of the handlers of \<^verbatim>\<open>src/src/api/app.js\<close> that
  move the money of an agent run.

  \<^bold>\<open>The program.\<close> Agents and customers pay for work through escrow. A job or an agent run is an append-only log of
  hash-chained events; a state machine folds the log into a job document; events that concern money stand for
  journal entries of a double-entry ledger. The price of a run is locked in a wallet, decided by a policy, and
  released or refunded; a decision may be disputed, and a holdback adjusted later. Agreements are delegated to other
  agents, and settling or refunding one cascades over the delegations. Everything that is signed or hashed is hashed
  as canonical JSON. Money leaves the system through money rails. The modules modelled here are the ones with that logic,
  and the parts of the service and of its in-memory store that compose them when a run is created and when it ends;
  the rest of the HTTP service, the database and the clients are not.

  \<^bold>\<open>Which theory models what.\<close>
  \<^item> \<open>Prelude\<close>: exceptions and results (\<open>'a res\<close>, \<open>andThen\<close>, \<open>throwIf\<close>, \<open>mapRes\<close>, \<open>foldRes\<close>), shared list facts.
  \<^item> \<open>JsNumber\<close>, \<open>JsValue\<close>, \<open>JsDate\<close>, \<open>JsAssert\<close>, \<open>JsOps\<close>: the JavaScript the modules use. Numbers are doubles
    (\<open>jsnum\<close>, rationals rounded to nearest even by \<open>fl\<close>), \<open>jsval\<close> is a dynamic value, an object is the list of its own
    properties in enumeration order, strings are lists of code units below 256, \<^verbatim>\<open>Date.parse\<close> and \<^verbatim>\<open>toISOString\<close> are
    written out; \<open>JsAssert\<close> and \<open>JsOps\<close> hold the argument checks that the modules repeat.
  \<^item> \<open>CanonicalJson\<close>: \<^verbatim>\<open>canonical-json.js\<close>. The canonical text determines the document up to key order, except for
    the key \<^verbatim>\<open>__proto__\<close>.
  \<^item> \<open>EventChain\<close>: \<^verbatim>\<open>event-chain.js\<close>. Appending keeps a log verified, and its head hash determines the log.
  \<^item> \<open>MerkleTree\<close>: \<^verbatim>\<open>merkle-tree.js\<close>. Inclusion proofs are complete and sound up to collisions.
  \<^item> \<open>Ledger\<close>: \<^verbatim>\<open>ledger.js\<close>, with the locale \<open>double_entry\<close> for what a ledger promises its clients.
  \<^item> \<open>EscrowLedger\<close>: \<^verbatim>\<open>escrow-ledger.js\<close>, a client of \<open>Ledger\<close>: the state is the ledger and the map of performed
    operations. Money is conserved, accounts stay non-negative, replays change nothing, tenants are isolated.
  \<^item> \<open>AgentWallets\<close> and \<open>RunSettlement\<close>: the two halves of \<^verbatim>\<open>agent-wallets.js\<close>: wallets, and the life of a settlement
    with its disputes (\<open>reachable\<close> is a step relation over the operations).
  \<^item> \<open>JobLifecycle\<close>: \<^verbatim>\<open>job-state-machine.js\<close> and \<^verbatim>\<open>event-policy.js\<close>. The documents refine the transition table; what
    the table implies about order, settlement and finality is proved on event streams.
  \<^item> \<open>SettlementSplits\<close>: \<^verbatim>\<open>settlement-splits.js\<close>, \<^verbatim>\<open>hold-exposure.js\<close> and \<^verbatim>\<open>sumSkillLicenseFeesCents\<close> of \<^verbatim>\<open>skills.js\<close>.
  \<^item> \<open>LedgerPostings\<close>: \<^verbatim>\<open>ledger-postings.js\<close>, which turns job events into journal entries of \<open>Ledger\<close> with the shares of
    \<open>SettlementSplits\<close>. Every entry balances; booking and settling a job close its escrow.
  \<^item> \<open>Documents\<close>: object literals passed through \<open>normalizeForCanonicalJson\<close> (\<open>literal_doc\<close>: ordinary keys and JSON
    leaves), shared by the theories below.
  \<^item> \<open>SettlementPolicy\<close>: \<^verbatim>\<open>settlement-policy.js\<close>. A decision divides the amount, and is automatic exactly when
    \<open>auto_release_allowed\<close>, the specification of the policy, says so.
  \<^item> \<open>AgreementDelegation\<close> and \<open>DelegationGraph\<close>: the documents and the graph of \<^verbatim>\<open>agreement-delegation.js\<close>. Delegations
    resolve at most once; plans are the ancestors, respectively the descendants, of an agreement; executing
    a plan resolves exactly what it names.
  \<^item> \<open>SettlementAdjustment\<close>: \<^verbatim>\<open>settlement-adjustment.js\<close>, and the locale \<open>hashed_document\<close> interpreted on delegations and
    adjustments: the hash binds the content.
  \<^item> \<open>NormalForm\<close>: documents in normal form (\<open>normal\<close>), on which \<open>normalizeForCanonicalJson\<close> changes nothing.
  \<^item> \<open>SettlementKernel\<close>: \<^verbatim>\<open>settlement-kernel.js\<close>: the decision record and the receipt of a settlement, their hashes (two more
    interpretations of \<open>hashed_document\<close>) and their verification. What is built verifies; a receipt hash binds both documents.
  \<^item> \<open>JsState\<close>: operations that keep the state they reached when they throw (\<open>('s, 'a) call\<close>), and the JSON copy of a value.
  \<^item> \<open>Tenancy\<close>: \<^verbatim>\<open>tenancy.js\<close>. Scoped keys parse back to their tenant and id.
  \<^item> \<open>MoneyRails\<close> and \<open>RailStore\<close>: \<^verbatim>\<open>money-rail-adapters.js\<close>, both adapters and the registry, and the store operations
    behind them (\<^verbatim>\<open>api/store.js\<close>). The locale \<open>operation_store\<close> says what the store-backed adapter needs of a store; it is
    interpreted on the in-memory store, and there both adapters answer every sequence of calls alike, with two differences that
    \<open>backed_rails_refine_memory\<close> spells out: repeated provider events and listings beyond 200 operations. Operations only move
    forward; a request is accepted once.
  \<^item> \<open>AgentRuns\<close>: \<^verbatim>\<open>agent-runs.js\<close>. The fold of an event log accepts exactly the logs \<open>run_log\<close> and its result is the view of the log.
  \<^item> \<open>SettlementVerifier\<close>: \<^verbatim>\<open>settlement-verifier.js\<close> and its caller in the service. What the two verifier plugins report.
  \<^item> \<open>EscrowProjection\<close>: \<^verbatim>\<open>projectEscrowLedgerOperation\<close> of \<^verbatim>\<open>app.js\<close>, which replays a wallet update on a fresh escrow
    ledger. It succeeds exactly when the wallets moved as the operation says: \<open>EscrowLedger\<close> checks \<open>AgentWallets\<close>.
  \<^item> \<open>AgreementMilestones\<close>: the terms of an agreement in \<^verbatim>\<open>app.js\<close>, the share a run earns by its milestones, and what a
    closed dispute pays.
  \<^item> \<open>RunMoney\<close>: the handlers of \<^verbatim>\<open>app.js\<close> that lock the escrow of a new run and settle a run that has ended, from the
    wallets they read to the operations they commit, and those operations in \<^verbatim>\<open>persistence.js\<close>. It composes
    \<open>AgentWallets\<close>, \<open>RunSettlement\<close>, \<open>EscrowProjection\<close>, \<open>AgentRuns\<close>, \<open>SettlementVerifier\<close>, \<open>SettlementPolicy\<close> and
    \<open>AgreementMilestones\<close>. The settlement kernel is the parameter \<open>settlement_kernel\<close>, so its
    theorems hold for every kernel.
  \<^item> \<open>RunEscrow\<close>: sequences of credits, creations and endings (\<open>money_step\<close>, \<open>money_run\<close>), each atomic. The escrow of every
    wallet is the sum of its locked settlements, and the money in the store is what was credited.
  \<^item> \<open>RunKernel\<close>: \<open>SettlementKernel\<close> as \<^verbatim>\<open>app.js\<close> uses it (\<^verbatim>\<open>buildSettlementKernelRefs\<close> and its callers at the end of a run).
    \<open>run_kernel\<close> instantiates the parameter of \<open>RunMoney\<close>: the artifacts a run is settled with always verify.

  \<^bold>\<open>How code becomes definitions.\<close> A function has the name it has in the source. Values that come from outside are
  \<open>jsval\<close>; a destructured parameter object is one \<open>jsval\<close> argument \<open>args\<close>. A function that may throw returns
  \<open>js_error + 'a\<close>, with the message of the code; where the code changes its state before it throws, the state is
  returned with the error. A normalizer that returns a fixed shape returns a record, and \<open>js_of_\<dots>\<close> turns the record
  into the object the next call gets. A \<^verbatim>\<open>Map\<close> is a map or, where its order matters, an association list.

  \<^bold>\<open>Parameters.\<close> SHA-256 (\<open>H\<close> or \<open>sha256Hex\<close>; a theorem says whether it needs hexadecimal output, and collision freedom is
  assumed only on the finite set of texts at hand), Ed25519 signing and verification, the clock (\<open>now\<close>), fresh
  identifiers (\<^verbatim>\<open>createId\<close>), the URL parser of the verifier, and sorting by \<^verbatim>\<open>localeCompare\<close> (\<open>lsort\<close>, assumed to permute, or to sort idempotently).

  \<^bold>\<open>Bounds.\<close> Amounts are safe integers where the code checks it, and sums and products are rounded as doubles
  elsewhere: \<open>add_int\<close> is \<^verbatim>\<open>a + b\<close>, \<open>floor_mul_div\<close> is \<^verbatim>\<open>Math.floor((a * b) / c)\<close>, \<open>floor_mul_lit\<close> is \<^verbatim>\<open>Math.floor(a * 0.2)\<close>
  and the like. Exactness of percentages is proved below \<open>2 ^ 46\<close> or \<open>2 ^ 50\<close> cents, as stated. All loops are
  total functions with a measure; fuel is used only in printing doubles (700 steps to find the decimal point, which
  exceeds the exponent range of doubles).

  \<^bold>\<open>Findings.\<close> Proved as theorems: \<open>createJournalEntry_accepts_unbalanced\<close>, \<open>canonical_json_drops_proto\<close>,
  \<open>escrow_account_ids_collide\<close>, \<open>merkle_root_odd_collision\<close>, \<open>small_settlement_rejected\<close>, the exception in
  \<open>adjustment_build_validates\<close>, \<open>interleaved_create_resets\<close> and \<open>rail_status_crosses_tenants\<close> (money rails),
  \<open>schema_check_default_latency\<close> and \<open>latency_unknown_is_green\<close> (\<^verbatim>\<open>Number(null)\<close> is zero), \<open>self_settlement_never_released\<close> (an agent that
  pays itself), \<open>interleaved_holds_overcommit\<close> (two creations that overlap lock one amount), \<open>unusual_run_id_stuck\<close> (a run whose
  id the kernel does not admit), and the condition on the normalization version in \<open>kernel_build_verifies\<close>.

  \<^bold>\<open>Not modelled.\<close> Of the HTTP API (\<^verbatim>\<open>api/\<close>) everything but the handlers named above: their routing, authentication,
  idempotency records, billing and marketplace tasks, and the handlers of other resources. Of the stores everything but
  wallets, settlements and money rails; the database (\<^verbatim>\<open>db/\<close>). The magic-link service, SDKs, dashboards and scripts: input
  and output around the core. \<^verbatim>\<open>crypto.js\<close> calls the host's library. The payload validators of \<^verbatim>\<open>claims.js\<close> and \<^verbatim>\<open>skills.js\<close>,
  x402 receipts, authority grants and the proof and finance bundles. Strings beyond
  Latin-1, symbols and prototypes other than the plain ones are outside \<open>jsval\<close>; a typed amount does not tell \<^verbatim>\<open>-0\<close>
  from \<^verbatim>\<open>0\<close>, except in documents, where the code does.
\<close>

end
